(* ===== verification/Prelude.thy ===== *)
theory Prelude
  imports Main "HOL-Library.Char_ord" "HOL-Library.List_Lexorder" "HOL-Library.Sublist"
begin

text \<open>
  What every component of the Hospitus development shares: Go error values and the
  \<open>errors.Is\<close>/\<open>errors.As\<close> walks over them, the functions of Go's \<open>strings\<close>,
  \<open>strconv\<close> and \<open>unicode/utf8\<close> packages the source calls, and generic lemmas on
  lists and maps.

  A Go string is a sequence of bytes; the model's \<^typ>\<open>string\<close> is a list of
  8-bit \<^typ>\<open>char\<close>s, so \<open>len\<close> is \<^term>\<open>length\<close> and the order of
  \<open>sort.Strings\<close> is the lexicographic order of \<^verbatim>\<open>List_Lexorder\<close> over
  \<^verbatim>\<open>Char_ord\<close>.
\<close>

named_theorems go_strings \<open>characterisations of Go's string functions\<close>
named_theorems go_errors \<open>evaluation of error values\<close>

section \<open>Error values\<close>

text \<open>
  \<open>fmt.Errorf\<close> without and with a wrapped error, \<open>errors.Join\<close>, and the one error
  struct of the source that callers look for with \<open>errors.As\<close>
  (\<open>provider.ProviderError\<close>). The format string is kept as written, with its arguments
  beside it. A Go \<open>error\<close> result that may be nil is a \<open>go_error option\<close>.
\<close>

datatype go_error =
    Errorf string "string list"
  | Wrapf string "string list" go_error
  | Joined "go_error list"
  | ProviderError string string string go_error

type_synonym 'a go_result = "go_error + 'a"

fun errors_is :: "go_error \<Rightarrow> go_error \<Rightarrow> bool" where
  "errors_is (Errorf f xs) t = (t = Errorf f xs)"
| "errors_is (Wrapf f xs e) t = (t = Wrapf f xs e \<or> errors_is e t)"
| "errors_is (Joined es) t = (t = Joined es \<or> (\<exists>e \<in> set es. errors_is e t))"
| "errors_is (ProviderError p q i e) t = (t = ProviderError p q i e \<or> errors_is e t)"

fun errors_as_provider :: "go_error \<Rightarrow> bool" where
  "errors_as_provider (Errorf f xs) = False"
| "errors_as_provider (Wrapf f xs e) = errors_as_provider e"
| "errors_as_provider (Joined es) = (\<exists>e \<in> set es. errors_as_provider e)"
| "errors_as_provider (ProviderError p q i e) = True"

lemma errors_is_refl [simp]: "errors_is e e"
  by (cases e) auto

lemma errors_is_Wrapf [go_errors]: "errors_is (Wrapf f xs e) e"
  by simp

definition bind_res :: "('e + 'a) \<Rightarrow> ('a \<Rightarrow> 'e + 'b) \<Rightarrow> 'e + 'b" where
  "bind_res r f = (case r of Inl e \<Rightarrow> Inl e | Inr x \<Rightarrow> f x)"

lemma bind_res_simps [simp]:
  "bind_res (Inl e) f = Inl e"
  "bind_res (Inr x) f = f x"
  by (simp_all add: bind_res_def)

lemma bind_res_Inr_iff: "bind_res r f = Inr y \<longleftrightarrow> (\<exists>x. r = Inr x \<and> f x = Inr y)"
  by (cases r) auto

text \<open>A sequence of checks that stops at the first error, as \<open>for ... if err != nil return\<close>.\<close>

fun first_error :: "('a \<Rightarrow> 'e option) \<Rightarrow> 'a list \<Rightarrow> 'e option" where
  "first_error f [] = None"
| "first_error f (x # xs) = (case f x of Some e \<Rightarrow> Some e | None \<Rightarrow> first_error f xs)"

lemma first_error_cong [fundef_cong]:
  "xs = ys \<Longrightarrow> (\<And>x. x \<in> set ys \<Longrightarrow> f x = g x) \<Longrightarrow> first_error f xs = first_error g ys"
  by (induction ys arbitrary: xs) (auto split: option.splits)

lemma first_error_None_iff: "first_error f xs = None \<longleftrightarrow> (\<forall>x \<in> set xs. f x = None)"
  by (induction xs) (auto split: option.splits)

lemma case_error_None_iff:
  "(case a of None \<Rightarrow> b | Some e \<Rightarrow> Some e) = None \<longleftrightarrow> a = None \<and> b = None"
  by (cases a) auto

lemma first_error_Some: "first_error f xs = Some e \<Longrightarrow> \<exists>x \<in> set xs. f x = Some e"
  by (induction xs) (auto split: option.splits)

section \<open>Bytes and character classes\<close>

definition byte :: "char \<Rightarrow> nat" where
  "byte c = of_char c"

lemma byte_bound: "byte c < 256"
  by (simp add: byte_def)

lemma byte_inj: "byte a = byte b \<longleftrightarrow> a = b"
  by (simp add: byte_def of_char_eq_iff)

lemma byte_le_iff: "byte a \<le> byte b \<longleftrightarrow> a \<le> b"
  by (simp add: byte_def less_eq_char_def)

definition in_range :: "char \<times> char \<Rightarrow> char \<Rightarrow> bool" where
  "in_range r c \<longleftrightarrow> byte (fst r) \<le> byte c \<and> byte c \<le> byte (snd r)"

lemma in_range_single [simp]: "in_range (a, a) c \<longleftrightarrow> c = a"
  by (auto simp: in_range_def byte_inj [symmetric])

definition in_class :: "(char \<times> char) list \<Rightarrow> char \<Rightarrow> bool" where
  "in_class rs c \<longleftrightarrow> (\<exists>r \<in> set rs. in_range r c)"

lemma in_class_Nil [simp]: "\<not> in_class [] c"
  by (simp add: in_class_def)

lemma in_class_Cons [simp]: "in_class (r # rs) c \<longleftrightarrow> in_range r c \<or> in_class rs c"
  by (auto simp: in_class_def)

definition is_digit :: "char \<Rightarrow> bool" where
  "is_digit c = in_range (CHR ''0'', CHR ''9'') c"

definition digit_val :: "char \<Rightarrow> nat" where
  "digit_val c = byte c - 48"

lemma digit_val_bound: "is_digit c \<Longrightarrow> digit_val c < 10"
  by (auto simp: is_digit_def in_range_def digit_val_def byte_def)

section \<open>Package strings\<close>

abbreviation HasPrefix :: "string \<Rightarrow> string \<Rightarrow> bool" where
  "HasPrefix s p \<equiv> prefix p s"

abbreviation Contains :: "string \<Rightarrow> string \<Rightarrow> bool" where
  "Contains s sub \<equiv> sublist sub s"

text \<open>\<open>strings.ContainsAny\<close> with an ASCII character set, and \<open>strings.ContainsRune(s, 0)\<close>.\<close>

definition ContainsAny :: "string \<Rightarrow> string \<Rightarrow> bool" where
  "ContainsAny s cs \<longleftrightarrow> list_ex (\<lambda>c. c \<in> set cs) s"

lemma ContainsAny_iff [go_strings]: "ContainsAny s cs \<longleftrightarrow> set s \<inter> set cs \<noteq> {}"
  by (auto simp: ContainsAny_def list_ex_iff)

definition NUL :: char where
  "NUL = CHR 0x00"

definition has_nul :: "string \<Rightarrow> bool" where
  "has_nul s \<longleftrightarrow> NUL \<in> set s"

text \<open>\<open>strings.Split(s, sep)\<close> for a one-byte separator.\<close>

fun split_on :: "char \<Rightarrow> string \<Rightarrow> string list" where
  "split_on d [] = [[]]"
| "split_on d (c # s) =
     (if c = d then [] # split_on d s
      else (case split_on d s of [] \<Rightarrow> [[c]] | p # ps \<Rightarrow> (c # p) # ps))"

lemma split_on_nonempty [simp]: "split_on d s \<noteq> []"
  by (induction s) (auto split: list.splits)

lemma split_on_parts: "p \<in> set (split_on d s) \<Longrightarrow> d \<notin> set p"
  by (induction s arbitrary: p) (auto split: list.splits if_splits)

text \<open>\<open>strings.Join\<close> with a one-byte separator.\<close>

fun join_with :: "char \<Rightarrow> string list \<Rightarrow> string" where
  "join_with d [] = []"
| "join_with d [p] = p"
| "join_with d (p # q # ps) = p @ d # join_with d (q # ps)"

lemma join_with_Cons: "ps \<noteq> [] \<Longrightarrow> join_with d (p # ps) = p @ d # join_with d ps"
  by (cases ps) auto

lemma join_split_on: "join_with d (split_on d s) = s"
proof (induction s)
  case (Cons c s)
  obtain p ps where ps: "split_on d s = p # ps"
    by (meson neq_Nil_conv split_on_nonempty)
  with Cons show ?case
    by (cases ps) (auto simp: join_with_Cons)
qed simp

lemma split_on_free: "d \<notin> set p \<Longrightarrow> split_on d p = [p]"
  by (induction p) auto

lemma split_on_append: "d \<notin> set p \<Longrightarrow> split_on d (p @ d # s) = p # split_on d s"
  by (induction p) auto

lemma split_join_on: "ps \<noteq> [] \<Longrightarrow> \<forall>p \<in> set ps. d \<notin> set p \<Longrightarrow> split_on d (join_with d ps) = ps"
proof (induction ps)
  case (Cons p ps)
  then show ?case
    by (cases ps) (auto simp: split_on_free split_on_append)
qed simp

lemma split_on_append_gen: "split_on d (a @ d # b) = split_on d a @ split_on d b"
  by (induction a) (auto split: list.splits)

text \<open>\<open>strings.Cut(s, sep)\<close> for a one-byte separator: \<^const>\<open>None\<close> when it is not found.\<close>

fun cut_at :: "char \<Rightarrow> string \<Rightarrow> (string \<times> string) option" where
  "cut_at d [] = None"
| "cut_at d (c # s) =
     (if c = d then Some ([], s)
      else (case cut_at d s of None \<Rightarrow> None | Some (a, b) \<Rightarrow> Some (c # a, b)))"

lemma cut_at_None_iff: "cut_at d s = None \<longleftrightarrow> d \<notin> set s"
  by (induction s) (auto split: option.splits)

lemma cut_at_Some_iff: "cut_at d s = Some (a, b) \<longleftrightarrow> s = a @ d # b \<and> d \<notin> set a"
proof (induction s arbitrary: a b)
  case (Cons c s)
  show ?case
  proof (cases "c = d")
    case False
    have "cut_at d (c # s) = Some (a, b) \<longleftrightarrow> (\<exists>a'. a = c # a' \<and> cut_at d s = Some (a', b))"
      using False by (auto split: option.splits)
    with False Cons.IH show ?thesis by (auto simp: Cons_eq_append_conv)
  qed (auto simp: Cons_eq_append_conv)
qed simp

text \<open>
  \<open>strings.LastIndex\<close> of a one-byte separator, as the two slices the source takes around
  the index: \<open>s[:i]\<close> and \<open>s[i+1:]\<close>.
\<close>

definition cut_last :: "char \<Rightarrow> string \<Rightarrow> (string \<times> string) option" where
  "cut_last d s = map_option (\<lambda>(a, b). (rev b, rev a)) (cut_at d (rev s))"

lemma cut_last_None_iff: "cut_last d s = None \<longleftrightarrow> d \<notin> set s"
  by (simp add: cut_last_def cut_at_None_iff)

lemma cut_last_Some_iff: "cut_last d s = Some (a, b) \<longleftrightarrow> s = a @ d # b \<and> d \<notin> set b"
proof -
  have "cut_last d s = Some (a, b) \<longleftrightarrow> cut_at d (rev s) = Some (rev b, rev a)"
    by (auto simp: cut_last_def)
  also have "\<dots> \<longleftrightarrow> rev s = rev b @ d # rev a \<and> d \<notin> set b"
    by (simp add: cut_at_Some_iff)
  also have "rev s = rev b @ d # rev a \<longleftrightarrow> s = a @ d # b"
    by (metis append_Cons append_Nil append_assoc rev_append rev_rev_ident rev_singleton_conv
        rev_eq_Cons_iff rev.simps(2))
  finally show ?thesis .
qed

text \<open>\<open>strings.TrimLeft\<close>, \<open>TrimRight\<close> and \<open>Trim\<close> over a cutset, and \<open>TrimSpace\<close> on ASCII text.\<close>

definition trim_left :: "string \<Rightarrow> string \<Rightarrow> string" where
  "trim_left cs s = dropWhile (\<lambda>c. c \<in> set cs) s"

definition trim_right :: "string \<Rightarrow> string \<Rightarrow> string" where
  "trim_right cs s = rev (dropWhile (\<lambda>c. c \<in> set cs) (rev s))"

definition trim :: "string \<Rightarrow> string \<Rightarrow> string" where
  "trim cs s = trim_right cs (trim_left cs s)"

definition white :: string where
  "white = [CHR '' '', CHR 0x09, CHR 0x0A, CHR 0x0B, CHR 0x0C, CHR 0x0D]"

definition trim_space :: "string \<Rightarrow> string" where
  "trim_space s = trim white s"

lemma trim_left_idem [simp]: "trim_left cs (trim_left cs s) = trim_left cs s"
  by (simp add: trim_left_def)

definition to_upper_char :: "char \<Rightarrow> char" where
  "to_upper_char c = (if in_range (CHR ''a'', CHR ''z'') c then char_of (byte c - 32) else c)"

definition to_upper :: "string \<Rightarrow> string" where
  "to_upper s = map to_upper_char s"

definition to_lower_char :: "char \<Rightarrow> char" where
  "to_lower_char c = (if in_range (CHR ''A'', CHR ''Z'') c then char_of (byte c + 32) else c)"

text \<open>\<open>strings.EqualFold\<close> against an ASCII word.\<close>

definition equal_fold :: "string \<Rightarrow> string \<Rightarrow> bool" where
  "equal_fold s t \<longleftrightarrow> map to_lower_char s = map to_lower_char t"

section \<open>Package strconv: decimal numerals\<close>

fun itoa_nat :: "nat \<Rightarrow> string" where
  "itoa_nat n = (if n < 10 then [char_of (n + 48)]
                 else itoa_nat (n div 10) @ [char_of (n mod 10 + 48)])"

declare itoa_nat.simps [simp del]

definition itoa :: "int \<Rightarrow> string" where
  "itoa i = (if i < 0 then CHR ''-'' # itoa_nat (nat (- i)) else itoa_nat (nat i))"

definition atoi_nat :: "string \<Rightarrow> nat" where
  "atoi_nat s = fold (\<lambda>c n. 10 * n + digit_val c) s 0"

lemma digit_char:
  assumes "d < 10"
  shows "is_digit (char_of (d + 48 :: nat))" "digit_val (char_of (d + 48 :: nat)) = d"
  using assms by (simp_all add: is_digit_def in_range_def digit_val_def byte_def)

lemma atoi_nat_snoc: "atoi_nat (s @ [c]) = 10 * atoi_nat s + digit_val c"
  by (simp add: atoi_nat_def)

lemma atoi_itoa_nat [simp]: "atoi_nat (itoa_nat n) = n"
proof (induction n rule: itoa_nat.induct)
  case (1 n)
  show ?case
  proof (cases "n < 10")
    case True
    then show ?thesis by (subst itoa_nat.simps) (simp add: atoi_nat_def digit_char)
  next
    case False
    with "1.IH" show ?thesis
      by (subst itoa_nat.simps) (simp add: atoi_nat_snoc digit_char)
  qed
qed

lemma itoa_nat_digits: "list_all is_digit (itoa_nat n)"
proof (induction n rule: itoa_nat.induct)
  case (1 n)
  then show ?case
    by (subst itoa_nat.simps) (auto simp: digit_char)
qed

lemma itoa_nat_nonempty [simp]: "itoa_nat n \<noteq> []"
  by (subst itoa_nat.simps) simp

lemma itoa_nat_inj [simp]: "itoa_nat m = itoa_nat n \<longleftrightarrow> m = n"
  by (metis atoi_itoa_nat)

text \<open>A digit string without a superfluous leading zero is the numeral of its own value.\<close>

lemma digit_val_char: "is_digit c \<Longrightarrow> char_of (digit_val c + 48) = c"
  by (auto simp: is_digit_def in_range_def digit_val_def byte_def)

lemma digit_val_pos: "is_digit c \<Longrightarrow> c \<noteq> CHR ''0'' \<Longrightarrow> 0 < digit_val c"
  using byte_inj [of c "CHR ''0''"]
  by (auto simp: is_digit_def in_range_def digit_val_def byte_def)

lemma atoi_nat_pos: "s \<noteq> [] \<Longrightarrow> is_digit (hd s) \<Longrightarrow> hd s \<noteq> CHR ''0'' \<Longrightarrow> 0 < atoi_nat s"
proof (induction s rule: rev_induct)
  case (snoc c s)
  show ?case
  proof (cases "s = []")
    case True
    with snoc.prems digit_val_pos show ?thesis by (simp add: atoi_nat_def)
  next
    case False
    with snoc show ?thesis by (simp add: atoi_nat_snoc)
  qed
qed simp

lemma itoa_atoi_nat:
  "s \<noteq> [] \<Longrightarrow> list_all is_digit s \<Longrightarrow> length s = 1 \<or> hd s \<noteq> CHR ''0'' \<Longrightarrow>
   itoa_nat (atoi_nat s) = s"
proof (induction s rule: rev_induct)
  case (snoc c s)
  from snoc.prems have dig: "is_digit c" "digit_val c < 10" by (simp_all add: digit_val_bound)
  show ?case
  proof (cases "s = []")
    case True
    with dig show ?thesis by (subst itoa_nat.simps) (simp add: atoi_nat_def digit_val_char)
  next
    case False
    with snoc.prems have hd: "hd s \<noteq> CHR ''0''" "is_digit (hd s)"
      by (auto simp: list_all_iff)
    with False have "0 < atoi_nat s" by (intro atoi_nat_pos)
    moreover have "itoa_nat (atoi_nat s) = s"
      using snoc False hd by simp
    ultimately show ?thesis
      using dig by (subst itoa_nat.simps) (simp add: atoi_nat_snoc digit_val_char)
  qed
qed simp

lemma itoa_nat_canonical: "length (itoa_nat n) = 1 \<or> hd (itoa_nat n) \<noteq> CHR ''0''"
proof (induction n rule: itoa_nat.induct)
  case (1 n)
  show ?case
  proof (cases "n < 10")
    case True
    then show ?thesis by (subst itoa_nat.simps) simp
  next
    case False
    have "hd (itoa_nat (n div 10)) \<noteq> CHR ''0''"
    proof (cases "length (itoa_nat (n div 10)) = 1")
      case True
      then obtain c where c: "itoa_nat (n div 10) = [c]"
        by (cases "itoa_nat (n div 10)") auto
      then have "n div 10 = digit_val c"
        using atoi_itoa_nat [of "n div 10"] by (simp add: atoi_nat_def)
      with False c show ?thesis by (auto simp: digit_val_def byte_def)
    qed (use "1.IH" False in simp)
    with False show ?thesis
      by (subst itoa_nat.simps) (simp add: hd_append, subst itoa_nat.simps, simp)
  qed
qed

text \<open>\<open>strings.Fields\<close> on ASCII text.\<close>

definition go_fields :: "string \<Rightarrow> string list" where
  "go_fields s = filter (\<lambda>f. f \<noteq> []) (split_on CHR '' '' (map (\<lambda>c. if c \<in> set white then CHR '' '' else c) s))"

text \<open>\<open>strconv.ParseInt(s, 10, 64)\<close>, which \<open>strconv.Atoi\<close> is on a 64-bit host.\<close>

definition parse_int64 :: "string \<Rightarrow> int go_result" where
  "parse_int64 s =
     (let neg = HasPrefix s ''-'';
          ds = (if neg \<or> HasPrefix s ''+'' then tl s else s)
      in if ds = [] \<or> \<not> list_all is_digit ds then Inl (Errorf ''strconv.ParseInt: parsing %q: invalid syntax'' [s])
         else let v = (if neg then - int (atoi_nat ds) else int (atoi_nat ds)) in
              if - (2 ^ 63) \<le> v \<and> v < 2 ^ 63 then Inr v
              else Inl (Errorf ''strconv.ParseInt: parsing %q: value out of range'' [s]))"

section \<open>Package unicode/utf8\<close>

text \<open>
  \<open>utf8.ValidString\<close>, with the accept ranges of the standard library: the range of the
  second byte depends on the first, which excludes overlong forms, surrogates and values
  above U+10FFFF.
\<close>

definition cont_in :: "nat \<Rightarrow> nat \<Rightarrow> char \<Rightarrow> bool" where
  "cont_in lo hi c \<longleftrightarrow> lo \<le> byte c \<and> byte c \<le> hi"

definition second_range :: "nat \<Rightarrow> nat \<times> nat" where
  "second_range b =
     (if b = 0xE0 then (0xA0, 0xBF)
      else if b = 0xED then (0x80, 0x9F)
      else if b = 0xF0 then (0x90, 0xBF)
      else if b = 0xF4 then (0x80, 0x8F)
      else (0x80, 0xBF))"

fun utf8_valid :: "string \<Rightarrow> bool" where
  "utf8_valid [] = True"
| "utf8_valid (a # s) =
     (let b = byte a; (lo, hi) = second_range b in
      if b < 0x80 then utf8_valid s
      else if 0xC2 \<le> b \<and> b \<le> 0xDF then
        (case s of c1 # r \<Rightarrow> cont_in lo hi c1 \<and> utf8_valid r | _ \<Rightarrow> False)
      else if 0xE0 \<le> b \<and> b \<le> 0xEF then
        (case s of c1 # c2 # r \<Rightarrow> cont_in lo hi c1 \<and> cont_in 0x80 0xBF c2 \<and> utf8_valid r
         | _ \<Rightarrow> False)
      else if 0xF0 \<le> b \<and> b \<le> 0xF4 then
        (case s of c1 # c2 # c3 # r \<Rightarrow>
             cont_in lo hi c1 \<and> cont_in 0x80 0xBF c2 \<and> cont_in 0x80 0xBF c3 \<and> utf8_valid r
         | _ \<Rightarrow> False)
      else False)"

lemma utf8_valid_ascii: "list_all (\<lambda>c. byte c < 128) s \<Longrightarrow> utf8_valid s"
  by (induction s) auto

section \<open>Lists and maps\<close>

lemma map_upd_delete [simp]: "(m(k \<mapsto> v))(k := None) = m(k := None)"
  by simp

text \<open>Reading a list after an update, in range or not.\<close>

lemma nth_update_if: "xs[i := v] ! j = (if i = j \<and> i < length xs then v else xs ! j)"
  by (cases "i < length xs") (simp_all add: nth_list_update list_update_beyond)

lemma filter_neq_distinct: "distinct (map f xs) \<Longrightarrow> distinct (map f (filter P xs))"
  by (simp add: distinct_map_filter)

end
