(* ===== verification/Regex.thy ===== *)
theory Regex
  imports Prelude
begin

text \<open>
  The fragment of Go's \<open>regexp\<close> syntax that the source's patterns use, all of them anchored
  (\<open>^...$\<close>) and over ASCII classes: a denotational semantics (\<open>rx_in\<close>), an executable
  matcher by derivatives (\<open>rx_match\<close>, the model of \<open>MatchString\<close>), and the
  proof that they agree. The bounded repetitions \<open>r{n}\<close> and \<open>r{0,n}\<close> and the closed
  forms of classes under them are derived from the core.
\<close>

named_theorems rx_lang \<open>membership in the language of a pattern\<close>

datatype rx =
    RZero
  | REps
  | RCls "(char \<times> char) list"
  | RSeq rx rx
  | RAlt rx rx
  | RStar rx

section \<open>Semantics\<close>

inductive rx_in :: "rx \<Rightarrow> string \<Rightarrow> bool" where
  eps: "rx_in REps []"
| cls: "in_class rs c \<Longrightarrow> rx_in (RCls rs) [c]"
| seq: "rx_in r s \<Longrightarrow> rx_in q t \<Longrightarrow> rx_in (RSeq r q) (s @ t)"
| altl: "rx_in r s \<Longrightarrow> rx_in (RAlt r q) s"
| altr: "rx_in q s \<Longrightarrow> rx_in (RAlt r q) s"
| star_nil: "rx_in (RStar r) []"
| star_step: "rx_in r s \<Longrightarrow> rx_in (RStar r) t \<Longrightarrow> rx_in (RStar r) (s @ t)"

inductive_simps rx_in_core [simp, rx_lang]:
  "rx_in RZero s"
  "rx_in REps s"
  "rx_in (RCls rs) s"
  "rx_in (RSeq r q) s"
  "rx_in (RAlt r q) s"

section \<open>The matcher\<close>

fun nullable :: "rx \<Rightarrow> bool" where
  "nullable RZero = False"
| "nullable REps = True"
| "nullable (RCls rs) = False"
| "nullable (RSeq r q) = (nullable r \<and> nullable q)"
| "nullable (RAlt r q) = (nullable r \<or> nullable q)"
| "nullable (RStar r) = True"

fun deriv :: "char \<Rightarrow> rx \<Rightarrow> rx" where
  "deriv c RZero = RZero"
| "deriv c REps = RZero"
| "deriv c (RCls rs) = (if in_class rs c then REps else RZero)"
| "deriv c (RSeq r q) =
     (if nullable r then RAlt (RSeq (deriv c r) q) (deriv c q) else RSeq (deriv c r) q)"
| "deriv c (RAlt r q) = RAlt (deriv c r) (deriv c q)"
| "deriv c (RStar r) = RSeq (deriv c r) (RStar r)"

fun rx_match :: "rx \<Rightarrow> string \<Rightarrow> bool" where
  "rx_match r [] = nullable r"
| "rx_match r (c # s) = rx_match (deriv c r) s"

lemma star_empty_iff [simp]: "rx_in (RStar r) []"
  by (rule rx_in.star_nil)

lemma nullable_iff: "nullable r \<longleftrightarrow> rx_in r []"
  by (induction r) auto

lemma star_Cons_iff:
  "rx_in (RStar r) (c # s) \<longleftrightarrow> (\<exists>u v. s = u @ v \<and> rx_in r (c # u) \<and> rx_in (RStar r) v)"
proof
  have "rx_in x w \<Longrightarrow> x = RStar r \<Longrightarrow> w = c # s \<Longrightarrow>
      \<exists>u v. s = u @ v \<and> rx_in r (c # u) \<and> rx_in (RStar r) v" for x w
    by (induction arbitrary: s rule: rx_in.induct) (auto simp: append_eq_Cons_conv)
  then show "rx_in (RStar r) (c # s) \<Longrightarrow>
      \<exists>u v. s = u @ v \<and> rx_in r (c # u) \<and> rx_in (RStar r) v" by blast
next
  assume "\<exists>u v. s = u @ v \<and> rx_in r (c # u) \<and> rx_in (RStar r) v"
  then show "rx_in (RStar r) (c # s)"
    using rx_in.star_step by fastforce
qed

lemma seq_Cons_iff:
  "rx_in (RSeq r q) (c # s) \<longleftrightarrow>
     (rx_in r [] \<and> rx_in q (c # s)) \<or>
     (\<exists>u v. s = u @ v \<and> rx_in r (c # u) \<and> rx_in q v)"
  by (auto simp: Cons_eq_append_conv)

lemma deriv_iff: "rx_in (deriv c r) s \<longleftrightarrow> rx_in r (c # s)"
proof (induction r arbitrary: s)
  case (RSeq r q)
  then show ?case
    by (simp only: seq_Cons_iff) (auto simp: nullable_iff)
next
  case (RStar r)
  then show ?case by (simp add: star_Cons_iff)
qed auto

theorem rx_match_iff: "rx_match r s \<longleftrightarrow> rx_in r s"
  by (induction s arbitrary: r) (simp_all add: nullable_iff deriv_iff)

section \<open>Derived forms\<close>

definition ROpt :: "rx \<Rightarrow> rx" where
  "ROpt r = RAlt REps r"

fun RTimes :: "nat \<Rightarrow> rx \<Rightarrow> rx" where
  "RTimes 0 r = REps"
| "RTimes (Suc n) r = RSeq r (RTimes n r)"

fun RUpTo :: "nat \<Rightarrow> rx \<Rightarrow> rx" where
  "RUpTo 0 r = REps"
| "RUpTo (Suc n) r = RAlt REps (RSeq r (RUpTo n r))"

definition RChar :: "char \<Rightarrow> rx" where
  "RChar c = RCls [(c, c)]"

lemma rx_in_ROpt [simp, rx_lang]: "rx_in (ROpt r) s \<longleftrightarrow> s = [] \<or> rx_in r s"
  by (simp add: ROpt_def)

lemma rx_in_RChar [simp, rx_lang]: "rx_in (RChar c) s \<longleftrightarrow> s = [c]"
  by (auto simp: RChar_def in_range_def byte_inj)

lemma rx_in_RStar_cls [simp, rx_lang]: "rx_in (RStar (RCls rs)) s \<longleftrightarrow> list_all (in_class rs) s"
  by (induction s) (auto simp: star_Cons_iff)

lemma rx_in_cls_then [rx_lang]:
  "rx_in (RSeq (RCls rs) q) s \<longleftrightarrow> (\<exists>c t. s = c # t \<and> in_class rs c \<and> rx_in q t)"
proof
  assume "rx_in (RSeq (RCls rs) q) s"
  then show "\<exists>c t. s = c # t \<and> in_class rs c \<and> rx_in q t" by auto
next
  assume "\<exists>c t. s = c # t \<and> in_class rs c \<and> rx_in q t"
  then obtain c t where "s = [c] @ t" "in_class rs c" "rx_in q t" by auto
  then show "rx_in (RSeq (RCls rs) q) s"
    using rx_in.seq rx_in.cls by metis
qed

lemma rx_in_RTimes_cls [rx_lang]:
  "rx_in (RTimes n (RCls rs)) s \<longleftrightarrow> length s = n \<and> list_all (in_class rs) s"
proof (induction n arbitrary: s)
  case (Suc n)
  then show ?case by (cases s) (auto simp add: rx_in_cls_then simp del: rx_in_core(4))
qed auto

lemma rx_in_RUpTo_cls [rx_lang]:
  "rx_in (RUpTo n (RCls rs)) s \<longleftrightarrow> length s \<le> n \<and> list_all (in_class rs) s"
proof (induction n arbitrary: s)
  case (Suc n)
  then show ?case by (cases s) (auto simp add: rx_in_cls_then simp del: rx_in_core(4))
qed auto

text \<open>
  The shape of most name patterns of the source: one character of a first class, then at
  most \<open>n\<close> of a second.
\<close>

definition name_rx :: "(char \<times> char) list \<Rightarrow> (char \<times> char) list \<Rightarrow> nat \<Rightarrow> rx" where
  "name_rx fs rs n = RSeq (RCls fs) (RUpTo n (RCls rs))"

lemma name_rx_iff:
  "rx_match (name_rx fs rs n) s \<longleftrightarrow>
     s \<noteq> [] \<and> length s \<le> Suc n \<and> in_class fs (hd s) \<and> list_all (in_class rs) (tl s)"
  by (cases s) (auto simp: rx_match_iff name_rx_def rx_in_cls_then rx_in_RUpTo_cls
      simp del: rx_in_core)

text \<open>Every character of a match of a pattern lies in one of the pattern's classes.\<close>

fun rx_chars :: "rx \<Rightarrow> (char \<times> char) list" where
  "rx_chars RZero = []"
| "rx_chars REps = []"
| "rx_chars (RCls rs) = rs"
| "rx_chars (RSeq r q) = rx_chars r @ rx_chars q"
| "rx_chars (RAlt r q) = rx_chars r @ rx_chars q"
| "rx_chars (RStar r) = rx_chars r"

lemma in_class_append [simp]: "in_class (as @ bs) c \<longleftrightarrow> in_class as c \<or> in_class bs c"
  by (auto simp: in_class_def)

lemma rx_in_chars: "rx_in r s \<Longrightarrow> c \<in> set s \<Longrightarrow> in_class (rx_chars r) c"
  by (induction rule: rx_in.induct) auto

lemma rx_match_chars: "rx_match r s \<Longrightarrow> c \<in> set s \<Longrightarrow> in_class (rx_chars r) c"
  by (simp add: rx_match_iff rx_in_chars)

end
