(* ===== verification/NetIP.thy ===== *)
theory NetIP
  imports Prelude
begin

text \<open>
  The functions of Go's \<open>net\<close> package that the source calls on addresses:
  \<open>net.ParseIP\<close>, \<open>net.ParseCIDR\<close>, \<open>IP.To4\<close>, \<open>IPNet.Contains\<close>,
  \<open>net.SplitHostPort\<close> and \<open>net.JoinHostPort\<close>. An address is the list of its 16 bytes,
  an IPv4 address in its mapped form, as Go's \<open>net.IP\<close> is.
\<close>

type_synonym ip16 = "nat list"

record ipnet =
  net_ip :: ip16
  net_ones :: nat
  net_bits :: nat

section \<open>Parsing\<close>

definition parse_octet :: "string \<Rightarrow> nat option" where
  "parse_octet s =
     (if s \<noteq> [] \<and> list_all is_digit s \<and> (length s = 1 \<or> hd s \<noteq> CHR ''0'') \<and> atoi_nat s \<le> 255
      then Some (atoi_nat s) else None)"

definition parse_v4_fields :: "string \<Rightarrow> nat list option" where
  "parse_v4_fields s =
     (case map parse_octet (split_on CHR ''.'' s) of
        [Some a, Some b, Some c, Some d] \<Rightarrow> Some [a, b, c, d]
      | _ \<Rightarrow> None)"

definition v4_prefix :: "nat list" where
  "v4_prefix = replicate 10 0 @ [255, 255]"

definition is_hex :: "char \<Rightarrow> bool" where
  "is_hex c = in_class [(CHR ''0'', CHR ''9''), (CHR ''a'', CHR ''f''), (CHR ''A'', CHR ''F'')] c"

definition hex_val :: "char \<Rightarrow> nat" where
  "hex_val c = (if is_digit c then byte c - 48
                else if in_range (CHR ''a'', CHR ''f'') c then byte c - 87 else byte c - 55)"

definition hex_nat :: "string \<Rightarrow> nat" where
  "hex_nat s = fold (\<lambda>c n. 16 * n + hex_val c) s 0"

text \<open>The end of \<open>netip.parseIPv6\<close>: the whole string is used, the ellipsis is expanded.\<close>

definition v6_finish :: "string \<Rightarrow> nat list \<Rightarrow> nat option \<Rightarrow> ip16 option" where
  "v6_finish s bs ell =
     (if s \<noteq> [] then None
      else if length bs < 16 then
        (case ell of None \<Rightarrow> None
         | Some e \<Rightarrow> Some (take e bs @ replicate (16 - length bs) 0 @ drop e bs))
      else (case ell of None \<Rightarrow> Some bs | Some _ \<Rightarrow> None))"

text \<open>Its loop: the first argument counts the 16-bit groups still allowed.\<close>

fun v6_loop :: "nat \<Rightarrow> string \<Rightarrow> nat list \<Rightarrow> nat option \<Rightarrow> ip16 option" where
  "v6_loop 0 s bs ell = v6_finish s bs ell"
| "v6_loop (Suc k) s bs ell =
     (let ds = takeWhile is_hex s; rest = dropWhile is_hex s in
      if ds = [] \<or> length ds > 4 then None
      else if rest \<noteq> [] \<and> hd rest = CHR ''.'' then
        (if (ell = None \<and> length bs \<noteq> 12) \<or> length bs + 4 > 16 then None
         else (case parse_v4_fields s of None \<Rightarrow> None | Some f \<Rightarrow> v6_finish [] (bs @ f) ell))
      else
        (let bs' = bs @ [hex_nat ds div 256, hex_nat ds mod 256] in
         case rest of
           [] \<Rightarrow> v6_finish [] bs' ell
         | c # r \<Rightarrow>
             if c \<noteq> CHR '':'' then None
             else (case r of
                 [] \<Rightarrow> None
               | d # r' \<Rightarrow>
                   if d = CHR '':'' then
                     (if ell \<noteq> None then None
                      else if r' = [] then v6_finish [] bs' (Some (length bs'))
                      else v6_loop k r' bs' (Some (length bs')))
                   else v6_loop k r bs' ell)))"

text \<open>Addresses with a zone are refused by both \<open>net.ParseIP\<close> and \<open>net.ParseCIDR\<close>.\<close>

definition parse_v6 :: "string \<Rightarrow> ip16 option" where
  "parse_v6 s =
     (if CHR ''%'' \<in> set s then None
      else if HasPrefix s ''::'' then
        (if length s = 2 then Some (replicate 16 0) else v6_loop 8 (drop 2 s) [] (Some 0))
      else v6_loop 8 s [] None)"

datatype addr_family = FamV4 | FamV6 | FamNone

definition addr_family_of :: "string \<Rightarrow> addr_family" where
  "addr_family_of s =
     (case dropWhile (\<lambda>c. c \<notin> {CHR ''.'', CHR '':'', CHR ''%''}) s of
        [] \<Rightarrow> FamNone
      | c # _ \<Rightarrow> if c = CHR ''.'' then FamV4 else if c = CHR '':'' then FamV6 else FamNone)"

definition ParseIP :: "string \<Rightarrow> ip16 option" where
  "ParseIP s =
     (case addr_family_of s of
        FamV4 \<Rightarrow> map_option (\<lambda>f. v4_prefix @ f) (parse_v4_fields s)
      | FamV6 \<Rightarrow> parse_v6 s
      | FamNone \<Rightarrow> None)"

definition To4 :: "ip16 \<Rightarrow> bool" where
  "To4 ip \<longleftrightarrow> take 12 ip = v4_prefix"

definition parse_prefix_len :: "string \<Rightarrow> nat \<Rightarrow> nat option" where
  "parse_prefix_len m bits =
     (if m \<noteq> [] \<and> list_all is_digit m \<and> atoi_nat m \<le> bits then Some (atoi_nat m) else None)"

definition ParseCIDR :: "string \<Rightarrow> (ip16 \<times> ipnet) option" where
  "ParseCIDR s =
     (case cut_at CHR ''/'' s of
        None \<Rightarrow> None
      | Some (addr, plen) \<Rightarrow>
          (case ParseIP addr of
             None \<Rightarrow> None
           | Some ip \<Rightarrow>
               let bits = (if addr_family_of addr = FamV4 then 32 else 128) in
               map_option (\<lambda>n. (ip, \<lparr>net_ip = ip, net_ones = n, net_bits = bits\<rparr>))
                 (parse_prefix_len plen bits)))"

text \<open>The characters of an address.\<close>

lemma digit_is_hex: "is_digit c \<Longrightarrow> is_hex c"
  by (simp add: is_hex_def is_digit_def)

lemma parse_v4_chars:
  assumes "parse_v4_fields s = Some f" "c \<in> set s"
  shows "is_hex c \<or> c = CHR ''.''"
proof -
  have oct: "is_hex x" if "parse_octet p = Some v" "x \<in> set p" for p v x
    using that digit_is_hex by (auto simp: parse_octet_def list_all_iff split: if_splits)
  obtain a b c' d where ps: "split_on CHR ''.'' s = [a, b, c', d]"
    and ok: "\<forall>p \<in> {a, b, c', d}. \<exists>v. parse_octet p = Some v"
    using assms(1) by (auto simp: parse_v4_fields_def split: list.splits option.splits)
  have "s = join_with CHR ''.'' [a, b, c', d]"
    using join_split_on [of "CHR ''.''" s] ps by simp
  with ok oct assms(2) show ?thesis by auto
qed

lemma v6_loop_chars:
  "v6_loop k s bs ell = Some ip \<Longrightarrow> c \<in> set s \<Longrightarrow> is_hex c \<or> c = CHR ''.'' \<or> c = CHR '':''"
proof (induction k s bs ell rule: v6_loop.induct)
  case (1 s bs ell)
  then show ?case by (auto simp: v6_finish_def split: if_splits)
next
  case (2 k s bs ell)
  let ?ds = "takeWhile is_hex s" and ?r = "dropWhile is_hex s"
  have split: "is_hex c \<or> c \<in> set ?r"
    using "2.prems"(2) by (metis Un_iff set_append set_takeWhileD takeWhile_dropWhile_id)
  show ?case
  proof (cases "?r \<noteq> [] \<and> hd ?r = CHR ''.''")
    case True
    with "2.prems" show ?thesis
      by (auto simp: Let_def split: if_splits option.splits dest: parse_v4_chars)
  next
    case False
    show ?thesis
    proof (cases "?r = []")
      case True
      with split show ?thesis by auto
    next
      case nonempty: False
      with False "2.prems"(1) "2.IH" split show ?thesis
        by (auto simp: Let_def split: if_splits list.splits)
    qed
  qed
qed

lemma ParseIP_chars:
  assumes "ParseIP s = Some ip" "c \<in> set s"
  shows "is_hex c \<or> c = CHR ''.'' \<or> c = CHR '':''"
proof -
  have "is_hex c \<or> c = CHR ''.'' \<or> c = CHR '':''" if "parse_v6 s = Some ip"
  proof (cases "HasPrefix s ''::''")
    case True
    then obtain r where "s = ''::'' @ r" by (auto elim: prefixE)
    with that assms(2) show ?thesis by (auto simp: parse_v6_def split: if_splits dest: v6_loop_chars)
  next
    case False
    with that assms(2) show ?thesis by (auto simp: parse_v6_def split: if_splits dest: v6_loop_chars)
  qed
  with assms show ?thesis
    by (auto simp: ParseIP_def split: addr_family.splits dest: parse_v4_chars)
qed

section \<open>Containment\<close>

definition byte_bits :: "nat \<Rightarrow> bool list" where
  "byte_bits b = map (\<lambda>i. odd (b div 2 ^ i)) [7, 6, 5, 4, 3, 2, 1, 0]"

definition ip_bits :: "ip16 \<Rightarrow> bool list" where
  "ip_bits ip = concat (map byte_bits ip)"

text \<open>
  \<open>IPNet.Contains\<close>: both sides are reduced to four bytes when they are IPv4, the mask to
  its last four bytes when the network is IPv4 and the mask has sixteen; the masked bytes
  are compared, which is the comparison of the first \<open>ones\<close> bits.
\<close>

definition net_contains :: "ipnet \<Rightarrow> ip16 \<Rightarrow> bool" where
  "net_contains n ip =
     (if To4 (net_ip n) then
        To4 ip \<and>
        (let ones = (if net_bits n = 32 then net_ones n else net_ones n - 96) in
         take ones (ip_bits (drop 12 ip)) = take ones (ip_bits (drop 12 (net_ip n))))
      else
        \<not> To4 ip \<and> net_bits n = 128 \<and>
        take (net_ones n) (ip_bits ip) = take (net_ones n) (ip_bits (net_ip n)))"

section \<open>Host and port\<close>

text \<open>
  \<open>net.SplitHostPort\<close> on the \<open>RemoteAddr\<close> of a request, which is \<open>host:port\<close> or
  \<open>[host]:port\<close>; \<^const>\<open>None\<close> is the error return.
\<close>

definition SplitHostPort :: "string \<Rightarrow> (string \<times> string) option" where
  "SplitHostPort hp =
     (case cut_last CHR '':'' hp of
        None \<Rightarrow> None
      | Some (h, p) \<Rightarrow>
          if hp \<noteq> [] \<and> hd hp = CHR ''['' then
            (if h \<noteq> [] \<and> last h = CHR '']'' \<and> length h \<ge> 2
                \<and> CHR '']'' \<notin> set (butlast (tl h)) \<and> CHR ''['' \<notin> set (tl h)
                \<and> CHR ''['' \<notin> set p \<and> CHR '']'' \<notin> set p
             then Some (butlast (tl h), p) else None)
          else if CHR '':'' \<in> set h \<or> CHR ''['' \<in> set hp \<or> CHR '']'' \<in> set hp then None
          else Some (h, p))"

definition JoinHostPort :: "string \<Rightarrow> string \<Rightarrow> string" where
  "JoinHostPort h p =
     (if CHR '':'' \<in> set h then CHR ''['' # h @ '']:'' @ p else h @ CHR '':'' # p)"

section \<open>Facts\<close>

lemma parse_v4_fields_length: "parse_v4_fields s = Some f \<Longrightarrow> length f = 4"
  by (auto simp: parse_v4_fields_def split: list.splits option.splits)

lemma v6_finish_length: "v6_finish s bs ell = Some ip \<Longrightarrow> length bs \<le> 16 \<Longrightarrow> length ip = 16"
  by (auto simp: v6_finish_def split: if_splits option.splits)

lemma v6_loop_length:
  "v6_loop k s bs ell = Some ip \<Longrightarrow> length bs + 2 * k \<le> 16 \<Longrightarrow> length ip = 16"
proof (induction k s bs ell rule: v6_loop.induct)
  case (1 s bs ell)
  then show ?case using v6_finish_length by simp
next
  case (2 k s bs ell)
  then show ?case
    by (auto simp: Let_def split: if_splits list.splits option.splits
        dest!: v6_finish_length dest: parse_v4_fields_length)
qed

lemma ParseIP_length: "ParseIP s = Some ip \<Longrightarrow> length ip = 16"
  by (auto simp: ParseIP_def parse_v6_def v4_prefix_def parse_v4_fields_length
      split: addr_family.splits if_splits dest: v6_loop_length)

lemma JoinHostPort_v4: "CHR '':'' \<notin> set h \<Longrightarrow> JoinHostPort h p = h @ CHR '':'' # p"
  by (simp add: JoinHostPort_def)

text \<open>An address lies in the network of its own full-length prefix, and only there.\<close>

lemma byte_bits_length [simp]: "length (byte_bits b) = 8"
  by (simp add: byte_bits_def)

lemma ip_bits_length: "length (ip_bits ip) = 8 * length ip"
  by (induction ip) (auto simp: ip_bits_def)

lemma net_contains_self:
  "net_ones n \<le> net_bits n \<Longrightarrow> net_bits n = (if To4 (net_ip n) then 32 else 128) \<Longrightarrow>
   net_contains n (net_ip n)"
  by (auto simp: net_contains_def Let_def)

lemma net_contains_zero:
  "To4 (net_ip n) \<Longrightarrow> net_bits n = 32 \<Longrightarrow> net_ones n = 0 \<Longrightarrow> net_contains n ip \<longleftrightarrow> To4 ip"
  by (simp add: net_contains_def)

text \<open>A wider prefix (fewer mask bits) contains everything a narrower one does.\<close>

lemma take_eq_mono: "take n xs = take n ys \<Longrightarrow> m \<le> n \<Longrightarrow> take m xs = take m ys"
  by (metis min.absorb1 take_take)

lemma net_contains_mono:
  assumes "net_contains n ip" "m \<le> net_ones n"
  shows "net_contains (n\<lparr>net_ones := m\<rparr>) ip"
  using assms diff_le_mono [OF assms(2), of 96]
  by (auto simp: net_contains_def Let_def split: if_splits intro: take_eq_mono)

end
