(* ===== verification/Provider.thy ===== *)
theory Provider
  imports Prelude
begin

text \<open>
  Package \<open>pkg/provider\<close>: the data every provider exchanges with the daemon (instance,
  disk and network specifications, handles, states), the provider registry
  (\<open>registry.go\<close>), the error wrapper (\<open>errors.go\<close>), the closed environment of spawned
  processes (\<open>env.go\<close>) and the mapping of instance states to the statuses the API reports
  (\<open>internal/api/models/state.go\<close>). A provider itself is code outside this package: it is
  a type variable \<open>'p\<close> with the functions the registry calls as arguments.
\<close>

section \<open>Data\<close>

datatype instance_state =
    StateUnknown | StateCreating | StateStopped | StateStarting | StateRunning
  | StatePaused | StateStopping | StateMigrating | StateDeleting | StateError

text \<open>
  A value of a provider configuration (\<open>interface{}\<close>), by the shape the validators see
  through a type switch and through reflection: an untyped list or map as a JSON decoder
  builds it, a slice, array, map or pointer of another Go type, a value of a named string
  type, a number, a boolean, or anything else. A map is listed in the order an iteration visits it.
\<close>

datatype config_key = KStr string | KOther

datatype config_value =
    CString string
  | CAnyList "config_value list"
  | CAnyMap "(string \<times> config_value) list"
  | CSlice "config_value list"
  | CMap "(config_key \<times> config_value) list"
  | CPtr "config_value option"
  | CNamedString string
  | CInt int
  | CBool bool
  | CScalar

record instance_handle =
  ih_ID :: string
  ih_Provider :: string
  ih_Metadata :: "string \<rightharpoonup> config_value"

record cloud_init_config =
  ci_UserData :: string
  ci_MetaData :: string
  ci_Network :: string

record disk_spec =
  ds_ID :: string
  ds_Type :: string
  ds_Path :: string
  ds_SizeGB :: int
  ds_Bootable :: bool
  ds_ReadOnly :: bool
  ds_Cache :: string
  ds_DeviceName :: string
  ds_SectorSize :: int

record network_spec =
  ns_ID :: string
  ns_Type :: string
  ns_Bridge :: string
  ns_BridgeFlags :: "string list"
  ns_VLAN :: int
  ns_MAC :: string
  ns_IPv4 :: string
  ns_IPv6 :: string
  ns_IPPool :: string
  ns_MTU :: int

record instance_spec =
  is_Name :: string
  is_Description :: string
  is_CPUs :: int
  is_MemoryMB :: int
  is_MaxProc :: int
  is_ReadBPS :: int
  is_WriteBPS :: int
  is_ReadIOPS :: int
  is_WriteIOPS :: int
  is_Image :: string
  is_OSType :: string
  is_OSVersion :: string
  is_Arch :: string
  is_CloudInit :: "cloud_init_config option"
  is_Bootloader :: string
  is_Disks :: "disk_spec list"
  is_Networks :: "network_spec list"
  is_ProviderConfig :: "(string \<times> config_value) list"
  is_Labels :: "(string \<times> string) list"
  is_Annotations :: "(string \<times> string) list"

record exec_options =
  eo_Command :: string
  eo_Args :: "string list"
  eo_Env :: "(string \<times> string) list"
  eo_WorkingDir :: string
  eo_User :: string
  eo_Timeout :: int

section \<open>Provider errors\<close>

definition NewProviderError :: "string \<Rightarrow> string \<Rightarrow> string \<Rightarrow> go_error \<Rightarrow> go_error" where
  "NewProviderError prov op inst err = ProviderError prov op inst err"

definition WrapError :: "string \<Rightarrow> string \<Rightarrow> string \<Rightarrow> go_error option \<Rightarrow> go_error option" where
  "WrapError prov op inst err =
     (case err of
        None \<Rightarrow> None
      | Some e \<Rightarrow> if errors_as_provider e then Some e
                  else Some (NewProviderError prov op inst e))"

definition ErrInstanceNotFound :: go_error where
  "ErrInstanceNotFound = Errorf ''instance not found'' []"

definition ErrInvalidState :: go_error where
  "ErrInvalidState = Errorf ''invalid instance state'' []"

section \<open>The registry\<close>

record 'p registry =
  reg_providers :: "string \<rightharpoonup> 'p"

definition NewRegistry :: "'p registry" where
  "NewRegistry = \<lparr>reg_providers = Map.empty\<rparr>"

text \<open>The argument is an interface value, so it may be nil; \<open>meta_name\<close> is \<open>Metadata().Name\<close>.\<close>

definition Register ::
    "('p \<Rightarrow> string) \<Rightarrow> 'p registry \<Rightarrow> 'p option \<Rightarrow> go_error option \<times> 'p registry" where
  "Register meta_name r prov =
     (case prov of
        None \<Rightarrow> (Some (Errorf ''provider cannot be nil'' []), r)
      | Some p \<Rightarrow>
          let n = meta_name p in
          if n = [] then (Some (Errorf ''provider name cannot be empty'' []), r)
          else if reg_providers r n \<noteq> None
            then (Some (Errorf ''provider %s already registered'' [n]), r)
          else (None, r\<lparr>reg_providers := (reg_providers r)(n \<mapsto> p)\<rparr>))"

definition Unregister :: "'p registry \<Rightarrow> string \<Rightarrow> go_error option \<times> 'p registry" where
  "Unregister r n =
     (if reg_providers r n = None then (Some (Errorf ''provider %s not found'' [n]), r)
      else (None, r\<lparr>reg_providers := (reg_providers r)(n := None)\<rparr>))"

definition RegistryGet :: "'p registry \<Rightarrow> string \<Rightarrow> 'p go_result" where
  "RegistryGet r n =
     (case reg_providers r n of
        None \<Rightarrow> Inl (Errorf ''provider %s not found'' [n])
      | Some p \<Rightarrow> Inr p)"

definition IsAvailable :: "('p \<Rightarrow> bool) \<Rightarrow> 'p registry \<Rightarrow> string \<Rightarrow> bool" where
  "IsAvailable healthy r n =
     (case RegistryGet r n of Inl _ \<Rightarrow> False | Inr p \<Rightarrow> healthy p)"

section \<open>The environment of spawned processes\<close>

definition blockedEnvPrefixes :: "string list" where
  "blockedEnvPrefixes = [''PATH='', ''LD_'', ''DYLD_'']"

definition blockedEnv :: "string \<Rightarrow> bool" where
  "blockedEnv assignment \<longleftrightarrow> list_ex (\<lambda>p. HasPrefix assignment p) blockedEnvPrefixes"

definition safe_path :: string where
  "safe_path = ''PATH=/usr/local/sbin:/usr/local/bin:/usr/sbin:/usr/bin:/sbin:/bin''"

definition MinimalEnv :: "string list \<Rightarrow> string list" where
  "MinimalEnv extra = safe_path # filter (\<lambda>e. \<not> blockedEnv e) extra"

section \<open>Statuses the API reports\<close>

datatype hospitus_status = StatusOnline | StatusOffline | StatusPending | StatusError | StatusUnknown

fun MapInstanceState :: "instance_state \<Rightarrow> hospitus_status" where
  "MapInstanceState StateRunning = StatusOnline"
| "MapInstanceState StateStopped = StatusOffline"
| "MapInstanceState StateCreating = StatusPending"
| "MapInstanceState StateStarting = StatusPending"
| "MapInstanceState StateStopping = StatusPending"
| "MapInstanceState StateDeleting = StatusPending"
| "MapInstanceState StateError = StatusError"
| "MapInstanceState StatePaused = StatusOffline"
| "MapInstanceState _ = StatusUnknown"

definition MapNodeStatus :: "string \<Rightarrow> hospitus_status" where
  "MapNodeStatus s =
     (if s = ''online'' \<or> s = ''active'' then StatusOnline
      else if s = ''offline'' \<or> s = ''unreachable'' then StatusOffline
      else if s = ''unknown'' \<or> s = '''' then StatusUnknown
      else StatusError)"

section \<open>The registry's contract\<close>

text \<open>
  What the stack manager, the health checker's dispatcher and the API rely on: a name
  resolves to the provider registered under it, registration never replaces a provider,
  and a provider is always found under its own name.
\<close>

definition reg_inv :: "('p \<Rightarrow> string) \<Rightarrow> 'p registry \<Rightarrow> bool" where
  "reg_inv meta_name r \<longleftrightarrow>
     (\<forall>n p. reg_providers r n = Some p \<longrightarrow> meta_name p = n \<and> n \<noteq> [])"

lemma NewRegistry_inv: "reg_inv meta_name NewRegistry"
  by (simp add: reg_inv_def NewRegistry_def)

lemma Register_inv: "reg_inv meta_name r \<Longrightarrow> reg_inv meta_name (snd (Register meta_name r p))"
  by (auto simp: reg_inv_def Register_def Let_def split: option.splits)

lemma Unregister_inv: "reg_inv meta_name r \<Longrightarrow> reg_inv meta_name (snd (Unregister r n))"
  by (auto simp: reg_inv_def Unregister_def)

lemma RegistryGet_Inr_iff: "RegistryGet r n = Inr p \<longleftrightarrow> reg_providers r n = Some p"
  by (auto simp: RegistryGet_def split: option.splits)

locale provider_registry =
  fixes get :: "'r \<Rightarrow> string \<Rightarrow> 'p go_result"
    and put :: "'r \<Rightarrow> 'p option \<Rightarrow> go_error option \<times> 'r"
    and remove :: "'r \<Rightarrow> string \<Rightarrow> go_error option \<times> 'r"
    and pname :: "'p \<Rightarrow> string"
    and inv :: "'r \<Rightarrow> bool"
  assumes put_inv: "inv r \<Longrightarrow> inv (snd (put r q))"
    and remove_inv: "inv r \<Longrightarrow> inv (snd (remove r n))"
    and get_put: "put r (Some p) = (None, r') \<Longrightarrow>
        get r' n = (if n = pname p then Inr p else get r n)"
    and put_fresh: "put r (Some p) = (None, r') \<Longrightarrow> \<exists>e. get r (pname p) = Inl e"
    and put_error: "put r q = (Some e, r') \<Longrightarrow> r' = r"
    and put_nil: "\<exists>e. put r None = (Some e, r)"
    and get_remove: "remove r n = (None, r') \<Longrightarrow>
        (if m = n then \<exists>e. get r' m = Inl e else get r' m = get r m)"
    and get_name: "inv r \<Longrightarrow> get r n = Inr p \<Longrightarrow> pname p = n"
begin

text \<open>A successful registration can be undone, and nothing else moves.\<close>

lemma put_then_remove:
  assumes "put r (Some p) = (None, r1)" "remove r1 (pname p) = (None, r2)" "m \<noteq> pname p"
  shows "get r2 m = get r m"
  using get_put [OF assms(1), of m] get_remove [OF assms(2), of m] assms(3) by simp

text \<open>A name that resolves is never taken over by a later registration.\<close>

lemma put_keeps:
  assumes "get r n = Inr p" "put r q = (err, r')"
  shows "get r' n = Inr p"
proof (cases "err = None \<and> q \<noteq> None")
  case True
  then obtain p' where ok: "put r (Some p') = (None, r')" using assms(2) by auto
  from put_fresh [OF ok] assms(1) have "n \<noteq> pname p'" by auto
  with get_put [OF ok, of n] assms(1) show ?thesis by simp
next
  case False
  with assms(2) put_error put_nil have "r' = r" by (metis not_None_eq prod.inject)
  with assms(1) show ?thesis by simp
qed

end

interpretation reg: provider_registry RegistryGet "Register meta_name" Unregister meta_name
    "reg_inv meta_name" for meta_name :: "'p \<Rightarrow> string"
  by unfold_locales
    (auto simp: Register_inv Unregister_inv Register_def Unregister_def RegistryGet_def reg_inv_def
      Let_def split: option.splits if_splits)

section \<open>Properties\<close>

text \<open>Registering a provider never replaces one that is already registered: a name that
  resolves keeps resolving to the same provider whatever is registered afterwards, and the
  invariant that a provider sits under its own non-empty name is kept.\<close>

theorem register_never_replaces:
  assumes "reg_inv meta_name r" "RegistryGet r n = Inr p" "Register meta_name r q = (err, r')"
  shows "RegistryGet r' n = Inr p \<and> reg_inv meta_name r' \<and> meta_name p = n"
  using reg.put_keeps [OF assms(2,3)] reg.put_inv [OF assms(1), of q] reg.get_name [OF assms(1,2)]
    assms(3) by simp

theorem register_never_replaces_witness:
  "RegistryGet \<lparr>reg_providers = [''jail'' \<mapsto> ''jail'', ''qemu'' \<mapsto> ''qemu'']\<rparr> ''jail''
     = Inr ''jail'' \<and> reg_inv id \<lparr>reg_providers = [''jail'' \<mapsto> ''jail'', ''qemu'' \<mapsto> ''qemu'']\<rparr>"
proof -
  let ?r = "\<lparr>reg_providers = [''jail'' \<mapsto> ''jail'']\<rparr>"
  let ?r' = "\<lparr>reg_providers = [''jail'' \<mapsto> ''jail'', ''qemu'' \<mapsto> ''qemu'']\<rparr>"
  have "reg_inv id ?r" by (simp add: reg_inv_def)
  moreover have "RegistryGet ?r ''jail'' = Inr ''jail''" by (simp add: RegistryGet_def)
  moreover have "Register id ?r (Some ''qemu'') = (None, ?r')"
    by (simp add: Register_def Let_def)
  ultimately show ?thesis by (auto dest: register_never_replaces)
qed

lemma WrapError_nil: "WrapError p q i None = None"
  by (simp add: WrapError_def)

lemma WrapError_idem: "WrapError p q i (WrapError p' q' i' e) = WrapError p' q' i' e"
  by (auto simp: WrapError_def NewProviderError_def split: option.splits)

text \<open>Wrapping an error with provider context keeps nil as nil, always yields an error that
  \<open>errors.As\<close> recognises as a provider error, never adds a second layer of context, and keeps
  every error \<open>errors.Is\<close> would find in the wrapped one.\<close>

theorem WrapError_spec:
  "WrapError p q i None = None
   \<and> WrapError p q i (WrapError p' q' i' err) = WrapError p' q' i' err
   \<and> (\<exists>e'. WrapError p q i (Some e) = Some e' \<and> errors_as_provider e'
        \<and> (errors_is e t \<longrightarrow> errors_is e' t))"
  by (auto simp: WrapError_nil WrapError_idem)
    (auto simp: WrapError_def NewProviderError_def)

theorem WrapError_spec_witness:
  "\<exists>e'. WrapError ''jail'' ''start'' ''web'' (Some ErrInstanceNotFound) = Some e'
     \<and> errors_as_provider e' \<and> errors_is e' ErrInstanceNotFound"
  using WrapError_spec [of "''jail''" "''start''" "''web''" _ _ _ None ErrInstanceNotFound
      ErrInstanceNotFound]
  by auto

lemma MinimalEnv_blocked: "e \<in> set (MinimalEnv extra) \<Longrightarrow> blockedEnv e \<Longrightarrow> e = safe_path"
  by (auto simp: MinimalEnv_def)

lemma MinimalEnv_keeps: "e \<in> set extra \<Longrightarrow> \<not> blockedEnv e \<Longrightarrow> e \<in> set (MinimalEnv extra)"
  by (simp add: MinimalEnv_def)

text \<open>Whatever a caller adds, the environment of a spawned process has exactly one
  assignment to PATH, the built-in one and first, no LD_ or DYLD_ variable, and every other
  assignment of the caller, in order.\<close>

theorem MinimalEnv_closed:
  "hd (MinimalEnv extra) = safe_path
   \<and> filter (\<lambda>e. HasPrefix e ''PATH='') (MinimalEnv extra) = [safe_path]
   \<and> filter (\<lambda>e. HasPrefix e ''LD_'' \<or> HasPrefix e ''DYLD_'') (MinimalEnv extra) = []
   \<and> tl (MinimalEnv extra) = filter (\<lambda>e. \<not> blockedEnv e) extra"
proof -
  have blocked: "blockedEnv e \<longleftrightarrow> HasPrefix e ''PATH='' \<or> HasPrefix e ''LD_'' \<or> HasPrefix e ''DYLD_''"
    for e by (simp add: blockedEnv_def blockedEnvPrefixes_def)
  have "HasPrefix safe_path ''PATH=''" "\<not> HasPrefix safe_path ''LD_''" "\<not> HasPrefix safe_path ''DYLD_''"
    by (simp_all add: safe_path_def)
  then show ?thesis
    by (auto simp: MinimalEnv_def filter_empty_conv blocked)
qed

text \<open>Every state a provider can report has a defined status; only the two transient states that
  nothing has reported on map to unknown.\<close>

lemma MapInstanceState_unknown_iff:
  "MapInstanceState s = StatusUnknown \<longleftrightarrow> s = StateUnknown \<or> s = StateMigrating"
  by (cases s) auto

end
