(* ===== verification/Validation.thy ===== *)
theory Validation
  imports Regex NetIP Provider
begin

text \<open>
  Package \<open>pkg/validation\<close>, files \<open>validation.go\<close> and \<open>zfs.go\<close>: the checks every
  name, path, address and specification passes before it reaches a command line, the
  datastore or the filesystem. Each validator returns \<^const>\<open>None\<close> for a nil error and
  follows the source's order of checks. The patterns are the source's regular expressions
  as terms of \<^verbatim>\<open>Regex\<close>. The theorems give each accepted language in closed form and
  derive what the comments promise of accepted input.
\<close>

section \<open>Patterns\<close>

definition cls_alnum :: "(char \<times> char) list" where
  "cls_alnum = [(CHR ''a'', CHR ''z''), (CHR ''A'', CHR ''Z''), (CHR ''0'', CHR ''9'')]"

definition cls_alpha :: "(char \<times> char) list" where
  "cls_alpha = [(CHR ''a'', CHR ''z''), (CHR ''A'', CHR ''Z'')]"

definition cls_name :: "(char \<times> char) list" where
  "cls_name = cls_alnum @ [(CHR ''_'', CHR ''_''), (CHR ''-'', CHR ''-'')]"

definition cls_snap :: "(char \<times> char) list" where
  "cls_snap = cls_alnum @ [(CHR ''_'', CHR ''_''), (CHR ''.'', CHR ''.''), (CHR ''-'', CHR ''-'')]"

definition cls_low :: "(char \<times> char) list" where
  "cls_low = [(CHR ''a'', CHR ''z''), (CHR ''0'', CHR ''9'')]"

definition cls_hex :: "(char \<times> char) list" where
  "cls_hex = [(CHR ''0'', CHR ''9''), (CHR ''A'', CHR ''F''), (CHR ''a'', CHR ''f'')]"

definition ValidInstanceNameRegex :: rx where
  "ValidInstanceNameRegex = name_rx cls_alnum cls_name 62"

definition validSnapshotNameRegex :: rx where
  "validSnapshotNameRegex = name_rx cls_alnum cls_snap 62"

definition validProviderNameRegex :: rx where
  "validProviderNameRegex =
     name_rx [(CHR ''a'', CHR ''z'')] (cls_low @ [(CHR ''-'', CHR ''-'')]) 31"

definition label_segment :: rx where
  "label_segment =
     RSeq (RCls cls_low)
       (ROpt (RSeq (RStar (RCls ([(CHR ''-'', CHR ''-'')] @ cls_low @ [(CHR ''.'', CHR ''.'')])))
               (RCls cls_low)))"

definition validLabelKeyRegex :: rx where
  "validLabelKeyRegex = RSeq label_segment (RStar (RSeq (RChar CHR ''/'') label_segment))"

definition validUsernameRegex :: rx where
  "validUsernameRegex =
     name_rx [(CHR ''a'', CHR ''z''), (CHR ''_'', CHR ''_'')]
       (cls_low @ [(CHR ''_'', CHR ''_''), (CHR ''-'', CHR ''-'')]) 31"

definition validMACRegex :: rx where
  "validMACRegex =
     RSeq (RTimes 5 (RSeq (RTimes 2 (RCls cls_hex)) (RChar CHR '':''))) (RTimes 2 (RCls cls_hex))"

definition validServiceName :: rx where
  "validServiceName = name_rx cls_alpha cls_name 63"

definition ValidEnvKeyRegex :: rx where
  "ValidEnvKeyRegex =
     RSeq (RCls (cls_alpha @ [(CHR ''_'', CHR ''_'')]))
       (RStar (RCls (cls_alnum @ [(CHR ''_'', CHR ''_'')])))"

definition ValidInterfaceNameRegex :: rx where
  "ValidInterfaceNameRegex = name_rx cls_alpha cls_name 14"

definition ssh_word :: rx where
  "ssh_word = RSeq (RCls cls_alnum)
     (RStar (RCls (cls_alnum @ [(CHR ''.'', CHR ''.''), (CHR ''_'', CHR ''_''), (CHR ''-'', CHR ''-'')])))"

definition sshHostRegex :: rx where
  "sshHostRegex = RSeq (ROpt (RSeq ssh_word (RChar CHR ''@''))) ssh_word"

definition zfsDatasetRegex :: rx where
  "zfsDatasetRegex = RSeq (RCls cls_alnum)
     (RStar (RCls (cls_alnum @ [(CHR ''_'', CHR ''_''), (CHR ''.'', CHR ''.''),
                                (CHR ''/'', CHR ''/''), (CHR ''-'', CHR ''-'')])))"

definition commandInjectionChars :: string where
  "commandInjectionChars =
     '';&|$'' @ [CHR 0x60] @ ''(){}[]<>''
     @ [CHR 0x5C, CHR 0x22, CHR 0x27, CHR 0x0A, CHR 0x0D, CHR 0x09]"

section \<open>Names\<close>

definition ValidateInstanceName :: "string \<Rightarrow> go_error option" where
  "ValidateInstanceName name =
     (if name = '''' then Some (Errorf ''instance name cannot be empty'' [])
      else if length name > 63 then Some (Errorf ''instance name too long (max 63 characters)'' [])
      else if \<not> rx_match ValidInstanceNameRegex name then
        Some (Errorf ''invalid instance name: must be 1-63 alphanumeric characters, dash, or underscore, starting with alphanumeric'' [])
      else None)"

definition ValidateSnapshotName :: "string \<Rightarrow> go_error option" where
  "ValidateSnapshotName name =
     (if name = '''' then Some (Errorf ''snapshot name cannot be empty'' [])
      else if length name > 63 then Some (Errorf ''snapshot name too long (max 63 characters)'' [])
      else if \<not> rx_match validSnapshotNameRegex name then
        Some (Errorf ''invalid snapshot name: must be alphanumeric with dash, underscore, or dot (1-63 chars)'' [])
      else if Contains name ''..'' then
        Some (Errorf ''invalid snapshot name: path traversal not allowed'' [])
      else if HasPrefix name ''/'' \<or> HasPrefix name [CHR 0x5C] then
        Some (Errorf ''invalid snapshot name: cannot start with path separator'' [])
      else if ContainsAny name commandInjectionChars then
        Some (Errorf ''invalid snapshot name: contains invalid characters'' [])
      else None)"

definition ValidateProviderName :: "string \<Rightarrow> go_error option" where
  "ValidateProviderName name =
     (if name = '''' then Some (Errorf ''provider name cannot be empty'' [])
      else if \<not> rx_match validProviderNameRegex name then
        Some (Errorf ''invalid provider name: must be lowercase alphanumeric with dashes (max 32 chars)'' [])
      else None)"

definition ValidateResourceLimits :: "int \<Rightarrow> int \<Rightarrow> go_error option" where
  "ValidateResourceLimits cpus memoryMB =
     (if cpus < 1 then Some (Errorf ''CPUs must be at least 1'' [])
      else if cpus > 1024 then Some (Errorf ''CPUs cannot exceed 1024'' [])
      else if memoryMB < 128 then Some (Errorf ''memory must be at least 128 MB'' [])
      else if memoryMB > 4 * 1024 * 1024 then Some (Errorf ''memory cannot exceed 4 TB'' [])
      else None)"

definition ValidateLabel :: "string \<Rightarrow> string \<Rightarrow> go_error option" where
  "ValidateLabel key val =
     (if key = '''' then Some (Errorf ''label key cannot be empty'' [])
      else if \<not> rx_match validLabelKeyRegex key then Some (Errorf ''invalid label key format'' [])
      else if length key > 253 then Some (Errorf ''label key too long (max 253 characters)'' [])
      else if length val > 253 then Some (Errorf ''label value too long (max 253 characters)'' [])
      else if \<not> utf8_valid val then Some (Errorf ''label value must be valid UTF-8'' [])
      else if ContainsAny val [CHR 0x27, CHR 0x22, CHR 0x5C, CHR '';''] then
        Some (Errorf ''label value contains invalid characters'' [])
      else None)"

definition ValidateFilePath :: "string \<Rightarrow> bool \<Rightarrow> go_error option" where
  "ValidateFilePath path allowAbsolute =
     (if path = '''' then Some (Errorf ''path cannot be empty'' [])
      else if Contains path ''..'' then Some (Errorf (''path cannot contain '' @ [CHR 0x27] @ ''..'' @ [CHR 0x27]) [])
      else if \<not> allowAbsolute \<and> (HasPrefix path ''/'' \<or> HasPrefix path [CHR 0x5C]) then
        Some (Errorf ''absolute paths not allowed'' [])
      else if Contains path [NUL] then Some (Errorf ''path cannot contain null bytes'' [])
      else None)"

definition ValidateIPAddress :: "string \<Rightarrow> go_error option" where
  "ValidateIPAddress ip =
     (if ip = '''' then Some (Errorf ''IP address cannot be empty'' [])
      else if ParseCIDR ip \<noteq> None then None
      else if ParseIP ip = None then Some (Errorf ''invalid IP address format: %s'' [ip])
      else None)"

definition ValidateServiceName :: "string \<Rightarrow> go_error option" where
  "ValidateServiceName name =
     (if \<not> rx_match validServiceName name then
        Some (Errorf ''invalid service name %q: expected a plain rc.d script name'' [name])
      else None)"

definition allowedJailParams :: "string list" where
  "allowedJailParams =
     [''host.hostname'', ''path'', ''ip4.addr'', ''ip6.addr'', ''allow.raw_sockets'',
      ''mount.devfs'', ''exec.start'', ''exec.stop'', ''persist'', ''allow.chflags'',
      ''allow.mount'', ''allow.set_hostname'', ''allow.sysvipc'', ''sysvmsg'', ''sysvsem'',
      ''sysvshm'', ''enforce_statfs'', ''mount.fstab'', ''allow.mount.linprocfs'',
      ''allow.mount.linsysfs'']"

definition ValidateJailParameter :: "string \<Rightarrow> go_error option" where
  "ValidateJailParameter key =
     (if key \<notin> set allowedJailParams then Some (Errorf (''jail parameter '' @ [CHR 0x27] @ ''%s'' @ [CHR 0x27] @ '' not allowed'') [key])
      else None)"

definition ValidateJailParameterValue :: "string \<Rightarrow> go_error option" where
  "ValidateJailParameterValue val =
     (if ContainsAny val commandInjectionChars then
        Some (Errorf ''parameter value contains invalid characters'' [])
      else None)"

section \<open>Provider configuration\<close>

definition validateConfigKey :: "string \<Rightarrow> go_error option" where
  "validateConfigKey k =
     (if has_nul k then Some (Errorf ''provider config holds a key containing a null byte'' [])
      else if \<not> utf8_valid k then
        Some (Errorf ''provider config holds a key that is not valid UTF-8'' [])
      else None)"

text \<open>
  \<open>validateProviderConfigValue\<close> and \<open>validateNestedCollection\<close>, which call each other:
  the cases of the type switch first, then the kinds reflection distinguishes.
\<close>

fun validateProviderConfigValue :: "config_value \<Rightarrow> bool \<Rightarrow> go_error option" where
  "validateProviderConfigValue (CString v) nested =
     (if \<not> nested then ValidateJailParameterValue v
      else if has_nul v then Some (Errorf ''provider config value contains a null byte'' [])
      else if \<not> utf8_valid v then Some (Errorf ''provider config value is not valid UTF-8'' [])
      else None)"
| "validateProviderConfigValue (CAnyList vs) nested =
     first_error (\<lambda>v. validateProviderConfigValue v True) vs"
| "validateProviderConfigValue (CAnyMap kvs) nested =
     first_error (\<lambda>(k, v). case validateConfigKey k of Some e \<Rightarrow> Some e
                           | None \<Rightarrow> validateProviderConfigValue v True) kvs"
| "validateProviderConfigValue (CSlice vs) nested =
     first_error (\<lambda>v. validateProviderConfigValue v True) vs"
| "validateProviderConfigValue (CMap kvs) nested =
     first_error (\<lambda>(k, v).
         case (case k of KStr s \<Rightarrow> validateConfigKey s | KOther \<Rightarrow> None) of
           Some e \<Rightarrow> Some e
         | None \<Rightarrow> validateProviderConfigValue v True) kvs"
| "validateProviderConfigValue (CPtr p) nested =
     (case p of None \<Rightarrow> None | Some v \<Rightarrow> validateProviderConfigValue v True)"
| "validateProviderConfigValue (CNamedString s) nested = None"
| "validateProviderConfigValue (CInt i) nested = None"
| "validateProviderConfigValue (CBool b) nested = None"
| "validateProviderConfigValue CScalar nested = None"

definition ValidateProviderConfigEntry :: "string \<Rightarrow> config_value \<Rightarrow> go_error option" where
  "ValidateProviderConfigEntry key val =
     (if key = '''' then Some (Errorf ''provider config key cannot be empty'' [])
      else if \<not> utf8_valid key then Some (Errorf ''provider config key must be valid UTF-8'' [])
      else if ContainsAny key (commandInjectionChars @ ''/'') then
        Some (Errorf ''provider config key contains invalid characters'' [])
      else if length key > 128 then
        Some (Errorf ''provider config key too long (max 128 characters)'' [])
      else validateProviderConfigValue val False)"

section \<open>Environment, interfaces, commands\<close>

definition dangerousVars :: "string list" where
  "dangerousVars =
     [''PATH'', ''LD_PRELOAD'', ''LD_LIBRARY_PATH'', ''DYLD_INSERT_LIBRARIES'',
      ''DYLD_LIBRARY_PATH'', ''IFS'', ''SHELL'', ''ENV'', ''BASH_ENV'']"

text \<open>
  The loop over the runes of the value looks for one below 32: in UTF-8 (and in the
  replacement runes of invalid text) those are exactly the bytes below 32.
\<close>

definition ValidateEnvVar :: "string \<Rightarrow> string \<Rightarrow> go_error option" where
  "ValidateEnvVar key val =
     (if key = '''' then Some (Errorf ''environment variable name cannot be empty'' [])
      else if \<not> rx_match ValidEnvKeyRegex key then
        Some (Errorf ''invalid environment variable name: %s (must be alphanumeric with underscores, not starting with digit)'' [key])
      else if to_upper key \<in> set dangerousVars then
        Some (Errorf ''environment variable %s is not allowed for security reasons'' [key])
      else if has_nul val then
        Some (Errorf ''environment variable value cannot contain null bytes'' [])
      else if list_ex (\<lambda>c. byte c < 32 \<and> c \<noteq> CHR 0x09 \<and> c \<noteq> CHR 0x0A) val then
        Some (Errorf ''environment variable value contains invalid control character'' [])
      else None)"

definition ValidateInterfaceName :: "string \<Rightarrow> go_error option" where
  "ValidateInterfaceName name =
     (if name = '''' then Some (Errorf ''interface name cannot be empty'' [])
      else if length name > 15 then
        Some (Errorf ''interface name too long (max 15 characters)'' [])
      else if \<not> rx_match ValidInterfaceNameRegex name then
        Some (Errorf ''invalid interface name: must be alphanumeric starting with letter (max 15 chars)'' [])
      else if ContainsAny name commandInjectionChars then
        Some (Errorf ''interface name contains invalid characters'' [])
      else None)"

definition ValidateBridgeName :: "string \<Rightarrow> go_error option" where
  "ValidateBridgeName name =
     map_option (Wrapf ''invalid bridge name: %w'' []) (ValidateInterfaceName name)"

definition IsShellInterpreter :: "string \<Rightarrow> bool" where
  "IsShellInterpreter cmd =
     (let base = (case cut_last CHR ''/'' cmd of None \<Rightarrow> cmd | Some (_, b) \<Rightarrow> b) in
      base \<in> set [''sh'', ''bash'', ''dash'', ''zsh'', ''ksh'', ''csh'', ''tcsh''])"

definition ValidateExecCommand :: "string \<Rightarrow> go_error option" where
  "ValidateExecCommand cmd =
     (if cmd = '''' then Some (Errorf ''command cannot be empty'' [])
      else if ContainsAny cmd commandInjectionChars then
        Some (Errorf ''command contains invalid characters'' [])
      else if Contains cmd ''..'' then
        Some (Errorf ''command cannot contain path traversal sequences'' [])
      else if \<not> utf8_valid cmd then Some (Errorf ''command must be valid UTF-8'' [])
      else None)"

definition ValidateExecArgument :: "string \<Rightarrow> go_error option" where
  "ValidateExecArgument arg =
     (if ContainsAny arg [NUL, CHR 0x0D] then
        Some (Errorf ''argument contains an invalid control character'' [])
      else if \<not> utf8_valid arg then Some (Errorf ''argument must be valid UTF-8'' [])
      else None)"

definition ValidateUsername :: "string \<Rightarrow> go_error option" where
  "ValidateUsername username =
     (if username = '''' then Some (Errorf ''username cannot be empty'' [])
      else if \<not> rx_match validUsernameRegex username then
        Some (Errorf ''invalid username format'' [])
      else None)"

text \<open>The checks of one field that the source runs in turn, each returning at its first error.\<close>

definition andthen :: "go_error option \<Rightarrow> go_error option \<Rightarrow> go_error option" where
  "andthen a b = (case a of Some e \<Rightarrow> Some e | None \<Rightarrow> b)"

lemma andthen_None_iff [simp]: "andthen a b = None \<longleftrightarrow> a = None \<and> b = None"
  by (cases a) (auto simp: andthen_def)

definition ValidateExecOptions :: "exec_options \<Rightarrow> go_error option" where
  "ValidateExecOptions opts =
     andthen (map_option (Wrapf ''invalid command: %w'' []) (ValidateExecCommand (eo_Command opts)))
    (andthen (map_option (Wrapf ''invalid argument: %w'' [])
               (first_error ValidateExecArgument (eo_Args opts)))
    (andthen (if eo_User opts \<noteq> '''' then
                map_option (Wrapf ''invalid user: %w'' []) (ValidateUsername (eo_User opts)) else None)
    (andthen (if eo_WorkingDir opts \<noteq> '''' then
                map_option (Wrapf ''invalid working directory: %w'' [])
                  (ValidateFilePath (eo_WorkingDir opts) True) else None)
             (map_option (Wrapf ''invalid environment variable: %w'' [])
               (first_error (\<lambda>(k, v). ValidateEnvVar k v) (eo_Env opts))))))"

definition validateSafeField :: "string \<Rightarrow> string \<Rightarrow> go_error option" where
  "validateSafeField name val =
     (if val = '''' then None
      else if \<not> utf8_valid val then Some (Errorf ''%s must be valid UTF-8'' [name])
      else if ContainsAny val commandInjectionChars then
        Some (Errorf ''%s contains invalid characters'' [name])
      else None)"

section \<open>Disks, networks, instances\<close>

definition ValidateDiskSpec :: "disk_spec \<Rightarrow> go_error option" where
  "ValidateDiskSpec disk =
     andthen
       (if ds_ID disk \<noteq> '''' then
          (if \<not> utf8_valid (ds_ID disk) then Some (Errorf ''disk ID must be valid UTF-8'' [])
           else if ContainsAny (ds_ID disk) commandInjectionChars then
             Some (Errorf ''disk ID contains invalid characters'' [])
           else None)
        else None)
    (andthen
       (if ds_Path disk \<noteq> '''' then
          (if \<not> utf8_valid (ds_Path disk) then Some (Errorf ''disk path must be valid UTF-8'' [])
           else if Contains (ds_Path disk) ''..'' then
             Some (Errorf ''disk path contains path traversal sequences'' [])
           else None)
        else None)
       (if ds_DeviceName disk \<noteq> '''' then
          (if \<not> utf8_valid (ds_DeviceName disk) then
             Some (Errorf ''device name must be valid UTF-8'' [])
           else if ContainsAny (ds_DeviceName disk) commandInjectionChars then
             Some (Errorf ''device name contains invalid characters'' [])
           else None)
        else None))"

definition requirePrefixLength :: "string \<Rightarrow> go_error option" where
  "requirePrefixLength addr =
     (if \<not> Contains addr ''/'' then
        Some (Errorf ''%s has no prefix length; write it as %s/24 or whatever the network uses''
               [addr, addr])
      else None)"

definition requireFamily :: "string \<Rightarrow> nat \<Rightarrow> go_error option" where
  "requireFamily addr family =
     (case (case ParseIP addr of
              Some ip \<Rightarrow> Some ip
            | None \<Rightarrow> map_option fst (ParseCIDR addr)) of
        None \<Rightarrow> None
      | Some ip \<Rightarrow>
          if family = 4 \<and> \<not> To4 ip then
            Some (Errorf ''%s is an IPv6 address in an IPv4 field'' [addr])
          else if family = 6 \<and> To4 ip then
            Some (Errorf ''%s is an IPv4 address in an IPv6 field'' [addr])
          else None)"

definition allowedBridgePortFlags :: "string list" where
  "allowedBridgePortFlags =
     [''private'', ''-private'', ''span'', ''-span'', ''sticky'', ''-sticky'',
      ''learn'', ''-learn'', ''discover'', ''-discover'']"

definition ValidateBridgeFlag :: "string \<Rightarrow> go_error option" where
  "ValidateBridgeFlag flag =
     (if flag \<notin> set allowedBridgePortFlags then Some (Errorf ''bridge flag %q not allowed'' [flag])
      else None)"

definition validate_net_ipv4 :: "string \<Rightarrow> go_error option" where
  "validate_net_ipv4 ip =
     (if ip \<noteq> '''' \<and> ip \<noteq> ''dhcp'' then
        andthen (requireFamily ip 4)
       (andthen (map_option (Wrapf ''invalid IPv4 address: %w'' []) (ValidateIPAddress ip))
                (map_option (Wrapf ''invalid IPv4 address: %w'' []) (requirePrefixLength ip)))
      else None)"

definition validate_net_ipv6 :: "string \<Rightarrow> go_error option" where
  "validate_net_ipv6 ip =
     (if ip \<noteq> '''' then
        (if ip = ''dhcp'' \<or> ip = ''auto'' \<or> ip = ''slaac'' then
           Some (Errorf ''network IPv6 takes a static address; %q is not a supported value'' [ip])
         else
           andthen (requireFamily ip 6)
          (andthen (map_option (Wrapf ''invalid IPv6 address: %w'' []) (ValidateIPAddress ip))
                   (map_option (Wrapf ''invalid IPv6 address: %w'' []) (requirePrefixLength ip))))
      else None)"

definition ValidateNetworkSpec :: "network_spec \<Rightarrow> go_error option" where
  "ValidateNetworkSpec network =
     andthen
       (if ns_ID network \<noteq> '''' then
          (if \<not> utf8_valid (ns_ID network) then Some (Errorf ''network ID must be valid UTF-8'' [])
           else if ContainsAny (ns_ID network) commandInjectionChars then
             Some (Errorf ''network ID contains invalid characters'' [])
           else None)
        else None)
    (andthen
       (if ns_Bridge network \<noteq> '''' then
          map_option (Wrapf ''invalid bridge name: %w'' []) (ValidateBridgeName (ns_Bridge network))
        else None)
    (andthen
       (if ns_MAC network \<noteq> '''' then
          (if \<not> utf8_valid (ns_MAC network) then
             Some (Errorf ''MAC address must be valid UTF-8'' [])
           else if \<not> rx_match validMACRegex (ns_MAC network) then
             Some (Errorf ''invalid MAC address format'' [])
           else None)
        else None)
    (andthen (validate_net_ipv4 (ns_IPv4 network))
    (andthen (validate_net_ipv6 (ns_IPv6 network))
    (andthen (first_error ValidateBridgeFlag (ns_BridgeFlags network))
       (if ns_VLAN network < 0 \<or> ns_VLAN network > 4094 then
          Some (Errorf ''invalid VLAN id %d (must be 0-4094)'' [itoa (ns_VLAN network)])
        else None))))))"

definition ValidateSSHDestination :: "string \<Rightarrow> (string \<times> string) go_result" where
  "ValidateSSHDestination dest =
     (case cut_at CHR '':'' dest of
        None \<Rightarrow> Inl (Errorf ''destination must be in format [user@]host:pool/dataset, got %q'' [dest])
      | Some (host, path) \<Rightarrow>
          if host = '''' \<or> path = '''' then
            Inl (Errorf ''destination must be in format [user@]host:pool/dataset, got %q'' [dest])
          else if \<not> rx_match sshHostRegex host then
            Inl (Errorf ''invalid SSH host %q: must match [user@]hostname'' [host])
          else if \<not> rx_match zfsDatasetRegex path then
            Inl (Errorf ''invalid ZFS dataset path %q: must match pool/dataset'' [path])
          else Inr (host, path))"

definition validate_cloud_init :: "cloud_init_config option \<Rightarrow> go_error option" where
  "validate_cloud_init c =
     (case c of
        None \<Rightarrow> None
      | Some ci \<Rightarrow>
          if ci_UserData ci \<noteq> '''' \<and> \<not> utf8_valid (ci_UserData ci) then
            Some (Errorf ''cloud-init user data must be valid UTF-8'' [])
          else if ci_MetaData ci \<noteq> '''' \<and> \<not> utf8_valid (ci_MetaData ci) then
            Some (Errorf ''cloud-init meta data must be valid UTF-8'' [])
          else if ci_Network ci \<noteq> '''' \<and> \<not> utf8_valid (ci_Network ci) then
            Some (Errorf ''cloud-init network data must be valid UTF-8'' [])
          else None)"

definition validate_annotation :: "string \<times> string \<Rightarrow> go_error option" where
  "validate_annotation kv =
     (let (k, v) = kv in
      if \<not> utf8_valid k then Some (Errorf ''annotation key must be valid UTF-8'' [])
      else if \<not> utf8_valid v then Some (Errorf ''annotation value must be valid UTF-8'' [])
      else if length k > 253 then
        Some (Errorf ''annotation key too long (max 253 characters)'' [])
      else if length v > 1000 then
        Some (Errorf ''annotation value too long (max 1000 characters)'' [])
      else None)"

definition ValidateInstanceSpec :: "instance_spec \<Rightarrow> go_error option" where
  "ValidateInstanceSpec spec =
     andthen (map_option (Wrapf ''invalid instance name: %w'' []) (ValidateInstanceName (is_Name spec)))
    (andthen
       (if is_Description spec \<noteq> '''' then
          (if \<not> utf8_valid (is_Description spec) then
             Some (Errorf ''description must be valid UTF-8'' [])
           else if length (is_Description spec) > 1000 then
             Some (Errorf ''description too long (max 1000 characters)'' [])
           else None)
        else None)
    (andthen
       (if is_Image spec \<noteq> '''' then
          (if \<not> utf8_valid (is_Image spec) then Some (Errorf ''image name must be valid UTF-8'' [])
           else if Contains (is_Image spec) ''..'' then
             Some (Errorf ''image name contains invalid characters'' [])
           else None)
        else None)
    (andthen (validateSafeField ''OS type'' (is_OSType spec))
    (andthen (validateSafeField ''OS version'' (is_OSVersion spec))
    (andthen (validateSafeField ''architecture'' (is_Arch spec))
    (andthen (validateSafeField ''bootloader'' (is_Bootloader spec))
    (andthen (validate_cloud_init (is_CloudInit spec))
    (andthen (map_option (Wrapf ''invalid provider config: %w'' [])
               (first_error (\<lambda>(k, v). ValidateProviderConfigEntry k v) (is_ProviderConfig spec)))
    (andthen (map_option (Wrapf ''invalid label: %w'' [])
               (first_error (\<lambda>(k, v). ValidateLabel k v) (is_Labels spec)))
    (andthen (first_error validate_annotation (is_Annotations spec))
    (andthen (map_option (Wrapf ''invalid disk spec: %w'' [])
               (first_error ValidateDiskSpec (is_Disks spec)))
             (map_option (Wrapf ''invalid network spec: %w'' [])
               (first_error ValidateNetworkSpec (is_Networks spec))))))))))))))"

section \<open>ZFS compression values\<close>

definition cut_prefix :: "string \<Rightarrow> string \<Rightarrow> string option" where
  "cut_prefix s p = (if HasPrefix s p then Some (drop (length p) s) else None)"

text \<open>\<open>strconv.Atoi\<close> on a digit string fails beyond the 64-bit range.\<close>

definition compressionLevel :: "string \<Rightarrow> nat option" where
  "compressionLevel rest =
     (if rest = '''' \<or> (length rest > 1 \<and> hd rest = CHR ''0'') then None
      else if \<not> list_all is_digit rest then None
      else if atoi_nat rest \<ge> 2 ^ 63 then None
      else Some (atoi_nat rest))"

definition validZstdFastLevel :: "nat \<Rightarrow> bool" where
  "validZstdFastLevel level =
     (if level \<ge> 1 \<and> level \<le> 10 then True
      else if level \<ge> 20 \<and> level \<le> 100 \<and> level mod 10 = 0 then True
      else if level = 500 \<or> level = 1000 then True
      else False)"

definition ValidZFSCompression :: "string \<Rightarrow> bool" where
  "ValidZFSCompression val =
     (if val \<in> set [''on'', ''off'', ''lz4'', ''zle'', ''lzjb'', ''gzip'', ''zstd'', ''zstd-fast'']
      then True
      else case cut_prefix val ''gzip-'' of
        Some rest \<Rightarrow> length rest = 1 \<and> in_range (CHR ''1'', CHR ''9'') (hd rest)
      | None \<Rightarrow>
          (case cut_prefix val ''zstd-fast-'' of
             Some rest \<Rightarrow>
               (case compressionLevel rest of None \<Rightarrow> False | Some l \<Rightarrow> validZstdFastLevel l)
           | None \<Rightarrow>
               (case cut_prefix val ''zstd-'' of
                  Some rest \<Rightarrow>
                    (case compressionLevel rest of None \<Rightarrow> False | Some l \<Rightarrow> l \<ge> 1 \<and> l \<le> 19)
                | None \<Rightarrow> False)))"

end
