(* ===== verification/Validation_Thms.thy ===== *)
theory Validation_Thms
  imports Validation
begin

text \<open>
  What input accepted by \<^verbatim>\<open>Validation\<close> looks like: closed forms of the accepted
  names, values and keys, and the safety facts the comments of the source promise (no shell
  metacharacter, no path separator, no null byte, an address of the right family with its
  prefix length).
\<close>

section \<open>Classes and the injection characters\<close>

lemmas class_defs = cls_alnum_def cls_alpha_def cls_name_def cls_snap_def cls_low_def cls_hex_def

lemma injection_not_in_class:
  assumes "c \<in> set commandInjectionChars"
  shows "\<not> in_class cls_snap c" "\<not> in_class cls_name c" "\<not> in_class cls_alnum c"
    "\<not> in_class cls_alpha c"
  using assms by (auto simp: commandInjectionChars_def class_defs in_range_def byte_def)

lemma separators_not_in_class:
  "\<not> in_class cls_name CHR ''.''" "\<not> in_class cls_name CHR ''/''" "\<not> in_class cls_name CHR 0x5C"
  "\<not> in_class cls_alnum CHR ''.''" "\<not> in_class cls_alnum CHR ''/''" "\<not> in_class cls_alnum CHR 0x5C"
  "\<not> in_class cls_alnum CHR ''-''"
  by (auto simp: class_defs in_range_def byte_def)

lemma class_ascii: "in_class cls_snap c \<Longrightarrow> byte c < 128" "in_class cls_name c \<Longrightarrow> byte c < 128"
  by (auto simp: class_defs in_range_def byte_def)

lemma alnum_in_name: "in_class cls_alnum c \<Longrightarrow> in_class cls_name c"
  "in_class cls_alnum c \<Longrightarrow> in_class cls_snap c" "in_class cls_alpha c \<Longrightarrow> in_class cls_name c"
  by (auto simp: class_defs)

lemma all_class_hd_tl:
  "s \<noteq> [] \<Longrightarrow> in_class as (hd s) \<Longrightarrow> list_all (in_class bs) (tl s) \<Longrightarrow>
   (\<And>c. in_class as c \<Longrightarrow> in_class bs c) \<Longrightarrow> list_all (in_class bs) s"
  by (cases s) auto

lemma list_all_not_ContainsAny:
  "list_all P s \<Longrightarrow> (\<And>c. c \<in> set cs \<Longrightarrow> \<not> P c) \<Longrightarrow> \<not> ContainsAny s cs"
  by (auto simp: ContainsAny_iff list_all_iff)

section \<open>Instance and snapshot names\<close>

lemma ValidateInstanceName_iff:
  "ValidateInstanceName n = None \<longleftrightarrow>
     n \<noteq> [] \<and> length n \<le> 63 \<and> in_class cls_alnum (hd n) \<and> list_all (in_class cls_name) (tl n)"
  by (auto simp: ValidateInstanceName_def ValidInstanceNameRegex_def name_rx_iff)

lemma instance_name_chars:
  "ValidateInstanceName n = None \<Longrightarrow> list_all (in_class cls_name) n"
  using all_class_hd_tl alnum_in_name(1) by (auto simp: ValidateInstanceName_iff)

text \<open>The instance-name validator accepts exactly the strings of 1 to 63 characters that
  start with an ASCII letter or digit and continue with letters, digits, dash or underscore;
  an accepted name holds no shell metacharacter, no dot, no path separator, no leading
  dash, and is valid UTF-8, so the checks the comment says are unnecessary are.\<close>

theorem instance_name_language:
  "(ValidateInstanceName n = None \<longleftrightarrow>
      n \<noteq> [] \<and> length n \<le> 63 \<and> in_class cls_alnum (hd n) \<and> list_all (in_class cls_name) (tl n))
   \<and> (ValidateInstanceName n = None \<longrightarrow>
      \<not> ContainsAny n commandInjectionChars \<and> \<not> ContainsAny n [CHR ''.'', CHR ''/'', CHR 0x5C]
      \<and> \<not> HasPrefix n ''-'' \<and> \<not> has_nul n \<and> utf8_valid n)"
proof (intro conjI impI)
  assume ok: "ValidateInstanceName n = None"
  note chars = instance_name_chars [OF ok]
  show "\<not> ContainsAny n commandInjectionChars"
    using chars injection_not_in_class(2) by (rule list_all_not_ContainsAny)
  show "\<not> ContainsAny n [CHR ''.'', CHR ''/'', CHR 0x5C]"
    using chars by (rule list_all_not_ContainsAny) (auto simp: separators_not_in_class)
  show "\<not> HasPrefix n ''-''"
    using ok by (cases n) (auto simp: ValidateInstanceName_iff separators_not_in_class)
  show "\<not> has_nul n"
    using chars by (auto simp: has_nul_def list_all_iff NUL_def class_defs in_range_def byte_def)
  show "utf8_valid n"
    using chars class_ascii(2) by (intro utf8_valid_ascii) (auto simp: list_all_iff)
qed (rule ValidateInstanceName_iff)

theorem instance_name_language_witness:
  "ValidateInstanceName ''web-01'' = None \<and> \<not> ContainsAny ''web-01'' commandInjectionChars"
proof -
  have "ValidateInstanceName ''web-01'' = None"
    by (simp add: ValidateInstanceName_iff class_defs in_range_def byte_def)
  then show ?thesis using instance_name_language [of "''web-01''"] by simp
qed

text \<open>The last two checks of the snapshot-name validator never fire: a name of at most 63
  characters that matches the pattern and holds no dot-dot is accepted, and nothing else is.\<close>

theorem snapshot_name_language:
  "ValidateSnapshotName n = None \<longleftrightarrow>
     n \<noteq> [] \<and> length n \<le> 63 \<and> in_class cls_alnum (hd n) \<and> list_all (in_class cls_snap) (tl n)
     \<and> \<not> Contains n ''..''"
proof -
  have "\<not> ContainsAny n commandInjectionChars \<and> \<not> HasPrefix n ''/'' \<and> \<not> HasPrefix n [CHR 0x5C]"
    if m: "n \<noteq> []" "in_class cls_alnum (hd n)" "list_all (in_class cls_snap) (tl n)"
  proof -
    have "list_all (in_class cls_snap) n"
      using m alnum_in_name(2) by (rule all_class_hd_tl)
    then have "\<not> ContainsAny n commandInjectionChars"
      using injection_not_in_class(1) by (rule list_all_not_ContainsAny)
    moreover have "\<not> HasPrefix n ''/''" "\<not> HasPrefix n [CHR 0x5C]"
      using m(1,2) by (cases n; auto simp: separators_not_in_class)+
    ultimately show ?thesis by blast
  qed
  then show ?thesis
    by (auto simp: ValidateSnapshotName_def validSnapshotNameRegex_def name_rx_iff)
qed

section \<open>Addresses\<close>

lemma ParseIP_no_slash: "ParseIP s = Some ip \<Longrightarrow> CHR ''/'' \<notin> set s"
  using ParseIP_chars [of s ip "CHR ''/''"] by (auto simp: is_hex_def in_range_def byte_def)

lemma accepted_address_is_cidr:
  assumes "ValidateIPAddress a = None" "requirePrefixLength a = None"
  shows "\<exists>ip n. ParseCIDR a = Some (ip, n) \<and> ParseIP a = None"
proof -
  from assms(2) have "CHR ''/'' \<in> set a"
    by (auto simp: requirePrefixLength_def sublist_def split: if_splits)
  then have "ParseIP a = None" using ParseIP_no_slash by (cases "ParseIP a") auto
  with assms(1) show ?thesis by (auto simp: ValidateIPAddress_def split: if_splits)
qed

text \<open>A network specification the validator accepts carries either no IPv4 address, the
  word dhcp, or an address of the IPv4 family with an explicit prefix length; its IPv6
  address, when present, is of the IPv6 family with an explicit prefix length; its bridge
  port flags are all on the allow-list; and its VLAN id fits in 12 bits.\<close>

theorem network_spec_addresses:
  assumes "ValidateNetworkSpec n = None"
  shows "(ns_IPv4 n = '''' \<or> ns_IPv4 n = ''dhcp'' \<or>
            (\<exists>ip net. ParseCIDR (ns_IPv4 n) = Some (ip, net) \<and> To4 ip))
       \<and> (ns_IPv6 n = '''' \<or> (\<exists>ip net. ParseCIDR (ns_IPv6 n) = Some (ip, net) \<and> \<not> To4 ip))
       \<and> set (ns_BridgeFlags n) \<subseteq> set allowedBridgePortFlags
       \<and> 0 \<le> ns_VLAN n \<and> ns_VLAN n \<le> 4094"
proof (intro conjI)
  from assms have v4: "validate_net_ipv4 (ns_IPv4 n) = None"
    and v6: "validate_net_ipv6 (ns_IPv6 n) = None"
    and fl: "first_error ValidateBridgeFlag (ns_BridgeFlags n) = None"
    and vl: "\<not> (ns_VLAN n < 0 \<or> ns_VLAN n > 4094)"
    by (auto simp: ValidateNetworkSpec_def split: if_splits)
  show "ns_IPv4 n = '''' \<or> ns_IPv4 n = ''dhcp'' \<or>
      (\<exists>ip net. ParseCIDR (ns_IPv4 n) = Some (ip, net) \<and> To4 ip)"
    using v4 accepted_address_is_cidr [of "ns_IPv4 n"]
    by (auto simp: validate_net_ipv4_def requireFamily_def split: if_splits)
  show "ns_IPv6 n = '''' \<or> (\<exists>ip net. ParseCIDR (ns_IPv6 n) = Some (ip, net) \<and> \<not> To4 ip)"
    using v6 accepted_address_is_cidr [of "ns_IPv6 n"]
    by (auto simp: validate_net_ipv6_def requireFamily_def split: if_splits)
  show "set (ns_BridgeFlags n) \<subseteq> set allowedBridgePortFlags"
    using fl by (auto simp: first_error_None_iff ValidateBridgeFlag_def split: if_splits)
  show "0 \<le> ns_VLAN n" "ns_VLAN n \<le> 4094" using vl by auto
qed

definition sample_network :: network_spec where
  "sample_network = \<lparr>ns_ID = ''eth0'', ns_Type = ''bridge'', ns_Bridge = ''hospitus-nat'',
     ns_BridgeFlags = [''private''], ns_VLAN = 10, ns_MAC = '''', ns_IPv4 = ''10.0.0.5/24'',
     ns_IPv6 = '''', ns_IPPool = '''', ns_MTU = 1500\<rparr>"

lemma sample_network_accepted: "ValidateNetworkSpec sample_network = None"
  by code_simp

theorem network_spec_addresses_witness:
  "\<exists>ip net. ParseCIDR ''10.0.0.5/24'' = Some (ip, net) \<and> To4 ip"
  using network_spec_addresses [OF sample_network_accepted] by (simp add: sample_network_def)

section \<open>Provider configuration\<close>

text \<open>
  Every string a nested configuration value carries where the validators can see it: string
  values and string keys at any depth, through lists, maps and pointers.
\<close>

fun config_strings :: "config_value \<Rightarrow> string set" where
  "config_strings (CString s) = {s}"
| "config_strings (CAnyList vs) = (\<Union>v \<in> set vs. config_strings v)"
| "config_strings (CAnyMap kvs) = (\<Union>(k, v) \<in> set kvs. insert k (config_strings v))"
| "config_strings (CSlice vs) = (\<Union>v \<in> set vs. config_strings v)"
| "config_strings (CMap kvs) =
     (\<Union>(k, v) \<in> set kvs. (case k of KStr s \<Rightarrow> {s} | KOther \<Rightarrow> {}) \<union> config_strings v)"
| "config_strings (CPtr p) = (case p of None \<Rightarrow> {} | Some v \<Rightarrow> config_strings v)"
| "config_strings (CNamedString s) = {}"
| "config_strings (CInt i) = {}"
| "config_strings (CBool b) = {}"
| "config_strings CScalar = {}"

definition clean_text :: "string \<Rightarrow> bool" where
  "clean_text s \<longleftrightarrow> \<not> has_nul s \<and> utf8_valid s"

lemma validateConfigKey_iff: "validateConfigKey k = None \<longleftrightarrow> clean_text k"
  by (auto simp: validateConfigKey_def clean_text_def)

lemma nested_config_iff:
  "validateProviderConfigValue v True = None \<longleftrightarrow> (\<forall>s \<in> config_strings v. clean_text s)"
proof (induction v)
  case (CAnyMap kvs)
  have "(\<lambda>(k, v). case validateConfigKey k of None \<Rightarrow> validateProviderConfigValue v True
            | Some e \<Rightarrow> Some e) kv = None
      \<longleftrightarrow> clean_text (fst kv) \<and> (\<forall>s \<in> config_strings (snd kv). clean_text s)"
    if "kv \<in> set kvs" for kv
    using CAnyMap.IH [OF that, of "snd kv"]
    by (cases kv) (simp add: case_error_None_iff validateConfigKey_iff)
  then show ?case by (simp add: first_error_None_iff) fastforce
next
  case (CMap kvs)
  have "(\<lambda>(k, v). case (case k of KStr s \<Rightarrow> validateConfigKey s | KOther \<Rightarrow> None) of
            None \<Rightarrow> validateProviderConfigValue v True | Some e \<Rightarrow> Some e) kv = None
      \<longleftrightarrow> (\<forall>s. fst kv = KStr s \<longrightarrow> clean_text s) \<and> (\<forall>s \<in> config_strings (snd kv). clean_text s)"
    if "kv \<in> set kvs" for kv
    using CMap.IH [OF that, of "snd kv"]
    by (cases kv; cases "fst kv") (simp_all add: case_error_None_iff validateConfigKey_iff)
  then show ?case
    by (simp add: first_error_None_iff) (fastforce split: config_key.splits)
qed (auto simp: first_error_None_iff clean_text_def split: option.splits)

text \<open>A provider configuration entry the validator accepts has a key of at most 128 bytes
  with no shell metacharacter and no slash; if its value is a plain string it holds no
  shell metacharacter, and otherwise every string and string key nested anywhere in it is
  free of null bytes and valid UTF-8. Conversely these conditions are all it asks.\<close>

theorem provider_config_entry_language:
  "ValidateProviderConfigEntry key v = None \<longleftrightarrow>
     key \<noteq> [] \<and> length key \<le> 128 \<and> utf8_valid key \<and> \<not> ContainsAny key (commandInjectionChars @ ''/'')
     \<and> (case v of CString s \<Rightarrow> \<not> ContainsAny s commandInjectionChars
        | _ \<Rightarrow> (\<forall>s \<in> config_strings v. clean_text s))"
proof -
  have "validateProviderConfigValue v False = None \<longleftrightarrow>
      (case v of CString s \<Rightarrow> \<not> ContainsAny s commandInjectionChars
        | _ \<Rightarrow> (\<forall>s \<in> config_strings v. clean_text s))"
    using nested_config_iff [of v]
    by (cases v) (simp_all add: ValidateJailParameterValue_def)
  then show ?thesis by (auto simp: ValidateProviderConfigEntry_def)
qed

theorem provider_config_entry_language_witness:
  "ValidateProviderConfigEntry ''mounts'' (CSlice [CAnyMap [(''source'', CString ''/data'')]]) = None"
proof -
  have "clean_text ''source''" "clean_text ''/data''" "utf8_valid ''mounts''"
    "\<not> ContainsAny ''mounts'' (commandInjectionChars @ ''/'')"
    by (simp_all add: clean_text_def has_nul_def NUL_def byte_def second_range_def ContainsAny_def
        commandInjectionChars_def)
  then show ?thesis by (simp add: provider_config_entry_language)
qed

section \<open>SSH destinations\<close>

lemma ssh_word_facts:
  assumes "rx_in ssh_word s"
  shows "s \<noteq> []" "in_class cls_alnum (hd s)" "list_all (in_class cls_snap) s"
  using assms unfolding ssh_word_def rx_in_cls_then
  by (auto simp: class_defs list_all_iff simp del: rx_in_core)

lemma zfsDataset_facts:
  assumes "rx_match zfsDatasetRegex s"
  shows "s \<noteq> []" "in_class cls_alnum (hd s)"
    "list_all (\<lambda>c. in_class cls_snap c \<or> c = CHR ''/'') s"
  using assms unfolding rx_match_iff zfsDatasetRegex_def rx_in_cls_then
  by (auto simp: class_defs list_all_iff simp del: rx_in_core)

lemma sshHost_facts:
  assumes "rx_match sshHostRegex s"
  shows "s \<noteq> []" "in_class cls_alnum (hd s)"
    "list_all (\<lambda>c. in_class cls_snap c \<or> c = CHR ''@'') s"
proof -
  from assms obtain u h where s: "s = u @ h" and h: "rx_in ssh_word h"
    and u: "u = [] \<or> (\<exists>w. u = w @ [CHR ''@''] \<and> rx_in ssh_word w)"
    unfolding rx_match_iff sshHostRegex_def by auto
  note hf = ssh_word_facts [OF h]
  show "s \<noteq> []" using hf(1) s by simp
  show "in_class cls_alnum (hd s)"
  proof (cases "u = []")
    case True
    with hf(2) s show ?thesis by simp
  next
    case False
    with u obtain w where w: "u = w @ [CHR ''@'']" "rx_in ssh_word w" by blast
    with s have "hd s = hd w" using ssh_word_facts(1) [OF w(2)] by simp
    with ssh_word_facts(2) [OF w(2)] show ?thesis by simp
  qed
  from u ssh_word_facts(3) have "list_all (\<lambda>c. in_class cls_snap c \<or> c = CHR ''@'') u"
    by (auto simp: list_all_iff)
  moreover from h ssh_word_facts(3) have "list_all (in_class cls_snap) h" by blast
  ultimately show "list_all (\<lambda>c. in_class cls_snap c \<or> c = CHR ''@'') s"
    by (auto simp: s list_all_iff)
qed

text \<open>C1. An SSH destination the validator accepts is exactly host, colon, dataset; neither half
  is empty or starts with a dash, so neither can be read as an option, and neither holds a
  shell metacharacter.\<close>

theorem ssh_destination_safe:
  assumes "ValidateSSHDestination dest = Inr (host, path)"
  shows "dest = host @ '':'' @ path
    \<and> host \<noteq> [] \<and> path \<noteq> [] \<and> \<not> HasPrefix host ''-'' \<and> \<not> HasPrefix path ''-''
    \<and> \<not> ContainsAny host commandInjectionChars \<and> \<not> ContainsAny path commandInjectionChars"
proof -
  from assms have cut: "cut_at CHR '':'' dest = Some (host, path)"
    and h: "rx_match sshHostRegex host" and p: "rx_match zfsDatasetRegex path"
    by (auto simp: ValidateSSHDestination_def split: option.splits if_splits)
  note hf = sshHost_facts [OF h] and pf = zfsDataset_facts [OF p]
  from cut have "dest = host @ '':'' @ path" by (simp add: cut_at_Some_iff)
  moreover have "\<not> HasPrefix host ''-''" "\<not> HasPrefix path ''-''"
    using hf(1,2) pf(1,2) separators_not_in_class(7) by (cases host; cases path; auto)+
  moreover have "CHR ''@'' \<notin> set commandInjectionChars" "CHR ''/'' \<notin> set commandInjectionChars"
    by (simp_all add: commandInjectionChars_def)
  then have "\<not> ContainsAny host commandInjectionChars" "\<not> ContainsAny path commandInjectionChars"
    using list_all_not_ContainsAny [OF hf(3), of commandInjectionChars]
      list_all_not_ContainsAny [OF pf(3), of commandInjectionChars] injection_not_in_class(1)
    by blast+
  ultimately show ?thesis using hf(1) pf(1) by simp
qed

lemma ssh_destination_sample:
  "ValidateSSHDestination ''root@nas:tank/backup'' = Inr (''root@nas'', ''tank/backup'')"
  by code_simp

theorem ssh_destination_safe_witness:
  "\<not> HasPrefix ''root@nas'' ''-'' \<and> \<not> ContainsAny ''tank/backup'' commandInjectionChars"
  using ssh_destination_safe [OF ssh_destination_sample] by simp

section \<open>ZFS compression\<close>

lemma compressionLevel_iff:
  "compressionLevel s = Some l \<longleftrightarrow> s = itoa_nat l \<and> l < 2 ^ 63"
proof
  assume "compressionLevel s = Some l"
  then show "s = itoa_nat l \<and> l < 2 ^ 63"
    by (auto simp: compressionLevel_def Suc_lessI not_less itoa_atoi_nat le_Suc_eq
        split: if_splits intro!: itoa_atoi_nat [symmetric])
next
  assume "s = itoa_nat l \<and> l < 2 ^ 63"
  then show "compressionLevel s = Some l"
    using itoa_nat_canonical [of l] itoa_nat_digits [of l] by (auto simp: compressionLevel_def)
qed

lemma level_case_iff:
  "(case compressionLevel r of None \<Rightarrow> False | Some l \<Rightarrow> P l) \<longleftrightarrow>
   (\<exists>l. r = itoa_nat l \<and> l < 2 ^ 63 \<and> P l)"
proof (cases "compressionLevel r")
  case None
  then have "\<not> (r = itoa_nat l \<and> l < 2 ^ 63)" for l using compressionLevel_iff [of r l] by auto
  with None show ?thesis by auto
next
  case (Some l)
  then have "r = itoa_nat l" "l < 2 ^ 63" by (simp_all add: compressionLevel_iff)
  with Some show ?thesis by auto
qed

lemma cut_prefix_Some_iff: "cut_prefix s p = Some r \<longleftrightarrow> s = p @ r"
  by (auto simp: cut_prefix_def prefix_def)

lemma cut_prefix_None_iff: "cut_prefix s p = None \<longleftrightarrow> (\<forall>r. s \<noteq> p @ r)"
  by (auto simp: cut_prefix_def prefix_def)

lemma one_digit_iff: "length r = 1 \<and> in_range (CHR ''1'', CHR ''9'') (hd r) \<longleftrightarrow>
    (\<exists>l. 1 \<le> l \<and> l \<le> 9 \<and> r = itoa_nat l)"
proof
  assume r: "length r = 1 \<and> in_range (CHR ''1'', CHR ''9'') (hd r)"
  then obtain c where c: "r = [c]" by (cases r) auto
  with r have "is_digit c" "1 \<le> digit_val c" "digit_val c \<le> 9"
    by (auto simp: in_range_def is_digit_def digit_val_def byte_def)
  moreover from c have "itoa_nat (atoi_nat r) = r"
    using calculation(1) by (intro itoa_atoi_nat) auto
  ultimately show "\<exists>l. 1 \<le> l \<and> l \<le> 9 \<and> r = itoa_nat l"
    using c by (intro exI [of _ "atoi_nat r"]) (simp add: atoi_nat_def)
next
  assume "\<exists>l. 1 \<le> l \<and> l \<le> 9 \<and> r = itoa_nat l"
  then obtain l where l: "1 \<le> l" "l \<le> 9" "r = itoa_nat l" by blast
  then have r: "r = [char_of (l + 48)]" by (simp add: itoa_nat.simps [of l])
  show "length r = 1 \<and> in_range (CHR ''1'', CHR ''9'') (hd r)"
    unfolding r using l(1,2) by (simp add: in_range_def byte_def)
qed

text \<open>The compression validator accepts exactly the values the ZFS manual names: the eight
  plain algorithms, gzip-1 to gzip-9, zstd-1 to zstd-19, and zstd-fast with a level of
  1 to 10, a multiple of ten up to 100, 500 or 1000; a signed, padded or over-long level is
  never accepted.\<close>

theorem zfs_compression_language:
  "ValidZFSCompression v \<longleftrightarrow>
     v \<in> {''on'', ''off'', ''lz4'', ''zle'', ''lzjb'', ''gzip'', ''zstd'', ''zstd-fast''}
     \<or> (\<exists>l. 1 \<le> l \<and> l \<le> 9 \<and> v = ''gzip-'' @ itoa_nat l)
     \<or> (\<exists>l. 1 \<le> l \<and> l \<le> 19 \<and> v = ''zstd-'' @ itoa_nat l)
     \<or> (\<exists>l. validZstdFastLevel l \<and> v = ''zstd-fast-'' @ itoa_nat l)"
proof -
  have fast: "validZstdFastLevel l \<Longrightarrow> l < 2 ^ 63" for l
    by (auto simp: validZstdFastLevel_def split: if_splits)
  have digit_first: "hd (itoa_nat l) \<noteq> CHR ''f''" for l
    using itoa_nat_digits [of l] itoa_nat_nonempty [of l]
    by (cases "itoa_nat l") (auto simp: is_digit_def in_range_def byte_def)
  have not_fast: "''zstd-'' @ itoa_nat l \<noteq> ''zstd-fast-'' @ r" for l r
    using digit_first [of l] by (cases "itoa_nat l") auto
  show ?thesis
  proof (cases "v \<in> set [''on'', ''off'', ''lz4'', ''zle'', ''lzjb'', ''gzip'', ''zstd'', ''zstd-fast'']")
    case True
    then show ?thesis by (auto simp: ValidZFSCompression_def)
  next
    case False
    consider (gz) r where "v = ''gzip-'' @ r" | (fa) r where "v = ''zstd-fast-'' @ r"
      | (zs) r where "v = ''zstd-'' @ r" "\<forall>q. v \<noteq> ''zstd-fast-'' @ q"
      | (no) "\<forall>r. v \<noteq> ''gzip-'' @ r" "\<forall>r. v \<noteq> ''zstd-fast-'' @ r" "\<forall>r. v \<noteq> ''zstd-'' @ r"
      by blast
    then show ?thesis
    proof cases
      case gz
      with False show ?thesis
        using one_digit_iff [of r] by (auto simp: ValidZFSCompression_def cut_prefix_def)
    next
      case fa
      then have "ValidZFSCompression v \<longleftrightarrow> (\<exists>l. r = itoa_nat l \<and> l < 2 ^ 63 \<and> validZstdFastLevel l)"
        using False by (simp add: ValidZFSCompression_def cut_prefix_def level_case_iff)
      moreover have "\<forall>l. v \<noteq> ''zstd-'' @ itoa_nat l" using fa not_fast by metis
      ultimately show ?thesis using fa False fast by auto
    next
      case zs
      then have "ValidZFSCompression v \<longleftrightarrow> (\<exists>l. r = itoa_nat l \<and> l < 2 ^ 63 \<and> 1 \<le> l \<and> l \<le> 19)"
        using False by (simp add: ValidZFSCompression_def cut_prefix_def prefix_def level_case_iff)
      moreover have "l \<le> 19 \<Longrightarrow> l < 2 ^ 63" for l :: nat by simp
      ultimately show ?thesis using zs False by auto
    next
      case no
      with False show ?thesis
        by (auto simp: ValidZFSCompression_def cut_prefix_def prefix_def)
    qed
  qed
qed

end
