(* ===== verification/Jobs.thy ===== *)
theory Jobs
  imports Provider Complex_Main
begin

text \<open>
  Package \<open>pkg/job\<close>: the asynchronous job manager. A \<open>*Job\<close> is an index into a heap of
  job records, so that the map of known jobs, the queue, the workers and the callers that hold
  a pointer share the object. The two mutexes make the bodies between \<open>Lock\<close> and \<open>Unlock\<close>
  atomic; each such critical section is one function here, and the whole method is their
  composition. The step relation of \<^verbatim>\<open>Jobs_Thms\<close> interleaves the critical sections of
  workers and callers.

  \<open>time.Now()\<close>, the random bytes of a job id and the outcome of a job function are
  inputs. Logging is left out.
\<close>

section \<open>Data\<close>

text \<open>A \<open>float64\<close> by the cases the code distinguishes.\<close>

datatype float64 = NaN | PInf | NInf | Fin rat

fun f64_less :: "float64 \<Rightarrow> float64 \<Rightarrow> bool" where
  "f64_less (Fin a) (Fin b) = (a < b)"
| "f64_less NInf (Fin b) = True"
| "f64_less NInf PInf = True"
| "f64_less (Fin a) PInf = True"
| "f64_less _ _ = False"

datatype JobStatus =
  JobStatusPending | JobStatusRunning | JobStatusCompleted | JobStatusFailed | JobStatusCancelled

fun status_string :: "JobStatus \<Rightarrow> string" where
  "status_string JobStatusPending = ''pending''"
| "status_string JobStatusRunning = ''running''"
| "status_string JobStatusCompleted = ''completed''"
| "status_string JobStatusFailed = ''failed''"
| "status_string JobStatusCancelled = ''canceled''"

text \<open>The \<open>Error\<close> field is the text of an error value or of a recovered panic.\<close>

datatype job_error = NoError | ErrorText go_error | PanicText string

record job =
  j_ID :: string
  j_Type :: string
  j_Description :: string
  j_Status :: JobStatus
  j_Progress :: float64
  j_Message :: string
  j_Result :: "(string \<rightharpoonup> config_value) option"
  j_Error :: job_error
  j_CreatedAt :: int
  j_StartedAt :: "int option"
  j_CompletedAt :: "int option"
  j_Metadata :: "(string \<rightharpoonup> string) option"
  j_cancel :: bool
  j_done :: nat

text \<open>
  \<open>j_cancel\<close> says that the cancel function is set; \<open>j_done\<close> counts the
  \<open>close(job.done)\<close> calls, the second of which would panic.
\<close>

record job_record =
  jr_ID :: string
  jr_Type :: string
  jr_Description :: string
  jr_Status :: JobStatus
  jr_Progress :: float64
  jr_Message :: string
  jr_Result :: "(string \<rightharpoonup> config_value) option"
  jr_Error :: job_error
  jr_CreatedAt :: int
  jr_StartedAt :: "int option"
  jr_CompletedAt :: "int option"
  jr_Metadata :: "(string \<rightharpoonup> string) option"

text \<open>
  Where a worker goroutine is: waiting for a task, holding a task it has received, inside the
  job function, about to call the update hook, about to close the done channel, or returned.
\<close>

datatype worker = WIdle | WStart nat | WRun nat | WNotify nat | WClose nat | WExited

record job_manager =
  jm_heap :: "job list"
  jm_jobs :: "string \<rightharpoonup> nat"
  jm_queue :: "nat list"
  jm_cap :: nat
  jm_nworkers :: nat
  jm_workers :: "nat \<Rightarrow> worker"
  jm_shuttingDown :: bool
  jm_queueClosed :: bool
  jm_ctxs :: "nat \<Rightarrow> bool"
  jm_cancelledAll :: bool
  jm_hooks :: "nat list"
  jm_cancels :: "(nat \<times> bool) list"

text \<open>
  \<open>jm_ctxs r\<close> says that the context of job \<open>r\<close> is canceled and
  \<open>jm_cancelledAll\<close> that their common parent is; \<open>jm_hooks\<close> lists the jobs the update hook
  was called with; \<open>jm_cancels\<close> are the \<open>CancelJob\<close> calls that have recorded the
  cancellation and not yet called the cancel function and the hook.
\<close>

record job_manager_config =
  jc_Workers :: int
  jc_QueueSize :: int
  jc_CleanupInterval :: int
  jc_MaxJobAge :: int

definition ErrJobNotFound :: go_error where
  "ErrJobNotFound = Errorf ''job not found'' []"

definition ErrQueueFull :: go_error where
  "ErrQueueFull = Errorf ''job queue is full'' []"

definition ErrJobNotCancellable :: go_error where
  "ErrJobNotCancellable = Errorf ''job cannot be canceled'' []"

definition ErrShuttingDown :: go_error where
  "ErrShuttingDown = Errorf ''job manager is shutting down'' []"

definition ErrJobActive :: go_error where
  "ErrJobActive = Errorf ''job is active'' []"

section \<open>Methods of a job\<close>

definition UpdateProgress :: "float64 \<Rightarrow> string \<Rightarrow> job \<Rightarrow> job" where
  "UpdateProgress progress message j =
     (let p = (if progress = NaN then Fin 0 else progress);
          p = (if f64_less p (Fin 0) then Fin 0 else p);
          p = (if f64_less (Fin 1) p then Fin 1 else p)
      in j\<lparr>j_Progress := p, j_Message := message\<rparr>)"

definition SetResult :: "(string \<rightharpoonup> config_value) option \<Rightarrow> job \<Rightarrow> job" where
  "SetResult result j = j\<lparr>j_Result := result\<rparr>"

definition snapshotStatus :: "job \<Rightarrow> JobStatus" where
  "snapshotStatus j = j_Status j"

definition Snapshot :: "job \<Rightarrow> job_record" where
  "Snapshot j =
     \<lparr>jr_ID = j_ID j, jr_Type = j_Type j, jr_Description = j_Description j, jr_Status = j_Status j,
      jr_Progress = j_Progress j, jr_Message = j_Message j, jr_Result = j_Result j,
      jr_Error = j_Error j, jr_CreatedAt = j_CreatedAt j, jr_StartedAt = j_StartedAt j,
      jr_CompletedAt = j_CompletedAt j, jr_Metadata = j_Metadata j\<rparr>"

section \<open>The manager\<close>

definition DefaultJobManagerConfig :: job_manager_config where
  "DefaultJobManagerConfig =
     \<lparr>jc_Workers = 4, jc_QueueSize = 100, jc_CleanupInterval = 5 * 60 * 1000000000,
      jc_MaxJobAge = 24 * 60 * 60 * 1000000000\<rparr>"

definition default_if :: "int \<Rightarrow> int \<Rightarrow> int" where
  "default_if d v = (if v \<le> 0 then d else v)"

text \<open>The manager a configuration gives, and the age after which the cleanup loop removes a job.\<close>

definition NewJobManager :: "job_manager_config \<Rightarrow> job_manager \<times> int" where
  "NewJobManager cfg =
     (let d = DefaultJobManagerConfig in
      (\<lparr>jm_heap = [], jm_jobs = Map.empty, jm_queue = [],
        jm_cap = nat (default_if (jc_QueueSize d) (jc_QueueSize cfg)),
        jm_nworkers = nat (default_if (jc_Workers d) (jc_Workers cfg)),
        jm_workers = (\<lambda>_. WIdle), jm_shuttingDown = False, jm_queueClosed = False,
        jm_ctxs = (\<lambda>_. False), jm_cancelledAll = False, jm_hooks = [], jm_cancels = []\<rparr>,
       default_if (jc_MaxJobAge d) (jc_MaxJobAge cfg)))"

definition job_at :: "job_manager \<Rightarrow> nat \<Rightarrow> job" where
  "job_at s r = jm_heap s ! r"

definition upd_job :: "nat \<Rightarrow> (job \<Rightarrow> job) \<Rightarrow> job_manager \<Rightarrow> job_manager" where
  "upd_job r f s = s\<lparr>jm_heap := (jm_heap s)[r := f (jm_heap s ! r)]\<rparr>"

definition notifyUpdate :: "nat \<Rightarrow> job_manager \<Rightarrow> job_manager" where
  "notifyUpdate r s = s\<lparr>jm_hooks := jm_hooks s @ [r]\<rparr>"

definition hex_digit :: "nat \<Rightarrow> char" where
  "hex_digit d = char_of (if d < 10 then d + 48 else d + 87)"

definition hex_encode :: "nat list \<Rightarrow> string" where
  "hex_encode bs = concat (map (\<lambda>b. [hex_digit (b div 16 mod 16), hex_digit (b mod 16)]) bs)"

definition new_job ::
    "string \<Rightarrow> string \<Rightarrow> string \<Rightarrow> (string \<rightharpoonup> string) option \<Rightarrow> int \<Rightarrow> job" where
  "new_job i ty desc meta now =
     \<lparr>j_ID = i, j_Type = ty, j_Description = desc, j_Status = JobStatusPending,
      j_Progress = Fin 0, j_Message = [], j_Result = None, j_Error = NoError,
      j_CreatedAt = now, j_StartedAt = None, j_CompletedAt = None, j_Metadata = meta,
      j_cancel = False, j_done = 0\<rparr>"

text \<open>
  \<open>Submit\<close>. The bytes are the result of \<open>rand.Read\<close>. The job object of a refused
  submission is reachable from nowhere, so it is not kept on the heap; deleting the map entry
  of the refused id is.
\<close>

definition Submit ::
    "go_error + nat list \<Rightarrow> string \<Rightarrow> string \<Rightarrow> (string \<rightharpoonup> string) option \<Rightarrow> int \<Rightarrow>
     job_manager \<Rightarrow> nat go_result \<times> job_manager" where
  "Submit rnd ty desc meta now s =
     (case rnd of
        Inl e \<Rightarrow> (Inl (Wrapf ''failed to generate job ID: %w'' [] e), s)
      | Inr b \<Rightarrow>
          let i = ''job-'' @ hex_encode b; r = length (jm_heap s) in
          if jm_shuttingDown s then (Inl ErrShuttingDown, s)
          else if length (jm_queue s) < jm_cap s then
            (Inr r, s\<lparr>jm_heap := jm_heap s @ [new_job i ty desc meta now],
                      jm_jobs := (jm_jobs s)(i \<mapsto> r), jm_queue := jm_queue s @ [r]\<rparr>)
          else (Inl (Wrapf ''%w, try again later'' [] ErrQueueFull),
                s\<lparr>jm_jobs := (jm_jobs s)(i := None)\<rparr>))"

definition GetJob :: "job_manager \<Rightarrow> string \<Rightarrow> nat go_result" where
  "GetJob s i =
     (case jm_jobs s i of
        None \<Rightarrow> Inl (Wrapf ''%w: %s'' [i] ErrJobNotFound)
      | Some r \<Rightarrow> Inr r)"

text \<open>A range over the map of jobs visits the ids in the order given.\<close>

definition ListJobs :: "string list \<Rightarrow> JobStatus option \<Rightarrow> job_manager \<Rightarrow> nat list" where
  "ListJobs order status s =
     filter (\<lambda>r. status = None \<or> Some (snapshotStatus (job_at s r)) = status)
       (List.map_filter (jm_jobs s) order)"

definition cancellable :: "JobStatus \<Rightarrow> bool" where
  "cancellable st \<longleftrightarrow> st = JobStatusRunning \<or> st = JobStatusPending"

definition terminal :: "JobStatus \<Rightarrow> bool" where
  "terminal st \<longleftrightarrow> st = JobStatusCompleted \<or> st = JobStatusFailed \<or> st = JobStatusCancelled"

text \<open>
  \<open>CancelJob\<close>: the section under the job's lock, which returns whether a cancel function was
  set, and what follows it. The call is in flight between the two.
\<close>

definition cancel_mark :: "int \<Rightarrow> nat \<Rightarrow> job_manager \<Rightarrow> bool go_result \<times> job_manager" where
  "cancel_mark now r s =
     (let j = job_at s r in
      if \<not> cancellable (j_Status j)
      then (Inl (Wrapf ''%w: status is %s'' [status_string (j_Status j)] ErrJobNotCancellable), s)
      else (Inr (j_cancel j),
            (upd_job r (\<lambda>j. j\<lparr>j_Status := JobStatusCancelled, j_Message := ''Canceled by user'',
                              j_CompletedAt := Some now\<rparr>) s)
              \<lparr>jm_cancels := (r, j_cancel j) # jm_cancels s\<rparr>))"

definition cancel_finish :: "nat \<Rightarrow> bool \<Rightarrow> job_manager \<Rightarrow> job_manager" where
  "cancel_finish r c s =
     notifyUpdate r
       (s\<lparr>jm_ctxs := (if c then (jm_ctxs s)(r := True) else jm_ctxs s),
          jm_cancels := remove1 (r, c) (jm_cancels s)\<rparr>)"

definition CancelJob :: "int \<Rightarrow> string \<Rightarrow> job_manager \<Rightarrow> go_error option \<times> job_manager" where
  "CancelJob now i s =
     (case jm_jobs s i of
        None \<Rightarrow> (Some (Wrapf ''%w: %s'' [i] ErrJobNotFound), s)
      | Some r \<Rightarrow>
          (case cancel_mark now r s of
             (Inl e, s') \<Rightarrow> (Some e, s')
           | (Inr c, s') \<Rightarrow> (None, cancel_finish r c s')))"

definition DeleteJob :: "string \<Rightarrow> job_manager \<Rightarrow> go_error option \<times> job_manager" where
  "DeleteJob i s =
     (case jm_jobs s i of
        None \<Rightarrow> (Some (Wrapf ''%w: %s'' [i] ErrJobNotFound), s)
      | Some r \<Rightarrow>
          let st = snapshotStatus (job_at s r) in
          if st = JobStatusRunning \<or> st = JobStatusPending
          then (Some (Wrapf ''cannot delete active job: %w: status is %s'' [status_string st]
                       ErrJobActive), s)
          else (None, s\<lparr>jm_jobs := (jm_jobs s)(i := None)\<rparr>))"

text \<open>\<open>Stats\<close>: an absent key of the result reads as zero.\<close>

definition Stats :: "string list \<Rightarrow> job_manager \<Rightarrow> string \<rightharpoonup> nat" where
  "Stats order s =
     (let count = (\<lambda>r m. let k = status_string (snapshotStatus (job_at s r)) in
                         m(k \<mapsto> Suc (case m k of None \<Rightarrow> 0 | Some n \<Rightarrow> n)));
          rs = List.map_filter (jm_jobs s) order
      in (fold count rs Map.empty)(''total'' \<mapsto> length rs, ''queue_depth'' \<mapsto> length (jm_queue s)))"

text \<open>
  \<open>Shutdown\<close>: the once-only section that closes the queue, and the cancellation of every
  job context after the wait. The wait itself changes nothing.
\<close>

definition shutdown_close :: "job_manager \<Rightarrow> job_manager" where
  "shutdown_close s = s\<lparr>jm_shuttingDown := True, jm_queueClosed := True\<rparr>"

definition shutdown_cancel :: "job_manager \<Rightarrow> job_manager" where
  "shutdown_cancel s = s\<lparr>jm_cancelledAll := True\<rparr>"

section \<open>Executing a job\<close>

definition set_worker :: "nat \<Rightarrow> worker \<Rightarrow> job_manager \<Rightarrow> job_manager" where
  "set_worker w pc s = s\<lparr>jm_workers := (jm_workers s)(w := pc)\<rparr>"

text \<open>\<open>task, ok := <-jm.queue\<close>: the head of the queue, or an exit once the queue is closed.\<close>

definition worker_receive :: "nat \<Rightarrow> job_manager \<Rightarrow> job_manager" where
  "worker_receive w s =
     (case jm_queue s of
        r # q \<Rightarrow> set_worker w (WStart r) (s\<lparr>jm_queue := q\<rparr>)
      | [] \<Rightarrow> if jm_queueClosed s then set_worker w WExited s else s)"

text \<open>The first critical section of \<open>executeJob\<close>.\<close>

definition exec_start :: "int \<Rightarrow> nat \<Rightarrow> nat \<Rightarrow> job_manager \<Rightarrow> job_manager" where
  "exec_start now w r s =
     (if j_Status (job_at s r) = JobStatusCancelled then set_worker w (WClose r) s
      else set_worker w (WRun r)
             (upd_job r (\<lambda>j. j\<lparr>j_Status := JobStatusRunning, j_StartedAt := Some now,
                               j_Message := ''Starting...'', j_cancel := True\<rparr>) s))"

definition ctx_canceled :: "job_manager \<Rightarrow> nat \<Rightarrow> bool" where
  "ctx_canceled s r \<longleftrightarrow> jm_ctxs s r \<or> jm_cancelledAll s"

text \<open>The second critical section, after the job function returned an error or nil.\<close>

definition exec_finish :: "int \<Rightarrow> go_error option \<Rightarrow> nat \<Rightarrow> nat \<Rightarrow> job_manager \<Rightarrow> job_manager" where
  "exec_finish now err w r s =
     (if j_Status (job_at s r) = JobStatusCancelled then
        set_worker w (WClose r)
          (upd_job r (\<lambda>j. j\<lparr>j_Message := ''Canceled'',
                            j_CompletedAt := (if j_CompletedAt j = None then Some now
                                              else j_CompletedAt j)\<rparr>) s)
      else
        set_worker w (WNotify r)
          (upd_job r (\<lambda>j.
             (case err of
                Some e \<Rightarrow>
                  if ctx_canceled s r
                  then j\<lparr>j_CompletedAt := Some now, j_Status := JobStatusCancelled,
                         j_Message := ''Canceled''\<rparr>
                  else j\<lparr>j_CompletedAt := Some now, j_Status := JobStatusFailed,
                         j_Error := ErrorText e, j_Message := ''Failed''\<rparr>
              | None \<Rightarrow> j\<lparr>j_CompletedAt := Some now, j_Status := JobStatusCompleted,
                          j_Progress := Fin 1, j_Message := ''Completed''\<rparr>)) s))"

text \<open>The deferred recovery of a panic in the job function.\<close>

definition exec_panic :: "int \<Rightarrow> string \<Rightarrow> nat \<Rightarrow> nat \<Rightarrow> job_manager \<Rightarrow> job_manager" where
  "exec_panic now msg w r s =
     set_worker w (WNotify r)
       (upd_job r (\<lambda>j. j\<lparr>j_Status := JobStatusFailed, j_Error := PanicText msg,
                         j_Message := ''Failed (panic)'', j_CompletedAt := Some now\<rparr>) s)"

definition exec_notify :: "nat \<Rightarrow> nat \<Rightarrow> job_manager \<Rightarrow> job_manager" where
  "exec_notify w r s = set_worker w (WClose r) (notifyUpdate r s)"

text \<open>\<open>close(job.done)\<close> and the deferred cancel, after which the worker loops.\<close>

definition exec_close :: "nat \<Rightarrow> nat \<Rightarrow> job_manager \<Rightarrow> job_manager" where
  "exec_close w r s =
     (let s' = upd_job r (\<lambda>j. j\<lparr>j_done := Suc (j_done j)\<rparr>) s in
      set_worker w WIdle
        (if j_cancel (job_at s r) then s'\<lparr>jm_ctxs := (jm_ctxs s')(r := True)\<rparr> else s'))"

text \<open>What a job function did: the job and contexts it left behind, and how it ended.\<close>

datatype fn_outcome = Returned "go_error option" | Panicked string

text \<open>
  \<open>executeJob\<close> without interleaving, as the composition of its sections; \<open>fn\<close> is the
  job function.
\<close>

definition executeJob ::
    "int \<Rightarrow> int \<Rightarrow> (nat \<Rightarrow> job_manager \<Rightarrow> fn_outcome \<times> job_manager) \<Rightarrow> nat \<Rightarrow> nat \<Rightarrow>
     job_manager \<Rightarrow> job_manager" where
  "executeJob t0 t1 fn w r s =
     (let s1 = exec_start t0 w r s in
      if jm_workers s1 w = WClose r then exec_close w r s1
      else
        let (out, s2) = fn r s1;
            s3 = (case out of Returned err \<Rightarrow> exec_finish t1 err w r s2
                  | Panicked m \<Rightarrow> exec_panic t1 m w r s2);
            s4 = (if jm_workers s3 w = WNotify r then exec_notify w r s3 else s3)
        in exec_close w r s4)"

section \<open>Cleanup\<close>

definition expired :: "int \<Rightarrow> job \<Rightarrow> bool" where
  "expired cutoff j \<longleftrightarrow>
     terminal (j_Status j) \<and> (case j_CompletedAt j of None \<Rightarrow> False | Some t \<Rightarrow> t < cutoff)"

definition cleanupOldJobs ::
    "string list \<Rightarrow> int \<Rightarrow> int \<Rightarrow> job_manager \<Rightarrow> nat \<times> job_manager" where
  "cleanupOldJobs order now maxAge s =
     (let cutoff = now - maxAge in
      fold (\<lambda>i (n, s').
              case jm_jobs s' i of
                None \<Rightarrow> (n, s')
              | Some r \<Rightarrow>
                  if expired cutoff (job_at s' r)
                  then (Suc n, s'\<lparr>jm_jobs := (jm_jobs s')(i := None)\<rparr>)
                  else (n, s'))
        order (0, s))"

end
