(* ===== verification/Jobs_Thms.thy ===== *)
theory Jobs_Thms
  imports Jobs
begin

text \<open>
  The job manager as a transition system: workers, submitters, cancelers, the cleanup loop and
  the shutdown interleave at their critical sections. The invariant ties the place of every
  job (queue, worker, finished) to its status, its completion time, its done channel and the
  number of hook calls; the properties are read off it.
\<close>

section \<open>The step relation\<close>

inductive jm_step :: "job_manager \<Rightarrow> job_manager \<Rightarrow> bool" where
  submit: "jm_step s (snd (Submit rnd ty desc meta now s))"
| mark: "r < length (jm_heap s) \<Longrightarrow> jm_step s (snd (cancel_mark now r s))"
| finish_cancel: "(r, c) \<in> set (jm_cancels s) \<Longrightarrow> jm_step s (cancel_finish r c s)"
| delete: "jm_step s (snd (DeleteJob i s))"
| cleanup: "jm_step s (snd (cleanupOldJobs order now maxAge s))"
| close: "jm_step s (shutdown_close s)"
| cancel_all: "jm_shuttingDown s \<Longrightarrow> jm_step s (shutdown_cancel s)"
| receive: "w < jm_nworkers s \<Longrightarrow> jm_workers s w = WIdle \<Longrightarrow> jm_step s (worker_receive w s)"
| start: "w < jm_nworkers s \<Longrightarrow> jm_workers s w = WStart r \<Longrightarrow> jm_step s (exec_start now w r s)"
| progress: "w < jm_nworkers s \<Longrightarrow> jm_workers s w = WRun r \<Longrightarrow>
    jm_step s (upd_job r (UpdateProgress p m) s)"
| result: "w < jm_nworkers s \<Longrightarrow> jm_workers s w = WRun r \<Longrightarrow> jm_step s (upd_job r (SetResult v) s)"
| return: "w < jm_nworkers s \<Longrightarrow> jm_workers s w = WRun r \<Longrightarrow>
    jm_step s (exec_finish now err w r s)"
| panic: "w < jm_nworkers s \<Longrightarrow> jm_workers s w = WRun r \<Longrightarrow> jm_step s (exec_panic now msg w r s)"
| notify: "w < jm_nworkers s \<Longrightarrow> jm_workers s w = WNotify r \<Longrightarrow> jm_step s (exec_notify w r s)"
| close_done: "w < jm_nworkers s \<Longrightarrow> jm_workers s w = WClose r \<Longrightarrow> jm_step s (exec_close w r s)"

inductive jm_reach :: "job_manager_config \<Rightarrow> job_manager \<Rightarrow> bool" for cfg where
  init: "jm_reach cfg (fst (NewJobManager cfg))"
| step: "jm_reach cfg s \<Longrightarrow> jm_step s s' \<Longrightarrow> jm_reach cfg s'"

section \<open>The invariant\<close>

fun worker_job :: "worker \<Rightarrow> nat option" where
  "worker_job WIdle = None"
| "worker_job (WStart r) = Some r"
| "worker_job (WRun r) = Some r"
| "worker_job (WNotify r) = Some r"
| "worker_job (WClose r) = Some r"
| "worker_job WExited = None"

lemma worker_job_Some_iff:
  "worker_job pc = Some r \<longleftrightarrow> pc = WStart r \<or> pc = WRun r \<or> pc = WNotify r \<or> pc = WClose r"
  by (cases pc) auto

text \<open>Who holds a job: at most one of the queue and the workers, and the queue at most once.\<close>

definition places_ok :: "nat list \<Rightarrow> (nat \<Rightarrow> worker) \<Rightarrow> bool" where
  "places_ok q W \<longleftrightarrow>
     distinct q
     \<and> (\<forall>w r. worker_job (W w) = Some r \<longrightarrow> r \<notin> set q)
     \<and> (\<forall>w w' r. worker_job (W w) = Some r \<longrightarrow> worker_job (W w') = Some r \<longrightarrow> w = w')"

lemma places_move:
  "places_ok q W \<Longrightarrow> worker_job pc = worker_job (W w) \<or> worker_job pc = None \<Longrightarrow>
   places_ok q (W(w := pc))"
  unfolding places_ok_def by (metis fun_upd_apply option.distinct(1))

lemma places_receive:
  "places_ok (r # q) W \<Longrightarrow> places_ok q (W(w := WStart r))"
  unfolding places_ok_def
  by (intro conjI allI impI) (force split: if_splits)+

lemma places_submit:
  "places_ok q W \<Longrightarrow> r \<notin> set q \<Longrightarrow> (\<And>w. worker_job (W w) \<noteq> Some r) \<Longrightarrow> places_ok (q @ [r]) W"
  unfolding places_ok_def by auto

lemma places_inj:
  "places_ok q W \<Longrightarrow> worker_job (W w) = Some r \<Longrightarrow> worker_job (W w') = Some r \<Longrightarrow> w = w'"
  unfolding places_ok_def by blast

lemma places_notin: "places_ok q W \<Longrightarrow> worker_job (W w) = Some r \<Longrightarrow> r \<notin> set q"
  unfolding places_ok_def by blast

definition refs_ok :: "job_manager \<Rightarrow> bool" where
  "refs_ok s \<longleftrightarrow>
     (\<forall>r \<in> set (jm_queue s). r < length (jm_heap s))
     \<and> (\<forall>w r. worker_job (jm_workers s w) = Some r \<longrightarrow> r < length (jm_heap s))
     \<and> (\<forall>i r. jm_jobs s i = Some r \<longrightarrow> r < length (jm_heap s))
     \<and> (\<forall>r \<in> fst ` set (jm_cancels s) \<union> set (jm_hooks s). r < length (jm_heap s))
     \<and> (\<forall>w. jm_nworkers s \<le> w \<longrightarrow> jm_workers s w = WIdle)"

datatype place = Queued | Starting | Running | Notifying | Closing | Finished

text \<open>What each place says of the job.\<close>

fun place_job_ok :: "place \<Rightarrow> job \<Rightarrow> bool" where
  "place_job_ok Queued j = (j_Status j \<in> {JobStatusPending, JobStatusCancelled} \<and> j_done j = 0)"
| "place_job_ok Starting j = (j_Status j \<in> {JobStatusPending, JobStatusCancelled} \<and> j_done j = 0)"
| "place_job_ok Running j = (j_Status j \<in> {JobStatusRunning, JobStatusCancelled} \<and> j_done j = 0)"
| "place_job_ok Notifying j = (terminal (j_Status j) \<and> j_done j = 0)"
| "place_job_ok Closing j = (terminal (j_Status j) \<and> j_done j = 0)"
| "place_job_ok Finished j = (terminal (j_Status j) \<and> j_done j = 1)"

fun worker_place :: "worker \<Rightarrow> place" where
  "worker_place (WStart r) = Starting"
| "worker_place (WRun r) = Running"
| "worker_place (WNotify r) = Notifying"
| "worker_place (WClose r) = Closing"
| "worker_place _ = Finished"

definition progress_ok :: "float64 \<Rightarrow> bool" where
  "progress_ok p \<longleftrightarrow> (\<exists>q. p = Fin q \<and> 0 \<le> q \<and> q \<le> 1)"

definition job_ok :: "job \<Rightarrow> bool" where
  "job_ok j \<longleftrightarrow> progress_ok (j_Progress j) \<and> (j_CompletedAt j \<noteq> None \<longleftrightarrow> terminal (j_Status j))"

definition jobs_ok :: "job list \<Rightarrow> nat list \<Rightarrow> (nat \<Rightarrow> worker) \<Rightarrow> bool" where
  "jobs_ok h q W \<longleftrightarrow>
     (\<forall>r < length h. job_ok (h ! r)
        \<and> (r \<in> set q \<longrightarrow> place_job_ok Queued (h ! r))
        \<and> (\<forall>w. worker_job (W w) = Some r \<longrightarrow> place_job_ok (worker_place (W w)) (h ! r))
        \<and> (r \<notin> set q \<longrightarrow> (\<forall>w. worker_job (W w) \<noteq> Some r) \<longrightarrow> place_job_ok Finished (h ! r)))"

text \<open>Hook calls made and due for a job.\<close>

definition notifying :: "(nat \<Rightarrow> worker) \<Rightarrow> nat \<Rightarrow> nat" where
  "notifying W r = (if \<exists>w. W w = WNotify r then 1 else 0)"

definition notified :: "job_manager \<Rightarrow> nat \<Rightarrow> nat" where
  "notified s r =
     count_list (jm_hooks s) r + count_list (map fst (jm_cancels s)) r + notifying (jm_workers s) r"

fun notified_ok :: "JobStatus \<Rightarrow> nat \<Rightarrow> bool" where
  "notified_ok JobStatusPending n = (n = 0)"
| "notified_ok JobStatusRunning n = (n = 0)"
| "notified_ok JobStatusCompleted n = (n = 1)"
| "notified_ok JobStatusCancelled n = (n = 1)"
| "notified_ok JobStatusFailed n = (n = 1 \<or> n = 2)"

definition hooks_ok :: "job_manager \<Rightarrow> bool" where
  "hooks_ok s \<longleftrightarrow> (\<forall>r < length (jm_heap s). notified_ok (j_Status (job_at s r)) (notified s r))"

definition queue_ok :: "job_manager \<Rightarrow> bool" where
  "queue_ok s \<longleftrightarrow>
     length (jm_queue s) \<le> jm_cap s \<and> 0 < jm_nworkers s
     \<and> (jm_queueClosed s \<longleftrightarrow> jm_shuttingDown s)
     \<and> (\<forall>w. jm_workers s w = WExited \<longrightarrow> jm_shuttingDown s \<and> jm_queue s = [])"

definition jm_inv :: "job_manager \<Rightarrow> bool" where
  "jm_inv s \<longleftrightarrow> refs_ok s \<and> places_ok (jm_queue s) (jm_workers s) \<and> jobs_ok (jm_heap s) (jm_queue s) (jm_workers s) \<and> hooks_ok s \<and> queue_ok s"

section \<open>Effects of the operations\<close>

lemma upd_job_simps [simp]:
  "jm_jobs (upd_job r f s) = jm_jobs s" "jm_queue (upd_job r f s) = jm_queue s"
  "jm_cap (upd_job r f s) = jm_cap s" "jm_nworkers (upd_job r f s) = jm_nworkers s"
  "jm_workers (upd_job r f s) = jm_workers s" "jm_shuttingDown (upd_job r f s) = jm_shuttingDown s"
  "jm_queueClosed (upd_job r f s) = jm_queueClosed s" "jm_ctxs (upd_job r f s) = jm_ctxs s"
  "jm_cancelledAll (upd_job r f s) = jm_cancelledAll s" "jm_hooks (upd_job r f s) = jm_hooks s"
  "jm_cancels (upd_job r f s) = jm_cancels s" "length (jm_heap (upd_job r f s)) = length (jm_heap s)"
  by (simp_all add: upd_job_def)

lemma set_worker_simps [simp]:
  "jm_jobs (set_worker w pc s) = jm_jobs s" "jm_queue (set_worker w pc s) = jm_queue s"
  "jm_cap (set_worker w pc s) = jm_cap s" "jm_nworkers (set_worker w pc s) = jm_nworkers s"
  "jm_workers (set_worker w pc s) = (jm_workers s)(w := pc)"
  "jm_shuttingDown (set_worker w pc s) = jm_shuttingDown s"
  "jm_queueClosed (set_worker w pc s) = jm_queueClosed s" "jm_ctxs (set_worker w pc s) = jm_ctxs s"
  "jm_cancelledAll (set_worker w pc s) = jm_cancelledAll s" "jm_hooks (set_worker w pc s) = jm_hooks s"
  "jm_cancels (set_worker w pc s) = jm_cancels s" "jm_heap (set_worker w pc s) = jm_heap s"
  "job_at (set_worker w pc s) r = job_at s r"
  by (simp_all add: set_worker_def job_at_def)

lemma job_at_upd_job:
  "job_at (upd_job r f s) r' = (if r = r' \<and> r < length (jm_heap s) then f (job_at s r) else job_at s r')"
  by (simp add: job_at_def upd_job_def nth_update_if)

lemma job_at_update [simp]:
  "job_at (s\<lparr>jm_queue := q\<rparr>) r = job_at s r" "job_at (s\<lparr>jm_jobs := J\<rparr>) r = job_at s r"
  "job_at (s\<lparr>jm_ctxs := c\<rparr>) r = job_at s r" "job_at (s\<lparr>jm_cancels := x\<rparr>) r = job_at s r"
  "job_at (s\<lparr>jm_hooks := h\<rparr>) r = job_at s r" "job_at (s\<lparr>jm_cancelledAll := b\<rparr>) r = job_at s r"
  "job_at (s\<lparr>jm_shuttingDown := b\<rparr>) r = job_at s r" "job_at (s\<lparr>jm_queueClosed := b\<rparr>) r = job_at s r"
  by (simp_all add: job_at_def)

definition cleanup_one :: "int \<Rightarrow> string \<Rightarrow> nat \<times> job_manager \<Rightarrow> nat \<times> job_manager" where
  "cleanup_one cutoff i ns =
     (case jm_jobs (snd ns) i of
        None \<Rightarrow> ns
      | Some r \<Rightarrow>
          if expired cutoff (job_at (snd ns) r)
          then (Suc (fst ns), (snd ns)\<lparr>jm_jobs := (jm_jobs (snd ns))(i := None)\<rparr>) else ns)"

lemma cleanupOldJobs_fold:
  "cleanupOldJobs order now maxAge s = fold (cleanup_one (now - maxAge)) order (0, s)"
proof -
  have "(\<lambda>i (n, s'). case jm_jobs s' i of None \<Rightarrow> (n, s')
          | Some r \<Rightarrow> if expired (now - maxAge) (job_at s' r)
              then (Suc n, s'\<lparr>jm_jobs := (jm_jobs s')(i := None)\<rparr>) else (n, s'))
        = cleanup_one (now - maxAge)"
    by (intro ext) (auto simp: cleanup_one_def split: option.splits)
  then show ?thesis by (simp add: cleanupOldJobs_def)
qed

definition cleaned :: "int \<Rightarrow> string list \<Rightarrow> job_manager \<Rightarrow> string \<rightharpoonup> nat" where
  "cleaned cutoff order s i =
     (if i \<in> set order \<and> (case jm_jobs s i of None \<Rightarrow> False | Some r \<Rightarrow> expired cutoff (job_at s r))
      then None else jm_jobs s i)"

lemma cleanup_fold:
  "snd (fold (cleanup_one cutoff) order (n, s)) = s\<lparr>jm_jobs := cleaned cutoff order s\<rparr>"
proof (induction order arbitrary: n s)
  case Nil
  then show ?case by (simp add: cleaned_def)
next
  case (Cons i order)
  show ?case
  proof (cases "case jm_jobs s i of None \<Rightarrow> False | Some r \<Rightarrow> expired cutoff (job_at s r)")
    case True
    then have "cleanup_one cutoff i (n, s) = (Suc n, s\<lparr>jm_jobs := (jm_jobs s)(i := None)\<rparr>)"
      by (auto simp: cleanup_one_def split: option.splits)
    moreover have "cleaned cutoff order (s\<lparr>jm_jobs := (jm_jobs s)(i := None)\<rparr>)
        = cleaned cutoff (i # order) s"
      using True by (intro ext) (auto simp: cleaned_def split: option.splits)
    ultimately show ?thesis by (simp add: Cons.IH)
  next
    case False
    then have "cleanup_one cutoff i (n, s) = (n, s)"
      by (auto simp: cleanup_one_def split: option.splits)
    moreover have "cleaned cutoff order s = cleaned cutoff (i # order) s"
      using False by (intro ext) (auto simp: cleaned_def)
    ultimately show ?thesis by (simp add: Cons.IH)
  qed
qed

lemma cleanupOldJobs_state:
  "snd (cleanupOldJobs order now maxAge s) = s\<lparr>jm_jobs := cleaned (now - maxAge) order s\<rparr>"
  by (simp add: cleanupOldJobs_fold cleanup_fold)

lemma cleaned_Some: "cleaned cutoff order s i = Some r \<Longrightarrow> jm_jobs s i = Some r"
  by (auto simp: cleaned_def split: if_splits)

lemmas op_defs = Submit_def cancel_mark_def cancel_finish_def DeleteJob_def shutdown_close_def
  shutdown_cancel_def worker_receive_def exec_start_def exec_finish_def exec_panic_def
  exec_notify_def exec_close_def notifyUpdate_def cleanupOldJobs_state Let_def

section \<open>Every step keeps the invariant\<close>

lemma refs_step: "jm_step s s' \<Longrightarrow> refs_ok s \<Longrightarrow> refs_ok s'"
proof (induction rule: jm_step.induct)
  case (finish_cancel r c s)
  let ?C = "remove1 (r, c) (jm_cancels s)"
  have r: "r \<in> fst ` set (jm_cancels s)" using finish_cancel.hyps by (rule image_eqI [rotated]) simp
  have sub: "fst ` set ?C \<subseteq> fst ` set (jm_cancels s)"
    by (intro image_mono set_remove1_subset)
  have "\<forall>x \<in> fst ` set ?C \<union> set (jm_hooks s @ [r]). x < length (jm_heap s)"
    using finish_cancel.prems r sub by (simp only: refs_ok_def set_append list.set) blast
  with finish_cancel.prems show ?case
    by (simp add: refs_ok_def cancel_finish_def notifyUpdate_def)
next
  case (cleanup s order now maxAge)
  then show ?case by (auto simp: refs_ok_def op_defs dest: cleaned_Some)
qed (auto simp: refs_ok_def op_defs less_SucI worker_job_Some_iff
    split: option.splits list.splits sum.splits)

lemma queue_step: "jm_step s s' \<Longrightarrow> queue_ok s \<Longrightarrow> queue_ok s'"
  by (induction rule: jm_step.induct)
    (auto simp: queue_ok_def op_defs split: option.splits list.splits sum.splits)

lemma places_worker_receive:
  assumes "places_ok (jm_queue s) (jm_workers s)" "jm_workers s w = WIdle"
  shows "places_ok (jm_queue (worker_receive w s)) (jm_workers (worker_receive w s))"
  using assms by (cases "jm_queue s") (simp_all add: worker_receive_def places_receive places_move)

lemma places_step:
  "jm_step s s' \<Longrightarrow> refs_ok s \<Longrightarrow> places_ok (jm_queue s) (jm_workers s) \<Longrightarrow>
   places_ok (jm_queue s') (jm_workers s')"
proof (induction rule: jm_step.induct)
  case (submit s rnd ty desc meta now)
  then have "length (jm_heap s) \<notin> set (jm_queue s)"
    "\<And>w. worker_job (jm_workers s w) \<noteq> Some (length (jm_heap s))"
    by (auto simp: refs_ok_def)
  with submit show ?case by (auto simp: op_defs intro: places_submit split: sum.splits)
next
  case (receive w s)
  then show ?case by (simp add: places_worker_receive del: fun_upd_apply)
qed (simp_all add: op_defs places_move split: option.splits)


lemma refs_worker: "refs_ok s \<Longrightarrow> worker_job (jm_workers s w) = Some r \<Longrightarrow> r < length (jm_heap s)"
  by (simp add: refs_ok_def)

lemma jobs_okD:
  assumes "jobs_ok h q W" "r < length h"
  shows "job_ok (h ! r)" "r \<in> set q \<Longrightarrow> place_job_ok Queued (h ! r)"
    "worker_job (W w) = Some r \<Longrightarrow> place_job_ok (worker_place (W w)) (h ! r)"
    "r \<notin> set q \<Longrightarrow> (\<And>w. worker_job (W w) \<noteq> Some r) \<Longrightarrow> place_job_ok Finished (h ! r)"
  using assms by (auto simp: jobs_ok_def)

text \<open>The three kinds of step: a job changes where it is, a worker moves its job on, a job is
  added or taken from the queue.\<close>

lemma jobs_ok_inplace:
  assumes "jobs_ok h q W" "r < length h \<Longrightarrow> job_ok j"
    and "\<And>p. r < length h \<Longrightarrow> place_job_ok p (h ! r) \<Longrightarrow> place_job_ok p j"
  shows "jobs_ok (h[r := j]) q W"
  unfolding jobs_ok_def
proof (intro allI impI conjI)
  fix k assume k: "k < length (h[r := j])"
  show "job_ok (h[r := j] ! k)"
    using k assms(2) jobs_okD(1) [OF assms(1), of k] by (cases "k = r") simp_all
  have keep: "place_job_ok p (h ! k) \<Longrightarrow> place_job_ok p (h[r := j] ! k)" for p
    using k assms(3) by (cases "k = r") simp_all
  show "place_job_ok Queued (h[r := j] ! k)" if "k \<in> set q"
    using k that by (intro keep jobs_okD(2) [OF assms(1)]) simp_all
  show "place_job_ok (worker_place (W w)) (h[r := j] ! k)" if "worker_job (W w) = Some k" for w
    using k that by (intro keep jobs_okD(3) [OF assms(1)]) simp_all
  show "place_job_ok Finished (h[r := j] ! k)"
    if "k \<notin> set q" "\<forall>w. worker_job (W w) \<noteq> Some k"
    using k that by (intro keep jobs_okD(4) [OF assms(1)]) simp_all
qed

lemma jobs_ok_worker:
  assumes ok: "jobs_ok h q W" and pl: "places_ok q W" and w: "worker_job (W w) = Some r"
    and j: "r < length h \<Longrightarrow> job_ok j"
    and pc: "worker_job pc = Some r \<or> worker_job pc = None"
    and pj: "r < length h \<Longrightarrow> place_job_ok (if worker_job pc = None then Finished else worker_place pc) j"
  shows "jobs_ok (h[r := j]) q (W(w := pc))"
  unfolding jobs_ok_def
proof (intro allI impI conjI)
  fix k assume k: "k < length (h[r := j])"
  show "job_ok (h[r := j] ! k)"
    using k j jobs_okD(1) [OF ok, of k] by (cases "k = r") simp_all
  have nq: "r \<notin> set q" using places_notin [OF pl w] .
  show "place_job_ok Queued (h[r := j] ! k)" if "k \<in> set q"
    using k that nq jobs_okD(2) [OF ok, of k] by (cases "k = r") simp_all
  show "place_job_ok (worker_place ((W(w := pc)) v)) (h[r := j] ! k)"
    if "worker_job ((W(w := pc)) v) = Some k" for v
  proof (cases "v = w")
    case True
    with that pc have "k = r" "worker_job pc = Some r" by auto
    with pj k True show ?thesis by simp
  next
    case False
    with that have "worker_job (W v) = Some k" by simp
    moreover from this have "k \<noteq> r" using places_inj [OF pl w, of v] False by auto
    ultimately show ?thesis using False k jobs_okD(3) [OF ok, of k v] by simp
  qed
  show "place_job_ok Finished (h[r := j] ! k)"
    if "k \<notin> set q" and free: "\<forall>v. worker_job ((W(w := pc)) v) \<noteq> Some k"
  proof (cases "k = r")
    case True
    with free have "worker_job pc = None" using pc by (metis fun_upd_same)
    with pj k True show ?thesis by simp
  next
    case False
    have "worker_job (W v) \<noteq> Some k" for v
      using free False w by (cases "v = w") (auto dest: spec [of _ v])
    with False k that(1) jobs_okD(4) [OF ok, of k] show ?thesis by simp
  qed
qed

lemma jobs_ok_submit:
  assumes ok: "jobs_ok h q W" and "\<forall>r \<in> set q. r < length h"
    and refs: "\<And>w r. worker_job (W w) = Some r \<Longrightarrow> r < length h"
    and "job_ok j" "place_job_ok Queued j"
  shows "jobs_ok (h @ [j]) (q @ [length h]) W"
  unfolding jobs_ok_def
proof (intro allI impI)
  fix k assume "k < length (h @ [j])"
  then consider "k < length h" | "k = length h" by fastforce
  then show "job_ok ((h @ [j]) ! k)
      \<and> (k \<in> set (q @ [length h]) \<longrightarrow> place_job_ok Queued ((h @ [j]) ! k))
      \<and> (\<forall>w. worker_job (W w) = Some k \<longrightarrow> place_job_ok (worker_place (W w)) ((h @ [j]) ! k))
      \<and> (k \<notin> set (q @ [length h]) \<longrightarrow> (\<forall>w. worker_job (W w) \<noteq> Some k) \<longrightarrow>
           place_job_ok Finished ((h @ [j]) ! k))"
  proof cases
    case 1
    with jobs_okD [OF ok 1] show ?thesis by (auto simp: nth_append)
  next
    case 2
    with assms(4,5) show ?thesis by (auto dest: refs)
  qed
qed

lemma jobs_ok_receive:
  assumes ok: "jobs_ok h (r # q) W" and pl: "places_ok (r # q) W" and w: "W w = WIdle"
  shows "jobs_ok h q (W(w := WStart r))"
  unfolding jobs_ok_def
proof (intro allI impI)
  fix k assume k: "k < length h"
  note D = jobs_okD [OF ok k]
  have r: "place_job_ok Queued (h ! k)" if "k = r" using D(2) that by simp
  show "job_ok (h ! k) \<and> (k \<in> set q \<longrightarrow> place_job_ok Queued (h ! k))
      \<and> (\<forall>v. worker_job ((W(w := WStart r)) v) = Some k \<longrightarrow>
           place_job_ok (worker_place ((W(w := WStart r)) v)) (h ! k))
      \<and> (k \<notin> set q \<longrightarrow> (\<forall>v. worker_job ((W(w := WStart r)) v) \<noteq> Some k) \<longrightarrow>
           place_job_ok Finished (h ! k))"
  proof (intro conjI allI impI)
    show "place_job_ok (worker_place ((W(w := WStart r)) v)) (h ! k)"
      if "worker_job ((W(w := WStart r)) v) = Some k" for v
      using that r D(3) [of v] by (cases "v = w") simp_all
    show "place_job_ok Finished (h ! k)"
      if "k \<notin> set q" and free: "\<forall>v. worker_job ((W(w := WStart r)) v) \<noteq> Some k"
    proof (rule D(4))
      from free have "k \<noteq> r" by (metis fun_upd_same worker_job.simps(2))
      with that(1) show "k \<notin> set (r # q)" by simp
      show "worker_job (W v) \<noteq> Some k" for v using free w by (cases "v = w") (auto dest: spec [of _ v])
    qed
  qed (use D(1,2) in simp_all)
qed


lemma jobs_ok_idle:
  assumes ok: "jobs_ok h q W" and w: "worker_job (W w) = None" "worker_job pc = None"
  shows "jobs_ok h q (W(w := pc))"
proof -
  have same: "worker_job ((W(w := pc)) v) = worker_job (W v)" for v
    using w by simp
  have "worker_place ((W(w := pc)) v) = worker_place (W v)" if "worker_job (W v) = Some r" for v r
    using w that by auto
  with ok same show ?thesis unfolding jobs_ok_def by simp
qed

lemma job_ok_simps [simp]:
  "job_ok (j\<lparr>j_Message := m\<rparr>) = job_ok j" "job_ok (j\<lparr>j_StartedAt := t\<rparr>) = job_ok j"
  "job_ok (j\<lparr>j_Result := v\<rparr>) = job_ok j" "job_ok (j\<lparr>j_Error := e\<rparr>) = job_ok j"
  "job_ok (j\<lparr>j_cancel := c\<rparr>) = job_ok j" "job_ok (j\<lparr>j_done := n\<rparr>) = job_ok j"
  by (simp_all add: job_ok_def)

lemma UpdateProgress_ok:
  "progress_ok (j_Progress (UpdateProgress p m j))" "j_Status (UpdateProgress p m j) = j_Status j"
  "j_CompletedAt (UpdateProgress p m j) = j_CompletedAt j" "j_done (UpdateProgress p m j) = j_done j"
  by (cases p; auto simp: UpdateProgress_def progress_ok_def Let_def)+

lemma place_job_ok_cong:
  "j_Status j = j_Status j' \<Longrightarrow> j_done j = j_done j' \<Longrightarrow> place_job_ok p j \<longleftrightarrow> place_job_ok p j'"
  by (cases p) simp_all

lemma upd_job_heap: "jm_heap (upd_job r f s) = (jm_heap s)[r := f (jm_heap s ! r)]"
  by (simp add: upd_job_def)

abbreviation jobs_inv :: "job_manager \<Rightarrow> bool" where
  "jobs_inv s \<equiv> jobs_ok (jm_heap s) (jm_queue s) (jm_workers s)"

lemma upd_job_id [simp]: "upd_job r (\<lambda>j. j) s = s"
  by (simp add: upd_job_def)

text \<open>A worker moves its job on.\<close>

lemma jobs_worker_step:
  assumes inv: "refs_ok s" "places_ok (jm_queue s) (jm_workers s)" "jobs_inv s"
    and w: "jm_workers s w = old" "worker_job old = Some r"
    and pc: "worker_job pc = Some r \<or> worker_job pc = None"
    and f: "job_ok (job_at s r) \<Longrightarrow> place_job_ok (worker_place old) (job_at s r) \<Longrightarrow>
      job_ok (f (job_at s r)) \<and>
      place_job_ok (if worker_job pc = None then Finished else worker_place pc) (f (job_at s r))"
  shows "jobs_inv (set_worker w pc (upd_job r f s))"
proof -
  have W: "worker_job (jm_workers s w) = Some r" using w by simp
  note j = jobs_okD(1,3) [OF inv(3) refs_worker [OF inv(1) W]]
  have "jobs_ok ((jm_heap s)[r := f (job_at s r)]) (jm_queue s) ((jm_workers s)(w := pc))"
    using j(1) j(2) [OF W] w f by (intro jobs_ok_worker [OF inv(3,2) W] pc) (simp_all add: job_at_def)
  then show ?thesis by (simp add: upd_job_heap job_at_def del: fun_upd_apply)
qed

text \<open>A job changes where it is.\<close>

lemma jobs_inplace_step:
  assumes "jobs_inv s" "r < length (jm_heap s)"
    and f: "job_ok (job_at s r) \<Longrightarrow> job_ok (f (job_at s r))"
    and p: "\<And>p. place_job_ok p (job_at s r) \<Longrightarrow> place_job_ok p (f (job_at s r))"
  shows "jobs_inv (upd_job r f s)"
  using jobs_ok_inplace [OF assms(1), of r "f (jm_heap s ! r)"] jobs_okD(1) [OF assms(1,2)] f p
  by (simp add: upd_job_heap job_at_def)

lemma jobs_submit:
  assumes "refs_ok s" "jobs_inv s"
  shows "jobs_inv (snd (Submit rnd ty desc meta now s))"
proof -
  have "jobs_ok (jm_heap s @ [new_job i ty desc meta now]) (jm_queue s @ [length (jm_heap s)])
      (jm_workers s)" for i
    using assms by (intro jobs_ok_submit)
      (auto simp: refs_ok_def new_job_def job_ok_def progress_ok_def terminal_def)
  with assms show ?thesis by (simp add: Submit_def Let_def split: sum.splits)
qed

lemma jobs_cancel_mark:
  assumes "jobs_inv s" "r < length (jm_heap s)"
  shows "jobs_inv (snd (cancel_mark now r s))"
proof (cases "cancellable (j_Status (job_at s r))")
  case True
  have "jobs_inv (upd_job r (\<lambda>j. j\<lparr>j_Status := JobStatusCancelled,
      j_Message := ''Canceled by user'', j_CompletedAt := Some now\<rparr>) s)"
  proof (rule jobs_inplace_step [OF assms])
    fix p assume "place_job_ok p (job_at s r)"
    with True show "place_job_ok p ((job_at s r)\<lparr>j_Status := JobStatusCancelled,
        j_Message := ''Canceled by user'', j_CompletedAt := Some now\<rparr>)"
      by (cases p) (auto simp: cancellable_def terminal_def)
  qed (simp add: job_ok_def terminal_def)
  with True show ?thesis by (simp add: cancel_mark_def Let_def)
qed (use assms in \<open>simp add: cancel_mark_def Let_def\<close>)

lemma jobs_start:
  assumes inv: "refs_ok s" "places_ok (jm_queue s) (jm_workers s)" "jobs_inv s"
    and w: "jm_workers s w = WStart r"
  shows "jobs_inv (exec_start now w r s)"
proof (cases "j_Status (job_at s r) = JobStatusCancelled")
  case True
  have "jobs_inv (set_worker w (WClose r) (upd_job r (\<lambda>j. j) s))"
    by (rule jobs_worker_step [OF inv w]) (simp_all add: True terminal_def)
  with True show ?thesis by (simp add: exec_start_def del: set_worker_simps)
next
  case False
  then show ?thesis
    unfolding exec_start_def
    by (simp only: if_False) (rule jobs_worker_step [OF inv w], auto simp: job_ok_def terminal_def)
qed

lemma jobs_return:
  assumes inv: "refs_ok s" "places_ok (jm_queue s) (jm_workers s)" "jobs_inv s"
    and w: "jm_workers s w = WRun r"
  shows "jobs_inv (exec_finish now err w r s)"
proof (cases "j_Status (job_at s r) = JobStatusCancelled")
  case True
  show ?thesis
    unfolding exec_finish_def
    by (simp only: True if_True simp_thms)
      (rule jobs_worker_step [OF inv w], simp_all add: job_ok_def terminal_def True)
next
  case False
  show ?thesis
    unfolding exec_finish_def
    by (simp only: False if_False)
      (rule jobs_worker_step [OF inv w],
        auto simp: job_ok_def terminal_def progress_ok_def split: option.splits)
qed

lemma jobs_panic:
  assumes inv: "refs_ok s" "places_ok (jm_queue s) (jm_workers s)" "jobs_inv s"
    and w: "jm_workers s w = WRun r"
  shows "jobs_inv (exec_panic now msg w r s)"
  unfolding exec_panic_def
  by (rule jobs_worker_step [OF inv w]) (auto simp: job_ok_def terminal_def)

lemma jobs_notify:
  assumes inv: "refs_ok s" "places_ok (jm_queue s) (jm_workers s)" "jobs_inv s"
    and w: "jm_workers s w = WNotify r"
  shows "jobs_inv (exec_notify w r s)"
proof -
  have "jobs_inv (set_worker w (WClose r) (upd_job r (\<lambda>j. j) s))"
    by (rule jobs_worker_step [OF inv w]) simp_all
  then show ?thesis by (simp add: exec_notify_def notifyUpdate_def)
qed

lemma jobs_close:
  assumes inv: "refs_ok s" "places_ok (jm_queue s) (jm_workers s)" "jobs_inv s"
    and w: "jm_workers s w = WClose r"
  shows "jobs_inv (exec_close w r s)"
proof -
  have "jobs_inv (set_worker w WIdle (upd_job r (\<lambda>j. j\<lparr>j_done := Suc (j_done j)\<rparr>) s))"
    by (rule jobs_worker_step [OF inv w]) simp_all
  then show ?thesis by (simp add: exec_close_def Let_def)
qed

lemma jobs_step:
  "jm_step s s' \<Longrightarrow> refs_ok s \<Longrightarrow> places_ok (jm_queue s) (jm_workers s) \<Longrightarrow> jobs_inv s \<Longrightarrow> jobs_inv s'"
proof (induction rule: jm_step.induct)
  case (receive w s)
  then show ?case
    by (cases "jm_queue s")
      (simp_all add: worker_receive_def jobs_ok_receive jobs_ok_idle del: fun_upd_apply)
next
  case (progress w s r p m)
  then have w: "worker_job (jm_workers s w) = Some r" by simp
  have "place_job_ok q (UpdateProgress p m j) = place_job_ok q j" for q j
    by (rule place_job_ok_cong) (simp_all add: UpdateProgress_ok)
  moreover have "job_ok j \<Longrightarrow> job_ok (UpdateProgress p m j)" for j
    by (simp add: job_ok_def UpdateProgress_ok)
  ultimately show ?case
    using refs_worker [OF progress.prems(1) w] by (intro jobs_inplace_step progress.prems) simp_all
next
  case (result w s r v)
  then have w: "worker_job (jm_workers s w) = Some r" by simp
  have "place_job_ok q (SetResult v j) = place_job_ok q j" for q j
    by (rule place_job_ok_cong) (simp_all add: SetResult_def)
  then show ?case
    using refs_worker [OF result.prems(1) w]
    by (intro jobs_inplace_step result.prems) (simp_all add: SetResult_def)
qed (simp_all only: jobs_submit jobs_cancel_mark jobs_start jobs_return jobs_panic jobs_notify jobs_close,
    simp_all add: op_defs split: option.splits)


text \<open>How a step changes the number of hook calls made and due.\<close>

lemma notifying_other:
  assumes "\<And>r. W w \<noteq> WNotify r" "\<And>r. pc \<noteq> WNotify r"
  shows "notifying (W(w := pc)) k = notifying W k"
proof -
  have "(\<exists>v. (W(w := pc)) v = WNotify k) \<longleftrightarrow> (\<exists>v. W v = WNotify k)"
    using assms by (metis fun_upd_apply)
  then show ?thesis unfolding notifying_def by (simp only:)
qed

lemma notifying_set:
  assumes "\<And>r. W w \<noteq> WNotify r"
  shows "notifying (W(w := WNotify r)) k = (if k = r then 1 else notifying W k)"
proof -
  have "(\<exists>v. (W(w := WNotify r)) v = WNotify k) \<longleftrightarrow> k = r \<or> (\<exists>v. W v = WNotify k)"
    using assms by (metis fun_upd_apply worker.inject(3))
  then show ?thesis unfolding notifying_def by auto
qed

lemma notifying_clear:
  assumes "places_ok q W" "W w = WNotify r" "\<And>k. pc \<noteq> WNotify k"
  shows "notifying (W(w := pc)) k = (if k = r then 0 else notifying W k)" "notifying W r = 1"
proof -
  have "W v \<noteq> WNotify r" if "v \<noteq> w" for v
    using places_inj [OF assms(1), of w r v] assms(2) that by auto
  then have "(\<exists>v. (W(w := pc)) v = WNotify k) \<longleftrightarrow> k \<noteq> r \<and> (\<exists>v. W v = WNotify k)"
    using assms(2,3) by (metis fun_upd_apply worker.inject(3))
  then show "notifying (W(w := pc)) k = (if k = r then 0 else notifying W k)"
    unfolding notifying_def by auto
  show "notifying W r = 1" using assms(2) by (auto simp: notifying_def)
qed

lemma notifying_none:
  assumes "places_ok q W" "W w = pc" "worker_job pc = Some r" "pc \<noteq> WNotify r"
  shows "notifying W r = 0"
proof -
  have "W v \<noteq> WNotify r" for v
  proof
    assume v: "W v = WNotify r"
    then have "w = v" using places_inj [OF assms(1), of w r v] assms(2,3) by simp
    with v assms(2,4) show False by simp
  qed
  then show ?thesis by (simp add: notifying_def)
qed

lemma count_remove1:
  "x \<in> set xs \<Longrightarrow> count_list (map fst xs) k = count_list (map fst (remove1 x xs)) k + (if k = fst x then 1 else 0)"
proof (induction xs)
  case (Cons y ys)
  then show ?case by (cases "y = x") simp_all
qed simp

lemma hooks_step_same:
  assumes "hooks_ok s" "length (jm_heap s') = length (jm_heap s)"
    and "\<And>r. r < length (jm_heap s) \<Longrightarrow>
      notified_ok (j_Status (job_at s r)) (notified s r) \<Longrightarrow> notified_ok (j_Status (job_at s' r)) (notified s' r)"
  shows "hooks_ok s'"
  using assms by (simp add: hooks_ok_def)

lemma hooks_submit:
  assumes "refs_ok s" "hooks_ok s"
  shows "hooks_ok (snd (Submit rnd ty desc meta now s))"
proof -
  let ?n = "length (jm_heap s)"
  have refs: "\<forall>r \<in> fst ` set (jm_cancels s) \<union> set (jm_hooks s). r < ?n"
    using assms(1) unfolding refs_ok_def by (elim conjE)
  then have "?n \<notin> set (jm_hooks s)" "?n \<notin> fst ` set (jm_cancels s)" by blast+
  moreover have "jm_workers s w \<noteq> WNotify ?n" for w
    using refs_worker [OF assms(1), of w ?n] by auto
  ultimately have "notified s ?n = 0" unfolding notified_def notifying_def by simp
  with assms(2) show ?thesis
    by (auto simp: Submit_def Let_def hooks_ok_def job_at_def nth_append notified_def new_job_def
        less_Suc_eq split: sum.splits)
qed

lemma hooks_cancel_mark:
  assumes "hooks_ok s"
  shows "hooks_ok (snd (cancel_mark now r s))"
proof (cases "cancellable (j_Status (job_at s r))")
  case True
  show ?thesis
    by (rule hooks_step_same [OF assms])
      (use True in \<open>auto simp: cancel_mark_def Let_def job_at_upd_job notified_def cancellable_def\<close>)
qed (use assms in \<open>simp add: cancel_mark_def Let_def\<close>)

lemma hooks_cancel_finish:
  assumes "hooks_ok s" "(r, c) \<in> set (jm_cancels s)"
  shows "hooks_ok (cancel_finish r c s)"
  using count_remove1 [OF assms(2)]
  by (intro hooks_step_same [OF assms(1)])
    (auto simp: cancel_finish_def notifyUpdate_def notified_def split: if_splits)

lemma hooks_start:
  assumes "places_ok (jm_queue s) (jm_workers s)" "jobs_inv s" "refs_ok s" "hooks_ok s"
    and w: "jm_workers s w = WStart r"
  shows "hooks_ok (exec_start now w r s)"
proof -
  have "j_Status (job_at s r) = JobStatusPending \<or> j_Status (job_at s r) = JobStatusCancelled"
    using jobs_okD(3) [OF assms(2) refs_worker [OF assms(3), of w r], of w] w by (simp add: job_at_def)
  then show ?thesis
    by (intro hooks_step_same [OF assms(4)])
      (auto simp: exec_start_def job_at_upd_job notified_def notifying_other w simp del: fun_upd_apply)
qed

lemma hooks_return:
  assumes "places_ok (jm_queue s) (jm_workers s)" "jobs_inv s" "refs_ok s" "hooks_ok s"
    and w: "jm_workers s w = WRun r"
  shows "hooks_ok (exec_finish now err w r s)"
proof -
  have st: "j_Status (job_at s r) = JobStatusRunning \<or> j_Status (job_at s r) = JobStatusCancelled"
    using jobs_okD(3) [OF assms(2) refs_worker [OF assms(3), of w r], of w] w by (simp add: job_at_def)
  then show ?thesis
    by (intro hooks_step_same [OF assms(4)])
      (auto simp: exec_finish_def job_at_upd_job notified_def notifying_other notifying_set w
        simp del: fun_upd_apply split: option.splits)
qed

lemma hooks_panic:
  assumes "places_ok (jm_queue s) (jm_workers s)" "jobs_inv s" "refs_ok s" "hooks_ok s"
    and w: "jm_workers s w = WRun r"
  shows "hooks_ok (exec_panic now msg w r s)"
proof -
  have r: "r < length (jm_heap s)" using refs_worker [OF assms(3), of w r] w by simp
  have st: "j_Status (job_at s r) = JobStatusRunning \<or> j_Status (job_at s r) = JobStatusCancelled"
    using jobs_okD(3) [OF assms(2) r, of w] w by (simp add: job_at_def)
  have "notifying (jm_workers s) r = 0" by (rule notifying_none [OF assms(1) w]) simp_all
  with st show ?thesis
    by (intro hooks_step_same [OF assms(4)])
      (auto simp: exec_panic_def job_at_upd_job notified_def notifying_set w r simp del: fun_upd_apply)
qed

lemma hooks_notify:
  assumes "places_ok (jm_queue s) (jm_workers s)" "hooks_ok s" "jm_workers s w = WNotify r"
  shows "hooks_ok (exec_notify w r s)"
  using notifying_clear [OF assms(1,3), of "WClose r"]
  by (intro hooks_step_same [OF assms(2)])
    (auto simp: exec_notify_def notifyUpdate_def notified_def simp del: fun_upd_apply)

lemma hooks_close:
  assumes "hooks_ok s" "jm_workers s w = WClose r"
  shows "hooks_ok (exec_close w r s)"
  by (intro hooks_step_same [OF assms(1)])
    (auto simp: exec_close_def Let_def job_at_upd_job notified_def notifying_other assms(2)
      simp del: fun_upd_apply split: if_splits)

lemma hooks_step:
  "jm_step s s' \<Longrightarrow> refs_ok s \<Longrightarrow> places_ok (jm_queue s) (jm_workers s) \<Longrightarrow> jobs_inv s \<Longrightarrow>
   hooks_ok s \<Longrightarrow> hooks_ok s'"
proof (induction rule: jm_step.induct)
  case (receive w s)
  then show ?case
    by (intro hooks_step_same [OF receive.prems(4)])
      (auto simp: worker_receive_def notified_def notifying_other simp del: fun_upd_apply split: list.splits)
next
  case (progress w s r p m)
  show ?case
    by (rule hooks_step_same [OF progress.prems(4)])
      (auto simp: job_at_upd_job notified_def UpdateProgress_ok)
next
  case (result w s r v)
  show ?case
    by (rule hooks_step_same [OF result.prems(4)])
      (auto simp: job_at_upd_job notified_def SetResult_def)
qed (simp_all only: hooks_submit hooks_cancel_mark hooks_cancel_finish hooks_start hooks_return
      hooks_panic hooks_notify hooks_close,
    auto simp: hooks_ok_def notified_def op_defs split: option.splits)

lemma jm_inv_step: "jm_step s s' \<Longrightarrow> jm_inv s \<Longrightarrow> jm_inv s'"
  unfolding jm_inv_def by (blast intro: refs_step places_step jobs_step hooks_step queue_step)

lemma jm_inv_init: "jm_inv (fst (NewJobManager cfg))"
  by (auto simp: jm_inv_def NewJobManager_def Let_def refs_ok_def places_ok_def jobs_ok_def
      hooks_ok_def queue_ok_def default_if_def DefaultJobManagerConfig_def)

lemma jm_inv_reach: "jm_reach cfg s \<Longrightarrow> jm_inv s"
  by (induction rule: jm_reach.induct) (auto intro: jm_inv_init jm_inv_step)


section \<open>Properties\<close>

definition lifecycle :: "(JobStatus \<times> JobStatus) set" where
  "lifecycle =
     {(JobStatusPending, JobStatusRunning), (JobStatusPending, JobStatusCancelled),
      (JobStatusRunning, JobStatusCompleted), (JobStatusRunning, JobStatusFailed),
      (JobStatusRunning, JobStatusCancelled), (JobStatusCancelled, JobStatusFailed)}"

lemma job_at_cleanup [simp]:
  "job_at (snd (cleanupOldJobs order now maxAge s)) r = job_at s r"
  by (simp add: cleanupOldJobs_state)

lemma running_status:
  assumes "jm_inv s" "jm_workers s w = WRun r"
  shows "j_Status (job_at s r) \<in> {JobStatusRunning, JobStatusCancelled}" "r < length (jm_heap s)"
  using assms refs_worker [of s w r] jobs_okD(3) [of "jm_heap s" "jm_queue s" "jm_workers s" r w]
  by (auto simp: jm_inv_def job_at_def)

lemma starting_status:
  assumes "jm_inv s" "jm_workers s w = WStart r"
  shows "j_Status (job_at s r) \<in> {JobStatusPending, JobStatusCancelled}" "r < length (jm_heap s)"
  using assms refs_worker [of s w r] jobs_okD(3) [of "jm_heap s" "jm_queue s" "jm_workers s" r w]
  by (auto simp: jm_inv_def job_at_def)

lemma status_step:
  "jm_step s s' \<Longrightarrow> jm_inv s \<Longrightarrow> k < length (jm_heap s) \<Longrightarrow>
   (j_Status (job_at s k), j_Status (job_at s' k)) \<in> lifecycle\<^sup>="
proof (induction rule: jm_step.induct)
  case (submit s rnd ty desc meta now)
  then show ?case by (auto simp: op_defs job_at_def nth_append split: sum.splits)
next
  case (start w s r now)
  from starting_status [OF start.prems(1) start.hyps(2)] show ?case
    by (auto simp: op_defs job_at_upd_job lifecycle_def)
next
  case (return w s r now err)
  from running_status [OF return.prems(1) return.hyps(2)] show ?case
    by (auto simp: op_defs job_at_upd_job lifecycle_def split: option.splits)
next
  case (panic w s r now msg)
  from running_status [OF panic.prems(1) panic.hyps(2)] show ?case
    by (auto simp: op_defs job_at_upd_job lifecycle_def)
qed (auto simp: op_defs job_at_upd_job lifecycle_def cancellable_def UpdateProgress_ok SetResult_def
    split: option.splits list.splits)

text \<open>C2. Through every interleaving of submitters, cancelers, workers, cleanup and shutdown, a
  job's status only moves along pending to running or canceled, running to completed, failed or
  canceled, and from canceled to failed (the recovery of a panic in a job that was canceled
  while running); completed and failed are final.\<close>

theorem job_lifecycle:
  assumes "jm_reach cfg s" "jm_step s s'" "r < length (jm_heap s)"
  shows "j_Status (job_at s r) = j_Status (job_at s' r)
    \<or> (j_Status (job_at s r), j_Status (job_at s' r)) \<in> lifecycle"
  using status_step [OF assms(2) jm_inv_reach [OF assms(1)] assms(3)] by auto

definition demo_submitted :: job_manager where
  "demo_submitted =
     snd (Submit (Inr [1, 2, 3, 4, 5, 6, 7, 8]) ''image.fetch'' ''fetch'' None 10
       (fst (NewJobManager DefaultJobManagerConfig)))"

definition demo_running :: job_manager where
  "demo_running = exec_start 11 0 0 (worker_receive 0 demo_submitted)"

definition demo_canceled :: job_manager where
  "demo_canceled = cancel_finish 0 True (snd (cancel_mark 12 0 demo_running))"

lemmas demo_defs = demo_submitted_def demo_running_def demo_canceled_def NewJobManager_def
  DefaultJobManagerConfig_def default_if_def new_job_def op_defs job_at_def upd_job_def set_worker_def

lemma demo_submitted_reach: "jm_reach DefaultJobManagerConfig demo_submitted"
  unfolding demo_submitted_def by (intro jm_reach.step [OF jm_reach.init] jm_step.submit)

lemma demo_running_reach: "jm_reach DefaultJobManagerConfig demo_running"
proof -
  have 1: "jm_step demo_submitted (worker_receive 0 demo_submitted)"
    by (intro jm_step.receive) (simp_all add: demo_defs)
  have 2: "jm_step (worker_receive 0 demo_submitted) demo_running"
    unfolding demo_running_def by (intro jm_step.start) (simp_all add: demo_defs)
  from demo_submitted_reach 1 2 show ?thesis by (meson jm_reach.step)
qed

lemma demo_canceled_reach: "jm_reach DefaultJobManagerConfig demo_canceled"
proof -
  have 1: "jm_step demo_running (snd (cancel_mark 12 0 demo_running))"
    by (intro jm_step.mark) (simp add: demo_defs)
  have 2: "jm_step (snd (cancel_mark 12 0 demo_running)) demo_canceled"
    unfolding demo_canceled_def
    by (intro jm_step.finish_cancel) (simp add: demo_defs cancellable_def)
  from demo_running_reach 1 2 show ?thesis by (meson jm_reach.step)
qed

theorem job_lifecycle_witness:
  "(JobStatusPending, JobStatusCancelled) \<in> lifecycle"
proof -
  have "jm_step demo_submitted (snd (cancel_mark 5 0 demo_submitted))"
    by (intro jm_step.mark) (simp add: demo_defs)
  from job_lifecycle [OF demo_submitted_reach this, of 0] show ?thesis
    by (simp add: demo_defs cancellable_def)
qed


lemma job_terminal_data:
  assumes "jm_inv s" "r < length (jm_heap s)"
  shows "j_done (job_at s r) \<le> 1" "j_done (job_at s r) = 1 \<Longrightarrow> terminal (j_Status (job_at s r))"
    "job_ok (job_at s r)"
proof -
  have ok: "jobs_inv s" using assms(1) by (simp add: jm_inv_def)
  note D = jobs_okD [OF ok assms(2)]
  show "job_ok (job_at s r)" using D(1) by (simp add: job_at_def)
  consider "r \<in> set (jm_queue s)" | w where "worker_job (jm_workers s w) = Some r"
    | "r \<notin> set (jm_queue s)" "\<And>w. worker_job (jm_workers s w) \<noteq> Some r" by blast
  then have "\<exists>p. place_job_ok p (job_at s r)"
    by cases (auto simp: job_at_def intro: D)
  then obtain p where "place_job_ok p (job_at s r)" ..
  then show "j_done (job_at s r) \<le> 1" "j_done (job_at s r) = 1 \<Longrightarrow> terminal (j_Status (job_at s r))"
    by (cases p; simp)+
qed

text \<open>In every reachable state each job, also one no longer in the map, has a completion
  time exactly when its status is final, a progress that is a real number between 0 and 1
  whatever its function reported, and a done channel that was closed at most once, and only
  after the status became final.\<close>

theorem job_record_consistent:
  assumes "jm_reach cfg s" "r < length (jm_heap s)"
  shows "(jr_CompletedAt (Snapshot (job_at s r)) \<noteq> None \<longleftrightarrow> terminal (jr_Status (Snapshot (job_at s r))))
    \<and> (\<exists>q. jr_Progress (Snapshot (job_at s r)) = Fin q \<and> 0 \<le> q \<and> q \<le> 1)
    \<and> j_done (job_at s r) \<le> 1
    \<and> (j_done (job_at s r) = 1 \<longrightarrow> terminal (jr_Status (Snapshot (job_at s r))))"
  using job_terminal_data [OF jm_inv_reach [OF assms(1)] assms(2)]
  by (auto simp: Snapshot_def job_ok_def progress_ok_def)

theorem job_record_consistent_witness:
  "jr_CompletedAt (Snapshot (job_at demo_canceled 0)) \<noteq> None \<and> j_done (job_at demo_canceled 0) \<le> 1"
  using job_record_consistent [OF demo_canceled_reach, of 0]
  by (simp add: demo_defs cancellable_def Snapshot_def terminal_def)

text \<open>No terminal state is lost and none but a failure is reported twice: counting the
  update-hook calls already made and those a worker or a canceling caller is about to make, a
  pending or running job has none, a completed or canceled job exactly one, a failed job one or
  two.\<close>

theorem job_hook_calls:
  assumes "jm_reach cfg s" "r < length (jm_heap s)"
  shows "notified_ok (j_Status (job_at s r))
     (count_list (jm_hooks s) r + count_list (map fst (jm_cancels s)) r
      + (if \<exists>w. jm_workers s w = WNotify r then 1 else 0))"
  using jm_inv_reach [OF assms(1)] assms(2)
  by (simp add: jm_inv_def hooks_ok_def notified_def notifying_def)

theorem job_hook_calls_witness:
  "count_list (jm_hooks demo_canceled) 0 + count_list (map fst (jm_cancels demo_canceled)) 0
     + (if \<exists>w. jm_workers demo_canceled w = WNotify 0 then 1 else 0) = 1"
  using job_hook_calls [OF demo_canceled_reach, of 0]
  by (simp add: demo_defs cancellable_def)

text \<open>A cancellation the caller was told of and the hook has recorded can still be turned
  into a failure that is recorded again: with the default configuration there is a run in which
  a job is canceled while running, the hook is called, and a panic of the job function then
  rewrites the status to failed and calls the hook a second time.\<close>

theorem canceled_job_can_become_failed:
  "\<exists>s s'. jm_reach DefaultJobManagerConfig s \<and> j_Status (job_at s 0) = JobStatusCancelled
     \<and> jm_hooks s = [0] \<and> jm_cancels s = []
     \<and> jm_step\<^sup>*\<^sup>* s s' \<and> j_Status (job_at s' 0) = JobStatusFailed \<and> jm_hooks s' = [0, 0]"
proof (intro exI conjI)
  let ?p = "exec_panic 13 ''boom'' 0 0 demo_canceled"
  show "jm_reach DefaultJobManagerConfig demo_canceled" by (rule demo_canceled_reach)
  have 1: "jm_step demo_canceled ?p"
    by (intro jm_step.panic) (simp_all add: demo_defs cancellable_def)
  have 2: "jm_step ?p (exec_notify 0 0 ?p)"
    by (intro jm_step.notify) (simp_all add: demo_defs cancellable_def)
  show "jm_step\<^sup>*\<^sup>* demo_canceled (exec_notify 0 0 ?p)"
    using 1 2 by (meson r_into_rtranclp rtranclp.rtrancl_into_rtrancl)
qed (simp_all add: demo_defs cancellable_def)

section \<open>Shutdown\<close>

fun worker_rank :: "worker \<Rightarrow> nat" where
  "worker_rank WExited = 0"
| "worker_rank WIdle = 1"
| "worker_rank (WClose r) = 2"
| "worker_rank (WNotify r) = 3"
| "worker_rank (WRun r) = 4"
| "worker_rank (WStart r) = 5"

definition drain :: "job_manager \<Rightarrow> nat" where
  "drain s = 5 * length (jm_queue s) + (\<Sum>w < jm_nworkers s. worker_rank (jm_workers s w))"

lemma drain_upd:
  fixes n :: nat
  assumes "w < n"
  shows "(\<Sum>v < n. worker_rank ((W(w := pc)) v)) + worker_rank (W w) =
     (\<Sum>v < n. worker_rank (W v)) + worker_rank pc"
proof -
  have "(\<Sum>v < n. worker_rank ((W(w := pc)) v)) =
      worker_rank pc + (\<Sum>v \<in> {..<n} - {w}. worker_rank (W v))"
    using assms by (subst sum.remove [of _ w]) (auto intro: sum.cong)
  moreover have "(\<Sum>v < n. worker_rank (W v)) =
      worker_rank (W w) + (\<Sum>v \<in> {..<n} - {w}. worker_rank (W v))"
    using assms by (subst sum.remove [of _ w]) auto
  ultimately show ?thesis by simp
qed

lemma drain_less:
  assumes "w < jm_nworkers s" "jm_nworkers s' = jm_nworkers s" "jm_workers s' = (jm_workers s)(w := pc)"
    and "5 * length (jm_queue s') + worker_rank pc < 5 * length (jm_queue s) + worker_rank (jm_workers s w)"
  shows "drain s' < drain s"
  using drain_upd [OF assms(1), of "jm_workers s" pc] assms(2-4) by (simp add: drain_def)

lemma drain_step:
  "jm_step s s' \<Longrightarrow> jm_shuttingDown s \<Longrightarrow>
   drain s' \<le> drain s \<and> (jm_workers s' \<noteq> jm_workers s \<longrightarrow> drain s' < drain s) \<and> jm_shuttingDown s'
   \<and> jm_nworkers s' = jm_nworkers s"
proof (induction rule: jm_step.induct)
  case (receive w s)
  show ?case
  proof (cases "jm_queue s")
    case Nil
    with receive have "jm_queueClosed s \<Longrightarrow> drain (worker_receive w s) < drain s"
      by (intro drain_less [of w s _ WExited]) (simp_all add: worker_receive_def)
    with Nil receive show ?thesis by (auto simp: worker_receive_def simp del: fun_upd_apply)
  next
    case (Cons r q)
    with receive have "drain (worker_receive w s) < drain s"
      by (intro drain_less [of w s _ "WStart r"]) (simp_all add: worker_receive_def)
    with Cons receive show ?thesis by (simp add: worker_receive_def)
  qed
next
  case (start w s r now)
  let ?pc = "if j_Status (job_at s r) = JobStatusCancelled then WClose r else WRun r"
  have "drain (exec_start now w r s) < drain s"
    using start by (intro drain_less [of w s _ ?pc]) (simp_all add: exec_start_def)
  with start show ?case by (simp add: exec_start_def)
next
  case (return w s r now err)
  let ?pc = "if j_Status (job_at s r) = JobStatusCancelled then WClose r else WNotify r"
  have "drain (exec_finish now err w r s) < drain s"
    using return by (intro drain_less [of w s _ ?pc]) (simp_all add: exec_finish_def)
  with return show ?case by (simp add: exec_finish_def)
next
  case (panic w s r now msg)
  then have "drain (exec_panic now msg w r s) < drain s"
    by (intro drain_less [of w s _ "WNotify r"]) (simp_all add: exec_panic_def)
  with panic show ?case by (simp add: exec_panic_def)
next
  case (notify w s r)
  then have "drain (exec_notify w r s) < drain s"
    by (intro drain_less [of w s _ "WClose r"]) (simp_all add: exec_notify_def notifyUpdate_def)
  with notify show ?case by (simp add: exec_notify_def notifyUpdate_def)
next
  case (close_done w s r)
  then have "drain (exec_close w r s) < drain s"
    by (intro drain_less [of w s _ WIdle]) (simp_all add: exec_close_def Let_def)
  with close_done show ?case by (simp add: exec_close_def Let_def)
qed (simp_all add: op_defs drain_def split: option.splits sum.splits)


lemma worker_enabled:
  assumes "jm_inv s" "jm_shuttingDown s" "w < jm_nworkers s" "jm_workers s w \<noteq> WExited"
  shows "\<exists>s'. jm_step s s' \<and> jm_workers s' w \<noteq> jm_workers s w"
proof (cases "jm_workers s w")
  case WIdle
  have "jm_queueClosed s" using assms(1,2) by (simp add: jm_inv_def queue_ok_def)
  then have "jm_workers (worker_receive w s) w \<noteq> WIdle"
    by (simp add: worker_receive_def split: list.splits)
  with WIdle jm_step.receive [OF assms(3) WIdle] show ?thesis by metis
next
  case (WStart r)
  have "jm_workers (exec_start 0 w r s) w \<noteq> WStart r" by (simp add: exec_start_def)
  with WStart jm_step.start [OF assms(3) WStart] show ?thesis by metis
next
  case (WRun r)
  have "jm_workers (exec_finish 0 None w r s) w \<noteq> WRun r" by (simp add: exec_finish_def)
  with WRun jm_step.return [OF assms(3) WRun] show ?thesis by metis
next
  case (WNotify r)
  have "jm_workers (exec_notify w r s) w \<noteq> WNotify r" by (simp add: exec_notify_def)
  with WNotify jm_step.notify [OF assms(3) WNotify] show ?thesis by metis
next
  case (WClose r)
  have "jm_workers (exec_close w r s) w \<noteq> WClose r" by (simp add: exec_close_def Let_def)
  with WClose jm_step.close_done [OF assms(3) WClose] show ?thesis by metis
qed (use assms(4) in simp)

lemma all_exited_finished:
  assumes "jm_inv s" "\<forall>w < jm_nworkers s. jm_workers s w = WExited" "r < length (jm_heap s)"
  shows "terminal (j_Status (job_at s r))" "j_done (job_at s r) = 1"
proof -
  from assms(1) have q: "0 < jm_nworkers s"
    "\<And>w. jm_workers s w = WExited \<Longrightarrow> jm_queue s = []" and ok: "jobs_inv s"
    by (auto simp: jm_inv_def queue_ok_def)
  have idle: "jm_workers s w = WIdle" if "jm_nworkers s \<le> w" for w
    using assms(1) that by (simp add: jm_inv_def refs_ok_def)
  have "worker_job (jm_workers s w) \<noteq> Some r" for w
    using idle [of w] assms(2) by (cases "w < jm_nworkers s") simp_all
  moreover have "jm_queue s = []" using q assms(2) by blast
  ultimately have "place_job_ok Finished (job_at s r)"
    using jobs_okD(4) [OF ok assms(3)] by (simp add: job_at_def)
  then show "terminal (j_Status (job_at s r))" "j_done (job_at s r) = 1" by simp_all
qed

text \<open>C3. Once the queue is closed, every worker that has not returned can take a step of its
  own, each such step strictly lowers a measure that no other step raises (so only finitely many
  remain), no new job enters, and when the last worker has returned every job ever accepted is
  in a final state with its done channel closed exactly once: shutdown loses no job.\<close>

theorem shutdown_drains:
  assumes "jm_reach cfg s" "jm_shuttingDown s"
  shows "(\<forall>w < jm_nworkers s. jm_workers s w \<noteq> WExited \<longrightarrow>
            (\<exists>s'. jm_step s s' \<and> jm_workers s' w \<noteq> jm_workers s w))
    \<and> (\<forall>s'. jm_step s s' \<longrightarrow> jm_shuttingDown s' \<and> drain s' \<le> drain s
            \<and> (jm_workers s' \<noteq> jm_workers s \<longrightarrow> drain s' < drain s))
    \<and> Submit (Inr b) ty desc meta now s = (Inl ErrShuttingDown, s)
    \<and> ((\<forall>w < jm_nworkers s. jm_workers s w = WExited) \<longrightarrow>
         (\<forall>r < length (jm_heap s). terminal (j_Status (job_at s r)) \<and> j_done (job_at s r) = 1))"
proof (intro conjI allI impI)
  note inv = jm_inv_reach [OF assms(1)]
  show "\<exists>s'. jm_step s s' \<and> jm_workers s' w \<noteq> jm_workers s w"
    if "w < jm_nworkers s" "jm_workers s w \<noteq> WExited" for w
    using worker_enabled [OF inv assms(2) that] .
  show "drain s' < drain s" if "jm_step s s'" "jm_workers s' \<noteq> jm_workers s" for s'
    using drain_step [OF that(1) assms(2)] that(2) by simp
  show "jm_shuttingDown s'" "drain s' \<le> drain s" if "jm_step s s'" for s'
    using drain_step [OF that assms(2)] by simp_all
  show "Submit (Inr b) ty desc meta now s = (Inl ErrShuttingDown, s)"
    using assms(2) by (simp add: Submit_def Let_def)
  show "terminal (j_Status (job_at s r))" "j_done (job_at s r) = 1"
    if "\<forall>w < jm_nworkers s. jm_workers s w = WExited" "r < length (jm_heap s)" for r
    using all_exited_finished [OF inv that] by simp_all
qed

theorem shutdown_drains_witness:
  "\<exists>s'. jm_step (shutdown_close demo_running) s'
     \<and> jm_workers s' 0 \<noteq> jm_workers (shutdown_close demo_running) 0"
proof -
  have "jm_reach DefaultJobManagerConfig (shutdown_close demo_running)"
    by (intro jm_reach.step [OF demo_running_reach] jm_step.close)
  moreover have "jm_shuttingDown (shutdown_close demo_running)"
    "0 < jm_nworkers (shutdown_close demo_running)"
    "jm_workers (shutdown_close demo_running) 0 \<noteq> WExited"
    by (simp_all add: demo_defs)
  ultimately show ?thesis using shutdown_drains by blast
qed

section \<open>Cleanup, deletion and statistics\<close>

lemma cleanup_count:
  "distinct order \<Longrightarrow> fst (fold (cleanup_one cutoff) order (n, s)) =
     n + card {i \<in> set order. \<exists>r. jm_jobs s i = Some r \<and> expired cutoff (job_at s r)}"
proof (induction order arbitrary: n s)
  case (Cons i order)
  let ?P = "\<lambda>s i. \<exists>r. jm_jobs s i = Some r \<and> expired cutoff (job_at s r)"
  show ?case
  proof (cases "?P s i")
    case True
    let ?s = "s\<lparr>jm_jobs := (jm_jobs s)(i := None)\<rparr>"
    from True have one: "cleanup_one cutoff i (n, s) = (Suc n, ?s)"
      by (auto simp: cleanup_one_def)
    have "{k \<in> set order. ?P ?s k} = {k \<in> set order. ?P s k}"
      using Cons.prems by (auto split: if_splits)
    moreover have "{k \<in> set (i # order). ?P s k} = insert i {k \<in> set order. ?P s k}"
      using True by auto
    ultimately show ?thesis using Cons one by simp
  next
    case False
    then have "cleanup_one cutoff i (n, s) = (n, s)"
      by (auto simp: cleanup_one_def split: option.splits)
    moreover have "{k \<in> set (i # order). ?P s k} = {k \<in> set order. ?P s k}"
      using False by auto
    ultimately show ?thesis using Cons by simp
  qed
qed simp

text \<open>Whatever order the map is visited in, a cleanup pass removes exactly the finished jobs
  that completed before the cutoff, reports how many they were and touches nothing else; and
  neither it nor an explicit deletion ever removes a pending or running job.\<close>

theorem cleanup_exact:
  assumes "distinct order" "set order = dom (jm_jobs s)"
  shows "cleanupOldJobs order now maxAge s =
      (card {i. \<exists>r. jm_jobs s i = Some r \<and> expired (now - maxAge) (job_at s r)},
       s\<lparr>jm_jobs := (\<lambda>i. case jm_jobs s i of None \<Rightarrow> None
            | Some r \<Rightarrow> if expired (now - maxAge) (job_at s r) then None else Some r)\<rparr>)
    \<and> (cancellable (j_Status (job_at s r)) \<longrightarrow> jm_jobs s i = Some r \<longrightarrow>
         jm_jobs (snd (cleanupOldJobs order now maxAge s)) i = Some r
         \<and> jm_jobs (snd (DeleteJob k s)) i = Some r)"
proof (intro conjI impI)
  let ?P = "\<lambda>i. \<exists>r. jm_jobs s i = Some r \<and> expired (now - maxAge) (job_at s r)"
  have "{i \<in> set order. ?P i} = {i. ?P i}" using assms(2) by auto
  moreover have "cleaned (now - maxAge) order s = (\<lambda>i. case jm_jobs s i of None \<Rightarrow> None
            | Some r \<Rightarrow> if expired (now - maxAge) (job_at s r) then None else Some r)"
    using assms(2) by (intro ext) (auto simp: cleaned_def split: option.splits)
  ultimately show "cleanupOldJobs order now maxAge s = (card {i. ?P i},
       s\<lparr>jm_jobs := (\<lambda>i. case jm_jobs s i of None \<Rightarrow> None
            | Some r \<Rightarrow> if expired (now - maxAge) (job_at s r) then None else Some r)\<rparr>)"
    using cleanup_count [OF assms(1), of "now - maxAge" 0 s] cleanupOldJobs_state
    by (intro prod_eqI) (simp_all add: cleanupOldJobs_fold cleanup_fold)
next
  assume r: "cancellable (j_Status (job_at s r))" "jm_jobs s i = Some r"
  then have "\<not> expired (now - maxAge) (job_at s r)"
    by (auto simp: cancellable_def expired_def terminal_def)
  with r show "jm_jobs (snd (cleanupOldJobs order now maxAge s)) i = Some r"
    by (simp add: cleanupOldJobs_state cleaned_def)
  show "jm_jobs (snd (DeleteJob k s)) i = Some r"
    using r by (auto simp: DeleteJob_def Let_def snapshotStatus_def cancellable_def split: option.splits)
qed

lemma demo_id: "hex_encode [Suc 0, 2, 3, 4, 5, 6, 7, 8] = ''0102030405060708''"
  by code_simp

theorem cleanup_exact_witness:
  "jm_jobs (snd (cleanupOldJobs [''job-0102030405060708''] 1000 1 demo_running))
     ''job-0102030405060708'' = Some 0"
proof -
  have jobs: "jm_jobs demo_running = [''job-0102030405060708'' \<mapsto> 0]"
    by (simp add: demo_defs demo_id)
  have "cancellable (j_Status (job_at demo_running 0))"
    by (simp add: demo_defs cancellable_def)
  with cleanup_exact [of "[''job-0102030405060708'']" demo_running 1000 1 0 "''job-0102030405060708''" "[]"]
  show ?thesis unfolding jobs by (simp add: demo_defs expired_def terminal_def)
qed

end
