(* ===== verification/Locks.thy ===== *)
theory Locks
  imports Prelude
begin

text \<open>
  \<open>pkg/provider/locks.go\<close>: the per-instance locks every provider operation takes.
  Entries live on a heap because a waiter keeps its pointer while the map changes; the one-slot
  channel of an entry is the boolean that says whether the token is in it. \<open>Acquire\<close> and the
  release function are split at the points where a goroutine can be interrupted: under
  \<open>l.mu\<close>, at the channel operation, and inside \<open>drop\<close>. The second half runs any number
  of operations that lock through \<open>AcquireAll\<close> against each other.
\<close>

section \<open>The lock table\<close>

record instance_lock =
  le_ch :: bool
  le_refs :: nat

record instance_locks =
  il_locks :: "string \<rightharpoonup> nat"
  il_heap :: "instance_lock list"

definition NewLocks :: instance_locks where
  "NewLocks = \<lparr>il_locks = Map.empty, il_heap = []\<rparr>"

definition upd_entry :: "nat \<Rightarrow> (instance_lock \<Rightarrow> instance_lock) \<Rightarrow> instance_locks \<Rightarrow> instance_locks" where
  "upd_entry e f L = L\<lparr>il_heap := (il_heap L)[e := f (il_heap L ! e)]\<rparr>"

text \<open>The section of \<open>Acquire\<close> under \<open>l.mu\<close>: find or make the entry and count the caller.\<close>

definition acquire_register :: "string \<Rightarrow> instance_locks \<Rightarrow> nat \<times> instance_locks" where
  "acquire_register n L =
     (case il_locks L n of
        Some e \<Rightarrow> (e, upd_entry e (\<lambda>x. x\<lparr>le_refs := le_refs x + 1\<rparr>) L)
      | None \<Rightarrow>
          let e = length (il_heap L) in
          (e, L\<lparr>il_heap := il_heap L @ [\<lparr>le_ch = False, le_refs = 1\<rparr>],
                il_locks := (il_locks L)(n \<mapsto> e)\<rparr>))"

text \<open>\<open>entry.ch <- struct{}{}\<close> blocks while the slot is taken; \<open><-entry.ch\<close> frees it.\<close>

definition send_token :: "nat \<Rightarrow> instance_locks \<Rightarrow> instance_locks option" where
  "send_token e L =
     (if le_ch (il_heap L ! e) then None else Some (upd_entry e (\<lambda>x. x\<lparr>le_ch := True\<rparr>) L))"

definition take_token :: "nat \<Rightarrow> instance_locks \<Rightarrow> instance_locks" where
  "take_token e L = upd_entry e (\<lambda>x. x\<lparr>le_ch := False\<rparr>) L"

definition drop_entry :: "string \<Rightarrow> nat \<Rightarrow> instance_locks \<Rightarrow> instance_locks" where
  "drop_entry n e L =
     (let L' = upd_entry e (\<lambda>x. x\<lparr>le_refs := le_refs x - 1\<rparr>) L in
      if le_refs (il_heap L' ! e) = 0 then L'\<lparr>il_locks := (il_locks L')(n := None)\<rparr> else L')"

text \<open>
  \<open>Acquire\<close> run without interruption: the names the context already records, the context's
  error if it has ended, the name. The result is the names the returned context records and the
  entry to release (none for a nested acquisition), an error, or blocking.
\<close>

datatype acquire_result =
    Acquired "string set" "nat option"
  | AcquireError go_error
  | WouldBlock nat

definition Acquire ::
    "string set \<Rightarrow> go_error option \<Rightarrow> string \<Rightarrow> instance_locks \<Rightarrow> acquire_result \<times> instance_locks" where
  "Acquire held ctxErr n L =
     (if n \<in> held then (Acquired held None, L)
      else
        let (e, L1) = acquire_register n L in
        (case ctxErr of
           Some err \<Rightarrow> (AcquireError err, drop_entry n e L1)
         | None \<Rightarrow>
             (case send_token e L1 of
                Some L2 \<Rightarrow> (Acquired (insert n held) (Some e), L2)
              | None \<Rightarrow> (WouldBlock e, L1))))"

definition release :: "string \<Rightarrow> nat \<Rightarrow> instance_locks \<Rightarrow> instance_locks" where
  "release n e L = drop_entry n e (take_token e L)"

text \<open>The list of names \<open>AcquireAll\<close> locks, in the order it locks them.\<close>

definition unique_names :: "string list \<Rightarrow> string list" where
  "unique_names names =
     fst (fold (\<lambda>n (unique, seen). if n = [] \<or> n \<in> seen then (unique, seen)
                                   else (unique @ [n], insert n seen)) names ([], {}))"

definition lock_order :: "string list \<Rightarrow> string list" where
  "lock_order names = sort (unique_names names)"

section \<open>Concurrent operations\<close>

text \<open>
  An operation between \<open>AcquireAll\<close> and the end of its release: about to lock the next name,
  waiting for a token, running with every lock held, releasing, between returning a token and
  dropping its entry, done.
\<close>

datatype lock_pc = LNext | LWait string nat | LBody | LRelease | LDrop string nat | LDone

record lock_op =
  lo_todo :: "string list"
  lo_held :: "(string \<times> nat) list"
  lo_pc :: lock_pc

definition start_op :: "string list \<Rightarrow> lock_op" where
  "start_op names = \<lparr>lo_todo = lock_order names, lo_held = [], lo_pc = LNext\<rparr>"

text \<open>One step of one operation; the flag says that its context has ended.\<close>

definition op_step :: "bool \<Rightarrow> lock_op \<Rightarrow> instance_locks \<Rightarrow> (lock_op \<times> instance_locks) option" where
  "op_step ended p L =
     (case lo_pc p of
        LNext \<Rightarrow>
          (case lo_todo p of
             [] \<Rightarrow> Some (p\<lparr>lo_pc := LBody\<rparr>, L)
           | n # ns \<Rightarrow>
               if n \<in> fst ` set (lo_held p) then Some (p\<lparr>lo_todo := ns\<rparr>, L)
               else let (e, L') = acquire_register n L in Some (p\<lparr>lo_pc := LWait n e\<rparr>, L'))
      | LWait n e \<Rightarrow>
          if ended then Some (p\<lparr>lo_pc := LRelease\<rparr>, drop_entry n e L)
          else (case send_token e L of
                  None \<Rightarrow> None
                | Some L' \<Rightarrow> Some (p\<lparr>lo_todo := tl (lo_todo p), lo_held := (n, e) # lo_held p,
                                     lo_pc := LNext\<rparr>, L'))
      | LBody \<Rightarrow> Some (p\<lparr>lo_pc := LRelease\<rparr>, L)
      | LRelease \<Rightarrow>
          (case lo_held p of
             [] \<Rightarrow> Some (p\<lparr>lo_pc := LDone\<rparr>, L)
           | (n, e) # hs \<Rightarrow> Some (p\<lparr>lo_held := hs, lo_pc := LDrop n e\<rparr>, take_token e L))
      | LDrop n e \<Rightarrow> Some (p\<lparr>lo_pc := LRelease\<rparr>, drop_entry n e L)
      | LDone \<Rightarrow> None)"

record lock_sys =
  ls_locks :: instance_locks
  ls_ops :: "lock_op list"

inductive lock_step :: "lock_sys \<Rightarrow> lock_sys \<Rightarrow> bool" where
  op: "t < length (ls_ops S) \<Longrightarrow> op_step ended (ls_ops S ! t) (ls_locks S) = Some (p, L) \<Longrightarrow>
    lock_step S \<lparr>ls_locks = L, ls_ops = (ls_ops S)[t := p]\<rparr>"
| arrive: "lock_step S (S\<lparr>ls_ops := ls_ops S @ [start_op names]\<rparr>)"

inductive_cases lock_stepE: "lock_step S S'"

inductive lock_reach :: "lock_sys \<Rightarrow> bool" where
  init: "lock_reach \<lparr>ls_locks = NewLocks, ls_ops = []\<rparr>"
| step: "lock_reach S \<Longrightarrow> lock_step S S' \<Longrightarrow> lock_reach S'"

section \<open>The invariant\<close>

definition op_entries :: "lock_op \<Rightarrow> (string \<times> nat) list" where
  "op_entries p = (case lo_pc p of LWait n e \<Rightarrow> [(n, e)] | LDrop n e \<Rightarrow> [(n, e)] | _ \<Rightarrow> []) @ lo_held p"

definition tally :: "(lock_op \<Rightarrow> (string \<times> nat) list) \<Rightarrow> lock_op list \<Rightarrow> nat \<Rightarrow> nat" where
  "tally f ops e = sum_list (map (\<lambda>p. count_list (map snd (f p)) e) ops)"

lemma tally_update:
  assumes "t < length ops"
  shows "tally f (ops[t := p]) e + count_list (map snd (f (ops ! t))) e =
    tally f ops e + count_list (map snd (f p)) e"
proof -
  let ?g = "\<lambda>p. count_list (map snd (f p)) e"
  have "?g (ops ! t) \<le> sum_list (map ?g ops)"
    using assms by (intro member_le_sum_list) simp_all
  then show ?thesis
    using assms by (simp add: tally_def map_update sum_list_update)
qed

lemma tally_snoc: "tally f (ops @ [p]) e = tally f ops e + count_list (map snd (f p)) e"
  by (simp add: tally_def)

lemma tally_pos: "p \<in> set ops \<Longrightarrow> (n, e) \<in> set (f p) \<Longrightarrow> 0 < tally f ops e"
  by (auto simp: tally_def sum_list_eq_0_iff count_list_0_iff intro!: gr0I) force

text \<open>
  The references of an entry are the operations that hold it, wait for it or are dropping it;
  its token is out exactly when one operation holds it; the map has an entry exactly while it
  is referenced, and each under one name.
\<close>

definition table_ok :: "instance_locks \<Rightarrow> lock_op list \<Rightarrow> bool" where
  "table_ok L ops \<longleftrightarrow>
     (\<forall>e < length (il_heap L). le_refs (il_heap L ! e) = tally op_entries ops e
        \<and> (if le_ch (il_heap L ! e) then 1 else 0) = tally lo_held ops e)
     \<and> (\<forall>p \<in> set ops. \<forall>(n, e) \<in> set (op_entries p). il_locks L n = Some e)
     \<and> (\<forall>n e. il_locks L n = Some e \<longrightarrow> e < length (il_heap L) \<and> 0 < le_refs (il_heap L ! e))
     \<and> (\<forall>n n' e. il_locks L n = Some e \<longrightarrow> il_locks L n' = Some e \<longrightarrow> n = n')"

lemma table_okD:
  assumes "table_ok L ops"
  shows "e < length (il_heap L) \<Longrightarrow> le_refs (il_heap L ! e) = tally op_entries ops e"
    "e < length (il_heap L) \<Longrightarrow> (if le_ch (il_heap L ! e) then 1 else 0) = tally lo_held ops e"
    "p \<in> set ops \<Longrightarrow> (n, e) \<in> set (op_entries p) \<Longrightarrow> il_locks L n = Some e"
    "il_locks L n = Some e \<Longrightarrow> e < length (il_heap L)"
    "il_locks L n = Some e \<Longrightarrow> 0 < le_refs (il_heap L ! e)"
    "il_locks L n = Some e \<Longrightarrow> il_locks L n' = Some e \<Longrightarrow> n = n'"
  using assms unfolding table_ok_def by blast+

lemma table_okI:
  assumes "\<And>e. e < length (il_heap L) \<Longrightarrow> le_refs (il_heap L ! e) = tally op_entries ops e"
    "\<And>e. e < length (il_heap L) \<Longrightarrow> (if le_ch (il_heap L ! e) then 1 else 0) = tally lo_held ops e"
    "\<And>p n e. p \<in> set ops \<Longrightarrow> (n, e) \<in> set (op_entries p) \<Longrightarrow> il_locks L n = Some e"
    "\<And>n e. il_locks L n = Some e \<Longrightarrow> e < length (il_heap L)"
    "\<And>n e. il_locks L n = Some e \<Longrightarrow> 0 < le_refs (il_heap L ! e)"
    "\<And>n n' e. il_locks L n = Some e \<Longrightarrow> il_locks L n' = Some e \<Longrightarrow> n = n'"
  shows "table_ok L ops"
  using assms unfolding table_ok_def by blast

lemma held_entries: "(n, e) \<in> set (lo_held p) \<Longrightarrow> (n, e) \<in> set (op_entries p)"
  by (simp add: op_entries_def)

lemma in_set_update: "p \<in> set (ops[t := q]) \<Longrightarrow> p = q \<or> p \<in> set ops"
  using set_update_subset_insert [of ops t q] by blast

text \<open>A step that leaves the table and the counts alone.\<close>

lemma table_ok_local:
  assumes "table_ok L ops" "t < length ops" "op_entries q = op_entries (ops ! t)"
    "lo_held q = lo_held (ops ! t)"
  shows "table_ok L (ops[t := q])"
proof (rule table_okI)
  show "le_refs (il_heap L ! e) = tally op_entries (ops[t := q]) e" if "e < length (il_heap L)" for e
    using table_okD(1) [OF assms(1) that] tally_update [OF assms(2), of op_entries q e] assms(3) by simp
  show "(if le_ch (il_heap L ! e) then 1 else 0) = tally lo_held (ops[t := q]) e"
    if "e < length (il_heap L)" for e
    using table_okD(2) [OF assms(1) that] tally_update [OF assms(2), of lo_held q e] assms(4) by simp
  show "il_locks L n = Some e" if "p \<in> set (ops[t := q])" "(n, e) \<in> set (op_entries p)" for p n e
    using in_set_update [OF that(1)] that(2) table_okD(3) [OF assms(1), of _ n e] assms(2,3)
    by (auto dest: nth_mem)
qed (use table_okD(4-6) [OF assms(1)] in blast)+

lemma upd_entry_simps [simp]:
  "il_locks (upd_entry e f L) = il_locks L"
  "length (il_heap (upd_entry e f L)) = length (il_heap L)"
  "e < length (il_heap L) \<Longrightarrow> il_heap (upd_entry e f L) ! e = f (il_heap L ! e)"
  "k \<noteq> e \<Longrightarrow> il_heap (upd_entry e f L) ! k = il_heap L ! k"
  by (simp_all add: upd_entry_def)

lemma entries_update:
  assumes "table_ok L ops" "t < length ops"
    and "set (op_entries q) \<subseteq> insert (n, e) (set (op_entries (ops ! t)))"
    and "p \<in> set (ops[t := q])" "(m, k) \<in> set (op_entries p)"
  shows "(m, k) = (n, e) \<or> il_locks L m = Some k"
proof -
  from in_set_update [OF assms(4)] consider "p = q" | "p \<in> set ops" by blast
  then show ?thesis
  proof cases
    case 1
    with assms(3,5) have "(m, k) = (n, e) \<or> (m, k) \<in> set (op_entries (ops ! t))" by blast
    with table_okD(3) [OF assms(1) nth_mem [OF assms(2)]] show ?thesis by blast
  qed (use table_okD(3) [OF assms(1)] assms(5) in blast)
qed

lemma table_ok_reregister:
  assumes ok: "table_ok L ops" and t: "t < length ops" and n: "il_locks L n = Some e"
    and ent: "op_entries q = (n, e) # op_entries (ops ! t)" and hld: "lo_held q = lo_held (ops ! t)"
    and L': "L' = upd_entry e (\<lambda>x. x\<lparr>le_refs := le_refs x + 1\<rparr>) L"
  shows "table_ok L' (ops[t := q])"
proof (rule table_okI)
  note R = tally_update [OF t, of op_entries q] and H = tally_update [OF t, of lo_held q]
  have len: "e < length (il_heap L)" using table_okD(4) [OF ok n] .
  show "le_refs (il_heap L' ! k) = tally op_entries (ops[t := q]) k"
    if "k < length (il_heap L')" for k
    using that table_okD(1) [OF ok, of k] R [of k] ent len by (cases "k = e") (simp_all add: L')
  show "(if le_ch (il_heap L' ! k) then 1 else 0) = tally lo_held (ops[t := q]) k"
    if "k < length (il_heap L')" for k
    using that table_okD(2) [OF ok, of k] H [of k] hld len by (cases "k = e") (simp_all add: L')
  show "il_locks L' m = Some k" if "p \<in> set (ops[t := q])" "(m, k) \<in> set (op_entries p)" for p m k
    using entries_update [OF ok t _ that, of n e] ent n by (auto simp: L')
  show "0 < le_refs (il_heap L' ! k)" if "il_locks L' m = Some k" for m k
    using that table_okD(5) [OF ok, of m k] len by (cases "k = e") (simp_all add: L')
qed (use table_okD(4,6) [OF ok] in \<open>auto simp: L'\<close>)

lemma table_ok_new:
  assumes ok: "table_ok L ops" and t: "t < length ops" and n: "il_locks L n = None"
    and e: "e = length (il_heap L)"
    and ent: "op_entries q = (n, e) # op_entries (ops ! t)" and hld: "lo_held q = lo_held (ops ! t)"
    and L': "L' = L\<lparr>il_heap := il_heap L @ [\<lparr>le_ch = False, le_refs = 1\<rparr>],
                     il_locks := (il_locks L)(n \<mapsto> e)\<rparr>"
  shows "table_ok L' (ops[t := q])"
proof (rule table_okI)
  note R = tally_update [OF t, of op_entries q] and H = tally_update [OF t, of lo_held q]
  have fresh: "il_locks L m \<noteq> Some e" for m using table_okD(4) [OF ok, of m e] e by auto
  then have "(m, e) \<notin> set (op_entries p)" if "p \<in> set ops" for m p
    using table_okD(3) [OF ok that, of m e] by blast
  then have "tally op_entries ops e = 0" "tally lo_held ops e = 0"
    by (auto simp: tally_def sum_list_eq_0_iff count_list_0_iff dest: held_entries)
  with R [of e] H [of e] ent hld have new: "tally op_entries (ops[t := q]) e = 1"
    "tally lo_held (ops[t := q]) e = 0" by simp_all
  show "le_refs (il_heap L' ! k) = tally op_entries (ops[t := q]) k"
    if "k < length (il_heap L')" for k
    using that table_okD(1) [OF ok, of k] R [of k] ent new e
    by (cases "k = e") (simp_all add: L' nth_append)
  show "(if le_ch (il_heap L' ! k) then 1 else 0) = tally lo_held (ops[t := q]) k"
    if "k < length (il_heap L')" for k
    using that table_okD(2) [OF ok, of k] H [of k] hld new e
    by (cases "k = e") (simp_all add: L' nth_append)
  show "il_locks L' m = Some k" if "p \<in> set (ops[t := q])" "(m, k) \<in> set (op_entries p)" for p m k
    using entries_update [OF ok t _ that, of n e] ent n by (auto simp: L')
  show "0 < le_refs (il_heap L' ! k)" "k < length (il_heap L')" if "il_locks L' m = Some k" for m k
    using that table_okD(4,5) [OF ok, of m k] e by (auto simp: L' nth_append split: if_splits)
  show "m = m'" if "il_locks L' m = Some k" "il_locks L' m' = Some k" for m m' k
    using that table_okD(6) [OF ok, of m k m'] fresh by (auto simp: L' split: if_splits)
qed

lemma table_ok_register:
  assumes "table_ok L ops" "t < length ops" "acquire_register n L = (e, L')"
    and "op_entries q = (n, e) # op_entries (ops ! t)" "lo_held q = lo_held (ops ! t)"
  shows "table_ok L' (ops[t := q])"
proof (cases "il_locks L n")
  case None
  with assms show ?thesis by (intro table_ok_new) (auto simp: acquire_register_def Let_def)
next
  case (Some k)
  with assms show ?thesis by (intro table_ok_reregister) (auto simp: acquire_register_def)
qed

text \<open>Taking the token of an entry one waits for, and giving one back.\<close>

lemma table_ok_token:
  assumes ok: "table_ok L ops" and t: "t < length ops" and e: "e < length (il_heap L)"
    and ent: "set (op_entries q) = set (op_entries (ops ! t))"
      "\<And>k. count_list (map snd (op_entries q)) k = count_list (map snd (op_entries (ops ! t))) k"
    and hld: "\<And>k. count_list (map snd (lo_held q)) k + (if k = e \<and> \<not> b then 1 else 0) =
        count_list (map snd (lo_held (ops ! t))) k + (if k = e \<and> b then 1 else 0)"
    and b: "le_ch (il_heap L ! e) \<noteq> b" and L': "L' = upd_entry e (\<lambda>x. x\<lparr>le_ch := b\<rparr>) L"
  shows "table_ok L' (ops[t := q])"
proof (rule table_okI)
  note R = tally_update [OF t, of op_entries q] and H = tally_update [OF t, of lo_held q]
  show "le_refs (il_heap L' ! k) = tally op_entries (ops[t := q]) k"
    if "k < length (il_heap L')" for k
    using that table_okD(1) [OF ok, of k] R [of k] ent(2) [of k] e
    by (cases "k = e") (simp_all add: L')
  show "(if le_ch (il_heap L' ! k) then 1 else 0) = tally lo_held (ops[t := q]) k"
    if "k < length (il_heap L')" for k
    using that table_okD(2) [OF ok, of k] H [of k] hld [of k] e b
    by (cases "k = e"; cases b) (simp_all add: L' split: if_splits)
  show "il_locks L' m = Some k" if "p \<in> set (ops[t := q])" "(m, k) \<in> set (op_entries p)" for p m k
    using in_set_update [OF that(1)] that(2) ent(1) table_okD(3) [OF ok nth_mem [OF t], of m k]
      table_okD(3) [OF ok, of p m k] by (auto simp: L')
  show "0 < le_refs (il_heap L' ! k)" if "il_locks L' m = Some k" for m k
    using that table_okD(5) [OF ok, of m k] e by (cases "k = e") (simp_all add: L')
qed (use table_okD(4,6) [OF ok] in \<open>auto simp: L'\<close>)

lemma table_ok_drop:
  assumes ok: "table_ok L ops" and t: "t < length ops"
    and ent: "op_entries (ops ! t) = (n, e) # op_entries q" and hld: "lo_held q = lo_held (ops ! t)"
  shows "table_ok (drop_entry n e L) (ops[t := q])"
proof -
  let ?L = "drop_entry n e L"
  note R = tally_update [OF t, of op_entries q] and H = tally_update [OF t, of lo_held q]
  have n: "il_locks L n = Some e" using table_okD(3) [OF ok nth_mem [OF t], of n e] ent by simp
  have e: "e < length (il_heap L)" using table_okD(4) [OF ok n] .
  have heap: "length (il_heap ?L) = length (il_heap L)"
    "il_heap ?L ! k = (if k = e then (il_heap L ! e)\<lparr>le_refs := le_refs (il_heap L ! e) - 1\<rparr> else il_heap L ! k)"
    for k using e by (auto simp: drop_entry_def Let_def)
  have refs: "le_refs (il_heap ?L ! k) = tally op_entries (ops[t := q]) k" if "k < length (il_heap L)" for k
    using that table_okD(1) [OF ok, of k] R [of k] ent by (cases "k = e") (simp_all add: heap)
  have ld: "il_locks ?L = (if le_refs (il_heap L ! e) - 1 = 0 then (il_locks L)(n := None) else il_locks L)"
    using e by (simp add: drop_entry_def Let_def)
  have locks: "il_locks ?L m = Some k \<longleftrightarrow> il_locks L m = Some k \<and> 0 < le_refs (il_heap ?L ! k)" for m k
  proof (cases "m = n")
    case True
    with n show ?thesis by (cases "k = e") (simp_all add: ld heap)
  next
    case False
    have "k \<noteq> e" if "il_locks L m = Some k" using table_okD(6) [OF ok n, of m] that False by blast
    with False table_okD(5) [OF ok, of m k] show ?thesis by (auto simp: ld heap)
  qed
  show ?thesis
  proof (rule table_okI)
    show "(if le_ch (il_heap ?L ! k) then 1 else 0) = tally lo_held (ops[t := q]) k"
      if "k < length (il_heap ?L)" for k
      using that table_okD(2) [OF ok, of k] H [of k] hld
      by (cases "k = e") (auto simp: heap split: if_splits)
    show "il_locks ?L m = Some k" if p: "p \<in> set (ops[t := q])" "(m, k) \<in> set (op_entries p)" for p m k
    proof -
      have "il_locks L m = Some k"
        using entries_update [OF ok t _ p, of n e] ent n by auto
      moreover have "0 < tally op_entries (ops[t := q]) k" using p by (rule tally_pos)
      ultimately show ?thesis using locks refs table_okD(4) [OF ok] by metis
    qed
    show "k < length (il_heap ?L)" if "il_locks ?L m = Some k" for m k
      using that locks heap(1) table_okD(4) [OF ok, of m k] by simp
    show "m = m'" if "il_locks ?L m = Some k" "il_locks ?L m' = Some k" for m m' k
      using that locks table_okD(6) [OF ok] by blast
  qed (use refs heap(1) locks in auto)
qed


text \<open>Locks are taken in ascending order of name, the one being waited for is the next.\<close>

definition order_ok :: "lock_op \<Rightarrow> bool" where
  "order_ok p \<longleftrightarrow>
     (case lo_pc p of
        LNext \<Rightarrow> sorted_wrt (<) (rev (map fst (lo_held p)) @ lo_todo p)
      | LWait n e \<Rightarrow> sorted_wrt (<) (rev (map fst (lo_held p)) @ lo_todo p)
                     \<and> (\<exists>ns. lo_todo p = n # ns)
      | LDone \<Rightarrow> lo_held p = []
      | _ \<Rightarrow> True)"

definition lock_inv :: "lock_sys \<Rightarrow> bool" where
  "lock_inv S \<longleftrightarrow> table_ok (ls_locks S) (ls_ops S) \<and> (\<forall>p \<in> set (ls_ops S). order_ok p)"

lemma unique_names_distinct: "distinct (unique_names names) \<and> [] \<notin> set (unique_names names)
    \<and> set (unique_names names) = set names - {[]}"
proof -
  have "distinct u \<Longrightarrow> set u = seen \<Longrightarrow> [] \<notin> seen \<Longrightarrow>
      distinct (fst (fold (\<lambda>n (unique, seen). if n = [] \<or> n \<in> seen then (unique, seen)
                  else (unique @ [n], insert n seen)) names (u, seen)))
      \<and> set (fst (fold (\<lambda>n (unique, seen). if n = [] \<or> n \<in> seen then (unique, seen)
                  else (unique @ [n], insert n seen)) names (u, seen))) = seen \<union> (set names - {[]})"
    for u and seen :: "string set"
    by (induction names arbitrary: u seen) auto
  from this [of "[]" "{}"] show ?thesis by (simp add: unique_names_def)
qed

lemma lock_order_sorted: "sorted_wrt (<) (lock_order names)"
  using unique_names_distinct [of names]
  by (simp add: lock_order_def strict_sorted_iff)

lemma start_op_order: "order_ok (start_op names)"
  by (simp add: order_ok_def start_op_def lock_order_sorted)

lemma order_step:
  assumes "order_ok p" "op_step ended p L = Some (q, L')"
  shows "order_ok q"
  using assms
  by (cases "lo_pc p"; cases "lo_todo p"; cases "lo_held p")
    (auto simp: op_step_def order_ok_def sorted_wrt_append split: if_splits option.splits prod.splits)

lemma op_entries_simps:
  "op_entries (p\<lparr>lo_pc := LWait n e\<rparr>) = (n, e) # lo_held p"
  "op_entries (p\<lparr>lo_pc := LRelease\<rparr>) = lo_held p" "op_entries (p\<lparr>lo_pc := LBody\<rparr>) = lo_held p"
  "op_entries (p\<lparr>lo_pc := LDone\<rparr>) = lo_held p" "lo_pc p = LNext \<Longrightarrow> op_entries p = lo_held p"
  "lo_pc p = LRelease \<Longrightarrow> op_entries p = lo_held p" "lo_pc p = LBody \<Longrightarrow> op_entries p = lo_held p"
  "lo_pc p = LWait n e \<Longrightarrow> op_entries p = (n, e) # lo_held p"
  "lo_pc p = LDrop n e \<Longrightarrow> op_entries p = (n, e) # lo_held p"
  "op_entries (p\<lparr>lo_todo := ns\<rparr>) = op_entries p"
  by (simp_all add: op_entries_def)

lemma table_step:
  assumes ok: "table_ok L ops" and t: "t < length ops"
    and step: "op_step ended (ops ! t) L = Some (q, L')"
  shows "table_ok L' (ops[t := q])"
proof (cases "lo_pc (ops ! t)")
  case LNext
  show ?thesis
  proof (cases "lo_todo (ops ! t)")
    case Nil
    with LNext step ok t show ?thesis
      by (auto simp: op_step_def op_entries_simps intro: table_ok_local)
  next
    case (Cons n ns)
    show ?thesis
    proof (cases "n \<in> fst ` set (lo_held (ops ! t))")
      case True
      with LNext Cons step ok t show ?thesis
        by (auto simp: op_step_def op_entries_simps intro: table_ok_local)
    next
      case False
      obtain e L1 where r: "acquire_register n L = (e, L1)" by fastforce
      with LNext Cons False step have "q = (ops ! t)\<lparr>lo_pc := LWait n e\<rparr>" "L' = L1"
        by (auto simp: op_step_def)
      with r LNext ok t show ?thesis by (intro table_ok_register) (simp_all add: op_entries_simps)
    qed
  qed
next
  case (LWait n e)
  have e: "e < length (il_heap L)"
    using table_okD(3) [OF ok nth_mem [OF t], of n e] table_okD(4) [OF ok] LWait
    by (simp add: op_entries_simps)
  show ?thesis
  proof (cases ended)
    case True
    with LWait step ok t show ?thesis
      by (auto simp: op_step_def op_entries_simps intro!: table_ok_drop)
  next
    case False
    with LWait step have "\<not> le_ch (il_heap L ! e)" "L' = upd_entry e (\<lambda>x. x\<lparr>le_ch := True\<rparr>) L"
      "q = (ops ! t)\<lparr>lo_todo := tl (lo_todo (ops ! t)), lo_held := (n, e) # lo_held (ops ! t),
                     lo_pc := LNext\<rparr>"
      by (auto simp: op_step_def send_token_def split: if_splits)
    with LWait show ?thesis
      by (intro table_ok_token [OF ok t e, where b = True]) (auto simp: op_entries_def)
  qed
next
  case LRelease
  show ?thesis
  proof (cases "lo_held (ops ! t)")
    case Nil
    with LRelease step ok t show ?thesis
      by (auto simp: op_step_def op_entries_simps intro: table_ok_local)
  next
    case (Cons h hs)
    obtain n e where h: "h = (n, e)" by fastforce
    have ent: "(n, e) \<in> set (op_entries (ops ! t))" using Cons h by (simp add: op_entries_def)
    then have e: "e < length (il_heap L)"
      using table_okD(3) [OF ok nth_mem [OF t], of n e] table_okD(4) [OF ok] by simp
    have "0 < tally lo_held ops e"
      using Cons h by (intro tally_pos [OF nth_mem [OF t], of n]) simp
    then have "le_ch (il_heap L ! e)" using table_okD(2) [OF ok e] by (simp split: if_splits)
    moreover from LRelease Cons h step have "L' = upd_entry e (\<lambda>x. x\<lparr>le_ch := False\<rparr>) L"
      "q = (ops ! t)\<lparr>lo_held := hs, lo_pc := LDrop n e\<rparr>"
      by (auto simp: op_step_def take_token_def)
    ultimately show ?thesis
      using LRelease Cons h
      by (intro table_ok_token [OF ok t e, where b = False]) (auto simp: op_entries_def)
  qed
next
  case (LDrop n e)
  with step ok t show ?thesis
    by (auto simp: op_step_def op_entries_simps intro!: table_ok_drop)
qed (use step ok t in \<open>auto simp: op_step_def op_entries_simps intro: table_ok_local\<close>)

lemma table_arrive:
  assumes "table_ok L ops"
  shows "table_ok L (ops @ [start_op names])"
proof (rule table_okI)
  have none: "op_entries (start_op names) = []" "lo_held (start_op names) = []"
    by (simp_all add: start_op_def op_entries_def)
  show "le_refs (il_heap L ! e) = tally op_entries (ops @ [start_op names]) e"
    "(if le_ch (il_heap L ! e) then 1 else 0) = tally lo_held (ops @ [start_op names]) e"
    if "e < length (il_heap L)" for e
    using table_okD(1,2) [OF assms that] by (simp_all add: tally_snoc none)
  show "il_locks L n = Some e" if "p \<in> set (ops @ [start_op names])" "(n, e) \<in> set (op_entries p)" for p n e
    using that none table_okD(3) [OF assms, of p n e] by auto
qed (use table_okD(4-6) [OF assms] in blast)+

lemma lock_inv_reach: "lock_reach S \<Longrightarrow> lock_inv S"
proof (induction rule: lock_reach.induct)
  case init
  show ?case by (simp add: lock_inv_def table_ok_def NewLocks_def)
next
  case (step S S')
  from step.hyps(2) show ?case
  proof cases
    case (op t ended p L)
    with step.IH show ?thesis
      by (auto simp: lock_inv_def intro: table_step dest!: in_set_update intro: order_step)
  next
    case (arrive names)
    with step.IH show ?thesis by (auto simp: lock_inv_def table_arrive start_op_order)
  qed
qed


section \<open>Properties\<close>

lemma held_once:
  assumes ok: "table_ok L ops" and ij: "i < length ops" "j < length ops" "i \<noteq> j"
    and i: "(n, e) \<in> set (lo_held (ops ! i))" and j: "(n', e) \<in> set (lo_held (ops ! j))"
  shows False
proof -
  let ?ops = "ops[i := start_op []]"
  have e: "e < length (il_heap L)"
    using table_okD(3) [OF ok nth_mem [OF ij(1)] held_entries [OF i]] table_okD(4) [OF ok] by blast
  have "ops ! j \<in> set ?ops"
    using ij by (metis length_list_update nth_list_update_neq nth_mem)
  then have "0 < tally lo_held ?ops e" using j by (rule tally_pos)
  moreover have "count_list (map snd (lo_held (ops ! i))) e \<noteq> 0"
    using image_eqI [OF _ i, of e snd] by (simp add: count_list_0_iff)
  moreover have "lo_held (start_op []) = []" by (simp add: start_op_def)
  ultimately have "1 < tally lo_held ops e"
    using tally_update [OF ij(1), of lo_held "start_op []" e] by simp
  with table_okD(2) [OF ok e] show False by (simp split: if_splits)
qed

text \<open>C4. Two operations never hold the same instance at the same time, whatever the
  interleaving of acquisitions, cancellations and releases of any number of operations.\<close>

theorem instance_locks_exclusive:
  assumes "lock_reach S" "i < length (ls_ops S)" "j < length (ls_ops S)" "i \<noteq> j"
    and "n \<in> fst ` set (lo_held (ls_ops S ! i))"
  shows "n \<notin> fst ` set (lo_held (ls_ops S ! j))"
proof
  assume "n \<in> fst ` set (lo_held (ls_ops S ! j))"
  then obtain e' where j: "(n, e') \<in> set (lo_held (ls_ops S ! j))" by force
  from assms(5) obtain e where i: "(n, e) \<in> set (lo_held (ls_ops S ! i))" by force
  have ok: "table_ok (ls_locks S) (ls_ops S)"
    using lock_inv_reach [OF assms(1)] by (simp add: lock_inv_def)
  have "e' = e"
    using table_okD(3) [OF ok nth_mem [OF assms(2)] held_entries [OF i]]
      table_okD(3) [OF ok nth_mem [OF assms(3)] held_entries [OF j]] by simp
  with held_once [OF ok assms(2-4) i] j show False by blast
qed

text \<open>C5. The lock table holds an entry for a name exactly while some operation holds that
  instance, waits for it or is between returning its token and dropping the entry; once every
  operation is done the table is empty, so it does not grow with the instances ever seen.\<close>

theorem instance_locks_no_leak:
  assumes "lock_reach S"
  shows "(il_locks (ls_locks S) n \<noteq> None \<longleftrightarrow> (\<exists>p \<in> set (ls_ops S). n \<in> fst ` set (op_entries p)))
    \<and> ((\<forall>p \<in> set (ls_ops S). lo_pc p = LDone) \<longrightarrow> il_locks (ls_locks S) = Map.empty)"
proof (intro conjI impI)
  have ok: "table_ok (ls_locks S) (ls_ops S)" and ord: "\<forall>p \<in> set (ls_ops S). order_ok p"
    using lock_inv_reach [OF assms] by (simp_all add: lock_inv_def)
  have iff: "il_locks (ls_locks S) m \<noteq> None \<longleftrightarrow> (\<exists>p \<in> set (ls_ops S). m \<in> fst ` set (op_entries p))" for m
  proof
    assume "il_locks (ls_locks S) m \<noteq> None"
    then obtain e where e: "il_locks (ls_locks S) m = Some e" by blast
    then have "tally op_entries (ls_ops S) e \<noteq> 0"
      using table_okD(1) [OF ok table_okD(4) [OF ok e]] table_okD(5) [OF ok e] by simp
    then obtain p where p: "p \<in> set (ls_ops S)" "e \<in> set (map snd (op_entries p))"
      by (auto simp: tally_def sum_list_eq_0_iff count_list_0_iff)
    then obtain k where k: "(k, e) \<in> set (op_entries p)" by auto
    with p table_okD(3) [OF ok] table_okD(6) [OF ok e] have "k = m" by blast
    with p k show "\<exists>p \<in> set (ls_ops S). m \<in> fst ` set (op_entries p)" by force
  next
    assume "\<exists>p \<in> set (ls_ops S). m \<in> fst ` set (op_entries p)"
    with table_okD(3) [OF ok] show "il_locks (ls_locks S) m \<noteq> None" by force
  qed
  then show "il_locks (ls_locks S) n \<noteq> None \<longleftrightarrow> (\<exists>p \<in> set (ls_ops S). n \<in> fst ` set (op_entries p))" .
  assume "\<forall>p \<in> set (ls_ops S). lo_pc p = LDone"
  with ord have "op_entries p = []" if "p \<in> set (ls_ops S)" for p
    using that by (auto simp: order_ok_def op_entries_def)
  with iff show "il_locks (ls_locks S) = Map.empty" by (intro ext) auto
qed

fun pc_work :: "lock_pc \<Rightarrow> nat" where
  "pc_work LNext = 4"
| "pc_work (LWait n e) = 3"
| "pc_work LBody = 2"
| "pc_work (LDrop n e) = 2"
| "pc_work LRelease = 1"
| "pc_work LDone = 0"

definition op_work :: "lock_op \<Rightarrow> nat" where
  "op_work p = 4 * length (lo_todo p) + 2 * length (lo_held p) + pc_work (lo_pc p)"

lemma op_step_work:
  "order_ok p \<Longrightarrow> op_step ended p L = Some (q, L') \<Longrightarrow> op_work q < op_work p"
  by (cases "lo_pc p"; cases "lo_todo p"; cases "lo_held p")
    (auto simp: op_step_def op_work_def order_ok_def split: if_splits option.splits prod.splits)

lemma op_blocked_iff:
  "op_step False p L = None \<longleftrightarrow>
     lo_pc p = LDone \<or> (\<exists>n e. lo_pc p = LWait n e \<and> le_ch (il_heap L ! e))"
  by (cases "lo_pc p")
    (auto simp: op_step_def send_token_def split: list.splits option.splits prod.splits if_splits)

text \<open>The operation that holds what a blocked one waits for, if blocked too, waits for a greater
  name.\<close>

lemma blocked_chain:
  assumes ok: "table_ok L ops" and ord: "\<forall>p \<in> set ops. order_ok p"
    and all: "\<forall>p \<in> set ops. op_step False p L = None"
    and p: "p \<in> set ops" "lo_pc p = LWait n e" "le_ch (il_heap L ! e)"
  shows "\<exists>q \<in> set ops. \<exists>m k. lo_pc q = LWait m k \<and> le_ch (il_heap L ! k) \<and> n < m"
proof -
  have n: "il_locks L n = Some e"
    using table_okD(3) [OF ok p(1)] p(2) by (simp add: op_entries_def)
  have "tally lo_held ops e \<noteq> 0"
    using table_okD(2) [OF ok table_okD(4) [OF ok n]] p(3) by simp
  then obtain q where q: "q \<in> set ops" "e \<in> set (map snd (lo_held q))"
    by (auto simp: tally_def sum_list_eq_0_iff count_list_0_iff)
  then obtain n' where h: "(n', e) \<in> set (lo_held q)" by auto
  with table_okD(3) [OF ok q(1) held_entries] table_okD(6) [OF ok n] have h: "(n, e) \<in> set (lo_held q)"
    by blast
  from all q(1) have "op_step False q L = None" by blast
  moreover have "lo_pc q \<noteq> LDone" using ord q(1) h by (auto simp: order_ok_def)
  ultimately obtain m k where m: "lo_pc q = LWait m k" "le_ch (il_heap L ! k)"
    by (auto simp: op_blocked_iff)
  with ord q(1) h have "n < m"
    by (force simp: order_ok_def sorted_wrt_append)
  with q(1) m show ?thesis by blast
qed

text \<open>C6. Operations that lock several instances at once never deadlock: while any operation is
  unfinished, one of them can take a step without anybody giving up, and every step of an
  operation strictly lowers the number of steps it has left.\<close>

theorem acquire_all_deadlock_free:
  assumes "lock_reach S"
  shows "((\<exists>p \<in> set (ls_ops S). lo_pc p \<noteq> LDone) \<longrightarrow>
           (\<exists>p \<in> set (ls_ops S). \<exists>q L. op_step False p (ls_locks S) = Some (q, L)))
    \<and> (\<forall>p \<in> set (ls_ops S). op_step ended p (ls_locks S) = Some (q, L) \<longrightarrow> op_work q < op_work p)"
proof (intro conjI impI ballI)
  let ?L = "ls_locks S" and ?ops = "ls_ops S"
  have ok: "table_ok ?L ?ops" and ord: "\<forall>p \<in> set ?ops. order_ok p"
    using lock_inv_reach [OF assms] by (simp_all add: lock_inv_def)
  show "op_work q < op_work p" if "p \<in> set ?ops" "op_step ended p ?L = Some (q, L)" for p
    using op_step_work ord that by blast
  assume "\<exists>p \<in> set ?ops. lo_pc p \<noteq> LDone"
  then obtain p where p: "p \<in> set ?ops" "lo_pc p \<noteq> LDone" by blast
  show "\<exists>p \<in> set ?ops. \<exists>q L. op_step False p ?L = Some (q, L)"
  proof (rule ccontr)
    assume "\<not> ?thesis"
    then have all: "\<forall>p \<in> set ?ops. op_step False p ?L = None" by (metis not_Some_eq surj_pair)
    let ?W = "{n. \<exists>p \<in> set ?ops. \<exists>e. lo_pc p = LWait n e \<and> le_ch (il_heap ?L ! e)}"
    have "?W \<subseteq> (\<lambda>p. case lo_pc p of LWait n e \<Rightarrow> n | _ \<Rightarrow> []) ` set ?ops"
      by (force intro: rev_image_eqI)
    then have fin: "finite ?W" by (rule finite_subset) simp
    have "?W \<noteq> {}" using p all op_blocked_iff by fastforce
    with fin have "Max ?W \<in> ?W" by (rule Max_in)
    then obtain m where "m \<in> ?W" "Max ?W < m" using blocked_chain [OF ok ord all] by blast
    with Max_ge [OF fin, of m] show False by simp
  qed
qed


section \<open>Witnesses\<close>

text \<open>Two operations on the same two instances, named in opposite orders: the first holds the
  first lock, the second waits for it.\<close>

definition demo_op1 :: lock_op where
  "demo_op1 = \<lparr>lo_todo = [''b''], lo_held = [(''a'', 0)], lo_pc = LNext\<rparr>"

definition demo_op2 :: lock_op where
  "demo_op2 = \<lparr>lo_todo = [''a'', ''b''], lo_held = [], lo_pc = LWait ''a'' 0\<rparr>"

definition demo_locks :: lock_sys where
  "demo_locks =
     \<lparr>ls_locks = \<lparr>il_locks = [''a'' \<mapsto> 0], il_heap = [\<lparr>le_ch = True, le_refs = 2\<rparr>]\<rparr>,
      ls_ops = [demo_op1, demo_op2]\<rparr>"

lemma demo_lock_order: "lock_order [''b'', ''a'', ''b''] = [''a'', ''b'']"
  "lock_order [''a'', ''b''] = [''a'', ''b'']"
  by code_simp+

lemma demo_locks_reach: "lock_reach demo_locks"
proof -
  let ?p0 = "\<lparr>lo_todo = [''a'', ''b''], lo_held = [], lo_pc = LNext\<rparr>"
  let ?p1 = "\<lparr>lo_todo = [''a'', ''b''], lo_held = [], lo_pc = LWait ''a'' 0\<rparr>"
  let ?L1 = "\<lparr>il_locks = [''a'' \<mapsto> 0], il_heap = [\<lparr>le_ch = False, le_refs = 1\<rparr>]\<rparr>"
  let ?L2 = "\<lparr>il_locks = [''a'' \<mapsto> 0], il_heap = [\<lparr>le_ch = True, le_refs = 1\<rparr>]\<rparr>"
  have "lock_reach \<lparr>ls_locks = NewLocks, ls_ops = [?p0]\<rparr>"
    using lock_reach.step [OF lock_reach.init lock_step.arrive [of _ "[''b'', ''a'', ''b'']"]]
    by (simp add: start_op_def demo_lock_order)
  from lock_reach.step [OF this lock_step.arrive [of _ "[''a'', ''b'']"]]
  have 1: "lock_reach \<lparr>ls_locks = NewLocks, ls_ops = [?p0, ?p0]\<rparr>"
    by (simp add: start_op_def demo_lock_order)
  have "op_step False ?p0 NewLocks = Some (?p1, ?L1)"
    by (simp add: op_step_def acquire_register_def NewLocks_def Let_def)
  with lock_reach.step [OF 1 lock_step.op [of 0 _ False ?p1 ?L1]]
  have 2: "lock_reach \<lparr>ls_locks = ?L1, ls_ops = [?p1, ?p0]\<rparr>" by simp
  have "op_step False ?p1 ?L1 = Some (demo_op1, ?L2)"
    by (simp add: op_step_def send_token_def upd_entry_def demo_op1_def)
  with lock_reach.step [OF 2 lock_step.op [of 0 _ False demo_op1 ?L2]]
  have 3: "lock_reach \<lparr>ls_locks = ?L2, ls_ops = [demo_op1, ?p0]\<rparr>" by simp
  have "op_step False ?p0 ?L2 = Some (demo_op2, ls_locks demo_locks)"
    by (simp add: op_step_def acquire_register_def upd_entry_def demo_op2_def demo_locks_def)
  with lock_reach.step [OF 3 lock_step.op [of 1 _ False demo_op2 "ls_locks demo_locks"]]
  show ?thesis by (simp add: demo_locks_def)
qed

theorem instance_locks_exclusive_witness:
  "''a'' \<in> fst ` set (lo_held demo_op1) \<and> ''a'' \<notin> fst ` set (lo_held demo_op2)"
  using instance_locks_exclusive [OF demo_locks_reach, of 0 1 "''a''"]
  by (simp add: demo_locks_def demo_op1_def)

theorem instance_locks_no_leak_witness:
  "il_locks (ls_locks demo_locks) ''a'' \<noteq> None \<and> il_locks (ls_locks demo_locks) ''b'' = None"
  using instance_locks_no_leak [OF demo_locks_reach, of "''a''"]
    instance_locks_no_leak [OF demo_locks_reach, of "''b''"]
  by (simp add: demo_locks_def demo_op1_def demo_op2_def op_entries_def)

theorem acquire_all_deadlock_free_witness:
  "\<exists>p \<in> set (ls_ops demo_locks). \<exists>q L. op_step False p (ls_locks demo_locks) = Some (q, L)"
  using acquire_all_deadlock_free [OF demo_locks_reach]
  by (auto simp: demo_locks_def demo_op1_def)

end
