(* ===== verification/Auth.thy ===== *)
theory Auth
  imports Prelude
begin

text \<open>
  Package \<open>internal/auth\<close>: the key store of the daemon (\<open>AuthManager\<close>, hashed keys) and
  the one of development setups (\<open>SimpleAuthProvider\<close>, configured keys), behind the interface
  \<open>AuthProvider\<close> the HTTP layer calls. bcrypt is code outside the repository: hashing and
  comparison are the arguments \<open>gen\<close> and \<open>cmp\<close>. Stored keys are objects on a heap,
  because validation compares the pointer it matched with the one registered later.
  \<open>time.Now()\<close> is an argument and times are integers.
\<close>

section \<open>Key generation\<close>

definition b64url :: string where
  "b64url = ''ABCDEFGHIJKLMNOPQRSTUVWXYZabcdefghijklmnopqrstuvwxyz0123456789-_''"

definition b64_char :: "nat \<Rightarrow> char" where
  "b64_char n = b64url ! (n mod 64)"

text \<open>\<open>base64.RawURLEncoding.EncodeToString\<close>: no padding.\<close>

fun raw_url_encode :: "nat list \<Rightarrow> string" where
  "raw_url_encode [] = []"
| "raw_url_encode [a] = [b64_char (a div 4), b64_char (a mod 4 * 16)]"
| "raw_url_encode [a, b] =
     [b64_char (a div 4), b64_char (a mod 4 * 16 + b div 16), b64_char (b mod 16 * 4)]"
| "raw_url_encode (a # b # c # bs) =
     b64_char (a div 4) # b64_char (a mod 4 * 16 + b div 16) # b64_char (b mod 16 * 4 + c div 64)
     # b64_char (c mod 64) # raw_url_encode bs"

definition APIKeyPrefix :: string where
  "APIKeyPrefix = ''hsp_''"

text \<open>The argument is what \<open>rand.Read\<close> answered for 32 bytes.\<close>

definition GenerateAPIKey :: "go_error + nat list \<Rightarrow> string go_result" where
  "GenerateAPIKey rnd =
     (case rnd of
        Inl e \<Rightarrow> Inl (Wrapf ''failed to generate random bytes: %w'' [] e)
      | Inr bs \<Rightarrow> Inr (APIKeyPrefix @ raw_url_encode bs))"

section \<open>The key store\<close>

record api_key =
  ak_ID :: string
  ak_Name :: string
  ak_HashedKey :: string
  ak_CreatedAt :: int
  ak_LastUsedAt :: int
  ak_ExpiresAt :: "int option"
  ak_Permissions :: "string list"

record auth_manager =
  am_keys :: "string \<rightharpoonup> nat"
  am_heap :: "api_key list"

definition NewAuthManager :: auth_manager where
  "NewAuthManager = \<lparr>am_keys = Map.empty, am_heap = []\<rparr>"

definition HashAPIKey :: "(string \<Rightarrow> string go_result) \<Rightarrow> string \<Rightarrow> string go_result" where
  "HashAPIKey gen key =
     (case gen key of
        Inl e \<Rightarrow> Inl (Wrapf ''failed to hash API key: %w'' [] e)
      | Inr h \<Rightarrow> Inr h)"

text \<open>The registration of a fresh object under an id.\<close>

definition store_key :: "api_key \<Rightarrow> auth_manager \<Rightarrow> auth_manager" where
  "store_key k am = am\<lparr>am_keys := (am_keys am)(ak_ID k \<mapsto> length (am_heap am)),
                       am_heap := am_heap am @ [k]\<rparr>"

definition AddAPIKey ::
    "(string \<Rightarrow> string go_result) \<Rightarrow> string \<Rightarrow> string \<Rightarrow> string \<Rightarrow> string list \<Rightarrow> int option \<Rightarrow> int \<Rightarrow>
     auth_manager \<Rightarrow> go_error option \<times> auth_manager" where
  "AddAPIKey gen i nm key perms expires now am =
     (case HashAPIKey gen key of
        Inl e \<Rightarrow> (Some e, am)
      | Inr h \<Rightarrow>
          (None, store_key \<lparr>ak_ID = i, ak_Name = nm, ak_HashedKey = h, ak_CreatedAt = now,
                            ak_LastUsedAt = 0, ak_ExpiresAt = expires, ak_Permissions = perms\<rparr> am))"

definition LoadAPIKey :: "api_key \<Rightarrow> auth_manager \<Rightarrow> auth_manager" where
  "LoadAPIKey k am = store_key k am"

definition cloneKey :: "api_key \<Rightarrow> api_key" where
  "cloneKey k = k"

definition GetAPIKey :: "auth_manager \<Rightarrow> string \<Rightarrow> api_key option" where
  "GetAPIKey am i = map_option (\<lambda>r. cloneKey (am_heap am ! r)) (am_keys am i)"

definition after_expiry :: "int \<Rightarrow> api_key \<Rightarrow> bool" where
  "after_expiry now k \<longleftrightarrow> (case ak_ExpiresAt k of None \<Rightarrow> False | Some t \<Rightarrow> t < now)"

text \<open>
  \<open>ValidateAPIKey\<close>: the scan under the read lock, in the order the map is visited, and the
  update under the write lock. Between the two other calls may run.
\<close>

fun scan_keys ::
    "(string \<Rightarrow> string \<Rightarrow> bool) \<Rightarrow> string \<Rightarrow> auth_manager \<Rightarrow> string list \<Rightarrow> nat option" where
  "scan_keys cmp key am [] = None"
| "scan_keys cmp key am (i # order) =
     (case am_keys am i of
        None \<Rightarrow> scan_keys cmp key am order
      | Some r \<Rightarrow> if cmp (ak_HashedKey (am_heap am ! r)) key then Some r
                  else scan_keys cmp key am order)"

definition validate_scan ::
    "(string \<Rightarrow> string \<Rightarrow> bool) \<Rightarrow> string \<Rightarrow> int \<Rightarrow> string list \<Rightarrow> auth_manager \<Rightarrow> nat go_result" where
  "validate_scan cmp key now order am =
     (if key = [] then Inl (Errorf ''empty API key'' [])
      else (case scan_keys cmp key am order of
              None \<Rightarrow> Inl (Errorf ''invalid API key'' [])
            | Some r \<Rightarrow> if after_expiry now (am_heap am ! r) then Inl (Errorf ''API key expired'' [])
                        else Inr r))"

definition validate_commit :: "nat \<Rightarrow> int \<Rightarrow> auth_manager \<Rightarrow> api_key go_result \<times> auth_manager" where
  "validate_commit r now am =
     (let k = am_heap am ! r in
      if am_keys am (ak_ID k) \<noteq> Some r then (Inl (Errorf ''invalid API key'' []), am)
      else if after_expiry now k then (Inl (Errorf ''API key expired'' []), am)
      else let k' = k\<lparr>ak_LastUsedAt := now\<rparr> in
           (Inr (cloneKey k'), am\<lparr>am_heap := (am_heap am)[r := k']\<rparr>))"

definition ValidateAPIKey ::
    "(string \<Rightarrow> string \<Rightarrow> bool) \<Rightarrow> string list \<Rightarrow> int \<Rightarrow> string \<Rightarrow> auth_manager \<Rightarrow>
     api_key go_result \<times> auth_manager" where
  "ValidateAPIKey cmp order now key am =
     (case validate_scan cmp key now order am of
        Inl e \<Rightarrow> (Inl e, am)
      | Inr r \<Rightarrow> validate_commit r now am)"

definition HasPermission :: "auth_manager \<Rightarrow> string \<Rightarrow> string \<Rightarrow> bool" where
  "HasPermission am i permission =
     (case am_keys am i of
        None \<Rightarrow> False
      | Some r \<Rightarrow> list_ex (\<lambda>p. p = ''*'' \<or> p = permission) (ak_Permissions (am_heap am ! r)))"

definition RevokeAPIKey :: "string \<Rightarrow> auth_manager \<Rightarrow> go_error option \<times> auth_manager" where
  "RevokeAPIKey i am =
     (if am_keys am i = None then (Some (Errorf ''API key not found'' []), am)
      else (None, am\<lparr>am_keys := (am_keys am)(i := None)\<rparr>))"

definition SetKeyExpiry :: "string \<Rightarrow> int option \<Rightarrow> auth_manager \<Rightarrow> go_error option \<times> auth_manager" where
  "SetKeyExpiry i expires am =
     (case am_keys am i of
        None \<Rightarrow> (Some (Errorf ''API key not found'' []), am)
      | Some r \<Rightarrow>
          (None, am\<lparr>am_heap := (am_heap am)[r := (am_heap am ! r)\<lparr>ak_ExpiresAt := expires\<rparr>]\<rparr>))"

definition ListAPIKeys :: "string list \<Rightarrow> auth_manager \<Rightarrow> api_key list" where
  "ListAPIKeys order am =
     map (\<lambda>r. (cloneKey (am_heap am ! r))\<lparr>ak_HashedKey := []\<rparr>) (List.map_filter (am_keys am) order)"

definition AMValidateKey ::
    "(string \<Rightarrow> string \<Rightarrow> bool) \<Rightarrow> string list \<Rightarrow> int \<Rightarrow> auth_manager \<Rightarrow> string \<Rightarrow> bool" where
  "AMValidateKey cmp order now am key =
     (case fst (ValidateAPIKey cmp order now key am) of Inl _ \<Rightarrow> False | Inr _ \<Rightarrow> True)"

text \<open>\<open>Authenticate\<close>: permissions, identifier and whether the key exists.\<close>

definition AMAuthenticate ::
    "(string \<Rightarrow> string \<Rightarrow> bool) \<Rightarrow> string list \<Rightarrow> int \<Rightarrow> auth_manager \<Rightarrow> string \<Rightarrow>
     (string list \<times> string \<times> bool) \<times> auth_manager" where
  "AMAuthenticate cmp order now am key =
     (case ValidateAPIKey cmp order now key am of
        (Inl _, am') \<Rightarrow> (([], [], False), am')
      | (Inr k, am') \<Rightarrow> ((ak_Permissions k, ak_ID k, True), am'))"

section \<open>Configured keys\<close>

record simple_auth =
  sa_validKeys :: "string \<rightharpoonup> string"
  sa_next :: nat

definition key_label :: "nat \<Rightarrow> string" where
  "key_label n = ''config-key-'' @ itoa_nat n"

definition SAddKey :: "string \<Rightarrow> simple_auth \<Rightarrow> simple_auth" where
  "SAddKey key sap =
     (if key = [] then sap
      else if sa_validKeys sap key \<noteq> None then sap
      else \<lparr>sa_validKeys = (sa_validKeys sap)(key \<mapsto> key_label (Suc (sa_next sap))),
            sa_next = Suc (sa_next sap)\<rparr>)"

text \<open>The constructor's loop does what \<open>AddKey\<close> does, key by key.\<close>

definition NewSimpleAuthProvider :: "string list \<Rightarrow> simple_auth" where
  "NewSimpleAuthProvider keys =
     (let (m, n) = fold (\<lambda>key (m, n). if key = [] then (m, n)
                                      else if m key \<noteq> None then (m, n)
                                      else (m(key \<mapsto> key_label (Suc n)), Suc n))
                     keys (Map.empty, 0)
      in \<lparr>sa_validKeys = m, sa_next = n\<rparr>)"

text \<open>\<open>ValidateKey\<close> compares with every configured key, in the order the map is visited.\<close>

definition SValidateKey :: "string list \<Rightarrow> simple_auth \<Rightarrow> string \<Rightarrow> bool" where
  "SValidateKey order sap key \<longleftrightarrow>
     key \<noteq> [] \<and> list_ex (\<lambda>v. v = key) (filter (\<lambda>v. sa_validKeys sap v \<noteq> None) order)"

definition SAuthenticate :: "simple_auth \<Rightarrow> string \<Rightarrow> (string list \<times> string \<times> bool) \<times> simple_auth" where
  "SAuthenticate sap key =
     (case sa_validKeys sap key of
        None \<Rightarrow> (([], [], False), sap)
      | Some i \<Rightarrow> (([''*''], i, True), sap))"

definition SRemoveKey :: "string \<Rightarrow> simple_auth \<Rightarrow> simple_auth" where
  "SRemoveKey key sap = sap\<lparr>sa_validKeys := (sa_validKeys sap)(key := None)\<rparr>"

section \<open>The interface\<close>

text \<open>
  What the HTTP layer relies on: the two questions agree, no key is no authentication,
  authenticating changes nothing a later authentication depends on.
\<close>

locale auth_provider =
  fixes inv :: "'s \<Rightarrow> bool"
    and validate :: "'s \<Rightarrow> string \<Rightarrow> bool"
    and authenticate :: "'s \<Rightarrow> string \<Rightarrow> (string list \<times> string \<times> bool) \<times> 's"
  assumes agree: "inv s \<Longrightarrow> validate s k \<longleftrightarrow> snd (snd (fst (authenticate s k)))"
    and no_key: "inv s \<Longrightarrow> \<not> validate s []"
    and keeps: "inv s \<Longrightarrow> inv (snd (authenticate s k))"
    and stable: "inv s \<Longrightarrow> fst (authenticate (snd (authenticate s k)) k') = fst (authenticate s k')"
    and refused: "inv s \<Longrightarrow> \<not> snd (snd (fst (authenticate s k))) \<Longrightarrow> fst (authenticate s k) = ([], [], False)"
begin

text \<open>A run of authentications answers each key as the first state would.\<close>

fun auth_run :: "'s \<Rightarrow> string list \<Rightarrow> (string list \<times> string \<times> bool) list" where
  "auth_run s [] = []"
| "auth_run s (k # ks) = fst (authenticate s k) # auth_run (snd (authenticate s k)) ks"

lemma auth_run_map: "inv s \<Longrightarrow> auth_run s ks = map (\<lambda>k. fst (authenticate s k)) ks"
proof (induction ks arbitrary: s)
  case (Cons k ks)
  then show ?case using keeps [of s k] by (simp add: stable)
qed simp

lemma empty_refused: "inv s \<Longrightarrow> fst (authenticate s []) = ([], [], False)"
  using agree [of s "[]"] no_key [of s] refused [of s "[]"] by blast

end

section \<open>Laws of the key store\<close>

text \<open>Every registered id points at an object that carries that id.\<close>

definition am_inv :: "auth_manager \<Rightarrow> bool" where
  "am_inv am \<longleftrightarrow>
     (\<forall>i r. am_keys am i = Some r \<longrightarrow> r < length (am_heap am) \<and> ak_ID (am_heap am ! r) = i)"

lemma am_inv_New: "am_inv NewAuthManager"
  by (simp add: am_inv_def NewAuthManager_def)

lemma am_inv_store: "am_inv am \<Longrightarrow> am_inv (store_key k am)"
  by (auto simp: am_inv_def store_key_def nth_append less_SucI)

lemma am_inv_ops:
  assumes "am_inv am"
  shows "am_inv (snd (AddAPIKey gen i nm key perms expires now am))" "am_inv (LoadAPIKey k am)"
    "am_inv (snd (RevokeAPIKey i am))" "am_inv (snd (SetKeyExpiry i expires am))"
    "am_inv (snd (validate_commit r now am))"
  using assms am_inv_store
  by (auto simp: AddAPIKey_def LoadAPIKey_def split: sum.splits)
    (auto simp: am_inv_def RevokeAPIKey_def SetKeyExpiry_def validate_commit_def Let_def
      nth_list_update split: option.splits)

lemma am_inv_Validate: "am_inv am \<Longrightarrow> am_inv (snd (ValidateAPIKey cmp order now key am))"
  using am_inv_ops(5) by (auto simp: ValidateAPIKey_def split: sum.splits)

lemma scan_keys_Some:
  "scan_keys cmp key am order = Some r \<Longrightarrow>
   \<exists>i \<in> set order. am_keys am i = Some r \<and> cmp (ak_HashedKey (am_heap am ! r)) key"
  by (induction order) (auto split: option.splits if_splits)

lemma scan_keys_None:
  "scan_keys cmp key am order = None \<longleftrightarrow>
   (\<forall>i \<in> set order. \<forall>r. am_keys am i = Some r \<longrightarrow> \<not> cmp (ak_HashedKey (am_heap am ! r)) key)"
  by (induction order) (auto split: option.splits if_splits)

lemma scan_keys_cong:
  assumes "am_keys am' = am_keys am"
    "\<And>r. ak_HashedKey (am_heap am' ! r) = ak_HashedKey (am_heap am ! r)"
  shows "scan_keys cmp key am' order = scan_keys cmp key am order"
  by (induction order) (simp_all add: assms split: option.splits)

lemma scan_registered:
  assumes "am_inv am" "scan_keys cmp key am order = Some r"
  shows "am_keys am (ak_ID (am_heap am ! r)) = Some r" "r < length (am_heap am)"
    "cmp (ak_HashedKey (am_heap am ! r)) key"
  using scan_keys_Some [OF assms(2)] assms(1) by (auto simp: am_inv_def)

text \<open>Validation without interference: the second look finds what the first one found.\<close>

lemma ValidateAPIKey_eq:
  assumes "am_inv am"
  shows "ValidateAPIKey cmp order now key am =
    (if key = [] then (Inl (Errorf ''empty API key'' []), am)
     else case scan_keys cmp key am order of
        None \<Rightarrow> (Inl (Errorf ''invalid API key'' []), am)
      | Some r \<Rightarrow>
          let k = am_heap am ! r in
          if after_expiry now k then (Inl (Errorf ''API key expired'' []), am)
          else (Inr (k\<lparr>ak_LastUsedAt := now\<rparr>),
                am\<lparr>am_heap := (am_heap am)[r := k\<lparr>ak_LastUsedAt := now\<rparr>]\<rparr>))"
  using scan_registered(1) [OF assms]
  by (auto simp: ValidateAPIKey_def validate_scan_def validate_commit_def Let_def cloneKey_def
      split: option.splits)

lemma AMAuthenticate_eq:
  assumes "am_inv am"
  shows "AMAuthenticate cmp order now am key =
    (case (if key = [] then None else scan_keys cmp key am order) of
       None \<Rightarrow> (([], [], False), am)
     | Some r \<Rightarrow>
         let k = am_heap am ! r in
         if after_expiry now k then (([], [], False), am)
         else ((ak_Permissions k, ak_ID k, True),
               am\<lparr>am_heap := (am_heap am)[r := k\<lparr>ak_LastUsedAt := now\<rparr>]\<rparr>))"
  by (auto simp: AMAuthenticate_def ValidateAPIKey_eq [OF assms] Let_def split: option.splits)

lemma touch_fields:
  fixes r j :: nat
  assumes "xs' = xs[r := (xs ! r)\<lparr>ak_LastUsedAt := now\<rparr>]"
  shows "ak_HashedKey (xs' ! j) = ak_HashedKey (xs ! j)" "ak_ID (xs' ! j) = ak_ID (xs ! j)"
    "ak_Permissions (xs' ! j) = ak_Permissions (xs ! j)" "ak_ExpiresAt (xs' ! j) = ak_ExpiresAt (xs ! j)"
proof -
  have "xs' ! j = (if j = r \<and> r < length xs then (xs ! r)\<lparr>ak_LastUsedAt := now\<rparr> else xs ! j)"
    unfolding assms by (auto simp: nth_update_if)
  then show "ak_HashedKey (xs' ! j) = ak_HashedKey (xs ! j)" "ak_ID (xs' ! j) = ak_ID (xs ! j)"
    "ak_Permissions (xs' ! j) = ak_Permissions (xs ! j)" "ak_ExpiresAt (xs' ! j) = ak_ExpiresAt (xs ! j)"
    by simp_all
qed

lemma AMAuthenticate_stable:
  assumes "am_inv am"
  shows "fst (AMAuthenticate cmp order now (snd (AMAuthenticate cmp order now am k)) k') =
    fst (AMAuthenticate cmp order now am k')"
proof -
  let ?am = "snd (AMAuthenticate cmp order now am k)"
  have "?am = am \<or> (\<exists>r. ?am = am\<lparr>am_heap := (am_heap am)[r := (am_heap am ! r)\<lparr>ak_LastUsedAt := now\<rparr>]\<rparr>)"
    by (auto simp: AMAuthenticate_eq [OF assms] Let_def split: option.splits)
  then consider "?am = am"
    | r where "?am = am\<lparr>am_heap := (am_heap am)[r := (am_heap am ! r)\<lparr>ak_LastUsedAt := now\<rparr>]\<rparr>"
    by blast
  then show ?thesis
  proof cases
    case 2
    note F = touch_fields [of "am_heap ?am" "am_heap am" r now]
    have heap: "am_heap ?am = (am_heap am)[r := (am_heap am ! r)\<lparr>ak_LastUsedAt := now\<rparr>]" using 2 by simp
    have inv: "am_inv ?am"
      using am_inv_Validate [OF assms, of cmp order now k]
      by (auto simp: AMAuthenticate_def split: prod.splits sum.splits)
    have scan: "scan_keys cmp k' ?am order = scan_keys cmp k' am order"
      using 2 F(1) [OF heap] by (intro scan_keys_cong) simp_all
    show ?thesis
      unfolding AMAuthenticate_eq [OF inv, of cmp order now k'] AMAuthenticate_eq [OF assms, of cmp order now k'] scan
      by (simp add: Let_def after_expiry_def F(2-4) [OF heap] split: option.splits)
  qed simp
qed

lemma AMAuthenticate_inv: "am_inv am \<Longrightarrow> am_inv (snd (AMAuthenticate cmp order now am k))"
  using am_inv_Validate [of am cmp order now k]
  by (auto simp: AMAuthenticate_def split: prod.splits sum.splits)

interpretation am: auth_provider am_inv "AMValidateKey cmp order now" "AMAuthenticate cmp order now"
  for cmp order now
proof
  fix s k k'
  assume inv: "am_inv s"
  show "AMValidateKey cmp order now s k = snd (snd (fst (AMAuthenticate cmp order now s k)))"
    by (auto simp: AMValidateKey_def AMAuthenticate_def split: prod.splits sum.splits)
  show "\<not> AMValidateKey cmp order now s []"
    by (simp add: AMValidateKey_def ValidateAPIKey_def validate_scan_def)
  show "am_inv (snd (AMAuthenticate cmp order now s k))" using inv by (rule AMAuthenticate_inv)
  show "fst (AMAuthenticate cmp order now (snd (AMAuthenticate cmp order now s k)) k') =
      fst (AMAuthenticate cmp order now s k')" using inv by (rule AMAuthenticate_stable)
  show "fst (AMAuthenticate cmp order now s k) = ([], [], False)"
    if "\<not> snd (snd (fst (AMAuthenticate cmp order now s k)))"
    using that by (auto simp: AMAuthenticate_def split: prod.splits sum.splits)
qed

text \<open>For configured keys the visiting order must visit every key, and no empty key is stored.\<close>

definition sa_inv :: "string list \<Rightarrow> simple_auth \<Rightarrow> bool" where
  "sa_inv order sap \<longleftrightarrow> dom (sa_validKeys sap) \<subseteq> set order \<and> sa_validKeys sap [] = None"

interpretation sa: auth_provider "sa_inv order" "SValidateKey order" SAuthenticate for order
  by unfold_locales
    (auto simp: sa_inv_def SValidateKey_def SAuthenticate_def list_ex_iff split: option.splits)


section \<open>Properties\<close>

text \<open>The calls other goroutines may run between the two halves of a validation.\<close>

inductive auth_step :: "auth_manager \<Rightarrow> auth_manager \<Rightarrow> bool" where
  add: "auth_step am (snd (AddAPIKey gen i nm key perms expires now am))"
| load: "auth_step am (LoadAPIKey k am)"
| revoke: "auth_step am (snd (RevokeAPIKey i am))"
| expiry: "auth_step am (snd (SetKeyExpiry i expires am))"
| commit: "auth_step am (snd (validate_commit r now am))"

lemma auth_step_keeps:
  "auth_step am am' \<Longrightarrow> r < length (am_heap am) \<Longrightarrow>
   r < length (am_heap am') \<and> ak_HashedKey (am_heap am' ! r) = ak_HashedKey (am_heap am ! r)
   \<and> ak_ID (am_heap am' ! r) = ak_ID (am_heap am ! r)
   \<and> ak_Permissions (am_heap am' ! r) = ak_Permissions (am_heap am ! r)"
  by (induction rule: auth_step.induct)
    (auto simp: AddAPIKey_def LoadAPIKey_def store_key_def RevokeAPIKey_def SetKeyExpiry_def
      validate_commit_def Let_def nth_append nth_update_if split: sum.splits option.splits)

lemma auth_steps_keep:
  "auth_step\<^sup>*\<^sup>* am am' \<Longrightarrow> r < length (am_heap am) \<Longrightarrow>
   r < length (am_heap am') \<and> ak_HashedKey (am_heap am' ! r) = ak_HashedKey (am_heap am ! r)
   \<and> ak_ID (am_heap am' ! r) = ak_ID (am_heap am ! r)
   \<and> ak_Permissions (am_heap am' ! r) = ak_Permissions (am_heap am ! r)"
  by (induction rule: rtranclp_induct) (auto dest: auth_step_keeps)

lemma validate_scan_Inr:
  "validate_scan cmp key now order am = Inr r \<longleftrightarrow>
     key \<noteq> [] \<and> scan_keys cmp key am order = Some r \<and> \<not> after_expiry now (am_heap am ! r)"
  by (auto simp: validate_scan_def split: option.splits if_splits)

text \<open>C7. A key that authenticates is registered at the moment it is accepted, whatever was
  added, replaced, revoked or re-dated since the scan: the returned record is that of the very
  object the hash was compared with, still registered under its id and not expired, so a key
  revoked or replaced during the comparison is refused.\<close>

theorem authenticated_key_registered:
  assumes "am_inv am" "validate_scan cmp key t0 order am = Inr r" "auth_step\<^sup>*\<^sup>* am am'"
    and "validate_commit r t1 am' = (Inr k, am'')"
  shows "key \<noteq> [] \<and> am_keys am' (ak_ID k) = Some r \<and> cmp (ak_HashedKey (am_heap am' ! r)) key
    \<and> \<not> after_expiry t1 (am_heap am' ! r) \<and> ak_ID k = ak_ID (am_heap am ! r)
    \<and> ak_Permissions k = ak_Permissions (am_heap am ! r)"
proof -
  from assms(2) have scan: "key \<noteq> []" "scan_keys cmp key am order = Some r"
    by (simp_all add: validate_scan_Inr)
  note R = scan_registered [OF assms(1) scan(2)]
  note K = auth_steps_keep [OF assms(3) R(2)]
  from assms(4) have C: "am_keys am' (ak_ID (am_heap am' ! r)) = Some r"
    "\<not> after_expiry t1 (am_heap am' ! r)" "k = (am_heap am' ! r)\<lparr>ak_LastUsedAt := t1\<rparr>"
    by (auto simp: validate_commit_def Let_def cloneKey_def split: if_splits)
  from scan(1) R(3) K C show ?thesis by simp
qed

definition demo_gen :: "string \<Rightarrow> string go_result" where
  "demo_gen k = (if length k \<le> 72 then Inr (CHR ''$'' # k)
                 else Inl (Errorf ''bcrypt: password length exceeds 72 bytes'' []))"

definition demo_cmp :: "string \<Rightarrow> string \<Rightarrow> bool" where
  "demo_cmp h k \<longleftrightarrow> h = CHR ''$'' # k"

definition demo_am :: auth_manager where
  "demo_am = snd (AddAPIKey demo_gen ''k1'' ''ci'' ''hsp_x'' [''read''] None 5 NewAuthManager)"

theorem authenticated_key_registered_witness:
  "am_keys demo_am ''k1'' = Some 0 \<and> demo_cmp (ak_HashedKey (am_heap demo_am ! 0)) ''hsp_x''"
proof -
  have inv: "am_inv demo_am" unfolding demo_am_def by (intro am_inv_ops(1) am_inv_New)
  have scan: "validate_scan demo_cmp ''hsp_x'' 6 [''k1''] demo_am = Inr 0" by code_simp
  have "fst (validate_commit 0 7 demo_am) = Inr (ak_LastUsedAt_update (\<lambda>_. 7) (am_heap demo_am ! 0))"
    by (simp add: validate_commit_def demo_am_def AddAPIKey_def HashAPIKey_def demo_gen_def
        store_key_def NewAuthManager_def after_expiry_def cloneKey_def Let_def)
  then obtain am'' where "validate_commit 0 7 demo_am =
      (Inr (ak_LastUsedAt_update (\<lambda>_. 7) (am_heap demo_am ! 0)), am'')"
    by (metis prod.collapse)
  from authenticated_key_registered [OF inv scan rtranclp.rtrancl_refl this]
  show ?thesis
    by (simp add: demo_am_def AddAPIKey_def HashAPIKey_def demo_gen_def store_key_def NewAuthManager_def)
qed

text \<open>Both key stores answer as the interface promises: asking whether a key is valid and
  authenticating with it agree, the empty key is refused, a refusal carries no permissions and
  no identifier, and a run of authentications answers every key as the initial store would (use
  of one key never changes the answer for another).\<close>

theorem auth_providers_agree:
  assumes "am_inv am" "sa_inv sorder sap"
  shows "(AMValidateKey cmp order now am k \<longleftrightarrow> snd (snd (fst (AMAuthenticate cmp order now am k))))
    \<and> (SValidateKey sorder sap k \<longleftrightarrow> snd (snd (fst (SAuthenticate sap k))))
    \<and> fst (AMAuthenticate cmp order now am []) = ([], [], False)
    \<and> fst (SAuthenticate sap []) = ([], [], False)
    \<and> fst (AMAuthenticate cmp order now (snd (AMAuthenticate cmp order now am k)) k') =
        fst (AMAuthenticate cmp order now am k')"
  using am.agree [OF assms(1)] sa.agree [OF assms(2)] am.empty_refused [OF assms(1)]
    sa.empty_refused [OF assms(2)] am.stable [OF assms(1)] by blast

theorem auth_providers_agree_witness:
  "AMValidateKey demo_cmp [''k1''] 6 demo_am ''hsp_x''
   \<and> snd (snd (fst (AMAuthenticate demo_cmp [''k1''] 6 demo_am ''hsp_x'')))"
proof -
  have "am_inv demo_am" unfolding demo_am_def by (intro am_inv_ops(1) am_inv_New)
  moreover have "sa_inv [] \<lparr>sa_validKeys = Map.empty, sa_next = 0\<rparr>" by (simp add: sa_inv_def)
  moreover have "AMValidateKey demo_cmp [''k1''] 6 demo_am ''hsp_x''" by code_simp
  ultimately show ?thesis using auth_providers_agree by blast
qed


text \<open>The identifier of a configured key is its rank among the distinct non-empty keys, in the
  order they were configured.\<close>

definition simple_keys :: "string list \<Rightarrow> string list" where
  "simple_keys keys = fold (\<lambda>key ks. if key = [] \<or> key \<in> set ks then ks else ks @ [key]) keys []"

definition rank_map :: "string list \<Rightarrow> string \<rightharpoonup> string" where
  "rank_map ks = map_of (zip ks (map (\<lambda>i. key_label (Suc i)) [0..<length ks]))"

lemma rank_map_None_iff: "rank_map ks key = None \<longleftrightarrow> key \<notin> set ks"
  by (simp add: rank_map_def map_of_zip_is_None)

lemma rank_map_snoc:
  assumes "key \<notin> set ks"
  shows "rank_map (ks @ [key]) = (rank_map ks)(key \<mapsto> key_label (Suc (length ks)))"
proof -
  have "rank_map (ks @ [key]) = [key \<mapsto> key_label (Suc (length ks))] ++ rank_map ks"
    by (simp add: rank_map_def)
  then show ?thesis
    using assms rank_map_None_iff [of ks key]
    by (intro ext) (auto simp: map_add_def split: option.splits)
qed

lemma simple_keys_distinct: "distinct (simple_keys keys)" "[] \<notin> set (simple_keys keys)"
  "set (simple_keys keys) = set keys - {[]}"
proof -
  have "distinct ks \<Longrightarrow> [] \<notin> set ks \<Longrightarrow>
      distinct (fold (\<lambda>key ks. if key = [] \<or> key \<in> set ks then ks else ks @ [key]) keys ks)
      \<and> set (fold (\<lambda>key ks. if key = [] \<or> key \<in> set ks then ks else ks @ [key]) keys ks)
        = set ks \<union> (set keys - {[]})" for ks
    by (induction keys arbitrary: ks) auto
  from this [of "[]"] show "distinct (simple_keys keys)" "[] \<notin> set (simple_keys keys)"
    "set (simple_keys keys) = set keys - {[]}" by (simp_all add: simple_keys_def)
qed

lemma NewSimpleAuthProvider_eq:
  "NewSimpleAuthProvider keys =
     \<lparr>sa_validKeys = rank_map (simple_keys keys), sa_next = length (simple_keys keys)\<rparr>"
proof -
  let ?step = "\<lambda>key (m, n). if key = [] then (m, n) else if m key \<noteq> None then (m, n)
    else (m(key \<mapsto> key_label (Suc n)), Suc n)"
  let ?ks = "\<lambda>key ks. if key = [] \<or> key \<in> set ks then ks else ks @ [key]"
  have "fold ?step keys (rank_map ks, length ks) =
      (rank_map (fold ?ks keys ks), length (fold ?ks keys ks))" for ks
  proof (induction keys arbitrary: ks)
    case (Cons key keys)
    have "?step key (rank_map ks, length ks) = (rank_map (?ks key ks), length (?ks key ks))"
      by (simp add: rank_map_None_iff rank_map_snoc)
    with Cons [of "?ks key ks"] show ?case by (simp only: fold_simps o_apply)
  qed simp
  from this [of "[]"] show ?thesis
    by (simp add: NewSimpleAuthProvider_def simple_keys_def rank_map_def split: prod.splits)
qed

lemma rank_map_nth: "distinct ks \<Longrightarrow> i < length ks \<Longrightarrow> rank_map ks (ks ! i) = Some (key_label (Suc i))"
  using map_of_zip_nth [of ks "map (\<lambda>i. key_label (Suc i)) [0..<length ks]" i]
  by (simp add: rank_map_def)

lemma key_label_inj [simp]: "key_label m = key_label n \<longleftrightarrow> m = n"
  by (simp add: key_label_def)

text \<open>A provider built from a list of configured keys accepts exactly the non-empty keys of
  the list, with every permission, and names the n-th distinct one config-key-n: the identifier
  depends on the list alone, and two different keys never share one.\<close>

theorem configured_keys_language:
  "(snd (snd (fst (SAuthenticate (NewSimpleAuthProvider keys) k))) \<longleftrightarrow> k \<noteq> [] \<and> k \<in> set keys)
   \<and> (\<forall>i < length (simple_keys keys).
        fst (SAuthenticate (NewSimpleAuthProvider keys) (simple_keys keys ! i)) =
          ([''*''], key_label (Suc i), True))
   \<and> (\<forall>i j. key_label i = key_label j \<longrightarrow> i = j)"
proof -
  have "fst (SAuthenticate (NewSimpleAuthProvider keys) k) =
      (case rank_map (simple_keys keys) k of None \<Rightarrow> ([], [], False) | Some i \<Rightarrow> ([''*''], i, True))" for k
    by (simp add: SAuthenticate_def NewSimpleAuthProvider_eq split: option.splits)
  then show ?thesis
    using simple_keys_distinct [of keys] rank_map_None_iff [of "simple_keys keys" k]
    by (auto simp: rank_map_nth split: option.splits)
qed

theorem configured_keys_language_witness:
  "fst (SAuthenticate (NewSimpleAuthProvider [''a'', [], ''b'', ''a'']) ''b'') = ([''*''], ''config-key-2'', True)"
proof -
  let ?keys = "[''a'', [], ''b'', ''a'']"
  have ks: "simple_keys ?keys = [''a'', ''b'']" by code_simp
  have "fst (SAuthenticate (NewSimpleAuthProvider ?keys) (simple_keys ?keys ! 1)) =
      ([''*''], key_label (Suc 1), True)"
    using configured_keys_language [of ?keys] ks by (metis length_Cons lessI list.size(3) One_nat_def)
  moreover have "key_label (Suc 1) = ''config-key-2''" by code_simp
  ultimately show ?thesis unfolding ks by simp
qed


lemma raw_url_encode_length:
  "length (raw_url_encode bs) = 4 * (length bs div 3) + (case length bs mod 3 of 0 \<Rightarrow> 0 | Suc 0 \<Rightarrow> 2 | _ \<Rightarrow> 3)"
proof (induction bs rule: raw_url_encode.induct)
  case (4 a b c bs)
  have "length (a # b # c # bs) div 3 = Suc (length bs div 3)"
    "length (a # b # c # bs) mod 3 = length bs mod 3" by simp_all
  with 4 show ?case by simp
qed simp_all

lemma b64_char_inj: "m < 64 \<Longrightarrow> n < 64 \<Longrightarrow> b64_char m = b64_char n \<longleftrightarrow> m = n"
proof -
  have "distinct b64url" "length b64url = 64" by code_simp+
  then show "m < 64 \<Longrightarrow> n < 64 \<Longrightarrow> b64_char m = b64_char n \<longleftrightarrow> m = n"
    by (simp add: b64_char_def nth_eq_iff_index_eq)
qed

lemma b64_char_in: "b64_char n \<in> set b64url"
proof -
  have "length b64url = 64" by code_simp
  then show ?thesis unfolding b64_char_def by (intro nth_mem) simp
qed

lemma sextets_mix:
  fixes a b a' b' :: nat
  assumes "x < m" "x' < m" "a * m + x = a' * m + x'"
  shows "a = a' \<and> x = x'"
  using assms by (metis add_diff_cancel_left' div_mult_self3 mult.commute add.commute mod_mult_self3
      mod_less div_less add_0_right bot_nat_0.not_eq_extremum not_less0)


lemma div_mod_eqI: "(a::nat) div m = a' div m \<Longrightarrow> a mod m = a' mod m \<Longrightarrow> a = a'"
  by (metis div_mult_mod_eq)

lemma sextets:
  fixes a b a' b' :: nat
  assumes "a < 256" "a' < 256" "b < 256" "b' < 256"
  shows "b64_char (a div 4) = b64_char (a' div 4) \<Longrightarrow> a div 4 = a' div 4"
    "b64_char (a mod 4 * 16 + b div 16) = b64_char (a' mod 4 * 16 + b' div 16) \<Longrightarrow>
       a mod 4 = a' mod 4 \<and> b div 16 = b' div 16"
    "b64_char (a mod 16 * 4 + b div 64) = b64_char (a' mod 16 * 4 + b' div 64) \<Longrightarrow>
       a mod 16 = a' mod 16 \<and> b div 64 = b' div 64"
    "b64_char (a mod 64) = b64_char (a' mod 64) \<Longrightarrow> a mod 64 = a' mod 64"
proof -
  have lt: "a mod 4 < 4" "a' mod 4 < 4" "b div 16 < 16" "b' div 16 < 16" "a mod 16 < 16"
    "a' mod 16 < 16" "b div 64 < 4" "b' div 64 < 4" using assms by simp_all
  show "b64_char (a div 4) = b64_char (a' div 4) \<Longrightarrow> a div 4 = a' div 4"
    using assms by (subst (asm) b64_char_inj) simp_all
  show "b64_char (a mod 64) = b64_char (a' mod 64) \<Longrightarrow> a mod 64 = a' mod 64"
    by (subst (asm) b64_char_inj) simp_all
  show "a mod 4 = a' mod 4 \<and> b div 16 = b' div 16"
    if "b64_char (a mod 4 * 16 + b div 16) = b64_char (a' mod 4 * 16 + b' div 16)"
  proof (rule sextets_mix)
    show "a mod 4 * 16 + b div 16 = a' mod 4 * 16 + b' div 16"
      using that lt(1-4) by (subst (asm) b64_char_inj) linarith+
  qed (use lt in simp_all)
  show "a mod 16 = a' mod 16 \<and> b div 64 = b' div 64"
    if "b64_char (a mod 16 * 4 + b div 64) = b64_char (a' mod 16 * 4 + b' div 64)"
  proof (rule sextets_mix)
    show "a mod 16 * 4 + b div 64 = a' mod 16 * 4 + b' div 64"
      using that lt(5-8) by (subst (asm) b64_char_inj) linarith+
  qed (use lt in simp_all)
qed

lemma raw_url_encode_inj:
  "length bs = length bs' \<Longrightarrow> \<forall>b \<in> set bs. b < 256 \<Longrightarrow> \<forall>b \<in> set bs'. b < 256 \<Longrightarrow>
   raw_url_encode bs = raw_url_encode bs' \<Longrightarrow> bs = bs'"
proof (induction bs arbitrary: bs' rule: raw_url_encode.induct)
  case (2 a)
  then obtain a' where bs': "bs' = [a']" by (auto simp: Suc_length_conv length_Suc_conv)
  with 2 show ?case
    using sextets(1) [of a a' 0 0] sextets(2) [of a a' 0 0] div_mod_eqI [of a 4 a'] by simp
next
  case (3 a b)
  then obtain a' b' where bs': "bs' = [a', b']" by (auto simp: Suc_length_conv length_Suc_conv)
  with 3 show ?case
    using sextets(1,2) [of a a' b b'] sextets(3) [of b b' 0 0] div_mod_eqI [of a 4 a']
      div_mod_eqI [of b 16 b'] by simp
next
  case (4 a b c bs)
  then obtain a' b' c' cs where bs': "bs' = a' # b' # c' # cs" by (auto simp: Suc_length_conv length_Suc_conv)
  from 4 bs' have rest: "bs = cs" by auto
  from 4 bs' have lt: "a < 256" "a' < 256" "b < 256" "b' < 256" "c < 256" "c' < 256" by auto
  from 4 bs' have eq: "b64_char (a div 4) = b64_char (a' div 4)"
    "b64_char (a mod 4 * 16 + b div 16) = b64_char (a' mod 4 * 16 + b' div 16)"
    "b64_char (b mod 16 * 4 + c div 64) = b64_char (b' mod 16 * 4 + c' div 64)"
    "b64_char (c mod 64) = b64_char (c' mod 64)" by simp_all
  have "a = a'" "b = b'" "c = c'"
    using sextets(1,2) [of a a' b b'] sextets(3) [of b b' c c'] sextets(4) [of c c' 0 0] lt eq
    by (auto intro: div_mod_eqI)
  with rest bs' show ?case by simp
qed simp

text \<open>A generated key is the fixed prefix followed by 43 characters of the URL-safe base64
  alphabet, and two different draws of 32 random bytes give two different keys: the encoding
  loses none of the 256 bits.\<close>

theorem GenerateAPIKey_format:
  assumes "length bs = 32" "\<forall>b \<in> set bs. b < 256" "GenerateAPIKey (Inr bs) = Inr key"
  shows "length key = 47 \<and> HasPrefix key APIKeyPrefix \<and> set (drop 4 key) \<subseteq> set b64url
    \<and> (\<forall>bs'. length bs' = 32 \<longrightarrow> (\<forall>b \<in> set bs'. b < 256) \<longrightarrow>
         GenerateAPIKey (Inr bs') = Inr key \<longrightarrow> bs' = bs)"
proof (intro conjI allI impI)
  from assms(3) have key: "key = APIKeyPrefix @ raw_url_encode bs" by (simp add: GenerateAPIKey_def)
  have chars: "set (raw_url_encode cs) \<subseteq> set b64url" for cs
    by (induction cs rule: raw_url_encode.induct) (simp_all add: b64_char_in)
  have "(32::nat) div 3 = 10" "(32::nat) mod 3 = Suc (Suc 0)" by simp_all
  then have "length (raw_url_encode bs) = 43" by (simp add: raw_url_encode_length assms(1))
  then show "length key = 47" by (simp add: key APIKeyPrefix_def)
  show "HasPrefix key APIKeyPrefix" by (simp add: key)
  show "set (drop 4 key) \<subseteq> set b64url" using chars by (simp add: key APIKeyPrefix_def)
  show "bs' = bs" if "length bs' = 32" "\<forall>b \<in> set bs'. b < 256" "GenerateAPIKey (Inr bs') = Inr key" for bs'
    using that assms(1,2) key by (intro raw_url_encode_inj) (simp_all add: GenerateAPIKey_def)
qed

theorem GenerateAPIKey_format_witness:
  "\<exists>key. GenerateAPIKey (Inr (replicate 32 7)) = Inr key \<and> length key = 47"
  using GenerateAPIKey_format [of "replicate 32 7"] by (simp add: GenerateAPIKey_def)

end
