(* ===== verification/Middleware.thy ===== *)
theory Middleware
  imports Auth NetIP Complex_Main
begin

text \<open>
  \<open>internal/api/middleware.go\<close>: the chain every HTTP request passes. A handler maps a request,
  the response written so far and the server state to the panic it raised (if any), the response
  and the state; a middleware maps handlers to handlers, and \<open>withMiddleware\<close> composes them in
  the order of the source.

  The token buckets of \<open>golang.org/x/time/rate\<close> are code outside the repository: their three
  operations are the record \<open>limiter_ops\<close>, whose clock stands still within one request. The
  authentication provider is the function of the \<open>AuthProvider\<close> interface. The metrics and the
  audit log of \<open>internal/security\<close> are one list of events; the request log is left out.
\<close>

section \<open>Requests, responses and the server\<close>

text \<open>\<open>Header.Get\<close> of an absent header is the empty string. The context values are the
  permissions and the key identifier.\<close>

record http_request =
  rq_Method :: string
  rq_Path :: string
  rq_RemoteAddr :: string
  rq_Header :: "string \<Rightarrow> string"
  rq_permissions :: "string list option"
  rq_apiKeyID :: "string option"
  rq_bodyLimit :: "nat option"

record response =
  rs_Header :: "string \<Rightarrow> string list"
  rs_status :: "nat option"
  rs_body :: "string list"

datatype sec_event =
    RateLimitViolation string
  | LogRateLimitExceeded string string
  | AuthAttempt bool string
  | APIKeyUsage string
  | LogAuthFailure string string
  | LogAuthSuccess string string
  | RequestRecorded bool
  | SuspiciousActivity string string nat

record server_config =
  cf_EnableAuth :: bool
  cf_MetricsPublic :: bool
  cf_AllowedOrigins :: "string list"
  cf_EnableRateLimit :: bool
  cf_RequestsPerSecond :: int
  cf_BurstSize :: int
  cf_TLSCert :: string
  cf_TLSKey :: string
  cf_TrustedProxies :: "string list"

record ('l, 'a) server =
  sv_auth :: 'a
  sv_rateLimiters :: "string \<rightharpoonup> 'l"
  sv_authRateLimiters :: "string \<rightharpoonup> 'l"
  sv_events :: "sec_event list"

record 'l limiter_ops =
  lim_new :: "rat \<Rightarrow> int \<Rightarrow> 'l"
  lim_allow :: "'l \<Rightarrow> bool \<times> 'l"
  lim_tokens :: "'l \<Rightarrow> rat"

type_synonym ('l, 'a) handler =
  "http_request \<Rightarrow> response \<times> ('l, 'a) server \<Rightarrow> string option \<times> response \<times> ('l, 'a) server"

definition log_event :: "sec_event \<Rightarrow> ('l, 'a) server \<Rightarrow> ('l, 'a) server" where
  "log_event e s = s\<lparr>sv_events := sv_events s @ [e]\<rparr>"

definition set_header :: "string \<Rightarrow> string \<Rightarrow> response \<Rightarrow> response" where
  "set_header k v w = w\<lparr>rs_Header := (rs_Header w)(k := [v])\<rparr>"

definition add_header :: "string \<Rightarrow> string \<Rightarrow> response \<Rightarrow> response" where
  "add_header k v w = w\<lparr>rs_Header := (rs_Header w)(k := rs_Header w k @ [v])\<rparr>"

definition del_header :: "string \<Rightarrow> response \<Rightarrow> response" where
  "del_header k w = w\<lparr>rs_Header := (rs_Header w)(k := [])\<rparr>"

text \<open>Only the first \<open>WriteHeader\<close> counts; a write commits 200.\<close>

definition WriteHeader :: "nat \<Rightarrow> response \<Rightarrow> response" where
  "WriteHeader code w = (if rs_status w = None then w\<lparr>rs_status := Some code\<rparr> else w)"

definition write_body :: "string \<Rightarrow> response \<Rightarrow> response" where
  "write_body b w = (WriteHeader 200 w)\<lparr>rs_body := rs_body w @ [b]\<rparr>"

definition writeJSON :: "nat \<Rightarrow> string \<Rightarrow> response \<Rightarrow> response" where
  "writeJSON code body w =
     write_body body (WriteHeader code (set_header ''Content-Type'' ''application/json'' w))"

definition writeError :: "nat \<Rightarrow> string \<Rightarrow> response \<Rightarrow> response" where
  "writeError code msg w = writeJSON code msg w"

section \<open>Permissions\<close>

definition hasPerm :: "string list \<Rightarrow> string \<Rightarrow> bool" where
  "hasPerm perms required \<longleftrightarrow> list_ex (\<lambda>p. p = ''*'' \<or> p = required) perms"

definition request_has_permission :: "http_request \<Rightarrow> string \<Rightarrow> bool" where
  "request_has_permission r permission =
     (case rq_permissions r of None \<Rightarrow> False | Some perms \<Rightarrow> hasPerm perms permission)"

definition path_segments :: "string \<Rightarrow> string list" where
  "path_segments path = split_on CHR ''/'' (trim [CHR ''/''] path)"

definition requiredPermission :: "string \<Rightarrow> string \<Rightarrow> string" where
  "requiredPermission meth path =
     (let segs = path_segments path;
          isAPI = (length segs \<ge> 3 \<and> segs ! 0 = ''api'' \<and> segs ! 1 = ''v1'')
      in
      if isAPI \<and> segs ! 2 = ''auth'' then ''admin''
      else if isAPI \<and> segs ! 2 = ''instances'' \<and> length segs \<ge> 5
              \<and> (segs ! 4 = ''exec'' \<or> segs ! 4 = ''console'') then ''exec''
      else if isAPI \<and> segs ! 2 = ''console'' then ''exec''
      else if meth = ''GET'' \<or> meth = ''HEAD'' \<or> meth = ''OPTIONS'' then ''read''
      else ''write'')"

section \<open>The client address\<close>

definition trusted_net :: "string \<Rightarrow> ipnet option" where
  "trusted_net cidr =
     (if CHR ''/'' \<in> set cidr then map_option snd (ParseCIDR cidr)
      else (case ParseIP cidr of
              None \<Rightarrow> None
            | Some ip \<Rightarrow>
                let bits = (if To4 ip then 32 else 128) in
                Some \<lparr>net_ip = ip, net_ones = bits, net_bits = bits\<rparr>))"

definition isTrustedProxy :: "server_config \<Rightarrow> string \<Rightarrow> bool" where
  "isTrustedProxy cf addr =
     (case ParseIP addr of
        None \<Rightarrow> False
      | Some ip \<Rightarrow>
          list_ex (\<lambda>cidr. case trusted_net cidr of None \<Rightarrow> False | Some n \<Rightarrow> net_contains n ip)
            (cf_TrustedProxies cf))"

text \<open>The walk over the hops of \<open>X-Forwarded-For\<close>, from the last one.\<close>

fun walk_hops :: "server_config \<Rightarrow> string list \<Rightarrow> string option" where
  "walk_hops cf [] = None"
| "walk_hops cf (h # hs) =
     (let hop = trim_space h in
      if ParseIP hop = None then None
      else if \<not> isTrustedProxy cf hop then Some hop
      else walk_hops cf hs)"

definition extractClientIP :: "server_config \<Rightarrow> http_request \<Rightarrow> string" where
  "extractClientIP cf r =
     (let remoteIP = (case SplitHostPort (rq_RemoteAddr r) of
                        None \<Rightarrow> rq_RemoteAddr r | Some (h, _) \<Rightarrow> h);
          forwarded = rq_Header r ''X-Forwarded-For'';
          realIP = rq_Header r ''X-Real-Ip''
      in
      if cf_TrustedProxies cf = [] then remoteIP
      else if isTrustedProxy cf remoteIP then
        (case (if forwarded \<noteq> [] then walk_hops cf (rev (split_on CHR '','' forwarded)) else None) of
           Some hop \<Rightarrow> hop
         | None \<Rightarrow> if realIP \<noteq> [] \<and> ParseIP realIP \<noteq> None then realIP else remoteIP)
      else remoteIP)"

section \<open>The middlewares\<close>

definition isWebSocketHandshake :: "http_request \<Rightarrow> bool" where
  "isWebSocketHandshake r \<longleftrightarrow>
     rq_Method r = ''GET'' \<and> equal_fold (rq_Header r ''Upgrade'') ''websocket''
     \<and> list_ex (\<lambda>t. equal_fold (trim_space t) ''upgrade'') (split_on CHR '','' (rq_Header r ''Connection''))"

definition bodySizeLimitMiddleware :: "('l, 'a) handler \<Rightarrow> ('l, 'a) handler" where
  "bodySizeLimitMiddleware nxt r ws =
     (if isWebSocketHandshake r then nxt r ws
      else nxt (r\<lparr>rq_bodyLimit := Some (32 * 2 ^ 20)\<rparr>) ws)"

text \<open>The writer is committed when a status has been sent.\<close>

definition recoveryMiddleware :: "('l, 'a) handler \<Rightarrow> ('l, 'a) handler" where
  "recoveryMiddleware nxt r ws =
     (case nxt r ws of
        (None, w, s) \<Rightarrow> (None, w, s)
      | (Some p, w, s) \<Rightarrow>
          if rs_status w \<noteq> None then (Some p, w, s)
          else (None, writeError 500 ''Internal server error'' w, s))"

definition loggingMiddleware :: "server_config \<Rightarrow> ('l, 'a) handler \<Rightarrow> ('l, 'a) handler" where
  "loggingMiddleware cf nxt r ws =
     (let ip = extractClientIP cf r in
      case nxt r ws of
        (Some p, w, s) \<Rightarrow> (Some p, w, s)
      | (None, w, s) \<Rightarrow>
          let code = (case rs_status w of None \<Rightarrow> 200 | Some c \<Rightarrow> c) in
          (None, w,
           (if code = 401 then log_event (LogAuthFailure ip ''unauthorized access attempt'') s
            else if code = 429 then log_event (LogRateLimitExceeded ip (rq_Path r)) s
            else if code = 403 then log_event (SuspiciousActivity ip (rq_Path r) code) s
            else s)))"

definition originAllowed :: "server_config \<Rightarrow> string \<Rightarrow> string option" where
  "originAllowed cf origin =
     (case filter (\<lambda>o'. o' = ''*'' \<or> o' = origin) (cf_AllowedOrigins cf) of
        [] \<Rightarrow> None
      | o' # _ \<Rightarrow> if o' = ''*'' then Some ''*'' else Some origin)"

definition corsMiddleware :: "server_config \<Rightarrow> ('l, 'a) handler \<Rightarrow> ('l, 'a) handler" where
  "corsMiddleware cf nxt r ws =
     (let (w, s) = ws;
          origin = rq_Header r ''Origin'';
          w = (if cf_AllowedOrigins cf \<noteq> [] then add_header ''Vary'' ''Origin'' w else w);
          allowed = originAllowed cf origin;
          w = (case allowed of
                 None \<Rightarrow> w
               | Some h \<Rightarrow>
                   set_header ''Access-Control-Allow-Headers'' ''Content-Type, Authorization, X-API-Key''
                     (set_header ''Access-Control-Allow-Methods''
                       ''GET, HEAD, POST, PUT, PATCH, DELETE, OPTIONS''
                       (set_header ''Access-Control-Allow-Origin'' h w)))
      in
      if rq_Method r = ''OPTIONS'' \<and> origin \<noteq> [] \<and> rq_Header r ''Access-Control-Request-Method'' \<noteq> []
      then (None, WriteHeader (if allowed \<noteq> None then 200 else 403) w, s)
      else nxt r (w, s))"

definition add_security_headers :: "server_config \<Rightarrow> response \<Rightarrow> response" where
  "add_security_headers cf w =
     (let w = (if cf_TLSCert cf \<noteq> [] \<and> cf_TLSKey cf \<noteq> []
               then set_header ''Strict-Transport-Security'' ''max-age=31536000; includeSubDomains; preload'' w
               else w);
          w = set_header ''X-Content-Type-Options'' ''nosniff'' w;
          w = set_header ''X-Frame-Options'' ''DENY'' w;
          w = set_header ''Content-Security-Policy'' (''default-src '' @ [CHR 0x27] @ ''none'' @ [CHR 0x27]
                @ ''; frame-ancestors '' @ [CHR 0x27] @ ''none'' @ [CHR 0x27]) w;
          w = set_header ''Referrer-Policy'' ''no-referrer'' w;
          w = del_header ''Server'' w;
          w = set_header ''Cache-Control'' ''no-store, no-cache, must-revalidate, private'' w
      in set_header ''Pragma'' ''no-cache'' w)"

definition securityHeadersMiddleware :: "server_config \<Rightarrow> ('l, 'a) handler \<Rightarrow> ('l, 'a) handler" where
  "securityHeadersMiddleware cf nxt r ws = (let (w, s) = ws in nxt r (add_security_headers cf w, s))"

section \<open>Rate limits and authentication\<close>

definition authRateLimiterBurst :: int where
  "authRateLimiterBurst = 3"

definition getOrCreateAuthRateLimiter ::
    "'l limiter_ops \<Rightarrow> string \<Rightarrow> ('l, 'a) server \<Rightarrow> 'l \<times> ('l, 'a) server" where
  "getOrCreateAuthRateLimiter lo ip s =
     (case sv_authRateLimiters s ip of
        Some l \<Rightarrow> (l, s)
      | None \<Rightarrow>
          let l = lim_new lo (5 / 60) authRateLimiterBurst in
          (l, s\<lparr>sv_authRateLimiters := (sv_authRateLimiters s)(ip \<mapsto> l)\<rparr>))"

text \<open>\<open>getOrCreateAuthRateLimiter(ip).Allow()\<close>: the limiter object is updated in place.\<close>

definition auth_allow :: "'l limiter_ops \<Rightarrow> string \<Rightarrow> ('l, 'a) server \<Rightarrow> bool \<times> ('l, 'a) server" where
  "auth_allow lo ip s =
     (let (l, s1) = getOrCreateAuthRateLimiter lo ip s;
          (ok, l') = lim_allow lo l
      in (ok, s1\<lparr>sv_authRateLimiters := (sv_authRateLimiters s1)(ip \<mapsto> l')\<rparr>))"

definition authRateLimitExhausted ::
    "'l limiter_ops \<Rightarrow> string \<Rightarrow> ('l, 'a) server \<Rightarrow> bool \<times> ('l, 'a) server" where
  "authRateLimitExhausted lo ip s =
     (let (l, s1) = getOrCreateAuthRateLimiter lo ip s in (lim_tokens lo l < 1, s1))"

text \<open>The closure \<open>verify\<close>: permissions, identifier, whether the key exists, whether the client
  is limited.\<close>

definition auth_verify ::
    "'l limiter_ops \<Rightarrow> ('a \<Rightarrow> string \<Rightarrow> (string list \<times> string \<times> bool) \<times> 'a) \<Rightarrow> string \<Rightarrow> string \<Rightarrow>
     ('l, 'a) server \<Rightarrow> (string list \<times> string \<times> bool \<times> bool) \<times> ('l, 'a) server" where
  "auth_verify lo auth ip key s =
     (let (exhausted, s1) = authRateLimitExhausted lo ip s;
          (ok, s2) = (if exhausted then auth_allow lo ip s1 else (True, s1))
      in
      if exhausted \<and> \<not> ok then (([], [], False, True), s2)
      else
        let ((perms, i, exists), a) = auth (sv_auth s2) key;
            s3 = s2\<lparr>sv_auth := a\<rparr>
        in
        if exists then ((perms, i, True, False), s3)
        else let (ok', s4) = auth_allow lo ip s3 in ((perms, i, False, \<not> ok'), s4))"

definition reject_limited ::
    "http_request \<Rightarrow> string \<Rightarrow> response \<Rightarrow> ('l, 'a) server \<Rightarrow> string option \<times> response \<times> ('l, 'a) server" where
  "reject_limited r ip w s =
     (None, writeError 429 ''Authentication rate limit exceeded'' (set_header ''Retry-After'' ''60'' w),
      log_event (LogRateLimitExceeded ip (rq_Path r)) (log_event (RateLimitViolation ip) s))"

definition public_path :: "server_config \<Rightarrow> string \<Rightarrow> bool" where
  "public_path cf path \<longleftrightarrow>
     path = ''/health''
     \<or> (cf_MetricsPublic cf \<and> (path = ''/metrics'' \<or> path = ''/metrics/prometheus''))"

definition authMiddleware ::
    "server_config \<Rightarrow> 'l limiter_ops \<Rightarrow> ('a \<Rightarrow> string \<Rightarrow> (string list \<times> string \<times> bool) \<times> 'a) \<Rightarrow>
     ('l, 'a) handler \<Rightarrow> ('l, 'a) handler" where
  "authMiddleware cf lo auth nxt r ws =
     (if public_path cf (rq_Path r) then nxt r ws
      else
        let (w, s) = ws; ip = extractClientIP cf r; apiKey = rq_Header r ''X-Api-Key'' in
        if apiKey = [] then
          (let (ok, s1) = auth_allow lo ip s in
           if \<not> ok then reject_limited r ip w s1
           else (None, writeError 401 ''Missing API key'' w,
                 log_event (LogAuthFailure ip ''missing API key'') (log_event (AuthAttempt False ip) s1)))
        else
          let ((perms, i, exists, limited), s1) = auth_verify lo auth ip apiKey s in
          if limited then reject_limited r ip w s1
          else if \<not> exists then
            (None, writeError 401 ''Invalid API key'' w,
             log_event (LogAuthFailure ip ''invalid API key'') (log_event (AuthAttempt False ip) s1))
          else
            let s2 = log_event (LogAuthSuccess ip i) (log_event (APIKeyUsage i)
                       (log_event (AuthAttempt True ip) s1));
                required = requiredPermission (rq_Method r) (rq_Path r)
            in
            if \<not> hasPerm perms required then
              (None, writeError 403 ''Insufficient permissions'' w,
               log_event (LogAuthFailure ip (''insufficient permission: '' @ required)) s2)
            else nxt (r\<lparr>rq_permissions := Some perms, rq_apiKeyID := Some i\<rparr>) (w, s2))"

definition rateLimitMiddleware ::
    "server_config \<Rightarrow> 'l limiter_ops \<Rightarrow> ('l, 'a) handler \<Rightarrow> ('l, 'a) handler" where
  "rateLimitMiddleware cf lo nxt r ws =
     (let (w, s) = ws; ip = extractClientIP cf r;
          l = (case sv_rateLimiters s ip of
                 Some l \<Rightarrow> l
               | None \<Rightarrow> lim_new lo (of_int (cf_RequestsPerSecond cf)) (cf_BurstSize cf));
          (ok, l') = lim_allow lo l;
          s1 = s\<lparr>sv_rateLimiters := (sv_rateLimiters s)(ip \<mapsto> l')\<rparr>
      in
      if \<not> ok then
        (None, writeError 429 ''Rate limit exceeded'' (set_header ''Retry-After'' ''1'' w),
         log_event (LogRateLimitExceeded ip (rq_Path r))
           (log_event (RequestRecorded True) (log_event (RateLimitViolation ip) s1)))
      else nxt r (w, log_event (RequestRecorded False) s1))"

text \<open>One tick of \<open>cleanupRateLimiters\<close>: buckets that have refilled completely are forgotten.\<close>

definition cleanup_tick :: "server_config \<Rightarrow> 'l limiter_ops \<Rightarrow> ('l, 'a) server \<Rightarrow> ('l, 'a) server" where
  "cleanup_tick cf lo s =
     s\<lparr>sv_rateLimiters := (\<lambda>ip. case sv_rateLimiters s ip of
          Some l \<Rightarrow> if lim_tokens lo l \<ge> of_int (cf_BurstSize cf) then None else Some l | None \<Rightarrow> None),
       sv_authRateLimiters := (\<lambda>ip. case sv_authRateLimiters s ip of
          Some l \<Rightarrow> if lim_tokens lo l \<ge> of_int authRateLimiterBurst then None else Some l | None \<Rightarrow> None)\<rparr>"

definition withMiddleware ::
    "server_config \<Rightarrow> 'l limiter_ops \<Rightarrow> ('a \<Rightarrow> string \<Rightarrow> (string list \<times> string \<times> bool) \<times> 'a) \<Rightarrow>
     ('l, 'a) handler \<Rightarrow> ('l, 'a) handler" where
  "withMiddleware cf lo auth h =
     (let h = (if cf_EnableAuth cf then authMiddleware cf lo auth h else h);
          h = loggingMiddleware cf h;
          h = bodySizeLimitMiddleware h;
          h = (if cf_EnableRateLimit cf then rateLimitMiddleware cf lo h else h);
          h = securityHeadersMiddleware cf h;
          h = corsMiddleware cf h
      in recoveryMiddleware h)"

end
