(* ===== verification/Middleware_Thms.thy ===== *)
theory Middleware_Thms
  imports Middleware
begin

text \<open>
  What the middleware chain guarantees: no handler runs for a request that was not authorized,
  the permission a route needs depends on its path segments alone, a client cannot choose the
  address it is limited and audited under, and rejected requests still carry the security
  headers.
\<close>

section \<open>Authorization\<close>

definition authorized :: "server_config \<Rightarrow> http_request \<Rightarrow> bool" where
  "authorized cf r \<longleftrightarrow>
     public_path cf (rq_Path r)
     \<or> (\<exists>perms. rq_permissions r = Some perms
          \<and> hasPerm perms (requiredPermission (rq_Method r) (rq_Path r)))"

lemma auth_verify_exists:
  assumes "auth_verify lo auth ip key s = ((perms, i, True, limited), s')"
  shows "\<exists>a a'. auth a key = ((perms, i, True), a')"
  using assms by (auto simp: auth_verify_def Let_def split: prod.splits if_splits)

text \<open>Either the wrapped handler runs on an authorized request, or it does not run at all.\<close>

lemma authMiddleware_cases:
  obtains (forward) r' w s' where "authorized cf r'"
      "\<And>h. authMiddleware cf lo auth h r ws = h r' (w, s')"
  | (reject) out where "\<And>h. authMiddleware cf lo auth h r ws = out"
proof (cases "public_path cf (rq_Path r)")
  case True
  then show ?thesis
    using forward [of r "fst ws" "snd ws"] by (simp add: authMiddleware_def authorized_def)
next
  case np: False
  obtain w s where ws: "ws = (w, s)" by fastforce
  let ?ip = "extractClientIP cf r" and ?key = "rq_Header r ''X-Api-Key''"
  show ?thesis
  proof (cases "?key = []")
    case True
    show ?thesis
      by (rule reject [of "authMiddleware cf lo auth (\<lambda>_ ws. (None, ws)) r ws"])
        (simp add: authMiddleware_def np ws True)
  next
    case key: False
    obtain perms i exists limited s1 where v: "auth_verify lo auth ?ip ?key s = ((perms, i, exists, limited), s1)"
      by (metis prod.collapse)
    show ?thesis
    proof (cases "limited \<or> \<not> exists \<or> \<not> hasPerm perms (requiredPermission (rq_Method r) (rq_Path r))")
      case True
      then show ?thesis
        by (intro reject [of "authMiddleware cf lo auth (\<lambda>_ ws. (None, ws)) r ws"])
          (auto simp: authMiddleware_def np ws key v Let_def)
    next
      case False
      then show ?thesis
        using forward [of "r\<lparr>rq_permissions := Some perms, rq_apiKeyID := Some i\<rparr>"]
        by (auto simp: authMiddleware_def np ws key v Let_def authorized_def)
    qed
  qed
qed

lemma authMiddleware_cong:
  assumes "\<And>r' ws'. authorized cf r' \<Longrightarrow> h1 r' ws' = h2 r' ws'"
  shows "authMiddleware cf lo auth h1 r ws = authMiddleware cf lo auth h2 r ws"
  by (rule authMiddleware_cases [of cf lo auth r ws]) (simp_all add: assms)

text \<open>C8. With authentication on, what a route handler would do with an unauthorized request can
  never matter: two handlers that agree on every request whose path is public or whose verified
  permissions include the one its method and path require give the same response and the same
  state behind the whole middleware chain, for every request, whatever its headers.\<close>

theorem unauthorized_requests_never_reach_handlers:
  assumes "cf_EnableAuth cf" "\<forall>r' ws'. authorized cf r' \<longrightarrow> h1 r' ws' = h2 r' ws'"
  shows "withMiddleware cf lo auth h1 r ws = withMiddleware cf lo auth h2 r ws"
proof -
  have "authMiddleware cf lo auth h1 = authMiddleware cf lo auth h2"
    using assms(2) by (intro ext authMiddleware_cong) blast
  with assms(1) show ?thesis by (simp add: withMiddleware_def)
qed

definition demo_cf :: server_config where
  "demo_cf = \<lparr>cf_EnableAuth = True, cf_MetricsPublic = False, cf_AllowedOrigins = [],
     cf_EnableRateLimit = False, cf_RequestsPerSecond = 10, cf_BurstSize = 20, cf_TLSCert = [],
     cf_TLSKey = [], cf_TrustedProxies = [''10.0.0.0/8'']\<rparr>"

text \<open>A token bucket whose clock stands still.\<close>

definition demo_limiter :: "nat limiter_ops" where
  "demo_limiter = \<lparr>lim_new = (\<lambda>_ b. nat b),
     lim_allow = (\<lambda>n. case n of 0 \<Rightarrow> (False, 0) | Suc m \<Rightarrow> (True, m)), lim_tokens = of_nat\<rparr>"

theorem unauthorized_requests_never_reach_handlers_witness:
  "\<forall>r ws. withMiddleware demo_cf demo_limiter SAuthenticate
       (\<lambda>r ws. if authorized demo_cf r then (None, ws) else (Some ''reached'', ws)) r ws =
     withMiddleware demo_cf demo_limiter SAuthenticate (\<lambda>r ws. (None, ws)) r ws"
proof (intro allI)
  fix r ws
  have "cf_EnableAuth demo_cf" by (simp add: demo_cf_def)
  then show "withMiddleware demo_cf demo_limiter SAuthenticate
       (\<lambda>r ws. if authorized demo_cf r then (None, ws) else (Some ''reached'', ws)) r ws =
     withMiddleware demo_cf demo_limiter SAuthenticate (\<lambda>r ws. (None, ws)) r ws"
    by (rule unauthorized_requests_never_reach_handlers) simp
qed

lemma limiter_keeps_auth:
  "auth_allow lo ip s = (b, s') \<Longrightarrow> sv_auth s' = sv_auth s"
  "authRateLimitExhausted lo ip s = (b, s') \<Longrightarrow> sv_auth s' = sv_auth s"
  by (auto simp: auth_allow_def authRateLimitExhausted_def getOrCreateAuthRateLimiter_def Let_def
      split: option.splits prod.splits)

lemma authMiddleware_reject:
  assumes "\<not> public_path cf (rq_Path r)" "rq_Header r ''X-Api-Key'' = [] \<or>
      \<not> snd (snd (fst (auth (sv_auth s) (rq_Header r ''X-Api-Key''))))"
    and "rs_status w = None"
  shows "\<exists>w' s'. authMiddleware cf lo auth h r (w, s) = (None, w', s')
     \<and> (rs_status w' = Some 401 \<or> rs_status w' = Some 429)"
proof (cases "rq_Header r ''X-Api-Key'' = []")
  case True
  with assms(1,3) show ?thesis
    by (auto simp: authMiddleware_def reject_limited_def writeError_def writeJSON_def write_body_def
        WriteHeader_def set_header_def Let_def split: prod.splits)
next
  case False
  with assms(2) have bad: "\<not> snd (snd (fst (auth (sv_auth s) (rq_Header r ''X-Api-Key''))))" by simp
  obtain perms i exists limited s1 where
    v: "auth_verify lo auth (extractClientIP cf r) (rq_Header r ''X-Api-Key'') s = ((perms, i, exists, limited), s1)"
    by (metis prod.collapse)
  have "\<not> exists"
    using v bad
    by (auto simp: auth_verify_def Let_def split: prod.splits if_splits
        dest!: limiter_keeps_auth)
  with False assms(1,3) show ?thesis
    by (auto simp: authMiddleware_def Let_def v reject_limited_def writeError_def writeJSON_def
        write_body_def WriteHeader_def set_header_def)
qed

text \<open>A request to a path that is not public, without a key or with a key the provider does
  not know, is answered with status 401 or 429 by the authentication middleware, and the handler
  behind it is not run.\<close>

theorem unauthenticated_rejected:
  assumes "\<not> public_path cf (rq_Path r)" "rs_status w = None"
    and "rq_Header r ''X-Api-Key'' = []
      \<or> \<not> snd (snd (fst (auth (sv_auth s) (rq_Header r ''X-Api-Key''))))"
  shows "\<exists>w' s'. (rs_status w' = Some 401 \<or> rs_status w' = Some 429)
     \<and> authMiddleware cf lo auth (\<lambda>r ws. (Some ''handler ran'', ws)) r (w, s) = (None, w', s')"
  using authMiddleware_reject [of cf r auth s w lo "\<lambda>r ws. (Some ''handler ran'', ws)"] assms by blast

definition demo_request :: "string \<Rightarrow> string \<Rightarrow> (string \<times> string) list \<Rightarrow> http_request" where
  "demo_request meth path hs =
     \<lparr>rq_Method = meth, rq_Path = path, rq_RemoteAddr = ''10.0.0.1:4242'',
      rq_Header = (\<lambda>k. case map_of hs k of None \<Rightarrow> [] | Some v \<Rightarrow> v),
      rq_permissions = None, rq_apiKeyID = None, rq_bodyLimit = None\<rparr>"

definition demo_response :: response where
  "demo_response = \<lparr>rs_Header = (\<lambda>_. []), rs_status = None, rs_body = []\<rparr>"

definition demo_server :: "(nat, simple_auth) server" where
  "demo_server = \<lparr>sv_auth = NewSimpleAuthProvider [''k''], sv_rateLimiters = Map.empty,
     sv_authRateLimiters = Map.empty, sv_events = []\<rparr>"

theorem unauthenticated_rejected_witness:
  "\<exists>w' s'. (rs_status w' = Some 401 \<or> rs_status w' = Some 429)
     \<and> authMiddleware demo_cf demo_limiter SAuthenticate (\<lambda>r ws. (Some ''handler ran'', ws))
         (demo_request ''DELETE'' ''/api/v1/instances/web'' [(''X-Api-Key'', ''guess'')])
         (demo_response, demo_server) = (None, w', s')"
proof (rule unauthenticated_rejected)
  show "\<not> public_path demo_cf (rq_Path (demo_request ''DELETE'' ''/api/v1/instances/web'' [(''X-Api-Key'', ''guess'')]))"
    by (simp add: public_path_def demo_request_def demo_cf_def)
  show "rs_status demo_response = None" by (simp add: demo_response_def)
  show "rq_Header (demo_request ''DELETE'' ''/api/v1/instances/web'' [(''X-Api-Key'', ''guess'')]) ''X-Api-Key'' = []
      \<or> \<not> snd (snd (fst (SAuthenticate (sv_auth demo_server)
           (rq_Header (demo_request ''DELETE'' ''/api/v1/instances/web'' [(''X-Api-Key'', ''guess'')]) ''X-Api-Key''))))"
    by (simp add: demo_request_def demo_server_def SAuthenticate_def NewSimpleAuthProvider_def)
qed


section \<open>The permission of a route\<close>

lemma trim_slash_inner:
  assumes "s \<noteq> []" "hd s \<noteq> CHR ''/''" "last s \<noteq> CHR ''/''"
  shows "trim [CHR ''/''] (CHR ''/'' # s) = s"
proof -
  have "dropWhile (\<lambda>c. c = CHR ''/'') s = s" using assms(1,2) by (cases s) auto
  moreover have "dropWhile (\<lambda>c. c = CHR ''/'') (rev s) = rev s"
    using assms(1,3) by (cases s rule: rev_cases) auto
  ultimately show ?thesis by (simp add: trim_def trim_left_def trim_right_def)
qed

lemma instance_route_segments:
  assumes "i \<noteq> []" "CHR ''/'' \<notin> set i" "sub \<noteq> []" "hd sub \<noteq> CHR ''/''" "last sub \<noteq> CHR ''/''"
  shows "path_segments (''/api/v1/instances/'' @ i @ ''/'' @ sub) =
    ''api'' # ''v1'' # ''instances'' # i # split_on CHR ''/'' sub"
proof -
  let ?s = "''api/v1/instances/'' @ i @ ''/'' @ sub"
  have "trim [CHR ''/''] (CHR ''/'' # ?s) = ?s"
    using assms(3,5) by (intro trim_slash_inner) simp_all
  then have "path_segments (''/api/v1/instances/'' @ i @ ''/'' @ sub) = split_on CHR ''/'' ?s"
    by (simp add: path_segments_def)
  also have "?s = ''api'' @ CHR ''/'' # ''v1'' @ CHR ''/'' # ''instances'' @ CHR ''/'' # i @ CHR ''/'' # sub"
    by simp
  also have "split_on CHR ''/'' \<dots> = ''api'' # ''v1'' # ''instances'' # i # split_on CHR ''/'' sub"
    using assms(2) by (simp add: split_on_append)
  finally show ?thesis .
qed

text \<open>The permission a route under an instance needs never depends on how the instance is
  called: it is exec exactly when the segment after the instance is exec or console, and
  otherwise follows from the HTTP method alone.\<close>

theorem instance_route_permission:
  assumes "i \<noteq> []" "CHR ''/'' \<notin> set i" "sub \<noteq> []" "CHR ''/'' \<notin> set sub"
  shows "requiredPermission meth (''/api/v1/instances/'' @ i @ ''/'' @ sub) =
    (if sub = ''exec'' \<or> sub = ''console'' then ''exec''
     else if meth = ''GET'' \<or> meth = ''HEAD'' \<or> meth = ''OPTIONS'' then ''read'' else ''write'')"
proof -
  have "hd sub \<noteq> CHR ''/''" "last sub \<noteq> CHR ''/''"
    using assms(3,4) by (metis hd_in_set) (metis assms(3,4) last_in_set)
  then have "path_segments (''/api/v1/instances/'' @ i @ ''/'' @ sub) =
      [''api'', ''v1'', ''instances'', i, sub]"
    using instance_route_segments [OF assms(1-3)] split_on_free [OF assms(4)] by simp
  then show ?thesis by (simp only: requiredPermission_def Let_def) simp
qed

theorem instance_route_permission_witness:
  "requiredPermission ''GET'' ''/api/v1/instances/exec-web/snapshots'' = ''read''
   \<and> requiredPermission ''GET'' ''/api/v1/instances/console/exec'' = ''exec''"
  using instance_route_permission [of "''exec-web''" "''snapshots''" "''GET''"]
    instance_route_permission [of "''console''" "''exec''" "''GET''"] by simp

section \<open>The client address\<close>

lemma walk_hops_append:
  assumes "\<exists>h \<in> set hs. ParseIP (trim_space h) = None \<or> \<not> isTrustedProxy cf (trim_space h)"
  shows "walk_hops cf (hs @ hs2) = walk_hops cf hs"
  using assms by (induction hs) (auto simp: Let_def)

lemma split_on_rev_append:
  "split_on d (a @ d # b) = split_on d a @ split_on d b"
proof (induction a)
  case (Cons c a)
  show ?case
  proof (cases "c = d")
    case False
    obtain p ps where "split_on d a = p # ps" by (meson neq_Nil_conv split_on_nonempty)
    with Cons False show ?thesis by simp
  qed (use Cons in simp)
qed simp

text \<open>
  What a client puts at the front of X-Forwarded-For never changes the address it is
  limited and audited under: as soon as the part the proxies appended holds one hop that is not a
  trusted proxy or not an address, everything to the left of it is ignored; and when no proxy is
  configured, or the connection does not come from one, the forwarding headers are ignored
  altogether.\<close>

theorem forwarded_prefix_ignored:
  assumes "\<exists>h \<in> set (split_on CHR '','' hops).
      ParseIP (trim_space h) = None \<or> \<not> isTrustedProxy cf (trim_space h)"
    and "hops \<noteq> []"
    and "rq_Header r ''X-Forwarded-For'' = chosen @ '','' @ hops"
  shows "extractClientIP cf r =
      extractClientIP cf (r\<lparr>rq_Header := (rq_Header r)(''X-Forwarded-For'' := hops)\<rparr>)
    \<and> (cf_TrustedProxies cf = [] \<longrightarrow>
         extractClientIP cf (r\<lparr>rq_Header := hdr\<rparr>) = extractClientIP cf (r\<lparr>rq_Header := hdr'\<rparr>))"
proof
  let ?hs = "rev (split_on CHR '','' hops)"
  have "split_on CHR '','' (chosen @ '','' @ hops) = split_on CHR '','' chosen @ split_on CHR '','' hops"
    using split_on_rev_append by simp
  then have "walk_hops cf (rev (split_on CHR '','' (chosen @ '','' @ hops))) = walk_hops cf ?hs"
    using walk_hops_append [of ?hs cf] assms(1) by simp
  then show "extractClientIP cf r =
      extractClientIP cf (r\<lparr>rq_Header := (rq_Header r)(''X-Forwarded-For'' := hops)\<rparr>)"
    using assms(2,3)
    by (cases "SplitHostPort (rq_RemoteAddr r)") (auto simp: extractClientIP_def Let_def)
  show "cf_TrustedProxies cf = [] \<longrightarrow>
      extractClientIP cf (r\<lparr>rq_Header := hdr\<rparr>) = extractClientIP cf (r\<lparr>rq_Header := hdr'\<rparr>)"
    by (cases "SplitHostPort (rq_RemoteAddr r)") (auto simp: extractClientIP_def Let_def)
qed

theorem forwarded_prefix_ignored_witness:
  "extractClientIP demo_cf (demo_request ''GET'' ''/'' [(''X-Forwarded-For'', ''1.2.3.4, 203.0.113.7, 10.0.0.9'')])
     = ''203.0.113.7''"
proof -
  let ?r = "demo_request ''GET'' ''/'' [(''X-Forwarded-For'', ''1.2.3.4, 203.0.113.7, 10.0.0.9'')]"
  have "\<exists>h \<in> set (split_on CHR '','' '' 203.0.113.7, 10.0.0.9'').
      ParseIP (trim_space h) = None \<or> \<not> isTrustedProxy demo_cf (trim_space h)" by code_simp
  from forwarded_prefix_ignored [OF this, of ?r "''1.2.3.4''"]
  have "extractClientIP demo_cf ?r = extractClientIP demo_cf
      (?r\<lparr>rq_Header := (rq_Header ?r)(''X-Forwarded-For'' := '' 203.0.113.7, 10.0.0.9'')\<rparr>)"
    by (simp add: demo_request_def)
  also have "\<dots> = ''203.0.113.7''" by code_simp
  finally show ?thesis .
qed


section \<open>Headers and rate limits\<close>

definition secured :: "response \<Rightarrow> bool" where
  "secured w \<longleftrightarrow> rs_Header w ''X-Content-Type-Options'' = [''nosniff'']
     \<and> rs_Header w ''X-Frame-Options'' = [''DENY''] \<and> rs_Header w ''Referrer-Policy'' = [''no-referrer'']
     \<and> rs_Header w ''Cache-Control'' = [''no-store, no-cache, must-revalidate, private'']"

lemma secured_add [simp]: "secured (add_security_headers cf w)"
  by (simp add: secured_def add_security_headers_def set_header_def del_header_def Let_def)

lemma secured_error [simp]: "secured w \<Longrightarrow> secured (writeError code msg w)"
  by (simp add: secured_def writeError_def writeJSON_def write_body_def WriteHeader_def set_header_def)

lemma secured_retry [simp]: "secured w \<Longrightarrow> secured (set_header ''Retry-After'' v w)"
  by (simp add: secured_def set_header_def)

text \<open>A handler that keeps the security headers it is given.\<close>

definition keeps_secured :: "('l, 'a) handler \<Rightarrow> bool" where
  "keeps_secured h \<longleftrightarrow> (\<forall>r w s. secured w \<longrightarrow> secured (fst (snd (h r (w, s)))))"

lemma keeps_securedD: "keeps_secured h \<Longrightarrow> secured w \<Longrightarrow> secured (fst (snd (h r (w, s))))"
  by (simp add: keeps_secured_def)

lemma keeps_auth:
  assumes "keeps_secured h"
  shows "keeps_secured (authMiddleware cf lo auth h)"
  unfolding keeps_secured_def authMiddleware_def
  by (auto simp: Let_def reject_limited_def keeps_securedD [OF assms] split: prod.splits)

lemma keeps_logging: "keeps_secured h \<Longrightarrow> keeps_secured (loggingMiddleware cf h)"
  by (auto simp: keeps_secured_def loggingMiddleware_def Let_def split: prod.splits option.splits)
    (metis fst_conv snd_conv)+

lemma keeps_body: "keeps_secured h \<Longrightarrow> keeps_secured (bodySizeLimitMiddleware h)"
  by (simp add: keeps_secured_def bodySizeLimitMiddleware_def)

lemma keeps_rate: "keeps_secured h \<Longrightarrow> keeps_secured (rateLimitMiddleware cf lo h)"
  by (auto simp: keeps_secured_def rateLimitMiddleware_def Let_def split: prod.splits option.splits)

lemma secured_headers: "keeps_secured h \<Longrightarrow> secured (fst (snd (securityHeadersMiddleware cf h r ws)))"
  by (auto simp: keeps_secured_def securityHeadersMiddleware_def split: prod.splits)

lemma cors_passes:
  assumes "rq_Method r \<noteq> ''OPTIONS'' \<or> rq_Header r ''Origin'' = []
         \<or> rq_Header r ''Access-Control-Request-Method'' = []"
  shows "\<exists>ws'. corsMiddleware cf h r ws = h r ws'"
proof -
  obtain w s where "ws = (w, s)" by fastforce
  moreover have "\<not> (rq_Method r = ''OPTIONS'' \<and> rq_Header r ''Origin'' \<noteq> []
      \<and> rq_Header r ''Access-Control-Request-Method'' \<noteq> [])" using assms by blast
  ultimately show ?thesis
    unfolding corsMiddleware_def Let_def by (simp only: prod.case if_False) blast
qed

text \<open>Every response to a request that is not a CORS preflight carries the security
  headers, also the 401, 403, 429 and 500 ones that never reach a route, provided route handlers
  leave those headers alone; and a panic never escapes the chain unless part of the response was
  already sent.\<close>

theorem responses_secured:
  assumes "keeps_secured h" "withMiddleware cf lo auth h r ws = (p, w', s')"
    and "rq_Method r \<noteq> ''OPTIONS'' \<or> rq_Header r ''Origin'' = []
         \<or> rq_Header r ''Access-Control-Request-Method'' = []"
  shows "secured w' \<and> (p \<noteq> None \<longrightarrow> rs_status w' \<noteq> None)"
proof -
  let ?a = "if cf_EnableAuth cf then authMiddleware cf lo auth h else h"
  let ?b = "bodySizeLimitMiddleware (loggingMiddleware cf ?a)"
  let ?c = "if cf_EnableRateLimit cf then rateLimitMiddleware cf lo ?b else ?b"
  let ?d = "corsMiddleware cf (securityHeadersMiddleware cf ?c)"
  have "keeps_secured ?c"
    using assms(1) by (simp add: keeps_auth keeps_logging keeps_body keeps_rate)
  then have d: "secured (fst (snd (?d r ws)))"
    using cors_passes [OF assms(3), of cf "securityHeadersMiddleware cf ?c" ws] secured_headers by metis
  obtain q w1 s1 where q: "?d r ws = (q, w1, s1)" by (metis prod.collapse)
  have "recoveryMiddleware ?d r ws = (p, w', s')"
    using assms(2) by (simp only: withMiddleware_def Let_def)
  then have "(case q of None \<Rightarrow> (None, w1, s1) | Some x \<Rightarrow> if rs_status w1 \<noteq> None then (Some x, w1, s1)
      else (None, writeError 500 ''Internal server error'' w1, s1)) = (p, w', s')"
    by (simp only: recoveryMiddleware_def q prod.case)
  moreover from d have "secured w1" by (simp only: q fst_conv snd_conv)
  ultimately show ?thesis by (auto split: option.splits if_splits)
qed

lemma demo_keeps: "keeps_secured (\<lambda>r ws. (Some ''boom'', ws) :: string option \<times> response \<times> (nat, simple_auth) server)"
  by (simp add: keeps_secured_def)

theorem responses_secured_witness:
  "\<exists>w' s'. withMiddleware demo_cf demo_limiter SAuthenticate (\<lambda>r ws. (Some ''boom'', ws))
       (demo_request ''GET'' ''/health'' []) (demo_response, demo_server) = (None, w', s')
     \<and> rs_status w' = Some 500 \<and> secured w'"
proof -
  let ?out = "withMiddleware demo_cf demo_limiter SAuthenticate (\<lambda>r ws. (Some ''boom'', ws))
       (demo_request ''GET'' ''/health'' []) (demo_response, demo_server)"
  have "fst ?out = None" "rs_status (fst (snd ?out)) = Some 500"
    by (simp_all add: withMiddleware_def recoveryMiddleware_def corsMiddleware_def
        securityHeadersMiddleware_def bodySizeLimitMiddleware_def loggingMiddleware_def
        authMiddleware_def public_path_def demo_cf_def demo_request_def demo_response_def
        originAllowed_def add_security_headers_def set_header_def del_header_def writeError_def
        writeJSON_def write_body_def WriteHeader_def Let_def)
  then obtain w' s' where out: "?out = (None, w', s')" "rs_status w' = Some 500"
    by (metis fst_conv prod.collapse snd_conv)
  have "rq_Method (demo_request ''GET'' ''/health'' []) \<noteq> ''OPTIONS''" by (simp add: demo_request_def)
  with responses_secured [OF demo_keeps out(1)] out show ?thesis by blast
qed

end
