(* ===== verification/Health.thy ===== *)
theory Health
  imports Provider
begin

text \<open>
  \<open>pkg/orchestration/health.go\<close>: the health checker (registrations, check loops, results,
  ordered delivery of status changes) and the automatic restarter. Each method is the body it
  runs under \<open>hc.mu\<close>, \<open>notifyMu\<close> or \<open>ar.mu\<close>; what a command answered, whether a
  provider call failed and the time are inputs. A stop channel is a number; closing one twice
  would panic, so the closed channels are kept in the order they were closed.
\<close>

section \<open>Data\<close>

text \<open>\<open>HealthStatusNone\<close> is the empty string, the status of an absent result.\<close>

datatype HealthStatus =
  HealthStatusNone | HealthStatusHealthy | HealthStatusUnhealthy | HealthStatusStarting | HealthStatusUnknown

record health_check_config =
  hcc_Command :: "string list"
  hcc_Interval :: int
  hcc_Timeout :: int
  hcc_Retries :: int
  hcc_StartPeriod :: int

record health_check_result =
  hr_InstanceID :: string
  hr_Status :: HealthStatus
  hr_Message :: "string \<times> string list"
  hr_CheckedAt :: int
  hr_Duration :: int
  hr_ExitCode :: int

record transition =
  tr_instance :: string
  tr_from :: HealthStatus
  tr_to :: HealthStatus
  tr_callbacks :: "nat list"

record health_checker =
  hc_configs :: "string \<rightharpoonup> health_check_config"
  hc_results :: "string \<rightharpoonup> health_check_result"
  hc_failCounts :: "string \<rightharpoonup> nat"
  hc_stopChans :: "string \<rightharpoonup> nat"
  hc_callbacks :: "nat list"
  hc_notifyQueue :: "transition list"
  hc_notifyBusy :: bool
  hc_loops :: "(string \<times> instance_handle \<times> health_check_config) list"
  hc_closed :: "nat list"
  hc_delivered :: "transition list"
  hc_drainers :: nat

text \<open>
  The last four fields record what happened outside the struct: the check loops started, by
  stop channel; the channels closed; the transitions delivered; the drain goroutines alive.
\<close>

definition NewHealthChecker :: health_checker where
  "NewHealthChecker =
     \<lparr>hc_configs = Map.empty, hc_results = Map.empty, hc_failCounts = Map.empty,
      hc_stopChans = Map.empty, hc_callbacks = [], hc_notifyQueue = [], hc_notifyBusy = False,
      hc_loops = [], hc_closed = [], hc_delivered = [], hc_drainers = 0\<rparr>"

definition maxPendingNotifications :: nat where
  "maxPendingNotifications = 1024"

definition defaultHealthRetries :: int where
  "defaultHealthRetries = 3"

definition defaultHealthCheckInterval :: int where
  "defaultHealthCheckInterval = 30 * 1000000000"

definition defaultHealthCheckTimeout :: int where
  "defaultHealthCheckTimeout = 10 * 1000000000"

section \<open>The health checker\<close>

definition OnHealthChange :: "nat \<Rightarrow> health_checker \<Rightarrow> health_checker" where
  "OnHealthChange cb hc = hc\<lparr>hc_callbacks := hc_callbacks hc @ [cb]\<rparr>"

definition count_of :: "('k \<rightharpoonup> nat) \<Rightarrow> 'k \<Rightarrow> nat" where
  "count_of m k = (case m k of None \<Rightarrow> 0 | Some n \<Rightarrow> n)"

definition stop_loop :: "string \<Rightarrow> health_checker \<Rightarrow> health_checker" where
  "stop_loop i hc =
     (case hc_stopChans hc i of
        None \<Rightarrow> hc
      | Some c \<Rightarrow> hc\<lparr>hc_closed := hc_closed hc @ [c], hc_stopChans := (hc_stopChans hc)(i := None)\<rparr>)"

definition RegisterInstance :: "int \<Rightarrow> string \<Rightarrow> health_check_config \<Rightarrow> health_checker \<Rightarrow> health_checker" where
  "RegisterInstance now i cfg hc =
     (let hc = stop_loop i hc in
      hc\<lparr>hc_configs := (hc_configs hc)(i \<mapsto> cfg),
         hc_results := (hc_results hc)(i \<mapsto>
           \<lparr>hr_InstanceID = i, hr_Status = HealthStatusStarting, hr_Message = ([], []),
            hr_CheckedAt = now, hr_Duration = 0, hr_ExitCode = 0\<rparr>),
         hc_failCounts := (hc_failCounts hc)(i \<mapsto> 0)\<rparr>)"

definition UnregisterInstance :: "string \<Rightarrow> health_checker \<Rightarrow> health_checker" where
  "UnregisterInstance i hc =
     (let hc = stop_loop i hc in
      hc\<lparr>hc_configs := (hc_configs hc)(i := None), hc_results := (hc_results hc)(i := None),
         hc_failCounts := (hc_failCounts hc)(i := None)\<rparr>)"

definition StartChecking :: "instance_handle \<Rightarrow> health_checker \<Rightarrow> health_checker" where
  "StartChecking h hc =
     (let i = ih_ID h in
      case hc_configs hc i of
        None \<Rightarrow> hc
      | Some cfg \<Rightarrow>
          let hc1 = (case hc_stopChans hc i of
                       None \<Rightarrow> hc | Some old \<Rightarrow> hc\<lparr>hc_closed := hc_closed hc @ [old]\<rparr>);
              stop = length (hc_loops hc1)
          in hc1\<lparr>hc_stopChans := (hc_stopChans hc1)(i \<mapsto> stop),
                 hc_loops := hc_loops hc1 @ [(i, h, cfg)]\<rparr>)"

definition StopChecking :: "string \<Rightarrow> health_checker \<Rightarrow> health_checker" where
  "StopChecking i hc = stop_loop i hc"

definition GetHealth :: "health_checker \<Rightarrow> string \<Rightarrow> health_check_result option" where
  "GetHealth hc i = hc_results hc i"

definition HasHealthCheck :: "health_checker \<Rightarrow> string \<Rightarrow> bool" where
  "HasHealthCheck hc i \<longleftrightarrow> hc_configs hc i \<noteq> None"

definition GetAllHealth :: "health_checker \<Rightarrow> string \<rightharpoonup> health_check_result" where
  "GetAllHealth hc = hc_results hc"

text \<open>\<open>notify\<close> queues a transition and starts a drainer when none is running.\<close>

definition notify :: "string \<Rightarrow> HealthStatus \<Rightarrow> HealthStatus \<Rightarrow> health_checker \<Rightarrow> health_checker" where
  "notify i from to hc =
     (if from = to \<or> hc_callbacks hc = [] then hc
      else
        let q = hc_notifyQueue hc;
            q1 = (if length q \<ge> maxPendingNotifications then tl q else q);
            t = \<lparr>tr_instance = i, tr_from = from, tr_to = to, tr_callbacks = hc_callbacks hc\<rparr>
        in hc\<lparr>hc_notifyQueue := q1 @ [t],
              hc_drainers := (if hc_notifyBusy hc then hc_drainers hc else Suc (hc_drainers hc)),
              hc_notifyBusy := True\<rparr>)"

text \<open>One round of \<open>drainNotifications\<close>.\<close>

definition drain_round :: "health_checker \<Rightarrow> health_checker" where
  "drain_round hc =
     (case hc_notifyQueue hc of
        [] \<Rightarrow> hc\<lparr>hc_notifyBusy := False, hc_drainers := hc_drainers hc - 1\<rparr>
      | t # q \<Rightarrow> hc\<lparr>hc_notifyQueue := q, hc_delivered := hc_delivered hc @ [t]\<rparr>)"

definition status_of :: "health_checker \<Rightarrow> string \<Rightarrow> HealthStatus" where
  "status_of hc i = (case hc_results hc i of None \<Rightarrow> HealthStatusNone | Some r \<Rightarrow> hr_Status r)"

definition updateStatus :: "int \<Rightarrow> string \<Rightarrow> HealthStatus \<Rightarrow> string \<Rightarrow> health_checker \<Rightarrow> health_checker" where
  "updateStatus now i status message hc =
     (let old = status_of hc i in
      notify i old status
        (hc\<lparr>hc_results := (hc_results hc)(i \<mapsto>
              \<lparr>hr_InstanceID = i, hr_Status = status, hr_Message = (message, []), hr_CheckedAt = now,
               hr_Duration = 0, hr_ExitCode = 0\<rparr>)\<rparr>))"

text \<open>What a command answered: the exit code of a result, if any, and the error, if any.\<close>

type_synonym exec_outcome = "int option \<times> go_error option"

definition exit_code :: "exec_outcome \<Rightarrow> int" where
  "exit_code out = (case fst out of None \<Rightarrow> 0 | Some c \<Rightarrow> c)"

definition check_failed :: "exec_outcome \<Rightarrow> bool" where
  "check_failed out \<longleftrightarrow> snd out \<noteq> None \<or> exit_code out \<noteq> 0"

definition effective_retries :: "health_check_config \<Rightarrow> nat" where
  "effective_retries cfg =
     nat (if hcc_Retries cfg \<le> 0 then defaultHealthRetries else hcc_Retries cfg)"

text \<open>
  \<open>runCheck\<close>. The error text is kept as the argument of the message, rendered by the
  function \<open>show_err\<close>.
\<close>

definition runCheck ::
    "(go_error \<Rightarrow> string) \<Rightarrow> int \<Rightarrow> int \<Rightarrow> instance_handle \<Rightarrow> health_check_config \<Rightarrow> exec_outcome \<Rightarrow>
     health_checker \<Rightarrow> health_checker" where
  "runCheck show_err now duration h cfg out hc =
     (let i = ih_ID h in
      if hcc_Command cfg = [] then
        updateStatus now i HealthStatusUnknown ''No health check command configured'' hc
      else
        let old = status_of hc i;
            base = \<lparr>hr_InstanceID = i, hr_Status = HealthStatusNone, hr_Message = ([], []),
                    hr_CheckedAt = now, hr_Duration = duration, hr_ExitCode = 0\<rparr>
        in
        if check_failed out then
          let n = Suc (count_of (hc_failCounts hc) i);
              msg = (''Check failed: %s (exit code: %d)'',
                     [case snd out of None \<Rightarrow> [] | Some e \<Rightarrow> show_err e, itoa (exit_code out)]);
              st = (if n \<ge> effective_retries cfg then HealthStatusUnhealthy
                    else if old = HealthStatusNone then HealthStatusUnknown else old);
              r = base\<lparr>hr_Status := st, hr_Message := msg, hr_ExitCode := exit_code out\<rparr>
          in notify i old st
               (hc\<lparr>hc_failCounts := (hc_failCounts hc)(i \<mapsto> n), hc_results := (hc_results hc)(i \<mapsto> r)\<rparr>)
        else
          let r = base\<lparr>hr_Status := HealthStatusHealthy, hr_Message := (''Health check passed'', [])\<rparr>
          in notify i old HealthStatusHealthy
               (hc\<lparr>hc_failCounts := (hc_failCounts hc)(i \<mapsto> 0), hc_results := (hc_results hc)(i \<mapsto> r)\<rparr>))"

section \<open>Automatic restarts\<close>

record restart_policy =
  rp_Enabled :: bool
  rp_MaxRestarts :: int
  rp_RestartDelay :: int
  rp_ResetCounterAfter :: int

record 'p auto_restarter =
  ar_provider :: "'p option"
  ar_restartPolicy :: "string \<rightharpoonup> restart_policy"
  ar_targets :: "string \<rightharpoonup> ('p \<times> instance_handle)"
  ar_restartCounts :: "string \<rightharpoonup> nat"
  ar_healthySince :: "string \<rightharpoonup> int"
  ar_lastRestart :: "string \<rightharpoonup> int"

definition NewAutoRestarter :: "'p option \<Rightarrow> 'p auto_restarter" where
  "NewAutoRestarter prov =
     \<lparr>ar_provider = prov, ar_restartPolicy = Map.empty, ar_targets = Map.empty,
      ar_restartCounts = Map.empty, ar_healthySince = Map.empty, ar_lastRestart = Map.empty\<rparr>"

definition SetPolicy :: "string \<Rightarrow> restart_policy \<Rightarrow> 'p auto_restarter \<Rightarrow> 'p auto_restarter" where
  "SetPolicy i policy ar = ar\<lparr>ar_restartPolicy := (ar_restartPolicy ar)(i \<mapsto> policy)\<rparr>"

definition SetPolicyFor ::
    "'p \<Rightarrow> instance_handle \<Rightarrow> restart_policy \<Rightarrow> 'p auto_restarter \<Rightarrow> 'p auto_restarter" where
  "SetPolicyFor prov h policy ar =
     ar\<lparr>ar_restartPolicy := (ar_restartPolicy ar)(ih_ID h \<mapsto> policy),
        ar_targets := (ar_targets ar)(ih_ID h \<mapsto> (prov, h))\<rparr>"

definition RemovePolicy :: "string \<Rightarrow> 'p auto_restarter \<Rightarrow> 'p auto_restarter" where
  "RemovePolicy i ar =
     ar\<lparr>ar_restartPolicy := (ar_restartPolicy ar)(i := None), ar_targets := (ar_targets ar)(i := None),
        ar_restartCounts := (ar_restartCounts ar)(i := None),
        ar_healthySince := (ar_healthySince ar)(i := None),
        ar_lastRestart := (ar_lastRestart ar)(i := None)\<rparr>"

definition GetRestartCount :: "'p auto_restarter \<Rightarrow> string \<Rightarrow> nat" where
  "GetRestartCount ar i = count_of (ar_restartCounts ar) i"

text \<open>\<open>onHealthChange\<close>: whether a restart goroutine is started, and the new state.\<close>

definition ar_onHealthChange ::
    "int \<Rightarrow> string \<Rightarrow> HealthStatus \<Rightarrow> 'p auto_restarter \<Rightarrow> bool \<times> 'p auto_restarter" where
  "ar_onHealthChange now i new ar =
     (case ar_restartPolicy ar i of
        None \<Rightarrow> (False, ar)
      | Some policy \<Rightarrow>
          if \<not> rp_Enabled policy then (False, ar)
          else if new = HealthStatusHealthy then
            (False, if ar_healthySince ar i = None
                    then ar\<lparr>ar_healthySince := (ar_healthySince ar)(i \<mapsto> now)\<rparr> else ar)
          else
            let healthyFor = (case ar_healthySince ar i of None \<Rightarrow> 0 | Some since \<Rightarrow> now - since);
                ar1 = ar\<lparr>ar_healthySince := (ar_healthySince ar)(i := None)\<rparr>
            in
            if new \<noteq> HealthStatusUnhealthy then (False, ar1)
            else
              let ar2 = (if rp_ResetCounterAfter policy > 0 \<and> healthyFor > rp_ResetCounterAfter policy
                         then ar1\<lparr>ar_restartCounts := (ar_restartCounts ar1)(i \<mapsto> 0)\<rparr> else ar1)
              in
              if rp_MaxRestarts policy > 0 \<and> int (count_of (ar_restartCounts ar2) i) \<ge> rp_MaxRestarts policy
              then (False, ar2)
              else (case ar_lastRestart ar2 i of
                      Some t \<Rightarrow> (now - t \<ge> rp_RestartDelay policy, ar2)
                    | None \<Rightarrow> (True, ar2)))"

text \<open>The goroutine \<open>restartInstance\<close>: the count is raised when it runs.\<close>

definition restart_begin :: "int \<Rightarrow> string \<Rightarrow> 'p auto_restarter \<Rightarrow> 'p auto_restarter" where
  "restart_begin now i ar =
     ar\<lparr>ar_restartCounts := (ar_restartCounts ar)(i \<mapsto> Suc (count_of (ar_restartCounts ar) i)),
        ar_lastRestart := (ar_lastRestart ar)(i \<mapsto> now)\<rparr>"

definition restart_target :: "string \<Rightarrow> 'p auto_restarter \<Rightarrow> ('p \<times> instance_handle) option" where
  "restart_target i ar =
     (case ar_targets ar i of
        Some t \<Rightarrow> Some t
      | None \<Rightarrow> map_option (\<lambda>p. (p, \<lparr>ih_ID = i, ih_Provider = [], ih_Metadata = Map.empty\<rparr>)) (ar_provider ar))"

datatype restart_call = CallStop instance_handle | CallStart instance_handle

text \<open>The provider calls a restart makes, given which of them fail.\<close>

definition restart_calls ::
    "('p \<Rightarrow> instance_handle \<Rightarrow> bool) \<Rightarrow> bool \<Rightarrow> string \<Rightarrow> 'p auto_restarter \<Rightarrow> ('p \<times> restart_call) list" where
  "restart_calls stop_fails ctx_ended i ar =
     (case restart_target i ar of
        None \<Rightarrow> []
      | Some (p, h) \<Rightarrow>
          if stop_fails p h \<or> ctx_ended then [(p, CallStop h)]
          else [(p, CallStop h), (p, CallStart h)])"

definition restartInstance ::
    "('p \<Rightarrow> instance_handle \<Rightarrow> bool) \<Rightarrow> bool \<Rightarrow> int \<Rightarrow> string \<Rightarrow> 'p auto_restarter \<Rightarrow>
     ('p \<times> restart_call) list \<times> 'p auto_restarter" where
  "restartInstance stop_fails ctx_ended now i ar =
     (let ar' = restart_begin now i ar in (restart_calls stop_fails ctx_ended i ar', ar'))"

end
