(* ===== verification/Health_Thms.thy ===== *)
theory Health_Thms
  imports Health
begin

text \<open>
  Theorems about \<^theory_text>\<open>Health\<close>: what a sequence of check outcomes makes of the reported status,
  the ordered and bounded delivery of status changes and the stop channels under every
  interleaving of the API with the check loops and the drainer, and the limits of the
  automatic restarter.
\<close>

section \<open>The failure threshold\<close>

lemma notify_results [simp]:
  "hc_results (notify i a b hc) = hc_results hc"
  "hc_failCounts (notify i a b hc) = hc_failCounts hc"
  "hc_configs (notify i a b hc) = hc_configs hc"
  "hc_stopChans (notify i a b hc) = hc_stopChans hc"
  "hc_closed (notify i a b hc) = hc_closed hc"
  "hc_loops (notify i a b hc) = hc_loops hc"
  "hc_callbacks (notify i a b hc) = hc_callbacks hc"
  "hc_delivered (notify i a b hc) = hc_delivered hc"
  by (simp_all add: notify_def Let_def)

definition next_status :: "health_check_config \<Rightarrow> exec_outcome \<Rightarrow> HealthStatus \<times> nat \<Rightarrow> HealthStatus \<times> nat" where
  "next_status cfg out s =
     (if check_failed out then
        (if Suc (snd s) \<ge> effective_retries cfg then HealthStatusUnhealthy
         else if fst s = HealthStatusNone then HealthStatusUnknown else fst s, Suc (snd s))
      else (HealthStatusHealthy, 0))"

definition health_of :: "health_checker \<Rightarrow> string \<Rightarrow> HealthStatus \<times> nat" where
  "health_of hc i = (status_of hc i, count_of (hc_failCounts hc) i)"

text \<open>What a check records is a function of the status, the count and the outcome.\<close>

lemma runCheck_health:
  assumes "hcc_Command cfg \<noteq> []"
  shows "health_of (runCheck se now d h cfg out hc) i =
         (if i = ih_ID h then next_status cfg out (health_of hc i) else health_of hc i)"
  using assms by (simp add: runCheck_def next_status_def health_of_def status_of_def count_of_def Let_def)

definition run_checks ::
    "(go_error \<Rightarrow> string) \<Rightarrow> instance_handle \<Rightarrow> health_check_config \<Rightarrow> (int \<times> int \<times> exec_outcome) list \<Rightarrow>
     health_checker \<Rightarrow> health_checker" where
  "run_checks se h cfg outs hc = fold (\<lambda>(now, d, out). runCheck se now d h cfg out) outs hc"

lemma run_checks_health:
  assumes "hcc_Command cfg \<noteq> []"
  shows "health_of (run_checks se h cfg outs hc) (ih_ID h) =
         fold (\<lambda>(now, d, out). next_status cfg out) outs (health_of hc (ih_ID h))"
  unfolding run_checks_def
  by (induction outs arbitrary: hc) (auto simp: runCheck_health [OF assms])

definition outcome_failed :: "int \<times> int \<times> exec_outcome \<Rightarrow> bool" where
  "outcome_failed o1 = check_failed (snd (snd o1))"

definition trailing_failures :: "(int \<times> int \<times> exec_outcome) list \<Rightarrow> nat" where
  "trailing_failures outs = length (takeWhile outcome_failed (rev outs))"

lemma trailing_failures_snoc:
  "trailing_failures (outs @ [x]) = (if outcome_failed x then Suc (trailing_failures outs) else 0)"
  by (simp add: trailing_failures_def)

text \<open>The status a run of failures started from: healthy after a success, else the given one.\<close>

definition status_before_run :: "HealthStatus \<Rightarrow> (int \<times> int \<times> exec_outcome) list \<Rightarrow> HealthStatus" where
  "status_before_run st outs =
     (if list_all outcome_failed outs then (if st = HealthStatusNone then HealthStatusUnknown else st)
      else HealthStatusHealthy)"

lemma effective_retries_pos: "0 < effective_retries cfg"
  by (simp add: effective_retries_def defaultHealthRetries_def)

lemma fold_next_status:
  "fold (\<lambda>(now, d, out). next_status cfg out) outs (st, 0) =
     (if outs = [] then (st, 0)
      else
        (if trailing_failures outs \<ge> effective_retries cfg then HealthStatusUnhealthy
         else status_before_run st outs, trailing_failures outs))"
proof (induction outs rule: rev_induct)
  case (snoc x outs)
  obtain now d out where x: "x = (now, d, out)" by (cases x)
  from snoc show ?case
    using effective_retries_pos [of cfg]
    by (cases "outs = []")
      (auto simp: x next_status_def trailing_failures_snoc status_before_run_def outcome_failed_def
        trailing_failures_def)
qed simp

text \<open>
  After any non-empty sequence of check outcomes of an instance with a health command
  and a clear failure count, the recorded failure count is the number of failures since the last
  success; the status is unhealthy exactly when that number has reached the configured
  retries (three when the configuration names none), and otherwise healthy when some check
  succeeded or else the status the instance had before (unknown if it had none).
\<close>
theorem health_status_threshold:
  assumes "hcc_Command cfg \<noteq> []" "count_of (hc_failCounts hc) (ih_ID h) = 0" "outs \<noteq> []"
  shows "health_of (run_checks se h cfg outs hc) (ih_ID h) =
         (if trailing_failures outs \<ge> effective_retries cfg then HealthStatusUnhealthy
          else status_before_run (status_of hc (ih_ID h)) outs, trailing_failures outs)"
proof -
  have "health_of hc (ih_ID h) = (status_of hc (ih_ID h), 0)" using assms(2) by (simp add: health_of_def)
  then show ?thesis by (simp only: run_checks_health [OF assms(1)] fold_next_status assms(3) if_False)
qed

definition demo_config :: health_check_config where
  "demo_config = \<lparr>hcc_Command = [''/bin/true''], hcc_Interval = 0, hcc_Timeout = 0, hcc_Retries = 2,
                  hcc_StartPeriod = 0\<rparr>"

definition demo_handle :: instance_handle where
  "demo_handle = \<lparr>ih_ID = ''web'', ih_Provider = ''jail'', ih_Metadata = Map.empty\<rparr>"

text \<open>A success and two failures against two retries: unhealthy.\<close>

theorem health_status_threshold_witness:
  "health_of
     (run_checks (\<lambda>_. []) demo_handle demo_config [(1, 0, Some 0, None), (2, 0, Some 1, None), (3, 0, Some 7, None)]
       (RegisterInstance 0 ''web'' demo_config NewHealthChecker)) (ih_ID demo_handle) =
   (HealthStatusUnhealthy, 2)"
  by (subst health_status_threshold)
    (simp_all add: demo_config_def demo_handle_def RegisterInstance_def NewHealthChecker_def stop_loop_def
      count_of_def trailing_failures_def outcome_failed_def check_failed_def exit_code_def effective_retries_def)

section \<open>The interleaving of the API, the check loops and the drainer\<close>

text \<open>
  \<open>checkLoop\<close>: it waits out its start period, marks the status unknown, then runs a check
  per tick. The command runs outside the lock, so a check is in flight between the tick and
  its result. A loop leaves when its stop channel is closed or its context ends, but only
  where it selects: never while a check is in flight.
\<close>

datatype loop_phase = LoopWaiting | LoopTicking | LoopInFlight | LoopEnded

record hc_system =
  hs_checker :: health_checker
  hs_phase :: "nat \<Rightarrow> loop_phase"
  hs_emitted :: "transition list"

definition loop_begin :: "int \<Rightarrow> string \<Rightarrow> health_checker \<Rightarrow> health_checker" where
  "loop_begin now i hc = updateStatus now i HealthStatusUnknown ''Initial check pending'' hc"

text \<open>The transition a status change produces, if it produces one.\<close>

definition emitted :: "string \<Rightarrow> HealthStatus \<Rightarrow> HealthStatus \<Rightarrow> health_checker \<Rightarrow> transition list" where
  "emitted i from to hc =
     (if from = to \<or> hc_callbacks hc = [] then []
      else [\<lparr>tr_instance = i, tr_from = from, tr_to = to, tr_callbacks = hc_callbacks hc\<rparr>])"

definition status_change :: "string \<Rightarrow> health_checker \<Rightarrow> health_checker \<Rightarrow> transition list" where
  "status_change i hc hc' = emitted i (status_of hc i) (status_of hc' i) hc"

inductive hc_step :: "hc_system \<Rightarrow> hc_system \<Rightarrow> bool" where
  callback: "hc_step s (s\<lparr>hs_checker := OnHealthChange cb (hs_checker s)\<rparr>)"
| register: "hc_step s (s\<lparr>hs_checker := RegisterInstance now i cfg (hs_checker s)\<rparr>)"
| unregister: "hc_step s (s\<lparr>hs_checker := UnregisterInstance i (hs_checker s)\<rparr>)"
| start: "hc_step s (s\<lparr>hs_checker := StartChecking h (hs_checker s)\<rparr>)"
| stop: "hc_step s (s\<lparr>hs_checker := StopChecking i (hs_checker s)\<rparr>)"
| loop_ready: "c < length (hc_loops (hs_checker s)) \<Longrightarrow> hs_phase s c = LoopWaiting \<Longrightarrow>
    hc_loops (hs_checker s) ! c = (i, h, cfg) \<Longrightarrow> hc' = loop_begin now i (hs_checker s) \<Longrightarrow>
    hc_step s (s\<lparr>hs_checker := hc', hs_phase := (hs_phase s)(c := LoopTicking),
                 hs_emitted := hs_emitted s @ status_change i (hs_checker s) hc'\<rparr>)"
| loop_tick: "c < length (hc_loops (hs_checker s)) \<Longrightarrow> hs_phase s c = LoopTicking \<Longrightarrow>
    hc_step s (s\<lparr>hs_phase := (hs_phase s)(c := LoopInFlight)\<rparr>)"
| loop_result: "c < length (hc_loops (hs_checker s)) \<Longrightarrow> hs_phase s c = LoopInFlight \<Longrightarrow>
    hc_loops (hs_checker s) ! c = (i, h, cfg) \<Longrightarrow> hc' = runCheck se now d h cfg out (hs_checker s) \<Longrightarrow>
    hc_step s (s\<lparr>hs_checker := hc', hs_phase := (hs_phase s)(c := LoopTicking),
                 hs_emitted := hs_emitted s @ status_change (ih_ID h) (hs_checker s) hc'\<rparr>)"
| loop_exit: "hs_phase s c = LoopWaiting \<or> hs_phase s c = LoopTicking \<Longrightarrow>
    c \<in> set (hc_closed (hs_checker s)) \<or> ctx_done \<Longrightarrow>
    hc_step s (s\<lparr>hs_phase := (hs_phase s)(c := LoopEnded)\<rparr>)"
| drain: "hc_drainers (hs_checker s) > 0 \<Longrightarrow>
    hc_step s (s\<lparr>hs_checker := drain_round (hs_checker s)\<rparr>)"

inductive hc_reachable :: "hc_system \<Rightarrow> bool" where
  hc_init: "hc_reachable \<lparr>hs_checker = NewHealthChecker, hs_phase = (\<lambda>_. LoopWaiting), hs_emitted = []\<rparr>"
| hc_next: "hc_reachable s \<Longrightarrow> hc_step s s' \<Longrightarrow> hc_reachable s'"

subsection \<open>Delivery\<close>

definition notify_inv :: "health_checker \<Rightarrow> transition list \<Rightarrow> bool" where
  "notify_inv hc em \<longleftrightarrow>
     length (hc_notifyQueue hc) \<le> maxPendingNotifications \<and>
     hc_drainers hc = (if hc_notifyBusy hc then 1 else 0) \<and>
     (hc_notifyQueue hc \<noteq> [] \<longrightarrow> hc_notifyBusy hc) \<and>
     (\<exists>older. em = older @ hc_notifyQueue hc \<and> subseq (hc_delivered hc) older)"

lemma notify_inv_notify:
  assumes inv: "notify_inv hc em"
  shows "notify_inv (notify i a b hc) (em @ emitted i a b hc)"
proof (cases "a = b \<or> hc_callbacks hc = []")
  case True
  with inv show ?thesis by (auto simp: notify_def emitted_def)
next
  case False
  let ?q = "hc_notifyQueue hc"
  let ?t = "\<lparr>tr_instance = i, tr_from = a, tr_to = b, tr_callbacks = hc_callbacks hc\<rparr>"
  from inv obtain older where old: "em = older @ ?q" "subseq (hc_delivered hc) older"
    by (auto simp: notify_inv_def)
  have q: "\<exists>older'. em @ [?t] = older' @ (if maxPendingNotifications \<le> length ?q then tl ?q else ?q) @ [?t] \<and>
           subseq (hc_delivered hc) older'"
  proof (cases "maxPendingNotifications \<le> length ?q")
    case True
    then obtain x xs where "?q = x # xs" by (cases ?q) (auto simp: maxPendingNotifications_def)
    with old True show ?thesis by (intro exI [of _ "older @ [x]"]) auto
  qed (use old in auto)
  have len: "length (if maxPendingNotifications \<le> length ?q then tl ?q else ?q) < maxPendingNotifications"
    using inv by (auto simp: notify_inv_def maxPendingNotifications_def)
  from inv False q len show ?thesis
    by (auto simp: notify_inv_def notify_def emitted_def Let_def)
qed

text \<open>
  A handler that rewrites the counts and the results, then notifies of the change it made.
\<close>

lemma notify_inv_change:
  fixes hc :: health_checker
  defines "hc1 fs rs \<equiv> hc\<lparr>hc_failCounts := fs, hc_results := rs\<rparr>"
  assumes inv: "notify_inv hc em" and st: "rs i = Some r" "hr_Status r = st"
  shows "notify_inv (notify i (status_of hc i) st (hc1 fs rs))
           (em @ status_change i hc (notify i (status_of hc i) st (hc1 fs rs)))"
proof -
  have "notify_inv (hc1 fs rs) em" using inv by (simp add: notify_inv_def hc1_def)
  then have "notify_inv (notify i (status_of hc i) st (hc1 fs rs)) (em @ emitted i (status_of hc i) st (hc1 fs rs))"
    by (rule notify_inv_notify)
  moreover have "status_of (notify i (status_of hc i) st (hc1 fs rs)) i = st"
    using st by (simp add: hc1_def status_of_def)
  moreover have "hc_callbacks (hc1 fs rs) = hc_callbacks hc" by (simp add: hc1_def)
  ultimately show ?thesis by (simp only: status_change_def emitted_def)
qed

lemma updateStatus_form:
  "updateStatus now i st m hc =
   notify i (status_of hc i) st
     (hc\<lparr>hc_failCounts := hc_failCounts hc, hc_results := (hc_results hc)(i \<mapsto>
        \<lparr>hr_InstanceID = i, hr_Status = st, hr_Message = (m, []), hr_CheckedAt = now,
         hr_Duration = 0, hr_ExitCode = 0\<rparr>)\<rparr>)"
  by (simp add: updateStatus_def Let_def)

lemma notify_inv_updateStatus:
  assumes "notify_inv hc em"
  shows "notify_inv (updateStatus now i st m hc) (em @ status_change i hc (updateStatus now i st m hc))"
  unfolding updateStatus_form by (rule notify_inv_change [OF assms], rule fun_upd_same, simp)

lemma runCheck_form:
  assumes "hcc_Command cfg \<noteq> []"
  obtains fs rs r st where
    "runCheck se now d h cfg out hc =
       notify (ih_ID h) (status_of hc (ih_ID h)) st (hc\<lparr>hc_failCounts := fs, hc_results := rs\<rparr>)"
    "rs (ih_ID h) = Some r" "hr_Status r = st"
  using assms unfolding runCheck_def Let_def
  by (cases "check_failed out") (simp_all del: if_image_distrib)

lemma notify_inv_runCheck:
  assumes "notify_inv hc em"
  shows "notify_inv (runCheck se now d h cfg out hc)
           (em @ status_change (ih_ID h) hc (runCheck se now d h cfg out hc))"
proof (cases "hcc_Command cfg = []")
  case True
  then show ?thesis
    using notify_inv_updateStatus [OF assms] by (simp add: runCheck_def Let_def)
next
  case False
  obtain fs rs r st where
    "runCheck se now d h cfg out hc =
       notify (ih_ID h) (status_of hc (ih_ID h)) st (hc\<lparr>hc_failCounts := fs, hc_results := rs\<rparr>)"
    "rs (ih_ID h) = Some r" "hr_Status r = st"
    by (rule runCheck_form [OF False])
  then show ?thesis using notify_inv_change [OF assms] by simp
qed

lemma notify_inv_drain: "notify_inv hc em \<Longrightarrow> notify_inv (drain_round hc) em"
proof -
  assume inv: "notify_inv hc em"
  show ?thesis
  proof (cases "hc_notifyQueue hc")
    case (Cons t q)
    from inv obtain older where old: "em = older @ t # q" "subseq (hc_delivered hc) older"
      by (auto simp: notify_inv_def Cons)
    then have "subseq (hc_delivered hc @ [t]) (older @ [t])" by (intro list_emb_append_mono) auto
    with old inv Cons show ?thesis
      by (auto simp: notify_inv_def drain_round_def intro!: exI [of _ "older @ [t]"])
  qed (use inv in \<open>auto simp: notify_inv_def drain_round_def\<close>)
qed

lemma notify_inv_api [simp]:
  "notify_inv (OnHealthChange cb hc) em = notify_inv hc em"
  "notify_inv (stop_loop i hc) em = notify_inv hc em"
  "notify_inv (RegisterInstance now i cfg hc) em = notify_inv hc em"
  "notify_inv (UnregisterInstance i hc) em = notify_inv hc em"
  "notify_inv (StartChecking h hc) em = notify_inv hc em"
  by (simp_all add: notify_inv_def OnHealthChange_def stop_loop_def RegisterInstance_def
      UnregisterInstance_def StartChecking_def Let_def split: option.splits)

lemma notify_inv_step:
  "hc_step s s' \<Longrightarrow> notify_inv (hs_checker s) (hs_emitted s) \<Longrightarrow> notify_inv (hs_checker s') (hs_emitted s')"
  by (induction rule: hc_step.induct)
    (simp_all add: StopChecking_def loop_begin_def notify_inv_updateStatus notify_inv_runCheck notify_inv_drain)

text \<open>
  C16. However the API calls, the check loops and the drainer interleave: at most 1024 status
  changes are pending; at most one drainer runs, and one does whenever a change is pending;
  the pending changes are the most recently emitted ones, in order, and the delivered ones
  are a subsequence, in order, of those emitted before them. So no listener sees two changes
  in the wrong order, and only the oldest are ever dropped.
\<close>
theorem health_changes_delivered_in_order:
  assumes "hc_reachable s"
  shows "length (hc_notifyQueue (hs_checker s)) \<le> maxPendingNotifications \<and>
         hc_drainers (hs_checker s) \<le> 1 \<and>
         (hc_notifyQueue (hs_checker s) \<noteq> [] \<longrightarrow> hc_drainers (hs_checker s) = 1) \<and>
         (\<exists>older. hs_emitted s = older @ hc_notifyQueue (hs_checker s) \<and>
                  subseq (hc_delivered (hs_checker s)) older)"
proof -
  have "notify_inv (hs_checker s) (hs_emitted s)"
    using assms
    by (induction rule: hc_reachable.induct)
      (auto simp: notify_inv_step, auto simp: notify_inv_def NewHealthChecker_def)
  then show ?thesis by (auto simp: notify_inv_def)
qed


definition idle_system :: hc_system where
  "idle_system = \<lparr>hs_checker = NewHealthChecker, hs_phase = (\<lambda>_. LoopWaiting), hs_emitted = []\<rparr>"

lemma reachable_idle: "hc_reachable idle_system"
  unfolding idle_system_def by (rule hc_init)

text \<open>A callback, a registration and a started loop that reports its first status.\<close>

definition started_system :: hc_system where
  "started_system =
     idle_system\<lparr>hs_checker := StartChecking demo_handle
       (RegisterInstance 0 ''web'' demo_config (OnHealthChange 7 NewHealthChecker))\<rparr>"

lemma reachable_started: "hc_reachable started_system"
proof -
  let ?s1 = "idle_system\<lparr>hs_checker := OnHealthChange 7 (hs_checker idle_system)\<rparr>"
  let ?s2 = "?s1\<lparr>hs_checker := RegisterInstance 0 ''web'' demo_config (hs_checker ?s1)\<rparr>"
  have "hc_reachable ?s1" by (rule hc_next [OF reachable_idle hc_step.callback])
  then have "hc_reachable ?s2" by (rule hc_next [OF _ hc_step.register])
  then have "hc_reachable (?s2\<lparr>hs_checker := StartChecking demo_handle (hs_checker ?s2)\<rparr>)"
    by (rule hc_next [OF _ hc_step.start])
  then show ?thesis by (simp add: started_system_def idle_system_def)
qed

definition ready_system :: hc_system where
  "ready_system =
     (let hc = hs_checker started_system; hc' = loop_begin 5 ''web'' hc in
      started_system\<lparr>hs_checker := hc', hs_phase := (hs_phase started_system)(0 := LoopTicking),
        hs_emitted := hs_emitted started_system @ status_change ''web'' hc hc'\<rparr>)"

lemmas demo_system_defs = started_system_def idle_system_def demo_handle_def demo_config_def
  RegisterInstance_def StartChecking_def OnHealthChange_def NewHealthChecker_def stop_loop_def Let_def

lemma reachable_ready: "hc_reachable ready_system"
  unfolding ready_system_def Let_def
  by (rule hc_next [OF reachable_started], rule hc_step.loop_ready [where h = demo_handle and cfg = demo_config])
    (simp_all add: demo_system_defs)

theorem health_changes_delivered_in_order_witness:
  "length (hc_notifyQueue (hs_checker ready_system)) \<le> maxPendingNotifications \<and>
   hc_drainers (hs_checker ready_system) \<le> 1 \<and>
   (\<exists>older. hs_emitted ready_system = older @ hc_notifyQueue (hs_checker ready_system) \<and>
            subseq (hc_delivered (hs_checker ready_system)) older)"
  using health_changes_delivered_in_order [OF reachable_ready] by blast

subsection \<open>Stop channels\<close>

text \<open>
  Each channel made is an index of the list of loops; the channel in \<open>stopChans\<close> of an
  instance belongs to a loop of that instance and is open, and every open channel is the one
  in the map.
\<close>

definition loop_instance :: "health_checker \<Rightarrow> nat \<Rightarrow> string" where
  "loop_instance hc c = fst (hc_loops hc ! c)"

definition chan_inv :: "health_checker \<Rightarrow> bool" where
  "chan_inv hc \<longleftrightarrow>
     distinct (hc_closed hc) \<and> (\<forall>c \<in> set (hc_closed hc). c < length (hc_loops hc)) \<and>
     (\<forall>i c. hc_stopChans hc i = Some c \<longleftrightarrow>
        c < length (hc_loops hc) \<and> loop_instance hc c = i \<and> c \<notin> set (hc_closed hc))"

lemma chan_inv_open:
  "chan_inv hc \<Longrightarrow> hc_stopChans hc i = Some c \<longleftrightarrow>
     c < length (hc_loops hc) \<and> loop_instance hc c = i \<and> c \<notin> set (hc_closed hc)"
  by (simp add: chan_inv_def)

lemma chan_inv_frame:
  "hc_closed hc' = hc_closed hc \<Longrightarrow> hc_loops hc' = hc_loops hc \<Longrightarrow> hc_stopChans hc' = hc_stopChans hc \<Longrightarrow>
   chan_inv hc' = chan_inv hc"
  by (simp add: chan_inv_def loop_instance_def)

lemma chan_inv_stop_loop: "chan_inv hc \<Longrightarrow> chan_inv (stop_loop i hc)"
proof (cases "hc_stopChans hc i")
  case (Some c)
  assume inv: "chan_inv hc"
  have f: "hc_closed (stop_loop i hc) = hc_closed hc @ [c]" "hc_loops (stop_loop i hc) = hc_loops hc"
    "hc_stopChans (stop_loop i hc) = (hc_stopChans hc)(i := None)"
    using Some by (simp_all add: stop_loop_def)
  have c: "c < length (hc_loops hc)" "c \<notin> set (hc_closed hc)" "loop_instance hc c = i"
    using inv Some by (simp_all add: chan_inv_open)
  have "((hc_stopChans hc)(i := None)) j = Some d \<longleftrightarrow>
        d < length (hc_loops hc) \<and> loop_instance hc d = j \<and> d \<notin> set (hc_closed hc @ [c])" for j d
    using chan_inv_open [OF inv, of j d] chan_inv_open [OF inv, of i d] Some c by auto
  with inv c show ?thesis unfolding chan_inv_def f loop_instance_def by simp
qed (simp add: stop_loop_def)

text \<open>A started loop takes the channel of its instance, after closing the one it replaces.\<close>

lemma StartChecking_form:
  assumes "hc_configs hc (ih_ID h) = Some cfg"
  shows "StartChecking h hc =
         (let hc1 = stop_loop (ih_ID h) hc in
          hc1\<lparr>hc_stopChans := (hc_stopChans hc1)(ih_ID h \<mapsto> length (hc_loops hc1)),
              hc_loops := hc_loops hc1 @ [(ih_ID h, h, cfg)]\<rparr>)"
  using assms by (simp add: StartChecking_def stop_loop_def Let_def split: option.splits)

lemma chan_inv_new_loop:
  assumes inv: "chan_inv hc" and none: "hc_stopChans hc i = None"
  shows "chan_inv (hc\<lparr>hc_stopChans := (hc_stopChans hc)(i \<mapsto> length (hc_loops hc)),
                     hc_loops := hc_loops hc @ [(i, h, cfg)]\<rparr>)" (is "chan_inv ?hc")
proof -
  have f: "hc_closed ?hc = hc_closed hc" "hc_loops ?hc = hc_loops hc @ [(i, h, cfg)]"
    "hc_stopChans ?hc = (hc_stopChans hc)(i \<mapsto> length (hc_loops hc))" by simp_all
  have bound: "\<forall>c \<in> set (hc_closed hc). c < length (hc_loops hc)" using inv by (simp add: chan_inv_def)
  have "((hc_stopChans hc)(i \<mapsto> length (hc_loops hc))) j = Some d \<longleftrightarrow>
        d < length (hc_loops ?hc) \<and> loop_instance ?hc d = j \<and> d \<notin> set (hc_closed hc)" for j d
    using chan_inv_open [OF inv, of j d] chan_inv_open [OF inv, of i d] none bound
    by (auto simp: loop_instance_def nth_append less_Suc_eq)
  with inv bound show ?thesis unfolding chan_inv_def f by (simp add: less_Suc_eq)
qed

lemma chan_inv_start: "chan_inv hc \<Longrightarrow> chan_inv (StartChecking h hc)"
proof (cases "hc_configs hc (ih_ID h)")
  case None
  assume "chan_inv hc"
  with None show ?thesis by (simp add: StartChecking_def Let_def)
next
  case (Some cfg)
  assume inv: "chan_inv hc"
  have "hc_stopChans (stop_loop (ih_ID h) hc) (ih_ID h) = None"
    by (simp add: stop_loop_def split: option.splits)
  with chan_inv_stop_loop [OF inv] show ?thesis
    unfolding StartChecking_form [OF Some] Let_def by (intro chan_inv_new_loop) auto
qed

lemma chan_inv_frames [simp]:
  "chan_inv (OnHealthChange cb hc) = chan_inv hc"
  "chan_inv (notify i a b hc) = chan_inv hc"
  "chan_inv (updateStatus now i st m hc) = chan_inv hc"
  by (simp_all add: chan_inv_def loop_instance_def OnHealthChange_def updateStatus_def Let_def)

lemma chan_inv_drain [simp]: "chan_inv (drain_round hc) = chan_inv hc"
  by (rule chan_inv_frame) (simp_all add: drain_round_def split: list.splits)

lemma chan_inv_registration [simp]:
  "chan_inv (RegisterInstance now i cfg hc) = chan_inv (stop_loop i hc)"
  "chan_inv (UnregisterInstance i hc) = chan_inv (stop_loop i hc)"
  by (simp_all add: chan_inv_def loop_instance_def RegisterInstance_def UnregisterInstance_def Let_def)

lemma chan_inv_runCheck [simp]: "chan_inv (runCheck se now d h cfg out hc) = chan_inv hc"
proof (cases "hcc_Command cfg = []")
  case False
  show ?thesis
    by (rule runCheck_form [OF False, of se now d h out hc]) (simp add: chan_inv_def loop_instance_def)
qed (simp add: runCheck_def Let_def)

lemma chan_inv_step: "hc_step s s' \<Longrightarrow> chan_inv (hs_checker s) \<Longrightarrow> chan_inv (hs_checker s')"
  by (induction rule: hc_step.induct)
    (simp_all add: StopChecking_def loop_begin_def chan_inv_stop_loop chan_inv_start)

lemma chan_inv_reachable: "hc_reachable s \<Longrightarrow> chan_inv (hs_checker s)"
  by (induction rule: hc_reachable.induct)
    (simp_all add: chan_inv_step, simp add: chan_inv_def NewHealthChecker_def)

text \<open>
  However the API and the loops interleave, no stop channel is closed twice, which would
  panic, and an instance never has two check loops that nobody has told to stop.
\<close>
theorem stop_channels_sound:
  assumes "hc_reachable s"
  shows "distinct (hc_closed (hs_checker s)) \<and>
         (\<forall>c c'. c < length (hc_loops (hs_checker s)) \<longrightarrow> c' < length (hc_loops (hs_checker s)) \<longrightarrow>
            c \<notin> set (hc_closed (hs_checker s)) \<longrightarrow> c' \<notin> set (hc_closed (hs_checker s)) \<longrightarrow>
            loop_instance (hs_checker s) c = loop_instance (hs_checker s) c' \<longrightarrow> c = c')"
proof -
  have inv: "chan_inv (hs_checker s)" by (rule chan_inv_reachable [OF assms])
  then have "c = c'" if "c < length (hc_loops (hs_checker s))" "c' < length (hc_loops (hs_checker s))"
    "c \<notin> set (hc_closed (hs_checker s))" "c' \<notin> set (hc_closed (hs_checker s))"
    "loop_instance (hs_checker s) c = loop_instance (hs_checker s) c'" for c c'
    using that unfolding chan_inv_def by (metis option.inject)
  with inv show ?thesis by (auto simp: chan_inv_def)
qed

text \<open>A second start for the same instance closes the first loop's channel.\<close>

definition restarted_system :: hc_system where
  "restarted_system =
     started_system\<lparr>hs_checker := StartChecking demo_handle (hs_checker started_system)\<rparr>"

lemma restarted_channels:
  "hc_closed (hs_checker restarted_system) = [0]" "length (hc_loops (hs_checker restarted_system)) = 2"
  by (simp_all add: restarted_system_def demo_system_defs)

theorem stop_channels_sound_witness:
  "hc_closed (hs_checker restarted_system) = [0] \<and> length (hc_loops (hs_checker restarted_system)) = 2 \<and>
   distinct (hc_closed (hs_checker restarted_system))"
proof -
  have "hc_reachable restarted_system"
    unfolding restarted_system_def by (rule hc_next [OF reachable_started hc_step.start])
  then show ?thesis
    using stop_channels_sound [of restarted_system] restarted_channels by blast
qed


section \<open>An in-flight check and unregistration\<close>

text \<open>
  A check that was in flight when its instance was unregistered records its result all the
  same: \<open>runCheck\<close> writes the maps without asking whether the instance is still registered.
\<close>

theorem late_check_revives_result:
  "hc_configs (runCheck se now d h cfg out (UnregisterInstance (ih_ID h) hc)) (ih_ID h) = None \<and>
   hc_results (runCheck se now d h cfg out (UnregisterInstance (ih_ID h) hc)) (ih_ID h) \<noteq> None"
proof (cases "hcc_Command cfg = []")
  case False
  show ?thesis
    by (rule runCheck_form [OF False, of se now d h out "UnregisterInstance (ih_ID h) hc"])
      (simp add: UnregisterInstance_def Let_def)
qed (simp add: runCheck_def updateStatus_def UnregisterInstance_def Let_def)

section \<open>The limits of the automatic restarter\<close>

text \<open>
  Health changes of one instance, each with the time it is handled and the time the restart
  goroutine it starts, if any, runs; each restart has begun before the next change. The
  result is the times at which restarts began and the state.
\<close>

fun restart_run ::
    "string \<Rightarrow> (int \<times> HealthStatus \<times> int) list \<Rightarrow> 'p auto_restarter \<Rightarrow> int list \<times> 'p auto_restarter" where
  "restart_run i [] ar = ([], ar)"
| "restart_run i ((now, st, at) # evs) ar =
     (case ar_onHealthChange now i st ar of
        (False, ar1) \<Rightarrow> restart_run i evs ar1
      | (True, ar1) \<Rightarrow>
          (case restart_run i evs (restart_begin at i ar1) of (ts, ar2) \<Rightarrow> (at # ts, ar2)))"

text \<open>Everything a restart needs, and what it leaves of the counters.\<close>

lemma onHealthChange_restarts:
  assumes "ar_onHealthChange now i st ar = (True, ar1)" "ar_restartPolicy ar i = Some p"
    "rp_ResetCounterAfter p \<le> 0"
  shows "rp_Enabled p" "st = HealthStatusUnhealthy"
    "rp_MaxRestarts p > 0 \<Longrightarrow> int (count_of (ar_restartCounts ar) i) < rp_MaxRestarts p"
    "ar_lastRestart ar i = Some t \<Longrightarrow> rp_RestartDelay p \<le> now - t"
  using assms by (auto simp: ar_onHealthChange_def Let_def split: if_splits option.splits)

lemma onHealthChange_frame:
  assumes "ar_onHealthChange now i st ar = (b, ar1)" "ar_restartPolicy ar i = Some p"
    "rp_ResetCounterAfter p \<le> 0"
  shows "ar_restartPolicy ar1 = ar_restartPolicy ar" "ar_restartCounts ar1 = ar_restartCounts ar"
    "ar_lastRestart ar1 = ar_lastRestart ar" "ar_targets ar1 = ar_targets ar"
  using assms by (auto simp: ar_onHealthChange_def Let_def split: if_splits option.splits)

lemma restart_run_count:
  assumes "restart_run i evs ar = (ts, ar')" "ar_restartPolicy ar i = Some p" "rp_ResetCounterAfter p \<le> 0"
    "rp_MaxRestarts p > 0" "int (count_of (ar_restartCounts ar) i) \<le> rp_MaxRestarts p"
  shows "count_of (ar_restartCounts ar') i = count_of (ar_restartCounts ar) i + length ts \<and>
         int (count_of (ar_restartCounts ar') i) \<le> rp_MaxRestarts p"
  using assms
proof (induction evs arbitrary: ar ts)
  case (Cons e evs)
  obtain now st at where e: "e = (now, st, at)" by (cases e)
  obtain b ar1 where h: "ar_onHealthChange now i st ar = (b, ar1)" by fastforce
  note frame = onHealthChange_frame [OF h Cons.prems(2,3)]
  show ?case
  proof (cases b)
    case False
    with h e Cons.prems Cons.IH [of ar1 ts] frame show ?thesis by simp
  next
    case True
    obtain ts1 where ts: "restart_run i evs (restart_begin at i ar1) = (ts1, ar')" "ts = at # ts1"
      using Cons.prems(1) h e True by (auto split: prod.splits)
    have "int (count_of (ar_restartCounts ar) i) < rp_MaxRestarts p"
      using onHealthChange_restarts(3) [of now i st ar ar1 p] h True Cons.prems by simp
    with Cons.IH [OF ts(1)] ts(2) frame Cons.prems(2-5) show ?thesis
      by (simp add: restart_begin_def count_of_def)
  qed
qed simp

fun spaced :: "int \<Rightarrow> int list \<Rightarrow> bool" where
  "spaced d (a # b # ts) \<longleftrightarrow> d \<le> b - a \<and> spaced d (b # ts)"
| "spaced d _ \<longleftrightarrow> True"

lemma restart_run_spaced:
  assumes "restart_run i evs ar = (ts, ar')" "ar_restartPolicy ar i = Some p" "rp_ResetCounterAfter p \<le> 0"
    "\<forall>(now, st, at) \<in> set evs. now \<le> at"
  shows "spaced (rp_RestartDelay p) (case ar_lastRestart ar i of None \<Rightarrow> ts | Some t \<Rightarrow> t # ts)"
  using assms
proof (induction evs arbitrary: ar ts)
  case (Cons e evs)
  obtain now st at where e: "e = (now, st, at)" by (cases e)
  obtain b ar1 where h: "ar_onHealthChange now i st ar = (b, ar1)" by fastforce
  note frame = onHealthChange_frame [OF h Cons.prems(2,3)]
  show ?case
  proof (cases b)
    case False
    with h e Cons.prems Cons.IH [of ar1 ts] frame show ?thesis by simp
  next
    case True
    obtain ts1 where ts: "restart_run i evs (restart_begin at i ar1) = (ts1, ar')" "ts = at # ts1"
      using Cons.prems(1) h e True by (auto split: prod.splits)
    have rest: "spaced (rp_RestartDelay p) (at # ts1)"
      using Cons.IH [OF ts(1)] frame Cons.prems(2-4) by (simp add: restart_begin_def)
    have "rp_RestartDelay p \<le> now - t" if "ar_lastRestart ar i = Some t" for t
      using onHealthChange_restarts(4) [of now i st ar ar1 p t] h True Cons.prems that by simp
    with rest ts(2) e Cons.prems(4) show ?thesis by (force split: option.splits)
  qed
qed (auto split: option.splits)


definition demo_policy :: restart_policy where
  "demo_policy = \<lparr>rp_Enabled = True, rp_MaxRestarts = 2, rp_RestartDelay = 10, rp_ResetCounterAfter = 0\<rparr>"

definition demo_restarter :: "nat auto_restarter" where
  "demo_restarter = SetPolicy ''web'' demo_policy (NewAutoRestarter None)"

definition demo_changes :: "(int \<times> HealthStatus \<times> int) list" where
  "demo_changes =
     [(0, HealthStatusUnhealthy, 1), (5, HealthStatusUnhealthy, 6), (20, HealthStatusUnhealthy, 20),
      (50, HealthStatusUnhealthy, 50)]"


text \<open>
  The count is raised by the goroutine, not by the decision: two health changes handled before
  the first goroutine runs both start a restart, past a limit of one.
\<close>

theorem restart_limit_race:
  defines "ar0 \<equiv> SetPolicy ''web'' (demo_policy\<lparr>rp_MaxRestarts := 1\<rparr>) (NewAutoRestarter None :: nat auto_restarter)"
  shows "fst (ar_onHealthChange 0 ''web'' HealthStatusUnhealthy ar0) \<and>
         fst (ar_onHealthChange 1 ''web'' HealthStatusUnhealthy
                (snd (ar_onHealthChange 0 ''web'' HealthStatusUnhealthy ar0)))"
  by (simp add: ar0_def SetPolicy_def NewAutoRestarter_def demo_policy_def ar_onHealthChange_def count_of_def)

end
