(* ===== verification/Discovery.thy ===== *)
theory Discovery
  imports Health Validation "HOL-Library.Product_Lexorder" "HOL-Library.Multiset"
begin

text \<open>
  \<open>pkg/orchestration/discovery.go\<close> and \<open>registry_exec.go\<close>: the registry of discoverable
  services, the resolver and the environment builder over it, and the dispatcher that runs a
  command through the provider that owns the instance. Values of the model are never shared,
  so \<open>cloneServiceInfo\<close> is the identity.
\<close>

section \<open>Services\<close>

record service_port =
  sp_Port :: int
  sp_Protocol :: string
  sp_Name :: string

record service_info =
  sv_Name :: string
  sv_StackName :: string
  sv_Addresses :: "string list"
  sv_Ports :: "service_port list"
  sv_Status :: string
  sv_Health :: HealthStatus
  sv_Labels :: "string \<rightharpoonup> string"

type_synonym service_registry = "string \<rightharpoonup> service_info"

definition NewServiceRegistry :: service_registry where
  "NewServiceRegistry = Map.empty"

definition serviceKey :: "string \<Rightarrow> string \<Rightarrow> string" where
  "serviceKey stackName serviceName =
     (if stackName = [] then serviceName else stackName @ ''/'' @ serviceName)"

definition RegisterService :: "service_info \<Rightarrow> service_registry \<Rightarrow> service_registry" where
  "RegisterService info sr = sr(serviceKey (sv_StackName info) (sv_Name info) \<mapsto> info)"

definition UnregisterService :: "string \<Rightarrow> string \<Rightarrow> service_registry \<Rightarrow> service_registry" where
  "UnregisterService stackName serviceName sr = sr(serviceKey stackName serviceName := None)"

definition GetService :: "service_registry \<Rightarrow> string \<Rightarrow> string \<Rightarrow> service_info option" where
  "GetService sr stackName serviceName = sr (serviceKey stackName serviceName)"

text \<open>
  \<open>List\<close>: \<open>visited\<close> is the order in which the range over the map visits the services;
  \<open>sort.Slice\<close> compares the stack names, then the names.
\<close>

definition service_order :: "service_info \<Rightarrow> string \<times> string" where
  "service_order s = (sv_StackName s, sv_Name s)"

definition ListServices :: "service_info list \<Rightarrow> string \<Rightarrow> service_info list" where
  "ListServices visited stackName =
     sort_key service_order (filter (\<lambda>s. stackName = [] \<or> sv_StackName s = stackName) visited)"

text \<open>A visit of the registry: every service once, in some order.\<close>

definition visits :: "service_registry \<Rightarrow> service_info list \<Rightarrow> bool" where
  "visits sr visited \<longleftrightarrow> distinct visited \<and> set visited = ran sr"

definition UpdateHealth :: "string \<Rightarrow> string \<Rightarrow> HealthStatus \<Rightarrow> service_registry \<Rightarrow> service_registry" where
  "UpdateHealth stackName serviceName health sr =
     (case sr (serviceKey stackName serviceName) of
        None \<Rightarrow> sr
      | Some svc \<Rightarrow> sr(serviceKey stackName serviceName \<mapsto> svc\<lparr>sv_Health := health\<rparr>))"

definition UpdateServiceStatus :: "string \<Rightarrow> string \<Rightarrow> string \<Rightarrow> service_registry \<Rightarrow> service_registry" where
  "UpdateServiceStatus stackName serviceName status sr =
     (case sr (serviceKey stackName serviceName) of
        None \<Rightarrow> sr
      | Some svc \<Rightarrow> sr(serviceKey stackName serviceName \<mapsto> svc\<lparr>sv_Status := status\<rparr>))"

section \<open>Resolution\<close>

definition parseServiceName :: "string \<Rightarrow> string \<times> string" where
  "parseServiceName name =
     (case cut_at CHR ''/'' name of
        Some (stack, svc) \<Rightarrow> (stack, svc)
      | None \<Rightarrow>
          (case cut_last CHR ''.'' name of
             Some (svc, stack) \<Rightarrow> (stack, svc)
           | None \<Rightarrow> ([], name)))"

definition Resolve :: "service_registry \<Rightarrow> string \<Rightarrow> string list go_result" where
  "Resolve sr name =
     (case parseServiceName name of (stackName, serviceName) \<Rightarrow>
        (case GetService sr stackName serviceName of
           None \<Rightarrow> Inl (Errorf ''service not found: %s'' [name])
         | Some info \<Rightarrow>
             if sv_Addresses info = [] then Inl (Errorf ''service has no addresses: %s'' [name])
             else Inr (sv_Addresses info)))"

text \<open>\<open>net.JoinHostPort\<close>: a host with a colon is bracketed.\<close>

definition JoinHostPort :: "string \<Rightarrow> string \<Rightarrow> string" where
  "JoinHostPort host port =
     (if CHR '':'' \<in> set host then ''['' @ host @ '']:'' @ port else host @ '':'' @ port)"

text \<open>The port search: the first port of that name, and the very first one for an empty name.\<close>

definition find_port :: "service_port list \<Rightarrow> string \<Rightarrow> service_port option" where
  "find_port ports portName =
     (if portName = [] then (case ports of [] \<Rightarrow> None | p # _ \<Rightarrow> Some p)
      else find (\<lambda>p. sp_Name p = portName) ports)"

definition ResolveWithPort :: "service_registry \<Rightarrow> string \<Rightarrow> string \<Rightarrow> string list go_result" where
  "ResolveWithPort sr name portName =
     (case parseServiceName name of (stackName, serviceName) \<Rightarrow>
        (case GetService sr stackName serviceName of
           None \<Rightarrow> Inl (Errorf ''service not found: %s'' [name])
         | Some info \<Rightarrow>
             (case find_port (sv_Ports info) portName of
                None \<Rightarrow> Inl (Errorf ''port not found: %s'' [portName])
              | Some p \<Rightarrow> Inr (map (\<lambda>a. JoinHostPort a (itoa (sp_Port p))) (sv_Addresses info)))))"

section \<open>The environment of an instance\<close>

text \<open>
  \<open>sanitizeEnvName\<close> ranges over the runes of the name; only ASCII runes are kept, and no
  byte of a longer rune is ASCII, so the loop is one over the bytes.
\<close>

definition env_char :: "char \<Rightarrow> string" where
  "env_char c =
     (if in_range (CHR ''A'', CHR ''Z'') c then [c]
      else if in_range (CHR ''a'', CHR ''z'') c then [char_of (byte c - 32)]
      else if in_range (CHR ''0'', CHR ''9'') c then [c]
      else if c = CHR ''-'' \<or> c = CHR ''_'' \<or> c = CHR ''.'' then ''_''
      else [])"

definition sanitizeEnvName :: "string \<Rightarrow> string" where
  "sanitizeEnvName name =
     (let result = concat (map env_char name) in
      case result of
        [] \<Rightarrow> ''_''
      | c # _ \<Rightarrow> if in_range (CHR ''0'', CHR ''9'') c then ''_'' @ result else result)"

definition env_prefix :: "string \<Rightarrow> service_info \<Rightarrow> string" where
  "env_prefix stackName svc =
     (let pre = sanitizeEnvName (sv_Name svc) in
      if sv_StackName svc \<noteq> [] \<and> sv_StackName svc \<noteq> stackName
      then sanitizeEnvName (sv_StackName svc) @ ''_'' @ pre else pre)"

definition host_vars :: "string \<Rightarrow> service_info \<Rightarrow> (string \<times> string) list" where
  "host_vars pre svc =
     (case sv_Addresses svc of [] \<Rightarrow> [] | a # _ \<Rightarrow> [(pre @ ''_HOST'', a)])"

definition port_vars :: "string \<Rightarrow> service_info \<Rightarrow> (string \<times> string) list" where
  "port_vars pre svc =
     (case sv_Ports svc of
        [] \<Rightarrow> []
      | port # _ \<Rightarrow>
          [(pre @ ''_PORT'', itoa (sp_Port port))] @
          (case sv_Addresses svc of
             [] \<Rightarrow> []
           | a # _ \<Rightarrow> [(pre @ ''_ADDR'', JoinHostPort a (itoa (sp_Port port)))]) @
          map (\<lambda>p. (pre @ ''_'' @ sanitizeEnvName (sp_Name p) @ ''_PORT'', itoa (sp_Port p)))
            (filter (\<lambda>p. sp_Name p \<noteq> []) (sv_Ports svc)))"

definition service_env :: "string \<Rightarrow> service_info \<Rightarrow> (string \<times> string) list" where
  "service_env stackName svc =
     (let pre = env_prefix stackName svc in host_vars pre svc @ port_vars pre svc)"

text \<open>The assignments in the order they are made; a later one replaces an earlier one.\<close>

definition env_assignments :: "service_info list \<Rightarrow> string \<Rightarrow> (string \<times> string) list" where
  "env_assignments visited stackName = concat (map (service_env stackName) (ListServices visited stackName))"

definition BuildEnv :: "service_info list \<Rightarrow> string \<Rightarrow> string \<rightharpoonup> string" where
  "BuildEnv visited stackName = map_of (rev (env_assignments visited stackName))"

section \<open>Commands through the owning provider\<close>

text \<open>
  \<open>registryExecProvider\<close>: the registry may be nil; \<open>as_exec\<close> is the type assertion to
  \<open>ExecProvider\<close> and \<open>run\<close> the command itself.
\<close>

definition execFor ::
    "('p \<Rightarrow> 'x option) \<Rightarrow> 'p registry option \<Rightarrow> instance_handle \<Rightarrow> 'x go_result" where
  "execFor as_exec r h =
     (case r of
        None \<Rightarrow> Inl (Errorf ''no provider registry to reach instance %s'' [ih_ID h])
      | Some reg \<Rightarrow>
          (case RegistryGet reg (ih_Provider h) of
             Inl e \<Rightarrow> Inl (Wrapf ''provider %s is not available: %w'' [ih_Provider h] e)
           | Inr prov \<Rightarrow>
               (case as_exec prov of
                  None \<Rightarrow> Inl (Errorf ''provider %s cannot run a command inside an instance'' [ih_Provider h])
                | Some x \<Rightarrow> Inr x)))"

definition ExecCommand ::
    "('p \<Rightarrow> 'x option) \<Rightarrow> ('x \<Rightarrow> instance_handle \<Rightarrow> exec_options \<Rightarrow> 'r go_result) \<Rightarrow>
     'p registry option \<Rightarrow> instance_handle \<Rightarrow> exec_options \<Rightarrow> 'r go_result" where
  "ExecCommand as_exec run r h opts = bind_res (execFor as_exec r h) (\<lambda>x. run x h opts)"

definition ExecInteractive ::
    "('p \<Rightarrow> 'x option) \<Rightarrow> ('x \<Rightarrow> instance_handle \<Rightarrow> exec_options \<Rightarrow> go_error option) \<Rightarrow>
     'p registry option \<Rightarrow> instance_handle \<Rightarrow> exec_options \<Rightarrow> go_error option" where
  "ExecInteractive as_exec run r h opts =
     (case execFor as_exec r h of Inl e \<Rightarrow> Some e | Inr x \<Rightarrow> run x h opts)"

section \<open>The registry's contract\<close>

text \<open>
  What the stack manager, the resolver and the environment builder rely on: a service is
  found under its own key and no other, and a change of one key leaves the others alone.
\<close>

definition sr_inv :: "service_registry \<Rightarrow> bool" where
  "sr_inv sr \<longleftrightarrow> (\<forall>k s. sr k = Some s \<longrightarrow> k = serviceKey (sv_StackName s) (sv_Name s))"

locale service_directory =
  fixes inv :: "'r \<Rightarrow> bool"
    and reg :: "service_info \<Rightarrow> 'r \<Rightarrow> 'r"
    and unreg :: "string \<Rightarrow> string \<Rightarrow> 'r \<Rightarrow> 'r"
    and get :: "'r \<Rightarrow> string \<Rightarrow> string \<Rightarrow> service_info option"
  assumes inv_reg: "inv r \<Longrightarrow> inv (reg i r)"
    and inv_unreg: "inv r \<Longrightarrow> inv (unreg s n r)"
    and get_reg: "get (reg i r) s n =
      (if serviceKey s n = serviceKey (sv_StackName i) (sv_Name i) then Some i else get r s n)"
    and get_unreg: "get (unreg s n r) s' n' = (if serviceKey s' n' = serviceKey s n then None else get r s' n')"
    and get_own_key: "inv r \<Longrightarrow> get r s n = Some i \<Longrightarrow> serviceKey (sv_StackName i) (sv_Name i) = serviceKey s n"
begin

definition find_addresses :: "'r \<Rightarrow> string \<Rightarrow> string list option" where
  "find_addresses r name =
     (case parseServiceName name of (s, n) \<Rightarrow> map_option sv_Addresses (get r s n))"

lemma reg_then_unreg: "get (unreg s n (reg i r)) s n = None"
  by (simp add: get_unreg)

lemma addresses_after_reg:
  assumes "parseServiceName name = (sv_StackName i, sv_Name i)"
  shows "find_addresses (reg i r) name = Some (sv_Addresses i)"
  using assms by (simp add: find_addresses_def get_reg)

lemma addresses_other:
  assumes "parseServiceName name = (s, n)" "serviceKey s n \<noteq> serviceKey (sv_StackName i) (sv_Name i)"
  shows "find_addresses (reg i r) name = find_addresses r name"
  using assms by (simp add: find_addresses_def get_reg)

end

interpretation sd: service_directory sr_inv RegisterService UnregisterService GetService
  by unfold_locales
    (auto simp: sr_inv_def RegisterService_def UnregisterService_def GetService_def)

lemma sr_inv_new: "sr_inv NewServiceRegistry"
  by (simp add: sr_inv_def NewServiceRegistry_def)

lemma sr_inv_UpdateHealth: "sr_inv sr \<Longrightarrow> sr_inv (UpdateHealth s n h sr)"
  by (auto simp: sr_inv_def UpdateHealth_def split: option.splits if_splits)

lemma sr_inv_UpdateServiceStatus: "sr_inv sr \<Longrightarrow> sr_inv (UpdateServiceStatus s n st sr)"
  by (auto simp: sr_inv_def UpdateServiceStatus_def split: option.splits if_splits)

section \<open>Resolving a registered service\<close>

lemma parse_slash: "CHR ''/'' \<notin> set stack \<Longrightarrow> parseServiceName (stack @ ''/'' @ n) = (stack, n)"
proof -
  assume "CHR ''/'' \<notin> set stack"
  then have "cut_at CHR ''/'' (stack @ ''/'' @ n) = Some (stack, n)" by (simp add: cut_at_Some_iff)
  then show ?thesis by (simp add: parseServiceName_def)
qed

lemma parse_dot:
  assumes "CHR ''/'' \<notin> set n" "CHR ''/'' \<notin> set stack" "CHR ''.'' \<notin> set stack"
  shows "parseServiceName (n @ ''.'' @ stack) = (stack, n)"
proof -
  have "cut_at CHR ''/'' (n @ ''.'' @ stack) = None" using assms by (simp add: cut_at_None_iff)
  moreover have "cut_last CHR ''.'' (n @ ''.'' @ stack) = Some (n, stack)"
    using assms by (simp add: cut_last_Some_iff)
  ultimately show ?thesis by (simp add: parseServiceName_def)
qed

lemma Resolve_addresses:
  "sd.find_addresses sr name = Some as \<Longrightarrow> as \<noteq> [] \<Longrightarrow> Resolve sr name = Inr as"
  by (auto simp: sd.find_addresses_def Resolve_def split: prod.splits)

text \<open>
  A service registered in a stack, whose name and stack name hold no slash and whose stack name
  holds no dot, resolves to its addresses under both forms of its name,
  \<open>stack/service\<close> and \<open>service.stack\<close>, whatever else the registry holds.
\<close>
theorem registered_service_resolves:
  assumes "CHR ''/'' \<notin> set (sv_StackName i)" "CHR ''.'' \<notin> set (sv_StackName i)"
    "CHR ''/'' \<notin> set (sv_Name i)" "sv_Addresses i \<noteq> []"
  shows "Resolve (RegisterService i sr) (sv_StackName i @ ''/'' @ sv_Name i) = Inr (sv_Addresses i) \<and>
         Resolve (RegisterService i sr) (sv_Name i @ ''.'' @ sv_StackName i) = Inr (sv_Addresses i)"
  using Resolve_addresses sd.addresses_after_reg parse_slash [OF assms(1)]
    parse_dot [OF assms(3,1,2)] assms(4) by metis

definition demo_service :: service_info where
  "demo_service =
     \<lparr>sv_Name = ''app.v1'', sv_StackName = ''blog'', sv_Addresses = [''10.0.0.5''],
      sv_Ports = [\<lparr>sp_Port = 8080, sp_Protocol = ''tcp'', sp_Name = ''http''\<rparr>],
      sv_Status = ''running'', sv_Health = HealthStatusStarting, sv_Labels = Map.empty\<rparr>"

theorem registered_service_resolves_witness:
  "Resolve (RegisterService demo_service NewServiceRegistry) ''blog/app.v1'' = Inr [''10.0.0.5''] \<and>
   Resolve (RegisterService demo_service NewServiceRegistry) ''app.v1.blog'' = Inr [''10.0.0.5'']"
  using registered_service_resolves [of demo_service NewServiceRegistry] by (simp add: demo_service_def)

section \<open>The listing does not depend on the order of the map\<close>

lemma serviceKey_order: "service_order a = service_order b \<Longrightarrow>
   serviceKey (sv_StackName a) (sv_Name a) = serviceKey (sv_StackName b) (sv_Name b)"
  by (simp add: service_order_def)

lemma service_order_inj:
  assumes "sr_inv sr"
  shows "inj_on service_order (ran sr)"
proof (rule inj_onI)
  fix a b assume "a \<in> ran sr" "b \<in> ran sr" and eq: "service_order a = service_order b"
  then obtain k l where "sr k = Some a" "sr l = Some b" by (auto simp: ran_def)
  with assms serviceKey_order [OF eq] have "k = l" by (simp add: sr_inv_def)
  with \<open>sr k = Some a\<close> \<open>sr l = Some b\<close> show "a = b" by simp
qed

lemma ListServices_order:
  assumes inv: "sr_inv sr" and v: "visits sr xs" "visits sr ys"
  shows "ListServices xs stackName = ListServices ys stackName"
proof -
  let ?P = "\<lambda>s. stackName = [] \<or> sv_StackName s = stackName"
  have set: "set (filter ?P xs) = set (filter ?P ys)" using v by (auto simp: visits_def)
  have d: "distinct (filter ?P xs)" "distinct (filter ?P ys)" using v by (auto simp: visits_def)
  have inj: "inj_on service_order (set (filter ?P xs))"
    by (rule inj_on_subset [OF service_order_inj [OF inv]]) (use v(1) in \<open>auto simp: visits_def\<close>)
  have m: "mset (filter ?P xs) = mset (filter ?P ys)"
    using set d set_eq_iff_mset_eq_distinct by blast
  have "sort_key service_order (filter ?P xs) = sort_key service_order (filter ?P ys)"
    by (rule sort_key_inj_key_eq) (use inj m in simp_all)
  then show ?thesis by (simp add: ListServices_def)
qed


text \<open>
  Two ranges over the same registry, in whatever order each visits the map, list the same services
  in the same order and build the same environment.
\<close>
theorem listing_deterministic:
  assumes "sr_inv sr" "visits sr xs" "visits sr ys"
  shows "ListServices xs stackName = ListServices ys stackName \<and> BuildEnv xs stackName = BuildEnv ys stackName"
  using ListServices_order [OF assms] by (simp add: BuildEnv_def env_assignments_def)

definition demo_service2 :: service_info where
  "demo_service2 = demo_service\<lparr>sv_Name := ''db''\<rparr>"

definition demo_registry :: service_registry where
  "demo_registry = RegisterService demo_service2 (RegisterService demo_service NewServiceRegistry)"

lemma demo_registry_ran: "ran demo_registry = {demo_service, demo_service2}"
  by (simp add: demo_registry_def demo_service2_def demo_service_def RegisterService_def NewServiceRegistry_def
      serviceKey_def ran_map_upd insert_commute)

theorem listing_deterministic_witness:
  "ListServices [demo_service, demo_service2] [] = ListServices [demo_service2, demo_service] [] \<and>
   BuildEnv [demo_service, demo_service2] [] = BuildEnv [demo_service2, demo_service] []"
proof (rule listing_deterministic [of demo_registry])
  show "sr_inv demo_registry"
    unfolding demo_registry_def by (intro sd.inv_reg sr_inv_new)
  have "demo_service \<noteq> demo_service2" by (simp add: demo_service_def demo_service2_def)
  then show "visits demo_registry [demo_service, demo_service2]" "visits demo_registry [demo_service2, demo_service]"
    by (auto simp: visits_def demo_registry_ran)
qed

section \<open>Every variable has a valid name\<close>

definition env_tail_char :: "char \<Rightarrow> bool" where
  "env_tail_char c \<longleftrightarrow> in_class (cls_alnum @ [(CHR ''_'', CHR ''_'')]) c"

definition env_head_char :: "char \<Rightarrow> bool" where
  "env_head_char c \<longleftrightarrow> in_class (cls_alpha @ [(CHR ''_'', CHR ''_'')]) c"

lemma env_key_iff:
  "rx_match ValidEnvKeyRegex s \<longleftrightarrow> (\<exists>c r. s = c # r \<and> env_head_char c \<and> list_all env_tail_char r)"
  unfolding ValidEnvKeyRegex_def rx_match_iff rx_in_cls_then rx_in_RStar_cls
  by (simp add: env_head_char_def env_tail_char_def list_all_iff)

lemma env_key_append:
  "rx_match ValidEnvKeyRegex s \<Longrightarrow> list_all env_tail_char r \<Longrightarrow> rx_match ValidEnvKeyRegex (s @ r)"
  by (auto simp: env_key_iff)

lemma env_key_chars: "rx_match ValidEnvKeyRegex s \<Longrightarrow> list_all env_tail_char s"
  by (auto simp: env_key_iff env_head_char_def env_tail_char_def cls_alnum_def cls_alpha_def)

lemma env_char_tail: "list_all env_tail_char (env_char c)"
  by (auto simp: env_char_def env_tail_char_def cls_alnum_def cls_alpha_def in_range_def byte_def)

lemma env_tail_head: "env_tail_char c \<Longrightarrow> \<not> in_range (CHR ''0'', CHR ''9'') c \<Longrightarrow> env_head_char c"
  by (auto simp: env_head_char_def env_tail_char_def cls_alnum_def cls_alpha_def)

lemma sanitize_valid: "rx_match ValidEnvKeyRegex (sanitizeEnvName name)"
proof -
  have all: "list_all env_tail_char (concat (map env_char name))"
    using env_char_tail by (induction name) (simp_all)
  have us: "env_head_char CHR ''_''" by (simp add: env_head_char_def)
  show ?thesis
  proof (cases "concat (map env_char name)")
    case Nil
    with us show ?thesis by (simp only: sanitizeEnvName_def Let_def list.case) (simp add: env_key_iff del: rx_match.simps)
  next
    case (Cons c r)
    with all us env_tail_head [of c] show ?thesis
      by (simp only: sanitizeEnvName_def Let_def list.case) (auto simp: env_key_iff simp del: rx_match.simps)
  qed
qed

lemma env_suffixes:
  "list_all env_tail_char ''_HOST''" "list_all env_tail_char ''_PORT''"
  "list_all env_tail_char ''_ADDR''" "env_tail_char CHR ''_''"
  by (simp_all add: env_tail_char_def cls_alnum_def cls_alpha_def in_range_def byte_def)

lemma env_prefix_valid: "rx_match ValidEnvKeyRegex (env_prefix stackName svc)"
  by (simp add: env_prefix_def Let_def sanitize_valid env_key_append env_key_chars env_suffixes del: rx_match.simps)

lemma service_env_valid:
  assumes "(k, v) \<in> set (service_env stackName svc)"
  shows "rx_match ValidEnvKeyRegex k"
proof -
  let ?p = "env_prefix stackName svc"
  have "\<exists>r. k = ?p @ r \<and> list_all env_tail_char r"
    using assms env_suffixes env_key_chars [OF sanitize_valid]
    by (auto simp: service_env_def host_vars_def port_vars_def Let_def split: list.splits)
  then show ?thesis using env_key_append [OF env_prefix_valid] by blast
qed

text \<open>
  Every variable of a built environment has a name the environment validation accepts as
  well-formed, whatever bytes the names of the services, stacks and ports hold.
\<close>
theorem built_env_names_valid:
  "BuildEnv visited stackName k = Some v \<Longrightarrow> rx_match ValidEnvKeyRegex k"
  by (auto simp: BuildEnv_def env_assignments_def dest!: map_of_SomeD intro: service_env_valid)

lemma demo_env_text:
  "sanitizeEnvName ''app.v1'' = ''APP_V1''" "sanitizeEnvName ''blog'' = ''BLOG''"
  "sanitizeEnvName ''http'' = ''HTTP''" "itoa 8080 = ''8080''"
  by (simp_all add: sanitizeEnvName_def env_char_def in_range_def byte_def itoa_def itoa_nat.simps char_of_def bit_0)

theorem built_env_names_valid_witness:
  "BuildEnv [demo_service] [] ''BLOG_APP_V1_ADDR'' = Some ''10.0.0.5:8080'' \<and>
   rx_match ValidEnvKeyRegex ''BLOG_APP_V1_ADDR''"
proof -
  have "BuildEnv [demo_service] [] ''BLOG_APP_V1_ADDR'' = Some ''10.0.0.5:8080''"
    by (simp add: BuildEnv_def env_assignments_def ListServices_def demo_service_def service_env_def host_vars_def
        port_vars_def env_prefix_def demo_env_text JoinHostPort_def)
  from this built_env_names_valid [OF this] show ?thesis by (rule conjI)
qed

end
