(* ===== verification/Dependencies.thy ===== *)
theory Dependencies
  imports Prelude "HOL-Library.Multiset"
begin

text \<open>
  \<open>StackManager.buildDependencyOrder\<close> of \<open>pkg/orchestration/stack.go\<close>: the order in which
  the instances of a stack are deployed (Kahn's algorithm). The instances are any type with a
  name and a list of dependencies. A range over one of the maps visits the names in the order
  \<open>ns\<close>; every list collected that way is sorted before it is used.
\<close>

section \<open>The algorithm\<close>

text \<open>\<open>byName\<close> and \<open>deps\<close>: the last instance of a name wins.\<close>

definition byName :: "('i \<Rightarrow> string) \<Rightarrow> 'i list \<Rightarrow> string \<rightharpoonup> 'i" where
  "byName nm insts = map_of (map (\<lambda>i. (nm i, i)) (rev insts))"

definition deps_of :: "('i \<Rightarrow> string) \<Rightarrow> ('i \<Rightarrow> string list) \<Rightarrow> 'i list \<Rightarrow> string \<Rightarrow> string list" where
  "deps_of nm dp insts n = (case byName nm insts n of None \<Rightarrow> [] | Some i \<Rightarrow> dp i)"

text \<open>The inner loop over the dependencies of one instance when \<open>name\<close> has been placed.\<close>

definition relax_one ::
    "(string \<Rightarrow> string list) \<Rightarrow> string \<Rightarrow> string \<Rightarrow> (string \<Rightarrow> int) \<times> string list \<Rightarrow> (string \<Rightarrow> int) \<times> string list" where
  "relax_one deps name depName =
     fold (\<lambda>d (g, q).
             if d = name then
               let g' = g(depName := g depName - 1) in
               (g', if g' depName = 0 then q @ [depName] else q)
             else (g, q))
       (deps depName)"

definition relax ::
    "(string \<Rightarrow> string list) \<Rightarrow> string list \<Rightarrow> string \<Rightarrow> (string \<Rightarrow> int) \<Rightarrow> (string \<Rightarrow> int) \<times> string list" where
  "relax deps ns name g = fold (relax_one deps name) ns (g, [])"

text \<open>How much a placement can still bring: the queue never grows by more than this shrinks.\<close>

definition pending :: "string set \<Rightarrow> (string \<Rightarrow> int) \<Rightarrow> nat" where
  "pending S g = card {n \<in> S. 0 < g n}"

lemma pending_upd:
  assumes "finite S" "n \<in> S" "0 < g n" "v \<le> 0"
  shows "Suc (pending S (g(n := v))) = pending S g"
proof -
  have "{m \<in> S. 0 < g m} = insert n {m \<in> S. 0 < (g(n := v)) m}" using assms by auto
  moreover have "n \<notin> {m \<in> S. 0 < (g(n := v)) m}" using assms by simp
  ultimately show ?thesis using assms(1) by (simp add: pending_def)
qed

lemma pending_mono: "finite S \<Longrightarrow> (\<And>m. m \<in> S \<Longrightarrow> h m \<le> g m) \<Longrightarrow> pending S h \<le> pending S g"
  unfolding pending_def by (rule card_mono) (auto, fastforce)

lemma relax_one_step_bound:
  assumes "finite S" "n \<in> S"
  shows "length (if (g(n := g n - 1)) n = 0 then q @ [n] else q) + pending S (g(n := g n - 1))
    \<le> length q + pending S g"
proof (cases "g n = 1")
  case True
  then show ?thesis using pending_upd [OF assms, of g 0] by simp
next
  case False
  then show ?thesis using pending_mono [OF assms(1), of "g(n := g n - 1)" g] by simp
qed

lemma relax_one_bound:
  assumes "finite S" "n \<in> S"
  shows "length (snd (relax_one deps name n gq)) + pending S (fst (relax_one deps name n gq))
    \<le> length (snd gq) + pending S (fst gq)"
proof -
  let ?f = "\<lambda>d (g, q). if d = name then let g' = g(n := g n - 1) in
               (g', if g' n = 0 then q @ [n] else q) else (g, q)"
  have "length (snd (fold ?f ds gq)) + pending S (fst (fold ?f ds gq))
      \<le> length (snd gq) + pending S (fst gq)" for ds
  proof (induction ds arbitrary: gq)
    case (Cons d ds)
    obtain g q where gq: "gq = (g, q)" by fastforce
    have "length (snd (?f d gq)) + pending S (fst (?f d gq)) \<le> length (snd gq) + pending S (fst gq)"
      using relax_one_step_bound [OF assms, of g q] by (auto simp: gq Let_def)
    with Cons.IH [of "?f d gq"] show ?case by (simp only: fold_simps o_apply)
  qed simp
  then show ?thesis by (simp add: relax_one_def)
qed

lemma relax_bound:
  "length (snd (relax deps ns name g)) + pending (set ns) (fst (relax deps ns name g)) \<le> pending (set ns) g"
proof -
  have "set ms \<subseteq> S \<Longrightarrow> finite S \<Longrightarrow>
      length (snd (fold (relax_one deps name) ms gq)) + pending S (fst (fold (relax_one deps name) ms gq))
      \<le> length (snd gq) + pending S (fst gq)" for ms gq S
  proof (induction ms arbitrary: gq)
    case (Cons m ms)
    from Cons.prems have "m \<in> S" "finite S" by simp_all
    then have "length (snd (relax_one deps name m gq)) + pending S (fst (relax_one deps name m gq))
        \<le> length (snd gq) + pending S (fst gq)" by (intro relax_one_bound)
    with Cons show ?case by (fastforce dest: Cons.IH [of "relax_one deps name m gq"])
  qed simp
  from this [of ns "set ns" "(g, [])"] show ?thesis by (simp add: relax_def)
qed

text \<open>The main loop: names in the order they are placed.\<close>

function kahn ::
    "(string \<Rightarrow> string list) \<Rightarrow> string list \<Rightarrow> string list \<Rightarrow> (string \<Rightarrow> int) \<Rightarrow> string list \<Rightarrow> string list" where
  "kahn deps ns [] g res = res"
| "kahn deps ns (name # queue) g res =
     kahn deps ns (queue @ sort (snd (relax deps ns name g))) (fst (relax deps ns name g)) (res @ [name])"
  by pat_completeness auto
termination
proof (relation "measure (\<lambda>(deps, ns, queue, g, res). length queue + pending (set ns) g)")
  fix deps ns name queue and g :: "string \<Rightarrow> int" and res
  show "((deps, ns, queue @ sort (snd (relax deps ns name g)), fst (relax deps ns name g), res @ [name]),
         (deps, ns, name # queue, g, res)) \<in> measure (\<lambda>(deps, ns, queue, g, res). length queue + pending (set ns) g)"
    using relax_bound [of deps ns name g] by simp
qed simp

fun first_duplicate :: "string list \<Rightarrow> string set \<Rightarrow> string option" where
  "first_duplicate [] seen = None"
| "first_duplicate (n # ns) seen = (if n \<in> seen then Some n else first_duplicate ns (insert n seen))"

text \<open>The first unknown reference the range over \<open>deps\<close> meets.\<close>

definition unknown_dependency ::
    "(string \<Rightarrow> string list) \<Rightarrow> string set \<Rightarrow> string list \<Rightarrow> (string \<times> string) option" where
  "unknown_dependency deps known ns =
     (case concat (map (\<lambda>n. map (Pair n) (filter (\<lambda>d. d \<notin> known) (deps n))) ns) of
        [] \<Rightarrow> None
      | x # _ \<Rightarrow> Some x)"

definition buildDependencyOrder ::
    "('i \<Rightarrow> string) \<Rightarrow> ('i \<Rightarrow> string list) \<Rightarrow> string list \<Rightarrow> 'i list \<Rightarrow> 'i list go_result" where
  "buildDependencyOrder nm dp ns insts =
     (let deps = deps_of nm dp insts; known = set (map nm insts) in
      case unknown_dependency deps known ns of
        Some (n, d) \<Rightarrow> Inl (Errorf ''instance %q depends on unknown service %q'' [n, d])
      | None \<Rightarrow>
          let g = (\<lambda>n. int (length (deps n)));
              queue = sort (filter (\<lambda>n. g n = 0) ns);
              result = List.map_filter (byName nm insts) (kahn deps ns queue g [])
          in
          case (if card known \<noteq> length insts then first_duplicate (map nm insts) {} else None) of
            Some n \<Rightarrow> Inl (Errorf ''duplicate instance name %q in stack'' [n])
          | None \<Rightarrow>
              if length result \<noteq> length insts then Inl (Errorf ''circular dependency detected'' [])
              else Inr result)"

section \<open>One placement\<close>

lemma relax_one_eq:
  "relax_one deps name n (g, q) =
     (g(n := g n - int (count_list (deps n) name)),
      q @ (if 0 < g n \<and> g n \<le> int (count_list (deps n) name) then [n] else []))"
proof -
  let ?f = "\<lambda>d (g, q). if d = name then let g' = g(n := g n - 1) in
               (g', if g' n = 0 then q @ [n] else q) else (g, q)"
  have "fold ?f ds (g, q) = (g(n := g n - int (count_list ds name)),
      q @ (if 0 < g n \<and> g n \<le> int (count_list ds name) then [n] else []))" for ds
  proof (induction ds arbitrary: g q)
    case (Cons d ds)
    then show ?case by (cases "d = name") (auto simp: Let_def)
  qed auto
  then show ?thesis by (simp add: relax_one_def)
qed

lemma relax_eq:
  assumes "distinct ns"
  shows "relax deps ns name g =
    (\<lambda>n. if n \<in> set ns then g n - int (count_list (deps n) name) else g n,
     filter (\<lambda>n. 0 < g n \<and> g n \<le> int (count_list (deps n) name)) ns)"
proof -
  have "distinct ms \<Longrightarrow> fold (relax_one deps name) ms (h, q) =
      (\<lambda>n. if n \<in> set ms then h n - int (count_list (deps n) name) else h n,
       q @ filter (\<lambda>n. 0 < h n \<and> h n \<le> int (count_list (deps n) name)) ms)" for ms h q
  proof (induction ms arbitrary: h q)
    case (Cons m ms)
    let ?h = "h(m := h m - int (count_list (deps m) name))"
    from Cons.prems have m: "m \<notin> set ms" by simp
    then have "filter (\<lambda>n. 0 < ?h n \<and> ?h n \<le> int (count_list (deps n) name)) ms =
        filter (\<lambda>n. 0 < h n \<and> h n \<le> int (count_list (deps n) name)) ms"
      by (intro filter_cong) auto
    with Cons m show ?case by (auto simp: relax_one_eq)
  qed auto
  from this [OF assms, of g "[]"] show ?thesis by (simp add: relax_def)
qed

section \<open>The invariant of the loop\<close>

definition unplaced :: "(string \<Rightarrow> string list) \<Rightarrow> string list \<Rightarrow> string \<Rightarrow> int" where
  "unplaced deps res n = int (length (filter (\<lambda>d. d \<notin> set res) (deps n)))"

definition ordered :: "(string \<Rightarrow> string list) \<Rightarrow> string list \<Rightarrow> bool" where
  "ordered deps res \<longleftrightarrow> (\<forall>xs n ys. res = xs @ n # ys \<longrightarrow> set (deps n) \<subseteq> set xs)"

lemma ordered_snoc: "ordered deps res \<Longrightarrow> set (deps n) \<subseteq> set res \<Longrightarrow> ordered deps (res @ [n])"
  unfolding ordered_def
proof (intro allI impI)
  fix xs m ys
  assume *: "\<forall>xs n ys. res = xs @ n # ys \<longrightarrow> set (deps n) \<subseteq> set xs" "set (deps n) \<subseteq> set res"
    "res @ [n] = xs @ m # ys"
  show "set (deps m) \<subseteq> set xs"
  proof (cases ys rule: rev_cases)
    case Nil
    with * show ?thesis by simp
  next
    case (snoc zs z)
    with *(3) have "res = xs @ m # zs" by simp
    with *(1) show ?thesis by blast
  qed
qed

definition kahn_inv ::
    "(string \<Rightarrow> string list) \<Rightarrow> string list \<Rightarrow> string list \<Rightarrow> (string \<Rightarrow> int) \<Rightarrow> string list \<Rightarrow> bool" where
  "kahn_inv deps ns queue g res \<longleftrightarrow>
     distinct (res @ queue) \<and> set (res @ queue) \<subseteq> set ns
     \<and> (\<forall>n \<in> set ns. g n = unplaced deps res n)
     \<and> (\<forall>n \<in> set ns. n \<in> set (res @ queue) \<longleftrightarrow> g n = 0)
     \<and> ordered deps res"

lemma unplaced_zero: "unplaced deps res n = 0 \<longleftrightarrow> set (deps n) \<subseteq> set res"
  by (auto simp: unplaced_def filter_empty_conv)

lemma unplaced_snoc:
  "name \<notin> set res \<Longrightarrow> unplaced deps (res @ [name]) n = unplaced deps res n - int (count_list (deps n) name)"
proof -
  assume name: "name \<notin> set res"
  have "int (length (filter (\<lambda>d. d \<notin> set res) ds)) =
      int (length (filter (\<lambda>d. d \<notin> set (res @ [name])) ds)) + int (count_list ds name)" for ds
    using name by (induction ds) auto
  from this [of "deps n"] show ?thesis by (simp add: unplaced_def)
qed

lemma kahn_inv_step:
  assumes d: "distinct ns" and inv: "kahn_inv deps ns (name # queue) g res"
  shows "kahn_inv deps ns (queue @ sort (snd (relax deps ns name g))) (fst (relax deps ns name g)) (res @ [name])"
proof -
  let ?new = "filter (\<lambda>n. 0 < g n \<and> g n \<le> int (count_list (deps n) name)) ns"
  let ?g = "fst (relax deps ns name g)"
  from inv have dist: "distinct (res @ name # queue)" and sub: "set (res @ name # queue) \<subseteq> set ns"
    and g: "\<And>n. n \<in> set ns \<Longrightarrow> g n = unplaced deps res n"
    and zero: "\<And>n. n \<in> set ns \<Longrightarrow> n \<in> set (res @ name # queue) \<longleftrightarrow> g n = 0"
    and ord: "ordered deps res" by (simp_all add: kahn_inv_def)
  have name: "name \<in> set ns" "name \<notin> set res" using dist sub by auto
  have snd: "snd (relax deps ns name g) = ?new" using relax_eq [OF d] by simp
  have g': "?g n = unplaced deps (res @ [name]) n" if "n \<in> set ns" for n
    using relax_eq [OF d, of deps name g] that g [OF that] unplaced_snoc [OF name(2), of deps n] by simp
  have nonneg: "0 \<le> unplaced deps r n" for r n by (simp add: unplaced_def)
  have new: "n \<in> set ?new \<longleftrightarrow> n \<in> set ns \<and> g n \<noteq> 0 \<and> ?g n = 0" for n
    using relax_eq [OF d, of deps name g] g [of n] g' [of n] nonneg [of res n] nonneg [of "res @ [name]" n]
    by auto
  have "g name = 0" using zero [OF name(1)] by simp
  then have "set (deps name) \<subseteq> set res" using g [OF name(1)] by (simp add: unplaced_zero)
  with ord have ord': "ordered deps (res @ [name])" by (rule ordered_snoc)
  have notnew: "n \<notin> set ?new" if "n \<in> set (res @ name # queue)" for n
    using zero [of n] new [of n] that sub by auto
  have iff: "n \<in> set (res @ [name] @ queue) \<or> n \<in> set ?new \<longleftrightarrow> ?g n = 0" if "n \<in> set ns" for n
  proof -
    have "g n = 0 \<Longrightarrow> ?g n = 0"
      using g [OF that] g' [OF that] unplaced_snoc [OF name(2), of deps n] nonneg [of "res @ [name]" n] by simp
    then show ?thesis using zero [OF that] new [of n] that by auto
  qed
  show ?thesis
    unfolding kahn_inv_def snd
    using dist sub d notnew g' iff ord' by (auto simp: distinct_filter)
qed

lemma kahn_inv_final:
  "distinct ns \<Longrightarrow> kahn_inv deps ns queue g res \<Longrightarrow>
   \<exists>h. kahn_inv deps ns [] h (kahn deps ns queue g res)"
proof (induction deps ns queue g res rule: kahn.induct)
  case (1 deps ns g res)
  then show ?case by auto
next
  case (2 deps ns name queue g res)
  then show ?case using kahn_inv_step [OF 2(2,3)] by simp
qed

lemma kahn_result:
  fixes deps :: "string \<Rightarrow> string list"
  assumes "distinct ns"
  defines "res \<equiv> kahn deps ns (sort (filter (\<lambda>n. int (length (deps n)) = 0) ns)) (\<lambda>n. int (length (deps n))) []"
  shows "distinct res" "set res \<subseteq> set ns" "ordered deps res"
    "\<And>n. n \<in> set ns \<Longrightarrow> set (deps n) \<subseteq> set res \<Longrightarrow> n \<in> set res"
proof -
  have "kahn_inv deps ns (sort (filter (\<lambda>n. int (length (deps n)) = 0) ns)) (\<lambda>n. int (length (deps n))) []"
    using assms(1) by (auto simp: kahn_inv_def unplaced_def ordered_def)
  from kahn_inv_final [OF assms(1) this] obtain h where "kahn_inv deps ns [] h res"
    unfolding res_def by blast
  then show "distinct res" "set res \<subseteq> set ns" "ordered deps res"
    "\<And>n. n \<in> set ns \<Longrightarrow> set (deps n) \<subseteq> set res \<Longrightarrow> n \<in> set res"
    by (auto simp: kahn_inv_def unplaced_zero [symmetric])
qed

text \<open>The order in which a range visits the names does not matter.\<close>

lemma sort_filter_perm: "mset ns = mset ms \<Longrightarrow> sort (filter P ns) = sort (filter P ms)"
  by (rule properties_for_sort) (simp_all add: mset_filter)

lemma kahn_perm:
  assumes "distinct ns" "distinct ms" "set ns = set ms"
  shows "kahn deps ns queue g res = kahn deps ms queue g res"
proof -
  have mset: "mset ns = mset ms" using assms set_eq_iff_mset_eq_distinct by blast
  show ?thesis
    using assms(1) mset
  proof (induction deps ns queue g res rule: kahn.induct)
    case (2 deps ns name queue g res)
    have "distinct ms" "set ns = set ms" using assms(2) 2(3) mset_eq_setD by blast+
    then have "fst (relax deps ns name g) = fst (relax deps ms name g)"
      "sort (snd (relax deps ns name g)) = sort (snd (relax deps ms name g))"
      using relax_eq [OF 2(2)] relax_eq [of ms] sort_filter_perm [OF 2(3)] by simp_all
    with 2 show ?case by simp
  qed simp
qed


section \<open>Correctness\<close>

lemma first_duplicate_None: "first_duplicate ns seen = None \<longleftrightarrow> distinct ns \<and> set ns \<inter> seen = {}"
  by (induction ns arbitrary: seen) auto

lemma unknown_dependency_None:
  "unknown_dependency deps known ns = None \<longleftrightarrow> (\<forall>n \<in> set ns. set (deps n) \<subseteq> known)"
proof -
  let ?c = "concat (map (\<lambda>n. map (Pair n) (filter (\<lambda>d. d \<notin> known) (deps n))) ns)"
  have "unknown_dependency deps known ns = None \<longleftrightarrow> ?c = []"
    unfolding unknown_dependency_def by (rule list.exhaust [of ?c]) (simp_all only: list.case, simp_all)
  also have "\<dots> \<longleftrightarrow> (\<forall>n \<in> set ns. set (deps n) \<subseteq> known)"
    by (auto simp: filter_empty_conv)
  finally show ?thesis .
qed

lemma byName_dom: "dom (byName nm insts) = nm ` set insts"
  by (force simp: byName_def dom_map_of_conv_image_fst)

lemma byName_distinct:
  assumes "distinct (map nm insts)" "i \<in> set insts"
  shows "byName nm insts (nm i) = Some i"
  unfolding byName_def
  using assms by (intro map_of_is_SomeI) (auto simp: comp_def rev_map [symmetric])

lemma deps_of_distinct:
  "distinct (map nm insts) \<Longrightarrow> i \<in> set insts \<Longrightarrow> deps_of nm dp insts (nm i) = dp i"
  by (simp add: deps_of_def byName_distinct)

lemma map_filter_byName:
  assumes "set res \<subseteq> nm ` set insts"
  shows "List.map_filter (byName nm insts) res = map (\<lambda>n. the (byName nm insts n)) res"
  using assms byName_dom [of nm insts] by (induction res) (auto simp: map_filter_simps split: option.splits)

text \<open>The names in the order the loop places them.\<close>

definition placed :: "('i \<Rightarrow> string) \<Rightarrow> ('i \<Rightarrow> string list) \<Rightarrow> string list \<Rightarrow> 'i list \<Rightarrow> string list" where
  "placed nm dp ns insts =
     (let deps = deps_of nm dp insts in
      kahn deps ns (sort (filter (\<lambda>n. int (length (deps n)) = 0) ns)) (\<lambda>n. int (length (deps n))) [])"

lemma buildDependencyOrder_Inr:
  assumes ns: "distinct ns" "set ns = nm ` set insts"
  shows "buildDependencyOrder nm dp ns insts = Inr res \<longleftrightarrow>
    distinct (map nm insts) \<and> (\<forall>n \<in> set ns. set (deps_of nm dp insts n) \<subseteq> set ns)
    \<and> set (placed nm dp ns insts) = set ns
    \<and> res = map (\<lambda>n. the (byName nm insts n)) (placed nm dp ns insts)"
proof -
  let ?p = "placed nm dp ns insts"
  note P = kahn_result [OF ns(1), where deps = "deps_of nm dp insts"]
  have p: "distinct ?p" "set ?p \<subseteq> set ns" using P(1,2) by (simp_all add: placed_def Let_def)
  have card: "card (nm ` set insts) = length insts \<longleftrightarrow> distinct (map nm insts)"
    using card_distinct [of "map nm insts"] distinct_card [of "map nm insts"] by auto
  have len: "length ?p = length insts \<longleftrightarrow> set ?p = set ns" if "distinct (map nm insts)"
  proof -
    have "card (set ?p) = length ?p" "card (set ns) = length insts"
      using p(1) that card ns(2) by (simp_all add: distinct_card)
    with p(2) show ?thesis by (metis List.finite_set card_subset_eq)
  qed
  have mf: "List.map_filter (byName nm insts) ?p = map (\<lambda>n. the (byName nm insts n)) ?p"
    using p(2) ns(2) by (intro map_filter_byName) simp
  have dup: "first_duplicate (map nm insts) {} = None \<longleftrightarrow> distinct (map nm insts)"
    by (simp add: first_duplicate_None)
  have unk: "unknown_dependency (deps_of nm dp insts) (nm ` set insts) ns = None \<longleftrightarrow>
      (\<forall>n \<in> set ns. set (deps_of nm dp insts n) \<subseteq> set ns)"
    using ns(2) by (simp add: unknown_dependency_None)
  show ?thesis
    unfolding buildDependencyOrder_def Let_def set_map
      placed_def [unfolded Let_def, symmetric] mf
    using card dup unk len by (auto split: option.splits prod.splits if_splits)
qed

definition dep_rel :: "('i \<Rightarrow> string) \<Rightarrow> ('i \<Rightarrow> string list) \<Rightarrow> 'i list \<Rightarrow> (string \<times> string) set" where
  "dep_rel nm dp insts = {(d, n). \<exists>i \<in> set insts. nm i = n \<and> d \<in> set (dp i)}"

lemma ordered_acyclic:
  assumes "ordered deps res" "distinct res" "\<And>d n. (d, n) \<in> R \<Longrightarrow> n \<in> set res \<and> d \<in> set (deps n)"
  shows "acyclic R"
proof -
  have "R \<subseteq> measure (\<lambda>n. length (takeWhile (\<lambda>m. m \<noteq> n) res))"
  proof
    fix e assume e: "e \<in> R"
    obtain d n where dn: "e = (d, n)" by fastforce
    with assms(3) e have n: "n \<in> set res" "d \<in> set (deps n)" by auto
    then obtain xs ys where res: "res = xs @ n # ys" "n \<notin> set xs" by (meson split_list_first)
    with assms(1) n(2) have "d \<in> set xs" unfolding ordered_def by blast
    then obtain us vs where us: "xs = us @ d # vs" "d \<notin> set us" by (meson split_list_first)
    have first: "takeWhile (\<lambda>m. m \<noteq> x) (as @ x # bs) = as" if "x \<notin> set as" for x :: string and as bs
      using that by (induction as) auto
    have "takeWhile (\<lambda>m. m \<noteq> n) res = xs" using res first by simp
    moreover have "takeWhile (\<lambda>m. m \<noteq> d) res = us"
      using res us first [of d us "vs @ n # ys"] by simp
    ultimately show "e \<in> measure (\<lambda>n. length (takeWhile (\<lambda>m. m \<noteq> n) res))"
      using us dn by simp
  qed
  then show ?thesis using wf_acyclic wf_subset wf_measure by blast
qed

lemma acyclic_placed:
  assumes "distinct ns" "finite R" "acyclic R"
    and R: "\<And>n d. n \<in> set ns \<Longrightarrow> d \<in> set (deps n) \<Longrightarrow> (d, n) \<in> R \<and> d \<in> set ns"
    and close: "\<And>n. n \<in> set ns \<Longrightarrow> set (deps n) \<subseteq> set res \<Longrightarrow> n \<in> set res"
  shows "set ns \<subseteq> set res"
proof
  have wf: "wf R" using assms(2,3) by (rule finite_acyclic_wf)
  show "n \<in> set res" if "n \<in> set ns" for n
    using that
  proof (induction n rule: wf_induct_rule [OF wf])
    case (1 n)
    then have "set (deps n) \<subseteq> set res" using R by blast
    with close 1 show ?case by blast
  qed
qed

lemma order_exists_iff:
  assumes "distinct ns" "set ns = nm ` set insts"
  shows "(\<exists>res. buildDependencyOrder nm dp ns insts = Inr res) \<longleftrightarrow>
    distinct (map nm insts) \<and> (\<forall>i \<in> set insts. set (dp i) \<subseteq> nm ` set insts)
    \<and> acyclic (dep_rel nm dp insts)"
proof -
  let ?deps = "deps_of nm dp insts" and ?p = "placed nm dp ns insts"
  note P = kahn_result [OF assms(1), where deps = ?deps]
  have p: "distinct ?p" "ordered ?deps ?p" "set ?p \<subseteq> set ns"
    "\<And>n. n \<in> set ns \<Longrightarrow> set (?deps n) \<subseteq> set ?p \<Longrightarrow> n \<in> set ?p"
    using P by (simp_all add: placed_def Let_def)
  have main: "set ?p = set ns \<longleftrightarrow> acyclic (dep_rel nm dp insts)"
    if d: "distinct (map nm insts)" and known: "\<forall>i \<in> set insts. set (dp i) \<subseteq> nm ` set insts"
  proof
    assume "set ?p = set ns"
    then show "acyclic (dep_rel nm dp insts)"
      using assms(2) deps_of_distinct [OF d]
      by (intro ordered_acyclic [OF p(2,1)]) (auto simp: dep_rel_def)
  next
    assume ac: "acyclic (dep_rel nm dp insts)"
    have "dep_rel nm dp insts \<subseteq> nm ` set insts \<times> nm ` set insts"
      using known by (auto simp: dep_rel_def)
    then have "finite (dep_rel nm dp insts)" by (rule finite_subset) simp
    then have "set ns \<subseteq> set ?p"
    proof (rule acyclic_placed [OF assms(1) _ ac _ p(4)])
      show "(d', n) \<in> dep_rel nm dp insts \<and> d' \<in> set ns" if "n \<in> set ns" "d' \<in> set (?deps n)" for n d'
      proof -
        from that(1) assms(2) obtain i where i: "i \<in> set insts" "nm i = n" by auto
        with that(2) deps_of_distinct [OF d i(1)] have "d' \<in> set (dp i)" by simp
        with i known assms(2) show ?thesis by (auto simp: dep_rel_def)
      qed
    qed
    with p(3) show "set ?p = set ns" by blast
  qed
  have "(\<forall>n \<in> set ns. set (?deps n) \<subseteq> set ns) \<longleftrightarrow> (\<forall>i \<in> set insts. set (dp i) \<subseteq> nm ` set insts)"
    if d: "distinct (map nm insts)"
    using assms(2) deps_of_distinct [OF d] by auto
  with main buildDependencyOrder_Inr [OF assms] show ?thesis by blast
qed

section \<open>Properties\<close>

text \<open>C14. A deployment order exists exactly when the names of the instances are distinct, every
  dependency names an instance of the stack and the dependencies have no cycle; in every other
  case the result is an error. The order the maps are visited in is irrelevant to which.\<close>

theorem dependency_order_exists_iff:
  assumes "distinct ns" "set ns = nm ` set insts"
  shows "(\<exists>res. buildDependencyOrder nm dp ns insts = Inr res) \<longleftrightarrow>
    distinct (map nm insts) \<and> (\<forall>i \<in> set insts. set (dp i) \<subseteq> nm ` set insts)
    \<and> acyclic (dep_rel nm dp insts)"
  by (rule order_exists_iff [OF assms])

text \<open>C15. The order returned is a permutation of the instances of the stack in which every
  instance comes after all the instances it depends on, and it does not depend on the order the
  runtime happens to visit the maps in.\<close>

theorem dependency_order_correct:
  assumes "distinct ns" "set ns = nm ` set insts"
    and "buildDependencyOrder nm dp ns insts = Inr res"
  shows "mset res = mset insts
    \<and> (\<forall>xs i ys. res = xs @ i # ys \<longrightarrow> set (dp i) \<subseteq> nm ` set xs)
    \<and> (\<forall>ms. distinct ms \<longrightarrow> set ms = nm ` set insts \<longrightarrow> buildDependencyOrder nm dp ms insts = Inr res)"
proof (intro conjI allI impI)
  let ?deps = "deps_of nm dp insts" and ?p = "placed nm dp ns insts"
  let ?f = "\<lambda>n. the (byName nm insts n)"
  from assms(3) buildDependencyOrder_Inr [OF assms(1,2)] have d: "distinct (map nm insts)"
    and known: "\<forall>n \<in> set ns. set (?deps n) \<subseteq> set ns"
    and all: "set ?p = set ns" and res: "res = map ?f ?p" by auto
  note P = kahn_result [OF assms(1), where deps = ?deps]
  have p: "distinct ?p" "ordered ?deps ?p" using P(1,3) by (simp_all add: placed_def Let_def)
  have f: "?f (nm i) = i" if "i \<in> set insts" for i using byName_distinct [OF d that] by simp
  have "mset ?p = mset (map nm insts)"
    using p(1) d all assms(2) set_eq_iff_mset_eq_distinct [of ?p "map nm insts"] by simp
  then have "mset res = mset (map ?f (map nm insts))" unfolding res by (metis mset_map)
  also have "map ?f (map nm insts) = insts" using f by (simp add: comp_def map_idI)
  finally show "mset res = mset insts" .
  show "set (dp i) \<subseteq> nm ` set xs" if "res = xs @ i # ys" for xs i ys
  proof -
    from that res have "map ?f ?p = xs @ i # ys" by simp
    then obtain as n bs where as: "?p = as @ n # bs" "xs = map ?f as" "i = ?f n"
      by (auto simp only: map_eq_append_conv)
    have nm: "nm (?f m) = m" "?f m \<in> set insts" if "m \<in> set ?p" for m
      using that all assms(2) f by (metis imageE)+
    have "n \<in> set ?p" using as(1) by simp
    then have "dp i = ?deps n" using nm [of n] as(3) deps_of_distinct [OF d, of i] by metis
    moreover have "set (?deps n) \<subseteq> set as" using p(2) as(1) unfolding ordered_def by blast
    moreover have "nm ` set xs = set as"
      using as(1,2) nm(1) by (auto simp: image_image)
    ultimately show ?thesis by simp
  qed
  show "buildDependencyOrder nm dp ms insts = Inr res" if ms: "distinct ms" "set ms = nm ` set insts" for ms
  proof -
    have same: "set ms = set ns" "mset ms = mset ns"
      using ms assms(1,2) set_eq_iff_mset_eq_distinct [of ms ns] by simp_all
    have "placed nm dp ms insts = ?p"
      unfolding placed_def Let_def
      using kahn_perm [OF ms(1) assms(1) same(1)] sort_filter_perm [OF same(2)] by simp
    with d known all res same(1) show ?thesis using buildDependencyOrder_Inr [OF ms] by simp
  qed
qed

definition demo_stack :: "(string \<times> string list) list" where
  "demo_stack = [(''web'', [''db'', ''cache'']), (''db'', []), (''cache'', [''db''])]"

theorem dependency_order_exists_iff_witness:
  "acyclic (dep_rel fst snd demo_stack)"
proof -
  have "buildDependencyOrder fst snd [''cache'', ''db'', ''web''] demo_stack =
      Inr [(''db'', []), (''cache'', [''db'']), (''web'', [''db'', ''cache''])]" by code_simp
  moreover have "distinct [''cache'', ''db'', ''web'']" "set [''cache'', ''db'', ''web''] = fst ` set demo_stack"
    by (auto simp: demo_stack_def)
  ultimately show ?thesis using dependency_order_exists_iff by blast
qed

theorem dependency_order_correct_witness:
  "buildDependencyOrder fst snd [''web'', ''db'', ''cache''] demo_stack =
     Inr [(''db'', []), (''cache'', [''db'']), (''web'', [''db'', ''cache''])]"
proof -
  let ?ns = "[''cache'', ''db'', ''web'']" and ?ms = "[''web'', ''db'', ''cache'']"
  have order: "buildDependencyOrder fst snd ?ns demo_stack =
      Inr [(''db'', []), (''cache'', [''db'']), (''web'', [''db'', ''cache''])]" by code_simp
  have ns: "distinct ?ns" "set ?ns = fst ` set demo_stack" "distinct ?ms" "set ?ms = fst ` set demo_stack"
    by (auto simp: demo_stack_def)
  from dependency_order_correct [OF ns(1,2) order]
  have "\<forall>ms. distinct ms \<longrightarrow> set ms = fst ` set demo_stack \<longrightarrow> buildDependencyOrder fst snd ms demo_stack =
      Inr [(''db'', []), (''cache'', [''db'']), (''web'', [''db'', ''cache''])]" by (elim conjE)
  with ns(3,4) show ?thesis by (elim allE [of _ ?ms] impE)
qed

end
