(* ===== verification/Stack.thy ===== *)
theory Stack
  imports Discovery Dependencies
begin

text \<open>
  \<open>pkg/orchestration/stack.go\<close>: the stack manager. A handler is a function on the manager's
  state and the world; the world is an abstract value that only the providers and the store
  read and change. Providers and the store are interface values in the source: here they are
  functions of the environment record, as are the manifest conversion, the JSON encoders and
  \<open>time.ParseDuration\<close>. Each call of a provider that changes an instance is added to a log
  of the model. \<open>cloneStack\<close> is the identity on values; the per-stack status locks only order
  concurrent updates and have no counterpart in one sequence of handlers.
\<close>

section \<open>Data\<close>

datatype StackStatus =
    StackStatusPending | StackStatusDeploying | StackStatusRunning | StackStatusDegraded
  | StackStatusStopped | StackStatusFailed | StackStatusDestroying

definition stackInstanceDelimiter :: string where
  "stackInstanceDelimiter = ''_''"

record stack_instance =
  si_Name :: string
  si_InstanceID :: string
  si_Provider :: string
  si_DependsOn :: "string list"
  si_Status :: string
  si_Health :: HealthStatus
  si_Handle :: instance_handle

record stack =
  st_Name :: string
  st_Instances :: "stack_instance list"
  st_Status :: StackStatus
  st_CreatedAt :: int
  st_UpdatedAt :: int

record created_instance =
  cr_Name :: string
  cr_Handle :: instance_handle
  cr_Provider :: string

text \<open>The parts of a manifest the manager reads; \<open>ic_Rest\<close> is what only the conversion reads.\<close>

record depends_on_config =
  do_Services :: "string list"
  do_Condition :: string

record health_check_spec =
  hcs_Command :: "string list"
  hcs_Interval :: string
  hcs_Timeout :: string
  hcs_Retries :: int
  hcs_StartPeriod :: string

record restart_spec =
  rs_Enabled :: bool
  rs_MaxRestarts :: int
  rs_Delay :: string
  rs_ResetAfter :: string

record port_config =
  pc_Host :: int
  pc_Container :: int
  pc_Protocol :: string

record net_config =
  nc_Address :: "string option"
  nc_Ports :: "port_config list"

record 'c instance_config =
  ic_Name :: string
  ic_Provider :: string
  ic_DependsOn :: "depends_on_config option"
  ic_Networks :: "net_config list"
  ic_HealthCheck :: "health_check_spec option"
  ic_Restart :: "restart_spec option"
  ic_Rest :: 'c

record 'c stack_manifest =
  mf_Name :: string
  mf_Instances :: "'c instance_config list"

text \<open>The records of the store; the text columns that hold a status hold its value.\<close>

record stack_record =
  sr_Name :: string
  sr_Status :: StackStatus
  sr_Manifest :: string
  sr_CreatedAt :: int
  sr_UpdatedAt :: int

record stack_instance_record =
  ir_StackName :: string
  ir_InstanceName :: string
  ir_InstanceID :: string
  ir_Provider :: string
  ir_DependsOn :: "string list"
  ir_Status :: string
  ir_Health :: HealthStatus
  ir_Handle :: string
  ir_DeployOrder :: nat

text \<open>\<open>StackStore\<close>: the methods the manager calls.\<close>

record 'w stack_store =
  ss_CreateStack :: "stack_record \<Rightarrow> 'w \<Rightarrow> go_error option \<times> 'w"
  ss_ListStacks :: "'w \<Rightarrow> stack_record list go_result"
  ss_UpdateStackStatus :: "string \<Rightarrow> StackStatus \<Rightarrow> 'w \<Rightarrow> go_error option \<times> 'w"
  ss_DeleteStack :: "string \<Rightarrow> 'w \<Rightarrow> go_error option \<times> 'w"
  ss_CreateStackInstance :: "stack_instance_record \<Rightarrow> 'w \<Rightarrow> go_error option \<times> 'w"
  ss_GetStackInstances :: "string \<Rightarrow> 'w \<Rightarrow> stack_instance_record list go_result"
  ss_DeleteStackInstance :: "string \<Rightarrow> string \<Rightarrow> 'w \<Rightarrow> go_error option \<times> 'w"

text \<open>
  A poll of \<open>waitForDependencies\<close>: what the check loops did to the checker since the last one,
  and what ended the select after it.
\<close>

datatype wait_event = WaitTick | WaitTimeout | WaitDone go_error

type_synonym wait_poll = "(health_checker \<Rightarrow> health_checker) \<times> wait_event"

record ('p, 'c, 'w) stack_env =
  ev_CreateInstance :: "'p \<Rightarrow> instance_spec \<Rightarrow> 'w \<Rightarrow> instance_handle go_result \<times> 'w"
  ev_StartInstance :: "'p \<Rightarrow> instance_handle \<Rightarrow> 'w \<Rightarrow> go_error option \<times> 'w"
  ev_StopInstance :: "'p \<Rightarrow> instance_handle \<Rightarrow> bool \<Rightarrow> 'w \<Rightarrow> go_error option \<times> 'w"
  ev_DeleteInstance :: "'p \<Rightarrow> instance_handle \<Rightarrow> 'w \<Rightarrow> go_error option \<times> 'w"
  ev_Store :: "'w stack_store option"
  ev_ToSpec :: "'c instance_config \<Rightarrow> string \<Rightarrow> instance_spec go_result"
  ev_MarshalManifest :: "'c stack_manifest \<Rightarrow> string go_result"
  ev_MarshalHandle :: "instance_handle \<Rightarrow> string go_result"
  ev_UnmarshalHandle :: "string \<Rightarrow> instance_handle go_result"
  ev_ParseDuration :: "string \<Rightarrow> int go_result"
  ev_Now :: int
  ev_Visit :: "string list"
  ev_Polls :: "string \<Rightarrow> wait_poll list"
  ev_Pause :: "string \<Rightarrow> go_error option"

text \<open>
  \<open>ev_Visit\<close> is the order of a range over a map by name, \<open>ev_Polls\<close> the polls while an instance
  waits for its dependencies, \<open>ev_Pause\<close> whether the context has ended in the pause after an
  instance.
\<close>

datatype provider_call =
    CreateCall instance_handle
  | StartCall instance_handle bool
  | StopCall instance_handle bool bool
  | DeleteCall instance_handle bool

record ('p, 'w) stack_manager =
  sm_stacks :: "string \<rightharpoonup> stack"
  sm_registry :: "'p registry"
  sm_serviceReg :: service_registry
  sm_healthChecker :: "health_checker option"
  sm_autoRestarter :: "'p auto_restarter option"
  sm_cloudInitRoot :: string
  sm_world :: 'w
  sm_log :: "provider_call list"

definition NewStackManager :: "'p registry \<Rightarrow> 'w \<Rightarrow> ('p, 'w) stack_manager" where
  "NewStackManager registry w =
     \<lparr>sm_stacks = Map.empty, sm_registry = registry, sm_serviceReg = NewServiceRegistry,
      sm_healthChecker = None, sm_autoRestarter = None, sm_cloudInitRoot = [], sm_world = w, sm_log = []\<rparr>"

definition SetCloudInitRoot :: "string \<Rightarrow> ('p, 'w) stack_manager \<Rightarrow> ('p, 'w) stack_manager" where
  "SetCloudInitRoot root sm = sm\<lparr>sm_cloudInitRoot := root\<rparr>"

definition CloudInitRoot :: "('p, 'w) stack_manager \<Rightarrow> string" where
  "CloudInitRoot sm = sm_cloudInitRoot sm"

text \<open>Callback 0 of the checker is the manager's \<open>onHealthChange\<close>.\<close>

definition SetHealthChecker :: "health_checker \<Rightarrow> ('p, 'w) stack_manager \<Rightarrow> ('p, 'w) stack_manager" where
  "SetHealthChecker hc sm = sm\<lparr>sm_healthChecker := Some (OnHealthChange 0 hc)\<rparr>"

definition SetAutoRestarter :: "'p auto_restarter \<Rightarrow> ('p, 'w) stack_manager \<Rightarrow> ('p, 'w) stack_manager" where
  "SetAutoRestarter ar sm = sm\<lparr>sm_autoRestarter := Some ar\<rparr>"

definition GetStack :: "('p, 'w) stack_manager \<Rightarrow> string \<Rightarrow> stack option" where
  "GetStack sm name = sm_stacks sm name"

section \<open>Provider calls\<close>

definition call_create ::
    "('p, 'c, 'w) stack_env \<Rightarrow> 'p \<Rightarrow> instance_spec \<Rightarrow> ('p, 'w) stack_manager \<Rightarrow>
     instance_handle go_result \<times> ('p, 'w) stack_manager" where
  "call_create ev p spec sm =
     (case ev_CreateInstance ev p spec (sm_world sm) of
        (Inl e, w) \<Rightarrow> (Inl e, sm\<lparr>sm_world := w\<rparr>)
      | (Inr h, w) \<Rightarrow> (Inr h, sm\<lparr>sm_world := w, sm_log := sm_log sm @ [CreateCall h]\<rparr>))"

definition call_start ::
    "('p, 'c, 'w) stack_env \<Rightarrow> 'p \<Rightarrow> instance_handle \<Rightarrow> ('p, 'w) stack_manager \<Rightarrow>
     go_error option \<times> ('p, 'w) stack_manager" where
  "call_start ev p h sm =
     (case ev_StartInstance ev p h (sm_world sm) of
        (e, w) \<Rightarrow> (e, sm\<lparr>sm_world := w, sm_log := sm_log sm @ [StartCall h (e = None)]\<rparr>))"

definition call_stop ::
    "('p, 'c, 'w) stack_env \<Rightarrow> 'p \<Rightarrow> instance_handle \<Rightarrow> bool \<Rightarrow> ('p, 'w) stack_manager \<Rightarrow>
     go_error option \<times> ('p, 'w) stack_manager" where
  "call_stop ev p h force sm =
     (case ev_StopInstance ev p h force (sm_world sm) of
        (e, w) \<Rightarrow> (e, sm\<lparr>sm_world := w, sm_log := sm_log sm @ [StopCall h force (e = None)]\<rparr>))"

definition call_delete ::
    "('p, 'c, 'w) stack_env \<Rightarrow> 'p \<Rightarrow> instance_handle \<Rightarrow> ('p, 'w) stack_manager \<Rightarrow>
     go_error option \<times> ('p, 'w) stack_manager" where
  "call_delete ev p h sm =
     (case ev_DeleteInstance ev p h (sm_world sm) of
        (e, w) \<Rightarrow> (e, sm\<lparr>sm_world := w, sm_log := sm_log sm @ [DeleteCall h (e = None)]\<rparr>))"

text \<open>A store call, when there is a store.\<close>

definition with_store ::
    "('p, 'c, 'w) stack_env \<Rightarrow> ('w stack_store \<Rightarrow> 'w \<Rightarrow> go_error option \<times> 'w) \<Rightarrow>
     ('p, 'w) stack_manager \<Rightarrow> go_error option \<times> ('p, 'w) stack_manager" where
  "with_store ev f sm =
     (case ev_Store ev of
        None \<Rightarrow> (None, sm)
      | Some ss \<Rightarrow> (case f ss (sm_world sm) of (e, w) \<Rightarrow> (e, sm\<lparr>sm_world := w\<rparr>)))"

definition on_checker ::
    "(health_checker \<Rightarrow> health_checker) \<Rightarrow> ('p, 'w) stack_manager \<Rightarrow> ('p, 'w) stack_manager" where
  "on_checker f sm = sm\<lparr>sm_healthChecker := map_option f (sm_healthChecker sm)\<rparr>"

definition on_restarter ::
    "('p auto_restarter \<Rightarrow> 'p auto_restarter) \<Rightarrow> ('p, 'w) stack_manager \<Rightarrow> ('p, 'w) stack_manager" where
  "on_restarter f sm = sm\<lparr>sm_autoRestarter := map_option f (sm_autoRestarter sm)\<rparr>"

definition upd_stack :: "string \<Rightarrow> (stack \<Rightarrow> stack) \<Rightarrow> ('p, 'w) stack_manager \<Rightarrow> ('p, 'w) stack_manager" where
  "upd_stack name f sm =
     (case sm_stacks sm name of None \<Rightarrow> sm | Some s \<Rightarrow> sm\<lparr>sm_stacks := (sm_stacks sm)(name \<mapsto> f s)\<rparr>)"

section \<open>Manifest conversions\<close>

definition parseDurationDefault :: "(string \<Rightarrow> int go_result) \<Rightarrow> string \<Rightarrow> int \<Rightarrow> int" where
  "parseDurationDefault parse s d =
     (if s = [] then d
      else (case parse s of Inl _ \<Rightarrow> d | Inr v \<Rightarrow> if v \<le> 0 then d else v))"

definition healthSpecToConfig ::
    "(string \<Rightarrow> int go_result) \<Rightarrow> health_check_spec option \<Rightarrow> health_check_config option" where
  "healthSpecToConfig parse spec =
     (case spec of
        None \<Rightarrow> None
      | Some s \<Rightarrow>
          if hcs_Command s = [] then None
          else Some \<lparr>hcc_Command = hcs_Command s,
                     hcc_Interval = parseDurationDefault parse (hcs_Interval s) defaultHealthCheckInterval,
                     hcc_Timeout = parseDurationDefault parse (hcs_Timeout s) defaultHealthCheckTimeout,
                     hcc_Retries = (if hcs_Retries s \<le> 0 then defaultHealthRetries else hcs_Retries s),
                     hcc_StartPeriod = parseDurationDefault parse (hcs_StartPeriod s) 0\<rparr>)"

definition restartDefaultDelay :: int where
  "restartDefaultDelay = 30 * 1000000000"

definition restartSpecToPolicy ::
    "(string \<Rightarrow> int go_result) \<Rightarrow> restart_spec option \<Rightarrow> restart_policy option" where
  "restartSpecToPolicy parse spec =
     (case spec of
        None \<Rightarrow> None
      | Some s \<Rightarrow>
          if \<not> rs_Enabled s then None
          else Some \<lparr>rp_Enabled = True, rp_MaxRestarts = rs_MaxRestarts s,
                     rp_RestartDelay =
                       (if rs_Delay s = [] then restartDefaultDelay
                        else case parse (rs_Delay s) of Inl _ \<Rightarrow> restartDefaultDelay | Inr d \<Rightarrow> d),
                     rp_ResetCounterAfter =
                       (if rs_ResetAfter s = [] then 0
                        else case parse (rs_ResetAfter s) of Inl _ \<Rightarrow> 0 | Inr d \<Rightarrow> d)\<rparr>)"

definition instance_id :: "string \<Rightarrow> string \<Rightarrow> string" where
  "instance_id stackName name = stackName @ stackInstanceDelimiter @ name"

definition instanceToSpec ::
    "('p, 'c, 'w) stack_env \<Rightarrow> ('p, 'w) stack_manager \<Rightarrow> 'c instance_config \<Rightarrow> string \<Rightarrow> instance_spec go_result" where
  "instanceToSpec ev sm inst iid =
     bind_res (ev_ToSpec ev inst (CloudInitRoot sm)) (\<lambda>spec. Inr (spec\<lparr>is_Name := iid\<rparr>))"

definition dep_services :: "'c instance_config \<Rightarrow> string list" where
  "dep_services inst = (case ic_DependsOn inst of None \<Rightarrow> [] | Some d \<Rightarrow> do_Services d)"

section \<open>Statuses\<close>

definition updateStackStatus ::
    "('p, 'c, 'w) stack_env \<Rightarrow> string \<Rightarrow> StackStatus \<Rightarrow> ('p, 'w) stack_manager \<Rightarrow> ('p, 'w) stack_manager" where
  "updateStackStatus ev name status sm =
     snd (with_store ev (\<lambda>ss. ss_UpdateStackStatus ss name status)
            (upd_stack name (\<lambda>s. s\<lparr>st_Status := status, st_UpdatedAt := ev_Now ev\<rparr>) sm))"

definition updateStackHealthStatus :: "int \<Rightarrow> stack \<Rightarrow> stack" where
  "updateStackHealthStatus now s =
     (if st_Status s = StackStatusStopped \<or> st_Status s = StackStatusDestroying then s
      else
        let anyUnhealthy = list_ex (\<lambda>i. si_Health i = HealthStatusUnhealthy) (st_Instances s);
            allHealthy = list_all (\<lambda>i. si_Health i = HealthStatusHealthy) (st_Instances s)
        in s\<lparr>st_Status := (if anyUnhealthy then StackStatusDegraded
                           else if allHealthy then StackStatusRunning else st_Status s),
             st_UpdatedAt := now\<rparr>)"

text \<open>The first instance with the id takes the new health.\<close>

fun set_health :: "string \<Rightarrow> HealthStatus \<Rightarrow> stack_instance list \<Rightarrow> stack_instance list" where
  "set_health iid h [] = []"
| "set_health iid h (i # is) =
     (if si_InstanceID i = iid then i\<lparr>si_Health := h\<rparr> # is else i # set_health iid h is)"

text \<open>\<open>onHealthChange\<close>, with the range over the stacks in the order of \<open>names\<close>.\<close>

fun sm_onHealthChange ::
    "int \<Rightarrow> string list \<Rightarrow> string \<Rightarrow> HealthStatus \<Rightarrow> ('p, 'w) stack_manager \<Rightarrow> ('p, 'w) stack_manager" where
  "sm_onHealthChange now [] iid new sm = sm"
| "sm_onHealthChange now (name # names) iid new sm =
     (case sm_stacks sm name of
        None \<Rightarrow> sm_onHealthChange now names iid new sm
      | Some s \<Rightarrow>
          (case find (\<lambda>i. si_InstanceID i = iid) (st_Instances s) of
             None \<Rightarrow> sm_onHealthChange now names iid new sm
           | Some i \<Rightarrow>
               sm\<lparr>sm_stacks := (sm_stacks sm)(name \<mapsto>
                     updateStackHealthStatus now (s\<lparr>st_Instances := set_health iid new (st_Instances s)\<rparr>)),
                  sm_serviceReg := UpdateHealth (st_Name s) (si_Name i) new (sm_serviceReg sm)\<rparr>))"

section \<open>Rollback\<close>

definition forgetRolledBackInstance ::
    "('p, 'c, 'w) stack_env \<Rightarrow> string \<Rightarrow> string \<Rightarrow> ('p, 'w) stack_manager \<Rightarrow> ('p, 'w) stack_manager" where
  "forgetRolledBackInstance ev stackName name sm =
     (let sm1 = upd_stack stackName
                  (\<lambda>s. s\<lparr>st_Instances := filter (\<lambda>i. si_Name i \<noteq> name) (st_Instances s)\<rparr>) sm;
          sm2 = on_checker (UnregisterInstance (instance_id stackName name)) sm1;
          sm3 = sm2\<lparr>sm_serviceReg := UnregisterService stackName name (sm_serviceReg sm2)\<rparr>
      in snd (with_store ev (\<lambda>ss. ss_DeleteStackInstance ss stackName name) sm3))"

definition rollback_one ::
    "('p, 'c, 'w) stack_env \<Rightarrow> string \<Rightarrow> created_instance \<Rightarrow> ('p, 'w) stack_manager \<Rightarrow> ('p, 'w) stack_manager" where
  "rollback_one ev stackName ch sm =
     (case RegistryGet (sm_registry sm) (cr_Provider ch) of
        Inl _ \<Rightarrow> sm
      | Inr prov \<Rightarrow>
          let sm1 = snd (call_stop ev prov (cr_Handle ch) True sm);
              sm2 = snd (call_delete ev prov (cr_Handle ch) sm1)
          in forgetRolledBackInstance ev stackName (cr_Name ch) sm2)"

definition rollbackCreatedInstances ::
    "('p, 'c, 'w) stack_env \<Rightarrow> string \<Rightarrow> created_instance list \<Rightarrow> ('p, 'w) stack_manager \<Rightarrow> ('p, 'w) stack_manager" where
  "rollbackCreatedInstances ev stackName created sm = fold (rollback_one ev stackName) created sm"

section \<open>Deployment\<close>

text \<open>
  The poll loop of \<open>waitForDependencies\<close>. Without further polls the five-minute timer has
  fired: a ticker of two seconds gives at most 150 of them.
\<close>

fun poll_loop :: "string list \<Rightarrow> wait_poll list \<Rightarrow> health_checker \<Rightarrow> go_error option \<times> health_checker" where
  "poll_loop ids [] hc =
     (if list_all (\<lambda>i. status_of hc i = HealthStatusHealthy) ids then (None, hc)
      else (Some (Errorf ''timeout waiting for dependencies to be healthy'' []), hc))"
| "poll_loop ids ((evolve, event) # polls) hc =
     (if list_all (\<lambda>i. status_of hc i = HealthStatusHealthy) ids then (None, hc)
      else (case event of
              WaitDone e \<Rightarrow> (Some e, hc)
            | WaitTimeout \<Rightarrow> (Some (Errorf ''timeout waiting for dependencies to be healthy'' []), hc)
            | WaitTick \<Rightarrow> poll_loop ids polls (evolve hc)))"

definition waitForDependencies ::
    "wait_poll list \<Rightarrow> go_error option \<Rightarrow> string \<Rightarrow> string list \<Rightarrow> ('p, 'w) stack_manager \<Rightarrow>
     go_error option \<times> ('p, 'w) stack_manager" where
  "waitForDependencies polls brief stackName deps sm =
     (case sm_healthChecker sm of
        None \<Rightarrow> (brief, sm)
      | Some hc \<Rightarrow>
          (case find (\<lambda>d. \<not> HasHealthCheck hc (instance_id stackName d)) deps of
             Some d \<Rightarrow> (Some (Errorf ''instance %q is depended on with condition \"healthy\" but declares no lifecycle.health_check'' [d]), sm)
           | None \<Rightarrow>
               (case poll_loop (map (instance_id stackName) deps) polls hc of
                  (e, hc') \<Rightarrow> (e, sm\<lparr>sm_healthChecker := Some hc'\<rparr>))))"

text \<open>Without a checker the wait is a pause that the context may end.\<close>

definition deploy_wait ::
    "('p, 'c, 'w) stack_env \<Rightarrow> string \<Rightarrow> 'c instance_config \<Rightarrow> ('p, 'w) stack_manager \<Rightarrow>
     go_error option \<times> ('p, 'w) stack_manager" where
  "deploy_wait ev stackName inst sm =
     (case ic_DependsOn inst of
        None \<Rightarrow> (None, sm)
      | Some d \<Rightarrow>
          if do_Condition d = ''healthy'' then
            waitForDependencies (ev_Polls ev (ic_Name inst))
              (case ev_Polls ev (ic_Name inst) of (_, WaitDone e) # _ \<Rightarrow> Some e | _ \<Rightarrow> None)
              stackName (do_Services d) sm
          else (None, sm))"

definition new_stack_instance :: "string \<Rightarrow> 'c instance_config \<Rightarrow> instance_handle \<Rightarrow> stack_instance" where
  "new_stack_instance stackName inst h =
     \<lparr>si_Name = ic_Name inst, si_InstanceID = instance_id stackName (ic_Name inst),
      si_Provider = ic_Provider inst, si_DependsOn = dep_services inst, si_Status = ''running'',
      si_Health = HealthStatusStarting, si_Handle = h\<rparr>"

definition instance_record :: "string \<Rightarrow> 'c instance_config \<Rightarrow> string \<Rightarrow> nat \<Rightarrow> stack_instance_record" where
  "instance_record stackName inst hj deployOrder =
     \<lparr>ir_StackName = stackName, ir_InstanceName = ic_Name inst,
      ir_InstanceID = instance_id stackName (ic_Name inst), ir_Provider = ic_Provider inst,
      ir_DependsOn = dep_services inst, ir_Status = ''running'', ir_Health = HealthStatusStarting,
      ir_Handle = hj, ir_DeployOrder = deployOrder\<rparr>"

text \<open>The instance joins the stack in memory, then in the store.\<close>

definition deploy_record ::
    "('p, 'c, 'w) stack_env \<Rightarrow> string \<Rightarrow> 'c instance_config \<Rightarrow> instance_handle \<Rightarrow> ('p, 'w) stack_manager \<Rightarrow>
     go_error option \<times> ('p, 'w) stack_manager" where
  "deploy_record ev stackName inst h sm =
     (let sm1 = upd_stack stackName
                  (\<lambda>s. s\<lparr>st_Instances := st_Instances s @ [new_stack_instance stackName inst h],
                         st_UpdatedAt := ev_Now ev\<rparr>) sm;
          deployOrder = (case sm_stacks sm1 stackName of None \<Rightarrow> 0 | Some s \<Rightarrow> length (st_Instances s))
      in
      case ev_Store ev of
        None \<Rightarrow> (None, sm1)
      | Some ss \<Rightarrow>
          (case ev_MarshalHandle ev h of
             Inl e \<Rightarrow> (Some (Wrapf ''failed to encode handle for instance %s in stack %s: %w'' [ic_Name inst, stackName] e), sm1)
           | Inr hj \<Rightarrow>
               (case with_store ev (\<lambda>ss. ss_CreateStackInstance ss
                       (instance_record stackName inst hj deployOrder)) sm1 of
                  (Some e, sm2) \<Rightarrow>
                    (Some (Wrapf ''failed to record instance %s in stack %s: %w'' [ic_Name inst, stackName] e), sm2)
                | (None, sm2) \<Rightarrow> (None, sm2))))"

definition registerService ::
    "string \<Rightarrow> 'c instance_config \<Rightarrow> service_registry \<Rightarrow> service_registry" where
  "registerService stackName inst sr =
     RegisterService
       \<lparr>sv_Name = ic_Name inst, sv_StackName = stackName,
        sv_Addresses = filter (\<lambda>a. a \<noteq> []) (List.map_filter nc_Address (ic_Networks inst)),
        sv_Ports = concat (map (\<lambda>n. map (\<lambda>p. \<lparr>sp_Port = pc_Container p, sp_Protocol = pc_Protocol p,
                                                sp_Name = []\<rparr>) (nc_Ports n)) (ic_Networks inst)),
        sv_Status = ''running'', sv_Health = HealthStatusStarting, sv_Labels = Map.empty\<rparr> sr"

text \<open>Service discovery, health checking and the restart policy of a new instance.\<close>

definition deploy_watch ::
    "('p, 'c, 'w) stack_env \<Rightarrow> string \<Rightarrow> 'c instance_config \<Rightarrow> 'p \<Rightarrow> instance_handle \<Rightarrow>
     ('p, 'w) stack_manager \<Rightarrow> ('p, 'w) stack_manager" where
  "deploy_watch ev stackName inst prov h sm =
     (let sm1 = sm\<lparr>sm_serviceReg := registerService stackName inst (sm_serviceReg sm)\<rparr>;
          sm2 = (case healthSpecToConfig (ev_ParseDuration ev) (ic_HealthCheck inst) of
                   None \<Rightarrow> sm1
                 | Some cfg \<Rightarrow>
                     on_checker (StartChecking h)
                       (on_checker (RegisterInstance (ev_Now ev) (instance_id stackName (ic_Name inst)) cfg) sm1))
      in
      case restartSpecToPolicy (ev_ParseDuration ev) (ic_Restart inst) of
        None \<Rightarrow> sm2
      | Some policy \<Rightarrow> on_restarter (SetPolicyFor prov h policy) sm2)"

text \<open>Every failure after the first creation rolls back and marks the stack failed.\<close>

definition deploy_fail ::
    "('p, 'c, 'w) stack_env \<Rightarrow> string \<Rightarrow> created_instance list \<Rightarrow> go_error \<Rightarrow> ('p, 'w) stack_manager \<Rightarrow>
     go_error option \<times> ('p, 'w) stack_manager" where
  "deploy_fail ev stackName created e sm =
     (Some e, updateStackStatus ev stackName StackStatusFailed
                (rollbackCreatedInstances ev stackName created sm))"

text \<open>The round of one instance up to its creation, and from there on.\<close>

definition deploy_create ::
    "('p, 'c, 'w) stack_env \<Rightarrow> string \<Rightarrow> 'c instance_config \<Rightarrow> ('p, 'w) stack_manager \<Rightarrow>
     ('p \<times> instance_handle) go_result \<times> ('p, 'w) stack_manager" where
  "deploy_create ev stackName inst sm =
     (case deploy_wait ev stackName inst sm of
        (Some e, sm1) \<Rightarrow> (Inl (Wrapf ''dependency wait failed for %s: %w'' [ic_Name inst] e), sm1)
      | (None, sm1) \<Rightarrow>
          (case RegistryGet (sm_registry sm1) (ic_Provider inst) of
             Inl e \<Rightarrow> (Inl (Wrapf ''provider %s not available: %w'' [ic_Provider inst] e), sm1)
           | Inr prov \<Rightarrow>
               (case instanceToSpec ev sm1 inst (instance_id stackName (ic_Name inst)) of
                  Inl e \<Rightarrow> (Inl (Wrapf ''instance %s: %w'' [ic_Name inst] e), sm1)
                | Inr spec \<Rightarrow>
                    (case call_create ev prov spec sm1 of
                       (Inl e, sm2) \<Rightarrow> (Inl (Wrapf ''failed to create instance %s: %w'' [ic_Name inst] e), sm2)
                     | (Inr h, sm2) \<Rightarrow> (Inr (prov, h), sm2)))))"

definition deploy_created ::
    "('p, 'c, 'w) stack_env \<Rightarrow> string \<Rightarrow> 'c instance_config \<Rightarrow> 'p \<Rightarrow> instance_handle \<Rightarrow>
     ('p, 'w) stack_manager \<Rightarrow> go_error option \<times> ('p, 'w) stack_manager" where
  "deploy_created ev stackName inst prov h sm =
     (case call_start ev prov h sm of
        (Some e, sm1) \<Rightarrow> (Some (Wrapf ''failed to start instance %s: %w'' [ic_Name inst] e), sm1)
      | (None, sm1) \<Rightarrow>
          (case deploy_record ev stackName inst h sm1 of
             (Some e, sm2) \<Rightarrow> (Some e, sm2)
           | (None, sm2) \<Rightarrow> (ev_Pause ev (ic_Name inst), deploy_watch ev stackName inst prov h sm2)))"

definition new_created :: "'c instance_config \<Rightarrow> instance_handle \<Rightarrow> created_instance" where
  "new_created inst h = \<lparr>cr_Name = ic_Name inst, cr_Handle = h, cr_Provider = ic_Provider inst\<rparr>"

fun deploy_loop ::
    "('p, 'c, 'w) stack_env \<Rightarrow> string \<Rightarrow> 'c instance_config list \<Rightarrow> created_instance list \<Rightarrow>
     ('p, 'w) stack_manager \<Rightarrow> go_error option \<times> ('p, 'w) stack_manager" where
  "deploy_loop ev stackName [] created sm = (None, sm)"
| "deploy_loop ev stackName (inst # insts) created sm =
     (case deploy_create ev stackName inst sm of
        (Inl e, sm1) \<Rightarrow> deploy_fail ev stackName created e sm1
      | (Inr (prov, h), sm1) \<Rightarrow>
          let created' = created @ [new_created inst h] in
          case deploy_created ev stackName inst prov h sm1 of
            (Some e, sm2) \<Rightarrow> deploy_fail ev stackName created' e sm2
          | (None, sm2) \<Rightarrow> deploy_loop ev stackName insts created' sm2)"

definition manifest_order ::
    "('p, 'c, 'w) stack_env \<Rightarrow> 'c stack_manifest \<Rightarrow> 'c instance_config list go_result" where
  "manifest_order ev m = buildDependencyOrder ic_Name dep_services (ev_Visit ev) (mf_Instances m)"

definition DeployStack ::
    "('p, 'c, 'w) stack_env \<Rightarrow> 'c stack_manifest \<Rightarrow> ('p, 'w) stack_manager \<Rightarrow>
     go_error option \<times> ('p, 'w) stack_manager" where
  "DeployStack ev m sm =
     (let name = mf_Name m in
      if sm_stacks sm name \<noteq> None then (Some (Errorf ''stack %s already exists'' [name]), sm)
      else
        let sm1 = sm\<lparr>sm_stacks := (sm_stacks sm)(name \<mapsto>
                    \<lparr>st_Name = name, st_Instances = [], st_Status = StackStatusDeploying,
                     st_CreatedAt = ev_Now ev, st_UpdatedAt = ev_Now ev\<rparr>)\<rparr>
        in
        case with_store ev (\<lambda>ss. ss_CreateStack ss
               \<lparr>sr_Name = name, sr_Status = StackStatusDeploying,
                sr_Manifest = (case ev_MarshalManifest ev m of Inl _ \<Rightarrow> [] | Inr j \<Rightarrow> j),
                sr_CreatedAt = 0, sr_UpdatedAt = 0\<rparr>) sm1 of
          (Some e, sm2) \<Rightarrow>
            (Some (Wrapf ''failed to persist stack: %w'' [] e),
             sm2\<lparr>sm_stacks := (sm_stacks sm2)(name := None)\<rparr>)
        | (None, sm2) \<Rightarrow>
            (case manifest_order ev m of
               Inl e \<Rightarrow> (Some (Wrapf ''failed to resolve dependencies: %w'' [] e),
                         updateStackStatus ev name StackStatusFailed sm2)
             | Inr order \<Rightarrow>
                 (case deploy_loop ev name order [] sm2 of
                    (Some e, sm3) \<Rightarrow> (Some e, sm3)
                  | (None, sm3) \<Rightarrow> (None, updateStackStatus ev name StackStatusRunning sm3))))"

section \<open>Stopping, starting and destroying\<close>

definition ErrStackNotFound :: go_error where
  "ErrStackNotFound = Errorf ''stack not found'' []"

definition stop_one ::
    "('p, 'c, 'w) stack_env \<Rightarrow> stack_instance \<Rightarrow> go_error list \<times> ('p, 'w) stack_manager \<Rightarrow>
     go_error list \<times> ('p, 'w) stack_manager" where
  "stop_one ev inst fs_sm =
     (case fs_sm of (fs, sm) \<Rightarrow>
        let sm1 = on_checker (StopChecking (si_InstanceID inst)) sm in
        case RegistryGet (sm_registry sm1) (si_Provider inst) of
          Inl e \<Rightarrow> (fs @ [Wrapf ''instance %s: provider %s unavailable: %w'' [si_Name inst, si_Provider inst] e], sm1)
        | Inr prov \<Rightarrow>
            (case call_stop ev prov (si_Handle inst) False sm1 of
               (Some e, sm2) \<Rightarrow>
                 (fs @ [Wrapf ''instance %s: %w'' [si_Name inst] e], on_checker (StartChecking (si_Handle inst)) sm2)
             | (None, sm2) \<Rightarrow> (fs, sm2)))"

definition StopStack ::
    "('p, 'c, 'w) stack_env \<Rightarrow> string \<Rightarrow> ('p, 'w) stack_manager \<Rightarrow> go_error option \<times> ('p, 'w) stack_manager" where
  "StopStack ev name sm =
     (case sm_stacks sm name of
        None \<Rightarrow> (Some (Wrapf ''stack %s: %w'' [name] ErrStackNotFound), sm)
      | Some s \<Rightarrow>
          (case fold (stop_one ev) (rev (st_Instances s)) ([], sm) of
             (fs, sm1) \<Rightarrow>
               if fs \<noteq> [] then
                 (Some (Wrapf ''stack %s is not fully stopped: %w'' [name] (Joined fs)),
                  updateStackStatus ev name StackStatusDegraded sm1)
               else (None, updateStackStatus ev name StackStatusStopped sm1)))"

fun start_loop ::
    "('p, 'c, 'w) stack_env \<Rightarrow> string \<Rightarrow> stack_instance list \<Rightarrow> ('p, 'w) stack_manager \<Rightarrow>
     go_error option \<times> ('p, 'w) stack_manager" where
  "start_loop ev name [] sm = (None, updateStackStatus ev name StackStatusRunning sm)"
| "start_loop ev name (inst # insts) sm =
     (case RegistryGet (sm_registry sm) (si_Provider inst) of
        Inl e \<Rightarrow> (Some (Wrapf ''provider %s not available: %w'' [si_Provider inst] e),
                  updateStackStatus ev name StackStatusDegraded sm)
      | Inr prov \<Rightarrow>
          (case call_start ev prov (si_Handle inst) sm of
             (Some e, sm1) \<Rightarrow> (Some (Wrapf ''failed to start %s: %w'' [si_InstanceID inst] e),
                               updateStackStatus ev name StackStatusDegraded sm1)
           | (None, sm1) \<Rightarrow>
               let sm2 = on_checker (StartChecking (si_Handle inst)) sm1 in
               case ev_Pause ev (si_Name inst) of
                 Some e \<Rightarrow> (Some e, sm2)
               | None \<Rightarrow> start_loop ev name insts sm2))"

definition StartStack ::
    "('p, 'c, 'w) stack_env \<Rightarrow> string \<Rightarrow> ('p, 'w) stack_manager \<Rightarrow> go_error option \<times> ('p, 'w) stack_manager" where
  "StartStack ev name sm =
     (case sm_stacks sm name of
        None \<Rightarrow> (Some (Wrapf ''stack %s: %w'' [name] ErrStackNotFound), sm)
      | Some s \<Rightarrow> start_loop ev name (st_Instances s) sm)"

definition destroy_one ::
    "('p, 'c, 'w) stack_env \<Rightarrow> string \<Rightarrow> stack_instance \<Rightarrow> go_error list \<times> ('p, 'w) stack_manager \<Rightarrow>
     go_error list \<times> ('p, 'w) stack_manager" where
  "destroy_one ev stackName inst fs_sm =
     (case fs_sm of (fs, sm) \<Rightarrow>
        case RegistryGet (sm_registry sm) (si_Provider inst) of
          Inl e \<Rightarrow> (fs @ [Wrapf ''instance %s: provider %s unavailable: %w'' [si_Name inst, si_Provider inst] e], sm)
        | Inr prov \<Rightarrow>
            (case call_delete ev prov (si_Handle inst) (on_checker (StopChecking (si_InstanceID inst)) sm) of
               (Some e, sm1) \<Rightarrow>
                 (fs @ [Wrapf ''instance %s: %w'' [si_Name inst] e], on_checker (StartChecking (si_Handle inst)) sm1)
             | (None, sm1) \<Rightarrow>
                 (fs, on_restarter (RemovePolicy (si_InstanceID inst))
                        (on_checker (UnregisterInstance (si_InstanceID inst))
                          (sm1\<lparr>sm_serviceReg := UnregisterService stackName (si_Name inst) (sm_serviceReg sm1)\<rparr>)))))"

definition DestroyStack ::
    "('p, 'c, 'w) stack_env \<Rightarrow> string \<Rightarrow> ('p, 'w) stack_manager \<Rightarrow> go_error option \<times> ('p, 'w) stack_manager" where
  "DestroyStack ev name sm =
     (case sm_stacks sm name of
        None \<Rightarrow> (Some (Wrapf ''stack %s: %w'' [name] ErrStackNotFound), sm)
      | Some s \<Rightarrow>
          let sm0 = sm\<lparr>sm_stacks := (sm_stacks sm)(name \<mapsto> s\<lparr>st_Status := StackStatusDestroying\<rparr>)\<rparr> in
          case fold (destroy_one ev name) (rev (st_Instances s)) ([], sm0) of
            (fs, sm1) \<Rightarrow>
              if fs \<noteq> [] then
                (Some (Wrapf ''stack %s is not fully destroyed and its record is kept: %w'' [name] (Joined fs)),
                 updateStackStatus ev name StackStatusDegraded sm1)
              else
                (case with_store ev (\<lambda>ss. ss_DeleteStack ss name) sm1 of
                   (Some e, sm2) \<Rightarrow>
                     (Some (Wrapf ''stack %s instances are gone but its record remains: %w'' [name] e), sm2)
                 | (None, sm2) \<Rightarrow> (None, sm2\<lparr>sm_stacks := (sm_stacks sm2)(name := None)\<rparr>)))"

section \<open>Restoring from the store\<close>

definition restore_instance ::
    "('p, 'c, 'w) stack_env \<Rightarrow> stack_instance_record \<Rightarrow> stack_instance option" where
  "restore_instance ev r =
     (case (if ir_Handle r = [] then Inr \<lparr>ih_ID = [], ih_Provider = [], ih_Metadata = Map.empty\<rparr>
            else ev_UnmarshalHandle ev (ir_Handle r)) of
        Inl _ \<Rightarrow> None
      | Inr h \<Rightarrow>
          Some \<lparr>si_Name = ir_InstanceName r, si_InstanceID = ir_InstanceID r, si_Provider = ir_Provider r,
                si_DependsOn = ir_DependsOn r, si_Status = ir_Status r, si_Health = ir_Health r,
                si_Handle = h\<rparr>)"

definition restore_stack ::
    "('p, 'c, 'w) stack_env \<Rightarrow> 'w stack_store \<Rightarrow> stack_record \<Rightarrow> ('p, 'w) stack_manager \<Rightarrow> ('p, 'w) stack_manager" where
  "restore_stack ev ss r sm =
     (case ss_GetStackInstances ss (sr_Name r) (sm_world sm) of
        Inl _ \<Rightarrow> sm
      | Inr recs \<Rightarrow>
          sm\<lparr>sm_stacks := (sm_stacks sm)(sr_Name r \<mapsto>
               \<lparr>st_Name = sr_Name r, st_Instances = List.map_filter (restore_instance ev) recs,
                st_Status = sr_Status r, st_CreatedAt = sr_CreatedAt r, st_UpdatedAt = sr_UpdatedAt r\<rparr>)\<rparr>)"

definition LoadStacks ::
    "('p, 'c, 'w) stack_env \<Rightarrow> ('p, 'w) stack_manager \<Rightarrow> go_error option \<times> ('p, 'w) stack_manager" where
  "LoadStacks ev sm =
     (case ev_Store ev of
        None \<Rightarrow> (None, sm)
      | Some ss \<Rightarrow>
          (case ss_ListStacks ss (sm_world sm) of
             Inl e \<Rightarrow> (Some (Wrapf ''failed to list stacks from store: %w'' [] e), sm)
           | Inr recs \<Rightarrow> (None, fold (restore_stack ev ss) recs sm)))"

end
