(* ===== verification/Stack_Thms.thy ===== *)
theory Stack_Thms
  imports Stack
begin

text \<open>
  Theorems about \<^theory_text>\<open>Stack\<close>: what a deployment that succeeds, fails or is cancelled leaves
  behind, what stopping and destroying a stack guarantee, and that instance ids of different
  stacks never collide.
\<close>

section \<open>What each step leaves alone\<close>

text \<open>Two states that agree on the stacks, the registries, the restarter and the log.\<close>

definition same :: "('p, 'w) stack_manager \<Rightarrow> ('p, 'w) stack_manager \<Rightarrow> bool" where
  "same sm sm' \<longleftrightarrow>
     sm_stacks sm' = sm_stacks sm \<and> sm_registry sm' = sm_registry sm \<and>
     sm_serviceReg sm' = sm_serviceReg sm \<and> sm_autoRestarter sm' = sm_autoRestarter sm \<and> sm_log sm' = sm_log sm"

lemma same_refl [simp]: "same sm sm"
  by (simp add: same_def)

lemma same_with_store: "same sm (snd (with_store ev f sm))"
  by (simp add: same_def with_store_def split: option.splits prod.splits)

lemma same_with_storeD: "with_store ev f sm = (e, sm') \<Longrightarrow> same sm sm'"
  using same_with_store [of sm ev f] by simp

lemma same_on_checker: "same sm (on_checker f sm)"
  by (simp add: same_def on_checker_def)

text \<open>A provider call changes nothing but the world, and adds itself to the log.\<close>

definition logged :: "provider_call list \<Rightarrow> ('p, 'w) stack_manager \<Rightarrow> ('p, 'w) stack_manager \<Rightarrow> bool" where
  "logged cs sm sm' \<longleftrightarrow> same (sm\<lparr>sm_log := sm_log sm @ cs\<rparr>) sm'"

lemma logged_iff:
  "logged cs sm sm' \<longleftrightarrow>
     sm_stacks sm' = sm_stacks sm \<and> sm_registry sm' = sm_registry sm \<and>
     sm_serviceReg sm' = sm_serviceReg sm \<and> sm_autoRestarter sm' = sm_autoRestarter sm \<and>
     sm_log sm' = sm_log sm @ cs"
  by (auto simp: logged_def same_def)

lemma call_create_logged:
  "call_create ev p spec sm = (Inr h, sm') \<Longrightarrow> logged [CreateCall h] sm sm'"
  "call_create ev p spec sm = (Inl e, sm') \<Longrightarrow> same sm sm'"
  by (auto simp: call_create_def logged_iff same_def split: prod.splits sum.splits)

lemma call_start_logged: "call_start ev p h sm = (e, sm') \<Longrightarrow> logged [StartCall h (e = None)] sm sm'"
  by (auto simp: call_start_def logged_iff split: prod.splits)

lemma call_stop_logged: "call_stop ev p h f sm = (e, sm') \<Longrightarrow> logged [StopCall h f (e = None)] sm sm'"
  by (auto simp: call_stop_def logged_iff split: prod.splits)

lemma call_delete_logged: "call_delete ev p h sm = (e, sm') \<Longrightarrow> logged [DeleteCall h (e = None)] sm sm'"
  by (auto simp: call_delete_def logged_iff split: prod.splits)

lemma upd_stack_stacks:
  "sm_stacks (upd_stack n f sm) = (case sm_stacks sm n of None \<Rightarrow> sm_stacks sm | Some s \<Rightarrow> (sm_stacks sm)(n \<mapsto> f s))"
  by (simp add: upd_stack_def split: option.splits)

lemma upd_stack_frame [simp]:
  "sm_registry (upd_stack n f sm) = sm_registry sm"
  "sm_serviceReg (upd_stack n f sm) = sm_serviceReg sm"
  "sm_autoRestarter (upd_stack n f sm) = sm_autoRestarter sm"
  "sm_log (upd_stack n f sm) = sm_log sm"
  "sm_healthChecker (upd_stack n f sm) = sm_healthChecker sm"
  by (simp_all add: upd_stack_def split: option.splits)

lemma updateStackStatus_same:
  "same (upd_stack n (\<lambda>s. s\<lparr>st_Status := st, st_UpdatedAt := ev_Now ev\<rparr>) sm) (updateStackStatus ev n st sm)"
  by (simp add: updateStackStatus_def same_with_store)

lemma updateStackStatus_stacks:
  "sm_stacks sm n = Some s \<Longrightarrow>
   sm_stacks (updateStackStatus ev n st sm) = (sm_stacks sm)(n \<mapsto> s\<lparr>st_Status := st, st_UpdatedAt := ev_Now ev\<rparr>)"
  using updateStackStatus_same [where n = n and st = st and ev = ev and sm = sm] by (simp add: same_def upd_stack_stacks)

lemma updateStackStatus_frame [simp]:
  "sm_registry (updateStackStatus ev n st sm) = sm_registry sm"
  "sm_serviceReg (updateStackStatus ev n st sm) = sm_serviceReg sm"
  "sm_autoRestarter (updateStackStatus ev n st sm) = sm_autoRestarter sm"
  "sm_log (updateStackStatus ev n st sm) = sm_log sm"
  using updateStackStatus_same [where n = n and st = st and ev = ev and sm = sm] by (simp_all add: same_def)

lemma deploy_wait_same: "same sm (snd (deploy_wait ev sn inst sm))"
  by (simp add: deploy_wait_def waitForDependencies_def same_def split: option.splits prod.splits)

section \<open>Deploying one instance\<close>

text \<open>
  The states a creation goes through: the instance exists at the provider and may or may not
  have joined the stack and the service registry.
\<close>

definition joined :: "('p, 'c, 'w) stack_env \<Rightarrow> string \<Rightarrow> 'c instance_config \<Rightarrow> instance_handle \<Rightarrow> stack \<Rightarrow> stack" where
  "joined ev sn inst h s =
     s\<lparr>st_Instances := st_Instances s @ [new_stack_instance sn inst h], st_UpdatedAt := ev_Now ev\<rparr>"

definition half_deployed ::
    "('p, 'c, 'w) stack_env \<Rightarrow> string \<Rightarrow> 'c instance_config \<Rightarrow> instance_handle \<Rightarrow>
     ('p, 'w) stack_manager \<Rightarrow> ('p, 'w) stack_manager \<Rightarrow> bool" where
  "half_deployed ev sn inst h sm sm' \<longleftrightarrow>
     sm_registry sm' = sm_registry sm \<and> RegistryGet (sm_registry sm) (ic_Provider inst) \<in> range Inr \<and>
     (\<exists>ok. sm_log sm' = sm_log sm @ [CreateCall h, StartCall h ok]) \<and>
     (sm_stacks sm' = sm_stacks sm \<or> sm_stacks sm' = sm_stacks (upd_stack sn (joined ev sn inst h) sm)) \<and>
     (sm_serviceReg sm' = sm_serviceReg sm \<or> sm_serviceReg sm' = registerService sn inst (sm_serviceReg sm))"

definition deployed ::
    "('p, 'c, 'w) stack_env \<Rightarrow> string \<Rightarrow> 'c instance_config \<Rightarrow> instance_handle \<Rightarrow>
     ('p, 'w) stack_manager \<Rightarrow> ('p, 'w) stack_manager \<Rightarrow> bool" where
  "deployed ev sn inst h sm sm' \<longleftrightarrow>
     sm_registry sm' = sm_registry sm \<and> RegistryGet (sm_registry sm) (ic_Provider inst) \<in> range Inr \<and>
     sm_log sm' = sm_log sm @ [CreateCall h, StartCall h True] \<and>
     sm_stacks sm' = sm_stacks (upd_stack sn (joined ev sn inst h) sm) \<and>
     sm_serviceReg sm' = registerService sn inst (sm_serviceReg sm)"

lemma deployed_half: "deployed ev sn inst h sm sm' \<Longrightarrow> half_deployed ev sn inst h sm sm'"
  by (auto simp: deployed_def half_deployed_def)

lemma deploy_record_same:
  "same (upd_stack sn (joined ev sn inst h) sm) (snd (deploy_record ev sn inst h sm))"
  unfolding joined_def [abs_def] deploy_record_def Let_def
  by (auto split: option.split sum.split prod.split dest: same_with_storeD)

lemma deploy_watch_frame:
  "sm_stacks (deploy_watch ev sn inst p h sm) = sm_stacks sm"
  "sm_registry (deploy_watch ev sn inst p h sm) = sm_registry sm"
  "sm_log (deploy_watch ev sn inst p h sm) = sm_log sm"
  "sm_serviceReg (deploy_watch ev sn inst p h sm) = registerService sn inst (sm_serviceReg sm)"
  by (simp_all add: deploy_watch_def on_checker_def on_restarter_def Let_def split: option.splits)

lemma deploy_create_logged:
  assumes "deploy_create ev sn inst sm = (r, sm1)"
  shows "case r of Inl e \<Rightarrow> same sm sm1
         | Inr (p, h) \<Rightarrow> logged [CreateCall h] sm sm1 \<and> RegistryGet (sm_registry sm) (ic_Provider inst) = Inr p"
proof -
  obtain e1 sm0 where w: "deploy_wait ev sn inst sm = (e1, sm0)" by fastforce
  then have s: "same sm sm0" using deploy_wait_same [of sm ev sn inst] by simp
  then have lift: "same sm0 sm' \<Longrightarrow> same sm sm'" "logged cs sm0 sm' \<Longrightarrow> logged cs sm sm'" for cs sm'
    by (simp_all add: same_def logged_iff)
  show ?thesis
    using assms w s call_create_logged [of ev _ _ sm0] lift
    by (auto simp: deploy_create_def same_def split: option.splits sum.splits prod.splits)
qed

lemma deploy_created_states:
  assumes c: "logged [CreateCall h] sm sm1" "RegistryGet (sm_registry sm) (ic_Provider inst) = Inr p"
    and d: "deploy_created ev sn inst p h sm1 = (r, sm2)"
  shows "half_deployed ev sn inst h sm sm2" and "r = None \<Longrightarrow> deployed ev sn inst h sm sm2"
proof -
  obtain e3 sm3 where st: "call_start ev p h sm1 = (e3, sm3)" by fastforce
  obtain e4 sm4 where rc: "deploy_record ev sn inst h sm3 = (e4, sm4)" by fastforce
  have l3: "logged [CreateCall h, StartCall h (e3 = None)] sm sm3"
    using c(1) call_start_logged [OF st] by (simp add: logged_iff)
  have s4: "same (upd_stack sn (joined ev sn inst h) sm3) sm4"
    using deploy_record_same [of sn ev inst h sm3] rc by simp
  have st4: "sm_stacks sm4 = sm_stacks (upd_stack sn (joined ev sn inst h) sm)"
    using s4 l3 by (cases "sm_stacks sm sn") (auto simp: same_def logged_iff upd_stack_stacks)
  have half: "half_deployed ev sn inst h sm sm3" "half_deployed ev sn inst h sm sm4"
    using l3 s4 st4 c(2) by (simp_all add: half_deployed_def logged_iff same_def)
  have full: "e3 = None \<Longrightarrow> deployed ev sn inst h sm (deploy_watch ev sn inst p h sm4)"
    using l3 s4 st4 c(2) by (simp add: deployed_def deploy_watch_frame logged_iff same_def)
  show "half_deployed ev sn inst h sm sm2"
    using d st rc half full deployed_half by (auto simp: deploy_created_def split: option.splits)
  show "r = None \<Longrightarrow> deployed ev sn inst h sm sm2"
    using d st rc full by (auto simp: deploy_created_def split: option.splits)
qed

text \<open>The three ways one round of the loop ends: nothing created, created and failed, deployed.\<close>

lemma deploy_loop_cases:
  obtains (nothing) e sm1 where
      "deploy_loop ev sn (inst # insts) created sm = deploy_fail ev sn created e sm1" "same sm sm1"
  | (failed) e h sm1 where
      "deploy_loop ev sn (inst # insts) created sm = deploy_fail ev sn (created @ [new_created inst h]) e sm1"
      "half_deployed ev sn inst h sm sm1"
  | (ok) h sm1 where
      "deploy_loop ev sn (inst # insts) created sm = deploy_loop ev sn insts (created @ [new_created inst h]) sm1"
      "deployed ev sn inst h sm sm1"
proof -
  obtain r sm1 where c: "deploy_create ev sn inst sm = (r, sm1)" by fastforce
  show thesis
  proof (cases r)
    case (Inl e)
    show ?thesis by (rule nothing [of e sm1]) (use c Inl deploy_create_logged [OF c] in auto)
  next
    case (Inr x)
    obtain p h where x: "x = (p, h)" by fastforce
    have l: "logged [CreateCall h] sm sm1" "RegistryGet (sm_registry sm) (ic_Provider inst) = Inr p"
      using deploy_create_logged [OF c] Inr x by auto
    obtain e sm2 where d: "deploy_created ev sn inst p h sm1 = (e, sm2)" by fastforce
    show ?thesis
    proof (cases e)
      case None
      show ?thesis by (rule ok [of h sm2]) (use c Inr x d None deploy_created_states(2) [OF l d] in auto)
    next
      case (Some e')
      show ?thesis by (rule failed [of h e' sm2]) (use c Inr x d Some deploy_created_states(1) [OF l d] in auto)
    qed
  qed
qed

section \<open>Rolling back\<close>

lemma forget_effect:
  "sm_stacks (forgetRolledBackInstance ev sn n sm) =
     sm_stacks (upd_stack sn (\<lambda>s. s\<lparr>st_Instances := filter (\<lambda>i. si_Name i \<noteq> n) (st_Instances s)\<rparr>) sm)"
  "sm_registry (forgetRolledBackInstance ev sn n sm) = sm_registry sm"
  "sm_serviceReg (forgetRolledBackInstance ev sn n sm) = UnregisterService sn n (sm_serviceReg sm)"
  "sm_autoRestarter (forgetRolledBackInstance ev sn n sm) = sm_autoRestarter sm"
  "sm_log (forgetRolledBackInstance ev sn n sm) = sm_log sm"
  by (simp_all add: forgetRolledBackInstance_def Let_def with_store_def on_checker_def
      split: option.splits prod.splits)

lemma rollback_one_effect:
  assumes "RegistryGet (sm_registry sm) (cr_Provider ch) \<in> range Inr"
  obtains a b where
    "sm_stacks (rollback_one ev sn ch sm) =
       sm_stacks (upd_stack sn (\<lambda>s. s\<lparr>st_Instances := filter (\<lambda>i. si_Name i \<noteq> cr_Name ch) (st_Instances s)\<rparr>) sm)"
    "sm_registry (rollback_one ev sn ch sm) = sm_registry sm"
    "sm_serviceReg (rollback_one ev sn ch sm) = UnregisterService sn (cr_Name ch) (sm_serviceReg sm)"
    "sm_autoRestarter (rollback_one ev sn ch sm) = sm_autoRestarter sm"
    "sm_log (rollback_one ev sn ch sm) =
       sm_log sm @ [StopCall (cr_Handle ch) True a, DeleteCall (cr_Handle ch) b]"
proof -
  from assms obtain p where p: "RegistryGet (sm_registry sm) (cr_Provider ch) = Inr p" by auto
  obtain e1 sm1 where s: "call_stop ev p (cr_Handle ch) True sm = (e1, sm1)" by fastforce
  obtain e2 sm2 where d: "call_delete ev p (cr_Handle ch) sm1 = (e2, sm2)" by fastforce
  have l: "logged [StopCall (cr_Handle ch) True (e1 = None), DeleteCall (cr_Handle ch) (e2 = None)] sm sm2"
    using call_stop_logged [OF s] call_delete_logged [OF d] by (simp add: logged_iff)
  have r: "rollback_one ev sn ch sm = forgetRolledBackInstance ev sn (cr_Name ch) sm2"
    using p s d by (simp add: rollback_one_def)
  show thesis
    by (rule that [of "e1 = None" "e2 = None"])
      (use l in \<open>auto simp: r forget_effect logged_iff upd_stack_stacks split: option.split\<close>)
qed


text \<open>A forced stop and a deletion of an instance, one after the other.\<close>

definition cleaned :: "instance_handle \<Rightarrow> provider_call list \<Rightarrow> bool" where
  "cleaned h L \<longleftrightarrow> (\<exists>A B a b. L = A @ [StopCall h True a, DeleteCall h b] @ B)"

lemma cleaned_append: "cleaned h L \<Longrightarrow> cleaned h (K @ L)" "cleaned h L \<Longrightarrow> cleaned h (L @ K)"
  unfolding cleaned_def by (metis append_assoc)+

text \<open>The same after the last creation of that instance.\<close>

definition cleaned_up :: "instance_handle \<Rightarrow> provider_call list \<Rightarrow> bool" where
  "cleaned_up h L \<longleftrightarrow> (\<exists>J K. L = J @ K \<and> CreateCall h \<notin> set K \<and> cleaned h K)"

definition without :: "string set \<Rightarrow> stack \<Rightarrow> stack" where
  "without N s = s\<lparr>st_Instances := filter (\<lambda>i. si_Name i \<notin> N) (st_Instances s)\<rparr>"

lemma rollback_effect:
  assumes "\<forall>c \<in> set created. RegistryGet (sm_registry sm) (cr_Provider c) \<in> range Inr" "sm_stacks sm sn = Some s"
  shows "sm_stacks (rollbackCreatedInstances ev sn created sm) =
           (sm_stacks sm)(sn \<mapsto> without (cr_Name ` set created) s) \<and>
         sm_autoRestarter (rollbackCreatedInstances ev sn created sm) = sm_autoRestarter sm \<and>
         sm_serviceReg (rollbackCreatedInstances ev sn created sm) =
           (\<lambda>k. if k \<in> serviceKey sn ` cr_Name ` set created then None else sm_serviceReg sm k) \<and>
         (\<exists>L. sm_log (rollbackCreatedInstances ev sn created sm) = sm_log sm @ L \<and>
              (\<forall>h. CreateCall h \<notin> set L) \<and> (\<forall>c \<in> set created. cleaned (cr_Handle c) L))"
  using assms
proof (induction created arbitrary: sm s)
  case Nil
  then show ?case by (auto simp: rollbackCreatedInstances_def without_def fun_upd_idem)
next
  case (Cons c created)
  let ?sm = "rollback_one ev sn c sm"
  have reg: "RegistryGet (sm_registry sm) (cr_Provider c) \<in> range Inr" using Cons.prems(1) by simp
  obtain a b where one:
    "sm_stacks ?sm = sm_stacks (upd_stack sn (\<lambda>s. s\<lparr>st_Instances := filter (\<lambda>i. si_Name i \<noteq> cr_Name c) (st_Instances s)\<rparr>) sm)"
    "sm_registry ?sm = sm_registry sm"
    "sm_serviceReg ?sm = UnregisterService sn (cr_Name c) (sm_serviceReg sm)"
    "sm_autoRestarter ?sm = sm_autoRestarter sm"
    "sm_log ?sm = sm_log sm @ [StopCall (cr_Handle c) True a, DeleteCall (cr_Handle c) b]"
    by (rule rollback_one_effect [OF reg, of ev sn])
  have st: "sm_stacks ?sm = (sm_stacks sm)(sn \<mapsto> without {cr_Name c} s)"
    using one(1) Cons.prems(2) by (simp add: upd_stack_stacks without_def)
  have regs: "\<forall>c \<in> set created. RegistryGet (sm_registry ?sm) (cr_Provider c) \<in> range Inr"
    using Cons.prems(1) one(2) by simp
  have at: "sm_stacks ?sm sn = Some (without {cr_Name c} s)" using st by simp
  have IH: "sm_stacks (rollbackCreatedInstances ev sn created ?sm) =
           (sm_stacks ?sm)(sn \<mapsto> without (cr_Name ` set created) (without {cr_Name c} s))"
    "sm_autoRestarter (rollbackCreatedInstances ev sn created ?sm) = sm_autoRestarter ?sm"
    "sm_serviceReg (rollbackCreatedInstances ev sn created ?sm) =
           (\<lambda>k. if k \<in> serviceKey sn ` cr_Name ` set created then None else sm_serviceReg ?sm k)"
    "\<exists>L. sm_log (rollbackCreatedInstances ev sn created ?sm) = sm_log ?sm @ L \<and>
              (\<forall>h. CreateCall h \<notin> set L) \<and> (\<forall>c \<in> set created. cleaned (cr_Handle c) L)"
    using Cons.IH [of ?sm "without {cr_Name c} s"] regs at by blast+
  have r: "rollbackCreatedInstances ev sn (c # created) sm = rollbackCreatedInstances ev sn created ?sm"
    by (simp add: rollbackCreatedInstances_def)
  have w: "without (cr_Name ` set created) (without {cr_Name c} s) = without (cr_Name ` set (c # created)) s"
    by (auto simp: without_def intro!: filter_cong)
  obtain L where L: "sm_log (rollbackCreatedInstances ev sn created ?sm) = sm_log ?sm @ L"
    "\<forall>c \<in> set created. cleaned (cr_Handle c) L" "\<forall>h. CreateCall h \<notin> set L" using IH(4) by blast
  let ?L = "[StopCall (cr_Handle c) True a, DeleteCall (cr_Handle c) b]"
  have "cleaned (cr_Handle c) ?L" unfolding cleaned_def by (intro exI [of _ "[]"]) auto
  then have "\<forall>c' \<in> set (c # created). cleaned (cr_Handle c') (?L @ L)"
    using L(2) cleaned_append(1) [of _ L ?L] cleaned_append(2) [of _ ?L L] by (metis set_ConsD)
  moreover have "sm_log (rollbackCreatedInstances ev sn created ?sm) = sm_log sm @ (?L @ L)"
    using L(1) one(5) by simp
  moreover have "\<forall>h. CreateCall h \<notin> set (?L @ L)" using L(3) by simp
  moreover have "sm_stacks (rollbackCreatedInstances ev sn created ?sm) =
      (sm_stacks sm)(sn \<mapsto> without (cr_Name ` set (c # created)) s)"
    using IH(1) st w by simp
  moreover have "sm_serviceReg (rollbackCreatedInstances ev sn created ?sm) =
      (\<lambda>k. if k \<in> serviceKey sn ` cr_Name ` set (c # created) then None else sm_serviceReg sm k)"
    using IH(3) one(3) by (auto simp: UnregisterService_def fun_eq_iff)
  ultimately show ?case unfolding r using IH(2) one(4) by metis
qed

section \<open>A failed deployment\<close>

text \<open>What holds between rounds: everything the deployment left belongs to an instance it created.\<close>

definition deploying ::
    "string \<Rightarrow> created_instance list \<Rightarrow> ('p, 'w) stack_manager \<Rightarrow> ('p, 'w) stack_manager \<Rightarrow> bool" where
  "deploying sn created sm0 sm \<longleftrightarrow>
     (\<exists>s. sm_stacks sm = (sm_stacks sm0)(sn \<mapsto> s) \<and> si_Name ` set (st_Instances s) \<subseteq> cr_Name ` set created) \<and>
     (\<forall>c \<in> set created. RegistryGet (sm_registry sm) (cr_Provider c) \<in> range Inr) \<and>
     (\<forall>k. k \<notin> serviceKey sn ` cr_Name ` set created \<longrightarrow> sm_serviceReg sm k = sm_serviceReg sm0 k) \<and>
     (\<exists>L. sm_log sm = sm_log sm0 @ L \<and> (\<forall>h. CreateCall h \<in> set L \<longrightarrow> h \<in> cr_Handle ` set created))"

lemma deploying_same: "deploying sn created sm0 sm \<Longrightarrow> same sm sm1 \<Longrightarrow> deploying sn created sm0 sm1"
  by (simp add: deploying_def same_def)

lemma registerService_other: "k \<noteq> serviceKey sn (ic_Name inst) \<Longrightarrow> registerService sn inst sr k = sr k"
  by (simp add: registerService_def RegisterService_def)

lemma deploying_half:
  assumes d: "deploying sn created sm0 sm" and h: "half_deployed ev sn inst h sm sm1"
  shows "deploying sn (created @ [new_created inst h]) sm0 sm1"
proof -
  from d obtain s L where s: "sm_stacks sm = (sm_stacks sm0)(sn \<mapsto> s)" "si_Name ` set (st_Instances s) \<subseteq> cr_Name ` set created"
    and L: "sm_log sm = sm_log sm0 @ L" "\<forall>h. CreateCall h \<in> set L \<longrightarrow> h \<in> cr_Handle ` set created"
    by (auto simp: deploying_def)
  from h obtain ok where log: "sm_log sm1 = sm_log sm @ [CreateCall h, StartCall h ok]"
    by (auto simp: half_deployed_def)
  have "\<exists>s'. sm_stacks sm1 = (sm_stacks sm0)(sn \<mapsto> s') \<and>
        si_Name ` set (st_Instances s') \<subseteq> cr_Name ` set (created @ [new_created inst h])"
  proof -
    have "sm_stacks sm1 = (sm_stacks sm0)(sn \<mapsto> s) \<or> sm_stacks sm1 = (sm_stacks sm0)(sn \<mapsto> joined ev sn inst h s)"
      using h s(1) by (auto simp: half_deployed_def upd_stack_stacks)
    moreover have "si_Name ` set (st_Instances (joined ev sn inst h s)) \<subseteq> cr_Name ` set (created @ [new_created inst h])"
      "si_Name ` set (st_Instances s) \<subseteq> cr_Name ` set (created @ [new_created inst h])"
      using s(2) by (auto simp: joined_def new_stack_instance_def new_created_def)
    ultimately show ?thesis by blast
  qed
  moreover have "\<forall>c \<in> set (created @ [new_created inst h]). RegistryGet (sm_registry sm1) (cr_Provider c) \<in> range Inr"
    using d h by (auto simp: deploying_def half_deployed_def new_created_def)
  moreover have "\<forall>k. k \<notin> serviceKey sn ` cr_Name ` set (created @ [new_created inst h]) \<longrightarrow>
        sm_serviceReg sm1 k = sm_serviceReg sm0 k"
    using d h by (auto simp: deploying_def half_deployed_def new_created_def registerService_other)
  moreover have "\<exists>L. sm_log sm1 = sm_log sm0 @ L \<and>
        (\<forall>h'. CreateCall h' \<in> set L \<longrightarrow> h' \<in> cr_Handle ` set (created @ [new_created inst h]))"
    using L log by (auto simp: new_created_def)
  ultimately show ?thesis unfolding deploying_def by blast
qed

text \<open>What a failed deployment leaves: a failed stack without instances, and no trace of what was created.\<close>

definition undone :: "string \<Rightarrow> ('p, 'w) stack_manager \<Rightarrow> ('p, 'w) stack_manager \<Rightarrow> bool" where
  "undone sn sm0 sm \<longleftrightarrow>
     (\<exists>s. sm_stacks sm = (sm_stacks sm0)(sn \<mapsto> s) \<and> st_Status s = StackStatusFailed \<and> st_Instances s = []) \<and>
     sm_serviceReg sm = sm_serviceReg sm0 \<and>
     (\<exists>L. sm_log sm = sm_log sm0 @ L \<and> (\<forall>h. CreateCall h \<in> set L \<longrightarrow> cleaned_up h L))"

lemma deploy_fail_undone:
  assumes d: "deploying sn created sm0 sm" and none: "\<forall>n. GetService (sm_serviceReg sm0) sn n = None"
  shows "undone sn sm0 (snd (deploy_fail ev sn created e sm))"
proof -
  from d obtain s L where s: "sm_stacks sm = (sm_stacks sm0)(sn \<mapsto> s)" "si_Name ` set (st_Instances s) \<subseteq> cr_Name ` set created"
    and L: "sm_log sm = sm_log sm0 @ L" "\<forall>h. CreateCall h \<in> set L \<longrightarrow> h \<in> cr_Handle ` set created"
    and reg: "\<forall>c \<in> set created. RegistryGet (sm_registry sm) (cr_Provider c) \<in> range Inr"
    and svc: "\<forall>k. k \<notin> serviceKey sn ` cr_Name ` set created \<longrightarrow> sm_serviceReg sm k = sm_serviceReg sm0 k"
    by (auto simp: deploying_def)
  let ?r = "rollbackCreatedInstances ev sn created sm"
  have st: "sm_stacks sm sn = Some s" using s by simp
  from rollback_effect [OF reg st, of ev]
  have r: "sm_stacks ?r = (sm_stacks sm)(sn \<mapsto> without (cr_Name ` set created) s)"
    "sm_serviceReg ?r = (\<lambda>k. if k \<in> serviceKey sn ` cr_Name ` set created then None else sm_serviceReg sm k)"
    and rl: "\<exists>K. sm_log ?r = sm_log sm @ K \<and> (\<forall>h. CreateCall h \<notin> set K) \<and>
      (\<forall>c \<in> set created. cleaned (cr_Handle c) K)" by blast+
  from rl obtain K where K: "sm_log ?r = sm_log sm @ K" "\<forall>c \<in> set created. cleaned (cr_Handle c) K"
    "\<forall>h. CreateCall h \<notin> set K" by blast
  have "st_Instances (without (cr_Name ` set created) s) = []"
    using s(2) by (auto simp: without_def filter_empty_conv)
  then have "\<exists>s'. sm_stacks (updateStackStatus ev sn StackStatusFailed ?r) = (sm_stacks sm0)(sn \<mapsto> s') \<and>
      st_Status s' = StackStatusFailed \<and> st_Instances s' = []"
    using updateStackStatus_stacks [of ?r sn "without (cr_Name ` set created) s" ev StackStatusFailed] r(1) s(1)
    by (intro exI [of _ "(without (cr_Name ` set created) s)\<lparr>st_Status := StackStatusFailed, st_UpdatedAt := ev_Now ev\<rparr>"])
      simp
  moreover have "sm_serviceReg ?r = sm_serviceReg sm0"
    using r(2) svc none by (auto simp: GetService_def fun_eq_iff)
  moreover have "\<forall>h. CreateCall h \<in> set (L @ K) \<longrightarrow> cleaned_up h (L @ K)"
    using L(2) K(2,3) unfolding cleaned_up_def by fastforce
  ultimately show ?thesis using K L by (simp add: undone_def deploy_fail_def)
qed

lemma deploy_loop_undone:
  assumes "deploying sn created sm0 sm" "\<forall>n. GetService (sm_serviceReg sm0) sn n = None"
    "fst (deploy_loop ev sn insts created sm) \<noteq> None"
  shows "undone sn sm0 (snd (deploy_loop ev sn insts created sm))"
  using assms
proof (induction insts arbitrary: created sm)
  case (Cons inst insts)
  show ?case
  proof (cases rule: deploy_loop_cases [of ev sn inst insts created sm])
    case (nothing e sm1)
    then show ?thesis using deploy_fail_undone deploying_same Cons.prems(1,2) by metis
  next
    case (failed e h sm1)
    then show ?thesis using deploy_fail_undone deploying_half Cons.prems(1,2) by metis
  next
    case (ok h sm1)
    then show ?thesis
      using Cons.IH [of "created @ [new_created inst h]" sm1] Cons.prems
        deploying_half [OF Cons.prems(1) deployed_half [OF ok(2)]] by simp
  qed
qed simp


lemma serviceKey_inj: "sn \<noteq> [] \<Longrightarrow> serviceKey sn m = serviceKey sn n \<longleftrightarrow> m = n"
  by (simp add: serviceKey_def)

text \<open>The manager while the stack is being created, before its first instance.\<close>

definition opened :: "('p, 'c, 'w) stack_env \<Rightarrow> string \<Rightarrow> ('p, 'w) stack_manager \<Rightarrow> ('p, 'w) stack_manager \<Rightarrow> bool" where
  "opened ev sn sm sm1 \<longleftrightarrow>
     sm_stacks sm1 = (sm_stacks sm)(sn \<mapsto>
       \<lparr>st_Name = sn, st_Instances = [], st_Status = StackStatusDeploying,
        st_CreatedAt = ev_Now ev, st_UpdatedAt = ev_Now ev\<rparr>) \<and>
     sm_registry sm1 = sm_registry sm \<and> sm_serviceReg sm1 = sm_serviceReg sm \<and> sm_log sm1 = sm_log sm"

lemma opened_deploying: "opened ev sn sm sm1 \<Longrightarrow> deploying sn [] sm sm1"
  by (auto simp: opened_def deploying_def)

text \<open>The five ways a deployment ends.\<close>

lemma DeployStack_cases:
  obtains (exists) "sm_stacks sm (mf_Name m) \<noteq> None" "fst (DeployStack ev m sm) \<noteq> None" "snd (DeployStack ev m sm) = sm"
  | (unsaved) e sm1 where "sm_stacks sm (mf_Name m) = None" "opened ev (mf_Name m) sm sm1" "DeployStack ev m sm =
      (Some e, sm1\<lparr>sm_stacks := (sm_stacks sm1)(mf_Name m := None)\<rparr>)"
  | (unordered) e sm1 where "sm_stacks sm (mf_Name m) = None" "opened ev (mf_Name m) sm sm1"
      "\<not> (\<exists>order. manifest_order ev m = Inr order)"
      "DeployStack ev m sm = (Some e, updateStackStatus ev (mf_Name m) StackStatusFailed sm1)"
  | (failed) order e sm1 sm2 where "sm_stacks sm (mf_Name m) = None" "opened ev (mf_Name m) sm sm1"
      "manifest_order ev m = Inr order" "deploy_loop ev (mf_Name m) order [] sm1 = (Some e, sm2)"
      "DeployStack ev m sm = (Some e, sm2)"
  | (ok) order sm1 sm2 where "sm_stacks sm (mf_Name m) = None" "opened ev (mf_Name m) sm sm1"
      "manifest_order ev m = Inr order" "deploy_loop ev (mf_Name m) order [] sm1 = (None, sm2)"
      "DeployStack ev m sm = (None, updateStackStatus ev (mf_Name m) StackStatusRunning sm2)"
proof (cases "sm_stacks sm (mf_Name m)")
  case (Some s)
  then show thesis by (intro exists) (simp_all add: DeployStack_def)
next
  case None
  define sm0 where "sm0 = sm\<lparr>sm_stacks := (sm_stacks sm)(mf_Name m \<mapsto>
      \<lparr>st_Name = mf_Name m, st_Instances = [], st_Status = StackStatusDeploying,
       st_CreatedAt = ev_Now ev, st_UpdatedAt = ev_Now ev\<rparr>)\<rparr>"
  let ?f = "\<lambda>ss. ss_CreateStack ss
      \<lparr>sr_Name = mf_Name m, sr_Status = StackStatusDeploying,
       sr_Manifest = (case ev_MarshalManifest ev m of Inl _ \<Rightarrow> [] | Inr j \<Rightarrow> j), sr_CreatedAt = 0, sr_UpdatedAt = 0\<rparr>"
  obtain e sm1 where c: "with_store ev ?f sm0 = (e, sm1)" by fastforce
  have o: "opened ev (mf_Name m) sm sm1"
    using same_with_storeD [OF c] by (simp add: opened_def same_def sm0_def)
  have D: "DeployStack ev m sm =
      (case (e, sm1) of
         (Some e, sm2) \<Rightarrow> (Some (Wrapf ''failed to persist stack: %w'' [] e),
            sm2\<lparr>sm_stacks := (sm_stacks sm2)(mf_Name m := None)\<rparr>)
       | (None, sm2) \<Rightarrow>
         (case manifest_order ev m of
            Inl e \<Rightarrow> (Some (Wrapf ''failed to resolve dependencies: %w'' [] e),
                      updateStackStatus ev (mf_Name m) StackStatusFailed sm2)
          | Inr order \<Rightarrow>
              (case deploy_loop ev (mf_Name m) order [] sm2 of
                 (Some e, sm3) \<Rightarrow> (Some e, sm3)
               | (None, sm3) \<Rightarrow> (None, updateStackStatus ev (mf_Name m) StackStatusRunning sm3))))"
    unfolding c [symmetric] sm0_def using None by (simp add: DeployStack_def Let_def)
  show thesis
  proof (cases e)
    case (Some e')
    show ?thesis by (rule unsaved [OF None o]) (simp add: D Some)
  next
    case e: None
    show ?thesis
    proof (cases "manifest_order ev m")
      case (Inl e')
      show ?thesis by (rule unordered [OF None o]) (simp_all add: D e Inl)
    next
      case (Inr order)
      obtain r sm2 where l: "deploy_loop ev (mf_Name m) order [] sm1 = (r, sm2)" by fastforce
      show ?thesis
      proof (cases r)
        case r: None
        show ?thesis by (rule ok [OF None o Inr]) (simp_all add: D e Inr l r)
      next
        case (Some e')
        show ?thesis by (rule failed [OF None o Inr]) (simp_all add: D e Inr l Some)
      qed
    qed
  qed
qed


section \<open>A successful deployment\<close>

text \<open>Between the rounds of a deployment in which nothing failed.\<close>

definition progressed ::
    "string \<Rightarrow> ('c instance_config \<times> instance_handle) list \<Rightarrow> ('p, 'w) stack_manager \<Rightarrow> ('p, 'w) stack_manager \<Rightarrow> bool" where
  "progressed sn dn sm0 sm \<longleftrightarrow>
     (\<exists>s. sm_stacks sm = (sm_stacks sm0)(sn \<mapsto> s) \<and>
          st_Instances s = map (\<lambda>(i, h). new_stack_instance sn i h) dn) \<and>
     sm_log sm = sm_log sm0 @ concat (map (\<lambda>(i, h). [CreateCall h, StartCall h True]) dn) \<and>
     sm_serviceReg sm = fold (\<lambda>(i, h). registerService sn i) dn (sm_serviceReg sm0)"

lemma progressed_deployed:
  assumes "progressed sn dn sm0 sm" "deployed ev sn inst h sm sm1"
  shows "progressed sn (dn @ [(inst, h)]) sm0 sm1"
proof -
  from assms(1) obtain s where s: "sm_stacks sm = (sm_stacks sm0)(sn \<mapsto> s)"
    "st_Instances s = map (\<lambda>(i, h). new_stack_instance sn i h) dn" by (auto simp: progressed_def)
  have "sm_stacks sm1 = (sm_stacks sm0)(sn \<mapsto> joined ev sn inst h s)"
    using assms(2) s(1) by (simp add: deployed_def upd_stack_stacks)
  moreover have "st_Instances (joined ev sn inst h s) =
      map (\<lambda>(i, h). new_stack_instance sn i h) (dn @ [(inst, h)])"
    using s(2) by (simp add: joined_def)
  ultimately show ?thesis using assms unfolding progressed_def deployed_def by (simp, blast)
qed

lemma deploy_fail_error [simp]: "fst (deploy_fail ev sn created e sm) = Some e"
  by (simp add: deploy_fail_def)

lemma deploy_loop_progressed:
  assumes "progressed sn dn sm0 sm" "deploy_loop ev sn insts created sm = (None, sm1)"
  shows "\<exists>hs. length hs = length insts \<and> progressed sn (dn @ zip insts hs) sm0 sm1"
  using assms
proof (induction insts arbitrary: dn created sm)
  case (Cons inst insts)
  show ?case
  proof (cases rule: deploy_loop_cases [of ev sn inst insts created sm])
    case (nothing e sm2)
    then have "fst (deploy_fail ev sn created e sm2) = None" using Cons.prems(2) by (metis fst_conv)
    then show ?thesis by simp
  next
    case (failed e h sm2)
    then have "fst (deploy_fail ev sn (created @ [new_created inst h]) e sm2) = None"
      using Cons.prems(2) by (metis fst_conv)
    then show ?thesis by simp
  next
    case (ok h sm2)
    with Cons.prems(2) have "deploy_loop ev sn insts (created @ [new_created inst h]) sm2 = (None, sm1)" by metis
    from Cons.IH [OF progressed_deployed [OF Cons.prems(1) ok(2)] this] obtain hs where
      "length hs = length insts" "progressed sn ((dn @ [(inst, h)]) @ zip insts hs) sm0 sm1" by blast
    then show ?thesis by (intro exI [of _ "h # hs"]) simp
  qed
qed simp

text \<open>The services of a list of instances, registered one after the other.\<close>

lemma fold_register_get:
  assumes "sn \<noteq> []" "n \<in> ic_Name ` fst ` set dn"
  shows "\<exists>svc. GetService (fold (\<lambda>(i, h). registerService sn i) dn sr) sn n = Some svc \<and>
           sv_Name svc = n \<and> sv_StackName svc = sn"
  using assms(2)
proof (induction dn rule: rev_induct)
  case (snoc x xs)
  obtain i h where x: "x = (i, h)" by fastforce
  show ?case
  proof (cases "n = ic_Name i")
    case True
    then show ?thesis by (simp add: x registerService_def sd.get_reg)
  next
    case False
    then have "serviceKey sn n \<noteq> serviceKey sn (ic_Name i)" using serviceKey_inj [OF assms(1)] by simp
    with snoc False show ?thesis by (auto simp: x GetService_def registerService_other)
  qed
qed simp

text \<open>
  C19. A deployment that succeeds has created and started every instance of the manifest, one
  after the other in the order the dependencies demand, and no other; the stack is recorded as
  running, lists exactly these instances under the ids made of the stack and instance names, and every
  one of them can be found in the service registry.
\<close>
theorem successful_deployment_complete:
  assumes "mf_Name m \<noteq> []" "fst (DeployStack ev m sm) = None"
  shows "\<exists>order hs s.
           manifest_order ev m = Inr order \<and> length hs = length order \<and>
           sm_stacks (snd (DeployStack ev m sm)) = (sm_stacks sm)(mf_Name m \<mapsto> s) \<and>
           st_Status s = StackStatusRunning \<and>
           st_Instances s = map2 (new_stack_instance (mf_Name m)) order hs \<and>
           sm_log (snd (DeployStack ev m sm)) = sm_log sm @ concat (map (\<lambda>h. [CreateCall h, StartCall h True]) hs) \<and>
           (\<forall>i \<in> set order. \<exists>svc. GetService (sm_serviceReg (snd (DeployStack ev m sm))) (mf_Name m) (ic_Name i) = Some svc \<and>
              sv_Name svc = ic_Name i \<and> sv_StackName svc = mf_Name m)"
proof (cases rule: DeployStack_cases [of sm m ev])
  case (ok order sm1 sm2)
  have "progressed (mf_Name m) [] sm sm1" using ok(2) by (auto simp: progressed_def opened_def)
  from deploy_loop_progressed [OF this ok(4)] obtain hs where
    hs: "length hs = length order" "progressed (mf_Name m) (zip order hs) sm sm2" by auto
  from hs(2) obtain s where s: "sm_stacks sm2 = (sm_stacks sm)(mf_Name m \<mapsto> s)"
    "st_Instances s = map (\<lambda>(i, h). new_stack_instance (mf_Name m) i h) (zip order hs)"
    "sm_log sm2 = sm_log sm @ concat (map (\<lambda>(i, h). [CreateCall h, StartCall h True]) (zip order hs))"
    "sm_serviceReg sm2 = fold (\<lambda>(i, h). registerService (mf_Name m) i) (zip order hs) (sm_serviceReg sm)"
    by (auto simp: progressed_def)
  let ?s = "s\<lparr>st_Status := StackStatusRunning, st_UpdatedAt := ev_Now ev\<rparr>"
  have st: "sm_stacks (snd (DeployStack ev m sm)) = (sm_stacks sm)(mf_Name m \<mapsto> ?s)"
    using updateStackStatus_stacks [of sm2 "mf_Name m" s ev StackStatusRunning] s(1) ok(5) by simp
  have log: "map (\<lambda>(i, h). [CreateCall h, StartCall h True]) (zip order hs) =
      map (\<lambda>h. [CreateCall h, StartCall h True]) hs"
    using hs(1) by (intro nth_equalityI) auto
  have "fst ` set (zip order hs) = set order" using hs(1) by (metis map_fst_zip set_map)
  then have "\<exists>svc. GetService (sm_serviceReg sm2) (mf_Name m) (ic_Name i) = Some svc \<and>
      sv_Name svc = ic_Name i \<and> sv_StackName svc = mf_Name m" if "i \<in> set order" for i
    using fold_register_get [OF assms(1), of "ic_Name i" "zip order hs" "sm_serviceReg sm"] that s(4) by simp
  with st s log hs(1) ok(3,5) show ?thesis
    by (intro exI [of _ order] exI [of _ hs] exI [of _ ?s]) simp
qed (use assms in auto)

end
