(* ===== verification/Stack_Ops_Thms.thy ===== *)
theory Stack_Ops_Thms
  imports Stack_Thms
begin

text \<open>
  The remaining operations of the stack manager: stopping and destroying a stack, instance ids, health
  changes, restoring from the store; and concrete deployments on which the theorems of
  \<^theory_text>\<open>Stack_Thms\<close> are applied.
\<close>

section \<open>A small host\<close>

text \<open>
  One provider that names instances after their specification; the world counts its calls,
  and the creation that meets the number \<open>k\<close> fails.
\<close>

definition demo_spec :: instance_spec where
  "demo_spec =
     \<lparr>is_Name = [], is_Description = [], is_CPUs = 1, is_MemoryMB = 512, is_MaxProc = 0, is_ReadBPS = 0,
      is_WriteBPS = 0, is_ReadIOPS = 0, is_WriteIOPS = 0, is_Image = [], is_OSType = [], is_OSVersion = [],
      is_Arch = [], is_CloudInit = None, is_Bootloader = [], is_Disks = [], is_Networks = [],
      is_ProviderConfig = [], is_Labels = [], is_Annotations = []\<rparr>"

definition demo_host :: "nat \<Rightarrow> (unit, unit, nat) stack_env" where
  "demo_host k =
     \<lparr>ev_CreateInstance = (\<lambda>p spec w. (if w = k then Inl (Errorf ''no space'' [])
         else Inr \<lparr>ih_ID = is_Name spec, ih_Provider = ''jail'', ih_Metadata = Map.empty\<rparr>, Suc w)),
      ev_StartInstance = (\<lambda>p h w. (None, Suc w)), ev_StopInstance = (\<lambda>p h f w. (None, Suc w)),
      ev_DeleteInstance = (\<lambda>p h w. (None, Suc w)), ev_Store = None,
      ev_ToSpec = (\<lambda>i root. Inr demo_spec), ev_MarshalManifest = (\<lambda>m. Inr []),
      ev_MarshalHandle = (\<lambda>h. Inr (ih_ID h)), ev_UnmarshalHandle = (\<lambda>s. Inl (Errorf ''unused'' [])),
      ev_ParseDuration = (\<lambda>s. Inl (Errorf ''unused'' [])), ev_Now = 100,
      ev_Visit = [''web'', ''db''], ev_Polls = (\<lambda>n. []), ev_Pause = (\<lambda>n. None)\<rparr>"

definition demo_instance :: "string \<Rightarrow> depends_on_config option \<Rightarrow> unit instance_config" where
  "demo_instance n d =
     \<lparr>ic_Name = n, ic_Provider = ''jail'', ic_DependsOn = d,
      ic_Networks = [\<lparr>nc_Address = Some ''10.32.0.10/24'',
                      nc_Ports = [\<lparr>pc_Host = 8080, pc_Container = 80, pc_Protocol = ''tcp''\<rparr>]\<rparr>],
      ic_HealthCheck = None,
      ic_Restart = Some \<lparr>rs_Enabled = True, rs_MaxRestarts = 3, rs_Delay = [], rs_ResetAfter = []\<rparr>,
      ic_Rest = ()\<rparr>"

definition demo_manifest :: "unit stack_manifest" where
  "demo_manifest =
     \<lparr>mf_Name = ''blog'',
      mf_Instances = [demo_instance ''web'' (Some \<lparr>do_Services = [''db''], do_Condition = ''started''\<rparr>),
                      demo_instance ''db'' None]\<rparr>"

definition demo_manager :: "(unit, nat) stack_manager" where
  "demo_manager = SetAutoRestarter (NewAutoRestarter None)
     (NewStackManager \<lparr>reg_providers = [''jail'' \<mapsto> ()]\<rparr> 0)"

lemma demo_order:
  "manifest_order (demo_host k) demo_manifest =
     Inr [demo_instance ''db'' None, demo_instance ''web'' (Some \<lparr>do_Services = [''db''], do_Condition = ''started''\<rparr>)]"
  by code_simp

lemma demo_deploys: "fst (DeployStack (demo_host 99) demo_manifest demo_manager) = None"
  by code_simp

lemma demo_fails: "fst (DeployStack (demo_host 2) demo_manifest demo_manager) \<noteq> None"
  by code_simp

lemma demo_manager_fresh:
  "sm_stacks demo_manager (mf_Name demo_manifest) = None"
  "\<forall>n. GetService (sm_serviceReg demo_manager) (mf_Name demo_manifest) n = None"
  by (simp_all add: demo_manager_def SetAutoRestarter_def NewStackManager_def NewServiceRegistry_def GetService_def)

lemma demo_creates:
  "list_ex (\<lambda>c. case c of CreateCall h \<Rightarrow> True | _ \<Rightarrow> False) (sm_log (snd (DeployStack (demo_host 2) demo_manifest demo_manager)))"
  by code_simp


theorem successful_deployment_complete_witness:
  "\<exists>s.
     sm_stacks (snd (DeployStack (demo_host 99) demo_manifest demo_manager)) = (sm_stacks demo_manager)(''blog'' \<mapsto> s) \<and>
     st_Status s = StackStatusRunning \<and> map si_InstanceID (st_Instances s) = [''blog_db'', ''blog_web'']"
proof -
  have "mf_Name demo_manifest \<noteq> []" by (simp add: demo_manifest_def)
  from successful_deployment_complete [OF this demo_deploys]
  obtain order hs s where o: "manifest_order (demo_host 99) demo_manifest = Inr order" "length hs = length order"
    "sm_stacks (snd (DeployStack (demo_host 99) demo_manifest demo_manager)) =
       (sm_stacks demo_manager)(mf_Name demo_manifest \<mapsto> s)" "st_Status s = StackStatusRunning"
    "st_Instances s = map2 (new_stack_instance (mf_Name demo_manifest)) order hs" by blast
  then obtain h1 h2 where hs: "hs = [h1, h2]"
    by (auto simp: demo_order length_Suc_conv)
  have n: "mf_Name demo_manifest = ''blog''" by (simp add: demo_manifest_def)
  have "map si_InstanceID (st_Instances s) = [''blog_db'', ''blog_web'']"
    using o(1,5) by (auto simp: demo_order hs n new_stack_instance_def instance_id_def demo_instance_def
        stackInstanceDelimiter_def)
  then show ?thesis by (intro exI [of _ s]) (use o(3,4) in \<open>simp add: n\<close>)
qed

section \<open>Instance ids\<close>

text \<open>
  Instances of stacks whose names hold no underscore never share an id unless they
  are the same instance of the same stack, whatever their own names hold.
\<close>
theorem instance_ids_distinct:
  assumes "CHR ''_'' \<notin> set s" "CHR ''_'' \<notin> set t"
  shows "instance_id s m = instance_id t n \<longleftrightarrow> s = t \<and> m = n"
proof
  assume eq: "instance_id s m = instance_id t n"
  have "cut_at CHR ''_'' (instance_id s m) = Some (s, m)" "cut_at CHR ''_'' (instance_id t n) = Some (t, n)"
    using assms by (simp_all add: cut_at_Some_iff instance_id_def stackInstanceDelimiter_def)
  with eq show "s = t \<and> m = n" by (metis option.inject prod.inject)
qed simp

theorem instance_ids_distinct_witness:
  "instance_id ''my-blog'' ''db_1'' \<noteq> instance_id ''my'' ''blog_db_1''"
  using instance_ids_distinct [of "''my-blog''" "''my''" "''db_1''" "''blog_db_1''"] by simp

section \<open>Stopping\<close>

lemma stop_one_effect:
  assumes "stop_one ev i (fs, sm) = (fs', sm')"
  shows "sm_stacks sm' = sm_stacks sm" "sm_registry sm' = sm_registry sm" "\<exists>gs. fs' = fs @ gs"
    "fs' = fs \<Longrightarrow> sm_log sm' = sm_log sm @ [StopCall (si_Handle i) False True]"
  using assms
  by (auto simp: stop_one_def Let_def on_checker_def call_stop_def split: sum.splits prod.splits option.splits)

lemma stop_fold_effect:
  assumes "fold (stop_one ev) is (fs, sm) = (fs', sm')"
  shows "sm_stacks sm' = sm_stacks sm \<and> (\<exists>gs. fs' = fs @ gs) \<and>
         (fs' = fs \<longrightarrow> sm_log sm' = sm_log sm @ map (\<lambda>i. StopCall (si_Handle i) False True) is)"
  using assms
proof (induction "is" arbitrary: fs sm)
  case (Cons i "is")
  obtain fs1 sm1 where one: "stop_one ev i (fs, sm) = (fs1, sm1)" by fastforce
  note e = stop_one_effect [OF one]
  from Cons.prems one have "fold (stop_one ev) is (fs1, sm1) = (fs', sm')" by simp
  note IH = Cons.IH [OF this]
  from IH e(3) obtain gs hs where gs: "fs' = fs1 @ gs" "fs1 = fs @ hs" by blast
  then have "fs' = fs \<Longrightarrow> fs1 = fs \<and> fs' = fs1" by simp
  with IH e(1,4) gs show ?case by auto
qed simp

text \<open>
  After \<open>StopStack\<close> on a known stack the recorded status tells the truth: it is
  stopped exactly when the call reports success, and then every instance was stopped, in the
  reverse of the order they were deployed in, and every stop succeeded; otherwise it is degraded. The
  list of instances is kept either way.
\<close>
theorem stop_stack_status_truthful:
  assumes "sm_stacks sm name = Some s"
  shows "\<exists>s'. sm_stacks (snd (StopStack ev name sm)) = (sm_stacks sm)(name \<mapsto> s') \<and>
           st_Instances s' = st_Instances s \<and>
           st_Status s' = (if fst (StopStack ev name sm) = None then StackStatusStopped else StackStatusDegraded) \<and>
           (fst (StopStack ev name sm) = None \<longrightarrow>
              sm_log (snd (StopStack ev name sm)) =
                sm_log sm @ map (\<lambda>i. StopCall (si_Handle i) False True) (rev (st_Instances s)))"
proof -
  obtain fs sm1 where f: "fold (stop_one ev) (rev (st_Instances s)) ([], sm) = (fs, sm1)" by fastforce
  note e = stop_fold_effect [OF f]
  let ?st = "if fs = [] then StackStatusStopped else StackStatusDegraded"
  have r: "StopStack ev name sm = (if fs = [] then None
      else Some (Wrapf ''stack %s is not fully stopped: %w'' [name] (Joined fs)), updateStackStatus ev name ?st sm1)"
    using assms f by (simp add: StopStack_def)
  have "sm_stacks sm1 name = Some s" using e assms by simp
  from updateStackStatus_stacks [OF this, of ev ?st] e show ?thesis
    unfolding r by (intro exI [of _ "s\<lparr>st_Status := ?st, st_UpdatedAt := ev_Now ev\<rparr>"]) simp
qed

definition demo_running :: "(unit, nat) stack_manager" where
  "demo_running = snd (DeployStack (demo_host 99) demo_manifest demo_manager)"

lemma demo_running_stack:
  "\<exists>s. sm_stacks demo_running ''blog'' = Some s \<and> length (st_Instances s) = 2"
proof -
  have "map_option (\<lambda>s. length (st_Instances s)) (sm_stacks demo_running ''blog'') = Some 2" by code_simp
  then show ?thesis by auto
qed

theorem stop_stack_status_truthful_witness:
  "fst (StopStack (demo_host 99) ''blog'' demo_running) = None \<and>
   (\<exists>s'. sm_stacks (snd (StopStack (demo_host 99) ''blog'' demo_running)) ''blog'' = Some s' \<and>
      st_Status s' = StackStatusStopped \<and> length (st_Instances s') = 2)"
proof -
  have ok: "fst (StopStack (demo_host 99) ''blog'' demo_running) = None" by code_simp
  obtain s where s: "sm_stacks demo_running ''blog'' = Some s" "length (st_Instances s) = 2"
    using demo_running_stack by blast
  from stop_stack_status_truthful [OF s(1), of "demo_host 99"] ok s(2) show ?thesis by auto
qed


section \<open>Destroying\<close>

text \<open>What a successful destruction of one instance has removed.\<close>

definition forgotten :: "string \<Rightarrow> stack_instance \<Rightarrow> ('p, 'w) stack_manager \<Rightarrow> bool" where
  "forgotten sn i sm \<longleftrightarrow>
     GetService (sm_serviceReg sm) sn (si_Name i) = None \<and>
     (\<forall>hc. sm_healthChecker sm = Some hc \<longrightarrow> hc_configs hc (si_InstanceID i) = None) \<and>
     (\<forall>ar. sm_autoRestarter sm = Some ar \<longrightarrow> ar_restartPolicy ar (si_InstanceID i) = None)"

lemma forgotten_stacks: "forgotten sn i (sm\<lparr>sm_stacks := x\<rparr>) = forgotten sn i sm"
  by (simp add: forgotten_def)

lemma checker_configs [simp]:
  "hc_configs (stop_loop j hc) = hc_configs hc"
  "hc_configs (StartChecking h hc) = hc_configs hc"
  "hc_configs (StopChecking j hc) = hc_configs hc"
  "hc_configs (UnregisterInstance j hc) = (hc_configs hc)(j := None)"
  by (simp_all add: stop_loop_def StartChecking_def StopChecking_def UnregisterInstance_def Let_def
      split: option.splits)

lemma destroy_one_frame:
  assumes "destroy_one ev sn i (fs, sm) = (fs', sm')"
  shows "sm_stacks sm' = sm_stacks sm" "sm_registry sm' = sm_registry sm" "\<exists>gs. fs' = fs @ gs"
    "forgotten sn j sm \<Longrightarrow> forgotten sn j sm'"
  using assms
  by (auto simp: destroy_one_def on_checker_def on_restarter_def call_delete_def forgotten_def
      UnregisterService_def GetService_def RemovePolicy_def split: sum.splits prod.splits option.splits)

lemma destroy_one_ok:
  assumes "destroy_one ev sn i (fs, sm) = (fs, sm')"
  shows "sm_log sm' = sm_log sm @ [DeleteCall (si_Handle i) True]" "forgotten sn i sm'"
  using assms
  by (auto simp: destroy_one_def on_checker_def on_restarter_def call_delete_def forgotten_def
      UnregisterService_def GetService_def RemovePolicy_def split: sum.splits prod.splits option.splits)

lemma destroy_fold_effect:
  assumes "fold (destroy_one ev sn) is (fs, sm) = (fs', sm')"
  shows "sm_stacks sm' = sm_stacks sm \<and> sm_registry sm' = sm_registry sm \<and> (\<exists>gs. fs' = fs @ gs) \<and> (\<forall>j. forgotten sn j sm \<longrightarrow> forgotten sn j sm') \<and>
         (fs' = fs \<longrightarrow> sm_log sm' = sm_log sm @ map (\<lambda>i. DeleteCall (si_Handle i) True) is \<and>
                        (\<forall>i \<in> set is. forgotten sn i sm'))"
  using assms
proof (induction "is" arbitrary: fs sm)
  case (Cons i "is")
  obtain fs1 sm1 where one: "destroy_one ev sn i (fs, sm) = (fs1, sm1)" by fastforce
  note e = destroy_one_frame [OF one]
  from Cons.prems one have "fold (destroy_one ev sn) is (fs1, sm1) = (fs', sm')" by simp
  note IH = Cons.IH [OF this]
  from IH e(3) obtain gs hs where gs: "fs' = fs1 @ gs" "fs1 = fs @ hs" by blast
  then have "fs' = fs \<Longrightarrow> fs1 = fs \<and> fs' = fs1" by simp
  moreover have "fs1 = fs \<Longrightarrow> forgotten sn i sm1 \<and> sm_log sm1 = sm_log sm @ [DeleteCall (si_Handle i) True]"
    using destroy_one_ok one by blast
  ultimately show ?case using IH e(1,2,4) gs by auto
qed simp

lemma destroy_one_refused:
  assumes "RegistryGet (sm_registry sm) (si_Provider i) = Inr p"
    "\<forall>w. fst (ev_DeleteInstance ev p (si_Handle i) w) \<noteq> None" "destroy_one ev sn i (fs, sm) = (fs', sm')"
  shows "fs' \<noteq> []"
proof -
  let ?sm = "on_checker (StopChecking (si_InstanceID i)) sm"
  obtain e w where d: "ev_DeleteInstance ev p (si_Handle i) (sm_world ?sm) = (e, w)" by fastforce
  then have "e \<noteq> None" using assms(2) by (metis fst_conv)
  with assms(1,3) d show ?thesis by (auto simp: destroy_one_def call_delete_def)
qed

text \<open>The three ways the destruction of a known stack ends.\<close>

lemma DestroyStack_cases:
  assumes "sm_stacks sm name = Some s"
  obtains (kept) "fst (DestroyStack ev name sm) \<noteq> None"
      "sm_stacks (snd (DestroyStack ev name sm)) =
         (sm_stacks sm)(name \<mapsto> s\<lparr>st_Status := StackStatusDegraded, st_UpdatedAt := ev_Now ev\<rparr>)"
  | (recorded) "fst (DestroyStack ev name sm) \<noteq> None"
      "sm_stacks (snd (DestroyStack ev name sm)) = (sm_stacks sm)(name \<mapsto> s\<lparr>st_Status := StackStatusDestroying\<rparr>)"
  | (gone) "fst (DestroyStack ev name sm) = None"
      "sm_stacks (snd (DestroyStack ev name sm)) = (sm_stacks sm)(name := None)"
      "sm_log (snd (DestroyStack ev name sm)) =
         sm_log sm @ map (\<lambda>i. DeleteCall (si_Handle i) True) (rev (st_Instances s))"
      "\<forall>i \<in> set (st_Instances s). forgotten name i (snd (DestroyStack ev name sm))"
proof -
  let ?sm0 = "sm\<lparr>sm_stacks := (sm_stacks sm)(name \<mapsto> s\<lparr>st_Status := StackStatusDestroying\<rparr>)\<rparr>"
  obtain fs sm1 where f: "fold (destroy_one ev name) (rev (st_Instances s)) ([], ?sm0) = (fs, sm1)" by fastforce
  note e = destroy_fold_effect [OF f]
  have st: "sm_stacks sm1 = (sm_stacks sm)(name \<mapsto> s\<lparr>st_Status := StackStatusDestroying\<rparr>)" using e by simp
  show thesis
  proof (cases "fs = []")
    case False
    have "sm_stacks (updateStackStatus ev name StackStatusDegraded sm1) =
        (sm_stacks sm)(name \<mapsto> s\<lparr>st_Status := StackStatusDegraded, st_UpdatedAt := ev_Now ev\<rparr>)"
      using updateStackStatus_stacks [of sm1 name "s\<lparr>st_Status := StackStatusDestroying\<rparr>" ev StackStatusDegraded] st
      by simp
    with assms f False show ?thesis by (intro kept) (simp_all add: DestroyStack_def)
  next
    case True
    obtain r sm2 where d: "with_store ev (\<lambda>ss. ss_DeleteStack ss name) sm1 = (r, sm2)" by fastforce
    have s2: "same sm1 sm2" by (rule same_with_storeD [OF d])
    have hc: "sm_healthChecker sm2 = sm_healthChecker sm1"
      using d by (auto simp: with_store_def split: option.splits prod.splits)
    show ?thesis
    proof (cases r)
      case (Some err)
      with assms f True d s2 st show ?thesis by (intro recorded) (simp_all add: DestroyStack_def same_def)
    next
      case None
      have r: "DestroyStack ev name sm = (None, sm2\<lparr>sm_stacks := (sm_stacks sm2)(name := None)\<rparr>)"
        using assms f True d None by (simp add: DestroyStack_def)
      have k: "sm_serviceReg sm2 = sm_serviceReg sm1" "sm_autoRestarter sm2 = sm_autoRestarter sm1"
        "sm_log sm2 = sm_log sm1" "sm_stacks sm2 = sm_stacks sm1" using s2 by (simp_all add: same_def)
      have "\<forall>i \<in> set (st_Instances s). forgotten name i sm1" and log: "sm_log sm1 = sm_log sm @
          map (\<lambda>i. DeleteCall (si_Handle i) True) (rev (st_Instances s))" using e True by auto
      then have fg: "\<forall>i \<in> set (st_Instances s). forgotten name i (snd (DestroyStack ev name sm))"
        unfolding r by (simp add: forgotten_stacks forgotten_def k hc)
      show ?thesis by (rule gone) (simp add: r, simp add: r k st, simp add: r k log, rule fg)
    qed
  qed
qed

text \<open>
  C20. When \<open>DestroyStack\<close> reports success, every instance of the stack was deleted, in the reverse of the
  order of deployment, and every deletion succeeded; the stack is gone from the manager, and no
  service entry, health check or restart policy of its instances is left.
\<close>
theorem destroy_stack_complete:
  assumes "sm_stacks sm name = Some s" "fst (DestroyStack ev name sm) = None"
  shows "sm_stacks (snd (DestroyStack ev name sm)) = (sm_stacks sm)(name := None) \<and>
         sm_log (snd (DestroyStack ev name sm)) =
           sm_log sm @ map (\<lambda>i. DeleteCall (si_Handle i) True) (rev (st_Instances s)) \<and>
         (\<forall>i \<in> set (st_Instances s). forgotten name i (snd (DestroyStack ev name sm)))"
  by (rule DestroyStack_cases [OF assms(1), of ev]) (use assms(2) in auto)

theorem destroy_stack_complete_witness:
  "fst (DestroyStack (demo_host 99) ''blog'' demo_running) = None \<and>
   sm_stacks (snd (DestroyStack (demo_host 99) ''blog'' demo_running)) ''blog'' = None"
proof -
  have ok: "fst (DestroyStack (demo_host 99) ''blog'' demo_running) = None" by code_simp
  obtain s where s: "sm_stacks demo_running ''blog'' = Some s" using demo_running_stack by blast
  from destroy_stack_complete [OF s ok] ok show ?thesis by simp
qed

lemma DestroyStack_registry: "sm_registry (snd (DestroyStack ev name sm)) = sm_registry sm"
proof (cases "sm_stacks sm name")
  case (Some s)
  let ?sm0 = "sm\<lparr>sm_stacks := (sm_stacks sm)(name \<mapsto> s\<lparr>st_Status := StackStatusDestroying\<rparr>)\<rparr>"
  obtain fs sm1 where f: "fold (destroy_one ev name) (rev (st_Instances s)) ([], ?sm0) = (fs, sm1)" by fastforce
  have "sm_registry sm1 = sm_registry sm" using destroy_fold_effect [OF f] by simp
  with Some f show ?thesis
    by (auto simp: DestroyStack_def same_def dest!: same_with_storeD split: prod.split option.split)
qed (simp add: DestroyStack_def)

text \<open>
  A failed \<open>DestroyStack\<close> keeps the whole list of instances, those it has already deleted
  among them. So as long as the provider refuses to delete one listed instance, an instance that
  is gone included, no number of further attempts destroys the stack.
\<close>
theorem destroy_stuck_on_refused_instance:
  assumes "sm_stacks sm name = Some s" "i \<in> set (st_Instances s)"
    "RegistryGet (sm_registry sm) (si_Provider i) = Inr p"
    "\<forall>w. fst (ev_DeleteInstance ev p (si_Handle i) w) \<noteq> None"
  shows "\<exists>s'. sm_stacks (((\<lambda>sm. snd (DestroyStack ev name sm)) ^^ n) sm) name = Some s' \<and>
           st_Instances s' = st_Instances s \<and>
           fst (DestroyStack ev name (((\<lambda>sm. snd (DestroyStack ev name sm)) ^^ n) sm)) \<noteq> None"
proof -
  let ?d = "\<lambda>sm. snd (DestroyStack ev name sm)"
  have refused: "fst (DestroyStack ev name sm) \<noteq> None \<and> (\<exists>s'. sm_stacks (?d sm) name = Some s' \<and> st_Instances s' = st_Instances s)"
    if at: "sm_stacks sm name = Some s" "i \<in> set (st_Instances s)"
      and reg: "RegistryGet (sm_registry sm) (si_Provider i) = Inr p" for sm s
  proof (rule DestroyStack_cases [OF at(1), of ev])
    assume ok: "fst (DestroyStack ev name sm) = None"
    obtain is1 is2 where split: "rev (st_Instances s) = is1 @ i # is2"
      using at(2) by (metis set_rev split_list)
    let ?sm0 = "sm\<lparr>sm_stacks := (sm_stacks sm)(name \<mapsto> s\<lparr>st_Status := StackStatusDestroying\<rparr>)\<rparr>"
    obtain fs1 sm1 where f1: "fold (destroy_one ev name) is1 ([], ?sm0) = (fs1, sm1)" by fastforce
    obtain fs2 sm2 where f2: "destroy_one ev name i (fs1, sm1) = (fs2, sm2)" by fastforce
    obtain fs3 sm3 where f3: "fold (destroy_one ev name) is2 (fs2, sm2) = (fs3, sm3)" by fastforce
    have "RegistryGet (sm_registry sm1) (si_Provider i) = Inr p"
      using destroy_fold_effect [OF f1] reg by simp
    then have "fs2 \<noteq> []" by (rule destroy_one_refused [OF _ assms(4) f2])
    then have "fs3 \<noteq> []" using destroy_fold_effect [OF f3] by auto
    moreover have "fold (destroy_one ev name) (rev (st_Instances s)) ([], ?sm0) = (fs3, sm3)"
      by (simp only: split fold_append fold_simps o_apply f1 f2 f3)
    ultimately have "fst (DestroyStack ev name sm) \<noteq> None" using at(1) by (simp add: DestroyStack_def)
    with ok show ?thesis by simp
  qed simp_all
  have "\<exists>s'. sm_stacks ((?d ^^ n) sm) name = Some s' \<and> st_Instances s' = st_Instances s \<and>
      sm_registry ((?d ^^ n) sm) = sm_registry sm"
  proof (induction n)
    case (Suc n)
    then obtain s' where "sm_stacks ((?d ^^ n) sm) name = Some s'" "st_Instances s' = st_Instances s"
      "sm_registry ((?d ^^ n) sm) = sm_registry sm" by blast
    with refused [of "(?d ^^ n) sm" s'] assms(2,3) show ?case by (simp add: DestroyStack_registry)
  qed (use assms(1) in simp)
  then obtain s' where "sm_stacks ((?d ^^ n) sm) name = Some s'" "st_Instances s' = st_Instances s"
    "sm_registry ((?d ^^ n) sm) = sm_registry sm" by blast
  with refused [of "(?d ^^ n) sm" s'] assms(2,3) show ?thesis by simp
qed


definition refusing_host :: "(unit, unit, nat) stack_env" where
  "refusing_host = (demo_host 99)\<lparr>ev_DeleteInstance := \<lambda>p h w. (Some (Errorf ''no such instance'' []), w)\<rparr>"

lemma demo_running_providers:
  "map_option (\<lambda>s. map si_Provider (st_Instances s)) (sm_stacks demo_running ''blog'') = Some [''jail'', ''jail'']"
  by code_simp

theorem destroy_stuck_on_refused_instance_witness:
  "fst (DestroyStack refusing_host ''blog''
          (((\<lambda>sm. snd (DestroyStack refusing_host ''blog'' sm)) ^^ 3) demo_running)) \<noteq> None"
proof -
  obtain s where s: "sm_stacks demo_running ''blog'' = Some s" "map si_Provider (st_Instances s) = [''jail'', ''jail'']"
    using demo_running_providers by auto
  then obtain i "is" where "st_Instances s = i # is" and p: "si_Provider i = ''jail''"
    by (auto simp: map_eq_Cons_conv)
  then have i: "i \<in> set (st_Instances s)" "si_Provider i = ''jail''" by simp_all
  have reg: "RegistryGet (sm_registry demo_running) ''jail'' = Inr ()" by code_simp
  have "\<forall>w. fst (ev_DeleteInstance refusing_host () (si_Handle i) w) \<noteq> None"
    by (simp add: refusing_host_def)
  from destroy_stuck_on_refused_instance [OF s(1) i(1) reg [folded i(2)] this, of 3] show ?thesis by blast
qed

section \<open>Health changes\<close>

lemma find_unique: "i \<in> set is \<Longrightarrow> P i \<Longrightarrow> (\<And>j. j \<in> set is \<Longrightarrow> P j \<Longrightarrow> j = i) \<Longrightarrow> find P is = Some i"
proof (induction "is")
  case (Cons x xs)
  show ?case
  proof (cases "P x")
    case True
    with Cons.prems(3) have "x = i" by simp
    with True show ?thesis by simp
  next
    case False
    with Cons.prems(1,2) have "i \<in> set xs" by auto
    then have "find P xs = Some i"
      by (rule Cons.IH [OF _ Cons.prems(2)]) (rule Cons.prems(3), simp_all)
    with False show ?thesis by simp
  qed
qed simp

lemma set_health_map:
  "distinct (map si_InstanceID is) \<Longrightarrow>
   set_health iid h is = map (\<lambda>j. if si_InstanceID j = iid then j\<lparr>si_Health := h\<rparr> else j) is"
proof (induction "is")
  case (Cons i "is")
  show ?case
  proof (cases "si_InstanceID i = iid")
    case True
    with Cons.prems have "map (\<lambda>j. if si_InstanceID j = iid then j\<lparr>si_Health := h\<rparr> else j) is = is"
      by (intro map_idI) (auto simp: image_iff)
    with True show ?thesis by simp
  qed (use Cons in simp)
qed simp

definition with_health :: "string \<Rightarrow> HealthStatus \<Rightarrow> stack \<Rightarrow> stack_instance list" where
  "with_health iid h s = map (\<lambda>j. if si_InstanceID j = iid then j\<lparr>si_Health := h\<rparr> else j) (st_Instances s)"

lemma with_health_status:
  "updateStackHealthStatus now (s\<lparr>st_Instances := is\<rparr>) =
     (if st_Status s \<in> {StackStatusStopped, StackStatusDestroying} then s\<lparr>st_Instances := is\<rparr>
      else s\<lparr>st_Instances := is,
             st_Status := (if \<exists>j \<in> set is. si_Health j = HealthStatusUnhealthy then StackStatusDegraded
                           else if \<forall>j \<in> set is. si_Health j = HealthStatusHealthy then StackStatusRunning
                           else st_Status s),
             st_UpdatedAt := now\<rparr>)"
  by (simp add: updateStackHealthStatus_def list_ex_iff list_all_iff)

text \<open>
  A health change of an instance of one stack reaches exactly that instance, whatever the order in
  which the stacks are visited: the stack becomes degraded when an instance of it is unhealthy, running
  when all are healthy, and keeps its status otherwise, as it does when it is stopped or being destroyed; the
  service registry takes the new health; every other stack is untouched.
\<close>
theorem health_change_applies:
  assumes "sm_stacks sm n = Some s" "n \<in> set names" "i \<in> set (st_Instances s)" "si_InstanceID i = iid"
    "distinct (map si_InstanceID (st_Instances s))"
    "\<forall>m t. m \<noteq> n \<longrightarrow> sm_stacks sm m = Some t \<longrightarrow> iid \<notin> si_InstanceID ` set (st_Instances t)"
  shows "sm_onHealthChange now names iid new sm =
           sm\<lparr>sm_stacks := (sm_stacks sm)(n \<mapsto>
                (if st_Status s \<in> {StackStatusStopped, StackStatusDestroying} then s\<lparr>st_Instances := with_health iid new s\<rparr>
                 else s\<lparr>st_Instances := with_health iid new s,
                        st_Status := (if \<exists>j \<in> set (with_health iid new s). si_Health j = HealthStatusUnhealthy then StackStatusDegraded
                                      else if \<forall>j \<in> set (with_health iid new s). si_Health j = HealthStatusHealthy then StackStatusRunning
                                      else st_Status s),
                        st_UpdatedAt := now\<rparr>)),
              sm_serviceReg := UpdateHealth (st_Name s) (si_Name i) new (sm_serviceReg sm)\<rparr>"
  using assms(2)
proof (induction names)
  case (Cons m names)
  show ?case
  proof (cases "m = n")
    case True
    have "find (\<lambda>j. si_InstanceID j = iid) (st_Instances s) = Some i"
      by (rule find_unique [OF assms(3)]) (use assms(3-5) in \<open>auto simp: distinct_map dest: inj_onD\<close>)
    then have "sm_onHealthChange now (m # names) iid new sm =
        sm\<lparr>sm_stacks := (sm_stacks sm)(n \<mapsto> updateStackHealthStatus now (s\<lparr>st_Instances := with_health iid new s\<rparr>)),
           sm_serviceReg := UpdateHealth (st_Name s) (si_Name i) new (sm_serviceReg sm)\<rparr>"
      using True assms(1) set_health_map [OF assms(5), of iid new] by (simp add: with_health_def)
    then show ?thesis by (simp only: with_health_status)
  next
    case False
    have "find (\<lambda>j. si_InstanceID j = iid) (st_Instances t) = None" if "sm_stacks sm m = Some t" for t
      using assms(6) False that by (auto simp: find_None_iff)
    with Cons False show ?thesis by (auto split: option.split)
  qed
qed simp

definition db_handle :: instance_handle where
  "db_handle = \<lparr>ih_ID = ''web'', ih_Provider = ''jail'', ih_Metadata = Map.empty\<rparr>"

definition demo_stack1 :: stack where
  "demo_stack1 =
     \<lparr>st_Name = ''blog'', st_Instances = [new_stack_instance ''blog'' (demo_instance ''db'' None) db_handle],
      st_Status = StackStatusDeploying, st_CreatedAt = 0, st_UpdatedAt = 0\<rparr>"

definition demo_watched :: "(unit, nat) stack_manager" where
  "demo_watched = demo_manager\<lparr>sm_stacks := [''blog'' \<mapsto> demo_stack1]\<rparr>"

text \<open>The first instance of a stack that is still being deployed turns healthy, and the stack reads as running.\<close>

theorem health_change_applies_witness:
  "\<exists>s. sm_stacks (sm_onHealthChange 9 [''shop'', ''blog''] ''blog_db'' HealthStatusHealthy demo_watched) ''blog'' = Some s \<and>
       st_Status s = StackStatusRunning"
  by (subst health_change_applies [where n = "''blog''" and s = demo_stack1 and
        i = "new_stack_instance ''blog'' (demo_instance ''db'' None) db_handle"])
    (simp_all add: demo_watched_def demo_stack1_def new_stack_instance_def demo_instance_def instance_id_def
      stackInstanceDelimiter_def with_health_def)

section \<open>Persistence\<close>

text \<open>
  What a deployment writes of an instance is enough to restore it: with an encoding of handles that
  decodes to what was encoded, the instance restored from the record is the one
  the deployment added to the stack.
\<close>
theorem persisted_instance_restored:
  assumes "ev_MarshalHandle ev h = Inr j" "j \<noteq> []" "ev_UnmarshalHandle ev j = Inr h"
  shows "restore_instance ev (instance_record stackName inst j k) = Some (new_stack_instance stackName inst h)"
  using assms by (simp add: restore_instance_def instance_record_def new_stack_instance_def)

definition codec_host :: "(unit, unit, nat) stack_env" where
  "codec_host = (demo_host 99)\<lparr>ev_UnmarshalHandle :=
     \<lambda>s. Inr \<lparr>ih_ID = s, ih_Provider = ''jail'', ih_Metadata = Map.empty\<rparr>\<rparr>"

theorem persisted_instance_restored_witness:
  "restore_instance codec_host (instance_record ''blog'' (demo_instance ''db'' None) ''web'' 1) =
   Some (new_stack_instance ''blog'' (demo_instance ''db'' None) db_handle)"
  by (rule persisted_instance_restored) (simp_all add: codec_host_def demo_host_def db_handle_def)

section \<open>Behaviour worth knowing\<close>

text \<open>
  Rolling back never touches the restart policies: an instance that was created, given a policy and
  rolled back keeps it.
\<close>

theorem rolled_back_policy_leaks:
  "map_option (\<lambda>ar. ar_restartPolicy ar ''blog_db'' \<noteq> None)
     (sm_autoRestarter (snd (DeployStack (demo_host 2) demo_manifest demo_manager))) = Some True"
  by code_simp

text \<open>
  The address of a service is the manifest's interface address with its prefix length, which
  the validation of manifests requires.
\<close>

theorem service_address_keeps_prefix_length:
  "Resolve (sm_serviceReg demo_running) ''blog/db'' = Inr [''10.32.0.10/24'']"
  by code_simp

end
