(* ===== verification/Paths.thy ===== *)
theory Paths
  imports Prelude
begin

text \<open>
  Path confinement (\<open>pkg/validation/path.go\<close>) and the dataset layout
  (\<open>pkg/dataset/dataset.go\<close>). A cleaned absolute path is its list of components; the
  functions of \<open>path/filepath\<close> the source calls are modelled over it, and the file system is a
  map from real locations to nodes, so that symbolic links are followed as the
  kernel and \<open>filepath.EvalSymlinks\<close> follow them.
\<close>

section \<open>Lexical paths\<close>

definition slash :: char where
  "slash = CHR ''/''"

definition comps :: "string \<Rightarrow> string list" where
  "comps s = filter (\<lambda>c. c \<noteq> []) (split_on slash s)"

definition IsAbs :: "string \<Rightarrow> bool" where
  "IsAbs s \<longleftrightarrow> HasPrefix s ''/''"

text \<open>\<open>filepath.Clean\<close> of a rooted path, by component.\<close>

definition clean_step :: "string \<Rightarrow> string list \<Rightarrow> string list" where
  "clean_step c acc = (if c = ''.'' then acc else if c = ''..'' then butlast acc else acc @ [c])"

definition clean_comps :: "string list \<Rightarrow> string list" where
  "clean_comps cs = fold clean_step cs []"

definition abs_string :: "string list \<Rightarrow> string" where
  "abs_string cs = slash # join_with slash cs"

text \<open>\<open>filepath.Clean\<close> and \<open>filepath.Abs\<close> against a working directory, as component lists.\<close>

definition abs_comps :: "string list \<Rightarrow> string \<Rightarrow> string list" where
  "abs_comps cwd path = clean_comps ((if IsAbs path then [] else cwd) @ comps path)"

text \<open>A component a cleaned path can have.\<close>

definition plain :: "string \<Rightarrow> bool" where
  "plain c \<longleftrightarrow> c \<noteq> [] \<and> c \<noteq> ''.'' \<and> c \<noteq> ''..'' \<and> slash \<notin> set c"

section \<open>A file system\<close>

datatype node = Dir | File | Link string

type_synonym fs = "string list \<rightharpoonup> node"

datatype path_error = NotExist | NotDir | TooManyLinks

text \<open>
  Component by component from a real directory; \<open>n\<close> is how many more links may be followed.
  \<open>missing\<close> says what to do when a component does not exist and none follows it.
\<close>

function walk ::
    "fs \<Rightarrow> (string list \<Rightarrow> path_error + string list) \<Rightarrow> nat \<Rightarrow> string list \<Rightarrow> string list \<Rightarrow> path_error + string list" where
  "walk fs missing n dest [] = Inr dest"
| "walk fs missing n dest (c # cs) =
     (if c = ''.'' then walk fs missing n dest cs
      else if c = ''..'' then walk fs missing n (butlast dest) cs
      else (case fs (dest @ [c]) of
              None \<Rightarrow> if cs = [] then missing (dest @ [c]) else Inl NotExist
            | Some Dir \<Rightarrow> walk fs missing n (dest @ [c]) cs
            | Some File \<Rightarrow> if cs = [] then Inr (dest @ [c]) else Inl NotDir
            | Some (Link t) \<Rightarrow>
                (case n of
                   0 \<Rightarrow> Inl TooManyLinks
                 | Suc m \<Rightarrow> walk fs missing m (if IsAbs t then [] else dest) (comps t @ cs))))"
  by pat_completeness auto
termination
  by (relation "measures [\<lambda>(fs, missing, n, dest, cs). n, \<lambda>(fs, missing, n, dest, cs). length cs]") auto

definition maxLinks :: nat where
  "maxLinks = 255"

definition EvalSymlinks :: "fs \<Rightarrow> string list \<Rightarrow> path_error + string list" where
  "EvalSymlinks fs cs = walk fs (\<lambda>p. Inl NotExist) maxLinks [] cs"

text \<open>Where the kernel puts a file opened for creation: a last component that is missing is created.\<close>

definition creation_point :: "fs \<Rightarrow> string list \<Rightarrow> path_error + string list" where
  "creation_point fs cs = walk fs Inr maxLinks [] cs"

section \<open>Path confinement\<close>

definition path_error_text :: "path_error \<Rightarrow> go_error" where
  "path_error_text e =
     (case e of NotExist \<Rightarrow> Errorf ''file does not exist'' [] | NotDir \<Rightarrow> Errorf ''not a directory'' []
      | TooManyLinks \<Rightarrow> Errorf ''EvalSymlinks: too many links'' [])"

text \<open>The walk up to the deepest ancestor that exists.\<close>

function resolve_up :: "fs \<Rightarrow> string list \<Rightarrow> string list \<Rightarrow> string list \<Rightarrow> path_error + string list" where
  "resolve_up fs full current missing =
     (case EvalSymlinks fs current of
        Inr resolved \<Rightarrow> Inr (resolved @ missing)
      | Inl NotExist \<Rightarrow>
          if current = [] then Inr full
          else resolve_up fs full (butlast current) (last current # missing)
      | Inl e \<Rightarrow> Inl e)"
  by pat_completeness auto
termination
  by (relation "measure (\<lambda>(fs, full, current, missing). length current)") auto

declare resolve_up.simps [simp del]

definition ResolvePath :: "fs \<Rightarrow> string list \<Rightarrow> string \<Rightarrow> string list go_result" where
  "ResolvePath fs cwd path =
     (if path = [] then Inl (Errorf ''path cannot be empty'' [])
      else
        let full = abs_comps cwd path in
        case resolve_up fs full full [] of
          Inl e \<Rightarrow> Inl (Wrapf ''cannot resolve %q: %w'' [path] (path_error_text e))
        | Inr r \<Rightarrow> Inr r)"

text \<open>\<open>filepath.Rel\<close> of two cleaned absolute paths: up from the base, then down.\<close>

fun drop_common :: "string list \<Rightarrow> string list \<Rightarrow> string list \<times> string list" where
  "drop_common (a # as) (b # bs) = (if a = b then drop_common as bs else (a # as, b # bs))"
| "drop_common as bs = (as, bs)"

definition Rel :: "string list \<Rightarrow> string list \<Rightarrow> string" where
  "Rel base target =
     (case drop_common base target of
        (up, down) \<Rightarrow>
          if up = [] \<and> down = [] then ''.''
          else join_with slash (replicate (length up) ''..'' @ down))"

definition PathWithin :: "fs \<Rightarrow> string list \<Rightarrow> string \<Rightarrow> string \<Rightarrow> bool go_result" where
  "PathWithin fs cwd path root =
     bind_res (ResolvePath fs cwd path) (\<lambda>resolvedPath.
     bind_res (ResolvePath fs cwd root) (\<lambda>resolvedRoot.
       if resolvedPath = resolvedRoot then Inr True
       else let rel = Rel resolvedRoot resolvedPath in
            Inr (rel \<noteq> ''..'' \<and> \<not> HasPrefix rel ''../'')))"

fun PathWithinAny :: "fs \<Rightarrow> string list \<Rightarrow> string \<Rightarrow> string list \<Rightarrow> bool go_result" where
  "PathWithinAny fs cwd path [] = Inr False"
| "PathWithinAny fs cwd path (root # roots) =
     (if root = [] then PathWithinAny fs cwd path roots
      else bind_res (PathWithin fs cwd path root)
             (\<lambda>within. if within then Inr True else PathWithinAny fs cwd path roots))"

definition EnsurePathWithin :: "fs \<Rightarrow> string list \<Rightarrow> string \<Rightarrow> string \<Rightarrow> go_error option" where
  "EnsurePathWithin fs cwd path root =
     (case PathWithin fs cwd path root of
        Inl e \<Rightarrow> Some e
      | Inr within \<Rightarrow> if within then None else Some (Errorf ''path %q is outside %q'' [path, root]))"

section \<open>The dataset layout\<close>

definition defaultParent :: string where
  "defaultParent = ''zroot/hospitus''"

text \<open>\<open>env\<close> is the value of \<open>HOSPITUS_ZFS_PARENT\<close>, empty when unset.\<close>

definition Parent :: "string \<Rightarrow> string" where
  "Parent env =
     (let v = trim_right ''/'' (trim_space env) in if v \<noteq> [] then v else defaultParent)"

definition Pool :: "string \<Rightarrow> string" where
  "Pool env = (case cut_at slash (Parent env) of Some (a, b) \<Rightarrow> a | None \<Rightarrow> Parent env)"

definition Child :: "string \<Rightarrow> string \<Rightarrow> string" where
  "Child env sub = Parent env @ ''/'' @ trim_left ''/'' sub"

section \<open>Resolved paths have plain components\<close>

lemma comps_ok: "c \<in> set (comps s) \<Longrightarrow> c \<noteq> [] \<and> slash \<notin> set c"
  by (auto simp: comps_def split_on_parts)

lemma walk_plain:
  assumes "walk fs missing n dest cs = Inr r" "list_all plain dest" "\<forall>c \<in> set cs. c \<noteq> [] \<and> slash \<notin> set c"
    "\<And>p q. missing p = Inr q \<Longrightarrow> q = p"
  shows "list_all plain r"
  using assms
proof (induction fs missing n dest cs rule: walk.induct)
  case (2 fs missing n dest c cs)
  have pl: "list_all plain (dest @ [c])" if "c \<noteq> ''.''" "c \<noteq> ''..''"
    using 2(6,7) that plain_def [of c] by simp
  have bl: "list_all plain (butlast dest)"
    using 2(6) by (metis append_butlast_last_id butlast.simps(1) list_all_append)
  show ?case
  proof (cases "c = ''.'' \<or> c = ''..''")
    case True
    with 2 bl show ?thesis by (cases "c = ''.''") auto
  next
    case False
    then show ?thesis
    proof (cases "fs (dest @ [c])")
      case None
      with 2(5) False have "cs = []" "missing (dest @ [c]) = Inr r" by (simp_all split: if_splits)
      with 2(8) have "r = dest @ [c]" by blast
      with pl False show ?thesis by simp
    next
      case (Some nd)
      show ?thesis
      proof (cases nd)
        case Dir
        with Some False have "walk fs missing n (dest @ [c]) cs = Inr r" using 2(5) by simp
        moreover have "\<forall>c \<in> set cs. c \<noteq> [] \<and> slash \<notin> set c" using 2(7) by simp
        ultimately show ?thesis using 2(3) [of nd] Some Dir False pl 2(8) by blast
      next
        case File
        with Some 2(5) False pl show ?thesis by (auto split: if_splits)
      next
        case (Link t)
        with Some 2(5) False obtain m where n: "n = Suc m" by (cases n) auto
        have "\<forall>c \<in> set (comps t @ cs). c \<noteq> [] \<and> slash \<notin> set c" using comps_ok 2(7) by auto
        moreover have "walk fs missing m (if IsAbs t then [] else dest) (comps t @ cs) = Inr r"
          using Some Link n 2(5) False by simp
        moreover have "list_all plain (if IsAbs t then [] else dest)" using 2(6) by simp
        ultimately show ?thesis using 2(4) [of nd t m] Some Link n False 2(8) by blast
      qed
    qed
  qed
qed simp

lemma clean_plain:
  assumes "\<forall>c \<in> set cs. c \<noteq> [] \<and> slash \<notin> set c" "list_all plain acc"
  shows "list_all plain (fold clean_step cs acc)"
  using assms
proof (induction cs arbitrary: acc)
  case (Cons c cs)
  have "list_all plain (butlast acc)"
    using Cons.prems(2) by (metis append_butlast_last_id butlast.simps(1) list_all_append)
  with Cons.prems have "list_all plain (clean_step c acc)" using plain_def [of c] by (auto simp: clean_step_def)
  with Cons show ?case by simp
qed simp


lemma EvalSymlinks_plain:
  "EvalSymlinks fs cs = Inr r \<Longrightarrow> \<forall>c \<in> set cs. c \<noteq> [] \<and> slash \<notin> set c \<Longrightarrow> list_all plain r"
  unfolding EvalSymlinks_def by (rule walk_plain) auto

lemma resolve_up_plain:
  assumes "resolve_up fs full cur missing = Inr r" "list_all plain full" "list_all plain cur" "list_all plain missing"
  shows "list_all plain r"
  using assms
proof (induction fs full cur missing rule: resolve_up.induct)
  case (1 fs full current missing)
  have ok: "\<forall>c \<in> set current. c \<noteq> [] \<and> slash \<notin> set c" using 1(4) by (auto simp: list_all_iff plain_def)
  show ?case
  proof (cases "EvalSymlinks fs current")
    case (Inr p)
    with 1(2,5) EvalSymlinks_plain [OF Inr ok] show ?thesis by (auto simp: resolve_up.simps)
  next
    case (Inl e)
    show ?thesis
    proof (cases "e = NotExist \<and> current \<noteq> []")
      case True
      then have "list_all plain (butlast current)" "list_all plain (last current # missing)"
        using 1(4,5) by (auto simp: list_all_iff dest: in_set_butlastD)
      with 1(1) [OF Inl] True 1(2,3) Inl show ?thesis by (simp add: resolve_up.simps)
    next
      case False
      with 1(2,3) Inl show ?thesis by (cases e) (auto simp: resolve_up.simps)
    qed
  qed
qed

lemma ResolvePath_plain:
  assumes "ResolvePath fs cwd path = Inr r" "list_all plain cwd"
  shows "list_all plain r"
proof -
  have "\<forall>c \<in> set ((if IsAbs path then [] else cwd) @ comps path). c \<noteq> [] \<and> slash \<notin> set c"
    using assms(2) comps_ok by (auto simp: list_all_iff plain_def)
  then have "list_all plain (abs_comps cwd path)"
    unfolding abs_comps_def clean_comps_def by (rule clean_plain) simp
  with assms(1) resolve_up_plain show ?thesis
    by (auto simp: ResolvePath_def Let_def split: if_splits sum.splits)
qed

section \<open>The confinement check decides containment\<close>

lemma drop_common_prefix: "fst (drop_common as bs) = [] \<longleftrightarrow> prefix as bs"
  by (induction as bs rule: drop_common.induct) auto

lemma drop_common_snd: "c \<in> set (snd (drop_common as bs)) \<Longrightarrow> c \<in> set bs"
  by (induction as bs rule: drop_common.induct) (auto split: if_splits)

lemma join_dotdot:
  assumes "\<forall>c \<in> set cs. c \<noteq> [] \<and> slash \<notin> set c" "cs \<noteq> []"
  shows "join_with slash cs = ''..'' \<or> HasPrefix (join_with slash cs) ''../'' \<longleftrightarrow> hd cs = ''..''"
proof -
  obtain c r where cs: "cs = c # r" using assms(2) by (cases cs) auto
  have parts: "split_on slash (join_with slash cs) = cs" using assms by (intro split_join_on) auto
  show ?thesis
  proof
    assume "join_with slash cs = ''..'' \<or> HasPrefix (join_with slash cs) ''../''"
    then obtain s where "join_with slash cs = ''..'' \<or> join_with slash cs = ''..'' @ slash # s"
      by (auto simp: prefix_def slash_def)
    then have "hd (split_on slash (join_with slash cs)) = ''..''"
      using split_on_append [of slash "''..''" s] split_on_free [of slash "''..''"] by (auto simp: slash_def)
    then show "hd cs = ''..''" by (simp add: parts)
  next
    assume "hd cs = ''..''"
    then show "join_with slash cs = ''..'' \<or> HasPrefix (join_with slash cs) ''../''"
      by (cases r) (auto simp: cs slash_def)
  qed
qed

lemma Rel_outside:
  assumes "list_all plain base" "list_all plain target"
  shows "(Rel base target = ''..'' \<or> HasPrefix (Rel base target) ''../'') \<longleftrightarrow> \<not> prefix base target"
proof -
  obtain up down where d: "drop_common base target = (up, down)" by fastforce
  have down: "list_all plain down" using drop_common_snd [of _ base target] d assms(2) by (auto simp: list_all_iff)
  have up: "up = [] \<longleftrightarrow> prefix base target" using drop_common_prefix [of base target] d by simp
  let ?cs = "replicate (length up) ''..'' @ down"
  have "\<forall>c \<in> set down. c \<noteq> [] \<and> slash \<notin> set c" using down by (simp add: list_all_iff plain_def)
  moreover have "slash \<notin> set ''..''" by (simp add: slash_def)
  ultimately have ok: "\<forall>c \<in> set ?cs. c \<noteq> [] \<and> slash \<notin> set c" by (auto simp: in_set_replicate)
  show ?thesis
  proof (cases "up = [] \<and> down = []")
    case True
    then have "Rel base target = ''.''" "prefix base target" using d up by (simp_all add: Rel_def)
    then show ?thesis by simp
  next
    case False
    then have ne: "?cs \<noteq> []" by auto
    have "hd ?cs = ''..'' \<longleftrightarrow> up \<noteq> []"
      using down False by (cases up; cases down) (auto simp: plain_def)
    moreover have "Rel base target = join_with slash ?cs" using d False by (auto simp: Rel_def)
    ultimately show ?thesis using join_dotdot [OF ok ne] up by simp
  qed
qed


definition demo_fs :: fs where
  "demo_fs = map_of
     [([''data''], Dir), ([''data'', ''vms''], Dir), ([''data'', ''vms'', ''disk.img''], File),
      ([''data'', ''vms2''], Dir), ([''var''], Dir), ([''var'', ''lib''], Link ''/data''),
      ([''data'', ''vms'', ''out''], Link ''../../etc/cron.d/job''), ([''etc''], Dir), ([''etc'', ''cron.d''], Dir)]"


section \<open>What an accepted path can reach\<close>

text \<open>A path that exists is reached where the check placed it.\<close>

lemma ResolvePath_existing:
  assumes "path \<noteq> []" "EvalSymlinks fs (abs_comps cwd path) = Inr loc"
  shows "ResolvePath fs cwd path = Inr loc"
  using assms by (simp add: ResolvePath_def resolve_up.simps)

text \<open>
  A path that exists and is accepted lies, once every link is followed, inside the
  real location of the root: no link along the way leads out of it.
\<close>
theorem accepted_existing_path_inside:
  assumes "list_all plain cwd" "path \<noteq> []" "EvalSymlinks fs (abs_comps cwd path) = Inr loc"
    "ResolvePath fs cwd root = Inr r" "EnsurePathWithin fs cwd path root = None"
  shows "prefix r loc"
proof -
  have p: "ResolvePath fs cwd path = Inr loc" by (rule ResolvePath_existing [OF assms(2,3)])
  have "PathWithin fs cwd path root = Inr (prefix r loc)"
    using Rel_outside [OF ResolvePath_plain [OF assms(4,1)] ResolvePath_plain [OF p assms(1)]] p assms(4)
    by (auto simp: PathWithin_def Let_def)
  with assms(5) show ?thesis by (simp add: EnsurePathWithin_def split: if_splits)
qed

theorem accepted_existing_path_inside_witness:
  "prefix [''data'', ''vms''] [''data'', ''vms'', ''disk.img'']"
proof -
  have "EvalSymlinks demo_fs (abs_comps [] ''/var/lib/vms/disk.img'') = Inr [''data'', ''vms'', ''disk.img'']"
    "ResolvePath demo_fs [] ''/data/vms'' = Inr [''data'', ''vms'']"
    "EnsurePathWithin demo_fs [] ''/var/lib/vms/disk.img'' ''/data/vms'' = None" by code_simp+
  from accepted_existing_path_inside [OF _ _ this] show ?thesis by simp
qed

text \<open>
  A link inside the root whose target does not exist yet is taken for a missing file of
  that name: the check accepts it, and a file created through it appears outside the root.
\<close>

theorem dangling_link_escapes:
  "PathWithin demo_fs [] ''/data/vms/out'' ''/data/vms'' = Inr True \<and>
   creation_point demo_fs [''data'', ''vms'', ''out''] = Inr [''etc'', ''cron.d'', ''job'']"
  by code_simp

end
