(* ===== verification/Backup.thy ===== *)
theory Backup
  imports Paths Validation "HOL-Library.Word"
begin

text \<open>
  \<open>pkg/backup/backup.go\<close>: the backup manager. An operation is a function on the manager's state
  and the world; the world is an abstract value that only commands, the file system and the store
  read and change, and they are the functions of the environment record. Every command that is
  run is added to a log of the model. A time is in nanoseconds since the epoch; the error text kept in
  a backup record is kept as the error value. \<open>time.ParseDuration\<close>, \<open>Duration.String\<close>,
  \<open>Time.Format\<close>, \<open>sort.Slice\<close> (which may order equal elements either way) and the
  JSON encoder are functions of the environment too. Contexts end commands early, which is one
  of the errors a command may return. The manager lock is held only inside an operation.
\<close>

unbundle bit_operations_syntax

section \<open>Data\<close>

datatype BackupType = BackupTypeSnapshot | BackupTypeFull | BackupTypeIncr | BackupTypeUnknown string

datatype BackupStatus =
    BackupStatusPending | BackupStatusRunning | BackupStatusCompleted | BackupStatusFailed
  | BackupStatusUnknown string

record retention_policy =
  KeepLast :: int
  KeepHourly :: int
  KeepDaily :: int
  KeepWeekly :: int
  KeepMonthly :: int
  MinAge :: int

record backup_config =
  bc_Enabled :: bool
  bc_Schedule :: string
  bc_Retention :: retention_policy
  bc_Destination :: string
  bc_Compression :: string
  bc_EncryptionKeyFile :: string
  bc_PreBackupHook :: string
  bc_PostBackupHook :: string

record backup_info =
  bi_ID :: string
  bi_InstanceID :: string
  bi_Type :: BackupType
  bi_Status :: BackupStatus
  bi_CreatedAt :: int
  bi_CompletedAt :: int
  bi_Size :: int
  bi_SnapshotName :: string
  bi_Dataset :: string
  bi_Destination :: string
  bi_Location :: string
  bi_Compressed :: bool
  bi_Encrypted :: bool
  bi_Error :: "go_error option"
  bi_Verified :: bool
  bi_BaseSnapshot :: string

text \<open>What the datastore keeps of a configuration (\<open>internal/datastore\<close>, \<open>InstanceBackupConfig\<close>).\<close>

record instance_backup_config =
  sc_Enabled :: bool
  sc_Schedule :: string
  sc_Destination :: string
  sc_Compression :: string
  sc_PreBackupHook :: string
  sc_PostBackupHook :: string
  sc_KeepLast :: int
  sc_KeepHourly :: int
  sc_KeepDaily :: int
  sc_KeepWeekly :: int
  sc_KeepMonthly :: int
  sc_MinAge :: string

text \<open>A command: its argument vector, and the files its input and output are bound to.\<close>

record command =
  cmd_argv :: "string list"
  cmd_stdin :: "string option"
  cmd_stdout :: "string option"

definition command :: "string list \<Rightarrow> command" where
  "command argv = \<lparr>cmd_argv = argv, cmd_stdin = None, cmd_stdout = None\<rparr>"

text \<open>\<open>os.FileInfo\<close>; the owner is known where \<open>Sys\<close> is a \<open>Stat_t\<close>.\<close>

record file_info =
  fi_Size :: int
  fi_IsDir :: bool
  fi_IsRegular :: bool
  fi_Perm :: "32 word"
  fi_Uid :: "nat option"

record 'w backup_store =
  bs_UpdateBackupConfig :: "string \<Rightarrow> instance_backup_config option \<Rightarrow> 'w \<Rightarrow> go_error option \<times> 'w"
  bs_ListInstances :: "'w \<Rightarrow> (string \<times> instance_backup_config option) list go_result"
  bs_ListBackupRecords :: "'w \<Rightarrow> (string \<times> string \<times> string) list go_result"
  bs_SaveBackupRecord :: "string \<Rightarrow> string \<Rightarrow> string \<Rightarrow> 'w \<Rightarrow> go_error option \<times> 'w"
  bs_DeleteBackupRecord :: "string \<Rightarrow> 'w \<Rightarrow> go_error option \<times> 'w"

text \<open>
  \<open>be_Run\<close> is a command run to its end, with the text it printed; \<open>be_Start\<close>, \<open>be_Kill\<close> and
  \<open>be_WaitPipeline\<close> are the steps of two commands joined by a pipe. \<open>be_Remove\<close> answers
  with the error and whether it says the file does not exist. \<open>be_Visit\<close> is the order of a range over the
  map of backups.
\<close>

record 'w backup_env =
  be_Run :: "command \<Rightarrow> 'w \<Rightarrow> (go_error option \<times> string) \<times> 'w"
  be_StdoutPipe :: "command \<Rightarrow> 'w \<Rightarrow> go_error option"
  be_Start :: "command \<Rightarrow> 'w \<Rightarrow> go_error option \<times> 'w"
  be_Kill :: "command \<Rightarrow> 'w \<Rightarrow> 'w"
  be_WaitPipeline :: "command \<Rightarrow> command \<Rightarrow> 'w \<Rightarrow> (go_error option \<times> go_error option \<times> string \<times> string) \<times> 'w"
  be_LookPath :: "string \<Rightarrow> 'w \<Rightarrow> go_error option"
  be_Fs :: "'w \<Rightarrow> fs"
  be_Lstat :: "string \<Rightarrow> 'w \<Rightarrow> go_error option"
  be_Stat :: "string \<Rightarrow> 'w \<Rightarrow> file_info go_result"
  be_Geteuid :: nat
  be_MkdirAll :: "string \<Rightarrow> 'w \<Rightarrow> go_error option \<times> 'w"
  be_CreateExcl :: "string \<Rightarrow> 'w \<Rightarrow> go_error option \<times> 'w"
  be_Close :: "string \<Rightarrow> 'w \<Rightarrow> go_error option \<times> 'w"
  be_Open :: "string \<Rightarrow> 'w \<Rightarrow> go_error option"
  be_Remove :: "string \<Rightarrow> 'w \<Rightarrow> (go_error \<times> bool) option \<times> 'w"
  be_Resolve :: "(string \<Rightarrow> 'w \<Rightarrow> string go_result) option"
  be_Store :: "'w backup_store option"
  be_Marshal :: "backup_info \<Rightarrow> string go_result"
  be_Unmarshal :: "string \<Rightarrow> backup_info go_result"
  be_ParseDuration :: "string \<Rightarrow> int go_result"
  be_DurationString :: "int \<Rightarrow> string"
  be_Now :: "'w \<Rightarrow> int"
  be_Format :: "int \<Rightarrow> string"
  be_Sscanf :: "string \<Rightarrow> int"
  be_Sort :: "backup_info list \<Rightarrow> backup_info list"
  be_Visit :: "string list"

record 'w backup_manager =
  bm_configs :: "string \<rightharpoonup> backup_config"
  bm_backups :: "string \<rightharpoonup> backup_info list"
  bm_schedules :: "string \<rightharpoonup> nat"
  bm_channels :: nat
  bm_closed :: "nat list"
  bm_started :: "(string \<times> string \<times> nat) list"
  bm_dataDir :: string
  bm_canceled :: bool
  bm_world :: 'w
  bm_log :: "command list"

definition NewBackupManager :: "string \<Rightarrow> 'w \<Rightarrow> 'w backup_manager" where
  "NewBackupManager dataDir w =
     \<lparr>bm_configs = Map.empty, bm_backups = Map.empty, bm_schedules = Map.empty, bm_channels = 0,
      bm_closed = [], bm_started = [], bm_dataDir = dataDir, bm_canceled = False, bm_world = w, bm_log = []\<rparr>"

section \<open>Calls\<close>

definition run_cmd ::
    "'w backup_env \<Rightarrow> command \<Rightarrow> 'w backup_manager \<Rightarrow> (go_error option \<times> string) \<times> 'w backup_manager" where
  "run_cmd ev c bm =
     (case be_Run ev c (bm_world bm) of
        (r, w) \<Rightarrow> (r, bm\<lparr>bm_world := w, bm_log := bm_log bm @ [c]\<rparr>))"

definition on_world ::
    "('w \<Rightarrow> 'a \<times> 'w) \<Rightarrow> 'w backup_manager \<Rightarrow> 'a \<times> 'w backup_manager" where
  "on_world f bm = (case f (bm_world bm) of (r, w) \<Rightarrow> (r, bm\<lparr>bm_world := w\<rparr>))"

definition with_ds ::
    "'w backup_env \<Rightarrow> ('w backup_store \<Rightarrow> 'w \<Rightarrow> go_error option \<times> 'w) \<Rightarrow> 'w backup_manager \<Rightarrow>
     go_error option \<times> 'w backup_manager" where
  "with_ds ev f bm = (case be_Store ev of None \<Rightarrow> (None, bm) | Some ds \<Rightarrow> on_world (f ds) bm)"

abbreviation backups_of :: "'w backup_manager \<Rightarrow> string \<Rightarrow> backup_info list" where
  "backups_of bm i \<equiv> (case bm_backups bm i of None \<Rightarrow> [] | Some bs \<Rightarrow> bs)"

definition snapshot_ref :: "string \<Rightarrow> string \<Rightarrow> string" where
  "snapshot_ref dataset snapshot = dataset @ ''@'' @ snapshot"

section \<open>Stream compression\<close>

record stream_compressor =
  co_extension :: string
  co_compress :: "string list"
  co_decompress :: "string list"
  co_test :: "string list"

definition streamCompressors :: "(string \<times> stream_compressor) list" where
  "streamCompressors =
     [(''gzip'', \<lparr>co_extension = ''.gz'', co_compress = [''gzip'', ''-c''],
                  co_decompress = [''gzip'', ''-dc''], co_test = [''gzip'', ''-t'']\<rparr>),
      (''zstd'', \<lparr>co_extension = ''.zst'', co_compress = [''zstd'', ''-q'', ''-c''],
                  co_decompress = [''zstd'', ''-qdc''], co_test = [''zstd'', ''-t'']\<rparr>),
      (''lz4'', \<lparr>co_extension = ''.lz4'', co_compress = [''lz4'', ''-q'', ''-c''],
                 co_decompress = [''lz4'', ''-qdc''], co_test = [''lz4'', ''-t'']\<rparr>)]"

definition compressor_of_file :: "string \<Rightarrow> stream_compressor option" where
  "compressor_of_file location =
     map_option snd (find (\<lambda>(n, c). suffix (co_extension c) location) streamCompressors)"

definition integrityTestFor :: "string \<Rightarrow> string list option" where
  "integrityTestFor location = map_option co_test (compressor_of_file location)"

definition decompressorFor :: "string \<Rightarrow> string list option" where
  "decompressorFor location = map_option co_decompress (compressor_of_file location)"

definition compressorFor :: "string \<Rightarrow> (string \<times> string list) option" where
  "compressorFor algorithm =
     map_option (\<lambda>c. (co_extension c, co_compress c)) (map_of streamCompressors algorithm)"

definition ValidateCompression :: "string \<Rightarrow> string \<Rightarrow> go_error option" where
  "ValidateCompression algorithm destination =
     (if algorithm = [] \<or> algorithm = ''none'' then None
      else if map_of streamCompressors algorithm = None then
        Some (Errorf ''unknown compression %q: use gzip, zstd, lz4, or none'' [algorithm])
      else if Contains destination '':'' then
        Some (Errorf ''compression %q cannot be applied to the remote destination %q: set compression on the receiving pool instead''
                [algorithm, destination])
      else None)"

section \<open>Configurations\<close>

definition second :: int where
  "second = 1000000000"

abbreviation hour :: int where
  "hour \<equiv> 3600 * second"

definition parseSchedule :: "'w backup_env \<Rightarrow> string \<Rightarrow> int" where
  "parseSchedule ev schedule =
     (let s = map to_lower_char schedule in
      if s = ''hourly'' then hour
      else if s = ''daily'' then 24 * hour
      else if s = ''weekly'' then 7 * 24 * hour
      else if s = ''monthly'' then 30 * 24 * hour
      else (case be_ParseDuration ev schedule of
              Inl _ \<Rightarrow> 0
            | Inr d \<Rightarrow> if d \<le> 0 then 0 else d))"

definition storedFromConfig :: "'w backup_env \<Rightarrow> backup_config \<Rightarrow> instance_backup_config" where
  "storedFromConfig ev c =
     \<lparr>sc_Enabled = bc_Enabled c, sc_Schedule = bc_Schedule c, sc_Destination = bc_Destination c,
      sc_Compression = bc_Compression c, sc_PreBackupHook = bc_PreBackupHook c,
      sc_PostBackupHook = bc_PostBackupHook c, sc_KeepLast = KeepLast (bc_Retention c),
      sc_KeepHourly = KeepHourly (bc_Retention c), sc_KeepDaily = KeepDaily (bc_Retention c),
      sc_KeepWeekly = KeepWeekly (bc_Retention c), sc_KeepMonthly = KeepMonthly (bc_Retention c),
      sc_MinAge = (if MinAge (bc_Retention c) > 0 then be_DurationString ev (MinAge (bc_Retention c)) else [])\<rparr>"

definition configFromStored :: "'w backup_env \<Rightarrow> instance_backup_config \<Rightarrow> backup_config" where
  "configFromStored ev s =
     (let minAge = (if sc_MinAge s \<noteq> [] then
                      (case be_ParseDuration ev (sc_MinAge s) of Inr d \<Rightarrow> if d > 0 then d else 0 | Inl _ \<Rightarrow> 0)
                    else 0)
      in \<lparr>bc_Enabled = sc_Enabled s, bc_Schedule = sc_Schedule s,
          bc_Retention = \<lparr>KeepLast = sc_KeepLast s, KeepHourly = sc_KeepHourly s, KeepDaily = sc_KeepDaily s,
                          KeepWeekly = sc_KeepWeekly s, KeepMonthly = sc_KeepMonthly s, MinAge = minAge\<rparr>,
          bc_Destination = sc_Destination s, bc_Compression = sc_Compression s, bc_EncryptionKeyFile = [],
          bc_PreBackupHook = sc_PreBackupHook s, bc_PostBackupHook = sc_PostBackupHook s\<rparr>)"

definition persistConfig ::
    "'w backup_env \<Rightarrow> string \<Rightarrow> backup_config \<Rightarrow> 'w backup_manager \<Rightarrow> go_error option \<times> 'w backup_manager" where
  "persistConfig ev instanceID config bm =
     (case with_ds ev (\<lambda>ds. bs_UpdateBackupConfig ds instanceID (Some (storedFromConfig ev config))) bm of
        (None, bm') \<Rightarrow> (None, bm')
      | (Some e, bm') \<Rightarrow>
          (Some (Wrapf ''failed to persist backup configuration for %s: %w'' [instanceID] e), bm'))"

definition stop_schedule :: "string \<Rightarrow> 'w backup_manager \<Rightarrow> 'w backup_manager" where
  "stop_schedule instanceID bm =
     (case bm_schedules bm instanceID of
        None \<Rightarrow> bm
      | Some ch \<Rightarrow> bm\<lparr>bm_closed := bm_closed bm @ [ch], bm_schedules := (bm_schedules bm)(instanceID := None)\<rparr>)"

definition start_schedule :: "string \<Rightarrow> string \<Rightarrow> 'w backup_manager \<Rightarrow> 'w backup_manager" where
  "start_schedule instanceID schedule bm =
     bm\<lparr>bm_schedules := (bm_schedules bm)(instanceID \<mapsto> bm_channels bm),
        bm_started := bm_started bm @ [(instanceID, schedule, bm_channels bm)],
        bm_channels := bm_channels bm + 1\<rparr>"

definition Configure ::
    "'w backup_env \<Rightarrow> string \<Rightarrow> backup_config option \<Rightarrow> 'w backup_manager \<Rightarrow> go_error option \<times> 'w backup_manager" where
  "Configure ev instanceID config bm =
     (case config of
        None \<Rightarrow> (Some (Errorf ''backup configuration is required'' []), bm)
      | Some config \<Rightarrow>
          (case ValidateInstanceName instanceID of
             Some e \<Rightarrow> (Some (Wrapf ''invalid instance id %q: %w'' [instanceID] e), bm)
           | None \<Rightarrow>
               if bc_Enabled config \<and> bc_Schedule config \<noteq> [] \<and> parseSchedule ev (bc_Schedule config) = 0 then
                 (Some (Errorf ''invalid backup schedule %q: use hourly/daily/weekly/monthly or a Go duration like 6h''
                          [bc_Schedule config]), bm)
               else
                 (case ValidateCompression (bc_Compression config) (bc_Destination config) of
                    Some e \<Rightarrow> (Some e, bm)
                  | None \<Rightarrow>
                      let bm1 = stop_schedule instanceID bm;
                          bm2 = bm1\<lparr>bm_configs := (bm_configs bm1)(instanceID \<mapsto> config)\<rparr>
                      in case persistConfig ev instanceID config bm2 of
                           (Some e, bm3) \<Rightarrow> (Some e, bm3)
                         | (None, bm3) \<Rightarrow>
                             (None, if bc_Enabled config \<and> bc_Schedule config \<noteq> []
                                    then start_schedule instanceID (bc_Schedule config) bm3 else bm3))))"

definition GetConfig :: "'w backup_manager \<Rightarrow> string \<Rightarrow> backup_config option" where
  "GetConfig bm instanceID = bm_configs bm instanceID"

definition RemoveConfig :: "'w backup_env \<Rightarrow> string \<Rightarrow> 'w backup_manager \<Rightarrow> 'w backup_manager" where
  "RemoveConfig ev instanceID bm =
     (let bm1 = stop_schedule instanceID bm;
          bm2 = bm1\<lparr>bm_configs := (bm_configs bm1)(instanceID := None)\<rparr>
      in snd (with_ds ev (\<lambda>ds. bs_UpdateBackupConfig ds instanceID None) bm2))"

text \<open>\<open>Stop\<close> up to the wait: the range over the schedules visits \<open>ids\<close>.\<close>

definition bm_Stop :: "string list \<Rightarrow> 'w backup_manager \<Rightarrow> 'w backup_manager" where
  "bm_Stop ids bm = (fold stop_schedule ids bm)\<lparr>bm_canceled := True\<rparr>"

definition append_record :: "string \<Rightarrow> backup_info \<Rightarrow> 'w backup_manager \<Rightarrow> 'w backup_manager" where
  "append_record instanceID info bm =
     bm\<lparr>bm_backups := (bm_backups bm)(instanceID \<mapsto> backups_of bm instanceID @ [info])\<rparr>"

fun reload_configs ::
    "'w backup_env \<Rightarrow> (string \<times> instance_backup_config option) list \<Rightarrow> 'w backup_manager \<Rightarrow> 'w backup_manager" where
  "reload_configs ev [] bm = bm"
| "reload_configs ev ((i, None) # is) bm = reload_configs ev is bm"
| "reload_configs ev ((i, Some s) # is) bm =
     reload_configs ev is (snd (Configure ev i (Some (configFromStored ev s)) bm))"

fun reload_records ::
    "'w backup_env \<Rightarrow> (string \<times> string \<times> string) list \<Rightarrow> 'w backup_manager \<Rightarrow> 'w backup_manager" where
  "reload_records ev [] bm = bm"
| "reload_records ev ((rid, i, record) # rs) bm =
     (case be_Unmarshal ev record of
        Inl _ \<Rightarrow> reload_records ev rs bm
      | Inr info \<Rightarrow> reload_records ev rs (append_record i info bm))"

definition reload :: "'w backup_env \<Rightarrow> 'w backup_manager \<Rightarrow> go_error option \<times> 'w backup_manager" where
  "reload ev bm =
     (case be_Store ev of
        None \<Rightarrow> (None, bm)
      | Some ds \<Rightarrow>
          (case bs_ListInstances ds (bm_world bm) of
             Inl e \<Rightarrow> (Some (Wrapf ''failed to read backup configurations: %w'' [] e), bm)
           | Inr instances \<Rightarrow>
               let bm1 = reload_configs ev instances bm in
               case bs_ListBackupRecords ds (bm_world bm1) of
                 Inl e \<Rightarrow> (Some (Wrapf ''failed to read backup records: %w'' [] e), bm1)
               | Inr records \<Rightarrow> (None, reload_records ev records bm1)))"

section \<open>Hooks\<close>

text \<open>\<open>filepath.Join\<close> with a directory that is not empty; a relative path keeps its leading \<open>..\<close> components.\<close>

definition clean_rel_step :: "string \<Rightarrow> string list \<Rightarrow> string list" where
  "clean_rel_step c acc =
     (if c = ''.'' then acc
      else if c = ''..'' \<and> acc \<noteq> [] \<and> last acc \<noteq> ''..'' then butlast acc
      else acc @ [c])"

definition Join :: "string \<Rightarrow> string \<Rightarrow> string" where
  "Join dir elem =
     (if IsAbs dir then abs_string (clean_comps (comps dir @ comps elem))
      else
        let cs = fold clean_rel_step (comps dir @ comps elem) [] in
        if cs = [] then ''.'' else join_with slash cs)"

definition allowedHookDirs :: "'w backup_manager \<Rightarrow> string list" where
  "allowedHookDirs bm =
     [''/usr/local/etc/hospitus/hooks''] @ (if bm_dataDir bm \<noteq> [] then [Join (bm_dataDir bm) ''hooks''] else [])"

text \<open>
  The resolved directories. A relative one never contains an absolute candidate, unless one of
  its own links leads to an absolute place; the daemon's data directory is absolute.
\<close>

definition hook_roots :: "fs \<Rightarrow> string list \<Rightarrow> string list" where
  "hook_roots fs dirs =
     map (\<lambda>dir. if IsAbs dir then
                   (case EvalSymlinks fs (abs_comps [] dir) of Inr r \<Rightarrow> abs_string r | Inl _ \<Rightarrow> dir)
                 else dir) dirs"

definition hook_within :: "string list \<Rightarrow> string \<Rightarrow> bool" where
  "hook_within roots p \<longleftrightarrow> list_ex (\<lambda>dir. p = dir \<or> HasPrefix p (dir @ ''/'')) roots"

definition hookForbidden :: string where
  "hookForbidden = ''|&;`$(){}<>!'' @ [CHR 0x5C, CHR 0x22, CHR 0x27]"

text \<open>The masks are \<^verbatim>\<open>0o111\<close> and \<^verbatim>\<open>0o022\<close>.\<close>

definition checkHookOwnership :: "'w backup_env \<Rightarrow> string \<Rightarrow> file_info \<Rightarrow> go_error option" where
  "checkHookOwnership ev path info =
     (if fi_Perm info AND 0x49 = 0 then Some (Errorf ''hook script %s is not executable'' [path])
      else if fi_Perm info AND 0x12 \<noteq> 0 then
        Some (Errorf ''hook script %s must not be group- or world-writable'' [path])
      else (case fi_Uid info of
              None \<Rightarrow> None
            | Some uid \<Rightarrow>
                if uid \<noteq> 0 \<and> uid \<noteq> be_Geteuid ev then
                  Some (Errorf ''hook script %s must be owned by root or the daemon user'' [path])
                else None))"

definition validateHookPath :: "'w backup_env \<Rightarrow> 'w backup_manager \<Rightarrow> string \<Rightarrow> string go_result" where
  "validateHookPath ev bm hook =
     (if ContainsAny hook hookForbidden then
        Inl (Errorf ''hook contains shell metacharacters; only script paths are allowed'' [])
      else if HasPrefix hook ''-'' then Inl (Errorf ''hook must be an absolute path, not a flag'' [])
      else if \<not> IsAbs hook then Inl (Errorf ''hook must be an absolute path, got: %s'' [hook])
      else
        let fs = be_Fs ev (bm_world bm);
            cleaned = abs_comps [] hook;
            roots = hook_roots fs (allowedHookDirs bm)
        in case be_Lstat ev (abs_string cleaned) (bm_world bm) of
             Some _ \<Rightarrow> Inl (Errorf ''hook script not found: %s'' [abs_string cleaned])
           | None \<Rightarrow>
               (case EvalSymlinks fs cleaned of
                  Inl _ \<Rightarrow> Inl (Errorf ''hook path cannot be resolved: %s'' [abs_string cleaned])
                | Inr rcs \<Rightarrow>
                    let resolved = abs_string rcs in
                    if \<not> hook_within roots resolved then
                      (if resolved \<noteq> abs_string cleaned then
                         Inl (Errorf (''hook resolves outside allowed directories: %s '' @ [CHR 0xE2, CHR 0x86, CHR 0x92] @ '' %s'') [abs_string cleaned, resolved])
                       else Inl (Errorf ''hook script must be under an allowed hooks directory (got: %s)'' [resolved]))
                    else
                      (case be_Stat ev resolved (bm_world bm) of
                         Inl _ \<Rightarrow> Inl (Errorf ''hook script not found: %s'' [resolved])
                       | Inr finfo \<Rightarrow>
                           if \<not> fi_IsRegular finfo then
                             Inl (Errorf ''hook must be a regular file, not a directory or special file: %s''
                                    [abs_string cleaned])
                           else (case checkHookOwnership ev resolved finfo of
                                   Some e \<Rightarrow> Inl e
                                 | None \<Rightarrow> Inr resolved))))"

text \<open>The environment of the hook holds a path, the instance and the time, and nothing of the daemon's.\<close>

definition runHook ::
    "'w backup_env \<Rightarrow> string \<Rightarrow> string \<Rightarrow> 'w backup_manager \<Rightarrow> go_error option \<times> 'w backup_manager" where
  "runHook ev hook instanceID bm =
     (case validateHookPath ev bm hook of
        Inl e \<Rightarrow> (Some e, bm)
      | Inr cleaned \<Rightarrow> (case run_cmd ev (command [cleaned]) bm of ((e, _), bm') \<Rightarrow> (e, bm')))"

section \<open>Records\<close>

definition persistBackup :: "'w backup_env \<Rightarrow> backup_info \<Rightarrow> 'w backup_manager \<Rightarrow> 'w backup_manager" where
  "persistBackup ev info bm =
     (case be_Store ev of
        None \<Rightarrow> bm
      | Some ds \<Rightarrow>
          (case be_Marshal ev info of
             Inl _ \<Rightarrow> bm
           | Inr record \<Rightarrow>
               snd (on_world (bs_SaveBackupRecord ds (bi_ID info) (bi_InstanceID info) record) bm)))"

definition addBackup :: "'w backup_env \<Rightarrow> string \<Rightarrow> backup_info \<Rightarrow> 'w backup_manager \<Rightarrow> 'w backup_manager" where
  "addBackup ev instanceID info bm = persistBackup ev info (append_record instanceID info bm)"

text \<open>The first record with the id, with the records before and after it.\<close>

fun split_id :: "string \<Rightarrow> backup_info list \<Rightarrow> (backup_info list \<times> backup_info \<times> backup_info list) option" where
  "split_id i [] = None"
| "split_id i (b # bs) =
     (if bi_ID b = i then Some ([], b, bs)
      else map_option (\<lambda>(pre, x, post). (b # pre, x, post)) (split_id i bs))"

text \<open>The range over the map, in the order of \<open>ks\<close>.\<close>

fun search_id ::
    "(string \<rightharpoonup> backup_info list) \<Rightarrow> string list \<Rightarrow> string \<Rightarrow>
     (string \<times> backup_info list \<times> backup_info \<times> backup_info list) option" where
  "search_id m [] i = None"
| "search_id m (k # ks) i =
     (case split_id i (case m k of None \<Rightarrow> [] | Some bs \<Rightarrow> bs) of
        Some r \<Rightarrow> Some (k, r)
      | None \<Rightarrow> search_id m ks i)"

definition findBackup :: "'w backup_env \<Rightarrow> 'w backup_manager \<Rightarrow> string \<Rightarrow> backup_info option" where
  "findBackup ev bm backupID =
     map_option (\<lambda>(k, pre, b, post). b) (search_id (bm_backups bm) (be_Visit ev) backupID)"

definition GetBackup :: "'w backup_env \<Rightarrow> 'w backup_manager \<Rightarrow> string \<Rightarrow> backup_info option" where
  "GetBackup ev bm backupID = findBackup ev bm backupID"

definition ListBackups :: "'w backup_manager \<Rightarrow> string \<Rightarrow> backup_info list" where
  "ListBackups bm instanceID = backups_of bm instanceID"

definition ListAllBackups :: "'w backup_env \<Rightarrow> 'w backup_manager \<Rightarrow> backup_info list" where
  "ListAllBackups ev bm = concat (map (backups_of bm) (be_Visit ev))"

definition baseReferenceLocked :: "'w backup_env \<Rightarrow> 'w backup_manager \<Rightarrow> backup_info \<Rightarrow> backup_info option" where
  "baseReferenceLocked ev bm b =
     (if bi_Dataset b = [] \<or> bi_SnapshotName b = [] then None
      else find (\<lambda>other. bi_ID other \<noteq> bi_ID b \<and>
                         bi_BaseSnapshot other = snapshot_ref (bi_Dataset b) (bi_SnapshotName b))
             (ListAllBackups ev bm))"

definition isIncrementalBase :: "'w backup_env \<Rightarrow> 'w backup_manager \<Rightarrow> backup_info \<Rightarrow> bool" where
  "isIncrementalBase ev bm b \<longleftrightarrow> baseReferenceLocked ev bm b \<noteq> None"

definition previous_candidate :: "backup_info \<Rightarrow> bool" where
  "previous_candidate b \<longleftrightarrow>
     bi_Status b = BackupStatusCompleted \<and> bi_Dataset b \<noteq> [] \<and> bi_Location b \<noteq> [] \<and>
     (bi_Type b = BackupTypeFull \<or> bi_Type b = BackupTypeIncr)"

definition newer_record :: "backup_info \<Rightarrow> backup_info option \<Rightarrow> backup_info option" where
  "newer_record b newest =
     (if \<not> previous_candidate b then newest
      else (case newest of
              None \<Rightarrow> Some b
            | Some n \<Rightarrow> if \<not> bi_CreatedAt b < bi_CreatedAt n then Some b else Some n))"

definition findPreviousSnapshot :: "'w backup_manager \<Rightarrow> string \<Rightarrow> string" where
  "findPreviousSnapshot bm instanceID =
     (case fold newer_record (backups_of bm instanceID) None of
        None \<Rightarrow> []
      | Some n \<Rightarrow> snapshot_ref (bi_Dataset n) (bi_SnapshotName n))"

section \<open>Deleting\<close>

definition destroySnapshotErr ::
    "'w backup_env \<Rightarrow> string \<Rightarrow> string \<Rightarrow> 'w backup_manager \<Rightarrow> go_error option \<times> 'w backup_manager" where
  "destroySnapshotErr ev dataset snapshot bm =
     (case run_cmd ev (command [''zfs'', ''destroy'', ''-r'', snapshot_ref dataset snapshot]) bm of
        ((None, _), bm') \<Rightarrow> (None, bm')
      | ((Some e, out), bm') \<Rightarrow>
          if Contains (map to_lower_char out) ''does not exist'' then (None, bm')
          else (Some (Wrapf ''failed to delete snapshot %s: %w (%s)''
                        [snapshot_ref dataset snapshot, trim_space out] e), bm'))"

definition destroySnapshot ::
    "'w backup_env \<Rightarrow> string \<Rightarrow> string \<Rightarrow> 'w backup_manager \<Rightarrow> 'w backup_manager" where
  "destroySnapshot ev dataset snapshot bm = snd (destroySnapshotErr ev dataset snapshot bm)"

definition remove_stream ::
    "'w backup_env \<Rightarrow> string \<Rightarrow> 'w backup_manager \<Rightarrow> go_error option \<times> 'w backup_manager" where
  "remove_stream ev location bm =
     (if location \<noteq> [] \<and> \<not> Contains location '':'' then
        (case on_world (be_Remove ev location) bm of
           (Some (e, False), bm') \<Rightarrow> (Some (Wrapf ''failed to delete backup stream %s: %w'' [location] e), bm')
         | (_, bm') \<Rightarrow> (None, bm'))
      else (None, bm))"

definition removeBackupData ::
    "'w backup_env \<Rightarrow> backup_info \<Rightarrow> 'w backup_manager \<Rightarrow> go_error option \<times> 'w backup_manager" where
  "removeBackupData ev b bm =
     (if bi_Dataset b \<noteq> [] \<and> bi_SnapshotName b \<noteq> [] then
        (case destroySnapshotErr ev (bi_Dataset b) (bi_SnapshotName b) bm of
           (Some e, bm') \<Rightarrow> (Some e, bm')
         | (None, bm') \<Rightarrow> remove_stream ev (bi_Location b) bm')
      else remove_stream ev (bi_Location b) bm)"

definition DeleteBackup ::
    "'w backup_env \<Rightarrow> string \<Rightarrow> 'w backup_manager \<Rightarrow> go_error option \<times> 'w backup_manager" where
  "DeleteBackup ev backupID bm =
     (case search_id (bm_backups bm) (be_Visit ev) backupID of
        None \<Rightarrow> (Some (Errorf ''backup not found: %s'' [backupID]), bm)
      | Some (i, pre, b, post) \<Rightarrow>
          (case baseReferenceLocked ev bm b of
             Some ref \<Rightarrow>
               (Some (Errorf ''backup %s is the base of incremental backup %s; delete that one first''
                        [backupID, bi_ID ref]), bm)
           | None \<Rightarrow>
               let bm1 = bm\<lparr>bm_backups := (bm_backups bm)(i \<mapsto> pre @ post)\<rparr> in
               case removeBackupData ev b bm1 of
                 (Some e, bm2) \<Rightarrow> (Some e, append_record i b bm2)
               | (None, bm2) \<Rightarrow>
                   (case with_ds ev (\<lambda>ds. bs_DeleteBackupRecord ds backupID) bm2 of
                      (Some e, bm3) \<Rightarrow> (Some (Wrapf ''backup deleted but its record remains: %w'' [] e), bm3)
                    | (None, bm3) \<Rightarrow> (None, bm3))))"

section \<open>Retention\<close>

text \<open>Go's integer division truncates.\<close>

definition go_quot :: "int \<Rightarrow> int \<Rightarrow> int" where
  "go_quot a b = sgn a * sgn b * (\<bar>a\<bar> div \<bar>b\<bar>)"

definition bucket_of :: "int \<Rightarrow> backup_info \<Rightarrow> int" where
  "bucket_of interval b = go_quot (bi_CreatedAt b div second) (interval div second)"

fun fill_buckets :: "int \<Rightarrow> backup_info list \<Rightarrow> (int \<times> backup_info) list \<Rightarrow> (int \<times> backup_info) list" where
  "fill_buckets interval [] bks = bks"
| "fill_buckets interval (b # bs) bks =
     fill_buckets interval bs
       (if map_of bks (bucket_of interval b) = None then bks @ [(bucket_of interval b, b)] else bks)"

definition keepByInterval ::
    "backup_info list \<Rightarrow> int \<Rightarrow> int \<Rightarrow> string set \<Rightarrow> string set" where
  "keepByInterval backups count interval keep =
     (if count = 0 then keep
      else
        let buckets = fill_buckets interval backups [];
            bucketKeys = rev (sort (map fst buckets))
        in keep \<union> set (map (\<lambda>k. bi_ID (the (map_of buckets k))) (take (nat count) bucketKeys)))"

definition keep_set :: "retention_policy \<Rightarrow> backup_info list \<Rightarrow> string set" where
  "keep_set policy backups =
     keepByInterval backups (KeepMonthly policy) (30 * 24 * hour)
       (keepByInterval backups (KeepWeekly policy) (7 * 24 * hour)
         (keepByInterval backups (KeepDaily policy) (24 * hour)
           (keepByInterval backups (KeepHourly policy) hour
             (set (map bi_ID (take (nat (KeepLast policy)) backups))))))"

definition too_young :: "retention_policy \<Rightarrow> int \<Rightarrow> backup_info \<Rightarrow> bool" where
  "too_young policy now b \<longleftrightarrow> MinAge policy > 0 \<and> now - bi_CreatedAt b < MinAge policy"

fun retention_loop ::
    "'w backup_env \<Rightarrow> retention_policy \<Rightarrow> int \<Rightarrow> string set \<Rightarrow> backup_info list \<Rightarrow> 'w backup_manager \<Rightarrow> 'w backup_manager" where
  "retention_loop ev policy now keep [] bm = bm"
| "retention_loop ev policy now keep (b # bs) bm =
     retention_loop ev policy now keep bs
       (if bi_ID b \<in> keep then bm
        else if too_young policy now b then bm
        else if isIncrementalBase ev bm b then bm
        else snd (DeleteBackup ev (bi_ID b) bm))"

definition applyRetention ::
    "'w backup_env \<Rightarrow> string \<Rightarrow> retention_policy \<Rightarrow> 'w backup_manager \<Rightarrow> 'w backup_manager" where
  "applyRetention ev instanceID policy bm =
     (if KeepLast policy = 0 \<and> KeepHourly policy = 0 \<and> KeepDaily policy = 0 \<and>
         KeepWeekly policy = 0 \<and> KeepMonthly policy = 0 then bm
      else if backups_of bm instanceID = [] then bm
      else
        let backups = be_Sort ev (backups_of bm instanceID)
        in retention_loop ev policy (be_Now ev (bm_world bm)) (keep_set policy backups) backups bm)"

section \<open>Pipelines\<close>

text \<open>
  Two commands joined by a pipe: the pipe is made, the consumer is started, then the producer (a
  consumer left alone is killed), then both are awaited.
\<close>

datatype pipe_outcome =
    NoPipe go_error
  | ConsumerNotStarted go_error
  | ProducerNotStarted go_error
  | PipeEnded "go_error option" "go_error option" string string

definition run_pipe ::
    "'w backup_env \<Rightarrow> command \<Rightarrow> command \<Rightarrow> 'w backup_manager \<Rightarrow> pipe_outcome \<times> 'w backup_manager" where
  "run_pipe ev producer consumer bm =
     (case be_StdoutPipe ev producer (bm_world bm) of
        Some e \<Rightarrow> (NoPipe e, bm)
      | None \<Rightarrow>
          (case on_world (be_Start ev consumer) bm of
             (Some e, bm1) \<Rightarrow> (ConsumerNotStarted e, bm1)
           | (None, bm1) \<Rightarrow>
               (case on_world (be_Start ev producer) (bm1\<lparr>bm_log := bm_log bm1 @ [consumer]\<rparr>) of
                  (Some e, bm2) \<Rightarrow> (ProducerNotStarted e, bm2\<lparr>bm_world := be_Kill ev consumer (bm_world bm2)\<rparr>)
                | (None, bm2) \<Rightarrow>
                    (case on_world (be_WaitPipeline ev producer consumer) (bm2\<lparr>bm_log := bm_log bm2 @ [producer]\<rparr>) of
                       ((pe, ce, po, co), bm3) \<Rightarrow> (PipeEnded pe ce po co, bm3)))))"

definition runThroughCompressor ::
    "'w backup_env \<Rightarrow> command \<Rightarrow> string list \<Rightarrow> string \<Rightarrow> 'w backup_manager \<Rightarrow> (go_error option \<times> string) \<times> 'w backup_manager" where
  "runThroughCompressor ev sendCmd compressor file bm =
     (case run_pipe ev sendCmd ((command compressor)\<lparr>cmd_stdout := Some file\<rparr>) bm of
        (NoPipe e, bm1) \<Rightarrow> ((Some (Wrapf ''failed to create pipe: %w'' [] e), []), bm1)
      | (ConsumerNotStarted e, bm1) \<Rightarrow> ((Some (Wrapf ''failed to start %s: %w'' [hd compressor] e), []), bm1)
      | (ProducerNotStarted e, bm1) \<Rightarrow> ((Some (Wrapf ''failed to start zfs send: %w'' [] e), []), bm1)
      | (PipeEnded (Some e) ce po co, bm1) \<Rightarrow> ((Some (Wrapf ''zfs send failed: %w (%s)'' [trim_space po] e), po), bm1)
      | (PipeEnded None (Some e) po co, bm1) \<Rightarrow>
          ((Some (Wrapf ''%s failed: %w (%s)'' [hd compressor, trim_space co] e), po), bm1)
      | (PipeEnded None None po co, bm1) \<Rightarrow> ((None, po), bm1))"

definition stream_path :: "string \<Rightarrow> string \<Rightarrow> string \<Rightarrow> string" where
  "stream_path dir backupID extension = Join dir (backupID @ ''.zfs'' @ extension)"

definition write_stream ::
    "'w backup_env \<Rightarrow> command \<Rightarrow> string \<Rightarrow> string list option \<Rightarrow> 'w backup_manager \<Rightarrow> string go_result \<times> 'w backup_manager" where
  "write_stream ev sendCmd path compressor bm =
     (case (case compressor of
              Some c \<Rightarrow> runThroughCompressor ev sendCmd c path bm
            | None \<Rightarrow> run_cmd ev (sendCmd\<lparr>cmd_stdout := Some path\<rparr>) bm) of
        ((runErr, stderr), bm1) \<Rightarrow>
          (case on_world (be_Close ev path) bm1 of
             (closeErr, bm2) \<Rightarrow>
               (case (runErr, closeErr) of
                  (Some e, _) \<Rightarrow>
                    (Inl (Wrapf ''zfs send failed: %w (%s)'' [trim_space stderr] e), snd (on_world (be_Remove ev path) bm2))
                | (None, Some e) \<Rightarrow>
                    (Inl (Wrapf ''cannot finish writing %q: %w'' [path] e), snd (on_world (be_Remove ev path) bm2))
                | (None, None) \<Rightarrow> (Inr path, bm2))))"

definition streamToFile ::
    "'w backup_env \<Rightarrow> command \<Rightarrow> string \<Rightarrow> string \<Rightarrow> string \<Rightarrow> 'w backup_manager \<Rightarrow> string go_result \<times> 'w backup_manager" where
  "streamToFile ev sendCmd dir backupID compression bm =
     (case ValidateFilePath dir True of
        Some e \<Rightarrow> (Inl (Wrapf ''invalid backup destination %q: %w'' [dir] e), bm)
      | None \<Rightarrow>
          if \<not> IsAbs dir then
            (Inl (Errorf ''backup destination %q must be an absolute path or host:path'' [dir]), bm)
          else
            (case on_world (be_MkdirAll ev dir) bm of
               (Some e, bm1) \<Rightarrow> (Inl (Wrapf ''cannot create backup destination %q: %w'' [dir] e), bm1)
             | (None, bm1) \<Rightarrow>
                 (case (case compressorFor compression of
                          None \<Rightarrow> None
                        | Some (ext, c) \<Rightarrow> map_option (Pair (hd c)) (be_LookPath ev (hd c) (bm_world bm1))) of
                    Some (c, e) \<Rightarrow>
                      (Inl (Wrapf ''compression %q needs %s, which is not installed: %w'' [compression, c] e), bm1)
                  | None \<Rightarrow>
                      let path = stream_path dir backupID (case compressorFor compression of None \<Rightarrow> [] | Some (ext, c) \<Rightarrow> ext) in
                      (case on_world (be_CreateExcl ev path) bm1 of
                         (Some e, bm2) \<Rightarrow> (Inl (Wrapf ''cannot create backup file %q: %w'' [path] e), bm2)
                       | (None, bm2) \<Rightarrow> write_stream ev sendCmd path (map_option snd (compressorFor compression)) bm2))))"

definition runPipeline ::
    "'w backup_env \<Rightarrow> command \<Rightarrow> backup_config \<Rightarrow> string \<Rightarrow> 'w backup_manager \<Rightarrow>
     (string go_result \<times> string) \<times> 'w backup_manager" where
  "runPipeline ev sendCmd config backupID bm =
     (if bc_Destination config = [] then
        ((Inl (Errorf ''a full or incremental backup needs a destination: a local directory, or host:path for a remote pool'' []), []), bm)
      else if \<not> Contains (bc_Destination config) '':'' then
        (case streamToFile ev sendCmd (bc_Destination config) backupID (bc_Compression config) bm of
           (r, bm1) \<Rightarrow> ((r, []), bm1))
      else
        (case ValidateSSHDestination (bc_Destination config) of
           Inl e \<Rightarrow> ((Inl (Wrapf ''invalid backup destination: %w'' [] e), []), bm)
         | Inr (sshHost, remotePath) \<Rightarrow>
             (case run_pipe ev sendCmd (command [''ssh'', ''--'', sshHost, ''zfs'', ''receive'', ''-F'', remotePath]) bm of
                (NoPipe e, bm1) \<Rightarrow> ((Inl (Wrapf ''failed to create pipe: %w'' [] e), []), bm1)
              | (ConsumerNotStarted e, bm1) \<Rightarrow> ((Inl (Wrapf ''failed to start ssh: %w'' [] e), []), bm1)
              | (ProducerNotStarted e, bm1) \<Rightarrow> ((Inl (Wrapf ''failed to start zfs send: %w'' [] e), []), bm1)
              | (PipeEnded (Some e) ce po co, bm1) \<Rightarrow> ((Inl (Wrapf ''zfs send failed: %w'' [] e), co), bm1)
              | (PipeEnded None (Some e) po co, bm1) \<Rightarrow> ((Inl (Wrapf ''ssh zfs receive failed: %w'' [] e), co), bm1)
              | (PipeEnded None None po co, bm1) \<Rightarrow> ((Inr (bc_Destination config), co), bm1))))"

definition runThroughDecompressor ::
    "'w backup_env \<Rightarrow> string list \<Rightarrow> string \<Rightarrow> command \<Rightarrow> 'w backup_manager \<Rightarrow> (go_error option \<times> string) \<times> 'w backup_manager" where
  "runThroughDecompressor ev decompressor file recvCmd bm =
     (case be_LookPath ev (hd decompressor) (bm_world bm) of
        Some e \<Rightarrow>
          ((Some (Wrapf ''this backup needs %s to be read, which is not installed: %w'' [hd decompressor] e), []), bm)
      | None \<Rightarrow>
          (case run_pipe ev ((command decompressor)\<lparr>cmd_stdin := Some file\<rparr>) recvCmd bm of
             (NoPipe e, bm1) \<Rightarrow> ((Some (Wrapf ''failed to create pipe: %w'' [] e), []), bm1)
           | (ConsumerNotStarted e, bm1) \<Rightarrow> ((Some (Wrapf ''failed to start zfs receive: %w'' [] e), []), bm1)
           | (ProducerNotStarted e, bm1) \<Rightarrow> ((Some (Wrapf ''failed to start %s: %w'' [hd decompressor] e), []), bm1)
           | (PipeEnded (Some e) ce po co, bm1) \<Rightarrow>
               ((Some (Wrapf ''%s failed: %w (%s)'' [hd decompressor, trim_space po] e), co), bm1)
           | (PipeEnded None (Some e) po co, bm1) \<Rightarrow> ((Some (Wrapf ''zfs receive failed: %w'' [] e), co), bm1)
           | (PipeEnded None None po co, bm1) \<Rightarrow> ((None, co), bm1)))"

definition runRestorePipeline ::
    "'w backup_env \<Rightarrow> command \<Rightarrow> string \<Rightarrow> string \<Rightarrow> 'w backup_manager \<Rightarrow> (go_error option \<times> string) \<times> 'w backup_manager" where
  "runRestorePipeline ev recvCmd source snapshot bm =
     (if \<not> Contains source '':'' then
        (case be_Open ev source (bm_world bm) of
           Some e \<Rightarrow> ((Some (Wrapf ''cannot read backup stream %q: %w'' [source] e), []), bm)
         | None \<Rightarrow>
             (case decompressorFor source of
                None \<Rightarrow> run_cmd ev (recvCmd\<lparr>cmd_stdin := Some source\<rparr>) bm
              | Some decompressor \<Rightarrow> runThroughDecompressor ev decompressor source recvCmd bm))
      else
        (case ValidateSSHDestination source of
           Inl e \<Rightarrow> ((Some (Wrapf ''invalid restore source: %w'' [] e), []), bm)
         | Inr (sshHost, remotePath) \<Rightarrow>
             if snapshot = [] then
               ((Some (Errorf ''backup records no snapshot name; a remote restore cannot select what to send'' []), []), bm)
             else
               (case ValidateSnapshotName snapshot of
                  Some e \<Rightarrow> ((Some (Wrapf ''invalid snapshot name %q: %w'' [snapshot] e), []), bm)
                | None \<Rightarrow>
                    (case run_pipe ev (command [''ssh'', ''--'', sshHost, ''zfs'', ''send'', snapshot_ref remotePath snapshot])
                            recvCmd bm of
                       (NoPipe e, bm1) \<Rightarrow> ((Some (Wrapf ''failed to create pipe: %w'' [] e), []), bm1)
                     | (ConsumerNotStarted e, bm1) \<Rightarrow> ((Some (Wrapf ''failed to start zfs receive: %w'' [] e), []), bm1)
                     | (ProducerNotStarted e, bm1) \<Rightarrow> ((Some (Wrapf ''failed to start ssh: %w'' [] e), []), bm1)
                     | (PipeEnded (Some e) ce po co, bm1) \<Rightarrow> ((Some (Wrapf ''ssh zfs send failed: %w'' [] e), co), bm1)
                     | (PipeEnded None (Some e) po co, bm1) \<Rightarrow> ((Some (Wrapf ''zfs receive failed: %w'' [] e), co), bm1)
                     | (PipeEnded None None po co, bm1) \<Rightarrow> ((None, co), bm1)))))"

section \<open>Sizes\<close>

fun parse_size_lines :: "string list \<Rightarrow> int go_result" where
  "parse_size_lines [] = Inl (Errorf ''zfs send -nvP reported no size'' [])"
| "parse_size_lines (line # lines) =
     (case go_fields line of
        [k, v] \<Rightarrow> if k = ''size'' then parse_int64 v else parse_size_lines lines
      | _ \<Rightarrow> parse_size_lines lines)"

definition parseSendSize :: "string \<Rightarrow> int go_result" where
  "parseSendSize output = parse_size_lines (split_on (CHR 0x0A) output)"

definition estimateSendSize ::
    "'w backup_env \<Rightarrow> string list \<Rightarrow> 'w backup_manager \<Rightarrow> int go_result \<times> 'w backup_manager" where
  "estimateSendSize ev sendArgs bm =
     (case run_cmd ev (command ([''zfs'', ''send'', ''-nvP''] @ tl sendArgs)) bm of
        ((Some e, _), bm1) \<Rightarrow> (Inl e, bm1)
      | ((None, output), bm1) \<Rightarrow> (parseSendSize output, bm1))"

definition getSnapshotSize ::
    "'w backup_env \<Rightarrow> string \<Rightarrow> string \<Rightarrow> 'w backup_manager \<Rightarrow> int \<times> 'w backup_manager" where
  "getSnapshotSize ev dataset snapshotName bm =
     (case run_cmd ev (command [''zfs'', ''list'', ''-Hp'', ''-o'', ''referenced'', snapshot_ref dataset snapshotName]) bm of
        ((Some _, _), bm1) \<Rightarrow> (0, bm1)
      | ((None, output), bm1) \<Rightarrow> (be_Sscanf ev (trim_space output), bm1))"

definition backupSize :: "'w backup_env \<Rightarrow> string \<Rightarrow> int \<Rightarrow> 'w backup_manager \<Rightarrow> int" where
  "backupSize ev location snapshotSize bm =
     (if location = [] then snapshotSize
      else (case be_Stat ev location (bm_world bm) of
              Inl _ \<Rightarrow> snapshotSize
            | Inr info \<Rightarrow> if fi_IsDir info then snapshotSize else fi_Size info))"

definition measureBackup ::
    "'w backup_env \<Rightarrow> string list \<Rightarrow> string \<Rightarrow> string \<Rightarrow> string \<Rightarrow> 'w backup_manager \<Rightarrow> int \<times> 'w backup_manager" where
  "measureBackup ev sendArgs location dataset snapshotName bm =
     (let fallback = (\<lambda>bm1. case getSnapshotSize ev dataset snapshotName bm1 of
                              (sz, bm2) \<Rightarrow> (backupSize ev location sz bm2, bm2))
      in if location \<noteq> [] \<and> Contains location '':'' then
           (case estimateSendSize ev sendArgs bm of
              (Inr sz, bm1) \<Rightarrow> (sz, bm1)
            | (Inl _, bm1) \<Rightarrow> fallback bm1)
         else fallback bm)"

section \<open>Creating\<close>

definition datasetFor :: "'w backup_env \<Rightarrow> string \<Rightarrow> 'w backup_manager \<Rightarrow> string go_result" where
  "datasetFor ev instanceID bm =
     (case be_Resolve ev of
        None \<Rightarrow> Inl (Errorf ''no dataset resolver configured; cannot locate the storage of instance %s'' [instanceID])
      | Some resolve \<Rightarrow>
          bind_res (resolve instanceID (bm_world bm))
            (\<lambda>dataset. if dataset = [] then Inl (Errorf ''instance %s has no dataset to back up'' [instanceID])
                       else Inr dataset))"

text \<open>A hook that is not configured is not run.\<close>

definition hook_if ::
    "'w backup_env \<Rightarrow> string \<Rightarrow> string \<Rightarrow> 'w backup_manager \<Rightarrow> go_error option \<times> 'w backup_manager" where
  "hook_if ev hook instanceID bm = (if hook \<noteq> [] then runHook ev hook instanceID bm else (None, bm))"

definition new_backup_info :: "string \<Rightarrow> string \<Rightarrow> BackupType \<Rightarrow> int \<Rightarrow> string \<Rightarrow> string \<Rightarrow> backup_info" where
  "new_backup_info instanceID timestamp ty now dataset destination =
     \<lparr>bi_ID = instanceID @ ''-'' @ timestamp, bi_InstanceID = instanceID, bi_Type = ty,
      bi_Status = BackupStatusRunning, bi_CreatedAt = now, bi_CompletedAt = 0, bi_Size = 0,
      bi_SnapshotName = ''hospitus-backup-'' @ timestamp, bi_Dataset = dataset, bi_Destination = destination,
      bi_Location = [], bi_Compressed = False, bi_Encrypted = False, bi_Error = None, bi_Verified = False,
      bi_BaseSnapshot = []\<rparr>"

definition failed_info :: "go_error \<Rightarrow> backup_info \<Rightarrow> backup_info" where
  "failed_info e info = info\<lparr>bi_Status := BackupStatusFailed, bi_Error := Some e\<rparr>"

definition take_snapshot ::
    "'w backup_env \<Rightarrow> backup_info \<Rightarrow> 'w backup_manager \<Rightarrow> (go_error option \<times> string) \<times> 'w backup_manager" where
  "take_snapshot ev info bm =
     run_cmd ev (command [''zfs'', ''snapshot'', ''-r'', snapshot_ref (bi_Dataset info) (bi_SnapshotName info)]) bm"

type_synonym 'w create_result = "(backup_info option \<times> go_error option) \<times> 'w backup_manager"

definition CreateSnapshot :: "'w backup_env \<Rightarrow> string \<Rightarrow> 'w backup_manager \<Rightarrow> 'w create_result" where
  "CreateSnapshot ev i bm =
     (case datasetFor ev i bm of
        Inl e \<Rightarrow> ((None, Some e), bm)
      | Inr dataset \<Rightarrow>
          let now = be_Now ev (bm_world bm);
              info = new_backup_info i (be_Format ev now) BackupTypeSnapshot now dataset [];
              config = GetConfig bm i
          in case hook_if ev (case config of None \<Rightarrow> [] | Some c \<Rightarrow> bc_PreBackupHook c) i bm of
               (Some e, bm1) \<Rightarrow>
                 let info' = failed_info (Wrapf ''pre-backup hook failed: %v'' [] e) info
                 in ((Some info', Some e), addBackup ev i info' bm1)
             | (None, bm1) \<Rightarrow>
                 (case take_snapshot ev info bm1 of
                    ((Some e, out), bm2) \<Rightarrow>
                      let info' = failed_info (Wrapf ''zfs snapshot failed: %v (%s)'' [trim_space out] e) info
                      in ((Some info', Some (Wrapf ''failed to create snapshot: %w'' [] e)), addBackup ev i info' bm2)
                  | ((None, _), bm2) \<Rightarrow>
                      (case getSnapshotSize ev dataset (bi_SnapshotName info) bm2 of
                         (sz, bm3) \<Rightarrow>
                           let bm4 = snd (hook_if ev (case config of None \<Rightarrow> [] | Some c \<Rightarrow> bc_PostBackupHook c) i bm3);
                               info' = info\<lparr>bi_Size := sz, bi_Status := BackupStatusCompleted,
                                            bi_CompletedAt := be_Now ev (bm_world bm4)\<rparr>;
                               bm5 = addBackup ev i info' bm4
                           in ((Some info', None),
                               case config of None \<Rightarrow> bm5 | Some c \<Rightarrow> applyRetention ev i (bc_Retention c) bm5))))"

text \<open>What is sent, and against which base.\<close>

definition send_plan :: "'w backup_manager \<Rightarrow> string \<Rightarrow> BackupType \<Rightarrow> backup_info \<Rightarrow> string list \<times> backup_info" where
  "send_plan bm i backupType info =
     (let full = snapshot_ref (bi_Dataset info) (bi_SnapshotName info) in
      if backupType = BackupTypeIncr then
        (let prev = findPreviousSnapshot bm i in
         if prev = [] then ([''send'', ''-R'', full], info\<lparr>bi_Type := BackupTypeFull\<rparr>)
         else ([''send'', ''-R'', ''-i'', prev, full], info\<lparr>bi_BaseSnapshot := prev\<rparr>))
      else ([''send'', ''-R'', full], info))"

definition finish_backup ::
    "'w backup_env \<Rightarrow> string \<Rightarrow> backup_config \<Rightarrow> string list \<Rightarrow> backup_info \<Rightarrow> string \<Rightarrow> 'w backup_manager \<Rightarrow> 'w create_result" where
  "finish_backup ev i config sendArgs info location bm =
     (case measureBackup ev sendArgs location (bi_Dataset info) (bi_SnapshotName info) bm of
        (sz, bm1) \<Rightarrow>
          let bm2 = snd (hook_if ev (bc_PostBackupHook config) i bm1);
              info' = info\<lparr>bi_Location := location, bi_Compressed := (decompressorFor location \<noteq> None), bi_Size := sz,
                           bi_Status := BackupStatusCompleted, bi_CompletedAt := be_Now ev (bm_world bm2)\<rparr>
          in ((Some info', None), applyRetention ev i (bc_Retention config) (addBackup ev i info' bm2)))"

definition CreateBackup ::
    "'w backup_env \<Rightarrow> string \<Rightarrow> BackupType \<Rightarrow> 'w backup_manager \<Rightarrow> 'w create_result" where
  "CreateBackup ev i backupType bm =
     (case ValidateInstanceName i of
        Some e \<Rightarrow> ((None, Some (Wrapf ''invalid instance id %q: %w'' [i] e)), bm)
      | None \<Rightarrow>
     (case GetConfig bm i of
        None \<Rightarrow> ((None, Some (Errorf ''no backup configuration for instance %s'' [i])), bm)
      | Some config \<Rightarrow>
     (case datasetFor ev i bm of
        Inl e \<Rightarrow> ((None, Some e), bm)
      | Inr dataset \<Rightarrow>
          let now = be_Now ev (bm_world bm);
              info = new_backup_info i (be_Format ev now) backupType now dataset (bc_Destination config)
          in case hook_if ev (bc_PreBackupHook config) i bm of
               (Some e, bm1) \<Rightarrow>
                 let info' = failed_info (Wrapf ''pre-backup hook failed: %v'' [] e) info
                 in ((Some info', Some e), addBackup ev i info' bm1)
             | (None, bm1) \<Rightarrow>
     (case take_snapshot ev info bm1 of
        ((Some e, out), bm2) \<Rightarrow>
          let info' = failed_info (Wrapf ''zfs snapshot failed: %v (%s)'' [trim_space out] e) info
          in ((Some info', Some (Wrapf ''failed to create snapshot: %w'' [] e)), addBackup ev i info' bm2)
      | ((None, _), bm2) \<Rightarrow>
          (case send_plan bm2 i backupType info of
             (sendArgs, info2) \<Rightarrow>
               (case runPipeline ev (command (''zfs'' # sendArgs)) config (bi_ID info) bm2 of
                  ((Inl e, output), bm3) \<Rightarrow>
                    let info' = failed_info (Wrapf ''backup failed: %v (%s)'' [trim_space output] e) info2
                    in ((Some info', Some (Wrapf ''backup failed: %w'' [] e)),
                        addBackup ev i info' (destroySnapshot ev dataset (bi_SnapshotName info) bm3))
                | ((Inr location, _), bm3) \<Rightarrow> finish_backup ev i config sendArgs info2 location bm3))))))"

section \<open>Restoring and verifying\<close>

definition restore_stream ::
    "'w backup_env \<Rightarrow> backup_info \<Rightarrow> string \<Rightarrow> 'w backup_manager \<Rightarrow> go_error option \<times> 'w backup_manager" where
  "restore_stream ev b targetDataset bm =
     (case runRestorePipeline ev (command [''zfs'', ''receive'', ''-F'', targetDataset]) (bi_Location b) (bi_SnapshotName b) bm of
        ((Some e, output), bm1) \<Rightarrow> (Some (Wrapf ''restore failed: %w (%s)'' [trim_space output] e), bm1)
      | ((None, _), bm1) \<Rightarrow> (None, bm1))"

definition Restore ::
    "'w backup_env \<Rightarrow> string \<Rightarrow> string \<Rightarrow> 'w backup_manager \<Rightarrow> go_error option \<times> 'w backup_manager" where
  "Restore ev backupID target bm =
     (case findBackup ev bm backupID of
        None \<Rightarrow> (Some (Errorf ''backup not found: %s'' [backupID]), bm)
      | Some b \<Rightarrow>
          if bi_Dataset b = [] then
            (Some (Errorf ''backup %s records no dataset; it predates dataset tracking and cannot be restored'' [backupID]), bm)
          else
     (case datasetFor ev target bm of
        Inl e \<Rightarrow> (Some e, bm)
      | Inr targetDataset \<Rightarrow>
     (case bi_Type b of
        BackupTypeSnapshot \<Rightarrow>
          let snap = snapshot_ref (bi_Dataset b) (bi_SnapshotName b) in
          if bi_InstanceID b = target then
            (case run_cmd ev (command [''zfs'', ''rollback'', ''-r'', snap]) bm of
               ((Some e, out), bm1) \<Rightarrow> (Some (Wrapf ''rollback failed: %w (%s)'' [trim_space out] e), bm1)
             | ((None, _), bm1) \<Rightarrow> (None, bm1))
          else
            (case run_cmd ev (command [''zfs'', ''clone'', snap, targetDataset]) bm of
               ((Some e, out), bm1) \<Rightarrow> (Some (Wrapf ''clone failed: %w (%s)'' [trim_space out] e), bm1)
             | ((None, _), bm1) \<Rightarrow> (None, bm1))
      | BackupTypeUnknown ty \<Rightarrow>
          (Some (Errorf ''backup %s has an unknown type %q; nothing was restored'' [backupID, ty]), bm)
      | _ \<Rightarrow>
          if bi_Location b = [] then
            (Some (Errorf ''backup %s records no location; nothing was written for it to restore from'' [backupID]), bm)
          else if bi_Type b = BackupTypeIncr then
            (if bi_BaseSnapshot b = [] then
               (Some (Errorf ''backup %s is incremental but records no base snapshot; it cannot be restored'' [backupID]), bm)
             else (case cut_at CHR ''@'' (bi_BaseSnapshot b) of
                     None \<Rightarrow> (Some (Errorf ''backup %s records an unusable base %q'' [backupID, bi_BaseSnapshot b]), bm)
                   | Some (_, base) \<Rightarrow>
                       (case run_cmd ev (command [''zfs'', ''list'', ''-H'', snapshot_ref targetDataset base]) bm of
                          ((Some _, _), bm1) \<Rightarrow>
                            (Some (Errorf ''backup %s is incremental on %s, which %s does not have; restore its base first''
                                     [backupID, bi_BaseSnapshot b, targetDataset]), bm1)
                        | ((None, _), bm1) \<Rightarrow> restore_stream ev b targetDataset bm1)))
          else restore_stream ev b targetDataset bm)))"

definition verifyRawStream ::
    "'w backup_env \<Rightarrow> backup_info \<Rightarrow> 'w backup_manager \<Rightarrow> go_error option \<times> 'w backup_manager" where
  "verifyRawStream ev b bm =
     (case be_LookPath ev ''zstream'' (bm_world bm) of
        Some _ \<Rightarrow> (None, bm)
      | None \<Rightarrow>
          (case run_cmd ev (command [''zstream'', ''dump'', bi_Location b]) bm of
             ((Some e, out), bm1) \<Rightarrow> (Some (Wrapf ''backup %s is damaged: %w (%s)'' [bi_ID b, trim_space out] e), bm1)
           | ((None, _), bm1) \<Rightarrow> (None, bm1)))"

definition verifyStream ::
    "'w backup_env \<Rightarrow> backup_info \<Rightarrow> 'w backup_manager \<Rightarrow> go_error option \<times> 'w backup_manager" where
  "verifyStream ev b bm =
     (if bi_Location b = [] then (Some (Errorf ''backup %s records no location and cannot be verified'' [bi_ID b]), bm)
      else if Contains (bi_Location b) '':'' then
        (Some (Errorf ''backup %s was sent to %s; verify it there'' [bi_ID b, bi_Location b]), bm)
      else (case be_Stat ev (bi_Location b) (bm_world bm) of
              Inl e \<Rightarrow> (Some (Wrapf ''backup %s: %w'' [bi_ID b] e), bm)
            | Inr info \<Rightarrow>
                if fi_Size info = 0 then (Some (Errorf ''backup %s is empty'' [bi_ID b]), bm)
                else (case integrityTestFor (bi_Location b) of
                        None \<Rightarrow> verifyRawStream ev b bm
                      | Some test \<Rightarrow>
                          (case run_cmd ev (command (test @ [bi_Location b])) bm of
                             ((Some e, out), bm1) \<Rightarrow>
                               (Some (Wrapf ''backup %s is damaged: %w (%s)'' [bi_ID b, trim_space out] e), bm1)
                           | ((None, _), bm1) \<Rightarrow> (None, bm1)))))"

definition verifyBase ::
    "'w backup_env \<Rightarrow> backup_info \<Rightarrow> 'w backup_manager \<Rightarrow> go_error option \<times> 'w backup_manager" where
  "verifyBase ev b bm =
     (if bi_BaseSnapshot b = [] then (None, bm)
      else (case run_cmd ev (command [''zfs'', ''list'', ''-H'', bi_BaseSnapshot b]) bm of
              ((Some _, _), bm1) \<Rightarrow>
                (Some (Errorf ''incremental backup %s was sent against %s, which no longer exists''
                         [bi_ID b, bi_BaseSnapshot b]), bm1)
            | ((None, _), bm1) \<Rightarrow> (None, bm1)))"

definition verify_checks ::
    "'w backup_env \<Rightarrow> backup_info \<Rightarrow> 'w backup_manager \<Rightarrow> go_error option \<times> 'w backup_manager" where
  "verify_checks ev b bm =
     (if bi_Type b = BackupTypeSnapshot then
        (if bi_Dataset b = [] then (Some (Errorf ''backup %s records no dataset and cannot be verified'' [bi_ID b]), bm)
         else (case run_cmd ev (command [''zfs'', ''list'', ''-H'', snapshot_ref (bi_Dataset b) (bi_SnapshotName b)]) bm of
                 ((Some _, _), bm1) \<Rightarrow> (Some (Errorf ''snapshot verification failed: snapshot not found'' []), bm1)
               | ((None, _), bm1) \<Rightarrow> (None, bm1)))
      else (case verifyStream ev b bm of
              (Some e, bm1) \<Rightarrow> (Some e, bm1)
            | (None, bm1) \<Rightarrow> if bi_Type b = BackupTypeIncr then verifyBase ev b bm1 else (None, bm1)))"

text \<open>The record that was found is marked where it is kept.\<close>

definition mark_verified :: "'w backup_env \<Rightarrow> string \<Rightarrow> 'w backup_manager \<Rightarrow> 'w backup_manager" where
  "mark_verified ev backupID bm =
     (case search_id (bm_backups bm) (be_Visit ev) backupID of
        None \<Rightarrow> bm
      | Some (k, pre, b, post) \<Rightarrow>
          persistBackup ev (b\<lparr>bi_Verified := True\<rparr>)
            (bm\<lparr>bm_backups := (bm_backups bm)(k \<mapsto> pre @ b\<lparr>bi_Verified := True\<rparr> # post)\<rparr>))"

definition VerifyBackup ::
    "'w backup_env \<Rightarrow> string \<Rightarrow> 'w backup_manager \<Rightarrow> go_error option \<times> 'w backup_manager" where
  "VerifyBackup ev backupID bm =
     (case findBackup ev bm backupID of
        None \<Rightarrow> (Some (Errorf ''backup not found: %s'' [backupID]), bm)
      | Some b \<Rightarrow>
          (case verify_checks ev b bm of
             (Some e, bm1) \<Rightarrow> (Some e, bm1)
           | (None, bm1) \<Rightarrow> (None, mark_verified ev backupID bm1)))"

section \<open>Schedules\<close>

text \<open>What the select of a schedule loop received: a tick, with what the world answers to that run, or the stop channel.\<close>

datatype 'w schedule_event = Tick "'w backup_env" | StopClosed

fun schedule_loop :: "string \<Rightarrow> 'w schedule_event list \<Rightarrow> 'w backup_manager \<Rightarrow> 'w backup_manager" where
  "schedule_loop i [] bm = bm"
| "schedule_loop i (Tick ev # es) bm = schedule_loop i es (snd (CreateSnapshot ev i bm))"
| "schedule_loop i (StopClosed # es) bm = bm"

definition runSchedule ::
    "'w backup_env \<Rightarrow> string \<Rightarrow> string \<Rightarrow> 'w schedule_event list \<Rightarrow> 'w backup_manager \<Rightarrow> 'w backup_manager" where
  "runSchedule ev i schedule events bm = (if parseSchedule ev schedule = 0 then bm else schedule_loop i events bm)"

end
