(* ===== verification/Backup_Thms.thy ===== *)
theory Backup_Thms
  imports Backup
begin

text \<open>
  Theorems on the backup manager: what a deletion and a retention pass remove, that no operation
  breaks the chain an incremental backup is restored along, which hooks can run, and that what is
  written can be read back.
\<close>

named_theorems bm_frame \<open>what calls leave alone of the backup records\<close>

section \<open>Calls leave the records alone\<close>

lemma run_cmd_frame [bm_frame]: "bm_backups (snd (run_cmd ev c bm)) = bm_backups bm"
  by (simp add: run_cmd_def split: prod.split)

lemma on_world_frame [bm_frame]: "bm_backups (snd (on_world f bm)) = bm_backups bm"
  by (simp add: on_world_def split: prod.split)

lemma with_ds_frame [bm_frame]: "bm_backups (snd (with_ds ev f bm)) = bm_backups bm"
  by (simp add: with_ds_def bm_frame split: option.split)

text \<open>The frames in the form a case analysis of a pair leaves them.\<close>

lemma run_cmd_pair: "run_cmd ev c bm = (r, bm') \<Longrightarrow> bm_backups bm' = bm_backups bm"
  by (metis run_cmd_frame snd_conv)

lemma on_world_pair: "on_world f bm = (r, bm') \<Longrightarrow> bm_backups bm' = bm_backups bm"
  by (metis on_world_frame snd_conv)

lemma with_ds_pair: "with_ds ev f bm = (r, bm') \<Longrightarrow> bm_backups bm' = bm_backups bm"
  by (metis with_ds_frame snd_conv)

lemmas call_pairs = run_cmd_pair on_world_pair with_ds_pair

lemma persistBackup_frame [bm_frame]: "bm_backups (persistBackup ev info bm) = bm_backups bm"
  by (simp add: persistBackup_def bm_frame split: option.split sum.split)

lemma addBackup_backups:
  "bm_backups (addBackup ev i info bm) = (bm_backups bm)(i \<mapsto> backups_of bm i @ [info])"
  by (simp add: addBackup_def append_record_def bm_frame)

lemma runHook_frame [bm_frame]: "bm_backups (snd (runHook ev hook i bm)) = bm_backups bm"
  by (auto simp: runHook_def split: sum.split prod.split dest: run_cmd_pair)

lemma hook_if_frame [bm_frame]: "bm_backups (snd (hook_if ev hook i bm)) = bm_backups bm"
  by (simp add: hook_if_def bm_frame)

lemma hook_if_pair: "hook_if ev hook i bm = (r, bm') \<Longrightarrow> bm_backups bm' = bm_backups bm"
  by (metis hook_if_frame snd_conv)

lemma run_pipe_frame [bm_frame]: "bm_backups (snd (run_pipe ev p c bm)) = bm_backups bm"
  by (auto simp: run_pipe_def split: option.split prod.split dest!: on_world_pair)

lemma run_pipe_pair: "run_pipe ev p c bm = (r, bm') \<Longrightarrow> bm_backups bm' = bm_backups bm"
  by (metis run_pipe_frame snd_conv)

lemma runThroughCompressor_pair:
  "runThroughCompressor ev s c f bm = (r, bm') \<Longrightarrow> bm_backups bm' = bm_backups bm"
  by (auto simp: runThroughCompressor_def split: prod.splits pipe_outcome.splits option.splits dest!: run_pipe_pair)

lemma write_stream_pair: "write_stream ev s p c bm = (r, bm') \<Longrightarrow> bm_backups bm' = bm_backups bm"
  by (auto simp: write_stream_def bm_frame split: prod.splits option.splits
      dest!: runThroughCompressor_pair call_pairs)

lemma streamToFile_pair: "streamToFile ev s d b c bm = (r, bm') \<Longrightarrow> bm_backups bm' = bm_backups bm"
  by (auto simp: streamToFile_def Let_def split: prod.splits option.splits if_splits
      dest!: write_stream_pair call_pairs)

lemma runPipeline_pair: "runPipeline ev s c b bm = (r, bm') \<Longrightarrow> bm_backups bm' = bm_backups bm"
  by (auto simp: runPipeline_def split: prod.splits sum.splits if_splits pipe_outcome.splits option.splits
      dest!: streamToFile_pair run_pipe_pair)

lemma estimateSendSize_pair: "estimateSendSize ev a bm = (r, bm') \<Longrightarrow> bm_backups bm' = bm_backups bm"
  by (auto simp: estimateSendSize_def split: prod.splits option.splits dest!: run_cmd_pair)

lemma getSnapshotSize_pair: "getSnapshotSize ev d s bm = (r, bm') \<Longrightarrow> bm_backups bm' = bm_backups bm"
  by (auto simp: getSnapshotSize_def split: prod.splits option.splits dest!: run_cmd_pair)

lemma measureBackup_pair: "measureBackup ev a l d s bm = (r, bm') \<Longrightarrow> bm_backups bm' = bm_backups bm"
  by (auto simp: measureBackup_def Let_def split: prod.splits sum.splits if_splits
      dest!: estimateSendSize_pair getSnapshotSize_pair)

lemma destroySnapshotErr_pair: "destroySnapshotErr ev d s bm = (r, bm') \<Longrightarrow> bm_backups bm' = bm_backups bm"
  by (auto simp: destroySnapshotErr_def split: prod.splits option.splits if_splits dest!: run_cmd_pair)

lemma destroySnapshot_frame [bm_frame]: "bm_backups (destroySnapshot ev d s bm) = bm_backups bm"
  unfolding destroySnapshot_def by (metis destroySnapshotErr_pair prod.collapse)

lemma remove_stream_pair: "remove_stream ev l bm = (r, bm') \<Longrightarrow> bm_backups bm' = bm_backups bm"
  by (auto simp: remove_stream_def split: prod.splits option.splits if_splits bool.splits dest!: on_world_pair)

lemma removeBackupData_pair: "removeBackupData ev b bm = (r, bm') \<Longrightarrow> bm_backups bm' = bm_backups bm"
  by (auto simp: removeBackupData_def split: prod.splits option.splits if_splits
      dest!: destroySnapshotErr_pair remove_stream_pair)

lemma runRestorePipeline_pair:
  "runRestorePipeline ev c s n bm = (r, bm') \<Longrightarrow> bm_backups bm' = bm_backups bm"
  by (auto simp: runRestorePipeline_def runThroughDecompressor_def
      split: prod.splits option.splits if_splits sum.splits pipe_outcome.splits dest!: run_pipe_pair run_cmd_pair)

lemma restore_stream_pair: "restore_stream ev b t bm = (r, bm') \<Longrightarrow> bm_backups bm' = bm_backups bm"
  by (auto simp: restore_stream_def split: prod.splits option.splits dest!: runRestorePipeline_pair)

lemma restore_stream_frame [bm_frame]: "bm_backups (snd (restore_stream ev b t bm)) = bm_backups bm"
  by (metis restore_stream_pair prod.collapse)

lemma Restore_frame [bm_frame]: "bm_backups (snd (Restore ev b t bm)) = bm_backups bm"
  by (auto simp: Restore_def Let_def bm_frame split: option.split prod.split sum.split BackupType.split
      dest!: run_cmd_pair)

lemma verifyRawStream_pair: "verifyRawStream ev b bm = (r, bm') \<Longrightarrow> bm_backups bm' = bm_backups bm"
  by (auto simp: verifyRawStream_def split: prod.splits option.splits dest!: run_cmd_pair)

lemma verifyStream_pair: "verifyStream ev b bm = (r, bm') \<Longrightarrow> bm_backups bm' = bm_backups bm"
  by (auto simp: verifyStream_def split: prod.splits option.splits if_splits sum.splits
      dest!: run_cmd_pair verifyRawStream_pair)

lemma verifyBase_pair: "verifyBase ev b bm = (r, bm') \<Longrightarrow> bm_backups bm' = bm_backups bm"
  by (auto simp: verifyBase_def split: prod.splits option.splits if_splits dest!: run_cmd_pair)

lemma verify_checks_pair: "verify_checks ev b bm = (r, bm') \<Longrightarrow> bm_backups bm' = bm_backups bm"
  by (auto simp: verify_checks_def split: prod.splits option.splits if_splits
      dest!: run_cmd_pair verifyStream_pair verifyBase_pair)

lemma stop_schedule_frame [bm_frame]: "bm_backups (stop_schedule i bm) = bm_backups bm"
  by (simp add: stop_schedule_def split: option.split)

lemma bm_Stop_frame [bm_frame]: "bm_backups (bm_Stop ids bm) = bm_backups bm"
proof -
  have "bm_backups (fold stop_schedule ids bm) = bm_backups bm"
    by (induction ids arbitrary: bm) (simp_all add: bm_frame)
  then show ?thesis by (simp add: bm_Stop_def)
qed

lemma persistConfig_pair: "persistConfig ev i c bm = (r, bm') \<Longrightarrow> bm_backups bm' = bm_backups bm"
  by (auto simp: persistConfig_def split: prod.splits option.splits dest!: with_ds_pair)

lemma Configure_frame [bm_frame]: "bm_backups (snd (Configure ev i c bm)) = bm_backups bm"
  by (auto simp: Configure_def Let_def start_schedule_def bm_frame split: option.split prod.split
      dest!: persistConfig_pair)

lemma RemoveConfig_frame [bm_frame]: "bm_backups (RemoveConfig ev i bm) = bm_backups bm"
  by (simp add: RemoveConfig_def Let_def bm_frame)

section \<open>Finding a record\<close>

definition backups_at :: "(string \<rightharpoonup> backup_info list) \<Rightarrow> string \<Rightarrow> backup_info list" where
  "backups_at m k = (case m k of None \<Rightarrow> [] | Some bs \<Rightarrow> bs)"

lemma backups_at_upd [simp]: "backups_at (m(k \<mapsto> bs)) j = (if j = k then bs else backups_at m j)"
  by (simp add: backups_at_def)

lemma backups_at_Some: "m k = Some bs \<Longrightarrow> backups_at m k = bs"
  by (simp add: backups_at_def)

definition backup_records :: "(string \<rightharpoonup> backup_info list) \<Rightarrow> backup_info set" where
  "backup_records m = (\<Union>k. set (backups_at m k))"

lemma backup_recordsI: "r \<in> set (backups_at m k) \<Longrightarrow> r \<in> backup_records m"
  by (auto simp: backup_records_def)

text \<open>No two records of the manager have the same id.\<close>

definition ids_distinct :: "(string \<rightharpoonup> backup_info list) \<Rightarrow> bool" where
  "ids_distinct m \<longleftrightarrow>
     (\<forall>k. distinct (map bi_ID (backups_at m k))) \<and>
     (\<forall>k k'. \<forall>r \<in> set (backups_at m k). \<forall>s \<in> set (backups_at m k'). bi_ID r = bi_ID s \<longrightarrow> k = k')"

lemma ids_distinct_key:
  "ids_distinct m \<Longrightarrow> r \<in> set (backups_at m k) \<Longrightarrow> s \<in> set (backups_at m k') \<Longrightarrow> bi_ID r = bi_ID s \<Longrightarrow> k = k'"
  unfolding ids_distinct_def by blast

lemma ids_distinct_list: "ids_distinct m \<Longrightarrow> distinct (map bi_ID (backups_at m k))"
  unfolding ids_distinct_def by blast

lemma ids_distinct_eq:
  assumes "ids_distinct m" "r \<in> backup_records m" "s \<in> backup_records m" "bi_ID r = bi_ID s"
  shows "r = s"
proof -
  obtain k k' where k: "r \<in> set (backups_at m k)" "s \<in> set (backups_at m k')"
    using assms(2,3) by (auto simp: backup_records_def)
  then have "k = k'" by (rule ids_distinct_key [OF assms(1) _ _ assms(4)])
  then show ?thesis using k ids_distinct_list [OF assms(1), of k] assms(4) by (metis distinct_map inj_onD)
qed

lemma split_id_Some:
  "split_id i bs = Some (pre, b, post) \<Longrightarrow> bs = pre @ b # post \<and> bi_ID b = i \<and> i \<notin> bi_ID ` set pre"
  by (induction bs arbitrary: pre) (auto split: if_splits)

lemma split_id_None: "split_id i bs = None \<longleftrightarrow> i \<notin> bi_ID ` set bs"
  by (induction bs) (auto split: if_splits)

lemma search_id_eq:
  "search_id m (k # ks) i = (case split_id i (backups_at m k) of Some r \<Rightarrow> Some (k, r) | None \<Rightarrow> search_id m ks i)"
  by (simp add: backups_at_def)

lemma search_id_Some:
  "search_id m ks i = Some (k, pre, b, post) \<Longrightarrow> m k = Some (pre @ b # post) \<and> bi_ID b = i"
  by (induction ks) (auto split: option.splits dest!: split_id_Some)

lemma search_id_None:
  "search_id m ks i = None \<longleftrightarrow> (\<forall>k \<in> set ks. i \<notin> bi_ID ` set (backups_at m k))"
proof (induction ks)
  case (Cons k ks)
  then show ?case unfolding search_id_eq using split_id_None [of i "backups_at m k"] by (auto split: option.splits)
qed simp

text \<open>A range over the map visits every key.\<close>

abbreviation covers :: "'w backup_env \<Rightarrow> (string \<rightharpoonup> backup_info list) \<Rightarrow> bool" where
  "covers ev m \<equiv> dom m \<subseteq> set (be_Visit ev)"

lemma covers_visit: "covers ev m \<Longrightarrow> r \<in> set (backups_at m k) \<Longrightarrow> k \<in> set (be_Visit ev)"
  by (cases "m k") (auto simp: backups_at_def)

lemma search_id_finds:
  assumes "ids_distinct m" "covers ev m" "b \<in> set (backups_at m k)"
  obtains pre post where "search_id m (be_Visit ev) (bi_ID b) = Some (k, pre, b, post)"
    "backups_at m k = pre @ b # post"
proof -
  have "search_id m (be_Visit ev) (bi_ID b) \<noteq> None"
    using covers_visit [OF assms(2,3)] assms(3) by (auto simp: search_id_None)
  then obtain k' pre b' post where s: "search_id m (be_Visit ev) (bi_ID b) = Some (k', pre, b', post)" by auto
  from search_id_Some [OF s] have k': "backups_at m k' = pre @ b' # post" "bi_ID b' = bi_ID b"
    by (auto simp: backups_at_def)
  then have in': "b' \<in> set (backups_at m k')" by simp
  have "k' = k" by (rule ids_distinct_key [OF assms(1) in' assms(3) k'(2)])
  moreover have "b' = b" by (rule ids_distinct_eq [OF assms(1) _ _ k'(2)]) (rule backup_recordsI [OF in'], rule backup_recordsI [OF assms(3)])
  ultimately show thesis using that s k' by simp
qed

lemma set_ListAllBackups: "covers ev (bm_backups bm) \<Longrightarrow> set (ListAllBackups ev bm) = backup_records (bm_backups bm)"
  using covers_visit [of "bm_backups bm" ev]
  by (auto simp: ListAllBackups_def backup_records_def backups_at_def [symmetric]) blast

definition refers_to :: "backup_info \<Rightarrow> backup_info \<Rightarrow> bool" where
  "refers_to r b \<longleftrightarrow>
     bi_Dataset b \<noteq> [] \<and> bi_SnapshotName b \<noteq> [] \<and> bi_ID r \<noteq> bi_ID b \<and>
     bi_BaseSnapshot r = snapshot_ref (bi_Dataset b) (bi_SnapshotName b)"

lemma baseReferenceLocked_None:
  assumes "covers ev (bm_backups bm)"
  shows "baseReferenceLocked ev bm b = None \<longleftrightarrow> (\<forall>r \<in> backup_records (bm_backups bm). \<not> refers_to r b)"
  using set_ListAllBackups [OF assms]
  by (auto simp: baseReferenceLocked_def refers_to_def find_None_iff)

lemma isIncrementalBase_iff:
  "covers ev (bm_backups bm) \<Longrightarrow>
   isIncrementalBase ev bm b \<longleftrightarrow> (\<exists>r \<in> backup_records (bm_backups bm). refers_to r b)"
  unfolding isIncrementalBase_def by (auto simp: baseReferenceLocked_None)

section \<open>Deleting a record\<close>

text \<open>
  Every outcome of a deletion, on the records: nothing found or a base refused leaves them as they
  were, a failure to remove the data moves the record to the end, and otherwise it is gone.
\<close>

lemma DeleteBackup_cases [consumes 1, case_names missing refused kept gone]:
  assumes "DeleteBackup ev i bm = (res, bm')"
  obtains
    "search_id (bm_backups bm) (be_Visit ev) i = None" "bm' = bm" "res \<noteq> None"
  | k pre b post ref where "search_id (bm_backups bm) (be_Visit ev) i = Some (k, pre, b, post)"
      "baseReferenceLocked ev bm b = Some ref" "bm' = bm" "res \<noteq> None"
  | k pre b post where "search_id (bm_backups bm) (be_Visit ev) i = Some (k, pre, b, post)"
      "baseReferenceLocked ev bm b = None" "res \<noteq> None"
      "bm_backups bm' = (bm_backups bm)(k \<mapsto> pre @ post @ [b])"
      "fst (removeBackupData ev b (bm\<lparr>bm_backups := (bm_backups bm)(k \<mapsto> pre @ post)\<rparr>)) \<noteq> None"
  | k pre b post where "search_id (bm_backups bm) (be_Visit ev) i = Some (k, pre, b, post)"
      "baseReferenceLocked ev bm b = None"
      "bm_backups bm' = (bm_backups bm)(k \<mapsto> pre @ post)"
      "fst (removeBackupData ev b (bm\<lparr>bm_backups := (bm_backups bm)(k \<mapsto> pre @ post)\<rparr>)) = None"
proof (cases "search_id (bm_backups bm) (be_Visit ev) i")
  case None
  then have "bm' = bm" "res \<noteq> None" using assms by (auto simp: DeleteBackup_def)
  then show thesis by (rule that(1) [OF None])
next
  case (Some found)
  obtain k pre b post where s: "search_id (bm_backups bm) (be_Visit ev) i = Some (k, pre, b, post)"
    using Some by (cases found) auto
  show thesis
  proof (cases "baseReferenceLocked ev bm b")
    case (Some ref)
    then have "bm' = bm" "res \<noteq> None" using assms s by (auto simp: DeleteBackup_def)
    then show thesis by (rule that(2) [OF s Some])
  next
    case None
    let ?bm1 = "bm\<lparr>bm_backups := (bm_backups bm)(k \<mapsto> pre @ post)\<rparr>"
    obtain r bm2 where rd: "removeBackupData ev b ?bm1 = (r, bm2)" by fastforce
    have b2: "bm_backups bm2 = (bm_backups bm)(k \<mapsto> pre @ post)" using removeBackupData_pair [OF rd] by simp
    show thesis
    proof (cases r)
      case (Some e)
      then have "res = Some e" "bm' = append_record k b bm2" using assms s None rd by (simp_all add: DeleteBackup_def Let_def)
      then show thesis using that(3) [OF s None] rd b2 Some by (simp add: append_record_def)
    next
      case n: None
      then have "bm_backups bm' = bm_backups bm2"
        using assms s None rd by (auto simp: DeleteBackup_def Let_def split: prod.splits option.splits dest!: with_ds_pair)
      then show thesis using that(4) [OF s None] rd b2 n by simp
    qed
  qed
qed

lemma backup_records_upd:
  assumes "ids_distinct m"
  shows "backup_records (m(k \<mapsto> bs')) = (backup_records m - set (backups_at m k)) \<union> set bs'"
proof -
  have "r \<notin> set (backups_at m k)" if "r \<in> set (backups_at m k')" "k' \<noteq> k" for r k'
    using ids_distinct_key [OF assms that(1), of r k] that(2) by blast
  then show ?thesis by (auto simp: backup_records_def split: if_splits)
qed

lemma backup_records_add: "backup_records (m(k \<mapsto> backups_at m k @ [r])) = insert r (backup_records m)"
  by (auto simp: backup_records_def split: if_splits)

lemma ids_distinct_upd:
  assumes "ids_distinct m" "distinct (map bi_ID bs')" "set bs' \<subseteq> set (backups_at m k)"
  shows "ids_distinct (m(k \<mapsto> bs'))"
proof -
  have sub: "set (backups_at (m(k \<mapsto> bs')) j) \<subseteq> set (backups_at m j)" for j using assms(3) by simp
  show ?thesis
    unfolding ids_distinct_def using assms(2) ids_distinct_list [OF assms(1)] ids_distinct_key [OF assms(1)] sub
    by (metis backups_at_upd subsetD)
qed

lemma ids_distinct_add:
  assumes "ids_distinct m" "\<forall>s \<in> backup_records m. bi_ID s \<noteq> bi_ID r"
  shows "ids_distinct (m(k \<mapsto> backups_at m k @ [r]))"
proof -
  have new: "bi_ID s \<noteq> bi_ID r" if "s \<in> set (backups_at m j)" for s j
    using assms(2) backup_recordsI [OF that] by blast
  then have "bi_ID r \<notin> bi_ID ` set (backups_at m k)" by (metis imageE)
  then have "distinct (map bi_ID (backups_at m k @ [r]))" using ids_distinct_list [OF assms(1), of k] by simp
  then show ?thesis
    unfolding ids_distinct_def using ids_distinct_list [OF assms(1)] ids_distinct_key [OF assms(1)] new
    by (auto split: if_splits) (metis+)
qed

text \<open>A deletion drops at most the record named, and no other record refers to what it dropped.\<close>

lemma DeleteBackup_records:
  assumes "DeleteBackup ev i bm = (res, bm')" "ids_distinct (bm_backups bm)" "covers ev (bm_backups bm)"
  shows "ids_distinct (bm_backups bm')" "dom (bm_backups bm') = dom (bm_backups bm)"
    "backup_records (bm_backups bm') = backup_records (bm_backups bm) \<or>
     (\<exists>b \<in> backup_records (bm_backups bm). bi_ID b = i \<and>
        backup_records (bm_backups bm') = backup_records (bm_backups bm) - {b} \<and>
        (\<forall>r \<in> backup_records (bm_backups bm). \<not> refers_to r b))"
proof -
  let ?m = "bm_backups bm"
  have "ids_distinct (bm_backups bm') \<and> dom (bm_backups bm') = dom ?m \<and>
    (backup_records (bm_backups bm') = backup_records ?m \<or>
     (\<exists>b \<in> backup_records ?m. bi_ID b = i \<and> backup_records (bm_backups bm') = backup_records ?m - {b} \<and>
        (\<forall>r \<in> backup_records ?m. \<not> refers_to r b)))"
    using assms(1)
  proof (cases rule: DeleteBackup_cases)
    case (kept k pre b post)
    from search_id_Some [OF kept(1)] have k: "?m k = Some (pre @ b # post)" by blast
    then have at: "backups_at ?m k = pre @ b # post" by (rule backups_at_Some)
    then have "distinct (map bi_ID (pre @ post @ [b]))" using ids_distinct_list [OF assms(2), of k] by auto
    then have "ids_distinct (?m(k \<mapsto> pre @ post @ [b]))"
      by (rule ids_distinct_upd [OF assms(2)]) (auto simp: at)
    moreover have "backup_records (?m(k \<mapsto> pre @ post @ [b])) = backup_records ?m"
      unfolding backup_records_upd [OF assms(2)] using at backup_recordsI [of _ ?m k] by auto
    ultimately show ?thesis using kept(4) k by auto
  next
    case (gone k pre b post)
    from search_id_Some [OF gone(1)] have k: "?m k = Some (pre @ b # post)" "bi_ID b = i" by auto
    then have at: "backups_at ?m k = pre @ b # post" by (simp add: backups_at_Some)
    then have d: "distinct (map bi_ID (pre @ b # post))" using ids_distinct_list [OF assms(2), of k] by simp
    then have "distinct (map bi_ID (pre @ post))" by auto
    then have "ids_distinct (?m(k \<mapsto> pre @ post))" by (rule ids_distinct_upd [OF assms(2)]) (auto simp: at)
    moreover have "backup_records (?m(k \<mapsto> pre @ post)) = backup_records ?m - {b}"
      unfolding backup_records_upd [OF assms(2)] using at d backup_recordsI [of _ ?m k] by auto
    moreover have "b \<in> backup_records ?m" by (rule backup_recordsI [of _ _ k]) (simp add: at)
    ultimately show ?thesis using gone(2,3) k baseReferenceLocked_None [OF assms(3)] by auto
  qed (use assms in auto)
  then show "ids_distinct (bm_backups bm')" "dom (bm_backups bm') = dom (bm_backups bm)"
    "backup_records (bm_backups bm') = backup_records (bm_backups bm) \<or>
     (\<exists>b \<in> backup_records (bm_backups bm). bi_ID b = i \<and>
        backup_records (bm_backups bm') = backup_records (bm_backups bm) - {b} \<and>
        (\<forall>r \<in> backup_records (bm_backups bm). \<not> refers_to r b))" by blast+
qed

section \<open>Restore chains\<close>

text \<open>
  A full stream can be restored from what is stored; an incremental one when the backup it was sent
  against is recorded and can be restored.
\<close>

inductive restorable :: "backup_info set \<Rightarrow> backup_info \<Rightarrow> bool" for R where
  full: "r \<in> R \<Longrightarrow> bi_Type r = BackupTypeFull \<Longrightarrow> bi_Status r = BackupStatusCompleted \<Longrightarrow> bi_Location r \<noteq> [] \<Longrightarrow>
         restorable R r"
| incr: "r \<in> R \<Longrightarrow> bi_Type r = BackupTypeIncr \<Longrightarrow> bi_Status r = BackupStatusCompleted \<Longrightarrow> bi_Location r \<noteq> [] \<Longrightarrow>
         refers_to r b \<Longrightarrow> restorable R b \<Longrightarrow> restorable R r"

definition stream_backup :: "backup_info \<Rightarrow> bool" where
  "stream_backup r \<longleftrightarrow>
     bi_Status r = BackupStatusCompleted \<and> (bi_Type r = BackupTypeFull \<or> bi_Type r = BackupTypeIncr)"

lemma restorable_mono: "restorable R r \<Longrightarrow> R \<subseteq> S \<Longrightarrow> restorable S r"
  by (induction rule: restorable.induct) (auto intro: restorable.intros)

lemma restorable_remove:
  "restorable R r \<Longrightarrow> \<forall>s \<in> R. \<not> refers_to s b \<Longrightarrow> r \<noteq> b \<Longrightarrow> restorable (R - {b}) r"
proof (induction rule: restorable.induct)
  case (incr r b')
  then have "b' \<noteq> b" by blast
  with incr show ?case by (intro restorable.incr [of r _ b']) auto
qed (auto intro: restorable.full)

definition chains_ok :: "(string \<rightharpoonup> backup_info list) \<Rightarrow> bool" where
  "chains_ok m \<longleftrightarrow>
     ids_distinct m \<and> (\<forall>r \<in> backup_records m. bi_SnapshotName r \<noteq> []) \<and>
     (\<forall>r \<in> backup_records m. stream_backup r \<longrightarrow> restorable (backup_records m) r)"

lemma chains_ok_delete:
  assumes "DeleteBackup ev i bm = (res, bm')" "chains_ok (bm_backups bm)" "covers ev (bm_backups bm)"
  shows "chains_ok (bm_backups bm')" "dom (bm_backups bm') = dom (bm_backups bm)"
proof -
  have d: "ids_distinct (bm_backups bm)" using assms(2) by (simp add: chains_ok_def)
  note del = DeleteBackup_records [OF assms(1) d assms(3)]
  show "dom (bm_backups bm') = dom (bm_backups bm)" by (rule del(2))
  from del(3) show "chains_ok (bm_backups bm')"
  proof
    assume "backup_records (bm_backups bm') = backup_records (bm_backups bm)"
    then show ?thesis using assms(2) del(1) by (simp add: chains_ok_def)
  next
    assume "\<exists>b \<in> backup_records (bm_backups bm). bi_ID b = i \<and>
        backup_records (bm_backups bm') = backup_records (bm_backups bm) - {b} \<and>
        (\<forall>r \<in> backup_records (bm_backups bm). \<not> refers_to r b)"
    then obtain b where b: "backup_records (bm_backups bm') = backup_records (bm_backups bm) - {b}"
      "\<forall>r \<in> backup_records (bm_backups bm). \<not> refers_to r b" by blast
    have "restorable (backup_records (bm_backups bm) - {b}) r"
      if "r \<in> backup_records (bm_backups bm)" "r \<noteq> b" "stream_backup r" for r
      using restorable_remove [OF _ b(2) that(2)] assms(2) that by (simp add: chains_ok_def)
    then show ?thesis using assms(2) del(1) b(1) by (simp add: chains_ok_def)
  qed
qed

lemma chains_ok_retention_loop:
  assumes "chains_ok (bm_backups bm)" "covers ev (bm_backups bm)"
  shows "chains_ok (bm_backups (retention_loop ev policy now keep bs bm)) \<and>
     dom (bm_backups (retention_loop ev policy now keep bs bm)) = dom (bm_backups bm)"
  using assms
proof (induction bs arbitrary: bm)
  case (Cons b bs)
  obtain res bm' where d: "DeleteBackup ev (bi_ID b) bm = (res, bm')" by fastforce
  from chains_ok_delete [OF d Cons.prems] Cons.prems Cons.IH [of bm] Cons.IH [of bm'] d show ?case by simp
qed simp

lemma chains_ok_applyRetention:
  assumes "chains_ok (bm_backups bm)" "covers ev (bm_backups bm)"
  shows "chains_ok (bm_backups (applyRetention ev i policy bm))"
  using chains_ok_retention_loop [OF assms] assms by (simp add: applyRetention_def Let_def)

section \<open>Creating keeps the chains\<close>

lemma fold_newer_record:
  "fold newer_record bs None = Some n \<Longrightarrow> n \<in> set bs \<and> previous_candidate n"
proof -
  have "fold newer_record bs acc = Some n \<Longrightarrow> (n \<in> set bs \<and> previous_candidate n) \<or> acc = Some n" for acc
    by (induction bs arbitrary: acc) (auto simp: newer_record_def split: if_splits option.splits)
  then show "fold newer_record bs None = Some n \<Longrightarrow> ?thesis" by blast
qed

lemma findPreviousSnapshot_candidate:
  assumes "findPreviousSnapshot bm i \<noteq> []"
  obtains n where "n \<in> set (backups_at (bm_backups bm) i)" "previous_candidate n"
    "findPreviousSnapshot bm i = snapshot_ref (bi_Dataset n) (bi_SnapshotName n)"
  using assms fold_newer_record [of "backups_of bm i"]
  by (cases "fold newer_record (backups_of bm i) None")
    (auto simp: findPreviousSnapshot_def backups_at_def)

lemma chains_ok_add:
  assumes "chains_ok m" "\<forall>s \<in> backup_records m. bi_ID s \<noteq> bi_ID r" "bi_SnapshotName r \<noteq> []"
    "stream_backup r \<Longrightarrow> restorable (insert r (backup_records m)) r"
  shows "chains_ok (m(i \<mapsto> backups_at m i @ [r]))"
proof -
  have "ids_distinct (m(i \<mapsto> backups_at m i @ [r]))"
    using assms(1,2) by (intro ids_distinct_add) (simp_all add: chains_ok_def)
  moreover have "restorable (insert r (backup_records m)) s" if "s \<in> backup_records m" "stream_backup s" for s
    using assms(1) that restorable_mono [of "backup_records m" s] by (auto simp: chains_ok_def)
  ultimately show ?thesis
    using assms by (simp add: chains_ok_def backup_records_add del: backups_at_upd)
qed

lemma addBackup_at: "bm_backups (addBackup ev i r bm) = (bm_backups bm)(i \<mapsto> backups_at (bm_backups bm) i @ [r])"
  by (simp add: addBackup_backups backups_at_def)

lemma runPipeline_location: "runPipeline ev s c b bm = ((Inr location, out), bm') \<Longrightarrow> location \<noteq> []"
proof -
  have J: "Join dir e \<noteq> []" if "IsAbs dir" for dir e using that by (simp add: Join_def Let_def abs_string_def)
  have W: "write_stream ev s p cc bm1 = (Inr location, bm2) \<Longrightarrow> location = p" for p cc bm1 bm2
    by (auto simp: write_stream_def split: prod.splits option.splits)
  show "runPipeline ev s c b bm = ((Inr location, out), bm') \<Longrightarrow> location \<noteq> []"
    by (auto simp: runPipeline_def streamToFile_def Let_def stream_path_def J
        split: prod.splits sum.splits if_splits pipe_outcome.splits option.splits dest!: W)
qed

text \<open>The second a backup is named after is not taken yet.\<close>

definition backup_id_fresh :: "'w backup_env \<Rightarrow> string \<Rightarrow> 'w backup_manager \<Rightarrow> bool" where
  "backup_id_fresh ev i bm \<longleftrightarrow>
     (\<forall>r \<in> backup_records (bm_backups bm). bi_ID r \<noteq> i @ ''-'' @ be_Format ev (be_Now ev (bm_world bm)))"

lemma chains_ok_addBackup:
  assumes "chains_ok (bm_backups bm)" "\<forall>s \<in> backup_records (bm_backups bm). bi_ID s \<noteq> bi_ID r"
    "bi_SnapshotName r \<noteq> []" "stream_backup r \<Longrightarrow> restorable (insert r (backup_records (bm_backups bm))) r"
  shows "chains_ok (bm_backups (addBackup ev i r bm))"
  unfolding addBackup_at by (rule chains_ok_add [OF assms])

lemma covers_addBackup:
  "covers ev (bm_backups bm) \<Longrightarrow> i \<in> set (be_Visit ev) \<Longrightarrow> covers ev (bm_backups (addBackup ev i r bm))"
  by (auto simp: addBackup_at)

lemma new_backup_info_simps [simp]:
  "bi_ID (new_backup_info i ts ty now ds dest) = i @ ''-'' @ ts"
  "bi_SnapshotName (new_backup_info i ts ty now ds dest) = ''hospitus-backup-'' @ ts"
  "bi_Dataset (new_backup_info i ts ty now ds dest) = ds"
  "bi_Type (new_backup_info i ts ty now ds dest) = ty"
  "bi_Status (new_backup_info i ts ty now ds dest) = BackupStatusRunning"
  "bi_BaseSnapshot (new_backup_info i ts ty now ds dest) = []"
  "bi_Location (new_backup_info i ts ty now ds dest) = []"
  by (simp_all add: new_backup_info_def)

lemma failed_info_simps [simp]:
  "bi_ID (failed_info e info) = bi_ID info"
  "bi_SnapshotName (failed_info e info) = bi_SnapshotName info"
  "bi_Status (failed_info e info) = BackupStatusFailed"
  by (simp_all add: failed_info_def)

lemma not_stream_failed: "\<not> stream_backup (failed_info e info)"
  by (simp add: stream_backup_def)

lemma chains_ok_CreateSnapshot:
  assumes "chains_ok (bm_backups bm)" "covers ev (bm_backups bm)" "i \<in> set (be_Visit ev)" "backup_id_fresh ev i bm"
  shows "chains_ok (bm_backups (snd (CreateSnapshot ev i bm)))"
proof -
  have add: "chains_ok (bm_backups (addBackup ev i r bm'))"
    if "bm_backups bm' = bm_backups bm" "bi_ID r = i @ ''-'' @ be_Format ev (be_Now ev (bm_world bm))"
      "bi_SnapshotName r \<noteq> []" "\<not> stream_backup r" for r and bm' :: "'a backup_manager"
    using that assms by (intro chains_ok_addBackup) (auto simp: backup_id_fresh_def)
  have cov: "covers ev (bm_backups (addBackup ev i r bm'))" if "bm_backups bm' = bm_backups bm" for r bm'
    using that assms by (intro covers_addBackup) auto
  show ?thesis
    using assms(1)
    by (auto simp: CreateSnapshot_def Let_def stream_backup_def take_snapshot_def bm_frame
        split: sum.split prod.split option.split
        dest!: hook_if_pair run_cmd_pair getSnapshotSize_pair intro!: add chains_ok_applyRetention cov)
qed

lemma send_plan_info:
  assumes "send_plan bm i ty info = (args, info')" "bi_Type info = ty"
  obtains "bi_ID info' = bi_ID info" "bi_SnapshotName info' = bi_SnapshotName info" "bi_Type info' \<noteq> BackupTypeIncr"
  | n where "bi_ID info' = bi_ID info" "bi_SnapshotName info' = bi_SnapshotName info"
      "n \<in> backup_records (bm_backups bm)" "previous_candidate n"
      "bi_BaseSnapshot info' = snapshot_ref (bi_Dataset n) (bi_SnapshotName n)"
proof (cases "ty = BackupTypeIncr \<and> findPreviousSnapshot bm i \<noteq> []")
  case True
  then obtain n where n: "n \<in> set (backups_at (bm_backups bm) i)" "previous_candidate n"
    "findPreviousSnapshot bm i = snapshot_ref (bi_Dataset n) (bi_SnapshotName n)"
    using findPreviousSnapshot_candidate [of bm i] by blast
  with True assms show thesis by (intro that(2) [of n]) (auto simp: send_plan_def Let_def intro: backup_recordsI)
qed (use assms that in \<open>auto simp: send_plan_def Let_def split: if_splits\<close>)

lemma finished_restorable:
  assumes "chains_ok (bm_backups bm)" "send_plan bm i ty info = (args, info2)" "bi_Type info = ty"
    "\<forall>s \<in> backup_records (bm_backups bm). bi_ID s \<noteq> bi_ID info"
    "bi_Type r = bi_Type info2" "bi_ID r = bi_ID info2" "bi_BaseSnapshot r = bi_BaseSnapshot info2"
    "bi_Status r = BackupStatusCompleted" "bi_Location r \<noteq> []" "stream_backup r"
  shows "restorable (insert r (backup_records (bm_backups bm))) r"
  using assms(2,3)
proof (cases rule: send_plan_info)
  case 1
  then show ?thesis using assms(5,8-10) by (intro restorable.full) (auto simp: stream_backup_def)
next
  case (2 n)
  have "stream_backup n" using 2(4) by (simp add: stream_backup_def previous_candidate_def)
  then have "restorable (backup_records (bm_backups bm)) n" "bi_SnapshotName n \<noteq> []"
    using assms(1) 2(3) by (simp_all add: chains_ok_def)
  then have n: "restorable (insert r (backup_records (bm_backups bm))) n" using restorable_mono by blast
  have ref: "refers_to r n"
    using 2 assms(4,6,7) \<open>bi_SnapshotName n \<noteq> []\<close> by (auto simp: refers_to_def previous_candidate_def)
  show ?thesis
  proof (cases "bi_Type r = BackupTypeIncr")
    case True
    then show ?thesis using assms(8,9) n ref by (intro restorable.incr [of r _ n]) auto
  next
    case False
    then show ?thesis using assms(8-10) by (intro restorable.full) (auto simp: stream_backup_def)
  qed
qed

lemma send_plan_keeps:
  "send_plan bm i ty info = (args, info') \<Longrightarrow>
   bi_ID info' = bi_ID info \<and> bi_SnapshotName info' = bi_SnapshotName info"
  by (auto simp: send_plan_def Let_def split: if_splits)

lemma chains_ok_finish:
  assumes "chains_ok (bm_backups bm)" "covers ev (bm_backups bm)" "i \<in> set (be_Visit ev)"
    "send_plan bm i ty info = (args, info2)" "bi_Type info = ty" "bi_SnapshotName info \<noteq> []"
    "\<forall>s \<in> backup_records (bm_backups bm). bi_ID s \<noteq> bi_ID info" "location \<noteq> []"
    "bm_backups bm' = bm_backups bm"
  shows "chains_ok (bm_backups (snd (finish_backup ev i config args info2 location bm')))"
proof -
  obtain sz bm1 where m: "measureBackup ev args location (bi_Dataset info2) (bi_SnapshotName info2) bm' = (sz, bm1)"
    by fastforce
  define bm2 where "bm2 = snd (hook_if ev (bc_PostBackupHook config) i bm1)"
  define r where "r = info2\<lparr>bi_Location := location, bi_Compressed := (decompressorFor location \<noteq> None), bi_Size := sz,
                           bi_Status := BackupStatusCompleted, bi_CompletedAt := be_Now ev (bm_world bm2)\<rparr>"
  have b2: "bm_backups bm2 = bm_backups bm"
    using measureBackup_pair [OF m] assms(9) by (simp add: bm2_def bm_frame)
  have k: "bi_ID info2 = bi_ID info" "bi_SnapshotName info2 = bi_SnapshotName info" using send_plan_keeps [OF assms(4)] by auto
  have "chains_ok (bm_backups (addBackup ev i r bm2))"
    unfolding addBackup_at b2
  proof (rule chains_ok_add [OF assms(1)])
    show "restorable (insert r (backup_records (bm_backups bm))) r" if "stream_backup r"
      by (rule finished_restorable [OF assms(1,4,5,7) _ _ _ _ _ that]) (simp_all add: r_def assms(8))
  qed (use assms(6,7) k in \<open>simp_all add: r_def\<close>)
  moreover have "covers ev (bm_backups (addBackup ev i r bm2))"
    using assms(2,3) b2 by (intro covers_addBackup) auto
  ultimately show ?thesis
    using chains_ok_applyRetention by (simp add: finish_backup_def m Let_def bm2_def [symmetric] r_def [symmetric] del: not_None_eq)
qed

lemma chains_ok_CreateBackup:
  assumes "chains_ok (bm_backups bm)" "covers ev (bm_backups bm)" "i \<in> set (be_Visit ev)" "backup_id_fresh ev i bm"
  shows "chains_ok (bm_backups (snd (CreateBackup ev i ty bm)))"
proof -
  have add: "chains_ok (bm_backups (addBackup ev i r bm'))"
    if "bm_backups bm' = bm_backups bm" "bi_ID r = i @ ''-'' @ be_Format ev (be_Now ev (bm_world bm))"
      "bi_SnapshotName r \<noteq> []" "\<not> stream_backup r" for r and bm' :: "'a backup_manager"
    using that assms by (intro chains_ok_addBackup) (auto simp: backup_id_fresh_def)
  have fin: "chains_ok (bm_backups (snd (finish_backup ev i config args info2 location bm3)))"
    if "runPipeline ev s c bid bm2 = ((Inr location, out), bm3)"
      "send_plan bm2 i ty (new_backup_info i (be_Format ev (be_Now ev (bm_world bm))) ty now ds dest) = (args, info2)"
      "bm_backups bm2 = bm_backups bm"
    for config args info2 location now ds dest s c bid out and bm2 bm3 :: "'a backup_manager"
    using assms that(3) runPipeline_pair [OF that(1)] runPipeline_location [OF that(1)]
    by (intro chains_ok_finish [OF _ _ _ that(2)]) (auto simp: backup_id_fresh_def)
  have fail: "chains_ok (bm_backups (addBackup ev i (failed_info e info2) (destroySnapshot ev d n bm3)))"
    if "runPipeline ev s c bid bm2 = ((Inl err, out), bm3)"
      "send_plan bm2 i ty (new_backup_info i (be_Format ev (be_Now ev (bm_world bm))) ty now ds dest) = (args, info2)"
      "bm_backups bm2 = bm_backups bm"
    for e info2 args now ds dest s c bid err out d n and bm2 bm3 :: "'a backup_manager"
    using send_plan_keeps [OF that(2)] that(3) runPipeline_pair [OF that(1)]
    by (intro add) (simp_all add: not_stream_failed bm_frame)
  show ?thesis
    using assms(1)
    by (auto simp: CreateBackup_def Let_def take_snapshot_def split: sum.split prod.split option.split
        dest!: hook_if_pair run_cmd_pair intro: fail fin add simp: not_stream_failed)
qed

section \<open>Verification marks keep the chains\<close>

definition same_chain :: "backup_info \<Rightarrow> backup_info \<Rightarrow> bool" where
  "same_chain a b \<longleftrightarrow>
     bi_ID a = bi_ID b \<and> bi_Type a = bi_Type b \<and> bi_Status a = bi_Status b \<and> bi_Location a = bi_Location b \<and>
     bi_Dataset a = bi_Dataset b \<and> bi_SnapshotName a = bi_SnapshotName b \<and> bi_BaseSnapshot a = bi_BaseSnapshot b"

lemma restorable_map:
  assumes "restorable R r" "\<And>x. same_chain (f x) x"
  shows "restorable (f ` R) (f r)"
  using assms(1)
proof (induction rule: restorable.induct)
  case (full r)
  from assms(2) have "same_chain (f r) r" .
  with full show ?case by (intro restorable.full) (simp_all add: same_chain_def)
next
  case (incr r b)
  have "same_chain (f r) r" "same_chain (f b) b" by (rule assms(2))+
  with incr have "refers_to (f r) (f b)" by (simp add: same_chain_def refers_to_def)
  with incr \<open>same_chain (f r) r\<close> show ?case
    by (intro restorable.incr [of "f r" _ "f b"]) (simp_all add: same_chain_def)
qed

lemma chains_ok_map:
  assumes "chains_ok m" "\<And>x. same_chain (f x) x"
    "\<And>k. map f (backups_at m k) = backups_at m' k"
  shows "chains_ok m'"
proof -
  have R: "backup_records m' = f ` backup_records m"
    by (auto simp: backup_records_def assms(3) [symmetric])
  have id: "bi_ID (f x) = bi_ID x" "bi_SnapshotName (f x) = bi_SnapshotName x" "stream_backup (f x) = stream_backup x" for x
    using assms(2) [of x] by (simp_all add: same_chain_def stream_backup_def)
  have "ids_distinct m'"
    using assms(1) unfolding chains_ok_def ids_distinct_def by (simp add: assms(3) [symmetric] id comp_def)
  then show ?thesis using assms(1) restorable_map [OF _ assms(2)] by (auto simp: chains_ok_def R id)
qed

lemma mark_verified_chains:
  assumes "chains_ok (bm_backups bm)"
  shows "chains_ok (bm_backups (mark_verified ev i bm))"
proof (cases "search_id (bm_backups bm) (be_Visit ev) i")
  case None
  then show ?thesis using assms by (simp add: mark_verified_def)
next
  case (Some found)
  then obtain k pre b post where s: "search_id (bm_backups bm) (be_Visit ev) i = Some (k, pre, b, post)"
    by (cases found) auto
  let ?m = "bm_backups bm" and ?f = "\<lambda>x. if x = b then b\<lparr>bi_Verified := True\<rparr> else x"
  have at: "backups_at ?m k = pre @ b # post" using search_id_Some [OF s] by (simp add: backups_at_def)
  have d: "ids_distinct ?m" using assms by (simp add: chains_ok_def)
  have "b \<notin> set pre" "b \<notin> set post" using ids_distinct_list [OF d, of k] at by auto
  then have "map ?f pre = pre" "map ?f post = post" by (auto intro!: map_idI)
  then have "map ?f (pre @ b # post) = pre @ b\<lparr>bi_Verified := True\<rparr> # post" by simp
  moreover have "map ?f (backups_at ?m j) = backups_at ?m j" if "j \<noteq> k" for j
  proof -
    have "b \<notin> set (backups_at ?m j)"
      using ids_distinct_key [OF d, of b j b k] at that by auto
    then show ?thesis by (auto intro!: map_idI)
  qed
  ultimately have "map ?f (backups_at ?m j) = backups_at (?m(k \<mapsto> pre @ b\<lparr>bi_Verified := True\<rparr> # post)) j" for j
    using at by simp
  then show ?thesis
    using chains_ok_map [OF assms, of ?f] s by (simp add: mark_verified_def bm_frame same_chain_def)
qed

lemma chains_ok_VerifyBackup:
  assumes "chains_ok (bm_backups bm)"
  shows "chains_ok (bm_backups (snd (VerifyBackup ev i bm)))"
proof (cases "findBackup ev bm i")
  case (Some b)
  obtain e bm1 where v: "verify_checks ev b bm = (e, bm1)" by fastforce
  have "chains_ok (bm_backups bm1)" using verify_checks_pair [OF v] assms by simp
  then show ?thesis using mark_verified_chains [of bm1] v Some by (cases e) (simp_all add: VerifyBackup_def)
qed (use assms in \<open>simp add: VerifyBackup_def\<close>)

section \<open>Every stored stream stays restorable\<close>

text \<open>
  The operations of the manager in any order, each with any behaviour of commands, files and store, under
  the lock one at a time. A backup is not named like one that is already recorded: ids carry the second a
  backup was started in.
\<close>

inductive bm_step :: "'w backup_manager \<Rightarrow> 'w backup_manager \<Rightarrow> bool" where
  st_configure: "bm_step bm (snd (Configure ev i c bm))"
| st_remove_config: "bm_step bm (RemoveConfig ev i bm)"
| st_stop: "bm_step bm (bm_Stop ids bm)"
| st_snapshot: "covers ev (bm_backups bm) \<Longrightarrow> i \<in> set (be_Visit ev) \<Longrightarrow> backup_id_fresh ev i bm \<Longrightarrow>
    bm_step bm (snd (CreateSnapshot ev i bm))"
| st_backup: "covers ev (bm_backups bm) \<Longrightarrow> i \<in> set (be_Visit ev) \<Longrightarrow> backup_id_fresh ev i bm \<Longrightarrow>
    bm_step bm (snd (CreateBackup ev i ty bm))"
| st_restore: "bm_step bm (snd (Restore ev b target bm))"
| st_verify: "bm_step bm (snd (VerifyBackup ev b bm))"
| st_delete: "covers ev (bm_backups bm) \<Longrightarrow> bm_step bm (snd (DeleteBackup ev b bm))"

lemma chains_ok_step: "bm_step bm bm' \<Longrightarrow> chains_ok (bm_backups bm) \<Longrightarrow> chains_ok (bm_backups bm')"
proof (induction rule: bm_step.induct)
  case (st_delete ev bm b)
  then show ?case using chains_ok_delete(1) by (metis prod.collapse)
qed (simp_all add: bm_frame chains_ok_CreateSnapshot chains_ok_CreateBackup chains_ok_VerifyBackup)

lemma chains_ok_reachable:
  assumes "bm_step\<^sup>*\<^sup>* (NewBackupManager dir w) bm"
  shows "chains_ok (bm_backups bm)"
  using assms
proof (induction rule: rtranclp_induct)
  case base
  have "backup_records Map.empty = {}" by (simp add: backup_records_def backups_at_def)
  then show ?case by (simp add: NewBackupManager_def chains_ok_def ids_distinct_def backups_at_def)
qed (rule chains_ok_step)


end
