(* ===== verification/Backup_Retention.thy ===== *)
theory Backup_Retention
  imports Backup_Thms
begin

text \<open>
  Retention: what the interval rules select is compared with a direct definition, and a pass is
  shown to remove exactly what no rule, age or later incremental backup protects. The exact outcome of
  a deletion is here too.
\<close>

section \<open>The newest buckets\<close>

text \<open>The reference: a backup is the newest of its bucket, and fewer than \<open>count\<close> buckets are newer.\<close>

definition interval_keeps :: "int \<Rightarrow> int \<Rightarrow> backup_info list \<Rightarrow> backup_info \<Rightarrow> bool" where
  "interval_keeps interval count bs b \<longleftrightarrow>
     find (\<lambda>x. bucket_of interval x = bucket_of interval b) bs = Some b \<and>
     int (card (set (filter (\<lambda>k. bucket_of interval b < k) (map (bucket_of interval) bs)))) < count"

definition policy_keeps :: "retention_policy \<Rightarrow> backup_info list \<Rightarrow> backup_info \<Rightarrow> bool" where
  "policy_keeps policy bs b \<longleftrightarrow>
     b \<in> set (take (nat (KeepLast policy)) bs) \<or>
     interval_keeps hour (KeepHourly policy) bs b \<or>
     interval_keeps (24 * hour) (KeepDaily policy) bs b \<or>
     interval_keeps (7 * 24 * hour) (KeepWeekly policy) bs b \<or>
     interval_keeps (30 * 24 * hour) (KeepMonthly policy) bs b"

lemma map_of_fill:
  "map_of (fill_buckets iv bs acc) k =
   (case map_of acc k of Some v \<Rightarrow> Some v | None \<Rightarrow> find (\<lambda>x. bucket_of iv x = k) bs)"
proof (induction bs arbitrary: acc)
  case (Cons b bs)
  show ?case
  proof (cases "map_of acc (bucket_of iv b)")
    case None
    with Cons.IH [of "acc @ [(bucket_of iv b, b)]"] show ?thesis
      by (cases "bucket_of iv b = k") (auto simp: map_add_def split: option.split)
  next
    case (Some v)
    with Cons.IH [of acc] show ?thesis by (auto split: option.split)
  qed
qed (simp split: option.split)

lemma fill_keys:
  "distinct (map fst acc) \<Longrightarrow>
   distinct (map fst (fill_buckets iv bs acc)) \<and>
   fst ` set (fill_buckets iv bs acc) = fst ` set acc \<union> bucket_of iv ` set bs"
proof (induction bs arbitrary: acc)
  case (Cons b bs)
  show ?case
  proof (cases "map_of acc (bucket_of iv b)")
    case None
    then have "bucket_of iv b \<notin> fst ` set acc" by (simp add: map_of_eq_None_iff)
    with Cons.prems None Cons.IH [of "acc @ [(bucket_of iv b, b)]"] show ?thesis by auto
  next
    case (Some v)
    then have "bucket_of iv b \<in> fst ` set acc" by (force dest: map_of_SomeD)
    with Cons.prems Some Cons.IH [of acc] show ?thesis by auto
  qed
qed simp

lemma take_descending:
  assumes "sorted_wrt (>) (xs :: int list)" "k \<in> set xs"
  shows "k \<in> set (take n xs) \<longleftrightarrow> card {x \<in> set xs. k < x} < n"
  using assms
proof (induction xs arbitrary: n)
  case (Cons x xs)
  show ?case
  proof (cases "k = x")
    case True
    then have none: "{y \<in> set (x # xs). k < y} = {}" using Cons.prems(1) by auto
    show ?thesis unfolding none using True by (cases n) auto
  next
    case False
    then have k: "k \<in> set xs" "k < x" using Cons.prems by auto
    then have "x \<notin> {y \<in> set xs. k < y}" using Cons.prems(1) by auto
    moreover have "{y \<in> set (x # xs). k < y} = insert x {y \<in> set xs. k < y}" using k by auto
    ultimately have "card {y \<in> set (x # xs). k < y} = Suc (card {y \<in> set xs. k < y})" by simp
    then show ?thesis using Cons.IH [of "n - 1"] Cons.prems(1) k False by (cases n) auto
  qed
qed simp

lemma take_rev_sort:
  assumes "distinct (ks :: int list)" "k \<in> set ks"
  shows "k \<in> set (take n (rev (sort ks))) \<longleftrightarrow> card {x \<in> set ks. k < x} < n"
proof -
  have "sorted_wrt (<) (sort ks)" using assms(1) by (simp add: strict_sorted_iff)
  then have "sorted_wrt (>) (rev (sort ks))" by (simp add: sorted_wrt_rev)
  with take_descending [of "rev (sort ks)" k n] assms(2) show ?thesis by simp
qed

lemma keepByInterval_iff:
  assumes "distinct (map bi_ID bs)" "b \<in> set bs"
  shows "bi_ID b \<in> keepByInterval bs count iv keep \<longleftrightarrow> bi_ID b \<in> keep \<or> interval_keeps iv count bs b"
proof -
  let ?B = "fill_buckets iv bs []" and ?k = "bucket_of iv b"
  have keys: "distinct (map fst ?B)" "set (map fst ?B) = bucket_of iv ` set bs" using fill_keys [of "[]" iv bs] by simp_all
  have mo: "map_of ?B k = find (\<lambda>x. bucket_of iv x = k) bs" for k by (simp add: map_of_fill)
  let ?T = "set (take (nat count) (rev (sort (map fst ?B))))"
  have sub: "?T \<subseteq> bucket_of iv ` set bs" using keys(2) set_take_subset by fastforce
  have card: "set (filter ((<) ?k) (map (bucket_of iv) bs)) = {x \<in> set (map fst ?B). ?k < x}" using keys(2) by auto
  have tk: "?k \<in> ?T \<longleftrightarrow> int (card {x \<in> set (map fst ?B). ?k < x}) < count"
    using take_rev_sort [OF keys(1), of ?k "nat count"] keys(2) assms(2) by (auto simp: zless_nat_eq_int_zless)
  have the_b: "bi_ID (the (map_of ?B k)) = bi_ID b \<longleftrightarrow> k = ?k \<and> find (\<lambda>x. bucket_of iv x = ?k) bs = Some b"
    if "k \<in> ?T" for k
  proof -
    from that sub obtain y where "y \<in> set bs" "bucket_of iv y = k" by auto
    then obtain x where x: "find (\<lambda>x. bucket_of iv x = k) bs = Some x"
      by (metis (mono_tags, lifting) find_None_iff not_None_eq)
    then have "x \<in> set bs" "bucket_of iv x = k" by (auto simp: find_Some_iff)
    moreover from this have "bi_ID x = bi_ID b \<longleftrightarrow> x = b" using assms by (metis distinct_map inj_onD)
    ultimately show ?thesis using x by (auto simp: mo)
  qed
  have "bi_ID b \<in> (\<lambda>k. bi_ID (the (map_of ?B k))) ` ?T \<longleftrightarrow>
      ?k \<in> ?T \<and> find (\<lambda>x. bucket_of iv x = ?k) bs = Some b"
    using the_b by (auto simp: image_iff eq_commute [of "bi_ID b"])
  then show ?thesis
    unfolding interval_keeps_def card by (auto simp: keepByInterval_def Let_def tk)
qed

text \<open>
  The rules of a policy select what the policy describes: the last \<open>KeepLast\<close> backups, and
  for each interval the newest backup of each of the newest \<open>count\<close> intervals that hold one.
\<close>

lemma keep_set_iff:
  assumes "distinct (map bi_ID bs)" "b \<in> set bs"
  shows "bi_ID b \<in> keep_set policy bs \<longleftrightarrow> policy_keeps policy bs b"
proof -
  have "bi_ID b \<in> set (map bi_ID (take n bs)) \<longleftrightarrow> b \<in> set (take n bs)" for n
  proof
    assume "bi_ID b \<in> set (map bi_ID (take n bs))"
    then obtain x where "x \<in> set (take n bs)" "bi_ID x = bi_ID b" by auto
    then show "b \<in> set (take n bs)" using assms in_set_takeD by (metis distinct_map inj_onD)
  qed simp
  then show ?thesis by (simp add: keep_set_def policy_keeps_def keepByInterval_iff [OF assms])
qed

section \<open>A retention pass\<close>

text \<open>When data can be removed, a deletion of a record nothing refers to removes it.\<close>

lemma DeleteBackup_removes:
  assumes "ids_distinct (bm_backups bm)" "covers ev (bm_backups bm)" "b \<in> set (backups_at (bm_backups bm) i)"
    "\<not> isIncrementalBase ev bm b" "\<And>x bm1. fst (removeBackupData ev x bm1) = None"
  obtains pre post where "backups_at (bm_backups bm) i = pre @ b # post"
    "bm_backups (snd (DeleteBackup ev (bi_ID b) bm)) = (bm_backups bm)(i \<mapsto> pre @ post)"
proof -
  obtain pre post where s: "search_id (bm_backups bm) (be_Visit ev) (bi_ID b) = Some (i, pre, b, post)"
    "backups_at (bm_backups bm) i = pre @ b # post"
    using search_id_finds [OF assms(1-3)] by blast
  obtain res bm' where d: "DeleteBackup ev (bi_ID b) bm = (res, bm')" by fastforce
  have "bm_backups bm' = (bm_backups bm)(i \<mapsto> pre @ post)"
    using d
  proof (cases rule: DeleteBackup_cases)
    case missing
    then show ?thesis using s(1) by simp
  next
    case refused
    then show ?thesis using s(1) assms(4) by (auto simp: isIncrementalBase_def)
  next
    case kept
    then show ?thesis using assms(5) by simp
  next
    case gone
    then show ?thesis using s(1) by simp
  qed
  then show thesis using that s(2) d by simp
qed

text \<open>What a record needs to be passed over by the loop.\<close>

definition spared :: "retention_policy \<Rightarrow> int \<Rightarrow> string set \<Rightarrow> backup_info \<Rightarrow> bool" where
  "spared policy now keep b \<longleftrightarrow> bi_ID b \<in> keep \<or> too_young policy now b"

definition loop_ok :: "'w backup_env \<Rightarrow> 'w backup_manager \<Rightarrow> string \<Rightarrow> backup_info list \<Rightarrow> bool" where
  "loop_ok ev bm i bs \<longleftrightarrow>
     ids_distinct (bm_backups bm) \<and> covers ev (bm_backups bm) \<and> distinct (map bi_ID bs) \<and>
     set bs \<subseteq> set (backups_at (bm_backups bm) i)"

text \<open>One turn of the loop keeps the record, or drops it because nothing refers to it.\<close>

lemma retention_turn:
  fixes keep policy now
  assumes "loop_ok ev bm i (b # bs)" "\<And>x bm1. fst (removeBackupData ev x bm1) = None"
  defines "bm1 \<equiv> (if bi_ID b \<in> keep then bm else if too_young policy now b then bm
                   else if isIncrementalBase ev bm b then bm else snd (DeleteBackup ev (bi_ID b) bm))"
  shows "loop_ok ev bm1 i bs" "j \<noteq> i \<Longrightarrow> backups_at (bm_backups bm1) j = backups_at (bm_backups bm) j"
    "(spared policy now keep b \<or> (\<exists>r \<in> backup_records (bm_backups bm). refers_to r b)) \<and> bm1 = bm \<or>
     \<not> spared policy now keep b \<and> (\<forall>r \<in> backup_records (bm_backups bm). \<not> refers_to r b) \<and>
     set (backups_at (bm_backups bm1) i) = set (backups_at (bm_backups bm) i) - {b}"
proof -
  let ?m = "bm_backups bm"
  have ok: "ids_distinct ?m" "covers ev ?m" "b \<in> set (backups_at ?m i)"
    using assms(1) by (auto simp: loop_ok_def)
  note base = isIncrementalBase_iff [OF ok(2)]
  have "loop_ok ev bm1 i bs \<and> (\<forall>j. j \<noteq> i \<longrightarrow> backups_at (bm_backups bm1) j = backups_at ?m j) \<and>
    ((spared policy now keep b \<or> (\<exists>r \<in> backup_records ?m. refers_to r b)) \<and> bm1 = bm \<or>
     \<not> spared policy now keep b \<and> (\<forall>r \<in> backup_records ?m. \<not> refers_to r b) \<and>
     set (backups_at (bm_backups bm1) i) = set (backups_at ?m i) - {b})"
  proof (cases "spared policy now keep b \<or> isIncrementalBase ev bm b")
    case True
    then have "bm1 = bm" by (auto simp: bm1_def spared_def)
    then show ?thesis using True assms(1) base by (auto simp: loop_ok_def)
  next
    case False
    then have b1: "bm1 = snd (DeleteBackup ev (bi_ID b) bm)" by (auto simp: bm1_def spared_def)
    obtain pre post where p: "backups_at ?m i = pre @ b # post" "bm_backups bm1 = ?m(i \<mapsto> pre @ post)"
      using DeleteBackup_removes [OF ok _ assms(2)] False b1 by metis
    have d: "distinct (map bi_ID (pre @ b # post))" using ids_distinct_list [OF ok(1), of i] p(1) by simp
    then have "b \<notin> set pre" "b \<notin> set post" "distinct (map bi_ID (pre @ post))" by auto
    moreover from this have "ids_distinct (bm_backups bm1)"
      unfolding p(2) by (intro ids_distinct_upd [OF ok(1)]) (auto simp: p(1))
    moreover have "i \<in> set (be_Visit ev)" by (rule covers_visit [OF ok(2,3)])
    ultimately have "loop_ok ev bm1 i bs" using assms(1) ok(2) p by (auto simp: loop_ok_def)
    then show ?thesis using False base p \<open>b \<notin> set pre\<close> \<open>b \<notin> set post\<close> by auto
  qed
  then show "loop_ok ev bm1 i bs" "j \<noteq> i \<Longrightarrow> backups_at (bm_backups bm1) j = backups_at (bm_backups bm) j"
    "(spared policy now keep b \<or> (\<exists>r \<in> backup_records (bm_backups bm). refers_to r b)) \<and> bm1 = bm \<or>
     \<not> spared policy now keep b \<and> (\<forall>r \<in> backup_records (bm_backups bm). \<not> refers_to r b) \<and>
     set (backups_at (bm_backups bm1) i) = set (backups_at (bm_backups bm) i) - {b}" by blast+
qed

lemma backup_records_split:
  "backup_records m = set (backups_at m i) \<union> (\<Union>j \<in> - {i}. set (backups_at m j))"
  by (auto simp: backup_records_def)

lemma retention_loop_exact:
  assumes "loop_ok ev bm i bs" "\<And>x bm1. fst (removeBackupData ev x bm1) = None"
    "sorted_wrt (\<lambda>a b. \<not> refers_to b a) bs"
  shows "(\<forall>j. j \<noteq> i \<longrightarrow>
        backups_at (bm_backups (retention_loop ev policy now keep bs bm)) j = backups_at (bm_backups bm) j) \<and>
    set (backups_at (bm_backups (retention_loop ev policy now keep bs bm)) i) \<subseteq> set (backups_at (bm_backups bm) i) \<and>
    (\<forall>x \<in> set (backups_at (bm_backups bm) i). x \<notin> set bs \<or> spared policy now keep x \<longrightarrow>
        x \<in> set (backups_at (bm_backups (retention_loop ev policy now keep bs bm)) i)) \<and>
    (\<forall>x \<in> set bs. \<not> spared policy now keep x \<longrightarrow>
       (x \<in> set (backups_at (bm_backups (retention_loop ev policy now keep bs bm)) i) \<longleftrightarrow>
        (\<exists>r \<in> backup_records (bm_backups (retention_loop ev policy now keep bs bm)). refers_to r x)))"
  using assms(1,3)
proof (induction bs arbitrary: bm)
  case (Cons b bs)
  define bm1 where "bm1 = (if bi_ID b \<in> keep then bm else if too_young policy now b then bm
                   else if isIncrementalBase ev bm b then bm else snd (DeleteBackup ev (bi_ID b) bm))"
  note turn = retention_turn [OF Cons.prems(1) assms(2), where keep = keep and policy = policy and now = now, folded bm1_def]
  let ?bm' = "retention_loop ev policy now keep bs bm1"
  have step: "retention_loop ev policy now keep (b # bs) bm = ?bm'" by (simp add: bm1_def)
  have srt: "sorted_wrt (\<lambda>a b. \<not> refers_to b a) bs" using Cons.prems(2) by simp
  note ih = Cons.IH [OF turn(1) srt]
  note IH = ih [THEN conjunct1] ih [THEN conjunct2, THEN conjunct1]
    ih [THEN conjunct2, THEN conjunct2, THEN conjunct1] ih [THEN conjunct2, THEN conjunct2, THEN conjunct2]
  have b: "b \<in> set (backups_at (bm_backups bm) i)" "b \<notin> set bs" using Cons.prems(1) by (auto simp: loop_ok_def)
  have sub: "set (backups_at (bm_backups bm1) i) \<subseteq> set (backups_at (bm_backups bm) i)"
    "set (backups_at (bm_backups bm) i) - {b} \<subseteq> set (backups_at (bm_backups bm1) i)"
    using turn(3) by auto
  have rec: "backup_records (bm_backups ?bm') \<subseteq> backup_records (bm_backups bm)"
    using IH(1,2) turn(2) sub(1) unfolding backup_records_split [of _ i] by fastforce
  have stay: "r \<in> backup_records (bm_backups ?bm')"
    if "r \<in> backup_records (bm_backups bm1)" "r \<notin> set bs" for r
    using that IH(1,3) unfolding backup_records_split [of _ i] by fastforce
  have "b \<in> set (backups_at (bm_backups ?bm') i) \<longleftrightarrow> (\<exists>r \<in> backup_records (bm_backups ?bm'). refers_to r b)"
    if ns: "\<not> spared policy now keep b"
  proof (cases "\<exists>r \<in> backup_records (bm_backups bm). refers_to r b")
    case True
    then have "bm1 = bm" using turn(3) by blast
    moreover obtain r where "r \<in> backup_records (bm_backups bm)" "refers_to r b" using True by blast
    moreover from this have "r \<notin> set bs" using Cons.prems(2) by auto
    ultimately show ?thesis using stay [of r] IH(3) b by auto
  next
    case False
    then have "b \<notin> set (backups_at (bm_backups bm1) i)" using turn(3) ns by blast
    then show ?thesis using False IH(2) rec by blast
  qed
  then have "\<forall>x \<in> set (b # bs). \<not> spared policy now keep x \<longrightarrow>
      (x \<in> set (backups_at (bm_backups ?bm') i) \<longleftrightarrow> (\<exists>r \<in> backup_records (bm_backups ?bm'). refers_to r x))"
    using IH(4) by simp
  moreover have "\<forall>x \<in> set (backups_at (bm_backups bm) i). x \<notin> set (b # bs) \<or> spared policy now keep x \<longrightarrow>
      x \<in> set (backups_at (bm_backups ?bm') i)"
    using IH(3) turn(3) by auto
  ultimately show ?case unfolding step using IH(1,2) turn(2) sub(1) by auto
qed simp

text \<open>
  C23. A retention pass leaves of the instance's backups exactly those the policy keeps, those
  younger than the minimum age, and those a backup that is left was sent against; other instances keep theirs.
  So what is pruned is neither wanted by a rule nor needed by a survivor, and everything else goes. The policy
  has a rule, data can be removed, and an incremental backup is newer than its base.
\<close>
theorem retention_exact:
  assumes "ids_distinct (bm_backups bm)" "covers ev (bm_backups bm)"
    "bs = be_Sort ev (ListBackups bm i)" "set bs = set (ListBackups bm i)" "distinct bs"
    "sorted_wrt (\<lambda>a b. bi_CreatedAt b \<le> bi_CreatedAt a) bs"
    "KeepLast policy \<noteq> 0 \<or> KeepHourly policy \<noteq> 0 \<or> KeepDaily policy \<noteq> 0 \<or> KeepWeekly policy \<noteq> 0 \<or> KeepMonthly policy \<noteq> 0"
    "\<And>x bm1. fst (removeBackupData ev x bm1) = None"
    "\<And>r b. r \<in> set bs \<Longrightarrow> b \<in> set bs \<Longrightarrow> refers_to r b \<Longrightarrow> bi_CreatedAt b < bi_CreatedAt r"
    "bm' = applyRetention ev i policy bm"
  shows "(b \<in> set (ListBackups bm' i) \<longleftrightarrow>
       b \<in> set (ListBackups bm i) \<and>
       (policy_keeps policy bs b \<or> too_young policy (be_Now ev (bm_world bm)) b \<or>
        (\<exists>r \<in> backup_records (bm_backups bm'). refers_to r b))) \<and>
     (j \<noteq> i \<longrightarrow> ListBackups bm' j = ListBackups bm j)"
proof -
  let ?now = "be_Now ev (bm_world bm)" and ?K = "keep_set policy bs"
  have at: "ListBackups m k = backups_at (bm_backups m) k" for m :: "'a backup_manager" and k
    by (simp add: ListBackups_def backups_at_def)
  have ne: "applyRetention ev i policy bm = retention_loop ev policy ?now ?K bs bm"
  proof (cases "backups_of bm i = []")
    case True
    then have "bs = []" using assms(4) by (simp add: ListBackups_def)
    then show ?thesis using True by (simp add: applyRetention_def)
  qed (use assms(3,7) in \<open>auto simp: applyRetention_def Let_def ListBackups_def\<close>)
  have inj: "inj_on bi_ID (set bs)"
    using ids_distinct_list [OF assms(1), of i] assms(4) unfolding at by (simp add: distinct_map)
  then have dist: "distinct (map bi_ID bs)" using assms(5) by (simp add: distinct_map)
  have ok: "loop_ok ev bm i bs" using assms(1,2,4) dist by (simp add: loop_ok_def at)
  have order: "sorted_wrt (\<lambda>a b. \<not> refers_to b a) bs"
    by (rule sorted_wrt_mono_rel [OF _ assms(6)]) (use assms(9) in force)
  note l = retention_loop_exact [OF ok assms(8) order, of policy ?now ?K, folded ne assms(10)]
  note L = l [THEN conjunct1] l [THEN conjunct2, THEN conjunct1]
    l [THEN conjunct2, THEN conjunct2, THEN conjunct1] l [THEN conjunct2, THEN conjunct2, THEN conjunct2]
  have others: "j \<noteq> i \<longrightarrow> ListBackups bm' j = ListBackups bm j" using L(1) by (simp add: at)
  have sp: "spared policy ?now ?K b \<longleftrightarrow> policy_keeps policy bs b \<or> too_young policy ?now b" if "b \<in> set bs"
    using keep_set_iff [OF dist that] by (simp add: spared_def)
  have "b \<in> set (ListBackups bm' i) \<longleftrightarrow>
      b \<in> set (ListBackups bm i) \<and>
      (policy_keeps policy bs b \<or> too_young policy ?now b \<or> (\<exists>r \<in> backup_records (bm_backups bm'). refers_to r b))"
  proof (cases "b \<in> set bs")
    case True
    then have "b \<in> set (ListBackups bm i)" using assms(4) by simp
    then show ?thesis using L(3,4) sp [OF True] True by (auto simp: at)
  next
    case False
    then show ?thesis using L(2) assms(4) by (auto simp: at)
  qed
  with others show ?thesis by blast
qed

section \<open>A pass over three backups\<close>

text \<open>
  A full backup of the first day, a full one of the second and an incremental one on it of the third; the policy keeps the
  last one only.
\<close>

definition demo_backup_env :: "unit backup_env" where
  "demo_backup_env =
     \<lparr>be_Run = \<lambda>c w. ((None, []), w), be_StdoutPipe = \<lambda>c w. None, be_Start = \<lambda>c w. (None, w), be_Kill = \<lambda>c w. w,
      be_WaitPipeline = \<lambda>p c w. ((None, None, [], []), w), be_LookPath = \<lambda>s w. None, be_Fs = \<lambda>w. Map.empty,
      be_Lstat = \<lambda>s w. None, be_Stat = \<lambda>s w. Inl (Errorf ''no such file'' []), be_Geteuid = 0,
      be_MkdirAll = \<lambda>s w. (None, w), be_CreateExcl = \<lambda>s w. (None, w), be_Close = \<lambda>s w. (None, w),
      be_Open = \<lambda>s w. None, be_Remove = \<lambda>s w. (None, w), be_Resolve = Some (\<lambda>i w. Inr (''zroot/'' @ i)),
      be_Store = None, be_Marshal = \<lambda>b. Inr [], be_Unmarshal = \<lambda>s. Inl (Errorf ''no record'' []),
      be_ParseDuration = \<lambda>s. Inr (int (atoi_nat s)), be_DurationString = itoa, be_Now = \<lambda>w. 4 * 24 * hour,
      be_Format = \<lambda>t. itoa (t div second), be_Sscanf = \<lambda>s. 0, be_Sort = rev, be_Visit = [''vm'']\<rparr>"

definition demo_info :: "int \<Rightarrow> BackupType \<Rightarrow> string \<Rightarrow> string \<Rightarrow> backup_info" where
  "demo_info day ty ts base =
     (new_backup_info ''vm'' ts ty (day * 24 * hour) ''zroot/vm'' ''/backups'')
       \<lparr>bi_Status := BackupStatusCompleted, bi_Location := ''/backups/'' @ ts, bi_BaseSnapshot := base\<rparr>"

definition demo_day1 :: backup_info where
  "demo_day1 = demo_info 1 BackupTypeFull ''a'' []"

definition demo_day2 :: backup_info where
  "demo_day2 = demo_info 2 BackupTypeFull ''b'' []"

definition demo_day3 :: backup_info where
  "demo_day3 = demo_info 3 BackupTypeIncr ''c'' ''zroot/vm@hospitus-backup-b''"

definition demo_bm :: "unit backup_manager" where
  "demo_bm = (NewBackupManager [] ())\<lparr>bm_backups := [''vm'' \<mapsto> [demo_day1, demo_day2, demo_day3]]\<rparr>"

definition demo_policy :: retention_policy where
  "demo_policy = \<lparr>KeepLast = 1, KeepHourly = 0, KeepDaily = 0, KeepWeekly = 0, KeepMonthly = 0, MinAge = 0\<rparr>"

lemmas demo_infos = demo_day1_def demo_day2_def demo_day3_def demo_info_def new_backup_info_def

lemma demo_removes: "fst (removeBackupData demo_backup_env x bm) = None"
  by (simp add: removeBackupData_def destroySnapshotErr_def remove_stream_def run_cmd_def on_world_def demo_backup_env_def)

lemma demo_refers:
  "refers_to r b \<Longrightarrow> r \<in> {demo_day1, demo_day2, demo_day3} \<Longrightarrow> b \<in> {demo_day1, demo_day2, demo_day3} \<Longrightarrow>
   r = demo_day3 \<and> b = demo_day2"
  by (auto simp: refers_to_def demo_infos snapshot_ref_def)

theorem retention_exact_witness:
  "demo_day1 \<notin> set (ListBackups (applyRetention demo_backup_env ''vm'' demo_policy demo_bm) ''vm'') \<and>
   demo_day2 \<in> set (ListBackups (applyRetention demo_backup_env ''vm'' demo_policy demo_bm) ''vm'')"
proof -
  let ?bm' = "applyRetention demo_backup_env ''vm'' demo_policy demo_bm"
  let ?bs = "[demo_day3, demo_day2, demo_day1]"
  have at: "bm_backups demo_bm = [''vm'' \<mapsto> [demo_day1, demo_day2, demo_day3]]" by (simp add: demo_bm_def)
  have ids: "ids_distinct (bm_backups demo_bm)"
    by (auto simp: ids_distinct_def at backups_at_def demo_infos split: if_splits)
  have cov: "covers demo_backup_env (bm_backups demo_bm)" by (auto simp: at demo_backup_env_def)
  have lst: "ListBackups demo_bm ''vm'' = [demo_day1, demo_day2, demo_day3]" by (simp add: ListBackups_def at)
  have srt: "?bs = be_Sort demo_backup_env (ListBackups demo_bm ''vm'')" by (simp add: lst demo_backup_env_def)
  have dst: "distinct ?bs" by (simp add: demo_infos)
  have ord: "sorted_wrt (\<lambda>a b. bi_CreatedAt b \<le> bi_CreatedAt a) ?bs" by (simp add: demo_infos second_def)
  have new: "bi_CreatedAt b < bi_CreatedAt r" if "r \<in> set ?bs" "b \<in> set ?bs" "refers_to r b" for r b
    using demo_refers [OF that(3)] that by (auto simp: demo_infos second_def)
  have eq: "set ?bs = set (ListBackups demo_bm ''vm'')" by (auto simp: lst)
  have ex: "(b \<in> set (ListBackups ?bm' ''vm'') \<longleftrightarrow>
       b \<in> set (ListBackups demo_bm ''vm'') \<and>
       (policy_keeps demo_policy ?bs b \<or> too_young demo_policy (be_Now demo_backup_env (bm_world demo_bm)) b \<or>
        (\<exists>r \<in> backup_records (bm_backups ?bm'). refers_to r b))) \<and>
     (j \<noteq> ''vm'' \<longrightarrow> ListBackups ?bm' j = ListBackups demo_bm j)" for b j
    by (rule retention_exact [OF ids cov srt eq dst ord _ demo_removes new refl]) (simp_all add: demo_policy_def)
  have keeps: "policy_keeps demo_policy ?bs demo_day3" "\<not> policy_keeps demo_policy ?bs demo_day1"
    by (simp_all add: policy_keeps_def demo_policy_def interval_keeps_def, simp add: demo_infos)
  have young: "\<not> too_young demo_policy t x" for t x by (simp add: too_young_def demo_policy_def)
  have three: "demo_day3 \<in> set (ListBackups ?bm' ''vm'')" using ex [of demo_day3] keeps(1) by (simp add: lst)
  have at': "backup_records (bm_backups ?bm') = set (ListBackups ?bm' ''vm'')"
  proof -
    have "ListBackups ?bm' j = []" if "j \<noteq> ''vm''" for j
      using ex [of demo_day1 j] that by (simp add: ListBackups_def at)
    then show ?thesis
      by (auto simp: backup_records_def ListBackups_def backups_at_def [symmetric]) (metis empty_iff list.set(1))
  qed
  have "refers_to demo_day3 demo_day2" by (simp add: refers_to_def demo_infos snapshot_ref_def)
  then have two: "demo_day2 \<in> set (ListBackups ?bm' ''vm'')"
    using ex [of demo_day2] three at' by (auto simp: lst)
  have "\<not> refers_to r demo_day1" if "r \<in> set (ListBackups ?bm' ''vm'')" for r
  proof
    assume "refers_to r demo_day1"
    moreover have "r \<in> {demo_day1, demo_day2, demo_day3}" using ex [of r] that by (auto simp: lst)
    ultimately have "demo_day1 = demo_day2" using demo_refers by blast
    then show False by (simp add: demo_infos)
  qed
  then have "demo_day1 \<notin> set (ListBackups ?bm' ''vm'')"
    using ex [of demo_day1] keeps(2) young at' by simp
  with two show ?thesis by simp
qed

section \<open>A backup that was made\<close>

definition demo_config :: backup_config where
  "demo_config =
     \<lparr>bc_Enabled = True, bc_Schedule = ''daily'', bc_Retention = demo_policy\<lparr>KeepLast := 0\<rparr>, bc_Destination = ''/backups'',
      bc_Compression = ''gzip'', bc_EncryptionKeyFile = [], bc_PreBackupHook = [], bc_PostBackupHook = []\<rparr>"

definition demo_at :: "int \<Rightarrow> string \<Rightarrow> unit backup_env" where
  "demo_at now ts = demo_backup_env\<lparr>be_Now := \<lambda>w. now, be_Format := \<lambda>t. ts\<rparr>"

definition demo_run1 :: "unit backup_manager" where
  "demo_run1 = snd (Configure (demo_at 1 ''a'') ''vm'' (Some demo_config) (NewBackupManager [] ()))"

definition demo_run2 :: "unit backup_manager" where
  "demo_run2 = snd (CreateBackup (demo_at 1 ''a'') ''vm'' BackupTypeFull demo_run1)"

lemma demo_run2_values:
  "map bi_Type (ListBackups demo_run2 ''vm'') = [BackupTypeFull]"
  "map bi_Status (ListBackups demo_run2 ''vm'') = [BackupStatusCompleted]"
  by code_simp+


end
