(* ===== verification/Backup_Safety.thy ===== *)
theory Backup_Safety
  imports Backup_Retention
begin

text \<open>
  Which hooks a configuration can make the daemon run, that a configuration read back from the
  store is the one written, that a stream is read back with the command that undoes how it was written, and
  what a failed transfer leaves behind.
\<close>

section \<open>Directories as component lists\<close>

lemma join_with_inj:
  assumes "list_all plain p" "list_all plain r" "join_with slash p = join_with slash r"
  shows "p = r"
proof -
  have free: "\<forall>c \<in> set p. slash \<notin> set c" "\<forall>c \<in> set r. slash \<notin> set c"
    and ne: "\<forall>c \<in> set p. c \<noteq> []" "\<forall>c \<in> set r. c \<noteq> []"
    using assms(1,2) by (auto simp: list_all_iff plain_def)
  have nil: "join_with slash q \<noteq> []" if "q \<noteq> []" "\<forall>c \<in> set q. c \<noteq> []" for q
    using that by (cases q rule: list.exhaust; cases "tl q") auto
  show ?thesis
  proof (cases "p = [] \<or> r = []")
    case True
    then show ?thesis using assms(3) nil [OF _ ne(1)] nil [OF _ ne(2)] by (metis join_with.simps(1))
  next
    case False
    then show ?thesis using assms(3) split_join_on [OF _ free(1)] split_join_on [OF _ free(2)] by metis
  qed
qed

lemma abs_string_inside:
  assumes "list_all plain p" "list_all plain r"
    "abs_string p = abs_string r \<or> HasPrefix (abs_string p) (abs_string r @ ''/'')"
  shows "prefix r p"
  using assms(3)
proof
  assume "abs_string p = abs_string r"
  then show ?thesis using join_with_inj [OF assms(1,2)] by (simp add: abs_string_def)
next
  assume "HasPrefix (abs_string p) (abs_string r @ ''/'')"
  then obtain s where s: "join_with slash p = join_with slash r @ slash # s"
    by (auto simp: prefix_def abs_string_def slash_def)
  have free: "\<forall>c \<in> set p. slash \<notin> set c" "\<forall>c \<in> set r. slash \<notin> set c"
    using assms(1,2) by (auto simp: list_all_iff plain_def)
  have "p \<noteq> []" using s by auto
  then have "p = split_on slash (join_with slash r) @ split_on slash s"
    using split_join_on [OF _ free(1)] s by (metis split_on_append_gen)
  then show ?thesis using split_join_on [OF _ free(2)] by (cases "r = []") auto
qed

lemma abs_comps_plain: "list_all plain (abs_comps [] s)"
  unfolding abs_comps_def clean_comps_def using comps_ok by (intro clean_plain) auto

lemma comps_abs_string:
  assumes "list_all plain cs"
  shows "abs_comps [] (abs_string cs) = cs"
proof -
  have free: "\<forall>c \<in> set cs. slash \<notin> set c" and ne: "\<forall>c \<in> set cs. c \<noteq> []" "\<forall>c \<in> set cs. c \<noteq> ''.''" "\<forall>c \<in> set cs. c \<noteq> ''..''"
    using assms by (auto simp: list_all_iff plain_def)
  have "comps (abs_string cs) = filter (\<lambda>c. c \<noteq> []) (split_on slash (join_with slash cs))"
    by (simp add: comps_def abs_string_def)
  also have "\<dots> = cs"
    using split_join_on [OF _ free] ne(1) by (cases "cs = []") (auto intro!: filter_True)
  finally have "comps (abs_string cs) = cs" .
  moreover have "fold clean_step cs acc = acc @ cs" for acc
    using ne(2,3) by (induction cs arbitrary: acc) (auto simp: clean_step_def)
  ultimately show ?thesis by (simp add: abs_comps_def clean_comps_def)
qed

section \<open>Hooks\<close>

text \<open>The real place of a hook directory.\<close>

definition hook_dir_at :: "fs \<Rightarrow> string \<Rightarrow> string list" where
  "hook_dir_at fs dir = (case EvalSymlinks fs (abs_comps [] dir) of Inr r \<Rightarrow> r | Inl _ \<Rightarrow> abs_comps [] dir)"

lemma clean_rel_ok:
  "\<forall>c \<in> set cs. c \<noteq> [] \<and> slash \<notin> set c \<Longrightarrow> \<forall>c \<in> set acc. c \<noteq> [] \<and> slash \<notin> set c \<Longrightarrow>
   \<forall>c \<in> set (fold clean_rel_step cs acc). c \<noteq> [] \<and> slash \<notin> set c"
proof (induction cs arbitrary: acc)
  case (Cons c cs)
  have "set (clean_rel_step c acc) \<subseteq> insert c (set acc)" by (auto simp: clean_rel_step_def dest: in_set_butlastD)
  then have "\<forall>x \<in> set (clean_rel_step c acc). x \<noteq> [] \<and> slash \<notin> set x" using Cons.prems by auto
  then have "\<forall>x \<in> set (fold clean_rel_step cs (clean_rel_step c acc)). x \<noteq> [] \<and> slash \<notin> set x"
    using Cons.prems by (intro Cons.IH) auto
  then show ?case by simp
qed simp

lemma join_relative:
  assumes "\<forall>c \<in> set q. c \<noteq> [] \<and> slash \<notin> set c" "q \<noteq> []"
  shows "join_with slash q \<noteq> [] \<and> \<not> IsAbs (join_with slash q)"
proof -
  obtain c r where q: "q = c # r" using \<open>q \<noteq> []\<close> by (cases q) auto
  then obtain x y where "c = x # y" "x \<noteq> slash" using assms(1) by (cases c) auto
  then show ?thesis using q by (cases r) (auto simp: IsAbs_def slash_def)
qed

lemma Join_relative:
  assumes "\<not> IsAbs d"
  shows "Join d e \<noteq> [] \<and> \<not> IsAbs (Join d e)"
proof -
  let ?cs = "fold clean_rel_step (comps d @ comps e) []"
  have "\<forall>c \<in> set (comps d @ comps e). c \<noteq> [] \<and> slash \<notin> set c" using comps_ok by auto
  then have "\<forall>c \<in> set ?cs. c \<noteq> [] \<and> slash \<notin> set c" by (rule clean_rel_ok) simp
  then have "?cs \<noteq> [] \<Longrightarrow> join_with slash ?cs \<noteq> [] \<and> \<not> IsAbs (join_with slash ?cs)" by (rule join_relative)
  moreover have "\<not> IsAbs ''.''" by (simp add: IsAbs_def)
  ultimately show ?thesis using assms unfolding Join_def Let_def by (cases "?cs = []") simp_all
qed

lemma allowedHookDirs_abs:
  assumes "dir \<in> set (allowedHookDirs bm)" "IsAbs dir"
  shows "dir = abs_string (abs_comps [] dir)"
proof -
  have "abs_comps [] ''/usr/local/etc/hospitus/hooks'' = [''usr'', ''local'', ''etc'', ''hospitus'', ''hooks'']" by code_simp
  moreover have "Join d ''hooks'' = abs_string (abs_comps [] (Join d ''hooks''))" if "IsAbs d" for d
  proof -
    have "list_all plain (clean_comps (comps d @ comps ''hooks''))"
      unfolding clean_comps_def using comps_ok by (intro clean_plain) auto
    then show ?thesis using that by (simp add: Join_def comps_abs_string)
  qed
  ultimately show ?thesis using assms Join_relative [of "bm_dataDir bm" "''hooks''"]
    by (auto simp: allowedHookDirs_def abs_string_def slash_def split: if_splits)
qed

lemma hook_within_inside:
  assumes "hook_within (hook_roots fs (allowedHookDirs bm)) (abs_string p)" "list_all plain p"
  obtains dir where "dir \<in> set (allowedHookDirs bm)" "IsAbs dir" "prefix (hook_dir_at fs dir) p"
proof -
  obtain dir root where d: "dir \<in> set (allowedHookDirs bm)" "root \<in> set (hook_roots fs [dir])"
    "abs_string p = root \<or> HasPrefix (abs_string p) (root @ ''/'')"
    using assms(1) by (auto simp: hook_within_def hook_roots_def list_ex_iff)
  have abs: "IsAbs dir"
  proof (rule ccontr)
    assume "\<not> IsAbs dir"
    then have "root = dir" using d(2) by (simp add: hook_roots_def)
    then have pre: "HasPrefix (abs_string p) dir" using d(3) by (auto simp: prefix_def)
    have "dir \<noteq> []" using d(1) \<open>\<not> IsAbs dir\<close> Join_relative [of "bm_dataDir bm" "''hooks''"]
      by (auto simp: allowedHookDirs_def IsAbs_def Join_def abs_string_def split: if_splits)
    then show False using \<open>\<not> IsAbs dir\<close> pre by (cases dir) (auto simp: IsAbs_def abs_string_def slash_def)
  qed
  have pl: "list_all plain (hook_dir_at fs dir)"
    using abs_comps_plain [of dir] EvalSymlinks_plain [of fs "abs_comps [] dir"]
    by (auto simp: hook_dir_at_def list_all_iff plain_def split: sum.split)
  have "root = abs_string (hook_dir_at fs dir)"
    using d(2) abs allowedHookDirs_abs [OF d(1) abs] by (auto simp: hook_roots_def hook_dir_at_def split: sum.splits)
  then show thesis using that [OF d(1) abs] abs_string_inside [OF assms(2) pl] d(3) by blast
qed

text \<open>
  C24. Whatever a configuration names as a hook, the only command it can make the daemon run is a
  single path with no arguments: a regular file that, with every link followed, lies inside
  the real place of an allowed hooks directory, that is executable, not writable by group or others,
  and owned by root or the daemon's user.
\<close>
theorem hook_commands_confined:
  assumes "runHook ev hook i bm = (res, bm')" "bm_log bm' \<noteq> bm_log bm"
  shows "\<exists>p dir info.
     bm_log bm' = bm_log bm @ [command [abs_string p]] \<and>
     EvalSymlinks (be_Fs ev (bm_world bm)) (abs_comps [] hook) = Inr p \<and>
     dir \<in> set (allowedHookDirs bm) \<and> prefix (hook_dir_at (be_Fs ev (bm_world bm)) dir) p \<and>
     be_Stat ev (abs_string p) (bm_world bm) = Inr info \<and> fi_IsRegular info \<and>
     fi_Perm info AND 0x49 \<noteq> 0 \<and> fi_Perm info AND 0x12 = 0 \<and>
     (case fi_Uid info of None \<Rightarrow> True | Some uid \<Rightarrow> uid = 0 \<or> uid = be_Geteuid ev)"
proof -
  let ?fs = "be_Fs ev (bm_world bm)"
  obtain s where s: "validateHookPath ev bm hook = Inr s" "bm_log bm' = bm_log bm @ [command [s]]"
    using assms by (auto simp: runHook_def run_cmd_def split: sum.splits prod.splits)
  from s(1) obtain p info where p: "EvalSymlinks ?fs (abs_comps [] hook) = Inr p" "s = abs_string p"
    "hook_within (hook_roots ?fs (allowedHookDirs bm)) (abs_string p)"
    "be_Stat ev (abs_string p) (bm_world bm) = Inr info" "fi_IsRegular info" "checkHookOwnership ev (abs_string p) info = None"
    by (auto simp: validateHookPath_def Let_def split: if_splits option.splits sum.splits)
  have "list_all plain p"
    by (rule EvalSymlinks_plain [OF p(1)]) (use abs_comps_plain in \<open>auto simp: list_all_iff plain_def\<close>)
  from hook_within_inside [OF p(3) this] obtain dir where
    "dir \<in> set (allowedHookDirs bm)" "prefix (hook_dir_at ?fs dir) p" by metis
  then show ?thesis
    using s(2) p by (intro exI [of _ p] exI [of _ dir] exI [of _ info])
      (auto simp: checkHookOwnership_def split: if_splits option.splits)
qed

definition demo_hook_env :: "unit backup_env" where
  "demo_hook_env = demo_backup_env
     \<lparr>be_Fs := \<lambda>w. map_of
        [([''usr''], Dir), ([''usr'', ''local''], Dir), ([''usr'', ''local'', ''etc''], Dir),
         ([''usr'', ''local'', ''etc'', ''hospitus''], Link ''/data''), ([''data''], Dir), ([''data'', ''hooks''], Dir),
         ([''data'', ''hooks'', ''pre.sh''], File)],
      be_Stat := \<lambda>s w. Inr \<lparr>fi_Size = 10, fi_IsDir = False, fi_IsRegular = True, fi_Perm = 0x1C0, fi_Uid = Some 0\<rparr>\<rparr>"

theorem hook_commands_confined_witness:
  "\<exists>p. bm_log (snd (runHook demo_hook_env ''/usr/local/etc/hospitus/hooks/pre.sh'' ''vm'' (NewBackupManager [] ()))) =
      [command [abs_string p]] \<and> prefix [''data'', ''hooks''] p"
proof -
  let ?bm = "NewBackupManager [] () :: unit backup_manager" and ?hook = "''/usr/local/etc/hospitus/hooks/pre.sh''"
  obtain res bm' where r: "runHook demo_hook_env ?hook ''vm'' ?bm = (res, bm')" by fastforce
  have "bm_log (snd (runHook demo_hook_env ?hook ''vm'' ?bm)) \<noteq> []" by code_simp
  then have "bm_log bm' \<noteq> bm_log ?bm" using r by (simp add: NewBackupManager_def)
  from hook_commands_confined [OF r this] obtain p dir where
    p: "bm_log bm' = [command [abs_string p]]" "dir \<in> set (allowedHookDirs ?bm)"
      "prefix (hook_dir_at (be_Fs demo_hook_env (bm_world ?bm)) dir) p"
    by (auto simp: NewBackupManager_def)
  have "dir = ''/usr/local/etc/hospitus/hooks''" using p(2) by (simp add: allowedHookDirs_def NewBackupManager_def)
  moreover have "hook_dir_at (be_Fs demo_hook_env (bm_world ?bm)) ''/usr/local/etc/hospitus/hooks'' = [''data'', ''hooks'']"
    by code_simp
  ultimately show ?thesis using p r by auto
qed

section \<open>Configurations\<close>

text \<open>
  A configuration read back from the store is the one that was written, but for a minimum age
  that was not positive, which reads as none, and the encryption key file, which no stored configuration
  carries: a daemon that restarts goes on with the same schedule, destination, hooks and retention. A
  duration prints as a text that parses to it.
\<close>
theorem backup_config_roundtrip:
  assumes "\<And>d. 0 < d \<Longrightarrow> be_DurationString ev d \<noteq> [] \<and> be_ParseDuration ev (be_DurationString ev d) = Inr d"
  shows "configFromStored ev (storedFromConfig ev c) =
     c\<lparr>bc_EncryptionKeyFile := [], bc_Retention := (bc_Retention c)\<lparr>MinAge := max 0 (MinAge (bc_Retention c))\<rparr>\<rparr>"
  using assms [of "MinAge (bc_Retention c)"]
  by (cases "MinAge (bc_Retention c) > 0") (simp_all add: configFromStored_def storedFromConfig_def)

theorem backup_config_roundtrip_witness:
  "configFromStored demo_backup_env (storedFromConfig demo_backup_env demo_config) = demo_config"
proof -
  have "be_DurationString demo_backup_env d \<noteq> [] \<and>
      be_ParseDuration demo_backup_env (be_DurationString demo_backup_env d) = Inr d" if "0 < d" for d
    using that by (simp add: demo_backup_env_def itoa_def)
  from backup_config_roundtrip [OF this, of demo_config] show ?thesis
    by (simp add: demo_config_def demo_policy_def)
qed

section \<open>Streams\<close>

lemma suffix_last: "cs \<noteq> [] \<Longrightarrow> suffix (last cs) (join_with d cs)"
proof (induction cs)
  case (Cons c cs)
  then show ?case by (cases cs) (auto simp: suffix_def intro: exI [of _ "c @ d # _"])
qed simp

lemma streamToFile_path:
  assumes "streamToFile ev s dir bid compression bm = (Inr path, bm')"
  shows "IsAbs dir" "path = stream_path dir bid (case compressorFor compression of None \<Rightarrow> [] | Some (ext, c) \<Rightarrow> ext)"
proof -
  have W: "write_stream ev s p cc bm1 = (Inr path, bm2) \<Longrightarrow> path = p" for p cc bm1 bm2
    by (auto simp: write_stream_def split: prod.splits option.splits)
  show "IsAbs dir" "path = stream_path dir bid (case compressorFor compression of None \<Rightarrow> [] | Some (ext, c) \<Rightarrow> ext)"
    using assms by (auto simp: streamToFile_def Let_def split: prod.splits option.splits if_splits dest!: W)
qed

lemma stream_path_suffix:
  assumes "IsAbs dir" "slash \<notin> set bid" "slash \<notin> set ext"
  shows "suffix (bid @ ''.zfs'' @ ext) (stream_path dir bid ext)"
proof -
  let ?f = "bid @ ''.zfs'' @ ext"
  have "slash \<notin> set ?f" using assms(2,3) by (auto simp: slash_def)
  then have "comps ?f = [?f]" by (simp add: comps_def split_on_free)
  moreover have "?f \<noteq> ''.''" "?f \<noteq> ''..''" by (auto simp: append_eq_Cons_conv)
  ultimately have "clean_comps (comps dir @ comps ?f) = clean_comps (comps dir) @ [?f]"
    by (simp add: clean_comps_def clean_step_def)
  then have "suffix ?f (join_with slash (clean_comps (comps dir @ comps ?f)))"
    using suffix_last [of "clean_comps (comps dir) @ [?f]" slash] by simp
  then show ?thesis using assms(1) by (simp add: stream_path_def Join_def abs_string_def suffix_ConsI)
qed

text \<open>
  A stream written to a file is read back, and tested, with the command that undoes the compression
  it was written with, and one written plain is fed to the receiver as it is: the file name that a
  successful transfer reports determines both.
\<close>
theorem stream_read_back:
  assumes "streamToFile ev sendCmd dir backupID compression bm = (Inr path, bm')" "slash \<notin> set backupID"
  shows "decompressorFor path = map_option co_decompress (map_of streamCompressors compression) \<and>
     integrityTestFor path = map_option co_test (map_of streamCompressors compression)"
proof -
  let ?ext = "case compressorFor compression of None \<Rightarrow> [] | Some (ext, c) \<Rightarrow> ext"
  note sp = streamToFile_path [OF assms(1)]
  have "slash \<notin> set ?ext"
    by (auto simp: compressorFor_def streamCompressors_def slash_def split: if_splits)
  from stream_path_suffix [OF sp(1) assms(2) this] obtain pre where "path = pre @ ''.zfs'' @ ?ext"
    using sp(2) by (auto simp: suffix_def)
  then have "compressor_of_file path = map_of streamCompressors compression"
    by (auto simp: compressor_of_file_def streamCompressors_def compressorFor_def suffix_to_prefix)
  then show ?thesis by (simp add: decompressorFor_def integrityTestFor_def)
qed

theorem stream_read_back_witness:
  "decompressorFor ''/backups/vm-a.zfs.gz'' = Some [''gzip'', ''-dc''] \<and>
   integrityTestFor ''/backups/vm-a.zfs.gz'' = Some [''gzip'', ''-t'']"
proof -
  let ?r = "streamToFile demo_backup_env (command [''zfs'', ''send'']) ''/backups'' ''vm-a'' ''gzip'' (NewBackupManager [] ())"
  have "fst ?r = Inr ''/backups/vm-a.zfs.gz''" by code_simp
  then obtain bm' where "?r = (Inr ''/backups/vm-a.zfs.gz'', bm')" by (metis prod.collapse)
  from stream_read_back [OF this] show ?thesis by (simp add: slash_def streamCompressors_def)
qed

section \<open>What the code does on refused requests and in one second\<close>

text \<open>A configuration the store refuses has already stopped the schedule that was running, and replaces it in memory.\<close>

lemma configure_failure_stops_schedule:
  assumes "ValidateInstanceName i = None" "\<not> (bc_Enabled c \<and> bc_Schedule c \<noteq> [] \<and> parseSchedule ev (bc_Schedule c) = 0)"
    "ValidateCompression (bc_Compression c) (bc_Destination c) = None"
    "be_Store ev = Some ds" "\<And>s w. fst (bs_UpdateBackupConfig ds i (Some s) w) = Some e" "bm_schedules bm i = Some ch"
  shows "fst (Configure ev i (Some c) bm) \<noteq> None \<and> bm_schedules (snd (Configure ev i (Some c) bm)) i = None \<and>
    ch \<in> set (bm_closed (snd (Configure ev i (Some c) bm)))"
proof -
  define bm2 where "bm2 = (stop_schedule i bm)\<lparr>bm_configs := (bm_configs (stop_schedule i bm))(i \<mapsto> c)\<rparr>"
  obtain w where "bs_UpdateBackupConfig ds i (Some (storedFromConfig ev c)) (bm_world bm2) = (Some e, w)"
    using assms(5) [of "storedFromConfig ev c" "bm_world bm2"] by (metis prod.collapse)
  then have p: "persistConfig ev i c bm2 =
      (Some (Wrapf ''failed to persist backup configuration for %s: %w'' [i] e), bm2\<lparr>bm_world := w\<rparr>)"
    by (simp add: persistConfig_def with_ds_def on_world_def assms(4))
  have "Configure ev i (Some c) bm =
      (Some (Wrapf ''failed to persist backup configuration for %s: %w'' [i] e), bm2\<lparr>bm_world := w\<rparr>)"
    using assms(1-3) p by (simp add: Configure_def Let_def bm2_def [symmetric])
  moreover have "bm_schedules bm2 i = None" "ch \<in> set (bm_closed bm2)"
    using assms(6) by (simp_all add: bm2_def stop_schedule_def)
  ultimately show ?thesis by simp
qed

text \<open>A policy of negative counts names a rule and keeps nothing.\<close>

lemma negative_counts_keep_nothing:
  assumes "KeepLast p \<le> 0" "KeepHourly p \<le> 0" "KeepDaily p \<le> 0" "KeepWeekly p \<le> 0" "KeepMonthly p \<le> 0"
  shows "keep_set p bs = {}"
  using assms by (simp add: keep_set_def keepByInterval_def Let_def)

end
