(* ===== verification/Firewall.thy ===== *)
theory Firewall
  imports Validation Paths
begin

text \<open>
  \<open>pkg/firewall\<close>: port mappings and NAT rules (\<open>rules.go\<close>), the PF backend that keeps them in
  text files and loads them into an anchor (\<open>pf.go\<close>) with its table of localhost proxies
  (\<open>proxy.go\<close>), and the manager that persists them per instance (\<open>manager.go\<close>). The rule
  files are texts; reading, appending, replacing, \<open>pfctl\<close>, \<open>route\<close> and \<open>net.Listen\<close> may fail as the environment
  record of an operation says.
\<close>

section \<open>Rules\<close>

definition ProtocolTCP :: string where
  "ProtocolTCP = ''tcp''"

definition ProtocolUDP :: string where
  "ProtocolUDP = ''udp''"

record port_mapping =
  pm_ID :: string
  pm_Instance :: string
  pm_Provider :: string
  pm_Protocol :: string
  pm_HostPort :: int
  pm_TargetIP :: string
  pm_TargetPort :: int
  pm_HostInterface :: string
  pm_Description :: string
  pm_Active :: bool

record nat_rule =
  nr_ID :: string
  nr_Instance :: string
  nr_Provider :: string
  nr_SourceNetwork :: string
  nr_OutInterface :: string
  nr_Active :: bool

record rule_set =
  rs_Instance :: string
  rs_Provider :: string
  rs_PortMappings :: "port_mapping list"
  rs_NATRules :: "nat_rule list"

definition PM_Validate :: "port_mapping \<Rightarrow> go_error option" where
  "PM_Validate pm =
     (if pm_Instance pm = [] then Some (Errorf ''instance name is required'' [])
      else case ValidateInstanceName (pm_Instance pm) of
        Some e \<Rightarrow> Some (Wrapf ''invalid instance name: %w'' [] e)
      | None \<Rightarrow>
      (case (if pm_Provider pm \<noteq> [] then ValidateProviderName (pm_Provider pm) else None) of
         Some e \<Rightarrow> Some (Wrapf ''invalid provider: %w'' [] e)
       | None \<Rightarrow>
      (case (if pm_HostInterface pm \<noteq> [] then ValidateInterfaceName (pm_HostInterface pm) else None) of
         Some e \<Rightarrow> Some (Wrapf ''invalid host interface: %w'' [] e)
       | None \<Rightarrow>
           if pm_Protocol pm \<noteq> ProtocolTCP \<and> pm_Protocol pm \<noteq> ProtocolUDP then
             Some (Errorf (''protocol must be '' @ [CHR 0x27] @ ''tcp'' @ [CHR 0x27] @ '' or '' @ [CHR 0x27] @ ''udp'' @ [CHR 0x27] @
                     '', got '' @ [CHR 0x27] @ ''%s'' @ [CHR 0x27]) [pm_Protocol pm])
           else if pm_HostPort pm < 1 \<or> pm_HostPort pm > 65535 then
             Some (Errorf ''host_port must be between 1 and 65535, got %d'' [itoa (pm_HostPort pm)])
           else if pm_TargetPort pm < 1 \<or> pm_TargetPort pm > 65535 then
             Some (Errorf ''target_port must be between 1 and 65535, got %d'' [itoa (pm_TargetPort pm)])
           else if pm_TargetIP pm = [] then Some (Errorf ''target_ip is required'' [])
           else if ParseIP (pm_TargetIP pm) = None then Some (Errorf ''invalid target_ip: %s'' [pm_TargetIP pm])
           else None)))"

definition GenerateID :: "port_mapping \<Rightarrow> string" where
  "GenerateID pm =
     (let iface = (if pm_HostInterface pm = [] then ''any'' else pm_HostInterface pm);
          target = (if pm_TargetIP pm = [] then ''any'' else pm_TargetIP pm)
      in pm_Instance pm @ ''/'' @ pm_Provider pm @ ''/'' @ pm_Protocol pm @ ''/'' @ iface @ ''/'' @
         itoa (pm_HostPort pm) @ ''/'' @ target @ ''/'' @ itoa (pm_TargetPort pm))"

definition NR_Validate :: "nat_rule \<Rightarrow> go_error option" where
  "NR_Validate nr =
     (if nr_Instance nr = [] then Some (Errorf ''instance name is required'' [])
      else case ValidateInstanceName (nr_Instance nr) of
        Some e \<Rightarrow> Some (Wrapf ''invalid instance name: %w'' [] e)
      | None \<Rightarrow>
          if nr_SourceNetwork nr = [] then Some (Errorf ''source_network is required'' [])
          else if ParseCIDR (nr_SourceNetwork nr) = None then
            Some (Errorf ''invalid source_network CIDR: %s'' [nr_SourceNetwork nr])
          else if nr_OutInterface nr = [] then Some (Errorf ''out_interface is required'' [])
          else None)"

text \<open>A port specification: protocol, host port and target port.\<close>

definition port_range_check :: "string \<Rightarrow> int \<Rightarrow> int \<Rightarrow> (string \<times> int \<times> int) go_result" where
  "port_range_check protocol hostPort targetPort =
     (if hostPort < 1 \<or> hostPort > 65535 then
        Inl (Errorf ''host port out of range (1-65535): %d'' [itoa hostPort])
      else if targetPort < 1 \<or> targetPort > 65535 then
        Inl (Errorf ''target port out of range (1-65535): %d'' [itoa targetPort])
      else Inr (protocol, hostPort, targetPort))"

definition parse_ports :: "string \<Rightarrow> string \<Rightarrow> (string \<times> int \<times> int) go_result" where
  "parse_ports protocol portSpec =
     (case cut_at CHR '':'' portSpec of
        Some (h, t) \<Rightarrow>
          (case parse_int64 h of
             Inl _ \<Rightarrow> Inl (Errorf ''invalid host port: %s'' [h])
           | Inr hp \<Rightarrow>
               (case parse_int64 t of
                  Inl _ \<Rightarrow> Inl (Errorf ''invalid target port: %s'' [t])
                | Inr tp \<Rightarrow> port_range_check protocol hp tp))
      | None \<Rightarrow>
          (case parse_int64 portSpec of
             Inl _ \<Rightarrow> Inl (Errorf ''invalid port: %s'' [portSpec])
           | Inr p \<Rightarrow> port_range_check protocol p p))"

definition ParsePortSpec :: "string \<Rightarrow> (string \<times> int \<times> int) go_result" where
  "ParsePortSpec spec =
     (case cut_at CHR ''/'' spec of
        Some (proto, portSpec) \<Rightarrow>
          if map to_lower_char proto = ''tcp'' then parse_ports ProtocolTCP portSpec
          else if map to_lower_char proto = ''udp'' then parse_ports ProtocolUDP portSpec
          else Inl (Errorf ''invalid protocol: %s'' [proto])
      | None \<Rightarrow> parse_ports ProtocolTCP spec)"

section \<open>The text of the rule files\<close>

definition NL :: char where
  "NL = CHR 0x0A"

abbreviation lines_of :: "string \<Rightarrow> string list" where
  "lines_of content \<equiv> split_on NL content"

abbreviation unlines :: "string list \<Rightarrow> string" where
  "unlines ls \<equiv> join_with NL ls"

definition marker :: "string \<Rightarrow> string \<Rightarrow> string" where
  "marker i inst = ''# ID: '' @ i @ '' instance:'' @ inst"

definition rule_text :: "string \<Rightarrow> string \<Rightarrow> string list \<Rightarrow> string" where
  "rule_text i inst rules = marker i inst @ [NL] @ concat (map (\<lambda>r. r @ [NL]) rules)"

definition trim_suffix_nl :: "string \<Rightarrow> string" where
  "trim_suffix_nl s = (if s \<noteq> [] \<and> last s = NL then butlast s else s)"

definition checkRuleText :: "string \<Rightarrow> string \<Rightarrow> string list \<Rightarrow> go_error option" where
  "checkRuleText i inst rules =
     (if ContainsAny i [CHR 0x0D, NL] then Some (Errorf ''rule ID contains newline'' [])
      else if ContainsAny inst [CHR 0x0D, NL] then Some (Errorf ''instance name contains newline'' [])
      else first_error
        (\<lambda>rule. if ContainsAny rule [CHR 0x0D] then Some (Errorf ''PF rule contains carriage return'' [])
                else if Contains (trim_suffix_nl rule) [NL] then Some (Errorf ''PF rule contains multiple lines'' [])
                else None) rules)"

fun rule_under_marker :: "string \<Rightarrow> string list \<Rightarrow> bool" where
  "rule_under_marker m [] = False"
| "rule_under_marker m (line # rest) =
     (if HasPrefix line m then
        (case rest of
           [] \<Rightarrow> False
         | nxt # _ \<Rightarrow>
             if trim_space nxt \<noteq> [] \<and> \<not> HasPrefix (trim_space nxt) ''#'' then True
             else rule_under_marker m rest)
      else rule_under_marker m rest)"

definition ruleExists_text :: "string \<Rightarrow> string \<Rightarrow> bool" where
  "ruleExists_text i content = rule_under_marker (''# ID: '' @ i @ '' '') (lines_of content)"

definition commentRuleID :: "string \<Rightarrow> string" where
  "commentRuleID line =
     (if \<not> HasPrefix line ''# ID:'' then []
      else let parts = go_fields line in if length parts < 3 then [] else parts ! 2)"

text \<open>
  The loop of \<open>removeRule\<close> and \<open>removeInstanceRules\<close>, which differ in the lines that open a block to be
  dropped; the flag says whether such a block is being skipped.
\<close>

fun drop_blocks :: "(string \<Rightarrow> bool) \<Rightarrow> bool \<Rightarrow> string list \<Rightarrow> string list" where
  "drop_blocks hit skipping [] = []"
| "drop_blocks hit skipping (line # rest) =
     (if hit line then drop_blocks hit True rest
      else if skipping then
        (if HasPrefix line ''# ID:'' then line # drop_blocks hit False rest
         else if trim_space line = [] then drop_blocks hit False rest
         else drop_blocks hit True rest)
      else line # drop_blocks hit False rest)"

definition removeRule_text :: "string \<Rightarrow> string \<Rightarrow> string" where
  "removeRule_text i content = unlines (drop_blocks (\<lambda>line. commentRuleID line = i) False (lines_of content))"

definition removeInstanceRules_text :: "string \<Rightarrow> string \<Rightarrow> string" where
  "removeInstanceRules_text inst content =
     unlines (drop_blocks (\<lambda>line. suffix ('' instance:'' @ inst) line) False (lines_of content))"

fun host_port_scan :: "int \<Rightarrow> string \<Rightarrow> string \<Rightarrow> string list \<Rightarrow> string" where
  "host_port_scan hostPort protocol currentID [] = []"
| "host_port_scan hostPort protocol currentID (line # rest) =
     (if HasPrefix line ''# ID:'' then
        host_port_scan hostPort protocol
          (if length (go_fields line) \<ge> 3 then go_fields line ! 2 else currentID) rest
      else if HasPrefix line ''rdr '' \<and> Contains line (''proto '' @ protocol) \<and>
              Contains line ('' port '' @ itoa hostPort @ '' '') then currentID
      else host_port_scan hostPort protocol currentID rest)"

definition hostPortInUse_text :: "int \<Rightarrow> string \<Rightarrow> string \<Rightarrow> string" where
  "hostPortInUse_text hostPort protocol content = host_port_scan hostPort protocol [] (lines_of content)"

text \<open>\<open>dedupeRuleLines\<close>: the rules seen, the comments pending, the lines that remain.\<close>

fun dedupe_lines :: "string list \<Rightarrow> string list \<Rightarrow> string list \<Rightarrow> string list" where
  "dedupe_lines seen pending [] = []"
| "dedupe_lines seen pending (line # rest) =
     (let trimmed = trim_space line; key = join_with CHR '' '' (go_fields trimmed) in
      if trimmed = [] then dedupe_lines seen pending rest
      else if HasPrefix trimmed ''#'' then dedupe_lines seen (pending @ [trimmed]) rest
      else if key \<in> set seen then dedupe_lines seen [] rest
      else pending @ [trimmed] @ dedupe_lines (key # seen) [] rest)"

definition dedupeRuleLines :: "string \<Rightarrow> string" where
  "dedupeRuleLines content = concat (map (\<lambda>l. l @ [NL]) (dedupe_lines [] [] (lines_of content)))"

section \<open>Rule syntax\<close>

fun iface_chars :: "bool \<Rightarrow> string \<Rightarrow> bool" where
  "iface_chars first [] = True"
| "iface_chars first (c # s) =
     ((in_range (CHR ''a'', CHR ''z'') c \<or> in_range (CHR ''A'', CHR ''Z'') c \<or>
       is_digit c \<and> \<not> first \<or> (c = CHR ''_'' \<or> c = CHR ''-'' \<or> c = CHR ''.'') \<and> \<not> first) \<and> iface_chars False s)"

definition validateIfaceName :: "string \<Rightarrow> go_error option" where
  "validateIfaceName iface =
     (if iface = [] then Some (Errorf ''interface name must not be empty'' [])
      else if \<not> iface_chars True iface then
        Some (Errorf ''invalid interface name %q: character %q at position %d is not allowed'' [iface])
      else None)"

fun route_interface :: "string list \<Rightarrow> string go_result" where
  "route_interface [] = Inl (Errorf ''no default route'' [])"
| "route_interface (line # rest) =
     (let line = trim_space line; parts = go_fields line in
      if \<not> HasPrefix line ''interface:'' then route_interface rest
      else if length parts < 2 then route_interface rest
      else case validateIfaceName (parts ! 1) of
             Some e \<Rightarrow> Inl (Wrapf ''route named an unusable interface: %w'' [] e)
           | None \<Rightarrow> Inr (parts ! 1))"

text \<open>\<open>route\<close> is the output of \<open>route -n get default\<close>.\<close>

definition getDefaultInterface :: "string go_result \<Rightarrow> string go_result" where
  "getDefaultInterface route =
     (case route of
        Inl e \<Rightarrow> Inl (Wrapf ''route -n get default: %w'' [] e)
      | Inr output \<Rightarrow> route_interface (lines_of output))"

definition rdr_rule :: "string \<Rightarrow> port_mapping \<Rightarrow> string" where
  "rdr_rule iface m =
     ''rdr pass on '' @ iface @ '' proto '' @ pm_Protocol m @ '' from any to any port '' @ itoa (pm_HostPort m) @
     '' -> '' @ pm_TargetIP m @ '' port '' @ itoa (pm_TargetPort m)"

definition generateRdrRules :: "string go_result \<Rightarrow> port_mapping \<Rightarrow> string list go_result" where
  "generateRdrRules route m =
     bind_res
       (if pm_HostInterface m = [] then
          (case getDefaultInterface route of
             Inl e \<Rightarrow> Inl (Wrapf ''cannot determine the external interface for a redirection to %s: %w (name it explicitly)''
                             [pm_TargetIP m] e)
           | Inr i \<Rightarrow> Inr i)
        else Inr (pm_HostInterface m))
       (\<lambda>iface. case validateIfaceName iface of
                  Some e \<Rightarrow> Inl (Wrapf ''port mapping interface rejected: %w'' [] e)
                | None \<Rightarrow> Inr [rdr_rule iface m])"

definition generateNatRule :: "nat_rule \<Rightarrow> string go_result" where
  "generateNatRule r =
     (case validateIfaceName (nr_OutInterface r) of
        Some e \<Rightarrow> Inl (Wrapf ''NAT rule interface rejected: %w'' [] e)
      | None \<Rightarrow> Inr (''nat on '' @ nr_OutInterface r @ '' from '' @ nr_SourceNetwork r @ '' to any -> ('' @
                     nr_OutInterface r @ '')''))"

record rdr_parts =
  rp_protocol :: string
  rp_hostPort :: int
  rp_targetPort :: int
  rp_targetIP :: string

fun rdr_scan :: "string list \<Rightarrow> rdr_parts \<Rightarrow> rdr_parts" where
  "rdr_scan [] r = r"
| "rdr_scan (part # rest) r =
     rdr_scan rest
       (case rest of
          [] \<Rightarrow> r
        | v # _ \<Rightarrow>
            if part = ''proto'' then r\<lparr>rp_protocol := v\<rparr>
            else if part = ''port'' then
              (case parse_int64 v of
                 Inl _ \<Rightarrow> r
               | Inr port \<Rightarrow> if rp_hostPort r = 0 then r\<lparr>rp_hostPort := port\<rparr> else r\<lparr>rp_targetPort := port\<rparr>)
            else if part = ''->'' then r\<lparr>rp_targetIP := v\<rparr>
            else r)"

definition parseRdrRule :: "string \<Rightarrow> string \<Rightarrow> string \<Rightarrow> port_mapping option" where
  "parseRdrRule rule i inst =
     (let parts = go_fields rule in
      if length parts < 12 then None
      else
        let r = rdr_scan parts \<lparr>rp_protocol = [], rp_hostPort = 0, rp_targetPort = 0, rp_targetIP = []\<rparr> in
        if rp_hostPort r > 0 \<and> rp_protocol r \<noteq> [] then
          Some \<lparr>pm_ID = i, pm_Instance = inst, pm_Provider = [], pm_Protocol = rp_protocol r,
                pm_HostPort = rp_hostPort r, pm_TargetIP = rp_targetIP r, pm_TargetPort = rp_targetPort r,
                pm_HostInterface = [], pm_Description = [], pm_Active = False\<rparr>
        else None)"

fun list_rules_scan :: "string \<Rightarrow> string \<Rightarrow> string list \<Rightarrow> port_mapping list" where
  "list_rules_scan curID curInstance [] = []"
| "list_rules_scan curID curInstance (line # rest) =
     (if HasPrefix line ''# ID:'' then
        (let parts = go_fields line in
         if length parts \<ge> 3 then
           list_rules_scan (parts ! 2)
             (case find (\<lambda>p. HasPrefix p ''instance:'') (drop 3 parts) of None \<Rightarrow> [] | Some p \<Rightarrow> drop 9 p) rest
         else list_rules_scan curID curInstance rest)
      else if curID \<noteq> [] \<and> HasPrefix line ''rdr '' then
        (case parseRdrRule line curID curInstance of
           Some m \<Rightarrow> m\<lparr>pm_Active := True\<rparr> # list_rules_scan [] curInstance rest
         | None \<Rightarrow> list_rules_scan curID curInstance rest)
      else list_rules_scan curID curInstance rest)"

text \<open>\<open>findInstancePortMappings\<close>: the current id and whether a block of the instance is open.\<close>

fun instance_scan :: "string \<Rightarrow> string \<Rightarrow> bool \<Rightarrow> string list \<Rightarrow> port_mapping list" where
  "instance_scan inst currentID inBlock [] = []"
| "instance_scan inst currentID inBlock (line # rest) =
     (if suffix ('' instance:'' @ inst) line then
        instance_scan inst (if length (go_fields line) \<ge> 3 then go_fields line ! 2 else currentID) True rest
      else
        let left = inBlock \<and> HasPrefix line ''# ID:'';
            inBlock' = (inBlock \<and> \<not> left);
            currentID' = (if left then [] else currentID);
            found = (if inBlock' \<and> HasPrefix line ''rdr '' then
                       (case parseRdrRule line currentID' inst of None \<Rightarrow> [] | Some m \<Rightarrow> [m]) else [])
        in found @
           (if inBlock' \<and> line = [] then instance_scan inst [] False rest
            else instance_scan inst currentID' inBlock' rest))"

section \<open>Localhost proxies\<close>

text \<open>The table of running proxies: what each forwards to.\<close>

type_synonym proxies = "string \<rightharpoonup> string \<times> int"

definition proxyKey :: "int \<Rightarrow> string \<Rightarrow> string" where
  "proxyKey hostPort protocol = protocol @ ''-'' @ itoa hostPort"

definition proxy_Start :: "(int \<Rightarrow> go_error option) \<Rightarrow> port_mapping \<Rightarrow> proxies \<Rightarrow> go_error option \<times> proxies" where
  "proxy_Start listen m ps =
     (let key = proxyKey (pm_HostPort m) (pm_Protocol m) in
      if ps key \<noteq> None then (None, ps)
      else if pm_Protocol m \<noteq> ProtocolTCP then (None, ps)
      else (case listen (pm_HostPort m) of
              Some e \<Rightarrow> (Some (Wrapf ''failed to listen on %s: %w'' [''127.0.0.1:'' @ itoa (pm_HostPort m)] e), ps)
            | None \<Rightarrow> (None, ps(key \<mapsto> (pm_TargetIP m, pm_TargetPort m)))))"

definition proxy_Stop :: "port_mapping \<Rightarrow> proxies \<Rightarrow> proxies" where
  "proxy_Stop m ps = ps(proxyKey (pm_HostPort m) (pm_Protocol m) := None)"

definition IsRunning :: "int \<Rightarrow> string \<Rightarrow> proxies \<Rightarrow> bool" where
  "IsRunning hostPort protocol ps \<longleftrightarrow> ps (proxyKey hostPort protocol) \<noteq> None"

section \<open>The PF backend\<close>

datatype rule_file = NatFile | RdrFile | FilterFile

text \<open>
  The backend's files by kind, what the anchor was last loaded with, and the proxies. An append that
  fails may have written a part of its text: the environment says how much.
\<close>

record pf_backend =
  pf_files :: "rule_file \<rightharpoonup> string"
  pf_combined :: "string option"
  pf_anchor :: string
  pf_proxies :: proxies

record pf_env =
  pe_Read :: "rule_file \<Rightarrow> go_error option"
  pe_Append :: "rule_file \<Rightarrow> (go_error \<times> nat) option"
  pe_Write :: "rule_file \<Rightarrow> go_error option"
  pe_WriteCombined :: "go_error option"
  pe_Pfctl :: "string \<Rightarrow> go_error option"
  pe_Listen :: "int \<Rightarrow> go_error option"
  pe_Route :: "string go_result"
  pe_MkdirAll :: "go_error option"
  pe_Create :: "rule_file \<Rightarrow> go_error option"
  pe_CreateCombined :: "go_error option"

definition NewPFBackend :: pf_backend where
  "NewPFBackend = \<lparr>pf_files = Map.empty, pf_combined = None, pf_anchor = [], pf_proxies = Map.empty\<rparr>"

definition readRuleFile :: "pf_env \<Rightarrow> rule_file \<Rightarrow> pf_backend \<Rightarrow> string go_result" where
  "readRuleFile ev f p =
     (case pf_files p f of
        None \<Rightarrow> Inr []
      | Some content \<Rightarrow>
          (case pe_Read ev f of
             Some e \<Rightarrow> Inl (Wrapf ''failed to read rule file %s: %w'' [] e)
           | None \<Rightarrow> Inr content))"

text \<open>A file that cannot be read counts as having no rule.\<close>

definition readable :: "pf_env \<Rightarrow> rule_file \<Rightarrow> pf_backend \<Rightarrow> string option" where
  "readable ev f p = (if pe_Read ev f = None then pf_files p f else None)"

definition ruleExists :: "pf_env \<Rightarrow> rule_file \<Rightarrow> string \<Rightarrow> pf_backend \<Rightarrow> bool" where
  "ruleExists ev f i p = (case readable ev f p of None \<Rightarrow> False | Some content \<Rightarrow> ruleExists_text i content)"

definition hostPortInUse :: "pf_env \<Rightarrow> int \<Rightarrow> string \<Rightarrow> pf_backend \<Rightarrow> string" where
  "hostPortInUse ev hostPort protocol p =
     (case readable ev RdrFile p of None \<Rightarrow> [] | Some content \<Rightarrow> hostPortInUse_text hostPort protocol content)"

definition appendRules ::
    "pf_env \<Rightarrow> rule_file \<Rightarrow> string \<Rightarrow> string \<Rightarrow> string list \<Rightarrow> pf_backend \<Rightarrow> go_error option \<times> pf_backend" where
  "appendRules ev f i inst rules p =
     (if ruleExists ev f i p then (None, p)
      else (case checkRuleText i inst rules of
              Some e \<Rightarrow> (Some e, p)
            | None \<Rightarrow>
                let old = (case pf_files p f of None \<Rightarrow> [] | Some c \<Rightarrow> c); new = rule_text i inst rules in
                case pe_Append ev f of
                  None \<Rightarrow> (None, p\<lparr>pf_files := (pf_files p)(f \<mapsto> old @ new)\<rparr>)
                | Some (e, n) \<Rightarrow> (Some e, p\<lparr>pf_files := (pf_files p)(f \<mapsto> old @ take n new)\<rparr>)))"

definition appendRule ::
    "pf_env \<Rightarrow> rule_file \<Rightarrow> string \<Rightarrow> string \<Rightarrow> string \<Rightarrow> pf_backend \<Rightarrow> go_error option \<times> pf_backend" where
  "appendRule ev f i inst rule p = appendRules ev f i inst [rule] p"

definition rewrite_file ::
    "pf_env \<Rightarrow> rule_file \<Rightarrow> (string \<Rightarrow> string) \<Rightarrow> pf_backend \<Rightarrow> go_error option \<times> pf_backend" where
  "rewrite_file ev f g p =
     (case pf_files p f of
        None \<Rightarrow> (None, p)
      | Some content \<Rightarrow>
          (case pe_Read ev f of
             Some e \<Rightarrow> (Some e, p)
           | None \<Rightarrow>
               (case pe_Write ev f of
                  Some e \<Rightarrow> (Some e, p)
                | None \<Rightarrow> (None, p\<lparr>pf_files := (pf_files p)(f \<mapsto> g content)\<rparr>))))"

definition removeRule :: "pf_env \<Rightarrow> rule_file \<Rightarrow> string \<Rightarrow> pf_backend \<Rightarrow> go_error option \<times> pf_backend" where
  "removeRule ev f i p = rewrite_file ev f (removeRule_text i) p"

definition removeInstanceRules :: "pf_env \<Rightarrow> rule_file \<Rightarrow> string \<Rightarrow> pf_backend \<Rightarrow> go_error option \<times> pf_backend" where
  "removeInstanceRules ev f inst p = rewrite_file ev f (removeInstanceRules_text inst) p"

definition with_newline :: "string \<Rightarrow> string" where
  "with_newline s = (if s \<noteq> [] \<and> last s \<noteq> NL then s @ [NL] else s)"

definition reloadRulesNoLock :: "pf_env \<Rightarrow> pf_backend \<Rightarrow> go_error option \<times> pf_backend" where
  "reloadRulesNoLock ev p =
     (case readRuleFile ev NatFile p of
        Inl e \<Rightarrow> (Some e, p)
      | Inr natC \<Rightarrow>
     (case readRuleFile ev RdrFile p of
        Inl e \<Rightarrow> (Some e, p)
      | Inr rdrC \<Rightarrow>
     (case readRuleFile ev FilterFile p of
        Inl e \<Rightarrow> (Some e, p)
      | Inr filterC \<Rightarrow>
          (case pe_WriteCombined ev of
             Some e \<Rightarrow> (Some (Wrapf ''failed to write combined rules: %w'' [] e), p)
           | None \<Rightarrow>
               let combined = dedupeRuleLines (with_newline natC @ with_newline rdrC @ filterC);
                   p1 = p\<lparr>pf_combined := Some combined\<rparr>
               in case pe_Pfctl ev combined of
                    Some e \<Rightarrow> (Some (Wrapf ''failed to load rules: %w: %s'' [] e), p1)
                  | None \<Rightarrow> (None, p1\<lparr>pf_anchor := combined\<rparr>)))))"

text \<open>The check of the operator's own rule set only warns.\<close>

fun init_files :: "pf_env \<Rightarrow> (rule_file \<times> string) list \<Rightarrow> pf_backend \<Rightarrow> go_error option \<times> pf_backend" where
  "init_files ev [] p = (None, p)"
| "init_files ev ((f, content) # fs) p =
     (if pf_files p f \<noteq> None then init_files ev fs p
      else (case pe_Create ev f of
              Some e \<Rightarrow> (Some (Wrapf ''failed to create rules file: %w'' [] e), p)
            | None \<Rightarrow> init_files ev fs (p\<lparr>pf_files := (pf_files p)(f \<mapsto> content)\<rparr>)))"

definition pf_Initialize :: "pf_env \<Rightarrow> pf_backend \<Rightarrow> go_error option \<times> pf_backend" where
  "pf_Initialize ev p =
     (case pe_MkdirAll ev of
        Some e \<Rightarrow> (Some (Wrapf ''failed to create rules directory: %w'' [] e), p)
      | None \<Rightarrow>
          (case init_files ev [(NatFile, ''# Hospitus NAT rules'' @ [NL]), (RdrFile, ''# Hospitus redirect rules'' @ [NL]),
                               (FilterFile, ''# Hospitus filter rules'' @ [NL])] p of
             (Some e, p1) \<Rightarrow> (Some e, p1)
           | (None, p1) \<Rightarrow>
               if pf_combined p1 \<noteq> None then (None, snd (reloadRulesNoLock ev p1))
               else (case pe_CreateCombined ev of
                       Some e \<Rightarrow> (Some (Wrapf ''failed to create combined.rules: %w'' [] e), p1)
                     | None \<Rightarrow> (None, snd (reloadRulesNoLock ev (p1\<lparr>pf_combined := Some (''# Hospitus combined rules'' @ [NL])\<rparr>))))))"

definition AddFilterRule ::
    "pf_env \<Rightarrow> string \<Rightarrow> string \<Rightarrow> string \<Rightarrow> pf_backend \<Rightarrow> go_error option \<times> pf_backend" where
  "AddFilterRule ev i inst pfRule p =
     (case appendRule ev FilterFile i inst pfRule p of
        (Some e, p1) \<Rightarrow> (Some (Wrapf ''failed to append filter rule: %w'' [] e), p1)
      | (None, p1) \<Rightarrow> reloadRulesNoLock ev p1)"

definition AddRawNATRule ::
    "pf_env \<Rightarrow> string \<Rightarrow> string \<Rightarrow> string \<Rightarrow> pf_backend \<Rightarrow> go_error option \<times> pf_backend" where
  "AddRawNATRule ev i inst pfRule p =
     (case appendRule ev NatFile i inst pfRule p of
        (Some e, p1) \<Rightarrow> (Some (Wrapf ''failed to append nat rule: %w'' [] e), p1)
      | (None, p1) \<Rightarrow> reloadRulesNoLock ev p1)"

text \<open>A proxy that was started (or was found running, or not needed) is stopped when a later step fails.\<close>

definition undo_proxy :: "bool \<Rightarrow> port_mapping \<Rightarrow> pf_backend \<Rightarrow> pf_backend" where
  "undo_proxy started m p = (if started then p\<lparr>pf_proxies := proxy_Stop m (pf_proxies p)\<rparr> else p)"

definition AddPortMapping :: "pf_env \<Rightarrow> port_mapping \<Rightarrow> pf_backend \<Rightarrow> go_error option \<times> pf_backend" where
  "AddPortMapping ev m p =
     (case PM_Validate m of
        Some e \<Rightarrow> (Some e, p)
      | None \<Rightarrow>
          let conflictID = hostPortInUse ev (pm_HostPort m) (pm_Protocol m) p in
          if conflictID \<noteq> [] then
            (if conflictID = pm_ID m then (None, p)
             else (Some (Errorf ''host port %d/%s is already in use by rule %s''
                           [itoa (pm_HostPort m), pm_Protocol m, conflictID]), p))
          else
            (case proxy_Start (pe_Listen ev) m (pf_proxies p) of
               (perr, ps) \<Rightarrow>
                 let p1 = p\<lparr>pf_proxies := ps\<rparr>; started = (perr = None) in
                 case generateRdrRules (pe_Route ev) m of
                   Inl e \<Rightarrow> (Some e, undo_proxy started m p1)
                 | Inr rules \<Rightarrow>
                     (case appendRules ev RdrFile (pm_ID m) (pm_Instance m) rules p1 of
                        (Some e, p2) \<Rightarrow> (Some e, undo_proxy started m p2)
                      | (None, p2) \<Rightarrow>
                          (case reloadRulesNoLock ev p2 of
                             (Some e, p3) \<Rightarrow> (Some e, undo_proxy started m p3)
                           | (None, p3) \<Rightarrow> (None, p3)))))"

definition RemovePortMapping :: "pf_env \<Rightarrow> port_mapping \<Rightarrow> pf_backend \<Rightarrow> go_error option \<times> pf_backend" where
  "RemovePortMapping ev m p =
     (let p1 = p\<lparr>pf_proxies := proxy_Stop m (pf_proxies p)\<rparr> in
      case removeRule ev RdrFile (pm_ID m) p1 of
        (Some e, p2) \<Rightarrow> (Some e, p2)
      | (None, p2) \<Rightarrow> reloadRulesNoLock ev (snd (removeRule ev NatFile (pm_ID m @ ''-localhost-nat'') p2)))"

definition AddNATRule :: "pf_env \<Rightarrow> nat_rule \<Rightarrow> pf_backend \<Rightarrow> go_error option \<times> pf_backend" where
  "AddNATRule ev r p =
     (case NR_Validate r of
        Some e \<Rightarrow> (Some e, p)
      | None \<Rightarrow>
     (case generateNatRule r of
        Inl e \<Rightarrow> (Some e, p)
      | Inr pfRule \<Rightarrow>
     (case appendRule ev NatFile (nr_ID r) (nr_Instance r) pfRule p of
        (Some e, p1) \<Rightarrow> (Some e, p1)
      | (None, p1) \<Rightarrow>
     (case appendRule ev FilterFile (nr_ID r @ ''-pass'') (nr_Instance r)
             (''pass in inet from '' @ nr_SourceNetwork r @ '' keep state'') p1 of
        (Some e, p2) \<Rightarrow>
          (Some (Wrapf ''failed to add filter pass-in rule: %w'' [] e), snd (removeRule ev NatFile (nr_ID r) p2))
      | (None, p2) \<Rightarrow>
     (case appendRule ev FilterFile (nr_ID r @ ''-pass-out'') (nr_Instance r)
             (''pass out inet to '' @ nr_SourceNetwork r @ '' keep state'') p2 of
        (Some e, p3) \<Rightarrow>
          (Some (Wrapf ''failed to add filter pass-out rule: %w'' [] e),
           snd (removeRule ev FilterFile (nr_ID r @ ''-pass'') (snd (removeRule ev NatFile (nr_ID r) p3))))
      | (None, p3) \<Rightarrow> reloadRulesNoLock ev p3)))))"

definition RemoveNATRule :: "pf_env \<Rightarrow> nat_rule \<Rightarrow> pf_backend \<Rightarrow> go_error option \<times> pf_backend" where
  "RemoveNATRule ev r p =
     (case removeRule ev NatFile (nr_ID r) p of
        (Some e, p1) \<Rightarrow> (Some e, p1)
      | (None, p1) \<Rightarrow>
          reloadRulesNoLock ev
            (snd (removeRule ev FilterFile (nr_ID r @ ''-pass-out'') (snd (removeRule ev FilterFile (nr_ID r @ ''-pass'') p1)))))"

definition findInstancePortMappings :: "pf_env \<Rightarrow> string \<Rightarrow> pf_backend \<Rightarrow> port_mapping list" where
  "findInstancePortMappings ev inst p =
     (case readable ev RdrFile p of None \<Rightarrow> [] | Some content \<Rightarrow> instance_scan inst [] False (lines_of content))"

definition pf_RemoveAllRules :: "pf_env \<Rightarrow> string \<Rightarrow> pf_backend \<Rightarrow> go_error option \<times> pf_backend" where
  "pf_RemoveAllRules ev inst p =
     (let p1 = p\<lparr>pf_proxies := fold proxy_Stop (findInstancePortMappings ev inst p) (pf_proxies p)\<rparr> in
      case removeInstanceRules ev NatFile inst p1 of
        (Some e, p2) \<Rightarrow> (Some e, p2)
      | (None, p2) \<Rightarrow>
     (case removeInstanceRules ev RdrFile inst p2 of
        (Some e, p3) \<Rightarrow> (Some e, p3)
      | (None, p3) \<Rightarrow>
     (case removeInstanceRules ev FilterFile inst p3 of
        (Some e, p4) \<Rightarrow> (Some e, p4)
      | (None, p4) \<Rightarrow> reloadRulesNoLock ev p4)))"

fun add_each :: "string \<Rightarrow> ('r \<Rightarrow> pf_backend \<Rightarrow> go_error option \<times> pf_backend) \<Rightarrow> 'r list \<Rightarrow> pf_backend \<Rightarrow>
    go_error option \<times> pf_backend" where
  "add_each what add [] p = (None, p)"
| "add_each what add (r # rs) p =
     (case add r p of
        (Some e, p1) \<Rightarrow> (Some (Wrapf what [] e), p1)
      | (None, p1) \<Rightarrow> add_each what add rs p1)"

definition ApplyRules :: "pf_env \<Rightarrow> rule_set \<Rightarrow> pf_backend \<Rightarrow> go_error option \<times> pf_backend" where
  "ApplyRules ev rs p =
     (case pf_RemoveAllRules ev (rs_Instance rs) p of
        (Some e, p1) \<Rightarrow> (Some e, p1)
      | (None, p1) \<Rightarrow>
     (case add_each ''failed to add NAT rule: %w'' (AddNATRule ev) (rs_NATRules rs) p1 of
        (Some e, p2) \<Rightarrow> (Some e, p2)
      | (None, p2) \<Rightarrow> add_each ''failed to add port mapping: %w'' (AddPortMapping ev) (rs_PortMappings rs) p2))"

definition ListRules :: "pf_env \<Rightarrow> pf_backend \<Rightarrow> port_mapping list go_result" where
  "ListRules ev p =
     (case pf_files p RdrFile of
        None \<Rightarrow> Inr []
      | Some content \<Rightarrow>
          (case pe_Read ev RdrFile of
             Some e \<Rightarrow> Inl e
           | None \<Rightarrow> Inr (list_rules_scan [] [] (lines_of content))))"

definition pf_Cleanup :: "pf_backend \<Rightarrow> pf_backend" where
  "pf_Cleanup p = p\<lparr>pf_proxies := Map.empty\<rparr>"

section \<open>The manager\<close>

text \<open>
  The methods of the \<open>Backend\<close> interface the manager calls, over a backend state. The rule sets are
  persisted one file per instance; \<open>me_Marshal\<close> and \<open>me_Unmarshal\<close> are the JSON
  encoder. A read fails with \<open>os.ErrNotExist\<close> or otherwise.
\<close>

record 'b fw_backend =
  fb_AddPortMapping :: "port_mapping \<Rightarrow> 'b \<Rightarrow> go_error option \<times> 'b"
  fb_RemovePortMapping :: "port_mapping \<Rightarrow> 'b \<Rightarrow> go_error option \<times> 'b"
  fb_AddNATRule :: "nat_rule \<Rightarrow> 'b \<Rightarrow> go_error option \<times> 'b"
  fb_RemoveNATRule :: "nat_rule \<Rightarrow> 'b \<Rightarrow> go_error option \<times> 'b"
  fb_ApplyRules :: "rule_set \<Rightarrow> 'b \<Rightarrow> go_error option \<times> 'b"
  fb_RemoveAllRules :: "string \<Rightarrow> 'b \<Rightarrow> go_error option \<times> 'b"

definition pf_as_backend :: "pf_env \<Rightarrow> pf_backend fw_backend" where
  "pf_as_backend ev =
     \<lparr>fb_AddPortMapping = AddPortMapping ev, fb_RemovePortMapping = RemovePortMapping ev,
      fb_AddNATRule = AddNATRule ev, fb_RemoveNATRule = RemoveNATRule ev, fb_ApplyRules = ApplyRules ev,
      fb_RemoveAllRules = pf_RemoveAllRules ev\<rparr>"

record manager_env =
  me_Read :: "string \<Rightarrow> go_error option"
  me_Write :: "string \<Rightarrow> go_error option"
  me_Remove :: "string \<Rightarrow> go_error option"
  me_Marshal :: "rule_set \<Rightarrow> string go_result"
  me_Unmarshal :: "string \<Rightarrow> rule_set go_result"
  me_ReadDir :: "(string \<times> bool) list go_result"

record 'b fw_manager =
  fm_backend :: 'b
  fm_rulesDir :: string
  fm_files :: "string \<rightharpoonup> string"

definition ErrNotExist :: go_error where
  "ErrNotExist = Errorf ''file does not exist'' []"

definition ruleFilePath :: "'b fw_manager \<Rightarrow> string \<Rightarrow> string go_result" where
  "ruleFilePath m inst =
     (case ValidateInstanceName inst of
        Some e \<Rightarrow> Inl (Wrapf ''invalid instance name: %w'' [] e)
      | None \<Rightarrow> Inr (fm_rulesDir m @ ''/'' @ inst @ ''.json''))"

definition loadRuleSet :: "manager_env \<Rightarrow> 'b fw_manager \<Rightarrow> string \<Rightarrow> rule_set go_result" where
  "loadRuleSet me m inst =
     bind_res (ruleFilePath m inst) (\<lambda>path.
       case fm_files m path of
         None \<Rightarrow> Inl ErrNotExist
       | Some content \<Rightarrow>
           (case me_Read me path of
              Some e \<Rightarrow> Inl e
            | None \<Rightarrow>
                (case me_Unmarshal me content of
                   Inl e \<Rightarrow> Inl (Wrapf ''failed to parse rule file: %w'' [] e)
                 | Inr rs \<Rightarrow> Inr rs)))"

definition saveRuleSet ::
    "manager_env \<Rightarrow> string \<Rightarrow> rule_set \<Rightarrow> 'b fw_manager \<Rightarrow> go_error option \<times> 'b fw_manager" where
  "saveRuleSet me inst rs m =
     (case ruleFilePath m inst of
        Inl e \<Rightarrow> (Some e, m)
      | Inr path \<Rightarrow>
          (case me_Marshal me rs of
             Inl e \<Rightarrow> (Some (Wrapf ''failed to marshal rule set: %w'' [] e), m)
           | Inr content \<Rightarrow>
               (case me_Write me path of
                  Some e \<Rightarrow> (Some (Wrapf ''failed to write rule file: %w'' [] e), m)
                | None \<Rightarrow> (None, m\<lparr>fm_files := (fm_files m)(path \<mapsto> content)\<rparr>))))"

definition empty_rule_set :: rule_set where
  "empty_rule_set = \<lparr>rs_Instance = [], rs_Provider = [], rs_PortMappings = [], rs_NATRules = []\<rparr>"

text \<open>The rule set a change starts from: an absent file is an empty one.\<close>

definition current_rule_set :: "manager_env \<Rightarrow> 'b fw_manager \<Rightarrow> string \<Rightarrow> rule_set go_result" where
  "current_rule_set me m inst =
     bind_res
       (case loadRuleSet me m inst of
          Inl e \<Rightarrow> if e = ErrNotExist then Inr empty_rule_set else Inl e
        | Inr rs \<Rightarrow> Inr rs)
       (\<lambda>rs. Inr (if rs_Instance rs = [] then rs\<lparr>rs_Instance := inst\<rparr> else rs))"

fun replace_mapping :: "port_mapping \<Rightarrow> port_mapping list \<Rightarrow> port_mapping list" where
  "replace_mapping m [] = [m]"
| "replace_mapping m (x # xs) =
     (if pm_HostPort x = pm_HostPort m \<and> pm_Protocol x = pm_Protocol m then m # xs else x # replace_mapping m xs)"

definition persistMapping ::
    "manager_env \<Rightarrow> string \<Rightarrow> port_mapping \<Rightarrow> 'b fw_manager \<Rightarrow> go_error option \<times> 'b fw_manager" where
  "persistMapping me inst mapping m =
     (case current_rule_set me m inst of
        Inl e \<Rightarrow> (Some e, m)
      | Inr rs \<Rightarrow> saveRuleSet me inst (rs\<lparr>rs_PortMappings := replace_mapping mapping (rs_PortMappings rs)\<rparr>) m)"

fun replace_nat :: "nat_rule \<Rightarrow> nat_rule list \<Rightarrow> nat_rule list" where
  "replace_nat r [] = [r]"
| "replace_nat r (x # xs) = (if nr_ID x = nr_ID r then r # xs else x # replace_nat r xs)"

definition persistNATRule ::
    "manager_env \<Rightarrow> string \<Rightarrow> nat_rule \<Rightarrow> 'b fw_manager \<Rightarrow> go_error option \<times> 'b fw_manager" where
  "persistNATRule me inst rule m =
     (case current_rule_set me m inst of
        Inl e \<Rightarrow> (Some e, m)
      | Inr rs \<Rightarrow> saveRuleSet me inst (rs\<lparr>rs_NATRules := replace_nat rule (rs_NATRules rs)\<rparr>) m)"

definition on_backend :: "('b \<Rightarrow> go_error option \<times> 'b) \<Rightarrow> 'b fw_manager \<Rightarrow> go_error option \<times> 'b fw_manager" where
  "on_backend f m = (case f (fm_backend m) of (e, b) \<Rightarrow> (e, m\<lparr>fm_backend := b\<rparr>))"

definition new_mapping :: "string \<Rightarrow> string \<Rightarrow> string \<Rightarrow> int \<Rightarrow> int \<Rightarrow> string \<Rightarrow> port_mapping" where
  "new_mapping inst prov protocol hostPort targetPort targetIP =
     (let pm = \<lparr>pm_ID = [], pm_Instance = inst, pm_Provider = prov, pm_Protocol = protocol, pm_HostPort = hostPort,
                pm_TargetIP = targetIP, pm_TargetPort = targetPort, pm_HostInterface = [], pm_Description = [],
                pm_Active = True\<rparr>
      in pm\<lparr>pm_ID := GenerateID pm\<rparr>)"

definition ExposePort ::
    "manager_env \<Rightarrow> 'b fw_backend \<Rightarrow> string \<Rightarrow> string \<Rightarrow> string \<Rightarrow> int \<Rightarrow> int \<Rightarrow> string \<Rightarrow> 'b fw_manager \<Rightarrow>
     port_mapping go_result \<times> 'b fw_manager" where
  "ExposePort me be inst prov protocol hostPort targetPort targetIP m =
     (let mapping = new_mapping inst prov protocol hostPort targetPort targetIP in
      case PM_Validate mapping of
        Some e \<Rightarrow> (Inl e, m)
      | None \<Rightarrow>
     (case on_backend (fb_AddPortMapping be mapping) m of
        (Some e, m1) \<Rightarrow> (Inl (Wrapf ''failed to add port mapping: %w'' [] e), m1)
      | (None, m1) \<Rightarrow>
     (case persistMapping me inst mapping m1 of
        (None, m2) \<Rightarrow> (Inr mapping, m2)
      | (Some e, m2) \<Rightarrow>
          (case on_backend (fb_RemovePortMapping be mapping) m2 of
             (Some rb, m3) \<Rightarrow> (Inl (Wrapf ''failed to persist mapping: %w (rollback also failed: %w)'' [] (Joined [e, rb])), m3)
           | (None, m3) \<Rightarrow> (Inl (Wrapf ''failed to persist mapping: %w'' [] e), m3)))))"

definition same_port :: "int \<Rightarrow> string \<Rightarrow> port_mapping \<Rightarrow> bool" where
  "same_port hostPort protocol pm \<longleftrightarrow> pm_HostPort pm = hostPort \<and> pm_Protocol pm = protocol"

definition UnexposePort ::
    "manager_env \<Rightarrow> 'b fw_backend \<Rightarrow> string \<Rightarrow> int \<Rightarrow> string \<Rightarrow> 'b fw_manager \<Rightarrow> go_error option \<times> 'b fw_manager" where
  "UnexposePort me be inst hostPort protocol m =
     (case loadRuleSet me m inst of
        Inl e \<Rightarrow> (Some e, m)
      | Inr rs \<Rightarrow>
          let found = filter (same_port hostPort protocol) (rs_PortMappings rs);
              remaining = filter (\<lambda>pm. \<not> same_port hostPort protocol pm) (rs_PortMappings rs)
          in if found = [] then (Some (Errorf ''port mapping not found: %d/%s'' [itoa hostPort, protocol]), m)
             else (case on_backend (fb_RemovePortMapping be (last found)) m of
                     (Some e, m1) \<Rightarrow> (Some (Wrapf ''failed to remove port mapping: %w'' [] e), m1)
                   | (None, m1) \<Rightarrow> saveRuleSet me inst (rs\<lparr>rs_PortMappings := remaining\<rparr>) m1))"

definition ListExposedPorts :: "manager_env \<Rightarrow> 'b fw_manager \<Rightarrow> string \<Rightarrow> port_mapping list go_result" where
  "ListExposedPorts me m inst =
     (case loadRuleSet me m inst of
        Inl e \<Rightarrow> if e = ErrNotExist then Inr [] else Inl e
      | Inr rs \<Rightarrow> Inr (rs_PortMappings rs))"

definition slug :: "string \<Rightarrow> string" where
  "slug s = map (\<lambda>c. if c = CHR ''/'' then CHR ''_'' else if c = CHR ''.'' \<or> c = CHR '':'' then CHR ''-'' else c) s"

definition natRuleID :: "string \<Rightarrow> string \<Rightarrow> string" where
  "natRuleID inst sourceNetwork = inst @ ''-nat-'' @ slug sourceNetwork"

definition SetupNAT ::
    "manager_env \<Rightarrow> 'b fw_backend \<Rightarrow> string \<Rightarrow> string \<Rightarrow> string \<Rightarrow> string \<Rightarrow> 'b fw_manager \<Rightarrow>
     nat_rule go_result \<times> 'b fw_manager" where
  "SetupNAT me be inst prov sourceNetwork outInterface m =
     (let rule = \<lparr>nr_ID = natRuleID inst sourceNetwork, nr_Instance = inst, nr_Provider = prov,
                  nr_SourceNetwork = sourceNetwork, nr_OutInterface = outInterface, nr_Active = True\<rparr> in
      case NR_Validate rule of
        Some e \<Rightarrow> (Inl e, m)
      | None \<Rightarrow>
     (case on_backend (fb_AddNATRule be rule) m of
        (Some e, m1) \<Rightarrow> (Inl (Wrapf ''failed to add NAT rule: %w'' [] e), m1)
      | (None, m1) \<Rightarrow>
     (case persistNATRule me inst rule m1 of
        (None, m2) \<Rightarrow> (Inr rule, m2)
      | (Some e, m2) \<Rightarrow>
          (case on_backend (fb_RemoveNATRule be rule) m2 of
             (Some rb, m3) \<Rightarrow> (Inl (Wrapf ''failed to persist NAT rule: %w (rollback also failed: %w)'' [] (Joined [e, rb])), m3)
           | (None, m3) \<Rightarrow> (Inl (Wrapf ''failed to persist NAT rule: %w'' [] e), m3)))))"

fun remove_each :: "'b fw_backend \<Rightarrow> nat_rule list \<Rightarrow> 'b fw_manager \<Rightarrow> go_error option \<times> 'b fw_manager" where
  "remove_each be [] m = (None, m)"
| "remove_each be (r # rs) m =
     (case on_backend (fb_RemoveNATRule be r) m of
        (Some e, m1) \<Rightarrow> (Some (Wrapf ''failed to remove NAT rule: %w'' [] e), m1)
      | (None, m1) \<Rightarrow> remove_each be rs m1)"

definition RemoveNAT :: "manager_env \<Rightarrow> 'b fw_backend \<Rightarrow> string \<Rightarrow> 'b fw_manager \<Rightarrow> go_error option \<times> 'b fw_manager" where
  "RemoveNAT me be inst m =
     (case loadRuleSet me m inst of
        Inl e \<Rightarrow> if e = ErrNotExist then (None, m) else (Some e, m)
      | Inr rs \<Rightarrow>
          (case remove_each be (rs_NATRules rs) m of
             (Some e, m1) \<Rightarrow> (Some e, m1)
           | (None, m1) \<Rightarrow> saveRuleSet me inst (rs\<lparr>rs_NATRules := []\<rparr>) m1))"

definition RemoveAllRules :: "manager_env \<Rightarrow> 'b fw_backend \<Rightarrow> string \<Rightarrow> 'b fw_manager \<Rightarrow> go_error option \<times> 'b fw_manager" where
  "RemoveAllRules me be inst m =
     (case on_backend (fb_RemoveAllRules be inst) m of
        (Some e, m1) \<Rightarrow> (Some (Wrapf ''failed to remove rules from backend: %w'' [] e), m1)
      | (None, m1) \<Rightarrow>
          (case ruleFilePath m1 inst of
             Inl e \<Rightarrow> (Some e, m1)
           | Inr path \<Rightarrow>
               if fm_files m1 path = None then (None, m1)
               else (case me_Remove me path of
                       Some e \<Rightarrow> (Some (Wrapf ''failed to remove rule file: %w'' [] e), m1)
                     | None \<Rightarrow> (None, m1\<lparr>fm_files := (fm_files m1)(path := None)\<rparr>))))"

definition GetRuleSet :: "manager_env \<Rightarrow> 'b fw_manager \<Rightarrow> string \<Rightarrow> rule_set go_result" where
  "GetRuleSet me m inst =
     (case loadRuleSet me m inst of
        Inl e \<Rightarrow> if e = ErrNotExist then Inr (empty_rule_set\<lparr>rs_Instance := inst\<rparr>) else Inl e
      | Inr rs \<Rightarrow> Inr rs)"

text \<open>The entries of the rules directory: name and whether it is a directory. A file that cannot be used is skipped.\<close>

fun restore_each :: "manager_env \<Rightarrow> 'b fw_backend \<Rightarrow> (string \<times> bool) list \<Rightarrow> 'b fw_manager \<Rightarrow> 'b fw_manager" where
  "restore_each me be [] m = m"
| "restore_each me be ((name, isDir) # es) m =
     (if isDir \<or> \<not> suffix ''.json'' name then restore_each me be es m
      else (case loadRuleSet me m (take (length name - 5) name) of
              Inl _ \<Rightarrow> restore_each me be es m
            | Inr rs \<Rightarrow> restore_each me be es (snd (on_backend (fb_ApplyRules be rs) m))))"

definition restoreRules :: "manager_env \<Rightarrow> 'b fw_backend \<Rightarrow> 'b fw_manager \<Rightarrow> go_error option \<times> 'b fw_manager" where
  "restoreRules me be m =
     (case me_ReadDir me of
        Inl e \<Rightarrow> (if e = ErrNotExist then None else Some e, m)
      | Inr entries \<Rightarrow> (None, restore_each me be entries m))"

end
