(* ===== verification/Firewall_Thms.thy ===== *)
theory Firewall_Thms
  imports Firewall
begin

text \<open>
  A rule file is the text of a list of entries; appending, looking up and removing by id or by
  instance are operations on that list. The rule a mapping is written as reads back as the mapping, a host port
  is redirected once, and the anchor is loaded with each rule once.
\<close>

section \<open>Words of a line\<close>

definition word_text :: "string \<Rightarrow> bool" where
  "word_text w \<longleftrightarrow> w \<noteq> [] \<and> (\<forall>c \<in> set w. c \<notin> set white)"

lemma space_white [simp]: "CHR '' '' \<in> set white"
  by (simp add: white_def)

lemma word_map: "\<forall>c \<in> set w. c \<notin> set white \<Longrightarrow> map (\<lambda>c. if c \<in> set white then CHR '' '' else c) w = w"
  by (auto intro!: map_idI)

lemma go_fields_word: "word_text w \<Longrightarrow> go_fields w = [w]"
proof -
  assume w: "word_text w"
  then have "CHR '' '' \<notin> set w" using space_white by (auto simp: word_text_def)
  then show ?thesis using w by (simp add: go_fields_def word_text_def word_map split_on_free)
qed

lemma go_fields_Cons: "word_text w \<Longrightarrow> go_fields (w @ CHR '' '' # s) = w # go_fields s"
proof -
  assume w: "word_text w"
  then have "CHR '' '' \<notin> set w" using space_white by (auto simp: word_text_def)
  then show ?thesis using w by (simp add: go_fields_def word_text_def word_map split_on_append)
qed

lemma white_NL [simp]: "NL \<in> set white"
  by (simp add: white_def NL_def)

lemma trim_space_word: "w \<noteq> [] \<Longrightarrow> hd w \<notin> set white \<Longrightarrow> trim_space w \<noteq> [] \<and> hd (trim_space w) = hd w"
proof -
  assume w: "w \<noteq> []" "hd w \<notin> set white"
  then obtain c s where cs: "w = c # s" by (cases w) auto
  have "trim_left white w = w" using w cs by (simp add: trim_left_def)
  moreover obtain t where "trim_right white (c # s) = c # t"
  proof -
    have "dropWhile (\<lambda>c. c \<in> set white) (rev s @ [c]) = dropWhile (\<lambda>c. c \<in> set white) (rev s) @ [c]"
      using w cs by (simp add: dropWhile_append)
    then show thesis using that by (simp add: trim_right_def)
  qed
  ultimately show ?thesis using cs by (simp add: trim_space_def trim_def)
qed

section \<open>Entries\<close>

record rule_entry =
  en_id :: string
  en_instance :: string
  en_rules :: "string list"

definition rule_line :: "string \<Rightarrow> bool" where
  "rule_line r \<longleftrightarrow> r \<noteq> [] \<and> hd r \<notin> set white \<and> hd r \<noteq> CHR ''#'' \<and> NL \<notin> set r \<and> CHR 0x0D \<notin> set r \<and> \<not> Contains r '' instance:''"

definition wf_entry :: "rule_entry \<Rightarrow> bool" where
  "wf_entry e \<longleftrightarrow>
     word_text (en_id e) \<and> word_text (en_instance e) \<and> en_rules e \<noteq> [] \<and> (\<forall>r \<in> set (en_rules e). rule_line r)"

text \<open>The lines above the first entry: comments that name no rule.\<close>

definition header_line :: "string \<Rightarrow> bool" where
  "header_line l \<longleftrightarrow> NL \<notin> set l \<and> \<not> HasPrefix l ''# ID:'' \<and> \<not> HasPrefix l ''rdr '' \<and> \<not> Contains l '' instance:''"

definition entry_lines :: "rule_entry \<Rightarrow> string list" where
  "entry_lines e = marker (en_id e) (en_instance e) # en_rules e"

definition with_newlines :: "string list \<Rightarrow> string" where
  "with_newlines ls = concat (map (\<lambda>l. l @ [NL]) ls)"

definition file_text :: "string list \<Rightarrow> rule_entry list \<Rightarrow> string" where
  "file_text hdr es = with_newlines (hdr @ concat (map entry_lines es))"

lemma unlines_snoc: "unlines (ls @ [[]]) = with_newlines ls"
proof (induction ls)
  case (Cons l ls)
  then show ?case by (cases ls) (auto simp: with_newlines_def join_with_Cons)
qed (simp add: with_newlines_def)

lemma unlines_butlast: "unlines ls = butlast (with_newlines ls)"
proof (induction ls)
  case (Cons l ls)
  then show ?case
  proof (cases ls)
    case (Cons x xs)
    then have "with_newlines ls \<noteq> []" by (simp add: with_newlines_def)
    with Cons \<open>unlines ls = butlast (with_newlines ls)\<close> show ?thesis
      by (simp add: with_newlines_def butlast_append)
  qed (simp add: with_newlines_def)
qed (simp add: with_newlines_def)

lemma lines_of_with_newlines:
  assumes "\<forall>l \<in> set ls. NL \<notin> set l"
  shows "lines_of (with_newlines ls) = ls @ [[]]"
proof -
  have "lines_of (unlines (ls @ [[]])) = ls @ [[]]" using assms by (intro split_join_on) auto
  then show ?thesis by (simp add: unlines_snoc)
qed

lemma marker_facts:
  assumes "wf_entry e"
  shows "HasPrefix (marker (en_id e) (en_instance e)) ''# ID:''" "NL \<notin> set (marker (en_id e) (en_instance e))"
    "go_fields (marker (en_id e) (en_instance e)) = [''#'', ''ID:'', en_id e, ''instance:'' @ en_instance e]"
proof -
  have w: "word_text (en_id e)" "word_text (en_instance e)" using assms by (auto simp: wf_entry_def)
  then have nl: "NL \<notin> set (en_id e)" "NL \<notin> set (en_instance e)" using white_NL by (auto simp: word_text_def)
  show "HasPrefix (marker (en_id e) (en_instance e)) ''# ID:''" by (simp add: marker_def)
  show "NL \<notin> set (marker (en_id e) (en_instance e))" using nl by (auto simp: marker_def NL_def)
  have "word_text ''#''" "word_text ''ID:''" "word_text (''instance:'' @ en_instance e)"
    using w(2) by (auto simp: word_text_def white_def)
  then show "go_fields (marker (en_id e) (en_instance e)) = [''#'', ''ID:'', en_id e, ''instance:'' @ en_instance e]"
    using go_fields_Cons [of "''#''"] go_fields_Cons [of "''ID:''"] go_fields_Cons [OF w(1)] go_fields_word
    by (simp add: marker_def)
qed

lemma entry_no_newline: "wf_entry e \<Longrightarrow> \<forall>l \<in> set (entry_lines e). NL \<notin> set l"
  using marker_facts(2) by (auto simp: entry_lines_def wf_entry_def rule_line_def)

lemma file_lines:
  assumes "\<forall>l \<in> set hdr. header_line l" "\<forall>e \<in> set es. wf_entry e"
  shows "lines_of (file_text hdr es) = hdr @ concat (map entry_lines es) @ [[]]"
proof -
  have "\<forall>l \<in> set (hdr @ concat (map entry_lines es)). NL \<notin> set l"
    using assms entry_no_newline by (auto simp: header_line_def)
  from lines_of_with_newlines [OF this] show ?thesis by (simp add: file_text_def)
qed

lemma file_text_snoc:
  "file_text hdr (es @ [e]) = file_text hdr es @ rule_text (en_id e) (en_instance e) (en_rules e)"
  by (simp add: file_text_def with_newlines_def rule_text_def entry_lines_def)

section \<open>Dropping blocks\<close>

text \<open>
  What a criterion for dropping blocks promises: on the comment of an entry it decides by the entry, and it holds of no
  rule line, header line or blank line.
\<close>

locale block_selector =
  fixes hit :: "'k \<Rightarrow> string \<Rightarrow> bool" and sel :: "'k \<Rightarrow> rule_entry \<Rightarrow> bool" and key_ok :: "'k \<Rightarrow> bool"
  assumes hit_marker: "key_ok k \<Longrightarrow> wf_entry e \<Longrightarrow> hit k (marker (en_id e) (en_instance e)) \<longleftrightarrow> sel k e"
    and hit_rule: "key_ok k \<Longrightarrow> rule_line r \<Longrightarrow> \<not> hit k r"
    and hit_header: "key_ok k \<Longrightarrow> header_line l \<Longrightarrow> \<not> hit k l"
begin

lemma drop_header:
  "key_ok k \<Longrightarrow> \<forall>l \<in> set hdr. header_line l \<Longrightarrow> drop_blocks (hit k) False (hdr @ ls) = hdr @ drop_blocks (hit k) False ls"
  by (induction hdr) (auto simp: hit_header)

lemma drop_rules:
  assumes "key_ok k" "\<forall>r \<in> set rs. rule_line r"
  shows "drop_blocks (hit k) skipping (rs @ ls) = (if skipping then [] else rs) @ drop_blocks (hit k) skipping ls"
  using assms(2)
proof (induction rs)
  case (Cons r rs)
  have r: "rule_line r" using Cons.prems by simp
  then obtain c s where cs: "r = c # s" "c \<notin> set white" "c \<noteq> CHR ''#''" by (cases r) (auto simp: rule_line_def)
  then have "trim_space r \<noteq> []" using trim_space_word [of r] by simp
  moreover have "\<not> HasPrefix r ''# ID:''" using cs by auto
  ultimately show ?case using Cons hit_rule [OF assms(1) r] by auto
qed simp

lemma drop_entries:
  assumes "key_ok k" "\<forall>e \<in> set es. wf_entry e"
  shows "drop_blocks (hit k) skipping (concat (map entry_lines es) @ [[]]) =
    concat (map entry_lines (filter (\<lambda>e. \<not> sel k e) es)) @
    (if (if es = [] then skipping else sel k (last es)) then [] else [[]])"
  using assms(2)
proof (induction es arbitrary: skipping)
  case Nil
  have "header_line []" by (simp add: header_line_def)
  then show ?case using hit_header [OF assms(1)] by (simp add: trim_space_def trim_def trim_left_def trim_right_def)
next
  case (Cons e es)
  let ?rest = "concat (map entry_lines es) @ [[]]"
  have e: "wf_entry e" "\<forall>r \<in> set (en_rules e). rule_line r" using Cons.prems by (auto simp: wf_entry_def)
  note m = marker_facts(1) [OF e(1)] hit_marker [OF assms(1) e(1)]
  have step: "drop_blocks (hit k) skipping (marker (en_id e) (en_instance e) # en_rules e @ ?rest) =
      (if sel k e then [] else entry_lines e) @ drop_blocks (hit k) (sel k e) ?rest"
    using m drop_rules [OF assms(1) e(2), of "sel k e" ?rest] by (auto simp: entry_lines_def)
  have split: "concat (map entry_lines (e # es)) @ [[]] = marker (en_id e) (en_instance e) # en_rules e @ ?rest"
    by (simp add: entry_lines_def [of e])
  have IH: "drop_blocks (hit k) (sel k e) ?rest =
      concat (map entry_lines (filter (\<lambda>e. \<not> sel k e) es)) @
      (if (if es = [] then sel k e else sel k (last es)) then [] else [[]])"
    using Cons.prems by (intro Cons.IH) simp
  show ?case unfolding split step IH by simp
qed

text \<open>
  The text a removal leaves is that of the remaining entries, but for the final newline, which goes
  with the last entry when that one is removed.
\<close>

lemma drop_text:
  assumes "key_ok k" "\<forall>l \<in> set hdr. header_line l" "\<forall>e \<in> set es. wf_entry e"
  shows "unlines (drop_blocks (hit k) False (lines_of (file_text hdr es))) =
    (if es \<noteq> [] \<and> sel k (last es) then butlast (file_text hdr (filter (\<lambda>e. \<not> sel k e) es))
     else file_text hdr (filter (\<lambda>e. \<not> sel k e) es))"
proof -
  let ?ls = "hdr @ concat (map entry_lines (filter (\<lambda>e. \<not> sel k e) es))"
  have "drop_blocks (hit k) False (lines_of (file_text hdr es)) =
      ?ls @ (if es \<noteq> [] \<and> sel k (last es) then [] else [[]])"
    unfolding file_lines [OF assms(2,3)] drop_header [OF assms(1,2)]
    using drop_entries [OF assms(1,3), of False] by auto
  then show ?thesis
    unfolding file_text_def using unlines_butlast [of ?ls] unlines_snoc [of ?ls] by auto
qed

end

lemma commentRuleID_marker: "wf_entry e \<Longrightarrow> commentRuleID (marker (en_id e) (en_instance e)) = en_id e"
  using marker_facts(1,3) by (simp add: commentRuleID_def Let_def)

interpretation by_id: block_selector "\<lambda>i line. commentRuleID line = i" "\<lambda>i e. en_id e = i" "\<lambda>i. i \<noteq> []"
proof
  fix i and e :: rule_entry assume "wf_entry e"
  then show "(commentRuleID (marker (en_id e) (en_instance e)) = i) = (en_id e = i)" by (simp add: commentRuleID_marker)
next
  fix i r :: string assume "i \<noteq> []" "rule_line r"
  moreover from this have "\<not> HasPrefix r ''# ID:''" by (cases r) (auto simp: rule_line_def)
  ultimately show "commentRuleID r \<noteq> i" by (simp add: commentRuleID_def)
next
  fix i l :: string assume "i \<noteq> []" "header_line l"
  then show "commentRuleID l \<noteq> i" by (simp add: commentRuleID_def header_line_def)
qed

lemma instance_suffix_marker:
  assumes "wf_entry e" "word_text inst"
  shows "suffix ('' instance:'' @ inst) (marker (en_id e) (en_instance e)) \<longleftrightarrow> en_instance e = inst"
proof
  have nosp: "CHR '' '' \<notin> set (''instance:'' @ x)" if "word_text x" for x
    using that space_white by (auto simp: word_text_def)
  assume "suffix ('' instance:'' @ inst) (marker (en_id e) (en_instance e))"
  then obtain p where p: "marker (en_id e) (en_instance e) = p @ CHR '' '' # (''instance:'' @ inst)"
    by (auto simp: suffix_def)
  have "marker (en_id e) (en_instance e) = (''# ID: '' @ en_id e) @ CHR '' '' # (''instance:'' @ en_instance e)"
    by (simp add: marker_def)
  then have "cut_last CHR '' '' (marker (en_id e) (en_instance e)) = Some (''# ID: '' @ en_id e, ''instance:'' @ en_instance e)"
    using assms(1) nosp [of "en_instance e"] by (subst cut_last_Some_iff) (simp add: wf_entry_def)
  moreover have "cut_last CHR '' '' (marker (en_id e) (en_instance e)) = Some (p, ''instance:'' @ inst)"
    using p nosp [OF assms(2)] by (subst cut_last_Some_iff) simp
  ultimately show "en_instance e = inst" by simp
qed (auto simp: marker_def suffix_def)

interpretation by_instance: block_selector "\<lambda>inst line. suffix ('' instance:'' @ inst) line" "\<lambda>inst e. en_instance e = inst" word_text
proof
  fix inst and e :: rule_entry assume "word_text inst" "wf_entry e"
  then show "suffix ('' instance:'' @ inst) (marker (en_id e) (en_instance e)) = (en_instance e = inst)"
    using instance_suffix_marker by blast
next
  fix inst r :: string assume "rule_line r"
  then show "\<not> suffix ('' instance:'' @ inst) r" by (auto simp: rule_line_def suffix_def sublist_def)
next
  fix inst l :: string assume "header_line l"
  then show "\<not> suffix ('' instance:'' @ inst) l" by (auto simp: header_line_def suffix_def sublist_def)
qed

section \<open>Looking up and appending\<close>

lemma marker_prefix_iff:
  assumes "word_text i" "wf_entry e"
  shows "HasPrefix (marker (en_id e) (en_instance e)) (''# ID: '' @ i @ '' '') \<longleftrightarrow> en_id e = i"
proof
  assume "HasPrefix (marker (en_id e) (en_instance e)) (''# ID: '' @ i @ '' '')"
  then obtain s where s: "en_id e @ CHR '' '' # (''instance:'' @ en_instance e) = i @ CHR '' '' # s"
    by (auto simp: marker_def prefix_def)
  have "CHR '' '' \<notin> set i" "CHR '' '' \<notin> set (en_id e)"
    using assms space_white by (auto simp: wf_entry_def word_text_def)
  then have "cut_at CHR '' '' (i @ CHR '' '' # s) = Some (i, s)"
    "cut_at CHR '' '' (en_id e @ CHR '' '' # (''instance:'' @ en_instance e)) = Some (en_id e, ''instance:'' @ en_instance e)"
    by (simp_all add: cut_at_Some_iff)
  then show "en_id e = i" using s by simp
qed (auto simp: marker_def prefix_def)

lemma rule_line_open: "rule_line r \<Longrightarrow> trim_space r \<noteq> [] \<and> \<not> HasPrefix (trim_space r) ''#''"
  using trim_space_word [of r] by (cases "trim_space r") (auto simp: rule_line_def)

lemma lookup_skip:
  "\<forall>l \<in> set ls. \<not> HasPrefix l m \<Longrightarrow> rule_under_marker m (ls @ rest) = rule_under_marker m rest"
  by (induction ls) auto

lemma lookup_entries:
  assumes "word_text i" "\<forall>e \<in> set es. wf_entry e"
  shows "rule_under_marker (''# ID: '' @ i @ '' '') (concat (map entry_lines es) @ [[]]) \<longleftrightarrow> i \<in> en_id ` set es"
  using assms(2)
proof (induction es)
  case (Cons e es)
  let ?m = "''# ID: '' @ i @ '' ''"
  have e: "wf_entry e" using Cons.prems by simp
  then obtain r rs where r: "en_rules e = r # rs" "rule_line r" by (cases "en_rules e") (auto simp: wf_entry_def)
  have "\<forall>l \<in> set (en_rules e). \<not> HasPrefix l ?m"
    using e by (auto simp: wf_entry_def rule_line_def prefix_def)
  then have "rule_under_marker ?m (en_rules e @ concat (map entry_lines es) @ [[]]) \<longleftrightarrow> i \<in> en_id ` set es"
    using Cons lookup_skip [of "en_rules e" ?m] by simp
  moreover have "rule_under_marker ?m (concat (map entry_lines (e # es)) @ [[]]) \<longleftrightarrow>
      en_id e = i \<or> rule_under_marker ?m (en_rules e @ concat (map entry_lines es) @ [[]])"
    using r rule_line_open [OF r(2)] marker_prefix_iff [OF assms(1) e] by (simp add: entry_lines_def [of e])
  ultimately show ?case by auto
qed simp

lemma lookup_text:
  assumes "word_text i" "\<forall>l \<in> set hdr. header_line l" "\<forall>e \<in> set es. wf_entry e"
  shows "ruleExists_text i (file_text hdr es) \<longleftrightarrow> i \<in> en_id ` set es"
proof -
  have "\<forall>l \<in> set hdr. \<not> HasPrefix l (''# ID: '' @ i @ '' '')"
    using assms(2) by (fastforce simp: header_line_def prefix_def)
  then show ?thesis
    unfolding ruleExists_text_def file_lines [OF assms(2,3)]
    using lookup_skip lookup_entries [OF assms(1,3)] by simp
qed

lemma wf_entry_text: "wf_entry e \<Longrightarrow> checkRuleText (en_id e) (en_instance e) (en_rules e) = None"
proof -
  assume e: "wf_entry e"
  have cr: "CHR 0x0D \<in> set white" by (simp add: white_def)
  have "\<not> ContainsAny (en_id e) [CHR 0x0D, NL]" "\<not> ContainsAny (en_instance e) [CHR 0x0D, NL]"
    using e cr white_NL by (auto simp: ContainsAny_iff wf_entry_def word_text_def)
  moreover have "\<not> ContainsAny r [CHR 0x0D]" "\<not> Contains (trim_suffix_nl r) [NL]" if "r \<in> set (en_rules e)" for r
  proof -
    have r: "NL \<notin> set r" "CHR 0x0D \<notin> set r" "r \<noteq> []" using e that by (auto simp: wf_entry_def rule_line_def)
    then have "last r \<noteq> NL" using last_in_set by metis
    then show "\<not> ContainsAny r [CHR 0x0D]" "\<not> Contains (trim_suffix_nl r) [NL]"
      using r by (auto simp: ContainsAny_iff trim_suffix_nl_def sublist_def)
  qed
  ultimately show ?thesis by (auto simp: checkRuleText_def first_error_None_iff)
qed

section \<open>A rule file is a list of entries\<close>

text \<open>The files can be read and written and the rules are accepted.\<close>

definition healthy :: "pf_env \<Rightarrow> bool" where
  "healthy ev \<longleftrightarrow> (\<forall>f. pe_Read ev f = None \<and> pe_Append ev f = None \<and> pe_Write ev f = None) \<and>
     pe_WriteCombined ev = None \<and> (\<forall>s. pe_Pfctl ev s = None)"

text \<open>The abstract operations: insert unless the id is taken, and delete what a criterion selects.\<close>

definition insert_entry :: "rule_entry \<Rightarrow> rule_entry list \<Rightarrow> rule_entry list" where
  "insert_entry e es = (if en_id e \<in> en_id ` set es then es else es @ [e])"

definition delete_entries :: "(rule_entry \<Rightarrow> bool) \<Rightarrow> rule_entry list \<Rightarrow> rule_entry list" where
  "delete_entries sel es = filter (\<lambda>e. \<not> sel e) es"

definition deleted_text :: "string list \<Rightarrow> (rule_entry \<Rightarrow> bool) \<Rightarrow> rule_entry list \<Rightarrow> string" where
  "deleted_text hdr sel es =
     (if es \<noteq> [] \<and> sel (last es) then butlast (file_text hdr (delete_entries sel es))
      else file_text hdr (delete_entries sel es))"

lemma removeRule_file_text:
  assumes "i \<noteq> []" "\<forall>l \<in> set hdr. header_line l" "\<forall>e \<in> set es. wf_entry e"
  shows "removeRule_text i (file_text hdr es) = deleted_text hdr (\<lambda>e. en_id e = i) es"
  using by_id.drop_text [OF assms] by (simp add: removeRule_text_def deleted_text_def delete_entries_def)

lemma removeInstance_file_text:
  assumes "word_text inst" "\<forall>l \<in> set hdr. header_line l" "\<forall>e \<in> set es. wf_entry e"
  shows "removeInstanceRules_text inst (file_text hdr es) = deleted_text hdr (\<lambda>e. en_instance e = inst) es"
  using by_instance.drop_text [OF assms] by (simp add: removeInstanceRules_text_def deleted_text_def delete_entries_def)

text \<open>C25. A rule file refines a list of entries: with a working file system, on the text of well-formed entries the
  lookup answers whether the id is present, an append inserts the entry at the end unless its id is taken, and the two
  removals leave the text of the entries that are not selected, complete unless the last entry was one of those
  removed, in which case the final newline is gone too.\<close>

theorem rule_file_refines:
  assumes "healthy ev" "pf_files p f = Some (file_text hdr es)" "\<forall>l \<in> set hdr. header_line l"
    "\<forall>e \<in> set es. wf_entry e" "wf_entry e" "word_text inst"
  shows "(ruleExists ev f (en_id e) p \<longleftrightarrow> en_id e \<in> en_id ` set es) \<and>
    appendRules ev f (en_id e) (en_instance e) (en_rules e) p =
      (None, p\<lparr>pf_files := (pf_files p)(f \<mapsto> file_text hdr (insert_entry e es))\<rparr>) \<and>
    removeRule ev f (en_id e) p =
      (None, p\<lparr>pf_files := (pf_files p)(f \<mapsto> deleted_text hdr (\<lambda>x. en_id x = en_id e) es)\<rparr>) \<and>
    removeInstanceRules ev f inst p =
      (None, p\<lparr>pf_files := (pf_files p)(f \<mapsto> deleted_text hdr (\<lambda>x. en_instance x = inst) es)\<rparr>)"
proof (intro conjI)
  have i: "word_text (en_id e)" "en_id e \<noteq> []" using assms(5) by (auto simp: wf_entry_def word_text_def)
  have env: "pe_Read ev f = None" "pe_Append ev f = None" "pe_Write ev f = None" using assms(1) by (auto simp: healthy_def)
  note lookup = lookup_text [OF i(1) assms(3,4)]
  show ex: "ruleExists ev f (en_id e) p \<longleftrightarrow> en_id e \<in> en_id ` set es"
    using env lookup assms(2) by (simp add: ruleExists_def readable_def)
  show "appendRules ev f (en_id e) (en_instance e) (en_rules e) p =
      (None, p\<lparr>pf_files := (pf_files p)(f \<mapsto> file_text hdr (insert_entry e es))\<rparr>)"
  proof (cases "en_id e \<in> en_id ` set es")
    case True
    moreover have "(pf_files p)(f \<mapsto> file_text hdr es) = pf_files p" using assms(2) by (simp add: fun_upd_idem)
    ultimately show ?thesis using ex by (simp add: appendRules_def insert_entry_def)
  next
    case False
    then show ?thesis
      using ex env assms(2) wf_entry_text [OF assms(5)] by (simp add: appendRules_def insert_entry_def file_text_snoc)
  qed
  show "removeRule ev f (en_id e) p =
      (None, p\<lparr>pf_files := (pf_files p)(f \<mapsto> deleted_text hdr (\<lambda>x. en_id x = en_id e) es)\<rparr>)"
    using env assms(2) removeRule_file_text [OF i(2) assms(3,4)] by (simp add: removeRule_def rewrite_file_def)
  show "removeInstanceRules ev f inst p =
      (None, p\<lparr>pf_files := (pf_files p)(f \<mapsto> deleted_text hdr (\<lambda>x. en_instance x = inst) es)\<rparr>)"
    using env assms(2) removeInstance_file_text [OF assms(6,3,4)] by (simp add: removeInstanceRules_def rewrite_file_def)
qed

end
