(* ===== verification/Firewall_Mappings.thy ===== *)
theory Firewall_Mappings
  imports Firewall_Thms Validation_Thms
begin

text \<open>
  Port mappings in the redirect file: the rule a mapping is written as reads back as the mapping, a host port is
  redirected once, the anchor is loaded with each rule once, and what happens to the rule that follows a removal of the
  last one.
\<close>

section \<open>Text made of words\<close>

lemma go_fields_join: "ws \<noteq> [] \<Longrightarrow> \<forall>w \<in> set ws. word_text w \<Longrightarrow> go_fields (join_with CHR '' '' ws) = ws"
proof (induction ws)
  case (Cons w ws)
  then show ?case by (cases ws) (auto simp: go_fields_word go_fields_Cons)
qed simp

lemma sublist_past_sep:
  fixes x y w s :: string
  assumes "d \<notin> set w" "d \<notin> set x"
  shows "sublist (x @ d # y) (w @ d # s) \<longleftrightarrow> suffix x w \<and> prefix y s \<or> sublist (x @ d # y) s"
proof
  assume "sublist (x @ d # y) (w @ d # s)"
  then obtain p q where e: "w @ d # s = p @ x @ d # y @ q" by (auto simp: sublist_def)
  have w: "cut_at d (w @ d # s) = Some (w, s)" using assms(1) by (simp add: cut_at_Some_iff)
  show "suffix x w \<and> prefix y s \<or> sublist (x @ d # y) s"
  proof (cases "d \<in> set p")
    case True
    then obtain a b where p: "p = a @ d # b" "d \<notin> set a" by (meson split_list_first)
    then have "cut_at d (p @ x @ d # y @ q) = Some (a, b @ x @ d # y @ q)" by (simp add: cut_at_Some_iff)
    with w e have "s = b @ x @ d # y @ q" by simp
    then have "s = b @ (x @ d # y) @ q" by simp
    then show ?thesis unfolding sublist_def by blast
  next
    case False
    then have "cut_at d (p @ x @ d # y @ q) = Some (p @ x, y @ q)" using assms(2) by (simp add: cut_at_Some_iff)
    with w e show ?thesis by (auto simp: suffix_def)
  qed
next
  assume "suffix x w \<and> prefix y s \<or> sublist (x @ d # y) s"
  then show "sublist (x @ d # y) (w @ d # s)"
  proof
    assume "suffix x w \<and> prefix y s"
    then obtain p q where "w = p @ x" "s = y @ q" by (auto simp: suffix_def prefix_def)
    then have "w @ d # s = p @ (x @ d # y) @ q" by simp
    then show ?thesis unfolding sublist_def by blast
  next
    assume "sublist (x @ d # y) s"
    then obtain p q where "s = p @ (x @ d # y) @ q" unfolding sublist_def by blast
    then have "w @ d # s = (w @ d # p) @ (x @ d # y) @ q" by simp
    then show ?thesis unfolding sublist_def by blast
  qed
qed

lemma sublist_no_sep: "d \<notin> set w \<Longrightarrow> \<not> sublist (x @ d # y) w"
  by (auto simp: sublist_def)

lemma prefix_past_sep:
  fixes v y w s :: string
  shows "d \<notin> set w \<Longrightarrow> d \<notin> set v \<Longrightarrow> prefix (v @ d # y) (w @ d # s) \<longleftrightarrow> v = w \<and> prefix y s"
proof -
  assume d: "d \<notin> set w" "d \<notin> set v"
  have "v = w \<and> prefix y s" if "prefix (v @ d # y) (w @ d # s)"
  proof -
    from that obtain q where e: "w @ d # s = v @ d # y @ q" by (auto simp: prefix_def)
    moreover have "cut_at d (w @ d # s) = Some (w, s)" "cut_at d (v @ d # y @ q) = Some (v, y @ q)"
      using d by (simp_all add: cut_at_Some_iff)
    ultimately have "w = v \<and> s = y @ q" by (metis option.inject prod.inject)
    then show ?thesis by simp
  qed
  then show ?thesis by (auto simp: prefix_def)
qed

lemma prefix_no_sep: "d \<notin> set w \<Longrightarrow> \<not> prefix (v @ d # y) w"
  by (auto simp: prefix_def)

lemma prefix_in_word: "d \<notin> set y \<Longrightarrow> prefix y (w @ d # s) \<longleftrightarrow> prefix y w"
proof (induction w arbitrary: y)
  case Nil
  then show ?case by (cases y) auto
next
  case (Cons c w)
  then show ?case by (cases y) auto
qed

section \<open>The words of a redirect rule\<close>

lemma digit_not_white: "is_digit c \<Longrightarrow> c \<notin> set white"
  by (auto simp: is_digit_def in_range_def white_def byte_def)

lemma itoa_digits: "0 \<le> n \<Longrightarrow> itoa n \<noteq> [] \<and> list_all is_digit (itoa n)"
  using itoa_nat_digits by (simp add: itoa_def)

lemma itoa_word: "0 \<le> n \<Longrightarrow> word_text (itoa n)"
  using itoa_digits [of n] digit_not_white by (auto simp: word_text_def list_all_iff)

lemma itoa_inj: "0 \<le> m \<Longrightarrow> 0 \<le> n \<Longrightarrow> itoa m = itoa n \<longleftrightarrow> m = n"
  by (auto simp: itoa_def)

lemma parse_itoa:
  assumes "0 \<le> n" "n < 2 ^ 63"
  shows "parse_int64 (itoa n) = Inr n"
proof -
  obtain c s where cs: "itoa n = c # s" "is_digit c" "list_all is_digit s"
    using itoa_digits [OF assms(1)] by (cases "itoa n") auto
  then have "c \<noteq> CHR ''-''" "c \<noteq> CHR ''+''" by (auto simp: is_digit_def in_range_def byte_def)
  moreover have "atoi_nat (c # s) = nat n" using cs(1) assms(1) atoi_itoa_nat [of "nat n"] by (simp add: itoa_def)
  ultimately show ?thesis using cs assms by (simp add: parse_int64_def)
qed

definition rdr_words :: "string \<Rightarrow> port_mapping \<Rightarrow> string list" where
  "rdr_words iface m =
     [''rdr'', ''pass'', ''on'', iface, ''proto'', pm_Protocol m, ''from'', ''any'', ''to'', ''any'', ''port'',
      itoa (pm_HostPort m), ''->'', pm_TargetIP m, ''port'', itoa (pm_TargetPort m)]"

lemma rdr_rule_words: "rdr_rule iface m = join_with CHR '' '' (rdr_words iface m)"
  by (simp add: rdr_rule_def rdr_words_def)

lemma iface_word: "validateIfaceName iface = None \<Longrightarrow> word_text iface \<and> CHR '':'' \<notin> set iface \<and> CHR ''/'' \<notin> set iface"
proof -
  have "c \<notin> set white \<and> c \<noteq> CHR '':'' \<and> c \<noteq> CHR ''/''" if "iface_chars first s" "c \<in> set s" for first s c
    using that by (induction first s rule: iface_chars.induct)
      (auto simp: in_range_def is_digit_def white_def byte_def)
  moreover assume "validateIfaceName iface = None"
  ultimately show ?thesis unfolding validateIfaceName_def word_text_def by (metis option.distinct(1))
qed

text \<open>What validation says of a mapping's fields.\<close>

lemma name_chars_plain: "in_class cls_name c \<Longrightarrow> c \<notin> set white \<and> c \<noteq> CHR ''/''"
  by (auto simp: cls_name_def in_range_def white_def byte_def class_defs)

lemma name_rx_chars:
  assumes "rx_match (name_rx fs rs n) s" "c \<in> set s"
  shows "in_class fs c \<or> in_class rs c"
proof -
  have s: "s \<noteq> []" "in_class fs (hd s)" "list_all (in_class rs) (tl s)" using assms(1) unfolding name_rx_iff by blast+
  then show ?thesis using assms(2) by (cases s) (auto simp: list_all_iff)
qed

lemma provider_name_plain: "ValidateProviderName n = None \<Longrightarrow> c \<in> set n \<Longrightarrow> c \<notin> set white \<and> c \<noteq> CHR ''/''"
proof -
  assume n: "ValidateProviderName n = None" "c \<in> set n"
  then have "rx_match validProviderNameRegex n" by (simp add: ValidateProviderName_def split: if_splits)
  from name_rx_chars [OF this [unfolded validProviderNameRegex_def] n(2)] show ?thesis
    by (auto simp: class_defs in_range_def white_def byte_def)
qed

lemma interface_name_plain: "ValidateInterfaceName n = None \<Longrightarrow> c \<in> set n \<Longrightarrow> c \<notin> set white \<and> c \<noteq> CHR ''/''"
proof -
  assume n: "ValidateInterfaceName n = None" "c \<in> set n"
  then have "rx_match ValidInterfaceNameRegex n" by (simp add: ValidateInterfaceName_def split: if_splits)
  from name_rx_chars [OF this [unfolded ValidInterfaceNameRegex_def] n(2)] show ?thesis
    by (auto simp: class_defs in_range_def white_def byte_def)
qed

lemma PM_Validate_facts:
  assumes "PM_Validate m = None"
  shows "word_text (pm_Instance m) \<and> CHR ''/'' \<notin> set (pm_Instance m)"
    "pm_Protocol m = ''tcp'' \<or> pm_Protocol m = ''udp''"
    "1 \<le> pm_HostPort m \<and> pm_HostPort m \<le> 65535" "1 \<le> pm_TargetPort m \<and> pm_TargetPort m \<le> 65535"
    "word_text (pm_TargetIP m) \<and> CHR ''/'' \<notin> set (pm_TargetIP m) \<and> CHR ''i'' \<notin> set (pm_TargetIP m) \<and> CHR ''o'' \<notin> set (pm_TargetIP m) \<and> CHR ''-'' \<notin> set (pm_TargetIP m)"
    "(\<forall>c \<in> set (pm_Provider m). c \<notin> set white \<and> c \<noteq> CHR ''/'')"
    "(\<forall>c \<in> set (pm_HostInterface m). c \<notin> set white \<and> c \<noteq> CHR ''/'')"
proof -
  note ok = assms [unfolded PM_Validate_def ProtocolTCP_def ProtocolUDP_def]
  have inst: "pm_Instance m \<noteq> []" "ValidateInstanceName (pm_Instance m) = None"
    and prov: "pm_Provider m = [] \<or> ValidateProviderName (pm_Provider m) = None"
    and iface: "pm_HostInterface m = [] \<or> ValidateInterfaceName (pm_HostInterface m) = None"
    and ip: "pm_TargetIP m \<noteq> []" "ParseIP (pm_TargetIP m) \<noteq> None"
    using ok by (auto split: if_splits option.splits)
  show "word_text (pm_Instance m) \<and> CHR ''/'' \<notin> set (pm_Instance m)"
    using inst(1) instance_name_chars [OF inst(2)] name_chars_plain by (auto simp: word_text_def list_all_iff)
  show "pm_Protocol m = ''tcp'' \<or> pm_Protocol m = ''udp''"
    "1 \<le> pm_HostPort m \<and> pm_HostPort m \<le> 65535" "1 \<le> pm_TargetPort m \<and> pm_TargetPort m \<le> 65535"
    using ok by (auto split: if_splits option.splits)
  obtain a where a: "ParseIP (pm_TargetIP m) = Some a" using ip(2) by auto
  have "c \<notin> set white \<and> c \<noteq> CHR ''/'' \<and> c \<noteq> CHR ''i'' \<and> c \<noteq> CHR ''o'' \<and> c \<noteq> CHR ''-''" if "c \<in> set (pm_TargetIP m)" for c
    using ParseIP_chars [OF a that] by (auto simp: is_hex_def in_range_def white_def byte_def is_digit_def)
  then show "word_text (pm_TargetIP m) \<and> CHR ''/'' \<notin> set (pm_TargetIP m) \<and> CHR ''i'' \<notin> set (pm_TargetIP m) \<and> CHR ''o'' \<notin> set (pm_TargetIP m) \<and> CHR ''-'' \<notin> set (pm_TargetIP m)"
    using ip(1) by (auto simp: word_text_def)
  show "\<forall>c \<in> set (pm_Provider m). c \<notin> set white \<and> c \<noteq> CHR ''/''"
    using prov provider_name_plain [of "pm_Provider m"] by (elim disjE) simp_all
  show "\<forall>c \<in> set (pm_HostInterface m). c \<notin> set white \<and> c \<noteq> CHR ''/''"
    using iface interface_name_plain [of "pm_HostInterface m"] by (elim disjE) simp_all
qed

section \<open>The redirect file of a list of mappings\<close>

text \<open>A mapping the manager made: validated, with the generated id; and an interface accepted for its rule.\<close>

definition mapping_ok :: "string \<times> port_mapping \<Rightarrow> bool" where
  "mapping_ok im \<longleftrightarrow> PM_Validate (snd im) = None \<and> pm_ID (snd im) = GenerateID (snd im) \<and> validateIfaceName (fst im) = None"

definition mapping_entry :: "string \<times> port_mapping \<Rightarrow> rule_entry" where
  "mapping_entry im =
     \<lparr>en_id = pm_ID (snd im), en_instance = pm_Instance (snd im), en_rules = [rdr_rule (fst im) (snd im)]\<rparr>"

definition id_parts :: "port_mapping \<Rightarrow> string list" where
  "id_parts m =
     [pm_Instance m, pm_Provider m, pm_Protocol m, if pm_HostInterface m = [] then ''any'' else pm_HostInterface m,
      itoa (pm_HostPort m), if pm_TargetIP m = [] then ''any'' else pm_TargetIP m, itoa (pm_TargetPort m)]"

lemma GenerateID_parts: "GenerateID m = join_with CHR ''/'' (id_parts m)"
  by (simp add: GenerateID_def id_parts_def Let_def)

definition plain_segment :: "string \<Rightarrow> bool" where
  "plain_segment s \<longleftrightarrow> (\<forall>c \<in> set s. c \<notin> set white \<and> c \<noteq> CHR ''/'')"

lemma id_parts_plain:
  assumes "PM_Validate m = None"
  shows "\<forall>s \<in> set (id_parts m). plain_segment s"
proof -
  note f = PM_Validate_facts [OF assms]
  have "plain_segment (itoa n)" if "1 \<le> n" for n
    using itoa_digits [of n] that digit_not_white
    by (auto simp: plain_segment_def list_all_iff is_digit_def in_range_def byte_def)
  then have "plain_segment (itoa (pm_HostPort m))" "plain_segment (itoa (pm_TargetPort m))" using f(3,4) by blast+
  moreover have "plain_segment ''any''" "plain_segment ''tcp''" "plain_segment ''udp''"
    by (simp_all add: plain_segment_def white_def)
  then have "plain_segment (pm_Protocol m)" "plain_segment ''any''" using f(2) by auto
  moreover have "plain_segment (pm_Instance m)" "plain_segment (pm_Provider m)" "plain_segment (pm_HostInterface m)"
    "plain_segment (pm_TargetIP m)"
    using f(1,5,6,7) unfolding plain_segment_def word_text_def by blast+
  ultimately show ?thesis by (simp add: id_parts_def)
qed

lemma join_chars: "c \<in> set (join_with d ws) \<Longrightarrow> c = d \<or> (\<exists>w \<in> set ws. c \<in> set w)"
proof (induction ws)
  case (Cons w ws)
  then show ?case by (cases ws) auto
qed simp

lemma GenerateID_word: "PM_Validate m = None \<Longrightarrow> word_text (GenerateID m)"
proof -
  assume m: "PM_Validate m = None"
  have "c \<notin> set white" if "c \<in> set (GenerateID m)" for c
    using join_chars [OF that [unfolded GenerateID_parts]] id_parts_plain [OF m]
    by (auto simp: plain_segment_def white_def)
  moreover have "GenerateID m \<noteq> []" by (simp add: GenerateID_def Let_def)
  ultimately show ?thesis by (auto simp: word_text_def)
qed

lemma GenerateID_port:
  assumes "PM_Validate m = None" "PM_Validate m' = None" "GenerateID m = GenerateID m'"
  shows "pm_HostPort m = pm_HostPort m' \<and> pm_Protocol m = pm_Protocol m'"
proof -
  have "id_parts m = id_parts m'"
  proof -
    have s: "split_on CHR ''/'' (join_with CHR ''/'' (id_parts x)) = id_parts x" if "PM_Validate x = None" for x
    proof (rule split_join_on)
      show "id_parts x \<noteq> []" by (simp add: id_parts_def)
      show "\<forall>p \<in> set (id_parts x). CHR ''/'' \<notin> set p" using id_parts_plain [OF that] by (auto simp: plain_segment_def)
    qed
    show ?thesis using s [OF assms(1)] s [OF assms(2)] assms(3) unfolding GenerateID_parts by metis
  qed
  then have "itoa (pm_HostPort m) = itoa (pm_HostPort m')" "pm_Protocol m = pm_Protocol m'"
    by (simp_all add: id_parts_def)
  then show ?thesis
    using PM_Validate_facts(3) [OF assms(1)] PM_Validate_facts(3) [OF assms(2)] by (simp add: itoa_inj)
qed

lemma rdr_words_ok:
  assumes "mapping_ok im"
  shows "\<forall>w \<in> set (rdr_words (fst im) (snd im)). word_text w"
proof -
  let ?m = "snd im"
  have m: "PM_Validate ?m = None" "validateIfaceName (fst im) = None" using assms by (auto simp: mapping_ok_def)
  note f = PM_Validate_facts [OF m(1)]
  have "\<forall>w \<in> set [''rdr'', ''pass'', ''on'', ''proto'', ''from'', ''any'', ''to'', ''port'', ''->'', ''tcp'', ''udp'']. word_text w"
    by (simp add: word_text_def white_def)
  then show ?thesis
    using f(2,3,4,5) iface_word [OF m(2)] itoa_word [of "pm_HostPort ?m"] itoa_word [of "pm_TargetPort ?m"]
    by (auto simp: rdr_words_def)
qed

lemma words_no_space: "word_text w \<Longrightarrow> CHR '' '' \<notin> set w"
  using space_white by (auto simp: word_text_def)

lemma rdr_rule_parses:
  assumes "mapping_ok im"
  shows "parseRdrRule (rdr_rule (fst im) (snd im)) i inst =
    Some \<lparr>pm_ID = i, pm_Instance = inst, pm_Provider = [], pm_Protocol = pm_Protocol (snd im),
      pm_HostPort = pm_HostPort (snd im), pm_TargetIP = pm_TargetIP (snd im), pm_TargetPort = pm_TargetPort (snd im),
      pm_HostInterface = [], pm_Description = [], pm_Active = False\<rparr>"
proof -
  let ?m = "snd im"
  have m: "PM_Validate ?m = None" using assms by (simp add: mapping_ok_def)
  note f = PM_Validate_facts [OF m]
  have "go_fields (rdr_rule (fst im) ?m) = rdr_words (fst im) ?m"
    unfolding rdr_rule_words using rdr_words_ok [OF assms] by (intro go_fields_join) (simp_all add: rdr_words_def)
  moreover have "parse_int64 (itoa (pm_HostPort ?m)) = Inr (pm_HostPort ?m)"
    "parse_int64 (itoa (pm_TargetPort ?m)) = Inr (pm_TargetPort ?m)"
    using f(3,4) by (auto intro!: parse_itoa)
  moreover have "parse_int64 ''proto'' = Inl (Errorf ''strconv.ParseInt: parsing %q: invalid syntax'' [''proto''])"
    by code_simp
  moreover have "itoa (pm_HostPort ?m) \<noteq> ''proto''" "itoa (pm_HostPort ?m) \<noteq> ''port''" "itoa (pm_HostPort ?m) \<noteq> ''->''"
    using itoa_digits [of "pm_HostPort ?m"] f(3) by (auto simp: is_digit_def in_range_def byte_def)
  moreover have "pm_TargetIP ?m \<noteq> ''proto''" "pm_TargetIP ?m \<noteq> ''port''" "pm_TargetIP ?m \<noteq> ''->''"
    using f(5) f(5) by (auto simp: word_text_def)
  ultimately show ?thesis using f(2,3,4) by (auto simp: parseRdrRule_def rdr_words_def Let_def)
qed

text \<open>The tests the backend makes on a rule line, decided by its words.\<close>

lemma rdr_rule_tests:
  assumes "mapping_ok im"
  shows "HasPrefix (rdr_rule (fst im) (snd im)) ''rdr ''"
    "\<not> HasPrefix (rdr_rule (fst im) (snd im)) ''# ID:''"
    "\<not> Contains (rdr_rule (fst im) (snd im)) (CHR '' '' # ''instance:'')"
    "p \<in> {''tcp'', ''udp''} \<Longrightarrow> Contains (rdr_rule (fst im) (snd im)) (''proto'' @ CHR '' '' # p) \<longleftrightarrow> pm_Protocol (snd im) = p"
    "1 \<le> n \<Longrightarrow> Contains (rdr_rule (fst im) (snd im)) ([] @ CHR '' '' # ''port'' @ CHR '' '' # itoa n @ CHR '' '' # []) \<longleftrightarrow>
       pm_HostPort (snd im) = n"
proof -
  let ?m = "snd im"
  have m: "PM_Validate ?m = None" "validateIfaceName (fst im) = None" using assms by (auto simp: mapping_ok_def)
  note f = PM_Validate_facts [OF m(1)] and ifc = iface_word [OF m(2)]
  have hp: "CHR '' '' \<notin> set (itoa k)" if "1 \<le> k" for k using itoa_word [of k] that words_no_space by auto
  have dig: "\<exists>c s. itoa k = c # s \<and> is_digit c" if "1 \<le> k" for k
    using itoa_digits [of k] that by (cases "itoa k") auto
  obtain a s where hpd: "itoa (pm_HostPort ?m) = a # s" "is_digit a" using dig [of "pm_HostPort ?m"] f(3) by blast
  obtain b u where tpd: "itoa (pm_TargetPort ?m) = b # u" "is_digit b" using dig [of "pm_TargetPort ?m"] f(4) by blast
  have nd: "c \<noteq> CHR ''i''" "c \<noteq> CHR ''t''" "c \<noteq> CHR ''u''" "c \<noteq> CHR ''p''" "c \<noteq> CHR ''-''" if "is_digit c" for c
    using that by (auto simp: is_digit_def in_range_def byte_def)
  have sp: "CHR '' '' \<notin> set (fst im)" "CHR '' '' \<notin> set (pm_Protocol ?m)" "CHR '' '' \<notin> set (pm_TargetIP ?m)"
    "CHR '' '' \<notin> set (itoa (pm_HostPort ?m))" "CHR '' '' \<notin> set (itoa (pm_TargetPort ?m))"
    using ifc f(2,3,4,5) hp words_no_space by auto
  show "HasPrefix (rdr_rule (fst im) ?m) ''rdr ''" "\<not> HasPrefix (rdr_rule (fst im) ?m) ''# ID:''"
    by (simp_all add: rdr_rule_def)
  have ipi: "\<not> prefix (CHR ''i'' # x) (pm_TargetIP ?m)" for x using f(5) by (auto simp: prefix_def)
  have ifi: "\<not> prefix ''instance:'' (fst im)" using ifc by (auto simp: prefix_def)
  have "\<not> sublist ([] @ CHR '' '' # ''instance:'') (rdr_rule (fst im) ?m)"
    unfolding rdr_rule_words rdr_words_def join_with.simps
    using sp ipi ifi hpd tpd nd(1) f(2) by (auto simp del: append.simps simp: sublist_past_sep sublist_no_sep prefix_in_word)
  then show "\<not> Contains (rdr_rule (fst im) ?m) (CHR '' '' # ''instance:'')" by simp
  show "Contains (rdr_rule (fst im) ?m) (''proto'' @ CHR '' '' # p) \<longleftrightarrow> pm_Protocol ?m = p" if "p \<in> {''tcp'', ''udp''}"
  proof -
    have p: "p = ''tcp'' \<or> p = ''udp''" using that by simp
    have sfx: "\<not> suffix ''proto'' w" if "w \<in> {''rdr'', ''pass'', ''on'', ''tcp'', ''udp'', ''from'', ''any'', ''to'', ''port'', ''->''}" for w
      using that by (auto simp: suffix_to_prefix)
    have pfx: "\<not> prefix p w" if "w \<in> {''proto'', ''port'', ''->''}" for w
      using that p by auto
    have last: "prefix p ''tcp'' \<longleftrightarrow> ''tcp'' = p" "prefix p ''udp'' \<longleftrightarrow> ''udp'' = p" using p by auto
    have nosp: "CHR '' '' \<notin> set p" using p by auto
    show ?thesis
      unfolding rdr_rule_words rdr_words_def join_with.simps
      using f(2) by (elim disjE) (simp_all del: append.simps prefix_code
          add: sp sublist_past_sep sublist_no_sep prefix_in_word sfx pfx last nosp)
  qed
  show "Contains (rdr_rule (fst im) ?m) ([] @ CHR '' '' # ''port'' @ CHR '' '' # itoa n @ CHR '' '' # []) \<longleftrightarrow> pm_HostPort ?m = n"
    if "1 \<le> n"
  proof -
    have eq: "itoa n = itoa (pm_HostPort ?m) \<longleftrightarrow> pm_HostPort ?m = n" using itoa_inj [of n "pm_HostPort ?m"] f(3) that by auto
    have ne: "itoa n \<noteq> ''proto''" "itoa n \<noteq> ''port''" using dig [OF that] nd(4) by fastforce+
    have ne': "''port'' \<noteq> pm_Protocol ?m" "itoa (pm_HostPort ?m) \<noteq> ''port''" "''port'' \<noteq> itoa (pm_HostPort ?m)" using f(2) hpd nd(4) by auto
    show ?thesis
      unfolding rdr_rule_words rdr_words_def join_with.simps
      by (simp del: append.simps prefix_code
          add: sp hp [OF that] sublist_past_sep sublist_no_sep prefix_past_sep prefix_no_sep Cons_prefix_Cons eq ne ne')
  qed
qed

lemma mapping_entry_wf:
  assumes "mapping_ok im"
  shows "wf_entry (mapping_entry im)"
proof -
  let ?r = "rdr_rule (fst im) (snd im)"
  have m: "PM_Validate (snd im) = None" "pm_ID (snd im) = GenerateID (snd im)" using assms by (auto simp: mapping_ok_def)
  have "c = CHR '' '' \<or> c \<notin> set white" if "c \<in> set ?r" for c
    using join_chars [OF that [unfolded rdr_rule_words]] rdr_words_ok [OF assms] unfolding word_text_def by blast
  moreover have "NL \<noteq> CHR '' ''" "CHR 0x0D \<in> set white" by (simp_all add: NL_def white_def)
  ultimately have "NL \<notin> set ?r" "CHR 0x0D \<notin> set ?r" using white_NL by fastforce+
  moreover have "?r \<noteq> [] \<and> hd ?r \<notin> set white \<and> hd ?r \<noteq> CHR ''#''" by (simp add: rdr_rule_def white_def)
  ultimately have "rule_line ?r" using rdr_rule_tests(3) [OF assms] by (simp add: rule_line_def)
  then show ?thesis
    using m PM_Validate_facts(1) [OF m(1)] GenerateID_word [OF m(1)] by (simp add: wf_entry_def mapping_entry_def)
qed

text \<open>The file with a header and the rules of a list of mappings.\<close>

definition mapping_file :: "string list \<Rightarrow> (string \<times> port_mapping) list \<Rightarrow> string" where
  "mapping_file hdr ms = file_text hdr (map mapping_entry ms)"

lemma mapping_file_lines:
  assumes "\<forall>l \<in> set hdr. header_line l" "\<forall>im \<in> set ms. mapping_ok im"
  shows "lines_of (mapping_file hdr ms) =
    hdr @ concat (map (\<lambda>im. [marker (pm_ID (snd im)) (pm_Instance (snd im)), rdr_rule (fst im) (snd im)]) ms) @ [[]]"
proof -
  have "lines_of (mapping_file hdr ms) = hdr @ concat (map entry_lines (map mapping_entry ms)) @ [[]]"
    unfolding mapping_file_def using assms mapping_entry_wf by (intro file_lines) auto
  then show ?thesis by (simp add: entry_lines_def mapping_entry_def comp_def)
qed

lemma mapping_marker:
  assumes "mapping_ok im"
  shows "HasPrefix (marker (pm_ID (snd im)) (pm_Instance (snd im))) ''# ID:''"
    "go_fields (marker (pm_ID (snd im)) (pm_Instance (snd im))) =
       [''#'', ''ID:'', pm_ID (snd im), ''instance:'' @ pm_Instance (snd im)]"
  using marker_facts [OF mapping_entry_wf [OF assms]] by (simp_all add: mapping_entry_def)

section \<open>Listing\<close>

definition listed :: "port_mapping \<Rightarrow> port_mapping" where
  "listed m = m\<lparr>pm_Provider := [], pm_HostInterface := [], pm_Description := [], pm_Active := True\<rparr>"

lemma scan_header:
  assumes "\<forall>l \<in> set hdr. header_line l"
  shows "list_rules_scan i inst (hdr @ ls) = list_rules_scan i inst ls"
    "host_port_scan n p i (hdr @ ls) = host_port_scan n p i ls"
  using assms by (induction hdr) (auto simp: header_line_def)

lemma list_rules_mappings:
  assumes "\<forall>im \<in> set ms. mapping_ok im"
  shows "list_rules_scan i inst
      (concat (map (\<lambda>im. [marker (pm_ID (snd im)) (pm_Instance (snd im)), rdr_rule (fst im) (snd im)]) ms) @ [[]]) =
    map (listed \<circ> snd) ms"
  using assms
proof (induction ms arbitrary: i inst)
  case (Cons im ms)
  have im: "mapping_ok im" using Cons.prems by simp
  have "pm_ID (snd im) \<noteq> []" using mapping_entry_wf [OF im] by (simp add: wf_entry_def word_text_def mapping_entry_def)
  moreover have "drop 9 (''instance:'' @ pm_Instance (snd im)) = pm_Instance (snd im)" by simp
  ultimately show ?case
    using Cons mapping_marker [OF im] rdr_rule_tests(1,2) [OF im] rdr_rule_parses [OF im]
    by (simp add: listed_def)
qed simp

text \<open>C26. Listing the redirect file after any mappings were written to it returns exactly those mappings, in order: the
  id, instance, protocol, ports and target address of each are read back from the rule text (the provider, the
  interface and the description are not part of it).\<close>

theorem listed_mappings_roundtrip:
  assumes "pe_Read ev RdrFile = None" "pf_files p RdrFile = Some (mapping_file hdr ms)"
    "\<forall>l \<in> set hdr. header_line l" "\<forall>im \<in> set ms. mapping_ok im"
  shows "ListRules ev p = Inr (map (listed \<circ> snd) ms)"
  using assms by (simp add: ListRules_def mapping_file_lines scan_header list_rules_mappings)

section \<open>Host ports\<close>

lemma host_port_mappings:
  assumes "\<forall>im \<in> set ms. mapping_ok im" "1 \<le> n" "pr \<in> {''tcp'', ''udp''}"
  shows "host_port_scan n pr i
      (concat (map (\<lambda>im. [marker (pm_ID (snd im)) (pm_Instance (snd im)), rdr_rule (fst im) (snd im)]) ms) @ [[]]) =
    (case find (\<lambda>im. same_port n pr (snd im)) ms of None \<Rightarrow> [] | Some im \<Rightarrow> pm_ID (snd im))"
  using assms(1)
proof (induction ms arbitrary: i)
  case (Cons im ms)
  have im: "mapping_ok im" using Cons.prems by simp
  have "Contains (rdr_rule (fst im) (snd im)) (''proto '' @ pr) \<longleftrightarrow> pm_Protocol (snd im) = pr"
    "Contains (rdr_rule (fst im) (snd im)) ('' port '' @ itoa n @ '' '') \<longleftrightarrow> pm_HostPort (snd im) = n"
    using rdr_rule_tests(4) [OF im assms(3)] rdr_rule_tests(5) [OF im assms(2)] by simp_all
  then show ?case
    using Cons mapping_marker [OF im] rdr_rule_tests(1,2) [OF im] by (simp add: same_port_def)
qed simp

lemma find_same_port:
  "find (\<lambda>im. same_port n pr (snd im)) ms = None \<longleftrightarrow> (n, pr) \<notin> (\<lambda>im. (pm_HostPort (snd im), pm_Protocol (snd im))) ` set ms"
  by (force simp: find_None_iff same_port_def)

lemma host_port_file:
  assumes "\<forall>l \<in> set hdr. header_line l" "\<forall>im \<in> set ms. mapping_ok im" "1 \<le> n" "pr \<in> {''tcp'', ''udp''}"
  shows "hostPortInUse_text n pr (mapping_file hdr ms) =
    (case find (\<lambda>im. same_port n pr (snd im)) ms of None \<Rightarrow> [] | Some im \<Rightarrow> pm_ID (snd im))"
  using assms by (simp add: hostPortInUse_text_def mapping_file_lines scan_header host_port_mappings)

definition content_of :: "rule_file \<Rightarrow> pf_backend \<Rightarrow> string" where
  "content_of f p = (case pf_files p f of None \<Rightarrow> [] | Some c \<Rightarrow> c)"

definition loaded_text :: "pf_backend \<Rightarrow> string" where
  "loaded_text p =
     dedupeRuleLines (with_newline (content_of NatFile p) @ with_newline (content_of RdrFile p) @ content_of FilterFile p)"

lemma reload_healthy:
  assumes "healthy ev"
  shows "reloadRulesNoLock ev p = (None, p\<lparr>pf_combined := Some (loaded_text p), pf_anchor := loaded_text p\<rparr>)"
proof -
  have "readRuleFile ev f p = Inr (content_of f p)" for f
    using assms by (auto simp: readRuleFile_def healthy_def content_of_def split: option.splits)
  then show ?thesis using assms by (simp add: reloadRulesNoLock_def healthy_def Let_def loaded_text_def)
qed

lemma generated_rules:
  assumes "generateRdrRules route m = Inr rules"
  obtains iface where "rules = [rdr_rule iface m]" "validateIfaceName iface = None"
  using assms by (auto simp: generateRdrRules_def bind_res_Inr_iff split: option.splits)

lemma new_id_absent:
  assumes "\<forall>im \<in> set ms. mapping_ok im" "PM_Validate m = None" "pm_ID m = GenerateID m"
    "(pm_HostPort m, pm_Protocol m) \<notin> (\<lambda>im. (pm_HostPort (snd im), pm_Protocol (snd im))) ` set ms"
  shows "pm_ID m \<notin> en_id ` set (map mapping_entry ms)"
proof
  assume "pm_ID m \<in> en_id ` set (map mapping_entry ms)"
  then obtain im where im: "im \<in> set ms" "pm_ID m = pm_ID (snd im)" by (auto simp: mapping_entry_def)
  then have "GenerateID (snd im) = GenerateID m" "PM_Validate (snd im) = None"
    using assms(1,3) by (auto simp: mapping_ok_def)
  from GenerateID_port [OF this(2) assms(2) this(1)] im(1) assms(4) show False by force
qed

text \<open>What adding a mapping does to a redirect file in which neither the host port nor the id is found.\<close>

lemma add_to_text:
  assumes "healthy ev" "pf_files p RdrFile = Some t" "PM_Validate m = None" "pm_ID m = GenerateID m"
    "hostPortInUse_text (pm_HostPort m) (pm_Protocol m) t = []" "\<not> ruleExists_text (pm_ID m) t"
    "AddPortMapping ev m p = (r, p')"
  shows "(\<exists>e. generateRdrRules (pe_Route ev) m = Inl e) \<and> r \<noteq> None \<and> pf_files p' = pf_files p \<or>
    (\<exists>iface. r = None \<and> mapping_ok (iface, m) \<and>
       pf_files p' = (pf_files p)(RdrFile \<mapsto> t @ rule_text (pm_ID m) (pm_Instance m) [rdr_rule iface m]))"
proof -
  have env: "pe_Read ev RdrFile = None" "pe_Append ev RdrFile = None" using assms(1) by (simp_all add: healthy_def)
  then have free: "hostPortInUse ev (pm_HostPort m) (pm_Protocol m) p = []"
    using assms(2,5) by (simp add: hostPortInUse_def readable_def)
  obtain perr ps where ps: "proxy_Start (pe_Listen ev) m (pf_proxies p) = (perr, ps)" by (cases "proxy_Start (pe_Listen ev) m (pf_proxies p)")
  let ?p1 = "p\<lparr>pf_proxies := ps\<rparr>"
  show ?thesis
  proof (cases "generateRdrRules (pe_Route ev) m")
    case (Inl e)
    then show ?thesis using assms(3,7) free ps by (auto simp: AddPortMapping_def undo_proxy_def Let_def)
  next
    case (Inr rules)
    then obtain iface where iface: "rules = [rdr_rule iface m]" "validateIfaceName iface = None" by (rule generated_rules)
    have ok: "mapping_ok (iface, m)" using assms(3,4) iface(2) by (simp add: mapping_ok_def)
    have "checkRuleText (pm_ID m) (pm_Instance m) rules = None"
      using wf_entry_text [OF mapping_entry_wf [OF ok]] iface(1) by (simp add: mapping_entry_def)
    then have "appendRules ev RdrFile (pm_ID m) (pm_Instance m) rules ?p1 =
        (None, ?p1\<lparr>pf_files := (pf_files p)(RdrFile \<mapsto> t @ rule_text (pm_ID m) (pm_Instance m) rules)\<rparr>)"
      using assms(2,6) env by (simp add: appendRules_def ruleExists_def readable_def)
    then have "r = None \<and> pf_files p' = (pf_files p)(RdrFile \<mapsto> t @ rule_text (pm_ID m) (pm_Instance m) rules)"
      using assms(3,7) free ps Inr by (auto simp: AddPortMapping_def Let_def reload_healthy [OF assms(1)])
    then show ?thesis using ok iface(1) by blast
  qed
qed

lemma port_and_id_free:
  assumes "\<forall>l \<in> set hdr. header_line l" "\<forall>im \<in> set ms. mapping_ok im" "PM_Validate m = None" "pm_ID m = GenerateID m"
    "(pm_HostPort m, pm_Protocol m) \<notin> (\<lambda>im. (pm_HostPort (snd im), pm_Protocol (snd im))) ` set ms"
  shows "hostPortInUse_text (pm_HostPort m) (pm_Protocol m) (mapping_file hdr ms) = []"
    "\<not> ruleExists_text (pm_ID m) (mapping_file hdr ms)"
proof -
  show "hostPortInUse_text (pm_HostPort m) (pm_Protocol m) (mapping_file hdr ms) = []"
    using assms(5) host_port_file [OF assms(1,2), of "pm_HostPort m" "pm_Protocol m"] PM_Validate_facts [OF assms(3)]
    by (auto simp: find_same_port [symmetric])
  have wf: "\<forall>e \<in> set (map mapping_entry ms). wf_entry e" using assms(2) mapping_entry_wf by auto
  have "word_text (pm_ID m)" using GenerateID_word [OF assms(3)] assms(4) by simp
  from lookup_text [OF this assms(1) wf] show "\<not> ruleExists_text (pm_ID m) (mapping_file hdr ms)"
    using new_id_absent [OF assms(2,3,4,5)] by (simp add: mapping_file_def)
qed

lemma add_free_port:
  assumes "healthy ev" "pf_files p RdrFile = Some (mapping_file hdr ms)" "\<forall>l \<in> set hdr. header_line l"
    "\<forall>im \<in> set ms. mapping_ok im" "PM_Validate m = None" "pm_ID m = GenerateID m"
    "(pm_HostPort m, pm_Protocol m) \<notin> (\<lambda>im. (pm_HostPort (snd im), pm_Protocol (snd im))) ` set ms"
    "AddPortMapping ev m p = (r, p')"
  shows "r \<noteq> None \<and> pf_files p' = pf_files p \<or>
    (\<exists>iface. r = None \<and> mapping_ok (iface, m) \<and> pf_files p' = (pf_files p)(RdrFile \<mapsto> mapping_file hdr (ms @ [(iface, m)])))"
proof -
  have "mapping_file hdr (ms @ [(iface, m)]) = mapping_file hdr ms @ rule_text (pm_ID m) (pm_Instance m) [rdr_rule iface m]" for iface
    using file_text_snoc [of hdr "map mapping_entry ms" "mapping_entry (iface, m)"] by (simp add: mapping_file_def mapping_entry_def)
  then show ?thesis
    using add_to_text [OF assms(1,2,5,6) port_and_id_free [OF assms(3-7)] assms(8)] by auto
qed


end
