(* ===== verification/Firewall_Anchor.thy ===== *)
theory Firewall_Anchor
  imports Firewall_Mappings
begin

text \<open>
  What the anchor is loaded with, and the rule that follows a removal of the last one: its comment is glued to the line before it.
\<close>

section \<open>The rules of a text\<close>

definition is_rule :: "string \<Rightarrow> bool" where
  "is_rule line \<longleftrightarrow> trim_space line \<noteq> [] \<and> \<not> HasPrefix (trim_space line) ''#''"

definition normal_rule :: "string \<Rightarrow> string" where
  "normal_rule line = join_with CHR '' '' (go_fields (trim_space line))"

definition rules_of :: "string \<Rightarrow> string list" where
  "rules_of content = map normal_rule (filter is_rule (lines_of content))"

definition first_occurrences :: "'a list \<Rightarrow> 'a list" where
  "first_occurrences xs = rev (remdups (rev xs))"

lemma trim_space_id: "s \<noteq> [] \<Longrightarrow> hd s \<notin> set white \<Longrightarrow> last s \<notin> set white \<Longrightarrow> trim_space s = s"
proof -
  assume s: "s \<noteq> []" "hd s \<notin> set white" "last s \<notin> set white"
  have "dropWhile (\<lambda>c. c \<in> set white) s = s" using s by (cases s) auto
  moreover have "dropWhile (\<lambda>c. c \<in> set white) (rev s) = rev s"
    using s by (cases s rule: rev_cases) auto
  ultimately show ?thesis by (simp add: trim_space_def trim_def trim_left_def trim_right_def)
qed

lemma trim_space_ends:
  assumes "trim_space s \<noteq> []"
  shows "hd (trim_space s) \<notin> set white" "last (trim_space s) \<notin> set white" "set (trim_space s) \<subseteq> set s"
proof -
  let ?P = "\<lambda>c. c \<in> set white"
  define l where "l = dropWhile ?P s"
  have t: "trim_space s = rev (dropWhile ?P (rev l))"
    by (simp add: l_def trim_space_def trim_def trim_left_def trim_right_def)
  then have ne: "dropWhile ?P (rev l) \<noteq> []" "l \<noteq> []" using assms by auto
  have "hd l \<notin> set white" using ne(2) hd_dropWhile [of ?P s] by (simp add: l_def)
  moreover have "dropWhile ?P (rev l) \<noteq> [] \<Longrightarrow> last (dropWhile ?P (rev l)) = last (rev l)" for l
    by (induction l rule: rev_induct) auto
  ultimately show "hd (trim_space s) \<notin> set white" using ne t by (simp add: hd_rev last_rev)
  show "last (trim_space s) \<notin> set white" using ne(1) t hd_dropWhile [of ?P "rev l"] by (simp add: last_rev)
  have "set (dropWhile ?P (rev l)) \<subseteq> set (rev l)" "set l \<subseteq> set s" unfolding l_def by (blast dest: set_dropWhileD)+
  then show "set (trim_space s) \<subseteq> set s" using t by auto
qed

lemma trim_space_idem [simp]: "trim_space (trim_space s) = trim_space s"
proof (cases "trim_space s = []")
  case False
  then show ?thesis using trim_space_ends [of s] trim_space_id by blast
next
  case True
  moreover have "trim_space [] = []" by (simp add: trim_space_def trim_def trim_left_def trim_right_def)
  ultimately show ?thesis by simp
qed

fun firsts :: "'a list \<Rightarrow> 'a list \<Rightarrow> 'a list" where
  "firsts seen [] = []"
| "firsts seen (x # xs) = (if x \<in> set seen then firsts seen xs else x # firsts (x # seen) xs)"

lemma remdups_snoc: "remdups (xs @ [x]) = filter (\<lambda>y. y \<noteq> x) (remdups xs) @ [x]"
  by (induction xs) auto

lemma firsts_filter: "firsts seen xs = filter (\<lambda>x. x \<notin> set seen) (first_occurrences xs)"
proof (induction xs arbitrary: seen)
  case (Cons x xs)
  have "first_occurrences (x # xs) = x # filter (\<lambda>y. y \<noteq> x) (first_occurrences xs)"
    by (simp add: first_occurrences_def remdups_snoc rev_filter)
  moreover have "filter (\<lambda>y. y \<notin> set seen) (filter (\<lambda>y. y \<noteq> x) (first_occurrences xs)) = filter (\<lambda>y. y \<notin> set seen) (first_occurrences xs)"
    if "x \<in> set seen" using that by (auto intro: filter_cong)
  ultimately show ?case using Cons.IH by (auto simp: conj_commute)
qed (simp add: first_occurrences_def)

lemma dedupe_lines_rules:
  assumes "\<forall>c \<in> set pending. \<not> is_rule c"
  shows "map normal_rule (filter is_rule (dedupe_lines seen pending ls)) = firsts seen (map normal_rule (filter is_rule ls))"
  using assms
proof (induction seen pending ls rule: dedupe_lines.induct)
  case (2 seen pending line rest)
  let ?t = "trim_space line" and ?k = "normal_rule line"
  have k: "join_with CHR '' '' (go_fields ?t) = ?k" by (simp add: normal_rule_def)
  have t: "is_rule ?t = is_rule line" "normal_rule ?t = ?k" by (simp_all add: is_rule_def normal_rule_def)
  have pend: "filter is_rule pending = []" using "2.prems" by simp
  consider "?t = []" | "?t \<noteq> []" "HasPrefix ?t ''#''" | "is_rule line" by (auto simp: is_rule_def)
  then show ?case
  proof cases
    case 1
    then show ?thesis using "2.IH"(1) [OF refl refl] "2.prems" by (simp add: Let_def is_rule_def)
  next
    case 2
    then have "\<not> is_rule line" "\<not> is_rule ?t" by (simp_all add: is_rule_def)
    then show ?thesis using "2.IH"(2) [OF refl refl] 2 "2.prems" by (simp add: Let_def)
  next
    case 3
    then have ne: "?t \<noteq> []" "\<not> HasPrefix ?t ''#''" by (simp_all add: is_rule_def)
    show ?thesis
    proof (cases "?k \<in> set seen")
      case True
      then show ?thesis using "2.IH"(3) [OF refl refl] ne 3 by (simp add: Let_def k)
    next
      case False
      then show ?thesis using "2.IH"(4) [OF refl refl] ne 3 t pend by (simp add: Let_def k)
    qed
  qed
qed simp

lemma dedupe_lines_subset: "set (dedupe_lines seen pending ls) \<subseteq> set pending \<union> trim_space ` set ls"
proof (induction ls arbitrary: seen pending)
  case (Cons line rest)
  note a = Cons [of seen pending] and b = Cons [of seen "pending @ [trim_space line]"] and c = Cons [of seen "[]"]
    and d = Cons [of "join_with CHR '' '' (go_fields (trim_space line)) # seen" "[]"]
  show ?case using a b c d by (auto simp: Let_def)
qed simp

lemma dedupe_lines_no_newline:
  assumes "\<forall>l \<in> set ls. NL \<notin> set l"
  shows "\<forall>l \<in> set (dedupe_lines [] [] ls). NL \<notin> set l"
proof
  fix l assume "l \<in> set (dedupe_lines [] [] ls)"
  then obtain x where x: "l = trim_space x" "x \<in> set ls" using dedupe_lines_subset [of "[]" "[]" ls] by auto
  then show "NL \<notin> set l" using assms trim_space_ends(3) [of x] by (cases "trim_space x = []") auto
qed

lemma rules_of_dedupe: "rules_of (dedupeRuleLines content) = first_occurrences (rules_of content)"
proof -
  let ?out = "dedupe_lines [] [] (lines_of content)"
  have "lines_of (dedupeRuleLines content) = ?out @ [[]]"
    unfolding dedupeRuleLines_def with_newlines_def [symmetric]
    using dedupe_lines_no_newline [of "lines_of content"] split_on_parts by (intro lines_of_with_newlines) auto
  moreover have "\<not> is_rule []" by (simp add: is_rule_def trim_space_def trim_def trim_left_def trim_right_def)
  ultimately have "rules_of (dedupeRuleLines content) = map normal_rule (filter is_rule ?out)" by (simp add: rules_of_def)
  also have "\<dots> = firsts [] (rules_of content)" by (simp add: dedupe_lines_rules rules_of_def)
  also have "\<dots> = first_occurrences (rules_of content)" by (simp add: firsts_filter)
  finally show ?thesis .
qed

lemma rules_of_Nil [simp]: "rules_of [] = []"
  by (simp add: rules_of_def is_rule_def trim_space_def trim_def trim_left_def trim_right_def)

lemma rules_of_lines: "rules_of (a @ NL # b) = rules_of a @ rules_of b"
  by (simp add: rules_of_def split_on_append_gen)

lemma rules_of_with_newline: "rules_of (with_newline a @ b) = rules_of a @ rules_of b"
proof (cases "a = []")
  case False
  show ?thesis
  proof (cases "last a = NL")
    case True
    then have a: "a = butlast a @ NL # []" using False by (metis append_butlast_last_id)
    then have "rules_of a = rules_of (butlast a)" using rules_of_lines [of "butlast a" "[]"] by simp
    moreover have "with_newline a @ b = butlast a @ NL # b" using True a False by (metis append.assoc append_Cons append_Nil with_newline_def)
    ultimately show ?thesis using rules_of_lines by simp
  next
    case nl: False
    then show ?thesis using False rules_of_lines by (simp add: with_newline_def)
  qed
qed (simp add: with_newline_def)

lemma loaded_rules:
  "rules_of (loaded_text p) =
    first_occurrences (rules_of (content_of NatFile p) @ rules_of (content_of RdrFile p) @ rules_of (content_of FilterFile p))"
  unfolding loaded_text_def rules_of_dedupe rules_of_with_newline ..

lemma readRuleFile_content: "readRuleFile ev f p = Inr c \<Longrightarrow> c = content_of f p"
  by (auto simp: readRuleFile_def content_of_def split: option.splits)

text \<open>C28. A reload that succeeds loads the anchor with exactly the rules of the three files, translation rules before
  filter rules: each rule, read up to white space, once, in the order of first occurrence, and none else. The files
  themselves are not changed.\<close>

theorem anchor_rules_exact:
  assumes "reloadRulesNoLock ev p = (None, p')"
  shows "rules_of (pf_anchor p') =
      first_occurrences (rules_of (content_of NatFile p) @ rules_of (content_of RdrFile p) @ rules_of (content_of FilterFile p)) \<and>
    pf_files p' = pf_files p"
proof -
  have "p' = p\<lparr>pf_combined := Some (loaded_text p), pf_anchor := loaded_text p\<rparr>"
    using assms by (auto simp: reloadRulesNoLock_def loaded_text_def Let_def
        dest!: readRuleFile_content split: sum.splits option.splits)
  then show ?thesis by (simp add: loaded_rules)
qed

section \<open>A rule appended after the last one was removed\<close>

lemma lines_glued:
  assumes "ls \<noteq> []" "\<forall>l \<in> set (ls @ k # ks). NL \<notin> set l"
  shows "lines_of (unlines ls @ with_newlines (k # ks)) = butlast ls @ (last ls @ k) # ks @ [[]]"
  using assms
proof (induction ls)
  case (Cons l ls)
  show ?case
  proof (cases "ls = []")
    case True
    have "unlines [l] @ with_newlines (k # ks) = with_newlines ((l @ k) # ks)" by (simp add: with_newlines_def)
    moreover have "lines_of (with_newlines ((l @ k) # ks)) = ((l @ k) # ks) @ [[]]"
      using Cons.prems by (intro lines_of_with_newlines) auto
    ultimately show ?thesis using True by simp
  next
    case False
    then have "unlines (l # ls) @ with_newlines (k # ks) = l @ NL # (unlines ls @ with_newlines (k # ks))"
      by (simp add: join_with_Cons)
    then show ?thesis using False Cons split_on_append [of NL l] by simp
  qed
qed simp

lemma glued_not_marker: "l \<noteq> [] \<Longrightarrow> \<not> HasPrefix l ''# ID:'' \<Longrightarrow> \<not> HasPrefix (l @ marker i inst) ''# ID:''"
  by (auto simp: prefix_append marker_def Cons_eq_append_conv)

lemma drop_blocks_none: "\<forall>l \<in> set ls. \<not> hit l \<Longrightarrow> drop_blocks hit False ls = ls"
  by (induction ls) auto

lemma scan_trailing: "host_port_scan n pr i (ls @ [[]]) = host_port_scan n pr i ls"
  by (induction ls arbitrary: i) auto

lemma lookup_trailing: "rule_under_marker m (ls @ [[]]) = rule_under_marker m ls" if "m \<noteq> []"
proof (induction ls)
  case (Cons l ls)
  have "trim_space [] = []" by (simp add: trim_space_def trim_def trim_left_def trim_right_def)
  then show ?case using Cons that by (cases ls) simp_all
qed (use that in simp)

text \<open>The lines of a redirect file without the final newline.\<close>

definition mapping_lines :: "string list \<Rightarrow> (string \<times> port_mapping) list \<Rightarrow> string list" where
  "mapping_lines hdr ms =
     hdr @ concat (map (\<lambda>im. [marker (pm_ID (snd im)) (pm_Instance (snd im)), rdr_rule (fst im) (snd im)]) ms)"

lemma chopped_file:
  assumes "\<forall>l \<in> set hdr. header_line l" "\<forall>im \<in> set ms. mapping_ok im" "hdr \<noteq> []"
  shows "butlast (mapping_file hdr ms) = unlines (mapping_lines hdr ms)"
    "lines_of (mapping_file hdr ms) = mapping_lines hdr ms @ [[]]"
    "lines_of (butlast (mapping_file hdr ms)) = mapping_lines hdr ms"
    "\<forall>l \<in> set (mapping_lines hdr ms). NL \<notin> set l"
proof -
  show l: "lines_of (mapping_file hdr ms) = mapping_lines hdr ms @ [[]]"
    using mapping_file_lines [OF assms(1,2)] by (simp add: mapping_lines_def)
  show nl: "\<forall>l \<in> set (mapping_lines hdr ms). NL \<notin> set l"
  proof
    fix l assume "l \<in> set (mapping_lines hdr ms)"
    then have "l \<in> set (lines_of (mapping_file hdr ms))" using l by simp
    then show "NL \<notin> set l" by (rule split_on_parts)
  qed
  have "concat (map entry_lines (map mapping_entry ms)) =
      concat (map (\<lambda>im. [marker (pm_ID (snd im)) (pm_Instance (snd im)), rdr_rule (fst im) (snd im)]) ms)"
    by (simp add: entry_lines_def mapping_entry_def comp_def)
  then show b: "butlast (mapping_file hdr ms) = unlines (mapping_lines hdr ms)"
    unfolding mapping_file_def file_text_def mapping_lines_def unlines_butlast by (rule arg_cong)
  have "mapping_lines hdr ms \<noteq> []" using assms(3) by (simp add: mapping_lines_def)
  from split_join_on [OF this nl] b show "lines_of (butlast (mapping_file hdr ms)) = mapping_lines hdr ms" by simp
qed

lemma mapping_lines_last:
  assumes "\<forall>l \<in> set hdr. header_line l" "\<forall>im \<in> set ms. mapping_ok im" "hdr \<noteq> []" "last hdr \<noteq> []"
  shows "last (mapping_lines hdr ms) \<noteq> [] \<and> \<not> HasPrefix (last (mapping_lines hdr ms)) ''# ID:''"
proof (cases ms rule: rev_cases)
  case Nil
  then show ?thesis using assms by (auto simp: mapping_lines_def header_line_def)
next
  case (snoc ms' im)
  then have "last (mapping_lines hdr ms) = rdr_rule (fst im) (snd im)" by (simp add: mapping_lines_def)
  moreover have "mapping_ok im" using snoc assms(2) by simp
  ultimately show ?thesis using rdr_rule_tests(1,2) by fastforce
qed

lemma mapping_lines_ids:
  assumes "\<forall>l \<in> set hdr. header_line l" "\<forall>im \<in> set ms. mapping_ok im" "l \<in> set (mapping_lines hdr ms)"
  shows "commentRuleID l = [] \<or> commentRuleID l \<in> en_id ` set (map mapping_entry ms)"
proof -
  consider "l \<in> set hdr" | im where "im \<in> set ms" "l = marker (pm_ID (snd im)) (pm_Instance (snd im))"
    | im where "im \<in> set ms" "l = rdr_rule (fst im) (snd im)"
    using assms(3) by (auto simp: mapping_lines_def)
  then show ?thesis
  proof cases
    case 1
    then show ?thesis using assms(1) by (auto simp: header_line_def commentRuleID_def)
  next
    case (2 im)
    then have "commentRuleID l = en_id (mapping_entry im)"
      using assms(2) commentRuleID_marker [OF mapping_entry_wf, of im] by (simp add: mapping_entry_def)
    then show ?thesis using 2 by simp
  next
    case (3 im)
    then show ?thesis using assms(2) rdr_rule_tests(2) [of im] by (simp add: commentRuleID_def)
  qed
qed

lemma rdr_rule_normal:
  assumes "mapping_ok im"
  shows "is_rule (rdr_rule (fst im) (snd im))" "normal_rule (rdr_rule (fst im) (snd im)) = rdr_rule (fst im) (snd im)"
proof -
  let ?r = "rdr_rule (fst im) (snd im)"
  have "1 \<le> pm_TargetPort (snd im)" using assms PM_Validate_facts(4) [of "snd im"] by (simp add: mapping_ok_def)
  then have "word_text (itoa (pm_TargetPort (snd im)))" by (intro itoa_word) simp
  then have "last ?r \<notin> set white" by (simp add: rdr_rule_def word_text_def)
  then have t: "trim_space ?r = ?r" by (intro trim_space_id) (simp_all add: rdr_rule_def white_def)
  then show "is_rule ?r" by (simp add: is_rule_def) (simp add: rdr_rule_def)
  have "go_fields ?r = rdr_words (fst im) (snd im)"
    unfolding rdr_rule_words using rdr_words_ok [OF assms] by (intro go_fields_join) (simp_all add: rdr_words_def)
  then show "normal_rule ?r = ?r" using t by (simp add: normal_rule_def rdr_rule_words)
qed

lemma RemovePortMapping_text:
  assumes "healthy ev" "pf_files p RdrFile = Some t" "RemovePortMapping ev m p = (r, p')"
  shows "r = None" "pf_files p' RdrFile = Some (removeRule_text (pm_ID m) t)" "pf_anchor p' = loaded_text p'"
proof -
  let ?p1 = "p\<lparr>pf_proxies := proxy_Stop m (pf_proxies p)\<rparr>"
  let ?p2 = "?p1\<lparr>pf_files := (pf_files p)(RdrFile \<mapsto> removeRule_text (pm_ID m) t)\<rparr>"
  let ?p3 = "snd (removeRule ev NatFile (pm_ID m @ ''-localhost-nat'') ?p2)"
  have "removeRule ev RdrFile (pm_ID m) ?p1 = (None, ?p2)"
    using assms(1,2) by (simp add: removeRule_def rewrite_file_def healthy_def)
  then have "(r, p') = reloadRulesNoLock ev ?p3" using assms(3) by (simp add: RemovePortMapping_def)
  then have p': "r = None \<and> p' = ?p3\<lparr>pf_combined := Some (loaded_text ?p3), pf_anchor := loaded_text ?p3\<rparr>"
    using reload_healthy [OF assms(1)] by simp
  then show "r = None" by simp
  have "pf_files ?p3 RdrFile = pf_files ?p2 RdrFile"
    by (simp add: removeRule_def rewrite_file_def split: option.splits)
  then show "pf_files p' RdrFile = Some (removeRule_text (pm_ID m) t)" using p' by simp
  show "pf_anchor p' = loaded_text p'" using p' by (simp add: loaded_text_def content_of_def)
qed

lemma removed_last_text:
  assumes "\<forall>l \<in> set hdr. header_line l" "\<forall>im \<in> set (ms @ [im]). mapping_ok im"
    "distinct (map (\<lambda>im. (pm_HostPort (snd im), pm_Protocol (snd im))) (ms @ [im]))"
  shows "removeRule_text (pm_ID (snd im)) (mapping_file hdr (ms @ [im])) = butlast (mapping_file hdr ms)"
proof -
  have ok: "\<forall>im \<in> set ms. mapping_ok im" "PM_Validate (snd im) = None" "pm_ID (snd im) = GenerateID (snd im)"
    using assms(2) by (auto simp: mapping_ok_def)
  have "(pm_HostPort (snd im), pm_Protocol (snd im)) \<notin> (\<lambda>im. (pm_HostPort (snd im), pm_Protocol (snd im))) ` set ms"
    using assms(3) by auto
  note old = new_id_absent [OF ok this]
  have wf: "\<forall>e \<in> set (map mapping_entry (ms @ [im])). wf_entry e" using assms(2) mapping_entry_wf by auto
  have "pm_ID (snd im) \<noteq> []" using GenerateID_word [OF ok(2)] ok(3) by (simp add: word_text_def)
  note del = removeRule_file_text [OF this assms(1) wf]
  have "filter (\<lambda>e. en_id e \<noteq> pm_ID (snd im)) (map mapping_entry ms) = map mapping_entry ms"
    using old by (intro filter_True ballI) (metis imageI)
  then show ?thesis
    using del by (simp add: mapping_file_def deleted_text_def delete_entries_def) (simp add: mapping_entry_def)
qed

text \<open>The rule text appended to a file without a final newline: where its lines end up, and that no id is found in them.\<close>

lemma glued_lines:
  assumes "\<forall>l \<in> set hdr. header_line l" "\<forall>im \<in> set ms. mapping_ok im" "hdr \<noteq> []" "mapping_ok (iface, m)"
  shows "lines_of (butlast (mapping_file hdr ms) @ rule_text (pm_ID m) (pm_Instance m) [rdr_rule iface m]) =
    butlast (mapping_lines hdr ms) @ (last (mapping_lines hdr ms) @ marker (pm_ID m) (pm_Instance m)) # [rdr_rule iface m] @ [[]]"
proof -
  note lines = chopped_file [OF assms(1-3)]
  have "butlast (mapping_file hdr ms) @ rule_text (pm_ID m) (pm_Instance m) [rdr_rule iface m] =
      unlines (mapping_lines hdr ms) @ with_newlines [marker (pm_ID m) (pm_Instance m), rdr_rule iface m]"
    using lines(1) by (simp add: rule_text_def with_newlines_def)
  moreover have "mapping_lines hdr ms \<noteq> []" using assms(3) by (simp add: mapping_lines_def)
  moreover have "\<forall>l \<in> set (entry_lines (mapping_entry (iface, m))). NL \<notin> set l"
    by (rule entry_no_newline [OF mapping_entry_wf [OF assms(4)]])
  ultimately show ?thesis
    using lines_glued [of "mapping_lines hdr ms"] lines(4) by (simp add: entry_lines_def mapping_entry_def)
qed

lemma glued_rule_survives:
  assumes "\<forall>l \<in> set hdr. header_line l" "\<forall>im \<in> set ms. mapping_ok im" "hdr \<noteq> []" "last hdr \<noteq> []"
    "mapping_ok (iface, m)" "pm_ID m \<notin> en_id ` set (map mapping_entry ms)"
  shows "removeRule_text (pm_ID m) (butlast (mapping_file hdr ms) @ rule_text (pm_ID m) (pm_Instance m) [rdr_rule iface m]) =
    butlast (mapping_file hdr ms) @ rule_text (pm_ID m) (pm_Instance m) [rdr_rule iface m]" (is "_ = ?u")
proof -
  have ne: "pm_ID m \<noteq> []"
    using GenerateID_word [of m] assms(5) by (simp add: mapping_ok_def word_text_def)
  have "commentRuleID l \<noteq> pm_ID m" if l: "l \<in> set (lines_of ?u)" for l
  proof -
    consider "l \<in> set (mapping_lines hdr ms)" | "l = last (mapping_lines hdr ms) @ marker (pm_ID m) (pm_Instance m)"
      | "l = rdr_rule iface m" | "l = []"
      using l glued_lines [OF assms(1-3,5)] by (auto dest: in_set_butlastD)
    then show ?thesis
    proof cases
      case 1
      then show ?thesis using mapping_lines_ids [OF assms(1,2) 1] ne assms(6) by metis
    next
      case 2
      then show ?thesis using ne mapping_lines_last [OF assms(1-4)] glued_not_marker by (simp add: commentRuleID_def)
    next
      case 3
      then show ?thesis using ne rdr_rule_tests(2) [OF assms(5)] by (simp add: commentRuleID_def)
    qed (use ne in \<open>simp add: commentRuleID_def\<close>)
  qed
  then show ?thesis
    unfolding removeRule_text_def by (subst drop_blocks_none) (auto simp: join_split_on)
qed

text \<open>Removing the last rule of the redirect file takes the file's final newline with it, and the comment of the next
  rule is then appended to the line before: that rule cannot be removed any more. Withdrawing its mapping
  reports success, but the redirect file is unchanged and the anchor is loaded with the redirection again.\<close>

theorem unexposed_port_stays_open:
  assumes "healthy ev" "pf_files p RdrFile = Some (mapping_file hdr (ms @ [im]))" "\<forall>l \<in> set hdr. header_line l"
    "hdr \<noteq> []" "last hdr \<noteq> []" "\<forall>im \<in> set (ms @ [im]). mapping_ok im"
    "distinct (map (\<lambda>im. (pm_HostPort (snd im), pm_Protocol (snd im))) (ms @ [im]))"
    "PM_Validate m = None" "pm_ID m = GenerateID m"
    "(pm_HostPort m, pm_Protocol m) \<notin> (\<lambda>im. (pm_HostPort (snd im), pm_Protocol (snd im))) ` set ms"
    "RemovePortMapping ev (snd im) p = (r1, p1)" "AddPortMapping ev m p1 = (None, p2)" "RemovePortMapping ev m p2 = (r3, p3)"
  shows "r1 = None \<and> r3 = None \<and> pf_files p3 RdrFile = pf_files p2 RdrFile \<and>
    (\<exists>iface. rdr_rule iface m \<in> set (rules_of (pf_anchor p3)))"
proof -
  let ?t = "butlast (mapping_file hdr ms)"
  have ok: "\<forall>im \<in> set ms. mapping_ok im" using assms(6) by simp
  have r1: "r1 = None" "pf_files p1 RdrFile = Some ?t"
    using RemovePortMapping_text [OF assms(1,2,11)] removed_last_text [OF assms(3,6,7)] by auto
  have "hostPortInUse_text (pm_HostPort m) (pm_Protocol m) ?t = []" "\<not> ruleExists_text (pm_ID m) ?t"
    using port_and_id_free [OF assms(3) ok assms(8-10)] chopped_file(2,3) [OF assms(3) ok assms(4)]
    by (simp_all add: hostPortInUse_text_def ruleExists_text_def scan_trailing lookup_trailing)
  from add_to_text [OF assms(1) r1(2) assms(8,9) this assms(12)] obtain iface where
    iface: "mapping_ok (iface, m)" and
    p2: "pf_files p2 RdrFile = Some (?t @ rule_text (pm_ID m) (pm_Instance m) [rdr_rule iface m])" by auto
  have p3: "r3 = None" "pf_files p3 RdrFile = pf_files p2 RdrFile" "pf_anchor p3 = loaded_text p3"
    using RemovePortMapping_text [OF assms(1) p2 assms(13)] p2
      glued_rule_survives [OF assms(3) ok assms(4,5) iface new_id_absent [OF ok assms(8-10)]] by auto
  have "rdr_rule iface m \<in> set (rules_of (?t @ rule_text (pm_ID m) (pm_Instance m) [rdr_rule iface m]))"
    using glued_lines [OF assms(3) ok assms(4) iface] rdr_rule_normal [OF iface] by (force simp: rules_of_def image_iff)
  then have "rdr_rule iface m \<in> set (rules_of (pf_anchor p3))"
    using p2 p3 by (simp add: loaded_rules first_occurrences_def content_of_def)
  then show ?thesis using r1(1) p3(1,2) by blast
qed

section \<open>An example backend\<close>

text \<open>
  A host whose files can be written and whose default route leaves by \<open>em0\<close>, with one mapping of the instance
  \<open>web\<close> in the redirect file.
\<close>

definition sample_env :: pf_env where
  "sample_env =
     \<lparr>pe_Read = \<lambda>_. None, pe_Append = \<lambda>_. None, pe_Write = \<lambda>_. None, pe_WriteCombined = None, pe_Pfctl = \<lambda>_. None,
      pe_Listen = \<lambda>_. None, pe_Route = Inr (''   interface: em0'' @ [NL]), pe_MkdirAll = None, pe_Create = \<lambda>_. None,
      pe_CreateCombined = None\<rparr>"

definition web_mapping :: "string \<times> port_mapping" where
  "web_mapping = (''em0'', new_mapping ''web'' ''jail'' ''tcp'' 8080 80 ''10.0.0.5'')"

definition api_mapping :: "string \<times> port_mapping" where
  "api_mapping = (''em0'', new_mapping ''api'' ''jail'' ''tcp'' 8443 443 ''10.0.0.6'')"

definition rdr_header :: "string list" where
  "rdr_header = [''# Hospitus redirect rules'']"

definition sample_backend :: pf_backend where
  "sample_backend = NewPFBackend\<lparr>pf_files := [RdrFile \<mapsto> mapping_file rdr_header [web_mapping]]\<rparr>"

lemma new_mapping_ok:
  assumes "ValidateInstanceName inst = None" "ValidateProviderName prov = None" "pr = ''tcp'' \<or> pr = ''udp''"
    "1 \<le> hp \<and> hp \<le> 65535" "1 \<le> tp \<and> tp \<le> 65535" "ParseIP ip \<noteq> None" "validateIfaceName iface = None"
  shows "mapping_ok (iface, new_mapping inst prov pr hp tp ip)"
proof -
  have "inst \<noteq> []" using assms(1) by (auto simp: ValidateInstanceName_iff)
  moreover have "ParseIP [] = None" by code_simp
  then have "ip \<noteq> []" using assms(6) by auto
  ultimately show ?thesis
    using assms by (auto simp: mapping_ok_def new_mapping_def PM_Validate_def GenerateID_def ProtocolTCP_def ProtocolUDP_def Let_def)
qed

lemma sample_names:
  "ValidateInstanceName ''web'' = None" "ValidateInstanceName ''api'' = None" "ValidateProviderName ''jail'' = None"
  by (simp_all add: ValidateInstanceName_iff ValidateProviderName_def validProviderNameRegex_def name_rx_iff class_defs
      in_range_def byte_def del: rx_match.simps)

lemma sample_facts:
  "healthy sample_env" "pe_Read sample_env RdrFile = None"
  "pf_files sample_backend RdrFile = Some (mapping_file rdr_header [web_mapping])"
  "\<forall>l \<in> set rdr_header. header_line l" "rdr_header \<noteq> []" "last rdr_header \<noteq> []"
  "\<forall>im \<in> set [web_mapping]. mapping_ok im"
  "PM_Validate (snd api_mapping) = None" "pm_ID (snd api_mapping) = GenerateID (snd api_mapping)"
  "\<forall>im \<in> set [api_mapping]. mapping_ok im"
proof -
  show "healthy sample_env" "pe_Read sample_env RdrFile = None" by (simp_all add: healthy_def sample_env_def)
  show "pf_files sample_backend RdrFile = Some (mapping_file rdr_header [web_mapping])" by (simp add: sample_backend_def)
  show "\<forall>l \<in> set rdr_header. header_line l" by code_simp
  show "rdr_header \<noteq> []" "last rdr_header \<noteq> []" by (simp_all add: rdr_header_def)
  have addr: "ParseIP ''10.0.0.5'' \<noteq> None" "ParseIP ''10.0.0.6'' \<noteq> None" "validateIfaceName ''em0'' = None" by code_simp+
  show "\<forall>im \<in> set [web_mapping]. mapping_ok im"
    unfolding web_mapping_def using new_mapping_ok [OF sample_names(1,3) _ _ _ addr(1,3)] by simp
  show api: "\<forall>im \<in> set [api_mapping]. mapping_ok im"
    unfolding api_mapping_def using new_mapping_ok [OF sample_names(2,3) _ _ _ addr(2,3)] by simp
  then show "PM_Validate (snd api_mapping) = None" "pm_ID (snd api_mapping) = GenerateID (snd api_mapping)"
    by (simp_all add: mapping_ok_def)
qed

lemma sample_wf: "\<forall>e \<in> set (map mapping_entry [web_mapping]). wf_entry e" "wf_entry (mapping_entry api_mapping)"
  using sample_facts(7,10) mapping_entry_wf by auto

theorem rule_file_refines_witness:
  "\<not> ruleExists sample_env RdrFile (pm_ID (snd api_mapping)) sample_backend \<and>
   pf_files (snd (appendRules sample_env RdrFile (pm_ID (snd api_mapping)) ''api'' [rdr_rule ''em0'' (snd api_mapping)] sample_backend)) RdrFile =
     Some (mapping_file rdr_header [web_mapping, api_mapping]) \<and>
   pf_files (snd (removeInstanceRules sample_env RdrFile ''web'' sample_backend)) RdrFile = Some ''# Hospitus redirect rules''"
proof -
  let ?e = "mapping_entry api_mapping"
  have f: "pf_files sample_backend RdrFile = Some (file_text rdr_header (map mapping_entry [web_mapping]))"
    using sample_facts(3) by (simp add: mapping_file_def)
  have "word_text ''web''" by (simp add: word_text_def white_def)
  note r = rule_file_refines [OF sample_facts(1) f sample_facts(4) sample_wf(1) sample_wf(2) this]
  have e: "en_id ?e = pm_ID (snd api_mapping)" "en_instance ?e = ''api''" "en_rules ?e = [rdr_rule ''em0'' (snd api_mapping)]"
    "en_instance (mapping_entry web_mapping) = ''web''"
    by (simp_all add: mapping_entry_def api_mapping_def web_mapping_def new_mapping_def Let_def)
  have "pm_ID (snd api_mapping) \<noteq> pm_ID (snd web_mapping)" by (simp add: api_mapping_def web_mapping_def new_mapping_def GenerateID_def Let_def)
  then have id: "pm_ID (snd api_mapping) \<notin> en_id ` set (map mapping_entry [web_mapping])" by (simp add: mapping_entry_def)
  then have "insert_entry ?e (map mapping_entry [web_mapping]) = map mapping_entry [web_mapping, api_mapping]"
    using e(1) by (simp add: insert_entry_def)
  moreover have "deleted_text rdr_header (\<lambda>x. en_instance x = ''web'') (map mapping_entry [web_mapping]) = ''# Hospitus redirect rules''"
    using e(4) by (simp add: deleted_text_def delete_entries_def file_text_def with_newlines_def rdr_header_def NL_def)
  ultimately show ?thesis using r id e by (simp add: mapping_file_def)
qed

theorem listed_mappings_roundtrip_witness:
  "ListRules sample_env sample_backend =
     Inr [(snd web_mapping)\<lparr>pm_Provider := [], pm_HostInterface := [], pm_Description := [], pm_Active := True\<rparr>]"
  using listed_mappings_roundtrip [OF sample_facts(2,3,4,7)] by (simp add: listed_def)


theorem anchor_rules_exact_witness:
  "rules_of (pf_anchor (snd (reloadRulesNoLock sample_env sample_backend))) = [rdr_rule ''em0'' (snd web_mapping)]"
proof -
  have a: "reloadRulesNoLock sample_env sample_backend = (None, snd (reloadRulesNoLock sample_env sample_backend))"
    using reload_healthy [OF sample_facts(1)] by simp
  have web: "mapping_ok web_mapping" "fst web_mapping = ''em0''" using sample_facts(7) by (simp_all add: web_mapping_def)
  note n = rdr_rule_normal [OF web(1)]
  have "content_of NatFile sample_backend = []" "content_of FilterFile sample_backend = []"
    "content_of RdrFile sample_backend = mapping_file rdr_header [web_mapping]"
    by (simp_all add: content_of_def sample_backend_def NewPFBackend_def)
  moreover have "filter is_rule rdr_header = []" by code_simp
  moreover have "trim_space (marker i inst) \<noteq> [] \<and> hd (trim_space (marker i inst)) = CHR ''#''" for i inst
    using trim_space_word [of "marker i inst"] by (simp add: marker_def white_def)
  then have "\<not> is_rule (marker i inst)" for i inst by (metis is_rule_def list.collapse prefix_Cons Nil_prefix)
  moreover have "\<not> is_rule []" by code_simp
  ultimately show ?thesis
    using anchor_rules_exact [OF a] n web(2)
    by (simp add: rules_of_def mapping_file_lines [OF sample_facts(4,7)] first_occurrences_def)
qed

theorem unexposed_port_stays_open_witness:
  "\<exists>iface. rdr_rule iface (snd api_mapping) \<in> set (rules_of (pf_anchor
     (snd (RemovePortMapping sample_env (snd api_mapping)
       (snd (AddPortMapping sample_env (snd api_mapping)
         (snd (RemovePortMapping sample_env (snd web_mapping) sample_backend))))))))"
proof -
  obtain r1 p1 where a: "RemovePortMapping sample_env (snd web_mapping) sample_backend = (r1, p1)" by force
  obtain r2 p2 where b: "AddPortMapping sample_env (snd api_mapping) p1 = (r2, p2)" by force
  obtain r3 p3 where c: "RemovePortMapping sample_env (snd api_mapping) p2 = (r3, p3)" by force
  have d: "distinct (map (\<lambda>im. (pm_HostPort (snd im), pm_Protocol (snd im))) ([] @ [web_mapping]))"
    "(pm_HostPort (snd api_mapping), pm_Protocol (snd api_mapping)) \<notin> (\<lambda>im. (pm_HostPort (snd im), pm_Protocol (snd im))) ` set []"
    by simp_all
  have f: "pf_files sample_backend RdrFile = Some (mapping_file rdr_header ([] @ [web_mapping]))"
    "\<forall>im \<in> set ([] @ [web_mapping]). mapping_ok im" using sample_facts(3,7) by simp_all
  have "pf_files p1 RdrFile = Some ''# Hospitus redirect rules''"
    using RemovePortMapping_text(2) [OF sample_facts(1) f(1) a] removed_last_text [OF sample_facts(4) f(2) d(1)]
    by (simp add: mapping_file_def file_text_def with_newlines_def rdr_header_def NL_def)
  moreover have "lines_of ''# Hospitus redirect rules'' = [''# Hospitus redirect rules'']" by (simp add: NL_def)
  then have "hostPortInUse_text (pm_HostPort (snd api_mapping)) (pm_Protocol (snd api_mapping)) ''# Hospitus redirect rules'' = []"
    "\<not> ruleExists_text (pm_ID (snd api_mapping)) ''# Hospitus redirect rules''"
    by (simp_all add: hostPortInUse_text_def ruleExists_text_def)
  moreover have "getDefaultInterface (pe_Route sample_env) = Inr ''em0''" "validateIfaceName ''em0'' = None" by code_simp+
  then have "generateRdrRules (pe_Route sample_env) (snd api_mapping) = Inr [rdr_rule ''em0'' (snd api_mapping)]"
    by (simp add: generateRdrRules_def api_mapping_def new_mapping_def Let_def)
  ultimately have "r2 = None" using add_to_text [OF sample_facts(1) _ sample_facts(8,9) _ _ b] by fastforce
  from unexposed_port_stays_open [OF sample_facts(1) f(1) sample_facts(4-6) f(2) d(1) sample_facts(8,9) d(2) a b [unfolded this] c]
  show ?thesis using a b c by simp
qed

end
