(* ===== verification/Manifest.thy ===== *)
theory Manifest
  imports Stack
begin

text \<open>
  \<open>pkg/manifest\<close>: the data of a manifest (\<open>types.go\<close>), sizes, image sources and defaults of the
  parser's helpers (\<open>parser.go\<close>). A map of the document is a list of its entries in the order an iteration visits it,
  except where only lookups are made. The records the stack manager reads (health check, restart, dependencies,
  ports) are those of \<^verbatim>\<open>Stack\<close>.
\<close>

section \<open>Types\<close>

definition APIVersion :: string where
  "APIVersion = ''hospitus.io/v1''"

record image_spec =
  img_Source :: string
  img_Arch :: string

record resource_spec =
  res_CPU :: int
  res_Memory :: string

record ip_config =
  ip_Mode :: string
  ip_Address :: string
  ip_Gateway :: string
  ip_DNS :: "string list"

record m_network =
  mn_Name :: string
  mn_Type :: string
  mn_Bridge :: string
  mn_BridgeFlags :: "string list"
  mn_VLAN :: int
  mn_MAC :: string
  mn_IPPool :: string
  mn_MTU :: int
  mn_IP :: "ip_config option"
  mn_Ports :: "port_config list"

record root_disk_spec =
  rd_Size :: string
  rd_Type :: string
  rd_Path :: string

record zfs_config =
  zc_Compression :: string
  zc_Quota :: string

record volume_spec =
  vol_Name :: string
  vol_Size :: string
  vol_MountPath :: string
  vol_HostPath :: string
  vol_ReadOnly :: bool
  vol_ZFS :: "zfs_config option"

record storage_spec =
  sto_RootDisk :: "root_disk_spec option"
  sto_Volumes :: "volume_spec list"

record autostart_config =
  aut_Enabled :: bool
  aut_Priority :: int
  aut_Delay :: string

record hook_spec =
  hk_Type :: string
  hk_Commands :: "string list"
  hk_OnFailure :: string

record hooks_config =
  hks_PreStart :: string
  hks_PostStart :: string
  hks_PreStop :: string
  hks_PreCreate :: "hook_spec list"
  hks_PostCreate :: "hook_spec list"

record lifecycle_spec =
  lc_StopTimeout :: int
  lc_Autostart :: "autostart_config option"
  lc_Hooks :: "hooks_config option"
  lc_HealthCheck :: "health_check_spec option"
  lc_Restart :: "restart_spec option"

record cloud_init_user =
  cu_Name :: string
  cu_SSHAuthorizedKeys :: "string list"
  cu_Sudo :: string
  cu_Doas :: string
  cu_Shell :: string
  cu_Groups :: "string list"
  cu_LockPasswd :: bool
  cu_PlainTextPasswd :: string

record cloud_init_spec =
  cis_Enabled :: "bool option"
  cis_Hostname :: string
  cis_Users :: "cloud_init_user list"
  cis_Packages :: "string list"
  cis_RunCMD :: "string list"
  cis_SSHAuthorizedKeys :: "string list"
  cis_UserData :: string
  cis_UserDataFile :: string

record provider_override =
  po_OSType :: string
  po_OSVersion :: string
  po_Parameters :: "(string \<times> config_value) list"
  po_Bootloader :: string
  po_ConsoleType :: string
  po_Passthrough :: "string list"
  po_VNC :: string
  po_DiskDriver :: string
  po_Machine :: string
  po_CPU :: string
  po_Command :: "string list"

record workload_manifest =
  wm_APIVersion :: string
  wm_Name :: string
  wm_Description :: string
  wm_Labels :: "(string \<times> string) list"
  wm_Annotations :: "(string \<times> string) list"
  wm_Provider :: string
  wm_Image :: image_spec
  wm_Resources :: resource_spec
  wm_Networks :: "m_network list"
  wm_Storage :: storage_spec
  wm_CloudInit :: "cloud_init_spec option"
  wm_Lifecycle :: lifecycle_spec
  wm_Environment :: "(string \<times> string) list"
  wm_ProviderOverrides :: "string \<rightharpoonup> provider_override"

record m_instance =
  mi_Name :: string
  mi_Provider :: string
  mi_Image :: image_spec
  mi_Resources :: resource_spec
  mi_Networks :: "m_network list"
  mi_Storage :: storage_spec
  mi_CloudInit :: "cloud_init_spec option"
  mi_Lifecycle :: lifecycle_spec
  mi_Environment :: "(string \<times> string) list"
  mi_ProviderOverrides :: "string \<rightharpoonup> provider_override"
  mi_DependsOn :: "depends_on_config option"

record stack_doc =
  sd_APIVersion :: string
  sd_Name :: string
  sd_Instances :: "m_instance list"

datatype parsed_manifest = ParsedWorkload workload_manifest | ParsedStack stack_doc

fun GetName :: "parsed_manifest \<Rightarrow> string" where
  "GetName (ParsedWorkload w) = wm_Name w"
| "GetName (ParsedStack s) = sd_Name s"

section \<open>Text beyond ASCII\<close>

text \<open>
  \<open>strings.TrimSpace\<close> drops the white space of Unicode, here by its encodings. \<open>strings.ToLower\<close> maps two characters
  outside ASCII to a letter of ASCII, the Kelvin sign and the dotted capital I; every other one it maps outside ASCII, and
  such a character is left as it is here, since the results are only compared with ASCII text.
\<close>

definition unicode_white :: "string list" where
  "unicode_white =
     map (\<lambda>c. [c]) white @
     [[CHR 0xC2, CHR 0x85], [CHR 0xC2, CHR 0xA0], [CHR 0xE1, CHR 0x9A, CHR 0x80]] @
     map (\<lambda>n. [CHR 0xE2, CHR 0x80, char_of n]) ([128..<139] @ [168, 169, 175]) @
     [[CHR 0xE2, CHR 0x81, CHR 0x9F], [CHR 0xE3, CHR 0x80, CHR 0x80]]"

definition strip_one :: "string list \<Rightarrow> string \<Rightarrow> string option" where
  "strip_one ws s = map_option (\<lambda>w. drop (length w) s) (find (HasPrefix s) ws)"

lemma strip_one_shorter: "strip_one ws s = Some r \<Longrightarrow> [] \<notin> set ws \<Longrightarrow> length r < length s"
  by (auto simp: strip_one_def find_Some_iff dest!: prefix_length_le intro!: diff_less) (metis length_0_conv nth_mem gr0I le_zero_eq)+

function strip_all :: "string list \<Rightarrow> string \<Rightarrow> string" where
  "strip_all ws s =
     (if [] \<in> set ws then s else case strip_one ws s of None \<Rightarrow> s | Some r \<Rightarrow> strip_all ws r)"
  by pat_completeness auto
termination
  by (relation "measure (\<lambda>(ws, s). length s)") (auto dest: strip_one_shorter)

declare strip_all.simps [simp del]

definition TrimSpace :: "string \<Rightarrow> string" where
  "TrimSpace s = rev (strip_all (map rev unicode_white) (rev (strip_all unicode_white s)))"

fun ToLower :: "string \<Rightarrow> string" where
  "ToLower [] = []"
| "ToLower (c # s) =
     (if HasPrefix (c # s) [CHR 0xC4, CHR 0xB0] then CHR ''i'' # ToLower (drop 1 s)
      else if HasPrefix (c # s) [CHR 0xE2, CHR 0x84, CHR 0xAA] then CHR ''k'' # ToLower (drop 2 s)
      else to_lower_char c # ToLower s)"

text \<open>\<open>strings.Join\<close>.\<close>

fun join_strings :: "string \<Rightarrow> string list \<Rightarrow> string" where
  "join_strings sep [] = []"
| "join_strings sep [x] = x"
| "join_strings sep (x # y # xs) = x @ sep @ join_strings sep (y # xs)"

section \<open>Sizes\<close>

text \<open>
  The source computes sizes in \<open>float64\<close>. A non-negative finite \<open>float64\<close> is an integer multiple of \<open>2\<^sup>-\<^sup>1\<^sup>0\<^sup>7\<^sup>4\<close>, and it
  is that integer here; rounding is to 53 significant bits, ties to even. A conversion to \<open>int64\<close> that does not fit
  depends on the processor: its result is the argument \<open>oor\<close>.
\<close>

function bit_length :: "int \<Rightarrow> nat" where
  "bit_length n = (if n \<le> 0 then 0 else Suc (bit_length (n div 2)))"
  by pat_completeness auto
termination
  by (relation "measure nat") auto

declare bit_length.simps [simp del]

definition round_div_even :: "int \<Rightarrow> int \<Rightarrow> int" where
  "round_div_even a b =
     (let q = a div b; r = a mod b in
      if 2 * r < b then q else if 2 * r > b then q + 1 else if even q then q else q + 1)"

definition f64_scale :: int where
  "f64_scale = 2 ^ 1074"

text \<open>The float nearest to \<open>a / b\<close> units.\<close>

definition f64_round :: "int \<Rightarrow> int \<Rightarrow> int" where
  "f64_round a b = (let k = bit_length (a div b) - 53 in round_div_even a (b * 2 ^ k) * 2 ^ k)"

definition f64_infinite :: "int \<Rightarrow> bool" where
  "f64_infinite x \<longleftrightarrow> x \<ge> 2 ^ 1024 * f64_scale"

definition f64_to_int64 :: "int \<Rightarrow> int \<Rightarrow> int" where
  "f64_to_int64 oor x = (let v = x div f64_scale in if v < 2 ^ 63 then v else oor)"

definition re_space :: string where
  "re_space = [CHR 0x09, CHR 0x0A, CHR 0x0C, CHR 0x0D, CHR '' '']"

text \<open>
  The match of \<^verbatim>\<open>^(\d+(?:\.\d+)?)\s*([KMGT]i?)?[Bb]?$\<close>: the digits before and after the point and the unit.
\<close>

definition split_fraction :: "string \<Rightarrow> string \<times> string" where
  "split_fraction s =
     (case s of
        c # r \<Rightarrow> if c = CHR ''.'' \<and> takeWhile is_digit r \<noteq> [] then (takeWhile is_digit r, dropWhile is_digit r) else ([], s)
      | [] \<Rightarrow> ([], []))"

definition split_unit :: "string \<Rightarrow> string \<times> string" where
  "split_unit s =
     (case s of
        c # r \<Rightarrow>
          if c \<in> set ''KMGT'' then
            (case r of d # r' \<Rightarrow> if d = CHR ''i'' then ([c, d], r') else ([c], r) | [] \<Rightarrow> ([c], []))
          else ([], s)
      | [] \<Rightarrow> ([], []))"

definition match_size :: "string \<Rightarrow> (string \<times> string \<times> string) option" where
  "match_size s =
     (let whole = takeWhile is_digit s;
          (fraction, s1) = split_fraction (dropWhile is_digit s);
          (un, s2) = split_unit (dropWhile (\<lambda>c. c \<in> set re_space) s1)
      in if whole \<noteq> [] \<and> (s2 = [] \<or> s2 = ''B'' \<or> s2 = ''b'') then Some (whole, fraction, un) else None)"

definition unit_multiplier :: "string \<Rightarrow> int option" where
  "unit_multiplier unit =
     (if unit = [] then Some 1
      else if unit = ''K'' then Some 1000
      else if unit = ''KI'' then Some 1024
      else if unit = ''M'' then Some (1000 * 1000)
      else if unit = ''MI'' then Some (1024 * 1024)
      else if unit = ''G'' then Some (1000 * 1000 * 1000)
      else if unit = ''GI'' then Some (1024 * 1024 * 1024)
      else if unit = ''T'' then Some (1000 * 1000 * 1000 * 1000)
      else if unit = ''TI'' then Some (1024 * 1024 * 1024 * 1024)
      else None)"

definition ParseMemorySize :: "int \<Rightarrow> string \<Rightarrow> int go_result" where
  "ParseMemorySize oor sz =
     (if sz = [] then Inl (Errorf ''empty size string'' [])
      else case match_size (TrimSpace sz) of
        None \<Rightarrow> Inl (Errorf ''invalid size format: %s'' [sz])
      | Some (whole, fraction, un) \<Rightarrow>
          let value = f64_round (int (atoi_nat (whole @ fraction)) * f64_scale) (10 ^ length fraction) in
          if f64_infinite value then Inl (Errorf ''invalid number in size: %s'' [sz])
          else case unit_multiplier (to_upper un) of
            None \<Rightarrow> Inl (Errorf ''unknown unit: %s'' [to_upper un])
          | Some multiplier \<Rightarrow> Inr (f64_to_int64 oor (f64_round (value * multiplier) 1)))"

text \<open>Go's division truncates toward zero.\<close>

definition go_div :: "int \<Rightarrow> int \<Rightarrow> int" where
  "go_div a b = (if a < 0 then - ((- a) div b) else a div b)"

definition ParseMemoryToMB :: "int \<Rightarrow> string \<Rightarrow> int go_result" where
  "ParseMemoryToMB oor sz = bind_res (ParseMemorySize oor sz) (\<lambda>bytes. Inr (go_div bytes (1024 * 1024)))"

definition wrap_int64 :: "int \<Rightarrow> int" where
  "wrap_int64 x = (x + 2 ^ 63) mod 2 ^ 64 - 2 ^ 63"

definition bytesToGiBRoundUp :: "int \<Rightarrow> int" where
  "bytesToGiBRoundUp sizeBytes =
     (if sizeBytes \<le> 0 then 0 else go_div (wrap_int64 (sizeBytes + 2 ^ 30 - 1)) (2 ^ 30))"

section \<open>Image sources\<close>

definition ParseImageSource :: "string \<Rightarrow> (string \<times> string) go_result" where
  "ParseImageSource source =
     (if source = [] then Inl (Errorf ''empty image source'' [])
      else if source = ''none'' then Inr (''none'', ''none'')
      else case cut_at CHR '':'' source of
        None \<Rightarrow> Inl (Errorf ''invalid image source format: %s (expected type:reference)'' [source])
      | Some (t, reference) \<Rightarrow>
          let imageType = ToLower t in
          if imageType \<notin> {''freebsd'', ''oci'', ''cloud'', ''iso''} then
            Inl (Errorf ''unknown image type: %s (valid: freebsd, oci, cloud, iso)'' [imageType])
          else if reference = [] then Inl (Errorf ''empty image reference in: %s'' [source])
          else Inr (imageType, reference))"

section \<open>Defaults\<close>

definition or_default :: "string \<Rightarrow> string \<Rightarrow> string" where
  "or_default s d = (if s = [] then d else s)"

definition default_image :: "image_spec \<Rightarrow> image_spec" where
  "default_image img = img\<lparr>img_Arch := or_default (img_Arch img) ''amd64''\<rparr>"

definition default_resources :: "resource_spec \<Rightarrow> resource_spec" where
  "default_resources r =
     r\<lparr>res_CPU := (if res_CPU r = 0 then 1 else res_CPU r), res_Memory := or_default (res_Memory r) ''512Mi''\<rparr>"

definition default_network :: "m_network \<Rightarrow> m_network" where
  "default_network n =
     n\<lparr>mn_Type := or_default (mn_Type n) ''bridge'',
       mn_IP := map_option (\<lambda>i. i\<lparr>ip_Mode := or_default (ip_Mode i) ''dhcp''\<rparr>) (mn_IP n),
       mn_Ports := map (\<lambda>p. p\<lparr>pc_Protocol := or_default (pc_Protocol p) ''tcp''\<rparr>) (mn_Ports n)\<rparr>"

definition cloudInitSectionEmpty :: "cloud_init_spec \<Rightarrow> bool" where
  "cloudInitSectionEmpty c \<longleftrightarrow>
     cis_Users c = [] \<and> cis_Packages c = [] \<and> cis_RunCMD c = [] \<and> cis_SSHAuthorizedKeys c = [] \<and>
     cis_UserData c = [] \<and> cis_UserDataFile c = []"

definition default_cloud_init :: "string \<Rightarrow> cloud_init_spec \<Rightarrow> cloud_init_spec" where
  "default_cloud_init name c =
     c\<lparr>cis_Enabled := (if cis_Enabled c = None \<and> \<not> cloudInitSectionEmpty c then Some True else cis_Enabled c),
       cis_Hostname := or_default (cis_Hostname c) name\<rparr>"

definition applyWorkloadDefaults :: "workload_manifest \<Rightarrow> workload_manifest" where
  "applyWorkloadDefaults m =
     m\<lparr>wm_APIVersion := or_default (wm_APIVersion m) APIVersion,
       wm_Image := default_image (wm_Image m),
       wm_Resources := default_resources (wm_Resources m),
       wm_Networks := map default_network (wm_Networks m),
       wm_Storage := (wm_Storage m)\<lparr>sto_RootDisk :=
         map_option (\<lambda>d. d\<lparr>rd_Type := or_default (rd_Type d) ''auto''\<rparr>) (sto_RootDisk (wm_Storage m))\<rparr>,
       wm_Lifecycle := (wm_Lifecycle m)\<lparr>lc_Autostart :=
         map_option (\<lambda>a. a\<lparr>aut_Priority := (if aut_Priority a = 0 then 50 else aut_Priority a)\<rparr>)
           (lc_Autostart (wm_Lifecycle m))\<rparr>,
       wm_CloudInit := map_option (default_cloud_init (wm_Name m)) (wm_CloudInit m)\<rparr>"

definition applyInstanceDefaults :: "m_instance \<Rightarrow> m_instance" where
  "applyInstanceDefaults inst =
     inst\<lparr>mi_Image := default_image (mi_Image inst),
          mi_Resources := default_resources (mi_Resources inst),
          mi_Networks := map default_network (mi_Networks inst),
          mi_DependsOn := map_option (\<lambda>d. d\<lparr>do_Condition := or_default (do_Condition d) ''started''\<rparr>) (mi_DependsOn inst),
          mi_CloudInit := map_option (default_cloud_init (mi_Name inst)) (mi_CloudInit inst)\<rparr>"


end
