(* ===== verification/Secrets.thy ===== *)
theory Secrets
  imports Paths "HOL-Library.Word"
begin

text \<open>
  \<open>pkg/manifest/secrets.go\<close>: secrets kept one per file. The files are a map from path to content; each operation takes an
  environment that says which system calls fail and what the random source returns. Several processes
  may share a directory: \<open>get_step\<close> interleaves the system calls of concurrent \<open>Get\<close>s of one secret.
\<close>

section \<open>Identifiers and paths\<close>

definition identifier_bad :: "string \<Rightarrow> bool" where
  "identifier_bad part \<longleftrightarrow>
     part = [] \<or> Contains part ''/'' \<or> Contains part [CHR 0x5C] \<or> Contains part [NUL] \<or> part = ''.'' \<or> part = ''..''"

text \<open>\<open>filepath.Join(baseDir, scope, name)\<close> for a cleaned base and plain parts.\<close>

definition join3 :: "string \<Rightarrow> string \<Rightarrow> string \<Rightarrow> string" where
  "join3 baseDir scope name =
     (if baseDir = ''/'' then ''/'' @ scope @ ''/'' @ name
      else if baseDir = ''.'' then scope @ ''/'' @ name
      else baseDir @ ''/'' @ scope @ ''/'' @ name)"

definition secret_path :: "string \<Rightarrow> string \<Rightarrow> string \<Rightarrow> string go_result" where
  "secret_path baseDir scope name =
     (case find identifier_bad [scope, name] of
        Some part \<Rightarrow>
          Inl (Errorf ''invalid secret identifier %q: must not contain path separators, null bytes, or be empty'' [part])
      | None \<Rightarrow>
          if \<not> HasPrefix (join3 baseDir scope name) (baseDir @ ''/'') then Inl (Errorf ''secret path escapes base directory'' [])
          else Inr (join3 baseDir scope name))"

section \<open>The store\<close>

definition hex_digit :: "nat \<Rightarrow> char" where
  "hex_digit n = (if n < 10 then char_of (n + 48) else char_of (n + 87))"

definition hex_encode :: "string \<Rightarrow> string" where
  "hex_encode b = concat (map (\<lambda>c. [hex_digit (byte c div 16), hex_digit (byte c mod 16)]) b)"

text \<open>The steps that write the temporary file, of which one may fail.\<close>

datatype temp_failure = TCreate go_error | TChmod go_error | TWrite go_error | TSync go_error | TClose go_error

fun temp_error :: "temp_failure \<Rightarrow> go_error" where
  "temp_error (TCreate e) = Wrapf ''failed to write secret: %w'' [] e"
| "temp_error (TChmod e) = Wrapf ''failed to secure secret file: %w'' [] e"
| "temp_error (TWrite e) = Wrapf ''failed to write secret: %w'' [] e"
| "temp_error (TSync e) = Wrapf ''failed to flush secret: %w'' [] e"
| "temp_error (TClose e) = Wrapf ''failed to close secret file: %w'' [] e"

text \<open>
  \<open>se_Read\<close> is a failure other than that the file is missing; \<open>se_Temp\<close> says which step of writing the temporary file fails. What another process linked first, if any, is \<open>se_Winner\<close>.
\<close>

record secret_env =
  se_Read :: "string \<Rightarrow> go_error option"
  se_Remove :: "string \<Rightarrow> go_error option"
  se_MkdirAll :: "go_error option"
  se_Rand :: "nat \<Rightarrow> string go_result"
  se_Temp :: "temp_failure option"
  se_Rename :: "go_error option"
  se_Link :: "go_error option"
  se_Winner :: "string option"
  se_ReadDir :: "(string \<times> bool) list go_result"

type_synonym secret_files = "string \<rightharpoonup> string"

definition generateAndSave ::
    "secret_env \<Rightarrow> string \<Rightarrow> string \<Rightarrow> string \<Rightarrow> bool \<Rightarrow> secret_files \<Rightarrow> string go_result \<times> secret_files" where
  "generateAndSave ev baseDir scope name replace fs =
     (case secret_path baseDir scope name of
        Inl e \<Rightarrow> (Inl e, fs)
      | Inr path \<Rightarrow>
     (case se_MkdirAll ev of
        Some e \<Rightarrow> (Inl (Wrapf ''failed to create secrets directory: %w'' [] e), fs)
      | None \<Rightarrow>
     (case se_Rand ev 32 of
        Inl e \<Rightarrow> (Inl (Wrapf ''failed to generate random bytes: %w'' [] e), fs)
      | Inr b \<Rightarrow>
          let value = hex_encode b in
          (case se_Temp ev of
             Some f \<Rightarrow> (Inl (temp_error f), fs)
           | None \<Rightarrow>
               if replace then
                 (case se_Rename ev of
                    Some e \<Rightarrow> (Inl (Wrapf ''failed to persist secret: %w'' [] e), fs)
                  | None \<Rightarrow> (Inr value, fs(path \<mapsto> value)))
               else
                 let fs1 = (case se_Winner ev of Some w \<Rightarrow> if fs path = None then fs(path \<mapsto> w) else fs | None \<Rightarrow> fs) in
                 (case se_Link ev of
                    Some e \<Rightarrow> (Inl (Wrapf ''failed to persist secret: %w'' [] e), fs1)
                  | None \<Rightarrow>
                      (case fs1 path of
                         None \<Rightarrow> (Inr value, fs1(path \<mapsto> value))
                       | Some existing \<Rightarrow>
                           (case se_Read ev path of
                              Some e \<Rightarrow> (Inl (Wrapf ''failed to read the secret another writer created: %w'' [] e), fs1)
                            | None \<Rightarrow>
                                if existing = [] then (Inl (Errorf ''the secret %s exists but is empty'' [name]), fs1)
                                else (Inr existing, fs1))))))))"

definition secret_Get ::
    "secret_env \<Rightarrow> string \<Rightarrow> string \<Rightarrow> string \<Rightarrow> secret_files \<Rightarrow> string go_result \<times> secret_files" where
  "secret_Get ev baseDir scope name fs =
     (case secret_path baseDir scope name of
        Inl e \<Rightarrow> (Inl e, fs)
      | Inr path \<Rightarrow>
          (case fs path of
             None \<Rightarrow> generateAndSave ev baseDir scope name False fs
           | Some data \<Rightarrow>
               (case se_Read ev path of
                  Some e \<Rightarrow> (Inl (Wrapf ''failed to read secret %s: %w'' [name] e), fs)
                | None \<Rightarrow>
                    if data \<noteq> [] then (Inr data, fs)
                    else (case se_Remove ev path of
                            Some e \<Rightarrow> (Inl (Wrapf ''failed to clear the empty secret %s: %w'' [name] e), fs)
                          | None \<Rightarrow> generateAndSave ev baseDir scope name False (fs(path := None))))))"

definition secret_Rotate ::
    "secret_env \<Rightarrow> string \<Rightarrow> string \<Rightarrow> string \<Rightarrow> secret_files \<Rightarrow> string go_result \<times> secret_files" where
  "secret_Rotate ev baseDir scope name fs = generateAndSave ev baseDir scope name True fs"

definition secret_Remove ::
    "secret_env \<Rightarrow> string \<Rightarrow> string \<Rightarrow> string \<Rightarrow> secret_files \<Rightarrow> go_error option \<times> secret_files" where
  "secret_Remove ev baseDir scope name fs =
     (case secret_path baseDir scope name of
        Inl e \<Rightarrow> (Some e, fs)
      | Inr p \<Rightarrow>
          if fs p = None then (Some (Errorf ''file does not exist'' []), fs)
          else (case se_Remove ev p of Some e \<Rightarrow> (Some e, fs) | None \<Rightarrow> (None, fs(p := None))))"

definition secret_List :: "secret_env \<Rightarrow> string \<Rightarrow> string list go_result" where
  "secret_List ev scope =
     (if identifier_bad scope then Inl (Errorf ''invalid scope %q'' [scope])
      else case se_ReadDir ev of
        Inl e \<Rightarrow> if e = Errorf ''file does not exist'' [] then Inr [] else Inl e
      | Inr entries \<Rightarrow> Inr (map fst (filter (\<lambda>(n, isDir). \<not> isDir) entries)))"

text \<open>Where secrets live when no directory is named: \<open>writable\<close> is the probe, \<open>home\<close> the result of \<open>os.UserHomeDir\<close>.\<close>

definition DefaultSecretsDir :: string where
  "DefaultSecretsDir = ''/var/lib/hospitus/secrets''"

definition resolveSecretsDir :: "(string \<Rightarrow> bool) \<Rightarrow> string go_result \<Rightarrow> string" where
  "resolveSecretsDir writable home =
     (if writable DefaultSecretsDir then DefaultSecretsDir
      else case home of
        Inl _ \<Rightarrow> DefaultSecretsDir
      | Inr h \<Rightarrow> if h = [] then DefaultSecretsDir else h @ ''/.local/share/hospitus/secrets'')"

text \<open>The store used to check a manifest without writing anything.\<close>

definition noop_Get :: "string \<Rightarrow> string \<Rightarrow> string go_result" where
  "noop_Get scope name = Inr (''PLACEHOLDER-'' @ scope @ ''-'' @ name)"

section \<open>Processes that share a directory\<close>

text \<open>
  One \<open>Get\<close> per process: about to read, about to remove an empty file, about to link a value of its own, about
  to read what another process linked, done. The mutex of the store orders the calls of one process only.
\<close>

datatype get_phase = GRead | GClear | GLink string | GReread | GDone "string option"

record get_state =
  gs_file :: "string option"
  gs_procs :: "nat \<Rightarrow> get_phase"

inductive get_step :: "get_state \<Rightarrow> get_state \<Rightarrow> bool" where
  read_missing: "gs_procs s i = GRead \<Longrightarrow> gs_file s = None \<Longrightarrow> v \<noteq> [] \<Longrightarrow>
    get_step s (s\<lparr>gs_procs := (gs_procs s)(i := GLink v)\<rparr>)"
| read_found: "gs_procs s i = GRead \<Longrightarrow> gs_file s = Some v \<Longrightarrow> v \<noteq> [] \<Longrightarrow>
    get_step s (s\<lparr>gs_procs := (gs_procs s)(i := GDone (Some v))\<rparr>)"
| read_empty: "gs_procs s i = GRead \<Longrightarrow> gs_file s = Some [] \<Longrightarrow>
    get_step s (s\<lparr>gs_procs := (gs_procs s)(i := GClear)\<rparr>)"
| clear: "gs_procs s i = GClear \<Longrightarrow> v \<noteq> [] \<Longrightarrow>
    get_step s (s\<lparr>gs_file := None, gs_procs := (gs_procs s)(i := GLink v)\<rparr>)"
| link_new: "gs_procs s i = GLink v \<Longrightarrow> gs_file s = None \<Longrightarrow>
    get_step s (s\<lparr>gs_file := Some v, gs_procs := (gs_procs s)(i := GDone (Some v))\<rparr>)"
| link_taken: "gs_procs s i = GLink v \<Longrightarrow> gs_file s \<noteq> None \<Longrightarrow>
    get_step s (s\<lparr>gs_procs := (gs_procs s)(i := GReread)\<rparr>)"
| reread: "gs_procs s i = GReread \<Longrightarrow>
    get_step s (s\<lparr>gs_procs := (gs_procs s)(i := GDone (case gs_file s of Some w \<Rightarrow> if w = [] then None else Some w | None \<Rightarrow> None))\<rparr>)"
| fail: "gs_procs s i = p \<Longrightarrow> (\<forall>r. p \<noteq> GDone r) \<Longrightarrow>
    get_step s (s\<lparr>gs_procs := (gs_procs s)(i := GDone None)\<rparr>)"

inductive_cases get_stepE: "get_step s t"

definition get_start :: "string option \<Rightarrow> get_state" where
  "get_start content = \<lparr>gs_file = content, gs_procs = \<lambda>_. GRead\<rparr>"

inductive get_reach :: "get_state \<Rightarrow> get_state \<Rightarrow> bool" where
  refl: "get_reach s s"
| step: "get_reach s t \<Longrightarrow> get_step t u \<Longrightarrow> get_reach s u"

section \<open>Where a secret is\<close>

lemma secret_path_Inr:
  assumes "secret_path baseDir scope name = Inr p"
  shows "p = baseDir @ ''/'' @ scope @ ''/'' @ name" "slash \<notin> set scope" "slash \<notin> set name"
    "scope \<notin> {[], ''.'', ''..''}" "name \<notin> {[], ''.'', ''..''}"
proof -
  have ok: "\<not> identifier_bad scope" "\<not> identifier_bad name"
    and pre: "HasPrefix (join3 baseDir scope name) (baseDir @ ''/'')" and p: "p = join3 baseDir scope name"
    using assms by (auto simp: secret_path_def split: if_splits option.splits)
  have sub: "c \<in> set s \<Longrightarrow> Contains s [c]" for c :: char and s
    by (auto dest!: split_list simp: sublist_def)
  show "slash \<notin> set scope" "slash \<notin> set name" using ok sub [of slash] by (auto simp: identifier_bad_def slash_def)
  show nice: "scope \<notin> {[], ''.'', ''..''}" "name \<notin> {[], ''.'', ''..''}" using ok by (auto simp: identifier_bad_def)
  have "baseDir \<noteq> ''/''"
  proof
    assume b: "baseDir = ''/''"
    then have "HasPrefix (scope @ ''/'' @ name) ''/''" using pre by (simp add: join3_def)
    then have "hd scope = slash" using nice(1) by (cases scope) (auto simp: slash_def)
    then show False using \<open>slash \<notin> set scope\<close> nice(1) by (cases scope) auto
  qed
  moreover have "baseDir \<noteq> ''.''"
  proof
    assume "baseDir = ''.''"
    then have "HasPrefix (scope @ ''/'' @ name) ''./''" using pre by (simp add: join3_def)
    then obtain x where "scope @ slash # name = ''.'' @ slash # x" by (auto simp: prefix_def slash_def)
    moreover have "cut_at slash (scope @ slash # name) = Some (scope, name)" using \<open>slash \<notin> set scope\<close> by (simp add: cut_at_Some_iff)
    moreover have "cut_at slash (''.'' @ slash # x) = Some (''.'', x)" by (subst cut_at_Some_iff) (simp add: slash_def)
    ultimately show False using nice(1) by simp
  qed
  ultimately show "p = baseDir @ ''/'' @ scope @ ''/'' @ name" using p by (simp add: join3_def)
qed



section \<open>A secret keeps its value\<close>

datatype secret_op = OpGet string string | OpRotate string string | OpRemove string string

fun run_op :: "string \<Rightarrow> secret_env \<times> secret_op \<Rightarrow> secret_files \<Rightarrow> secret_files" where
  "run_op b (ev, OpGet s n) fs = snd (secret_Get ev b s n fs)"
| "run_op b (ev, OpRotate s n) fs = snd (secret_Rotate ev b s n fs)"
| "run_op b (ev, OpRemove s n) fs = snd (secret_Remove ev b s n fs)"

fun changes_secret :: "string \<Rightarrow> string \<Rightarrow> secret_op \<Rightarrow> bool" where
  "changes_secret s n (OpGet s' n') = False"
| "changes_secret s n (OpRotate s' n') = (s' = s \<and> n' = n)"
| "changes_secret s n (OpRemove s' n') = (s' = s \<and> n' = n)"

lemma generate_frame:
  assumes "secret_path b s n \<noteq> Inr p"
  shows "snd (generateAndSave ev b s n r fs) p = fs p"
  using assms by (auto simp: generateAndSave_def Let_def split: sum.splits option.splits)

lemma Get_frame:
  assumes "secret_path b s n \<noteq> Inr p"
  shows "snd (secret_Get ev b s n fs) p = fs p"
  using assms generate_frame [OF assms] by (auto simp: secret_Get_def split: sum.splits option.splits)

lemma Get_keeps:
  assumes "fs p = Some v" "v \<noteq> []" "secret_path b s n = Inr p"
  shows "snd (secret_Get ev b s n fs) = fs"
  using assms by (auto simp: secret_Get_def split: option.splits)

lemma run_op_keeps:
  assumes "fs p = Some v" "v \<noteq> []" "secret_path b s n = Inr p" "\<not> changes_secret s n (snd eo)"
  shows "run_op b eo fs p = Some v"
proof -
  obtain ev x where eo: "eo = (ev, x)" by (cases eo)
  have other: "secret_path b s' n' \<noteq> Inr p" if "s' \<noteq> s \<or> n' \<noteq> n" for s' n'
  proof
    assume a: "secret_path b s' n' = Inr p"
    have "s @ slash # n = s' @ slash # n'" using secret_path_Inr(1) [OF a] secret_path_Inr(1) [OF assms(3)] by (simp add: slash_def)
    moreover have "cut_at slash (s @ slash # n) = Some (s, n)" "cut_at slash (s' @ slash # n') = Some (s', n')"
      using secret_path_Inr(2) [OF a] secret_path_Inr(2) [OF assms(3)] by (simp_all add: cut_at_Some_iff)
    ultimately have "s' = s" "n' = n" by (metis option.inject prod.inject)+
    with that show False by simp
  qed
  show ?thesis
  proof (cases x)
    case (OpGet s' n')
    show ?thesis
    proof (cases "s' = s \<and> n' = n")
      case True
      then show ?thesis using eo OpGet Get_keeps [where fs = fs and p = p, OF assms(1-3)] assms(1) by simp
    next
      case False
      then show ?thesis using eo OpGet Get_frame [of b s' n' p ev fs] other [of s' n'] assms(1) by auto
    qed
  next
    case (OpRotate s' n')
    then show ?thesis using eo assms(1,4) other [of s' n'] generate_frame [of b s' n' p ev True fs] by (auto simp: secret_Rotate_def)
  next
    case (OpRemove s' n')
    then show ?thesis using eo assms(1,4) other [of s' n']
      by (auto simp: secret_Remove_def split: sum.splits option.splits)
  qed
qed

lemma hex_encode_nonempty: "b \<noteq> [] \<Longrightarrow> hex_encode b \<noteq> []"
  by (cases b) (simp_all add: hex_encode_def)

lemma Get_result:
  assumes "secret_Get ev b s n fs = (Inr v, fs')" "\<forall>r. se_Rand ev 32 = Inr r \<longrightarrow> length r = 32" "secret_path b s n = Inr p"
  shows "fs' p = Some v" "v \<noteq> []"
proof -
  have rand: "se_Rand ev 32 = Inr r \<Longrightarrow> hex_encode r \<noteq> []" for r
    using assms(2) hex_encode_nonempty [of r] by (cases r) auto
  have gen: "fs2 p = Some v \<and> v \<noteq> []" if "generateAndSave ev b s n False fs1 = (Inr v, fs2)" for fs1 fs2
    using that assms(3) rand by (auto simp: generateAndSave_def Let_def split: sum.splits option.splits if_splits)
  show "fs' p = Some v" "v \<noteq> []"
    using assms(1,3) gen by (auto simp: secret_Get_def split: option.splits if_splits)
qed

text \<open>
  A secret keeps its value: once \<open>Get\<close> has returned a value, every later \<open>Get\<close> of that secret that can read the file returns the
  same one and changes nothing, whatever operations on this and other secrets came between, as long as none of them
  rotated or removed it; and the value is never empty.\<close>

theorem secret_value_stable:
  assumes "secret_Get ev b s n fs = (Inr v, fs1)" "\<forall>r. se_Rand ev 32 = Inr r \<longrightarrow> length r = 32"
    "\<forall>eo \<in> set ops. \<not> changes_secret s n (snd eo)" "\<forall>p. se_Read ev' p = None"
  shows "v \<noteq> [] \<and> secret_Get ev' b s n (fold (run_op b) ops fs1) = (Inr v, fold (run_op b) ops fs1)"
proof -
  obtain p where p: "secret_path b s n = Inr p"
    using assms(1) by (auto simp: secret_Get_def split: sum.splits)
  note v = Get_result [OF assms(1,2) p]
  have "fold (run_op b) ops fs1 p = Some v"
    using v(1) assms(3)
  proof (induction ops arbitrary: fs1)
    case (Cons x ops)
    then show ?case using run_op_keeps [where fs = fs1 and p = p, OF Cons.prems(1) v(2) p] by auto
  qed simp
  then show ?thesis using p v(2) assms(4) by (simp add: secret_Get_def)
qed

definition demo_secret_env :: secret_env where
  "demo_secret_env =
     \<lparr>se_Read = \<lambda>_. None, se_Remove = \<lambda>_. None, se_MkdirAll = None, se_Rand = \<lambda>n. Inr (replicate n CHR ''k''), se_Temp = None,
      se_Rename = None, se_Link = None, se_Winner = None, se_ReadDir = Inr []\<rparr>"

theorem secret_value_stable_witness:
  "fst (secret_Get demo_secret_env ''/s'' ''web'' ''db''
     (fold (run_op ''/s'') [(demo_secret_env, OpRotate ''web'' ''other''), (demo_secret_env, OpGet ''web'' ''db'')]
        (snd (secret_Get demo_secret_env ''/s'' ''web'' ''db'' Map.empty)))) = Inr (hex_encode (replicate 32 CHR ''k''))"
proof -
  have p: "secret_path ''/s'' ''web'' ''db'' = Inr ''/s/web/db''" by code_simp
  obtain fs1 where g: "secret_Get demo_secret_env ''/s'' ''web'' ''db'' Map.empty = (Inr (hex_encode (replicate 32 CHR ''k'')), fs1)"
    using p by (simp add: secret_Get_def generateAndSave_def demo_secret_env_def Let_def)
  have "secret_Get demo_secret_env ''/s'' ''web'' ''db''
     (fold (run_op ''/s'') [(demo_secret_env, OpRotate ''web'' ''other''), (demo_secret_env, OpGet ''web'' ''db'')] fs1) =
     (Inr (hex_encode (replicate 32 CHR ''k'')), fold (run_op ''/s'') [(demo_secret_env, OpRotate ''web'' ''other''), (demo_secret_env, OpGet ''web'' ''db'')] fs1)"
    using secret_value_stable [OF g, of "[(demo_secret_env, OpRotate ''web'' ''other''), (demo_secret_env, OpGet ''web'' ''db'')]" demo_secret_env]
    by (simp add: demo_secret_env_def)
  then show ?thesis using g by simp
qed

section \<open>Concurrent readers agree\<close>

fun phase_ok :: "string option \<Rightarrow> get_phase \<Rightarrow> bool" where
  "phase_ok f GRead = True"
| "phase_ok f GClear = False"
| "phase_ok f (GLink v) = (v \<noteq> [])"
| "phase_ok f GReread = (f \<noteq> None)"
| "phase_ok f (GDone r) = (case r of None \<Rightarrow> True | Some v \<Rightarrow> f = Some v)"

definition get_inv :: "get_state \<Rightarrow> bool" where
  "get_inv s \<longleftrightarrow> gs_file s \<noteq> Some [] \<and> (\<forall>i. phase_ok (gs_file s) (gs_procs s i))"

lemma get_inv_same_file:
  assumes "get_inv s" "phase_ok (gs_file s) p"
  shows "get_inv (s\<lparr>gs_procs := (gs_procs s)(i := p)\<rparr>)"
  using assms by (simp add: get_inv_def)

lemma get_inv_phase: "get_inv s \<Longrightarrow> gs_procs s i = p \<Longrightarrow> phase_ok (gs_file s) p"
  by (auto simp: get_inv_def)

lemma phase_ok_link: "phase_ok None p \<Longrightarrow> phase_ok (Some v) p"
  by (cases p) (auto split: option.splits)

lemma get_inv_step: "get_step s t \<Longrightarrow> get_inv s \<Longrightarrow> get_inv t \<and> (gs_file s \<noteq> None \<longrightarrow> gs_file t = gs_file s)"
proof (induction rule: get_step.induct)
  case (read_empty s i)
  then show ?case by (simp add: get_inv_def)
next
  case (clear s i v)
  then show ?case using get_inv_phase [OF clear.prems clear.hyps(1)] by simp
next
  case (link_new s i v)
  have "phase_ok (Some v) (gs_procs s j)" for j
    using link_new by (intro phase_ok_link) (auto simp: get_inv_def)
  moreover have "v \<noteq> []" using get_inv_phase [OF link_new.prems link_new.hyps(1)] by simp
  ultimately show ?case using link_new.hyps(2) by (simp add: get_inv_def)
next
  case (reread s i)
  have "gs_file s \<noteq> None" using get_inv_phase [OF reread.prems reread.hyps] by simp
  then show ?case using reread.prems by (auto intro!: get_inv_same_file simp: get_inv_def)
qed (auto intro!: get_inv_same_file)

lemma get_inv_reach:
  assumes "get_reach s t" "get_inv s"
  shows "get_inv t \<and> (gs_file s \<noteq> None \<longrightarrow> gs_file t = gs_file s)"
  using assms by (induction rule: get_reach.induct) (auto dest: get_inv_step)

text \<open>C38. Any number of processes that ask for one secret at the same time agree: in every interleaving of their system calls, started
  with no file or with a file that is not empty, all calls that succeed return one value, which is the one on disk, and the value
  that was there before if there was one.\<close>

theorem concurrent_gets_agree:
  assumes "get_reach (get_start content) s" "content \<noteq> Some []"
    "gs_procs s i = GDone (Some v)" "gs_procs s j = GDone (Some w)"
  shows "v = w \<and> v \<noteq> [] \<and> gs_file s = Some v \<and> (case content of None \<Rightarrow> True | Some x \<Rightarrow> v = x)"
proof -
  have "get_inv (get_start content)" using assms(2) by (simp add: get_inv_def get_start_def)
  from get_inv_reach [OF assms(1) this] have inv: "get_inv s" "content \<noteq> None \<longrightarrow> gs_file s = content"
    by (simp_all add: get_start_def)
  have f: "gs_file s = Some x" if "gs_procs s k = GDone (Some x)" for k x
    using get_inv_phase [OF inv(1) that] by simp
  show ?thesis
    using f [OF assms(3)] f [OF assms(4)] inv by (auto simp: get_inv_def split: option.splits)
qed

text \<open>Two processes, both of which found no file: the second to link reads what the first wrote.\<close>

lemma get_race_example:
  "get_reach (get_start None)
     \<lparr>gs_file = Some ''a'', gs_procs = ((\<lambda>_. GRead)(0 := GDone (Some ''a'')))(1 := GDone (Some ''a''))\<rparr>"
proof -
  let ?p = "\<lambda>f x y. \<lparr>gs_file = f, gs_procs = ((\<lambda>_. GRead)(0 := x))(1 := y)\<rparr> :: get_state"
  have s0: "get_start None = ?p None GRead GRead" by (auto simp: get_start_def)
  have "get_step (?p None GRead GRead) (?p None (GLink ''a'') GRead)"
    using get_step.read_missing [of "?p None GRead GRead" 0 "''a''"] by (simp add: fun_upd_twist fun_upd_idem)
  moreover have "get_step (?p None (GLink ''a'') GRead) (?p None (GLink ''a'') (GLink ''b''))"
    using get_step.read_missing [of "?p None (GLink ''a'') GRead" 1 "''b''"] by simp
  moreover have "get_step (?p None (GLink ''a'') (GLink ''b'')) (?p (Some ''a'') (GDone (Some ''a'')) (GLink ''b''))"
    using get_step.link_new [of "?p None (GLink ''a'') (GLink ''b'')" 0 "''a''"] by (simp add: fun_upd_twist)
  moreover have "get_step (?p (Some ''a'') (GDone (Some ''a'')) (GLink ''b'')) (?p (Some ''a'') (GDone (Some ''a'')) GReread)"
    using get_step.link_taken [of "?p (Some ''a'') (GDone (Some ''a'')) (GLink ''b'')" 1 "''b''"] by simp
  moreover have "get_step (?p (Some ''a'') (GDone (Some ''a'')) GReread) (?p (Some ''a'') (GDone (Some ''a'')) (GDone (Some ''a'')))"
    using get_step.reread [of "?p (Some ''a'') (GDone (Some ''a'')) GReread" 1] by simp
  ultimately show ?thesis unfolding s0 by (meson get_reach.intros)
qed

theorem concurrent_gets_agree_witness:
  "gs_file \<lparr>gs_file = Some ''a'', gs_procs = ((\<lambda>_. GRead)(0 := GDone (Some ''a'')))(1 := GDone (Some ''a''))\<rparr> = Some ''a''"
  using concurrent_gets_agree [OF get_race_example, of 0 "''a''" 1 "''a''"] by simp

text \<open>
  With an empty file the calls need not agree: removing it is not conditional on it still being empty, so a process that saw the
  empty file can delete the value another one has already returned.
\<close>

lemma empty_secret_race:
  "\<exists>s. get_reach (get_start (Some [])) s \<and> gs_procs s 0 = GDone (Some ''a'') \<and> gs_procs s 1 = GDone (Some ''b'')"
proof -
  let ?p = "\<lambda>f x y. \<lparr>gs_file = f, gs_procs = ((\<lambda>_. GRead)(0 := x))(1 := y)\<rparr> :: get_state"
  have s0: "get_start (Some []) = ?p (Some []) GRead GRead" by (auto simp: get_start_def)
  have "get_step (?p (Some []) GRead GRead) (?p (Some []) GClear GRead)"
    using get_step.read_empty [of "?p (Some []) GRead GRead" 0] by (simp add: fun_upd_twist fun_upd_idem)
  moreover have "get_step (?p (Some []) GClear GRead) (?p (Some []) GClear GClear)"
    using get_step.read_empty [of "?p (Some []) GClear GRead" 1] by simp
  moreover have "get_step (?p (Some []) GClear GClear) (?p None (GLink ''a'') GClear)"
    using get_step.clear [of "?p (Some []) GClear GClear" 0 "''a''"] by (simp add: fun_upd_twist)
  moreover have "get_step (?p None (GLink ''a'') GClear) (?p (Some ''a'') (GDone (Some ''a'')) GClear)"
    using get_step.link_new [of "?p None (GLink ''a'') GClear" 0 "''a''"] by (simp add: fun_upd_twist)
  moreover have "get_step (?p (Some ''a'') (GDone (Some ''a'')) GClear) (?p None (GDone (Some ''a'')) (GLink ''b''))"
    using get_step.clear [of "?p (Some ''a'') (GDone (Some ''a'')) GClear" 1 "''b''"] by simp
  moreover have "get_step (?p None (GDone (Some ''a'')) (GLink ''b'')) (?p (Some ''b'') (GDone (Some ''a'')) (GDone (Some ''b'')))"
    using get_step.link_new [of "?p None (GDone (Some ''a'')) (GLink ''b'')" 1 "''b''"] by simp
  ultimately have "get_reach (get_start (Some [])) (?p (Some ''b'') (GDone (Some ''a'')) (GDone (Some ''b'')))"
    unfolding s0 by (meson get_reach.intros)
  then show ?thesis by (intro exI [of _ "?p (Some ''b'') (GDone (Some ''a'')) (GDone (Some ''b''))"]) simp
qed

end
