(* ===== verification/Template.thy ===== *)
theory Template
  imports Secrets
begin

text \<open>
  \<open>pkg/manifest/template.go\<close>: rendering a manifest. The engine of \<open>text/template\<close> is a parameter, split into parsing and
  execution, which threads the state the functions of the template change (the secret store). Modelled is what the source does
  around it: the literal markers put aside before rendering and restored after, the detection of a missing
  variable, and the functions it registers.
\<close>

section \<open>Substrings\<close>

text \<open>\<open>bytes.Index\<close>, as the parts before and after the first occurrence.\<close>

fun cut_sub :: "string \<Rightarrow> string \<Rightarrow> (string \<times> string) option" where
  "cut_sub pat [] = (if pat = [] then Some ([], []) else None)"
| "cut_sub pat (c # s) =
     (if HasPrefix (c # s) pat then Some ([], drop (length pat) (c # s))
      else map_option (\<lambda>(a, b). (c # a, b)) (cut_sub pat s))"

lemma cut_sub_Some: "cut_sub pat s = Some (a, b) \<Longrightarrow> s = a @ pat @ b"
proof (induction s arbitrary: a)
  case (Cons c s)
  then show ?case by (auto simp: prefix_def split: if_splits)
qed (simp split: if_splits)

lemma cut_sub_shorter: "cut_sub pat s = Some (a, b) \<Longrightarrow> pat \<noteq> [] \<Longrightarrow> length b < length s"
  by (drule cut_sub_Some) simp

lemma cut_sub_None_iff: "cut_sub pat s = None \<longleftrightarrow> \<not> Contains s pat"
proof (induction s)
  case (Cons c s)
  then show ?case by (auto simp: sublist_Cons_right)
qed (simp add: sublist_def)

text \<open>\<open>bytes.ReplaceAll\<close> for a pattern that is not empty.\<close>

function replace_all :: "string \<Rightarrow> string \<Rightarrow> string \<Rightarrow> string" where
  "replace_all pat rp s =
     (if pat = [] then s
      else case cut_sub pat s of None \<Rightarrow> s | Some (a, b) \<Rightarrow> a @ rp @ replace_all pat rp b)"
  by pat_completeness auto
termination
  by (relation "measure (\<lambda>(pat, rp, s). length s)") (auto dest: cut_sub_shorter)

declare replace_all.simps [simp del]

section \<open>Markers\<close>

definition no_value :: string where
  "no_value = ''<no value>''"

definition literal_no_value :: string where
  "literal_no_value = [NUL] @ ''hospitus-literal-no-value'' @ [NUL]"

definition hide_text :: "string \<Rightarrow> string" where
  "hide_text s = replace_all no_value literal_no_value s"

function hideLiteralMarkers :: "string \<Rightarrow> string" where
  "hideLiteralMarkers raw =
     (case cut_sub ''{{'' raw of
        None \<Rightarrow> hide_text raw
      | Some (before, after) \<Rightarrow>
          (case cut_sub ''}}'' after of
             None \<Rightarrow> hide_text before @ ''{{'' @ after
           | Some (act, rest) \<Rightarrow> hide_text before @ ''{{'' @ act @ ''}}'' @ hideLiteralMarkers rest))"
  by pat_completeness auto
termination
  by (relation "measure length") (auto dest!: cut_sub_Some)

declare hideLiteralMarkers.simps [simp del]

text \<open>
  The engine: \<open>parse\<close> gives a template or an error, \<open>exec\<close> runs it. The source's action ends at the first \<open>}}\<close> after its
  opening braces; as the source searches from the opening braces on, the braces themselves are part of the text searched, which
  cannot hold \<open>}}\<close> before the action's own text.
\<close>

record ('t, 'w) engine =
  en_Parse :: "string \<Rightarrow> 't go_result"
  en_Exec :: "'t \<Rightarrow> 'w \<Rightarrow> string go_result \<times> 'w"

definition line_number :: "string \<Rightarrow> nat" where
  "line_number before = length (filter (\<lambda>c. c = CHR 0x0A) before) + 1"

definition RenderTemplate :: "('t, 'w) engine \<Rightarrow> string \<Rightarrow> 'w \<Rightarrow> string go_result \<times> 'w" where
  "RenderTemplate en raw w =
     (case en_Parse en (hideLiteralMarkers raw) of
        Inl e \<Rightarrow> (Inl (Wrapf ''failed to parse template: %w'' [] e), w)
      | Inr tmpl \<Rightarrow>
          (case en_Exec en tmpl w of
             (Inl e, w') \<Rightarrow> (Inl (Wrapf ''failed to execute template: %w'' [] e), w')
           | (Inr out, w') \<Rightarrow>
               (case cut_sub no_value out of
                  Some (before, _) \<Rightarrow>
                    (Inl (Errorf ''manifest line %d uses a variable that was not provided'' [itoa (int (line_number before))]), w')
                | None \<Rightarrow> (Inr (replace_all literal_no_value no_value out), w'))))"

section \<open>Template functions\<close>

text \<open>A value a template handles, by the cases the \<open>default\<close> function tells apart.\<close>

datatype tval = VNil | VString string | VInt int | VInt64 int | VFloat64 bool string | VBool bool | VOther

text \<open>The flag of a float says whether it is zero.\<close>

definition tval_absent :: "tval \<Rightarrow> bool" where
  "tval_absent v =
     (case v of
        VNil \<Rightarrow> True
      | VString s \<Rightarrow> s = [] \<or> s = no_value
      | VInt i \<Rightarrow> i = 0 | VInt64 i \<Rightarrow> i = 0 | VFloat64 z _ \<Rightarrow> z
      | VBool _ \<Rightarrow> False | VOther \<Rightarrow> False)"

fun template_default :: "tval list \<Rightarrow> tval go_result" where
  "template_default [] = Inl (Errorf ''default function requires at least one argument'' [])"
| "template_default [fallback] = Inr fallback"
| "template_default (fallback # value # _) = Inr (if tval_absent value then fallback else value)"

definition env_allowed :: "string list" where
  "env_allowed =
     [''HOME'', ''USER'', ''LANG'', ''LC_ALL'', ''TZ'', ''PWD'', ''HOSPITUS_DATA_DIR'', ''HOSPITUS_STATE_DIR'', ''HOSPITUS_DB_PATH'']"

definition template_env :: "(string \<Rightarrow> string) \<Rightarrow> string \<Rightarrow> string" where
  "template_env getenv name = (if name \<in> set env_allowed then getenv name else [])"

text \<open>\<open>secret\<close>: \<open>get\<close> is the store's \<open>Get\<close>, absent when no store is configured.\<close>

definition template_secret ::
    "(string \<Rightarrow> string \<Rightarrow> 'w \<Rightarrow> string go_result \<times> 'w) option \<Rightarrow> string \<Rightarrow> string \<Rightarrow> 'w \<Rightarrow> string go_result \<times> 'w" where
  "template_secret get scope name w =
     (case get of
        None \<Rightarrow> (Inl (Errorf ''this manifest uses a secret (%q) but no secret store is configured'' [name]), w)
      | Some g \<Rightarrow> if scope = [] then (Inl (Errorf ''secret scope required but not provided'' []), w) else g scope name w)"

definition charset :: string where
  "charset = ''abcdefghijklmnopqrstuvwxyzABCDEFGHIJKLMNOPQRSTUVWXYZ0123456789''"

definition sample_limit :: nat where
  "sample_limit = 256 - 256 mod length charset"

text \<open>
  The loop over the blocks the random source returns: the rest of a block is dropped once the result is full. When the
  blocks given run out the result is not yet known.
\<close>

fun fill_block :: "nat \<Rightarrow> string \<Rightarrow> string \<Rightarrow> string" where
  "fill_block n [] acc = acc"
| "fill_block n (v # vs) acc =
     (if length acc \<ge> n then acc
      else if byte v \<ge> sample_limit then fill_block n vs acc
      else fill_block n vs (acc @ [charset ! (byte v mod length charset)]))"

fun fill_alnum :: "nat \<Rightarrow> string go_result list \<Rightarrow> string \<Rightarrow> string go_result option" where
  "fill_alnum n blocks acc =
     (if length acc \<ge> n then Some (Inr acc)
      else case blocks of
        [] \<Rightarrow> None
      | Inl e # _ \<Rightarrow> Some (Inl (Wrapf ''failed to read random bytes: %w'' [] e))
      | Inr b # bs \<Rightarrow> fill_alnum n bs (fill_block n b acc))"

declare fill_alnum.simps [simp del]

definition randAlnum :: "int \<Rightarrow> string go_result list \<Rightarrow> string go_result option" where
  "randAlnum n blocks =
     (if n \<le> 0 \<or> n > 256 then Some (Inl (Errorf ''random length must be between 1 and 256, got %d'' [itoa n]))
      else fill_alnum (nat n) blocks [])"

definition randHex :: "int \<Rightarrow> string go_result \<Rightarrow> string go_result" where
  "randHex n block =
     (if n \<le> 0 \<or> n > 256 then Inl (Errorf ''random length must be between 1 and 256, got %d'' [itoa n])
      else case block of
        Inl e \<Rightarrow> Inl (Wrapf ''failed to read random bytes: %w'' [] e)
      | Inr b \<Rightarrow> Inr (take (nat n) (hex_encode b)))"

section \<open>Markers survive rendering\<close>

lemma cut_sub_skip: "pat \<noteq> [] \<Longrightarrow> c \<noteq> hd pat \<Longrightarrow> cut_sub pat (c # s) = map_option (\<lambda>(a, b). (c # a, b)) (cut_sub pat s)"
  by (cases pat) auto

lemma cut_sub_here: "pat \<noteq> [] \<Longrightarrow> cut_sub pat (pat @ s) = Some ([], s)"
  by (cases pat) auto

lemma replace_all_here: "pat \<noteq> [] \<Longrightarrow> replace_all pat rp (pat @ s) = rp @ replace_all pat rp s"
  by (subst replace_all.simps) (simp add: cut_sub_here)

lemma replace_all_skip_char: "pat \<noteq> [] \<Longrightarrow> c \<noteq> hd pat \<Longrightarrow> replace_all pat rp (c # s) = c # replace_all pat rp s"
  by (subst (1 2) replace_all.simps) (auto simp del: cut_sub.simps simp: cut_sub_skip split: option.splits)

lemma replace_all_skip: "pat \<noteq> [] \<Longrightarrow> hd pat \<notin> set v \<Longrightarrow> replace_all pat rp (v @ s) = v @ replace_all pat rp s"
  by (induction v) (auto simp: replace_all_skip_char)

abbreviation unhide :: "string \<Rightarrow> string" where
  "unhide \<equiv> replace_all literal_no_value no_value"

lemma literal_head: "literal_no_value \<noteq> []" "hd literal_no_value = NUL"
  by (simp_all add: literal_no_value_def)

lemma no_value_ne: "no_value \<noteq> []" "NUL \<notin> set no_value" "CHR 0x0A \<notin> set no_value" "hd no_value \<notin> set (tl no_value)"
  by (simp_all add: no_value_def NUL_def)

lemma unhide_hide: "NUL \<notin> set x \<Longrightarrow> unhide (hide_text x @ s) = x @ unhide s"
proof (induction x rule: length_induct)
  case (1 x)
  show ?case
  proof (cases "cut_sub no_value x")
    case None
    then have "hide_text x = x" by (simp add: hide_text_def replace_all.simps [of no_value _ x])
    then show ?thesis using replace_all_skip [of literal_no_value x] literal_head "1.prems" by simp
  next
    case (Some ab)
    obtain a b where ab: "ab = (a, b)" by (cases ab)
    have x: "x = a @ no_value @ b" using cut_sub_Some [of no_value x a b] Some ab by simp
    have hide: "hide_text x = a @ literal_no_value @ hide_text b"
      using Some ab no_value_ne(1) by (simp add: hide_text_def replace_all.simps [of no_value _ x])
    have ab_nul: "NUL \<notin> set a" "NUL \<notin> set b" "length b < length x" using "1.prems" x no_value_ne(1) by auto
    have "unhide (a @ literal_no_value @ hide_text b @ s) = a @ no_value @ unhide (hide_text b @ s)"
      using replace_all_skip [of literal_no_value a] replace_all_here literal_head ab_nul(1) by simp
    then show ?thesis using hide x "1.IH" ab_nul(2,3) by simp
  qed
qed

text \<open>An occurrence of a pattern whose first character does not occur in it again.\<close>

lemma cut_sub_first:
  assumes "\<not> Contains a pat" "pat \<noteq> []" "hd pat \<notin> set (tl pat)"
  shows "cut_sub pat (a @ pat @ b) = Some (a, b)"
  using assms(1)
proof (induction a)
  case Nil
  then show ?case using cut_sub_here [OF assms(2)] by simp
next
  case (Cons c a)
  have "\<not> HasPrefix (c # a @ pat @ b) pat"
  proof
    assume "HasPrefix (c # a @ pat @ b) pat"
    then have "prefix pat ((c # a) @ (pat @ b))" by simp
    then consider "prefix pat (c # a)" | k where "pat = (c # a) @ k" "prefix k (pat @ b)" by (meson prefix_append)
    then show False
    proof cases
      case 1
      then show ?thesis using Cons.prems by (simp add: prefix_imp_sublist)
    next
      case (2 k)
      show ?thesis
      proof (cases k)
        case Nil
        then show ?thesis using 2 Cons.prems by simp
      next
        case (Cons d k')
        then have "d = hd pat" using 2(2) assms(2) by (cases pat) auto
        moreover have "d \<in> set (tl pat)" using 2(1) Cons by simp
        ultimately show ?thesis using assms(3) by simp
      qed
    qed
  qed
  moreover have "\<not> Contains a pat" using Cons.prems by (auto simp: sublist_Cons_right)
  ultimately show ?case using Cons.IH by simp
qed

lemma sublist_past_foreign:
  assumes "c \<notin> set pat" "sublist pat (u @ c # v)"
  shows "sublist pat u \<or> sublist pat v"
proof -
  obtain p q where e: "u @ c # v = p @ pat @ q" using assms(2) by (auto simp: sublist_def)
  then consider z where "u = p @ pat @ z" | z where "v = z @ pat @ q"
    using assms(1) by (auto simp: append_eq_append_conv2 append_eq_Cons_conv Cons_eq_append_conv)
  then show ?thesis by cases (auto simp: sublist_def)
qed

lemma cut_sub_before: "cut_sub pat s = Some (a, b) \<Longrightarrow> pat \<noteq> [] \<Longrightarrow> \<not> Contains a pat"
proof (induction s arbitrary: a)
  case (Cons c s)
  show ?case
  proof (cases "HasPrefix (c # s) pat")
    case True
    then show ?thesis using Cons.prems by simp
  next
    case False
    then obtain a' where a': "cut_sub pat s = Some (a', b)" "a = c # a'" using Cons.prems(1) by auto
    have "\<not> prefix pat (c # a')" using False cut_sub_Some [OF a'(1)] prefix_order.trans [of pat "c # a'" "c # s"] by auto
    then show ?thesis using Cons.IH [OF a'(1) Cons.prems(2)] a'(2) by (auto simp: sublist_Cons_right)
  qed
qed (simp split: if_splits)

lemma literal_split: "\<exists>l. literal_no_value = NUL # l @ [NUL] \<and> \<not> Contains l no_value"
  by (rule exI [of _ "''hospitus-literal-no-value''"]) (simp add: literal_no_value_def no_value_def sublist_code)

lemma hide_text_free: "NUL \<notin> set x \<Longrightarrow> \<not> Contains (hide_text x) no_value"
proof (induction x rule: length_induct)
  case (1 x)
  show ?case
  proof (cases "cut_sub no_value x")
    case None
    then show ?thesis using no_value_ne(1) cut_sub_None_iff [of no_value x]
      by (simp add: hide_text_def replace_all.simps [of no_value _ x])
  next
    case (Some ab)
    obtain a b where ab: "ab = (a, b)" by (cases ab)
    have x: "x = a @ no_value @ b" using cut_sub_Some [of no_value x a b] Some ab by simp
    have a_free: "\<not> Contains a no_value" using cut_sub_before Some ab no_value_ne(1) by blast
    have hide: "hide_text x = a @ literal_no_value @ hide_text b"
      using Some ab no_value_ne(1) by (simp add: hide_text_def replace_all.simps [of no_value _ x])
    have b: "\<not> Contains (hide_text b) no_value" using "1.IH" "1.prems" x no_value_ne(1) by simp
    obtain l where l: "literal_no_value = NUL # l @ [NUL]" "\<not> Contains l no_value" using literal_split by blast
    show ?thesis
    proof
      assume "Contains (hide_text x) no_value"
      then have "sublist no_value (a @ NUL # (l @ NUL # hide_text b))" by (simp only: hide l(1) append_Cons append_assoc append_Nil)
      then have "sublist no_value (l @ NUL # hide_text b)" using sublist_past_foreign [OF no_value_ne(2)] a_free by blast
      then show False using sublist_past_foreign [OF no_value_ne(2)] l(2) b by blast
    qed
  qed
qed

lemma newlines_hide: "filter (\<lambda>c. c = CHR 0x0A) (hide_text x) = filter (\<lambda>c. c = CHR 0x0A) x"
proof (induction x rule: length_induct)
  case (1 x)
  show ?case
  proof (cases "cut_sub no_value x")
    case None
    then show ?thesis by (simp add: hide_text_def replace_all.simps [of no_value _ x])
  next
    case (Some ab)
    obtain a b where ab: "ab = (a, b)" by (cases ab)
    have x: "x = a @ no_value @ b" using cut_sub_Some [of no_value x a b] Some ab by simp
    have "hide_text x = a @ literal_no_value @ hide_text b"
      using Some ab no_value_ne(1) by (simp add: hide_text_def replace_all.simps [of no_value _ x])
    moreover have "filter (\<lambda>c. c = CHR 0x0A) literal_no_value = []" "filter (\<lambda>c. c = CHR 0x0A) no_value = []"
      by (simp_all add: literal_no_value_def no_value_def NUL_def)
    moreover have "length b < length x" using x no_value_ne(1) by simp
    ultimately show ?thesis using x "1.IH" by simp
  qed
qed

text \<open>How a manifest with one action is prepared for the engine.\<close>

lemma hide_one_action:
  assumes "\<not> Contains x ''{{''" "\<not> HasPrefix act ''{''" "x = [] \<or> last x \<noteq> CHR ''{''" "\<not> Contains (act @ ''}'') ''}}''" "\<not> Contains y ''{{''"
  shows "hideLiteralMarkers (x @ ''{{'' @ act @ ''}}'' @ y) = hide_text x @ ''{{'' @ act @ ''}}'' @ hide_text y"
proof -
  have open_at: "cut_sub ''{{'' (x @ ''{{'' @ r) = Some (x, r)" if "\<not> Contains x ''{{''" "x = [] \<or> last x \<noteq> CHR ''{''" for r
    using that
  proof (induction x)
    case (Cons c x)
    have "\<not> HasPrefix (c # x @ ''{{'' @ r) ''{{''"
      using Cons.prems by (cases x) (auto simp: sublist_Cons_right)
    moreover have "\<not> Contains x ''{{''" "x = [] \<or> last x \<noteq> CHR ''{''" using Cons.prems by (auto simp: sublist_Cons_right split: if_splits)
    ultimately show ?case using Cons.IH by simp
  qed simp
  have close_at: "cut_sub ''}}'' (a @ ''}}'' @ r) = Some (a, r)" if "\<not> Contains (a @ ''}'') ''}}''" for a r
    using that
  proof (induction a)
    case (Cons c a)
    have "\<not> HasPrefix (c # a @ ''}}'' @ r) ''}}''"
      using Cons.prems by (cases a) (auto simp: sublist_Cons_right)
    moreover have "\<not> Contains (a @ ''}'') ''}}''" using Cons.prems by (auto simp: sublist_Cons_right)
    ultimately show ?case using Cons.IH by simp
  qed simp
  have "hideLiteralMarkers y = hide_text y"
    using assms(5) cut_sub_None_iff [of "''{{''" y] by (subst hideLiteralMarkers.simps) simp
  then show ?thesis
    using open_at [OF assms(1,3), of "act @ ''}}'' @ y"] close_at [OF assms(4), of y] by (subst hideLiteralMarkers.simps) simp
qed

text \<open>A manifest with one action, whose engine copies the text around the action and writes \<open>v\<close> for it: when \<open>v\<close> is the
  engine's mark of a missing variable the result is an error that names the line of the action, whatever
  literal markers the manifest holds; otherwise, unless the text formed around \<open>v\<close> reads as the mark, the result is the
  manifest with \<open>v\<close> in place of the action, its own literal markers unchanged.\<close>

theorem render_literal_markers:
  assumes "\<not> Contains x ''{{''" "\<not> HasPrefix act ''{''" "x = [] \<or> last x \<noteq> CHR ''{''" "\<not> Contains (act @ ''}'') ''}}''" "\<not> Contains y ''{{''"
    "NUL \<notin> set (x @ v @ y)"
    "en_Parse en (hide_text x @ ''{{'' @ act @ ''}}'' @ hide_text y) = Inr tmpl"
    "en_Exec en tmpl w = (Inr (hide_text x @ v @ hide_text y), w')"
  shows "(v = no_value \<longrightarrow> RenderTemplate en (x @ ''{{'' @ act @ ''}}'' @ y) w =
      (Inl (Errorf ''manifest line %d uses a variable that was not provided'' [itoa (int (line_number x))]), w')) \<and>
    (\<not> Contains (hide_text x @ v @ hide_text y) no_value \<longrightarrow>
      RenderTemplate en (x @ ''{{'' @ act @ ''}}'' @ y) w = (Inr (x @ v @ y), w'))"
proof (intro conjI impI)
  note hide = hide_one_action [OF assms(1-5)]
  assume v: "v = no_value"
  have "cut_sub no_value (hide_text x @ no_value @ hide_text y) = Some (hide_text x, hide_text y)"
    using hide_text_free [of x] assms(6) no_value_ne by (intro cut_sub_first) auto
  moreover have "line_number (hide_text x) = line_number x" by (simp add: line_number_def newlines_hide)
  ultimately show "RenderTemplate en (x @ ''{{'' @ act @ ''}}'' @ y) w =
      (Inl (Errorf ''manifest line %d uses a variable that was not provided'' [itoa (int (line_number x))]), w')"
    using assms(7,8) v by (simp only: RenderTemplate_def hide) simp
next
  note hide = hide_one_action [OF assms(1-5)]
  assume "\<not> Contains (hide_text x @ v @ hide_text y) no_value"
  then have "cut_sub no_value (hide_text x @ v @ hide_text y) = None" by (simp add: cut_sub_None_iff)
  moreover have "unhide (hide_text x @ v @ hide_text y) = x @ v @ y"
  proof -
    have "unhide (hide_text y @ []) = y @ unhide []" using assms(6) by (intro unhide_hide) simp
    moreover have "unhide [] = []" by (simp add: replace_all.simps literal_no_value_def)
    ultimately have "unhide (hide_text y) = y" by simp
    moreover have "unhide (hide_text x @ v @ hide_text y) = x @ unhide (v @ hide_text y)"
      using assms(6) by (intro unhide_hide) simp
    moreover have "unhide (v @ hide_text y) = v @ unhide (hide_text y)"
      using assms(6) literal_head by (intro replace_all_skip) auto
    ultimately show ?thesis by simp
  qed
  ultimately show "RenderTemplate en (x @ ''{{'' @ act @ ''}}'' @ y) w = (Inr (x @ v @ y), w')"
    using assms(7,8) by (simp only: RenderTemplate_def hide) simp
qed

theorem render_literal_markers_witness:
  "RenderTemplate \<lparr>en_Parse = Inr, en_Exec = \<lambda>_ w. (Inr (hide_text [CHR 0x0A] @ no_value @ hide_text ''<no value>''), w)\<rparr>
     ([CHR 0x0A] @ ''{{'' @ ''.v'' @ ''}}'' @ ''<no value>'') () =
     (Inl (Errorf ''manifest line %d uses a variable that was not provided'' [itoa (int (line_number [CHR 0x0A]))]), ())"
  using render_literal_markers [of "[CHR 0x0A]" "''.v''" "''<no value>''" no_value
      "\<lparr>en_Parse = Inr, en_Exec = \<lambda>_ w. (Inr (hide_text [CHR 0x0A] @ no_value @ hide_text ''<no value>''), w)\<rparr>"
      "hide_text [CHR 0x0A] @ ''{{'' @ ''.v'' @ ''}}'' @ hide_text ''<no value>''" "()" "()"]
  by (simp add: sublist_code NUL_def no_value_def)

section \<open>Random strings\<close>

text \<open>The reference: the characters of the accepted bytes, in order.\<close>

definition accepted :: "string \<Rightarrow> string" where
  "accepted bs = map (\<lambda>v. charset ! (byte v mod length charset)) (filter (\<lambda>v. byte v < sample_limit) bs)"

lemma accepted_simps [simp]:
  "accepted [] = []"
  "accepted (v # vs) = (if byte v < sample_limit then [charset ! (byte v mod length charset)] else []) @ accepted vs"
  "accepted (xs @ ys) = accepted xs @ accepted ys"
  by (simp_all add: accepted_def)

lemma fill_block_accepted: "length acc \<le> n \<Longrightarrow> fill_block n b acc = take n (acc @ accepted b)"
  by (induction n b acc rule: fill_block.induct) (auto simp: take_Cons' not_le)

lemma fill_alnum_accepted:
  "length acc \<le> n \<Longrightarrow> fill_alnum n (map Inr blocks) acc =
     (let s = acc @ accepted (concat blocks) in if length s \<ge> n then Some (Inr (take n s)) else None)"
proof (induction blocks arbitrary: acc)
  case Nil
  then show ?case by (auto simp: fill_alnum.simps)
next
  case (Cons b blocks)
  show ?case
  proof (cases "length acc = n")
    case True
    then show ?thesis by (simp add: fill_alnum.simps [of n _ acc])
  next
    case False
    then have "fill_alnum n (map Inr (b # blocks)) acc = fill_alnum n (map Inr blocks) (take n (acc @ accepted b))"
      using Cons.prems by (simp add: fill_alnum.simps [of n _ acc] fill_block_accepted)
    also have "\<dots> = (let s = take n (acc @ accepted b) @ accepted (concat blocks) in if length s \<ge> n then Some (Inr (take n s)) else None)"
      by (rule Cons.IH) simp
    also have "\<dots> = (let s = acc @ accepted (concat (b # blocks)) in if length s \<ge> n then Some (Inr (take n s)) else None)"
      by (cases "length (acc @ accepted b) \<ge> n") (auto simp: Let_def min_def)
    finally show ?thesis .
  qed
qed

lemma charset_facts: "length charset = 62" "distinct charset" "sample_limit = 248"
  by (simp_all add: charset_def sample_limit_def)

lemma preimages: "i < 62 \<Longrightarrow> {b. b < (248::nat) \<and> b mod 62 = i} = {i, i + 62, i + 124, i + 186}"
proof -
  assume i: "i < 62"
  have "b = i \<or> b = i + 62 \<or> b = i + 124 \<or> b = i + 186" if "b < 248" "b mod 62 = i" for b
  proof -
    have "b div 62 < 4" using that(1) by simp
    moreover have "k \<in> {0, 1, 2, 3}" if "k < (4::nat)" for k using that by auto
    ultimately have "b div 62 \<in> {0, 1, 2, 3}" by blast
    moreover have "b = 62 * (b div 62) + i" using that(2) by (metis mult_div_mod_eq)
    ultimately show ?thesis by auto
  qed
  moreover have "(i + 62 * k) mod 62 = i" for k using i by simp
  from this [of 0] this [of 1] this [of 2] this [of 3]
  have "i mod 62 = i" "(i + 62) mod 62 = i" "(i + 124) mod 62 = i" "(i + 186) mod 62 = i" by simp_all
  ultimately show ?thesis using i by fastforce
qed

text \<open>\<open>randAlnum\<close> for a length in range, over the blocks the random source gives: the first \<open>n\<close> of the characters of the
  accepted bytes, or no result yet when there are too few; and each character of the alphabet stands for exactly four of the
  accepted byte values, so that equally likely bytes give equally likely characters.\<close>

theorem randAlnum_unbiased:
  assumes "0 < n" "n \<le> 256"
  shows "randAlnum n (map Inr blocks) =
      (let s = accepted (concat blocks) in if length s \<ge> nat n then Some (Inr (take (nat n) s)) else None) \<and>
    (c \<in> set charset \<longrightarrow> card {b. b < sample_limit \<and> charset ! (b mod length charset) = c} = 4)"
proof (intro conjI impI)
  show "randAlnum n (map Inr blocks) =
      (let s = accepted (concat blocks) in if length s \<ge> nat n then Some (Inr (take (nat n) s)) else None)"
    using assms fill_alnum_accepted [of "[]"] by (simp add: randAlnum_def)
next
  assume "c \<in> set charset"
  then obtain i where i: "i < 62" "c = charset ! i" by (metis in_set_conv_nth charset_facts(1))
  have "charset ! (b mod 62) = charset ! i \<longleftrightarrow> b mod 62 = i" for b
    using i(1) charset_facts by (simp add: nth_eq_iff_index_eq)
  then have "{b. b < sample_limit \<and> charset ! (b mod length charset) = c} = {b. b < 248 \<and> b mod 62 = i}"
    using i(2) charset_facts by simp
  then show "card {b. b < sample_limit \<and> charset ! (b mod length charset) = c} = 4"
    using preimages [OF i(1)] by simp
qed

theorem randAlnum_unbiased_witness:
  "randAlnum 2 (map Inr [[CHR ''a'', CHR 0xFF], [CHR ''>'', CHR 0x01]]) = Some (Inr ''Ja'') \<and>
    card {b. b < sample_limit \<and> charset ! (b mod length charset) = CHR ''9''} = 4"
  using randAlnum_unbiased [of 2 "[[CHR ''a'', CHR 0xFF], [CHR ''>'', CHR 0x01]]" "CHR ''9''"]
  by (simp add: charset_def sample_limit_def accepted_def byte_def)

end
