(* ===== verification/Manifest_Parser.thy ===== *)
theory Manifest_Parser
  imports Manifest Template
begin

text \<open>
  \<open>pkg/manifest/parser.go\<close>: which kind of manifest a document is, the scope its secrets are read in, and parsing. The document
  is scanned as text before it is rendered. The TOML decoder and the template engine are parameters of the parser's
  environment; the decoder returns, beside the document, the keys it could not place.
\<close>

section \<open>Blanking multiline strings\<close>

abbreviation newline :: char where
  "newline \<equiv> CHR 0x0A"

definition newlines :: "string \<Rightarrow> string" where
  "newlines s = filter (\<lambda>c. c = newline) s"

definition quote_chars :: string where
  "quote_chars = [CHR 0x22, CHR 0x27]"

text \<open>A string on one line, from after its opening quote: the text copied and the rest.\<close>

fun quoted :: "char \<Rightarrow> string \<Rightarrow> string \<times> string" where
  "quoted q [] = ([], [])"
| "quoted q (c # s) =
     (if c = q then ([c], s)
      else if c = newline then ([], c # s)
      else if q = CHR 0x22 \<and> c = CHR 0x5C \<and> s \<noteq> [] then map_prod (\<lambda>t. c # hd s # t) id (quoted q (tl s))
      else map_prod (\<lambda>t. c # t) id (quoted q s))"

lemma quoted_split: "quoted q s = (t, r) \<Longrightarrow> s = t @ r"
proof (induction q s arbitrary: t rule: quoted.induct)
  case (2 q c s)
  consider "c = q" | "c \<noteq> q" "c = newline" | "c \<noteq> q" "c \<noteq> newline" "q = CHR 0x22 \<and> c = CHR 0x5C \<and> s \<noteq> []"
    | "c \<noteq> q" "c \<noteq> newline" "\<not> (q = CHR 0x22 \<and> c = CHR 0x5C \<and> s \<noteq> [])" by blast
  then show ?case
  proof cases
    case 3
    obtain t' where "quoted q (tl s) = (t', r)" "t = c # hd s # t'" using 3 "2.prems" by (cases "quoted q (tl s)") auto
    then show ?thesis using "2.IH"(1) 3 by (metis append_Cons hd_Cons_tl)
  next
    case 4
    obtain t' where "quoted q s = (t', r)" "t = c # t'" using 4 "2.prems" by (cases "quoted q s") auto
    then show ?thesis using "2.IH"(2) 4 by simp
  qed (use "2.prems" in auto)
qed simp

function blankMultilineStrings :: "string \<Rightarrow> string" where
  "blankMultilineStrings [] = []"
| "blankMultilineStrings (c # s) =
     (if c = CHR ''#'' then
        c # takeWhile (\<lambda>x. x \<noteq> newline) s @ blankMultilineStrings (dropWhile (\<lambda>x. x \<noteq> newline) s)
      else if c \<in> set quote_chars \<and> HasPrefix s [c, c] then
        (case cut_sub [c, c, c] (drop 2 s) of
           None \<Rightarrow> [c, c, c] @ newlines (drop 2 s)
         | Some (body, rest) \<Rightarrow> [c, c, c] @ newlines body @ [c, c, c] @ blankMultilineStrings rest)
      else if c \<in> set quote_chars then
        (case quoted c s of (t, rest) \<Rightarrow> c # t @ blankMultilineStrings rest)
      else c # blankMultilineStrings s)"
  by pat_completeness auto
termination
proof (relation "measure length", goal_cases)
  case (2 c s)
  then show ?case by (simp add: le_imp_less_Suc length_dropWhile_le)
next
  case (3 c s ab a b)
  then have "cut_sub [c, c, c] (drop 2 s) = Some (a, b)" by simp
  from cut_sub_shorter [OF this] show ?case by simp
next
  case (4 c s a b)
  then show ?case using quoted_split [of c s a b] by auto
qed auto

declare blankMultilineStrings.simps [simp del]

section \<open>The section of a manifest\<close>

datatype manifest_kind = KWorkload | KStack

fun section_name :: "manifest_kind \<Rightarrow> string" where
  "section_name KWorkload = ''workload''"
| "section_name KStack = ''stack''"

definition drop_blanks :: "string \<Rightarrow> string" where
  "drop_blanks s = dropWhile (\<lambda>c. c \<in> {CHR '' '', CHR 0x09}) s"

text \<open>
  A line that is the header of the section: \<open>workloadSectionPattern\<close> and \<open>stackSectionPattern\<close>. The comment of a header
  runs to the end of the line, so that after the blanks there is nothing, a carriage return, or a comment.
\<close>

definition is_header :: "manifest_kind \<Rightarrow> string \<Rightarrow> bool" where
  "is_header k l \<longleftrightarrow>
     (let h = ''['' @ section_name k @ '']'';
          r = drop_blanks l;
          t = drop_blanks (drop (length h) r)
      in HasPrefix r h \<and> (t = [] \<or> t = [CHR 0x0D] \<or> hd t = CHR ''#''))"

definition doc_lines :: "string \<Rightarrow> string list" where
  "doc_lines s = split_on newline s"

definition detectManifestType :: "string \<Rightarrow> manifest_kind go_result" where
  "detectManifestType data =
     (let ls = doc_lines (blankMultilineStrings data);
          hasWorkload = list_ex (is_header KWorkload) ls;
          hasStack = list_ex (is_header KStack) ls
      in if hasWorkload \<and> hasStack then Inl (Errorf ''manifest cannot contain both [workload] and [stack] sections'' [])
         else if hasWorkload then Inr KWorkload
         else if hasStack then Inr KStack
         else Inl (Errorf ''manifest must contain either [workload] or [stack] section'' []))"

text \<open>
  \<open>workloadNamePattern\<close> and \<open>stackNamePattern\<close>: a header, lines that open no table, and the first line that gives a name. The
  value of a name ends at the next quote, on whatever line.
\<close>

definition name_value :: "string \<Rightarrow> string option" where
  "name_value s =
     (case s of
        q # r \<Rightarrow> if q \<in> set quote_chars then map_option fst (cut_at q r) else None
      | [] \<Rightarrow> None)"

definition name_at :: "string \<Rightarrow> string option" where
  "name_at s =
     (let r = drop_blanks s in
      if HasPrefix r ''name'' then
        (case drop_blanks (drop 4 r) of
           c # t \<Rightarrow> if c = CHR ''='' then name_value (drop_blanks t) else None
         | [] \<Rightarrow> None)
      else None)"

definition opens_no_table :: "string \<Rightarrow> bool" where
  "opens_no_table l =
     (case dropWhile (\<lambda>c. c \<in> {CHR '' '', CHR 0x09, CHR 0x0D}) l of
        [] \<Rightarrow> True
      | c # _ \<Rightarrow> c \<noteq> CHR ''['' \<and> c \<noteq> CHR 0x0C)"

fun name_in_section :: "string list \<Rightarrow> string option" where
  "name_in_section [] = None"
| "name_in_section (l # ls) =
     (case name_at (join_with newline (l # ls)) of
        Some n \<Rightarrow> Some n
      | None \<Rightarrow> if opens_no_table l then name_in_section ls else None)"

fun find_name :: "manifest_kind \<Rightarrow> string list \<Rightarrow> string option" where
  "find_name k [] = None"
| "find_name k (l # ls) =
     (if is_header k l then
        (case name_in_section ls of Some n \<Rightarrow> Some n | None \<Rightarrow> find_name k ls)
      else find_name k ls)"

definition detectName :: "string \<Rightarrow> manifest_kind \<Rightarrow> string" where
  "detectName data k =
     (case find_name k (doc_lines (blankMultilineStrings data)) of
        Some n \<Rightarrow> if n = [] then ''default'' else n
      | None \<Rightarrow> ''default'')"

section \<open>Parsing\<close>

text \<open>
  The environment of a parser, for the variables of one call: the engine with the parser's own secret store
  and with a store that keeps nothing, each for the scope of its secrets, and the decoder. A store that keeps nothing
  changes no state.
\<close>

record ('t, 'w) parse_env =
  pe_Engine :: "string \<Rightarrow> ('t, 'w) engine"
  pe_Noop :: "string \<Rightarrow> ('t, unit) engine"
  pe_DecodeWorkload :: "string \<Rightarrow> (workload_manifest \<times> string list) go_result"
  pe_DecodeStack :: "string \<Rightarrow> (stack_doc \<times> string list) go_result"

definition rejectUnknownKeys :: "string list \<Rightarrow> go_error option" where
  "rejectUnknownKeys undecoded =
     (if undecoded = [] then None
      else case sort undecoded of
        [k] \<Rightarrow> Some (Errorf ''unknown field %q'' [k])
      | keys \<Rightarrow> Some (Errorf ''unknown fields: %s'' [join_strings '', '' keys]))"

definition parseWorkload :: "('t, 'w) parse_env \<Rightarrow> string \<Rightarrow> workload_manifest go_result" where
  "parseWorkload env data =
     (case pe_DecodeWorkload env data of
        Inl e \<Rightarrow> Inl (Wrapf ''failed to parse workload manifest: %w'' [] e)
      | Inr (m, undecoded) \<Rightarrow>
          (case rejectUnknownKeys undecoded of
             Some e \<Rightarrow> Inl e
           | None \<Rightarrow> Inr (applyWorkloadDefaults m)))"

definition parseStack :: "('t, 'w) parse_env \<Rightarrow> string \<Rightarrow> stack_doc go_result" where
  "parseStack env data =
     (case pe_DecodeStack env data of
        Inl e \<Rightarrow> Inl (Wrapf ''failed to parse stack manifest: %w'' [] e)
      | Inr (m, undecoded) \<Rightarrow>
          (case rejectUnknownKeys undecoded of
             Some e \<Rightarrow> Inl e
           | None \<Rightarrow> Inr (m\<lparr>sd_Instances := map applyInstanceDefaults (sd_Instances m)\<rparr>)))"

definition resolve_scope :: "('t, 'w) parse_env \<Rightarrow> string \<Rightarrow> manifest_kind \<Rightarrow> string \<Rightarrow> string go_result" where
  "resolve_scope env data k fixedScope =
     (if fixedScope \<noteq> [] then Inr fixedScope
      else let scope = detectName data k in
        if Contains scope ''{{'' then
          (case fst (RenderTemplate (pe_Noop env scope) data ()) of
             Inl e \<Rightarrow> Inl (Wrapf ''failed to resolve manifest name: %w'' [] e)
           | Inr preview \<Rightarrow> Inr (let resolved = detectName preview k in if resolved \<noteq> [] then resolved else scope))
        else Inr scope)"

definition parse ::
    "('t, 'w) parse_env \<Rightarrow> string \<Rightarrow> string \<Rightarrow> 'w \<Rightarrow> parsed_manifest go_result \<times> 'w" where
  "parse env data fixedScope w =
     (case detectManifestType data of
        Inl e \<Rightarrow> (Inl e, w)
      | Inr k \<Rightarrow>
          (case resolve_scope env data k fixedScope of
             Inl e \<Rightarrow> (Inl e, w)
           | Inr scope \<Rightarrow>
               (case RenderTemplate (pe_Engine env scope) data w of
                  (Inl e, w') \<Rightarrow> (Inl (Wrapf ''failed to render manifest: %w'' [] e), w')
                | (Inr rendered, w') \<Rightarrow>
                    (case k of
                       KWorkload \<Rightarrow> (bind_res (parseWorkload env rendered) (\<lambda>m. Inr (ParsedWorkload m)), w')
                     | KStack \<Rightarrow> (bind_res (parseStack env rendered) (\<lambda>m. Inr (ParsedStack m)), w')))))"

definition ParserParse ::
    "('t, 'w) parse_env \<Rightarrow> string \<Rightarrow> 'w \<Rightarrow> parsed_manifest go_result \<times> 'w" where
  "ParserParse env data w = parse env data [] w"

definition ParseInScope ::
    "('t, 'w) parse_env \<Rightarrow> string \<Rightarrow> string \<Rightarrow> 'w \<Rightarrow> parsed_manifest go_result \<times> 'w" where
  "ParseInScope env data scope w =
     (if scope = [] then (Inl (Errorf ''a fixed secret scope cannot be empty'' []), w) else parse env data scope w)"

end
