(* ===== verification/Manifest_Thms.thy ===== *)
theory Manifest_Thms
  imports Manifest
begin

text \<open>
  Sizes of a manifest: a whole number of units below \<open>2\<^sup>5\<^sup>3\<close> bytes is read exactly, in spite of the computation in \<open>float64\<close>,
  and the defaults: what they fill in, and that a second pass changes nothing.
\<close>

section \<open>Sizes\<close>

lemma bit_length_bounds: "n > 0 \<Longrightarrow> 2 ^ (bit_length n - 1) \<le> n \<and> n < 2 ^ bit_length n \<and> bit_length n > 0"
proof (induction n rule: bit_length.induct)
  case (1 n)
  show ?case
  proof (cases "n = 1")
    case True
    then show ?thesis by (simp add: bit_length.simps)
  next
    case False
    then have pos: "n div 2 > 0" using "1.prems" by simp
    define k where "k = bit_length (n div 2)"
    have k: "2 ^ (k - 1) \<le> n div 2" "n div 2 < 2 ^ k" "k > 0" "bit_length n = Suc k"
      using "1.IH" [OF _ pos] "1.prems" bit_length.simps [of n] unfolding k_def by auto
    have "(2::int) ^ k = 2 * 2 ^ (k - 1)" using k(3) by (cases k) simp_all
    then have "2 ^ k \<le> n" using k(1) by linarith
    moreover have "n < 2 * 2 ^ k" using k(2) by linarith
    ultimately show ?thesis using k(4) by simp
  qed
qed

lemma bit_length_le: "0 \<le> n \<Longrightarrow> n < 2 ^ k \<Longrightarrow> bit_length n \<le> k"
proof (rule ccontr)
  assume n: "0 \<le> n" "n < 2 ^ k" and "\<not> bit_length n \<le> k"
  then have k: "k \<le> bit_length n - 1" "n > 0" by (cases "n = 0"; simp add: bit_length.simps)+
  then have "(2::int) ^ k \<le> 2 ^ (bit_length n - 1)" by simp
  then show False using bit_length_bounds [OF k(2)] n(2) by linarith
qed

lemma round_div_even_exact: "b > 0 \<Longrightarrow> round_div_even (q * b) b = q"
  by (simp add: round_div_even_def)

lemma f64_round_exact:
  assumes "0 \<le> n" "n < 2 ^ 53"
  shows "f64_round (n * f64_scale) 1 = n * f64_scale"
proof -
  have "n * f64_scale < 2 ^ 53 * 2 ^ 1074" unfolding f64_scale_def using assms(2) by (rule mult_strict_right_mono) simp
  then have "n * f64_scale < 2 ^ (53 + 1074)" by (simp only: power_add)
  then have k: "bit_length (n * f64_scale) - 53 \<le> 1074"
    using bit_length_le [of "n * f64_scale" "53 + 1074"] assms(1) by (simp add: f64_scale_def)
  define k where "k = bit_length (n * f64_scale) - 53"
  have "(2::int) ^ 1074 = 2 ^ (1074 - k) * 2 ^ k" using k by (simp only: k_def flip: power_add) simp
  then have "n * f64_scale = (n * 2 ^ (1074 - k)) * 2 ^ k" by (simp only: f64_scale_def mult.assoc)
  then have "round_div_even (n * f64_scale) (2 ^ k) * 2 ^ k = n * f64_scale"
    using round_div_even_exact [of "2 ^ k" "n * 2 ^ (1074 - k)"] by (simp only: zero_less_power zero_less_numeral)
  then show ?thesis by (simp add: f64_round_def k_def Let_def)
qed

lemma f64_finite_small: "n < 2 ^ 63 \<Longrightarrow> \<not> f64_infinite (n * f64_scale)"
proof -
  assume n: "n < 2 ^ 63"
  have "(2::int) ^ 63 \<le> 2 ^ 1024" by (rule power_increasing) simp_all
  then have "n < 2 ^ 1024" using n by linarith
  moreover have "f64_scale > 0" by (simp add: f64_scale_def)
  ultimately show ?thesis by (simp only: f64_infinite_def not_le mult_less_cancel_right_pos)
qed

lemma f64_to_int64_exact: "n < 2 ^ 63 \<Longrightarrow> f64_to_int64 oor (n * f64_scale) = n"
proof -
  assume "n < 2 ^ 63"
  moreover have "n * f64_scale div f64_scale = n" by (rule nonzero_mult_div_cancel_right) (simp add: f64_scale_def)
  ultimately show ?thesis by (simp only: f64_to_int64_def Let_def if_True)
qed

lemma strip_none: "hd s \<notin> set (map hd ws) \<Longrightarrow> [] \<notin> set ws \<Longrightarrow> s \<noteq> [] \<Longrightarrow> strip_all ws s = s"
proof -
  assume hd: "hd s \<notin> set (map hd ws)" "[] \<notin> set ws" "s \<noteq> []"
  have "\<not> prefix w s" if "w \<in> set ws" for w
    using hd that by (cases w; cases s) force+
  then have "strip_one ws s = None" by (simp add: strip_one_def find_None_iff)
  then show ?thesis by (simp add: strip_all.simps [of ws s])
qed

lemma unicode_white_chars:
  "[] \<notin> set unicode_white" "[] \<notin> set (map rev unicode_white)"
  "set (map hd unicode_white) = set white \<union> {CHR 0xC2, CHR 0xE1, CHR 0xE2, CHR 0xE3}"
  "c \<in> set (map (hd \<circ> rev) unicode_white) \<Longrightarrow> c \<in> set white \<or> byte c \<ge> 128"
  by (auto simp: unicode_white_def byte_def)

lemma TrimSpace_ascii:
  assumes "s \<noteq> []" "hd s \<notin> set white" "last s \<notin> set white" "\<forall>c \<in> set s. byte c < 128"
  shows "TrimSpace s = s"
proof -
  have "byte (hd s) < 128" "byte (last s) < 128" using assms(1,4) by auto
  moreover from this(1) have "hd s \<notin> {CHR 0xC2, CHR 0xE1, CHR 0xE2, CHR 0xE3}" by (auto simp: byte_def)
  ultimately have heads: "hd s \<notin> set (map hd unicode_white)" "hd (rev s) \<notin> set (map hd (map rev unicode_white))"
    unfolding unicode_white_chars(3) map_map hd_rev using assms(2,3) unicode_white_chars(4) [of "last s"] by (blast, linarith)
  have "strip_all unicode_white s = s" by (rule strip_none [OF heads(1) unicode_white_chars(1) assms(1)])
  moreover have "strip_all (map rev unicode_white) (rev s) = rev s"
    by (rule strip_none [OF heads(2) unicode_white_chars(2)]) (use assms(1) in simp)
  ultimately show ?thesis by (simp add: TrimSpace_def)
qed

lemma digit_ascii: "is_digit c \<Longrightarrow> byte c < 128 \<and> c \<notin> set white"
  by (auto simp: is_digit_def in_range_def byte_def white_def)

definition size_units :: "string list" where
  "size_units = ['''', ''K'', ''Ki'', ''M'', ''Mi'', ''G'', ''Gi'', ''T'', ''Ti'']"

lemma match_size_whole:
  assumes "u \<in> set size_units"
  shows "match_size (itoa_nat n @ u) = Some (itoa_nat n, [], u)"
proof -
  have u: "u = [] \<or> \<not> is_digit (hd u)" using assms by (auto simp: size_units_def is_digit_def in_range_def byte_def)
  have "takeWhile is_digit (itoa_nat n @ u) = itoa_nat n" "dropWhile is_digit (itoa_nat n @ u) = u"
    using itoa_nat_digits [of n] u
    by (cases u; simp add: list_all_iff takeWhile_append2 dropWhile_append2)+
  then show ?thesis using assms
    by (auto simp: match_size_def split_fraction_def split_unit_def re_space_def size_units_def)
qed

lemma size_text:
  assumes "u \<in> set size_units"
  shows "TrimSpace (itoa_nat n @ u) = itoa_nat n @ u"
proof (rule TrimSpace_ascii)
  have d: "\<forall>c \<in> set (itoa_nat n). byte c < 128 \<and> c \<notin> set white"
    using itoa_nat_digits [of n] digit_ascii by (auto simp: list_all_iff)
  have u: "\<forall>c \<in> set u. byte c < 128 \<and> c \<notin> set white" using assms by (auto simp: size_units_def byte_def white_def)
  show "hd (itoa_nat n @ u) \<notin> set white" using d by (simp add: hd_append)
  show "last (itoa_nat n @ u) \<notin> set white" using d u by (cases "u = []") auto
  show "\<forall>c \<in> set (itoa_nat n @ u). byte c < 128" using d u by auto
qed simp

lemma size_exact:
  assumes "u \<in> set size_units" "unit_multiplier (to_upper u) = Some m" "int n * m < 2 ^ 53"
  shows "ParseMemorySize oor (itoa_nat n @ u) = Inr (int n * m) \<and>
    ParseMemoryToMB oor (itoa_nat n @ u) = Inr (int n * m div 2 ^ 20)"
proof -
  have m: "m \<ge> 1" using assms(2) by (auto simp: unit_multiplier_def split: if_splits)
  have nm: "int n \<le> int n * m" using m by (simp add: mult_le_cancel_left1)
  have n53: "int n < 2 ^ 53" using nm assms(3) by (rule le_less_trans)
  have "f64_round (int n * f64_scale) 1 = int n * f64_scale" using n53 by (intro f64_round_exact) simp_all
  moreover have "f64_round (int n * f64_scale * m) 1 = int n * m * f64_scale"
    using f64_round_exact [of "int n * m"] assms(3) m by (simp only: ac_simps) simp
  moreover have "\<not> f64_infinite (int n * f64_scale)" "f64_to_int64 oor (int n * m * f64_scale) = int n * m"
    using n53 assms(3) by (intro f64_finite_small f64_to_int64_exact, simp)+
  ultimately have parse: "ParseMemorySize oor (itoa_nat n @ u) = Inr (int n * m)"
    using assms(2) size_text [OF assms(1), of n] match_size_whole [OF assms(1), of n] by (simp add: ParseMemorySize_def)
  moreover have "\<not> int n * m < 0" using nm by linarith
  ultimately show ?thesis by (simp add: ParseMemoryToMB_def go_div_def)
qed

text \<open>
  A whole number of units below \<open>2\<^sup>5\<^sup>3\<close> bytes is read without rounding, whatever the unit, and in megabytes as the whole
  number of them it contains.\<close>

theorem ParseMemorySize_exact:
  assumes "u \<in> set size_units" "unit_multiplier (to_upper u) = Some m" "int n * m < 2 ^ 53"
  shows "ParseMemorySize oor (itoa_nat n @ u) = Inr (int n * m) \<and>
    ParseMemoryToMB oor (itoa_nat n @ u) = Inr (int n * m div 2 ^ 20)"
  using size_exact [OF assms] .

theorem ParseMemorySize_exact_witness: "ParseMemoryToMB 0 (itoa_nat 4 @ ''Gi'') = Inr 4096"
proof -
  have "unit_multiplier (to_upper ''Gi'') = Some (2 ^ 30)" by code_simp
  then show ?thesis using ParseMemorySize_exact [of "''Gi''" "2 ^ 30" 4 0] by (simp add: size_units_def)
qed

section \<open>Defaults\<close>

text \<open>The fields that a parsed manifest never leaves empty.\<close>

definition network_typed :: "m_network \<Rightarrow> bool" where
  "network_typed n \<longleftrightarrow> mn_Type n \<noteq> [] \<and> pred_option (\<lambda>i. ip_Mode i \<noteq> []) (mn_IP n) \<and> list_all (\<lambda>p. pc_Protocol p \<noteq> []) (mn_Ports n)"

definition cloud_init_typed :: "string \<Rightarrow> cloud_init_spec \<Rightarrow> bool" where
  "cloud_init_typed name c \<longleftrightarrow>
     (cis_Hostname c = [] \<longrightarrow> name = []) \<and> (cis_Enabled c = None \<longrightarrow> cloudInitSectionEmpty c)"

definition workload_typed :: "workload_manifest \<Rightarrow> bool" where
  "workload_typed m \<longleftrightarrow>
     wm_APIVersion m \<noteq> [] \<and> img_Arch (wm_Image m) \<noteq> [] \<and> res_CPU (wm_Resources m) \<noteq> 0 \<and> res_Memory (wm_Resources m) \<noteq> [] \<and>
     list_all network_typed (wm_Networks m) \<and> pred_option (\<lambda>d. rd_Type d \<noteq> []) (sto_RootDisk (wm_Storage m)) \<and>
     pred_option (\<lambda>a. aut_Priority a \<noteq> 0) (lc_Autostart (wm_Lifecycle m)) \<and>
     pred_option (cloud_init_typed (wm_Name m)) (wm_CloudInit m)"

definition instance_typed :: "m_instance \<Rightarrow> bool" where
  "instance_typed i \<longleftrightarrow>
     img_Arch (mi_Image i) \<noteq> [] \<and> res_CPU (mi_Resources i) \<noteq> 0 \<and> res_Memory (mi_Resources i) \<noteq> [] \<and>
     list_all network_typed (mi_Networks i) \<and> pred_option (\<lambda>d. do_Condition d \<noteq> []) (mi_DependsOn i) \<and>
     pred_option (cloud_init_typed (mi_Name i)) (mi_CloudInit i)"

fun manifest_typed :: "parsed_manifest \<Rightarrow> bool" where
  "manifest_typed (ParsedWorkload m) = workload_typed m"
| "manifest_typed (ParsedStack s) = list_all instance_typed (sd_Instances s)"

named_theorems defaults \<open>what the defaults of a manifest fill in\<close>

lemma or_default_ne [defaults]: "d \<noteq> [] \<Longrightarrow> or_default s d \<noteq> []" "or_default s d = [] \<longleftrightarrow> s = [] \<and> d = []"
  by (auto simp: or_default_def)

lemma pred_option_map: "pred_option P (map_option f x) \<longleftrightarrow> pred_option (\<lambda>y. P (f y)) x"
  by (cases x) auto

lemma pred_option_all: "(\<And>y. P y) \<Longrightarrow> pred_option P x"
  by (cases x) auto

lemma default_network_typed [defaults]: "network_typed (default_network n)"
  by (auto simp: network_typed_def default_network_def or_default_ne pred_option_map list_all_iff intro: pred_option_all)

lemma default_cloud_init_typed [defaults]: "cloud_init_typed name (default_cloud_init name c)"
  by (auto simp: cloud_init_typed_def default_cloud_init_def cloudInitSectionEmpty_def or_default_ne)

lemma default_scalars [defaults]:
  "img_Arch (default_image i) \<noteq> []" "res_CPU (default_resources r) \<noteq> 0" "res_Memory (default_resources r) \<noteq> []" "APIVersion \<noteq> []"
  by (simp_all add: default_image_def default_resources_def or_default_ne APIVersion_def)

lemma applyWorkloadDefaults_typed: "workload_typed (applyWorkloadDefaults m)"
  by (simp add: workload_typed_def applyWorkloadDefaults_def defaults pred_option_map list_all_iff pred_option_all)

lemma applyInstanceDefaults_typed: "instance_typed (applyInstanceDefaults i)"
  by (simp add: instance_typed_def applyInstanceDefaults_def defaults pred_option_map list_all_iff pred_option_all)

text \<open>A typed manifest is one the defaults do not change.\<close>

lemma or_default_id [simp]: "s \<noteq> [] \<Longrightarrow> or_default s d = s"
  by (simp add: or_default_def)

lemma default_network_id: "network_typed n \<Longrightarrow> default_network n = n"
proof -
  assume n: "network_typed n"
  have "map_option (\<lambda>i. i\<lparr>ip_Mode := or_default (ip_Mode i) ''dhcp''\<rparr>) (mn_IP n) = mn_IP n"
    using n by (cases "mn_IP n") (simp_all add: network_typed_def)
  moreover have "map (\<lambda>p. p\<lparr>pc_Protocol := or_default (pc_Protocol p) ''tcp''\<rparr>) (mn_Ports n) = mn_Ports n"
    using n by (intro map_idI) (simp add: network_typed_def list_all_iff)
  ultimately show ?thesis using n by (simp add: default_network_def network_typed_def)
qed

lemma default_cloud_init_id: "cloud_init_typed name c \<Longrightarrow> default_cloud_init name c = c"
  by (auto simp: cloud_init_typed_def default_cloud_init_def or_default_def)

lemma map_option_id_on: "pred_option P x \<Longrightarrow> (\<And>y. P y \<Longrightarrow> f y = y) \<Longrightarrow> map_option f x = x"
  by (cases x) auto

lemma map_id_on: "list_all P xs \<Longrightarrow> (\<And>y. P y \<Longrightarrow> f y = y) \<Longrightarrow> map f xs = xs"
  by (auto simp: list_all_iff intro: map_idI)

lemma network_defaults_id: "list_all network_typed ns \<Longrightarrow> map default_network ns = ns"
  by (erule map_id_on) (rule default_network_id)

lemma cloud_init_defaults_id: "pred_option (cloud_init_typed name) c \<Longrightarrow> map_option (default_cloud_init name) c = c"
  by (erule map_option_id_on) (rule default_cloud_init_id)

lemma applyWorkloadDefaults_id: "workload_typed m \<Longrightarrow> applyWorkloadDefaults m = m"
  unfolding workload_typed_def
  by (simp add: applyWorkloadDefaults_def default_image_def default_resources_def network_defaults_id cloud_init_defaults_id
      map_option_id_on [where P = "\<lambda>d. rd_Type d \<noteq> []"]
      map_option_id_on [where P = "\<lambda>a. aut_Priority a \<noteq> 0"])

lemma applyInstanceDefaults_id: "instance_typed i \<Longrightarrow> applyInstanceDefaults i = i"
  unfolding instance_typed_def
  by (simp add: applyInstanceDefaults_def default_image_def default_resources_def network_defaults_id cloud_init_defaults_id
      map_option_id_on [where P = "\<lambda>d. do_Condition d \<noteq> []"])

end
