(* ===== verification/Manifest_Validator.thy ===== *)
theory Manifest_Validator
  imports Manifest Validation
begin

text \<open>
  \<open>pkg/manifest/validator.go\<close>: the validation of a parsed manifest. An error is the field and the message it is reported
  with; the text that \<open>Error()\<close> makes of an underlying error is that error. Two parameters of every check are outside the
  source: \<open>oor\<close>, the result of a conversion to \<open>int64\<close> that does not fit, and \<open>dur\<close>, which is \<open>time.ParseDuration\<close>.
\<close>

section \<open>Errors\<close>

record validation_error =
  ve_Field :: string
  ve_Message :: go_error

definition verr :: "string \<Rightarrow> string \<Rightarrow> string list \<Rightarrow> validation_error" where
  "verr f msg args = \<lparr>ve_Field = f, ve_Message = Errorf msg args\<rparr>"

text \<open>\<open>field\<close> of the source, and a field with an index.\<close>

definition field_in :: "string \<Rightarrow> string \<Rightarrow> string" where
  "field_in pfx name = (if pfx = [] then name else pfx @ ''.'' @ name)"

definition indexed :: "string \<Rightarrow> nat \<Rightarrow> string" where
  "indexed f i = f @ ''['' @ itoa (int i) @ '']''"

definition each :: "(nat \<Rightarrow> 'a \<Rightarrow> 'b list) \<Rightarrow> 'a list \<Rightarrow> 'b list" where
  "each f xs = concat (map2 f [0..<length xs] xs)"

definition err_if :: "bool \<Rightarrow> 'a \<Rightarrow> 'a list" where
  "err_if b x = (if b then [x] else [])"

section \<open>Names and providers\<close>

definition SupportedProviders :: "string list" where
  "SupportedProviders = [''jail'', ''bhyve'', ''qemu'', ''podman'']"

definition isValidProvider :: "string \<Rightarrow> bool" where
  "isValidProvider p \<longleftrightarrow> p \<in> set SupportedProviders"

definition nameRegex :: rx where
  "nameRegex =
     (let lower = [(CHR ''a'', CHR ''z'')]; lower_num = [(CHR ''a'', CHR ''z''), (CHR ''0'', CHR ''9'')] in
      RAlt (RSeq (RCls lower) (RSeq (RStar (RCls (lower_num @ [(CHR ''-'', CHR ''-'')]))) (RCls lower_num))) (RCls lower))"

definition isValidName :: "string \<Rightarrow> bool" where
  "isValidName name \<longleftrightarrow> name \<noteq> [] \<and> length name \<le> 63 \<and> rx_match nameRegex (ToLower name)"

definition usernameRegex :: rx where
  "usernameRegex =
     RSeq (RCls [(CHR ''a'', CHR ''z''), (CHR ''_'', CHR ''_'')])
       (RStar (RCls [(CHR ''a'', CHR ''z''), (CHR ''0'', CHR ''9''), (CHR ''_'', CHR ''_''), (CHR ''-'', CHR ''-'')]))"

definition isValidUsername :: "string \<Rightarrow> bool" where
  "isValidUsername name \<longleftrightarrow> name \<noteq> [] \<and> length name \<le> 32 \<and> rx_match usernameRegex name"

definition validateAPIVersion :: "string \<Rightarrow> string \<Rightarrow> validation_error list" where
  "validateAPIVersion f v =
     err_if (v \<noteq> [] \<and> v \<noteq> APIVersion) (verr f ''unknown manifest version %q; this build understands %s'' [v, APIVersion])"

definition validate_name :: "string \<Rightarrow> string \<Rightarrow> string \<Rightarrow> validation_error list" where
  "validate_name f bad name =
     (if name = [] then [verr f ''name is required'' []]
      else err_if (\<not> isValidName name) (verr f bad []))"

definition validateWorkloadMeta :: "workload_manifest \<Rightarrow> validation_error list" where
  "validateWorkloadMeta m =
     validateAPIVersion ''workload.api_version'' (wm_APIVersion m) @
     validate_name ''workload.name'' ''invalid name format (must be alphanumeric with hyphens, max 63 chars)'' (wm_Name m)"

definition validateProvider :: "string \<Rightarrow> validation_error list" where
  "validateProvider p =
     (if p = [] then [verr ''provider.type'' ''provider type is required'' []]
      else err_if (\<not> isValidProvider p)
        (verr ''provider.type'' ''unknown provider: %s (valid: jail, bhyve, qemu, podman)'' [p]))"

section \<open>Image, resources, networks\<close>

definition compatible :: "string \<rightharpoonup> string list" where
  "compatible =
     [''jail'' \<mapsto> [''freebsd''], ''bhyve'' \<mapsto> [''freebsd'', ''cloud'', ''iso''],
      ''qemu'' \<mapsto> [''freebsd'', ''cloud'', ''iso''], ''podman'' \<mapsto> [''oci'']]"

definition validateImageProviderCompat :: "string \<Rightarrow> string \<Rightarrow> validation_error list" where
  "validateImageProviderCompat imageType providerType =
     (if providerType = [] then []
      else case compatible providerType of
        None \<Rightarrow> []
      | Some validTypes \<Rightarrow>
          err_if (imageType \<notin> set validTypes)
            (verr ''image.source'' ''image type '%s' is not compatible with provider '%s' (valid: %s)'' (imageType # providerType # validTypes)))"

definition validArchs :: "string list" where
  "validArchs = [''amd64'', ''arm64'', ''riscv64'', ''i386'']"

definition validateImage :: "image_spec \<Rightarrow> string \<Rightarrow> string \<Rightarrow> validation_error list" where
  "validateImage img providerType osType =
     (if img_Source img = [] then
        err_if (\<not> (providerType = ''jail'' \<and> osType = ''linux'')) (verr ''image.source'' ''image source is required'' [])
      else if img_Source img = ''none'' then []
      else case ParseImageSource (img_Source img) of
        Inl e \<Rightarrow> [\<lparr>ve_Field = ''image.source'', ve_Message = e\<rparr>]
      | Inr (imageType, _) \<Rightarrow>
          validateImageProviderCompat imageType providerType @
          err_if (img_Arch img \<noteq> [] \<and> img_Arch img \<notin> set validArchs)
            (verr ''image.arch'' ''unsupported architecture: %s (valid: amd64, arm64, riscv64, i386)'' [img_Arch img]))"

definition validateResources :: "int \<Rightarrow> resource_spec \<Rightarrow> validation_error list" where
  "validateResources oor r =
     err_if (res_CPU r < 0) (verr ''resources.cpu'' ''CPU count cannot be negative'' []) @
     err_if (res_CPU r > 256) (verr ''resources.cpu'' ''CPU count exceeds maximum (256)'' []) @
     (if res_Memory r = [] then []
      else case ParseMemoryToMB oor (res_Memory r) of
        Inl e \<Rightarrow> [\<lparr>ve_Field = ''resources.memory'', ve_Message = e\<rparr>]
      | Inr mb \<Rightarrow> err_if (mb < 64) (verr ''resources.memory'' ''memory must be at least 64Mi'' []))"

definition validNetworkTypes :: "string list" where
  "validNetworkTypes = [''bridge'', ''nat'', ''macvlan'', ''vxlan'', ''none'']"

definition validIPModes :: "string list" where
  "validIPModes = [''dhcp'', ''static'', ''none'']"

definition validate_ip :: "string \<Rightarrow> ip_config \<Rightarrow> validation_error list" where
  "validate_ip pfx ip =
     err_if (ip_Mode ip \<noteq> [] \<and> ip_Mode ip \<notin> set validIPModes)
       (verr (pfx @ ''.ip.mode'') ''invalid IP mode: %s (valid: dhcp, static, none)'' [ip_Mode ip]) @
     (if ip_Mode ip = ''static'' then
        (if ip_Address ip = [] then [verr (pfx @ ''.ip.address'') ''static IP requires address'' []]
         else err_if (ParseCIDR (ip_Address ip) = None) (verr (pfx @ ''.ip.address'') ''invalid CIDR format'' []))
      else []) @
     each (\<lambda>i dns. err_if (ParseIP dns = None) (verr (indexed (pfx @ ''.ip.dns'') i) ''invalid DNS IP: %s'' [dns])) (ip_DNS ip)"

definition validate_port :: "string \<Rightarrow> port_config \<Rightarrow> validation_error list" where
  "validate_port pfx p =
     err_if (pc_Host p \<le> 0 \<or> pc_Host p > 65535) (verr (pfx @ ''.host'') ''host port must be 1-65535'' []) @
     err_if (pc_Container p \<le> 0 \<or> pc_Container p > 65535) (verr (pfx @ ''.container'') ''container port must be 1-65535'' []) @
     err_if (pc_Protocol p \<noteq> [] \<and> pc_Protocol p \<noteq> ''tcp'' \<and> pc_Protocol p \<noteq> ''udp'')
       (verr (pfx @ ''.protocol'') ''protocol must be tcp or udp'' [])"

definition validateNetwork :: "m_network \<Rightarrow> string \<Rightarrow> validation_error list" where
  "validateNetwork n pfx =
     err_if (mn_Name n = []) (verr (pfx @ ''.name'') ''network name is required'' []) @
     err_if (mn_Type n \<noteq> [] \<and> mn_Type n \<notin> set validNetworkTypes)
       (verr (pfx @ ''.type'') ''invalid network type: %s (valid: bridge, nat, macvlan, vxlan, none)'' [mn_Type n]) @
     (case mn_IP n of None \<Rightarrow> [] | Some ip \<Rightarrow> validate_ip pfx ip) @
     each (\<lambda>i p. validate_port (indexed (pfx @ ''.ports'') i) p) (mn_Ports n)"

section \<open>Storage, lifecycle, cloud-init\<close>

definition validDiskTypes :: "string list" where
  "validDiskTypes = [''auto'', ''zvol'', ''qcow2'', ''raw'', ''physical'']"

definition validate_size :: "int \<Rightarrow> string \<Rightarrow> string \<Rightarrow> validation_error list" where
  "validate_size oor f sz =
     (if sz = [] then []
      else case ParseMemorySize oor sz of Inl e \<Rightarrow> [\<lparr>ve_Field = f, ve_Message = e\<rparr>] | Inr _ \<Rightarrow> [])"

definition validate_volume :: "int \<Rightarrow> nat \<Rightarrow> volume_spec \<Rightarrow> validation_error list" where
  "validate_volume oor i vol =
     (let pfx = indexed ''storage.volumes'' i in
      err_if (vol_Name vol = []) (verr (pfx @ ''.name'') ''volume name is required'' []) @
      (if vol_MountPath vol = [] then [verr (pfx @ ''.mount_path'') ''mount path is required'' []]
       else err_if (\<not> HasPrefix (vol_MountPath vol) ''/'') (verr (pfx @ ''.mount_path'') ''mount path must be absolute'' [])) @
      err_if (vol_Size vol = [] \<and> vol_HostPath vol = []) (verr (pfx @ ''.size'') ''size is required for non-host volumes'' []) @
      validate_size oor (pfx @ ''.size'') (vol_Size vol) @
      (case vol_ZFS vol of
         None \<Rightarrow> []
       | Some z \<Rightarrow>
           err_if (zc_Compression z \<noteq> [] \<and> zc_Compression z \<notin> {''lz4'', ''gzip'', ''zstd'', ''lzjb'', ''off''})
             (verr (pfx @ ''.zfs.compression'') ''invalid compression: %s'' [zc_Compression z])))"

definition validateStorage :: "int \<Rightarrow> storage_spec \<Rightarrow> validation_error list" where
  "validateStorage oor s =
     (case sto_RootDisk s of
        None \<Rightarrow> []
      | Some d \<Rightarrow>
          validate_size oor ''storage.root_disk.size'' (rd_Size d) @
          err_if (rd_Type d \<noteq> [] \<and> rd_Type d \<notin> set validDiskTypes)
            (verr ''storage.root_disk.type'' ''invalid disk type: %s (valid: auto, zvol, qcow2, raw, physical)'' [rd_Type d])) @
     each (validate_volume oor) (sto_Volumes s)"

definition ParseDuration :: "(string \<Rightarrow> int go_result) \<Rightarrow> string \<Rightarrow> int go_result" where
  "ParseDuration dur s = (if s = [] then Inr 0 else dur s)"

definition validate_duration :: "(string \<Rightarrow> int go_result) \<Rightarrow> string \<Rightarrow> string \<Rightarrow> validation_error list" where
  "validate_duration dur f v =
     (if v = [] then []
      else case ParseDuration dur v of Inl e \<Rightarrow> [\<lparr>ve_Field = f, ve_Message = e\<rparr>] | Inr _ \<Rightarrow> [])"

definition validate_hook :: "string \<Rightarrow> nat \<Rightarrow> hook_spec \<Rightarrow> validation_error list" where
  "validate_hook pfx i hook =
     (let f = indexed pfx i in
      (if hk_Type hook = ''exec'' then []
       else if hk_Type hook = [] then [verr (f @ ''.type'') ''hook type is required; the only type that runs is exec'' []]
       else [verr (f @ ''.type'') ''unknown hook type %q; the only type that runs is exec'' [hk_Type hook]]) @
      err_if (hk_Commands hook = []) (verr (f @ ''.commands'') ''hook has no commands to run'' []) @
      err_if (hk_OnFailure hook \<notin> {[], ''continue'', ''stop''})
        (verr (f @ ''.on_failure'') ''on_failure must be continue or stop, not %q'' [hk_OnFailure hook]))"

definition validateHooks :: "hook_spec list \<Rightarrow> string \<Rightarrow> validation_error list" where
  "validateHooks hooks pfx = each (validate_hook pfx) hooks"

definition validate_autostart :: "(string \<Rightarrow> int go_result) \<Rightarrow> string \<Rightarrow> autostart_config \<Rightarrow> validation_error list" where
  "validate_autostart dur pfx a =
     err_if (aut_Priority a < 0 \<or> aut_Priority a > 100)
       (verr (field_in pfx ''lifecycle.autostart.priority'') ''priority must be 0-100'' []) @
     validate_duration dur (field_in pfx ''lifecycle.autostart.delay'') (aut_Delay a)"

definition validate_health :: "(string \<Rightarrow> int go_result) \<Rightarrow> string \<Rightarrow> health_check_spec \<Rightarrow> validation_error list" where
  "validate_health dur pfx h =
     validate_duration dur (field_in pfx ''lifecycle.health_check.interval'') (hcs_Interval h) @
     validate_duration dur (field_in pfx ''lifecycle.health_check.timeout'') (hcs_Timeout h) @
     validate_duration dur (field_in pfx ''lifecycle.health_check.start_period'') (hcs_StartPeriod h) @
     err_if (hcs_Retries h < 0) (verr (field_in pfx ''lifecycle.health_check.retries'') ''retries cannot be negative'' [])"

definition validate_restart :: "(string \<Rightarrow> int go_result) \<Rightarrow> string \<Rightarrow> restart_spec \<Rightarrow> validation_error list" where
  "validate_restart dur pfx r =
     validate_duration dur (field_in pfx ''lifecycle.restart.delay'') (rs_Delay r) @
     validate_duration dur (field_in pfx ''lifecycle.restart.reset_after'') (rs_ResetAfter r) @
     err_if (rs_MaxRestarts r < 0) (verr (field_in pfx ''lifecycle.restart.max_restarts'') ''max_restarts cannot be negative'' [])"

definition opt_errors :: "('a \<Rightarrow> validation_error list) \<Rightarrow> 'a option \<Rightarrow> validation_error list" where
  "opt_errors f x = (case x of None \<Rightarrow> [] | Some v \<Rightarrow> f v)"

definition validateLifecycle :: "(string \<Rightarrow> int go_result) \<Rightarrow> string \<Rightarrow> lifecycle_spec \<Rightarrow> validation_error list" where
  "validateLifecycle dur pfx l =
     opt_errors (validate_autostart dur pfx) (lc_Autostart l) @
     opt_errors (validate_health dur pfx) (lc_HealthCheck l) @
     opt_errors (validate_restart dur pfx) (lc_Restart l) @
     opt_errors (\<lambda>h. validateHooks (hks_PreCreate h) ''lifecycle.hooks.pre_create'' @
                     validateHooks (hks_PostCreate h) ''lifecycle.hooks.post_create'') (lc_Hooks l)"

definition validate_user :: "string \<Rightarrow> nat \<Rightarrow> cloud_init_user \<Rightarrow> validation_error list" where
  "validate_user pfx i user =
     (let f = indexed (pfx @ ''.users'') i @ ''.name'' in
      if cu_Name user = [] then [verr f ''user name is required'' []]
      else err_if (\<not> isValidUsername (cu_Name user)) (verr f ''invalid username format'' []))"

definition validateCloudInit :: "cloud_init_spec \<Rightarrow> string \<Rightarrow> string \<Rightarrow> validation_error list" where
  "validateCloudInit c providerType pfx =
     (if providerType \<notin> {[], ''bhyve'', ''qemu''} then
        [verr pfx ''cloud-init is only supported for bhyve and qemu providers, not %s'' [providerType]]
      else if cis_Enabled c \<noteq> Some True then []
      else each (validate_user pfx) (cis_Users c) @
        err_if (cis_UserData c \<noteq> [] \<and> cis_UserDataFile c \<noteq> [])
          (verr pfx ''user_data and user_data_file are mutually exclusive'' []))"

section \<open>Workloads\<close>

definition override_os :: "(string \<rightharpoonup> provider_override) \<Rightarrow> string \<Rightarrow> string" where
  "override_os overrides p = (case overrides p of None \<Rightarrow> [] | Some o' \<Rightarrow> po_OSType o')"

definition validateWorkload :: "int \<Rightarrow> (string \<Rightarrow> int go_result) \<Rightarrow> workload_manifest \<Rightarrow> validation_error list" where
  "validateWorkload oor dur m =
     validateWorkloadMeta m @
     validateProvider (wm_Provider m) @
     validateImage (wm_Image m) (wm_Provider m) (override_os (wm_ProviderOverrides m) (wm_Provider m)) @
     validateResources oor (wm_Resources m) @
     each (\<lambda>i n. validateNetwork n (indexed ''networks'' i)) (wm_Networks m) @
     validateStorage oor (wm_Storage m) @
     validateLifecycle dur [] (wm_Lifecycle m) @
     opt_errors (\<lambda>c. validateCloudInit c (wm_Provider m) ''cloud_init'') (wm_CloudInit m)"

section \<open>Dependency cycles\<close>

datatype colour = White | Gray | Black

record dfs_state =
  dfs_color :: "string \<Rightarrow> colour"
  dfs_path :: "string list"

definition mi_services :: "m_instance \<Rightarrow> string list" where
  "mi_services i = (case mi_DependsOn i of None \<Rightarrow> [] | Some d \<Rightarrow> do_Services d)"

definition dep_graph :: "m_instance list \<Rightarrow> string \<Rightarrow> string list" where
  "dep_graph insts n =
     concat (map (\<lambda>i. if mi_Name i = n then filter (\<lambda>d. d \<in> mi_Name ` set insts) (mi_services i) else []) insts)"

text \<open>
  The search, with the depth of its recursion bounded: \<^const>\<open>None\<close> when the bound is reached, otherwise the cycle if one was
  found, and the state.
\<close>

fun dfs :: "(string \<Rightarrow> string list) \<Rightarrow> nat \<Rightarrow> string \<Rightarrow> dfs_state \<Rightarrow> (string list option \<times> dfs_state) option"
  and dfs_each :: "(string \<Rightarrow> string list) \<Rightarrow> nat \<Rightarrow> string list \<Rightarrow> dfs_state \<Rightarrow> (string list option \<times> dfs_state) option" where
  "dfs g 0 node st = None"
| "dfs g (Suc n) node st =
     (case dfs_each g n (g node) (st\<lparr>dfs_color := (dfs_color st)(node := Gray), dfs_path := dfs_path st @ [node]\<rparr>) of
        None \<Rightarrow> None
      | Some (Some cyc, st') \<Rightarrow> Some (Some cyc, st')
      | Some (None, st') \<Rightarrow>
          Some (None, st'\<lparr>dfs_path := butlast (dfs_path st'), dfs_color := (dfs_color st')(node := Black)\<rparr>))"
| "dfs_each g n [] st = Some (None, st)"
| "dfs_each g n (nxt # rest) st =
     (case dfs_color st nxt of
        Gray \<Rightarrow>
          (case dropWhile (\<lambda>x. x \<noteq> nxt) (dfs_path st) of
             [] \<Rightarrow> dfs_each g n rest st
           | p \<Rightarrow> Some (Some (p @ [nxt]), st))
      | White \<Rightarrow>
          (case dfs g n nxt st of
             None \<Rightarrow> None
           | Some (Some cyc, st') \<Rightarrow> Some (Some cyc, st')
           | Some (None, st') \<Rightarrow> dfs_each g n rest st')
      | Black \<Rightarrow> dfs_each g n rest st)"

fun dfs_roots :: "(string \<Rightarrow> string list) \<Rightarrow> nat \<Rightarrow> string list \<Rightarrow> dfs_state \<Rightarrow> string list option option" where
  "dfs_roots g n [] st = Some None"
| "dfs_roots g n (name # names) st =
     (if dfs_color st name = White then
        (case dfs g n name (st\<lparr>dfs_path := []\<rparr>) of
           None \<Rightarrow> None
         | Some (Some cyc, st') \<Rightarrow> Some (Some cyc)
         | Some (None, st') \<Rightarrow> dfs_roots g n names st')
      else dfs_roots g n names st)"

text \<open>No path is longer than the list of instances.\<close>

definition detectDependencyCycle :: "m_instance list \<Rightarrow> string list option option" where
  "detectDependencyCycle insts =
     dfs_roots (dep_graph insts) (length insts) (map mi_Name insts) \<lparr>dfs_color = \<lambda>_. White, dfs_path = []\<rparr>"

section \<open>Stacks\<close>

text \<open>The first pass over the instances, with the names seen before.\<close>

definition instance_name_errors :: "string \<Rightarrow> string \<Rightarrow> string set \<Rightarrow> validation_error list" where
  "instance_name_errors pfx name seen =
     (if name = [] then [verr (pfx @ ''.name'') ''name is required'' []]
      else err_if (name \<in> seen) (verr (pfx @ ''.name'') ''duplicate instance name: %s'' [name]))"

definition instance_errors :: "int \<Rightarrow> (string \<Rightarrow> int go_result) \<Rightarrow> string \<Rightarrow> m_instance \<Rightarrow> validation_error list" where
  "instance_errors oor dur pfx inst =
     (if mi_Provider inst = [] then [verr (pfx @ ''.provider'') ''provider is required'' []]
      else err_if (\<not> isValidProvider (mi_Provider inst)) (verr (pfx @ ''.provider'') ''unknown provider: %s'' [mi_Provider inst])) @
     validateImage (mi_Image inst) (mi_Provider inst) (override_os (mi_ProviderOverrides inst) (mi_Provider inst)) @
     validateResources oor (mi_Resources inst) @
     each (\<lambda>j n. validateNetwork n (indexed (pfx @ ''.networks'') j)) (mi_Networks inst) @
     opt_errors (\<lambda>c. validateCloudInit c (mi_Provider inst) (pfx @ ''.cloud_init'')) (mi_CloudInit inst) @
     validateStorage oor (mi_Storage inst) @
     validateLifecycle dur pfx (mi_Lifecycle inst)"

fun validate_instances ::
    "int \<Rightarrow> (string \<Rightarrow> int go_result) \<Rightarrow> nat \<Rightarrow> m_instance list \<Rightarrow> string set \<Rightarrow> validation_error list \<times> string set" where
  "validate_instances oor dur i [] seen = ([], seen)"
| "validate_instances oor dur i (inst # insts) seen =
     (let pfx = indexed ''instances'' i;
          seen' = (if mi_Name inst = [] then seen else insert (mi_Name inst) seen);
          (errs, final) = validate_instances oor dur (Suc i) insts seen'
      in (instance_name_errors pfx (mi_Name inst) seen @ instance_errors oor dur pfx inst @ errs, final))"

definition dependency_errors :: "string set \<Rightarrow> nat \<Rightarrow> m_instance \<Rightarrow> validation_error list" where
  "dependency_errors names i inst =
     concat (map (\<lambda>dep.
       let f = indexed ''instances'' i @ ''.depends_on.services'' in
       err_if (dep \<notin> names) (verr f ''unknown dependency: %s'' [dep]) @
       err_if (dep = mi_Name inst) (verr f ''instance cannot depend on itself'' [])) (mi_services inst))"

definition validateStack :: "int \<Rightarrow> (string \<Rightarrow> int go_result) \<Rightarrow> stack_doc \<Rightarrow> validation_error list" where
  "validateStack oor dur m =
     (let (errs, instanceNames) = validate_instances oor dur 0 (sd_Instances m) {} in
      validateAPIVersion ''stack.api_version'' (sd_APIVersion m) @
      validate_name ''stack.name'' ''invalid name format (must be alphanumeric with hyphens)'' (sd_Name m) @
      err_if (sd_Instances m = []) (verr ''instances'' ''at least one instance is required'' []) @
      errs @
      each (dependency_errors instanceNames) (sd_Instances m) @
      (case detectDependencyCycle (sd_Instances m) of
         Some (Some cycle) \<Rightarrow> [verr ''instances.depends_on'' ''dependency cycle detected: %s'' cycle]
       | _ \<Rightarrow> []))"

fun Validate :: "int \<Rightarrow> (string \<Rightarrow> int go_result) \<Rightarrow> parsed_manifest \<Rightarrow> validation_error list" where
  "Validate oor dur (ParsedWorkload m) = validateWorkload oor dur m"
| "Validate oor dur (ParsedStack s) = validateStack oor dur s"

end
