(* ===== verification/Manifest_Validator_Thms.thy ===== *)
theory Manifest_Validator_Thms
  imports Manifest_Validator Dependencies
begin

text \<open>
  Theorems of the manifest validator: the search for a dependency cycle returns, and is exact; a stack that passes
  has an order of deployment; what a manifest that passes guarantees of its fields.
\<close>

section \<open>The search\<close>

definition edge_rel :: "(string \<Rightarrow> string list) \<Rightarrow> (string \<times> string) set" where
  "edge_rel g = {(v, s). s \<in> set (g v)}"

abbreviation chain :: "(string \<Rightarrow> string list) \<Rightarrow> string list \<Rightarrow> bool" where
  "chain g \<equiv> successively (\<lambda>a b. b \<in> set (g a))"

definition is_cycle :: "(string \<Rightarrow> string list) \<Rightarrow> string list \<Rightarrow> bool" where
  "is_cycle g c \<longleftrightarrow> length c \<ge> 2 \<and> hd c = last c \<and> chain g c"

definition dfs_inv :: "(string \<Rightarrow> string list) \<Rightarrow> string set \<Rightarrow> dfs_state \<Rightarrow> bool" where
  "dfs_inv g V st \<longleftrightarrow>
     distinct (dfs_path st) \<and> set (dfs_path st) = {v. dfs_color st v = Gray} \<and> set (dfs_path st) \<subseteq> V \<and> chain g (dfs_path st) \<and>
     (\<forall>v. dfs_color st v = Black \<longrightarrow> (\<forall>s \<in> set (g v). dfs_color st s = Black) \<and> (v, v) \<notin> (edge_rel g)\<^sup>+)"

definition whites :: "string set \<Rightarrow> dfs_state \<Rightarrow> string set" where
  "whites V st = {v \<in> V. dfs_color st v = White}"

definition dfs_next :: "(string \<Rightarrow> string list) \<Rightarrow> string set \<Rightarrow> string list \<Rightarrow> dfs_state \<Rightarrow> dfs_state \<Rightarrow> bool" where
  "dfs_next g V ns st st' \<longleftrightarrow>
     dfs_inv g V st' \<and> dfs_path st' = dfs_path st \<and> (\<forall>v \<in> set ns. dfs_color st' v = Black) \<and>
     (\<forall>v. dfs_color st v = Black \<longrightarrow> dfs_color st' v = Black) \<and> whites V st' \<subseteq> whites V st"

definition dfs_post ::
    "(string \<Rightarrow> string list) \<Rightarrow> string set \<Rightarrow> string list \<Rightarrow> dfs_state \<Rightarrow> (string list option \<times> dfs_state) option \<Rightarrow> bool" where
  "dfs_post g V ns st r \<longleftrightarrow>
     (\<exists>c st'. r = Some (Some c, st') \<and> is_cycle g c) \<or> (\<exists>st'. r = Some (None, st') \<and> dfs_next g V ns st st')"

lemma closed_reach: "(s, t) \<in> (edge_rel g)\<^sup>* \<Longrightarrow> s \<in> B \<Longrightarrow> (\<And>v u. v \<in> B \<Longrightarrow> u \<in> set (g v) \<Longrightarrow> u \<in> B) \<Longrightarrow> t \<in> B"
  by (induction rule: rtrancl_induct) (auto simp: edge_rel_def)

lemma chain_reach: "chain g (a # p) \<Longrightarrow> p \<noteq> [] \<Longrightarrow> (a, last p) \<in> (edge_rel g)\<^sup>+"
proof (induction p arbitrary: a)
  case (Cons b p)
  have ab: "(a, b) \<in> edge_rel g" using Cons.prems by (simp add: edge_rel_def)
  show ?case
  proof (cases "p = []")
    case True
    then show ?thesis using ab by auto
  next
    case False
    then have "(b, last p) \<in> (edge_rel g)\<^sup>+" using Cons by simp
    then show ?thesis using ab False by (simp add: trancl_into_trancl2)
  qed
qed simp

lemma cycle_reach: "is_cycle g c \<Longrightarrow> (hd c, hd c) \<in> (edge_rel g)\<^sup>+"
proof -
  assume c: "is_cycle g c"
  then obtain a p where ap: "c = a # p" "p \<noteq> []" by (cases c; cases "tl c") (auto simp: is_cycle_def)
  then show ?thesis using c chain_reach [of g a p] by (auto simp: is_cycle_def)
qed

text \<open>An edge back to a node on the path closes a cycle.\<close>

lemma back_edge:
  assumes "dfs_inv g V st" "dfs_path st \<noteq> []" "nxt \<in> set (g (last (dfs_path st)))" "dfs_color st nxt = Gray"
  shows "\<exists>p. dropWhile (\<lambda>x. x \<noteq> nxt) (dfs_path st) = nxt # p \<and> is_cycle g (nxt # p @ [nxt])"
proof -
  let ?p = "dfs_path st"
  have mem: "nxt \<in> set ?p" using assms(1,4) by (auto simp: dfs_inv_def)
  then obtain u p where split: "?p = u @ nxt # p" "nxt \<notin> set u" by (meson split_list_first)
  have "\<forall>x \<in> set u. x \<noteq> nxt" using split(2) by blast
  then have drop: "dropWhile (\<lambda>x. x \<noteq> nxt) ?p = nxt # p" using split(1) by (simp add: dropWhile_append2)
  have "chain g (u @ nxt # p)" using assms(1) split(1) by (simp add: dfs_inv_def)
  then have ch: "chain g (nxt # p)" by (simp add: successively_append_iff)
  have "last ?p = last (nxt # p)" using split(1) by simp
  then have "chain g ((nxt # p) @ [nxt])" using ch assms(3) by (simp only: successively_append_iff) auto
  then show ?thesis using drop by (simp add: is_cycle_def)
qed

text \<open>Entering a node, and leaving it when all its successors are done.\<close>

lemma dfs_enter:
  assumes "dfs_inv g V st" "node \<in> V" "dfs_color st node = White" "dfs_path st = [] \<or> node \<in> set (g (last (dfs_path st)))" "finite V"
  defines "st1 \<equiv> st\<lparr>dfs_color := (dfs_color st)(node := Gray), dfs_path := dfs_path st @ [node]\<rparr>"
  shows "dfs_inv g V st1" "card (whites V st1) < card (whites V st)" "dfs_color st1 v = Black \<longleftrightarrow> dfs_color st v = Black"
proof -
  have black: "dfs_color st1 v = Black \<longleftrightarrow> dfs_color st v = Black" for v using assms(3) by (simp add: st1_def)
  then show "dfs_color st1 v = Black \<longleftrightarrow> dfs_color st v = Black" .
  have "node \<notin> set (dfs_path st)" using assms(1,3) by (auto simp: dfs_inv_def)
  moreover have "chain g (dfs_path st @ [node])" using assms(1,4) by (auto simp: dfs_inv_def successively_append_iff)
  moreover have "{v. dfs_color st1 v = Gray} = insert node {v. dfs_color st v = Gray}" by (auto simp: st1_def)
  ultimately show "dfs_inv g V st1"
    using assms(1,2) black by (auto simp: dfs_inv_def st1_def)
  have "whites V st = insert node (whites V st1)" "node \<notin> whites V st1" using assms(2,3) by (auto simp: whites_def st1_def)
  moreover have "finite (whites V st1)" using assms(5) by (simp add: whites_def)
  ultimately show "card (whites V st1) < card (whites V st)" by simp
qed

lemma dfs_leave:
  assumes "dfs_inv g V st'" "dfs_path st' = p @ [node]" "\<forall>v \<in> set (g node). dfs_color st' v = Black"
  defines "st2 \<equiv> st'\<lparr>dfs_path := butlast (dfs_path st'), dfs_color := (dfs_color st')(node := Black)\<rparr>"
  shows "dfs_inv g V st2"
proof -
  have gray: "dfs_color st' node = Gray" using assms(1,2) by (auto simp: dfs_inv_def)
  have "(node, node) \<notin> (edge_rel g)\<^sup>+"
  proof
    assume "(node, node) \<in> (edge_rel g)\<^sup>+"
    then obtain s where s: "s \<in> set (g node)" "(s, node) \<in> (edge_rel g)\<^sup>*" by (auto simp: edge_rel_def dest: tranclD)
    have "node \<in> {v. dfs_color st' v = Black}"
      by (rule closed_reach [OF s(2)]) (use s(1) assms(1,3) in \<open>auto simp: dfs_inv_def\<close>)
    then show False using gray by simp
  qed
  moreover have "{v. dfs_color st2 v = Gray} = set p"
    using assms(1,2) by (auto simp: dfs_inv_def st2_def)
  moreover have "distinct p" "set p \<subseteq> V" "chain g p" using assms(1,2) by (auto simp: dfs_inv_def successively_append_iff)
  ultimately show ?thesis using assms(1-3) by (auto simp: dfs_inv_def st2_def)
qed

lemma dfs_postI:
  "is_cycle g c \<Longrightarrow> dfs_post g V ns st (Some (Some c, st'))"
  "dfs_next g V ns st st' \<Longrightarrow> dfs_post g V ns st (Some (None, st'))"
  by (simp_all add: dfs_post_def)

lemma dfs_postE:
  assumes "dfs_post g V ns st r"
  obtains (cyc) c st' where "r = Some (Some c, st')" "is_cycle g c" | (ended) st' where "r = Some (None, st')" "dfs_next g V ns st st'"
  using assms by (auto simp: dfs_post_def)

lemma dfs_next_trans: "dfs_next g V ns st st1 \<Longrightarrow> dfs_next g V ms st1 st2 \<Longrightarrow> dfs_next g V (ns @ ms) st st2"
  by (auto simp: dfs_next_def)

lemma dfs_next_black: "dfs_color st v = Black \<Longrightarrow> dfs_next g V ns st st' \<Longrightarrow> dfs_next g V (v # ns) st st'"
  by (simp add: dfs_next_def)

lemma dfs_terminates_correct:
  assumes fin: "finite V"
  shows "\<forall>v \<in> V. set (g v) \<subseteq> V \<Longrightarrow> dfs_inv g V st \<Longrightarrow> node \<in> V \<Longrightarrow> dfs_color st node = White \<Longrightarrow>
      dfs_path st = [] \<or> node \<in> set (g (last (dfs_path st))) \<Longrightarrow> card (whites V st) \<le> n \<Longrightarrow>
      dfs_post g V [node] st (dfs g n node st)"
    and "\<forall>v \<in> V. set (g v) \<subseteq> V \<Longrightarrow> dfs_inv g V st \<Longrightarrow> dfs_path st \<noteq> [] \<Longrightarrow> set ns \<subseteq> set (g (last (dfs_path st))) \<Longrightarrow> card (whites V st) \<le> n \<Longrightarrow>
      dfs_post g V ns st (dfs_each g n ns st)"
proof (induction g n node st and g n ns st rule: dfs_dfs_each.induct)
  case (1 g node st)
  then have "node \<in> whites V st" "finite (whites V st)" using fin by (simp_all add: whites_def)
  then show ?case using "1.prems"(6) by auto
next
  case (2 g n node st)
  let ?st1 = "st\<lparr>dfs_color := (dfs_color st)(node := Gray), dfs_path := dfs_path st @ [node]\<rparr>"
  note enter = dfs_enter [OF "2.prems"(2-5) fin]
  have "dfs_post g V (g node) ?st1 (dfs_each g n (g node) ?st1)"
    by (rule "2.IH") (use enter(1,2) "2.prems"(1,6) in simp_all)
  then show ?case
  proof (cases rule: dfs_postE)
    case (cyc c st')
    then show ?thesis by (simp add: dfs_postI)
  next
    case (ended st')
    let ?st2 = "st'\<lparr>dfs_path := butlast (dfs_path st'), dfs_color := (dfs_color st')(node := Black)\<rparr>"
    have next': "dfs_inv g V st'" "dfs_path st' = dfs_path st @ [node]" "\<forall>v \<in> set (g node). dfs_color st' v = Black"
      "\<forall>v. dfs_color ?st1 v = Black \<longrightarrow> dfs_color st' v = Black" "whites V st' \<subseteq> whites V ?st1"
      using ended(2) by (simp_all add: dfs_next_def)
    have "dfs_inv g V ?st2" by (rule dfs_leave [OF next'(1-3)])
    moreover have "whites V ?st2 \<subseteq> whites V st" using next'(5) by (auto simp: whites_def split: if_splits)
    moreover have "dfs_color ?st2 v = Black" if "dfs_color st v = Black" for v
      using that next'(4) enter(3) [of v] by (simp del: fun_upd_apply) simp
    ultimately have "dfs_next g V [node] st ?st2" using next'(2) by (simp add: dfs_next_def)
    then show ?thesis using ended(1) by (simp add: dfs_postI)
  qed
next
  case (3 g n st)
  then show ?case by (simp add: dfs_postI dfs_next_def)
next
  case (4 g n nxt rest st)
  have nxt: "nxt \<in> set (g (last (dfs_path st)))" "set rest \<subseteq> set (g (last (dfs_path st)))" using "4.prems"(4) by auto
  show ?case
  proof (cases "dfs_color st nxt")
    case Gray
    then show ?thesis using back_edge [OF "4.prems"(2,3) nxt(1)] by (auto simp: dfs_postI)
  next
    case White
    have "last (dfs_path st) \<in> V" using "4.prems"(2,3) by (auto simp: dfs_inv_def)
    then have "nxt \<in> V" using "4.prems"(1) nxt(1) by blast
    then have "dfs_post g V [nxt] st (dfs g n nxt st)" using "4.IH"(1) [OF White "4.prems"(1,2) _ White] nxt(1) "4.prems"(5) by blast
    then show ?thesis
    proof (cases rule: dfs_postE)
      case (ended st1)
      then have st1: "dfs_inv g V st1" "dfs_path st1 = dfs_path st" "whites V st1 \<subseteq> whites V st" by (simp_all add: dfs_next_def)
      have "card (whites V st1) \<le> n" using card_mono [OF _ st1(3)] fin "4.prems"(5) by (simp add: whites_def)
      then have "dfs_post g V rest st1 (dfs_each g n rest st1)"
        using "4.IH"(2) [OF White ended(1) refl refl "4.prems"(1) st1(1)] st1(2) "4.prems"(3) nxt(2) by simp
      then show ?thesis
      proof (cases rule: dfs_postE)
        case (ended st2)
        from dfs_next_trans [OF \<open>dfs_next g V [nxt] st st1\<close> ended(2)]
        show ?thesis using White \<open>dfs g n nxt st = Some (None, st1)\<close> ended(1) by (simp add: dfs_postI)
      qed (use White ended(1) in \<open>simp add: dfs_postI\<close>)
    qed (simp add: White dfs_postI)
  next
    case Black
    have "dfs_post g V rest st (dfs_each g n rest st)" using "4.IH"(4) Black "4.prems" nxt(2) by simp
    then show ?thesis
    proof (cases rule: dfs_postE)
      case (ended st')
      then show ?thesis using Black by (simp add: dfs_postI dfs_next_black)
    qed (simp add: Black dfs_postI)
  qed
qed

lemma dfs_roots_correct:
  assumes "finite V" "\<forall>v \<in> V. set (g v) \<subseteq> V"
  shows "dfs_inv g V st \<Longrightarrow> dfs_path st = [] \<Longrightarrow> set names \<subseteq> V \<Longrightarrow> card V \<le> n \<Longrightarrow>
    (\<exists>c. dfs_roots g n names st = Some (Some c) \<and> is_cycle g c) \<or>
    (dfs_roots g n names st = Some None \<and> (\<forall>v \<in> set names. (v, v) \<notin> (edge_rel g)\<^sup>+))"
proof (induction names arbitrary: st)
  case (Cons v names)
  have same: "st\<lparr>dfs_path := []\<rparr> = st" using Cons.prems(2) by simp
  show ?case
  proof (cases "dfs_color st v")
    case White
    have "card (whites V st) \<le> card V" using assms(1) by (intro card_mono) (auto simp: whites_def)
    then have "card (whites V st) \<le> n" using Cons.prems(4) by linarith
    then have "dfs_post g V [v] st (dfs g n v st)"
      using Cons.prems by (intro dfs_terminates_correct [OF assms]) (simp_all add: White)
    then show ?thesis
    proof (cases rule: dfs_postE)
      case (cyc c st')
      then show ?thesis using White same by simp
    next
      case (ended st')
      then have st': "dfs_inv g V st'" "dfs_path st' = []" "dfs_color st' v = Black" using Cons.prems(2) by (simp_all add: dfs_next_def)
      then have "(v, v) \<notin> (edge_rel g)\<^sup>+" by (auto simp: dfs_inv_def)
      then show ?thesis using Cons.IH [OF st'(1,2)] Cons.prems(3,4) White same ended(1) by auto
    qed
  next
    case Gray
    then have "v \<in> set (dfs_path st)" using Cons.prems(1) by (simp add: dfs_inv_def)
    then show ?thesis using Cons.prems(2) by simp
  next
    case Black
    then have "(v, v) \<notin> (edge_rel g)\<^sup>+" using Cons.prems(1) by (auto simp: dfs_inv_def)
    then show ?thesis using Cons.IH [OF Cons.prems(1,2)] Cons.prems(3,4) Black by auto
  qed
qed simp

section \<open>The graph of a stack\<close>

lemma dep_graph_set: "set (dep_graph insts n) = {d. \<exists>i \<in> set insts. mi_Name i = n \<and> d \<in> set (mi_services i) \<and> d \<in> mi_Name ` set insts}"
  by (auto simp: dep_graph_def)

lemma detect_cases:
  "(\<exists>c. detectDependencyCycle insts = Some (Some c) \<and> is_cycle (dep_graph insts) c) \<or>
    (detectDependencyCycle insts = Some None \<and> acyclic (edge_rel (dep_graph insts)))"
proof -
  let ?g = "dep_graph insts" and ?V = "mi_Name ` set insts"
  let ?st = "\<lparr>dfs_color = \<lambda>_. White, dfs_path = []\<rparr>"
  have "\<forall>v \<in> ?V. set (?g v) \<subseteq> ?V" by (auto simp: dep_graph_set)
  moreover have "dfs_inv ?g ?V ?st" by (simp add: dfs_inv_def)
  moreover have "card ?V \<le> length insts" by (metis card_image_le card_length le_trans List.finite_set)
  ultimately have r: "(\<exists>c. detectDependencyCycle insts = Some (Some c) \<and> is_cycle ?g c) \<or>
      (detectDependencyCycle insts = Some None \<and> (\<forall>v \<in> ?V. (v, v) \<notin> (edge_rel ?g)\<^sup>+))"
    using dfs_roots_correct [of ?V ?g ?st "map mi_Name insts" "length insts"] by (simp add: detectDependencyCycle_def)
  have "v \<in> ?V" if "(v, v) \<in> (edge_rel ?g)\<^sup>+" for v
    using that by (auto simp: edge_rel_def dep_graph_set dest: tranclD)
  then show ?thesis using r by (auto simp: acyclic_def)
qed

text \<open>C34. The search for a dependency cycle returns on every list of instances. It reports none exactly when the dependencies
  among the instances have no cycle, and what it reports otherwise is a cycle: a list of instances, the first and the last the
  same, in which each depends on the next.\<close>

theorem cycle_detection_exact:
  "(detectDependencyCycle insts = Some None \<longleftrightarrow> acyclic (edge_rel (dep_graph insts))) \<and>
    detectDependencyCycle insts \<noteq> None \<and>
    (case detectDependencyCycle insts of Some (Some c) \<Rightarrow> is_cycle (dep_graph insts) c | _ \<Rightarrow> True)"
proof -
  have "\<not> acyclic (edge_rel (dep_graph insts))" if "is_cycle (dep_graph insts) c" for c
    using cycle_reach [OF that] by (auto simp: acyclic_def)
  then show ?thesis using detect_cases [of insts] by auto
qed

section \<open>Stacks that pass\<close>

lemma each_Nil: "each f xs = [] \<longleftrightarrow> (\<forall>i < length xs. f i (xs ! i) = [])"
proof -
  have "concat (map2 f [k..<k + length xs] xs) = [] \<longleftrightarrow> (\<forall>i < length xs. f (k + i) (xs ! i) = [])" for k
  proof (induction xs arbitrary: k)
    case (Cons x xs)
    have "[k..<k + length (x # xs)] = k # [Suc k..<Suc k + length xs]" by (simp del: upt_Suc add: upt_conv_Cons)
    then show ?case using Cons.IH [of "Suc k"] by (auto simp: less_Suc_eq_0_disj)
  qed simp
  from this [of 0] show ?thesis by (simp add: each_def)
qed

lemma err_if_Nil [simp]: "err_if b x = [] \<longleftrightarrow> \<not> b"
  by (simp add: err_if_def)

lemma validate_instances_names:
  "snd (validate_instances oor dur i insts seen) = seen \<union> (mi_Name ` set insts - {[]})"
  by (induction oor dur i insts seen rule: validate_instances.induct) (auto simp: Let_def split: prod.splits)

lemma validate_instances_Nil:
  "fst (validate_instances oor dur i insts seen) = [] \<Longrightarrow>
     distinct (map mi_Name insts) \<and> [] \<notin> mi_Name ` set insts \<and> mi_Name ` set insts \<inter> seen = {} \<and>
     (\<forall>inst \<in> set insts. \<exists>j. instance_errors oor dur (indexed ''instances'' j) inst = [])"
proof (induction oor dur i insts seen rule: validate_instances.induct)
  case (2 oor dur i inst insts seen)
  then show ?case by (auto simp: Let_def instance_name_errors_def split: prod.splits if_splits)
qed simp

lemma dependency_errors_Nil:
  "dependency_errors names i inst = [] \<longleftrightarrow> set (mi_services inst) \<subseteq> names \<and> mi_Name inst \<notin> set (mi_services inst)"
  by (auto simp: dependency_errors_def Let_def concat_eq_Nil_conv)

lemma known_dependencies: "each (dependency_errors N) insts = [] \<Longrightarrow> \<forall>i \<in> set insts. set (mi_services i) \<subseteq> N"
proof
  assume none: "each (dependency_errors N) insts = []"
  fix i assume "i \<in> set insts"
  then obtain k where "k < length insts" "i = insts ! k" by (auto simp: in_set_conv_nth)
  then show "set (mi_services i) \<subseteq> N" using none by (simp add: each_Nil dependency_errors_Nil)
qed

lemma known_graph:
  assumes "\<forall>i \<in> set insts. set (mi_services i) \<subseteq> mi_Name ` set insts"
  shows "edge_rel (dep_graph insts) = (dep_rel mi_Name mi_services insts)\<inverse>"
  using assms by (fastforce simp: edge_rel_def dep_graph_set dep_rel_def)

text \<open>C33. The validator and the deployment agree about dependencies. A stack that passes validation has an order of deployment; and
  when a stack whose instances all have names has one, the validator reports none of its dependencies and no cycle.\<close>

theorem validator_agrees_with_deployer:
  assumes "distinct ns" "set ns = mi_Name ` set (sd_Instances m)"
  shows "(validateStack oor dur m = [] \<longrightarrow>
      sd_Instances m \<noteq> [] \<and> (\<exists>order. buildDependencyOrder mi_Name mi_services ns (sd_Instances m) = Inr order)) \<and>
    ((\<exists>order. buildDependencyOrder mi_Name mi_services ns (sd_Instances m) = Inr order) \<and> [] \<notin> mi_Name ` set (sd_Instances m) \<longrightarrow>
      each (dependency_errors (snd (validate_instances oor dur 0 (sd_Instances m) {}))) (sd_Instances m) = [] \<and>
      detectDependencyCycle (sd_Instances m) = Some None)"
proof -
  let ?is = "sd_Instances m" and ?N = "mi_Name ` set (sd_Instances m)"
  let ?known = "\<forall>i \<in> set ?is. set (mi_services i) \<subseteq> ?N"
  note order = order_exists_iff [OF assms, of mi_services]
  have graph: "acyclic (edge_rel (dep_graph ?is)) \<longleftrightarrow> acyclic (dep_rel mi_Name mi_services ?is)" if ?known
    using known_graph [OF that] by simp
  have names: "snd (validate_instances oor dur 0 ?is {}) = ?N" if "[] \<notin> ?N" using that validate_instances_names by auto
  have "\<exists>order. buildDependencyOrder mi_Name mi_services ns ?is = Inr order" "?is \<noteq> []" if v: "validateStack oor dur m = []"
  proof -
    have v': "fst (validate_instances oor dur 0 ?is {}) = []" "?is \<noteq> []"
      "each (dependency_errors (snd (validate_instances oor dur 0 ?is {}))) ?is = []"
      "\<not> (\<exists>c. detectDependencyCycle ?is = Some (Some c))"
      using v by (auto simp: validateStack_def Let_def split: prod.splits option.splits)
    note ok = validate_instances_Nil [OF v'(1)]
    then have "snd (validate_instances oor dur 0 ?is {}) = ?N" using names by blast
    then have "each (dependency_errors ?N) ?is = []" using v'(3) by simp
    then have ?known by (rule known_dependencies)
    moreover have "acyclic (edge_rel (dep_graph ?is))" using detect_cases [of ?is] v'(4) by blast
    ultimately show "\<exists>order. buildDependencyOrder mi_Name mi_services ns ?is = Inr order" using order graph ok by blast
    show "?is \<noteq> []" by (rule v'(2))
  qed
  moreover have "each (dependency_errors (snd (validate_instances oor dur 0 ?is {}))) ?is = [] \<and> detectDependencyCycle ?is = Some None"
    if o: "\<exists>order. buildDependencyOrder mi_Name mi_services ns ?is = Inr order" and ne: "[] \<notin> ?N"
  proof -
    have k: ?known "acyclic (dep_rel mi_Name mi_services ?is)" using o order by blast+
    have "mi_Name i \<notin> set (mi_services i)" if "i \<in> set ?is" for i
    proof
      assume "mi_Name i \<in> set (mi_services i)"
      then have "(mi_Name i, mi_Name i) \<in> dep_rel mi_Name mi_services ?is" using that by (auto simp: dep_rel_def)
      then show False using k(2) by (auto simp: acyclic_def)
    qed
    then have "each (dependency_errors ?N) ?is = []" using k(1) by (auto simp: each_Nil dependency_errors_Nil)
    moreover have "detectDependencyCycle ?is = Some None"
      using detect_cases [of ?is] cycle_reach graph k by (auto simp: acyclic_def)
    ultimately show ?thesis using names [OF ne] by simp
  qed
  ultimately show ?thesis by blast
qed

section \<open>Names\<close>

lemma ToLower_ascii: "\<forall>c \<in> set s. byte c < 128 \<Longrightarrow> ToLower s = map to_lower_char s"
proof (induction s)
  case (Cons c s)
  have "c \<noteq> CHR 0xC4" "c \<noteq> CHR 0xE2" using Cons.prems by (auto simp: byte_def)
  then show ?case using Cons by simp
qed simp

lemma nameRegex_chars:
  assumes "rx_match nameRegex s"
  shows "s \<noteq> []" "in_range (CHR ''a'', CHR ''z'') (hd s)"
    "\<forall>c \<in> set s. in_class [(CHR ''a'', CHR ''z''), (CHR ''0'', CHR ''9''), (CHR ''-'', CHR ''-'')] c"
proof -
  have "in_class (rx_chars nameRegex) c" if "c \<in> set s" for c using rx_match_chars [OF assms that] .
  then show "\<forall>c \<in> set s. in_class [(CHR ''a'', CHR ''z''), (CHR ''0'', CHR ''9''), (CHR ''-'', CHR ''-'')] c"
    by (auto simp: nameRegex_def in_class_def Let_def)
  have "s \<noteq> [] \<and> in_range (CHR ''a'', CHR ''z'') (hd s)"
    using assms by (auto simp: rx_match_iff nameRegex_def Let_def rx_in_cls_then in_class_def simp del: rx_in_core(4))
  then show "s \<noteq> []" "in_range (CHR ''a'', CHR ''z'') (hd s)" by blast+
qed

lemma lower_letter: "in_range (CHR ''a'', CHR ''z'') (to_lower_char c) \<Longrightarrow> in_class cls_alnum c"
  by (auto simp: in_range_def to_lower_char_def in_class_def cls_alnum_def split: if_splits)

lemma lower_name_char:
  "in_class [(CHR ''a'', CHR ''z''), (CHR ''0'', CHR ''9''), (CHR ''-'', CHR ''-'')] (to_lower_char c) \<Longrightarrow> in_class cls_name c"
  by (auto simp: in_range_def to_lower_char_def in_class_def cls_name_def cls_alnum_def split: if_splits)

text \<open>A name in ASCII that the manifest validator accepts is one that the providers and the API accept as an instance name.\<close>

theorem manifest_name_accepted:
  assumes "isValidName name" "\<forall>c \<in> set name. byte c < 128"
  shows "ValidateInstanceName name = None"
proof -
  have m: "rx_match nameRegex (map to_lower_char name)" "name \<noteq> []" "length name \<le> 63"
    using assms ToLower_ascii by (auto simp: isValidName_def)
  note chars = nameRegex_chars [OF m(1)]
  have "in_class cls_alnum (hd name)" using chars(2) m(2) by (intro lower_letter) (simp add: hd_map)
  moreover have "list_all (in_class cls_name) (tl name)"
    using chars(3) lower_name_char by (cases name) (auto simp: list_all_iff)
  ultimately have "rx_match ValidInstanceNameRegex name" using m(2,3) by (simp add: ValidInstanceNameRegex_def name_rx_iff)
  then show ?thesis using m by (simp add: ValidateInstanceName_def)
qed

text \<open>Outside ASCII the two differ: the Kelvin sign becomes a letter when it is lowered.\<close>

lemma kelvin_name_passes:
  "isValidName [CHR 0xE2, CHR 0x84, CHR 0xAA] \<and> ValidateInstanceName [CHR 0xE2, CHR 0x84, CHR 0xAA] \<noteq> None"
  by code_simp

section \<open>Concrete instances\<close>

definition demo_instance :: "string \<Rightarrow> string list \<Rightarrow> m_instance" where
  "demo_instance name deps =
     \<lparr>mi_Name = name, mi_Provider = ''qemu'', mi_Image = \<lparr>img_Source = ''cloud:debian-12'', img_Arch = ''amd64''\<rparr>,
      mi_Resources = \<lparr>res_CPU = 1, res_Memory = []\<rparr>, mi_Networks = [],
      mi_Storage = \<lparr>sto_RootDisk = None, sto_Volumes = []\<rparr>, mi_CloudInit = None,
      mi_Lifecycle = \<lparr>lc_StopTimeout = 0, lc_Autostart = None, lc_Hooks = None, lc_HealthCheck = None, lc_Restart = None\<rparr>,
      mi_Environment = [], mi_ProviderOverrides = Map.empty,
      mi_DependsOn = Some \<lparr>do_Services = deps, do_Condition = ''started''\<rparr>\<rparr>"

definition demo_stack_doc :: stack_doc where
  "demo_stack_doc =
     \<lparr>sd_APIVersion = [], sd_Name = ''shop'', sd_Instances = [demo_instance ''web'' [''db''], demo_instance ''db'' []]\<rparr>"

theorem validator_agrees_with_deployer_witness:
  "\<exists>order. buildDependencyOrder mi_Name mi_services [''web'', ''db''] (sd_Instances demo_stack_doc) = Inr order"
proof -
  have "validateStack 0 (\<lambda>_. Inr 0) demo_stack_doc = []" by code_simp
  then show ?thesis
    using validator_agrees_with_deployer [of "[''web'', ''db'']" demo_stack_doc 0 "\<lambda>_. Inr 0"]
    by (simp add: demo_stack_doc_def demo_instance_def)
qed

theorem manifest_name_accepted_witness: "ValidateInstanceName ''Web-1'' = None"
proof -
  have "isValidName ''Web-1''" by code_simp
  then show ?thesis using manifest_name_accepted [of "''Web-1''"] by (simp add: byte_def)
qed

end
