(* ===== verification/Manifest_Convert.thy ===== *)
theory Manifest_Convert
  imports Manifest Validation Paths
begin

text \<open>
  \<open>pkg/manifest/convert.go\<close> and the parts of \<open>pkg/cloudinit\<close> it calls: a workload or an instance of a stack as the specification a
  provider gets. The configuration a provider reads is built as a map and, in the specification, listed in the order an
  iteration visits its keys, an argument of the conversion; the maps inside it are listed in the order the source writes them. The
  YAML encoder and the rooted directory handle of \<open>os\<close> are functions of the environment.
\<close>

section \<open>Cloud-init data\<close>

text \<open>A user has the same fields in a manifest and in \<open>cloudinit.UserConfig\<close>.\<close>

record ci_network =
  cn_Name :: string
  cn_Type :: string
  cn_Address :: string
  cn_Gateway :: string
  cn_DNS :: "string list"
  cn_MACAddress :: string

record ci_config =
  cc_InstanceID :: string
  cc_LocalHostname :: string
  cc_Networks :: "ci_network list"
  cc_Users :: "cloud_init_user list"
  cc_Packages :: "string list"
  cc_RunCMD :: "string list"
  cc_SSHAuthorizedKeys :: "string list"
  cc_CustomUserData :: string

definition NetworkFromProviderSpec :: "string \<Rightarrow> string \<Rightarrow> string \<Rightarrow> string list \<Rightarrow> string \<Rightarrow> ci_network" where
  "NetworkFromProviderSpec name ipv4 gateway dns mac =
     (if ipv4 = [] \<or> ipv4 = ''dhcp'' then
        \<lparr>cn_Name = name, cn_Type = ''dhcp'', cn_Address = [], cn_Gateway = [], cn_DNS = [], cn_MACAddress = mac\<rparr>
      else \<lparr>cn_Name = name, cn_Type = ''static'', cn_Address = ipv4, cn_Gateway = gateway, cn_DNS = dns, cn_MACAddress = mac\<rparr>)"

definition ConfigFromSpec :: "string \<Rightarrow> string \<Rightarrow> ci_network list \<Rightarrow> string list \<Rightarrow> ci_config" where
  "ConfigFromSpec instanceID hostname networks sshKeys =
     \<lparr>cc_InstanceID = instanceID, cc_LocalHostname = hostname, cc_Networks = networks,
      cc_Users =
        (if sshKeys = [] then []
         else [\<lparr>cu_Name = ''hospitus'', cu_SSHAuthorizedKeys = sshKeys, cu_Sudo = ''ALL=(ALL) NOPASSWD:ALL'', cu_Doas = [],
                cu_Shell = ''/bin/sh'', cu_Groups = [''wheel'', ''sudo''], cu_LockPasswd = True, cu_PlainTextPasswd = []\<rparr>]),
      cc_Packages = [], cc_RunCMD = [], cc_SSHAuthorizedKeys = sshKeys, cc_CustomUserData = []\<rparr>"

text \<open>The documents the encoder gets: \<open>ciUserDataYAML\<close>, \<open>cloudInitMetaData\<close>, \<open>networkConfigV1\<close> and \<open>networkConfigV2\<close>.\<close>

record ci_user_yaml =
  uy_Name :: string
  uy_Groups :: string
  uy_Shell :: string
  uy_Sudo :: string
  uy_Doas :: string
  uy_PlainTextPasswd :: string
  uy_LockPasswd :: "bool option"
  uy_SSHAuthorizedKeys :: "string list"

record network_v1_subnet =
  sub_Type :: string
  sub_Address :: string
  sub_Gateway :: string
  sub_DNSNameservers :: "string list"

record network_v2_ethernet =
  eth_DHCP4 :: bool
  eth_Addresses :: "string list"
  eth_Routes :: "(string \<times> string) list"
  eth_Nameservers :: "string list option"

datatype yaml_doc =
    UserDataDoc "ci_user_yaml list" "string list" "string list" "string list"
  | MetaDataDoc string string
  | NetworkV1Doc "(string \<times> network_v1_subnet) list"
  | NetworkV2Doc "string \<rightharpoonup> network_v2_ethernet"

record convert_env =
  cv_OutOfRange :: int
  cv_KeyOrder :: "string list"
  cv_Yaml :: "yaml_doc \<Rightarrow> string go_result"
  cv_OpenRoot :: "string \<Rightarrow> go_error option"
  cv_Open :: "string \<Rightarrow> string \<Rightarrow> go_error option"
  cv_ReadAll :: "string \<Rightarrow> string \<Rightarrow> string go_result"

section \<open>Images, networks, storage\<close>

definition parseCloudImage :: "string \<Rightarrow> string \<times> string" where
  "parseCloudImage reference = (case cut_at CHR ''-'' reference of Some (a, b) \<Rightarrow> (a, b) | None \<Rightarrow> (reference, []))"

text \<open>\<open>convertImageReference\<close> returns the reference for every image type.\<close>

definition convertImageReference :: "string \<Rightarrow> string \<Rightarrow> string" where
  "convertImageReference imageType reference = reference"

definition is_linux_jail :: "string \<Rightarrow> (string \<rightharpoonup> provider_override) \<Rightarrow> bool" where
  "is_linux_jail p overrides \<longleftrightarrow>
     p = ''jail'' \<and> (case overrides ''jail'' of Some ov \<Rightarrow> po_OSType ov = ''linux'' | None \<Rightarrow> False)"

definition os_of_image :: "string \<Rightarrow> string \<Rightarrow> string \<times> string" where
  "os_of_image imageType reference =
     (if imageType = ''freebsd'' then (''freebsd'', reference)
      else if imageType = ''oci'' then (''oci'', [])
      else if imageType = ''cloud'' then parseCloudImage reference
      else if imageType = ''iso'' then (''iso'', [])
      else ([], []))"

definition convert_image ::
    "string \<Rightarrow> (string \<rightharpoonup> provider_override) \<Rightarrow> image_spec \<Rightarrow> instance_spec \<Rightarrow> instance_spec go_result" where
  "convert_image p overrides img spec =
     (if is_linux_jail p overrides then Inr (spec\<lparr>is_Arch := img_Arch img\<rparr>)
      else case ParseImageSource (img_Source img) of
        Inl e \<Rightarrow> Inl (Wrapf ''invalid image source: %w'' [] e)
      | Inr (imageType, reference) \<Rightarrow>
          Inr (spec\<lparr>is_Image := convertImageReference imageType reference, is_Arch := img_Arch img,
                    is_OSType := fst (os_of_image imageType reference), is_OSVersion := snd (os_of_image imageType reference)\<rparr>))"

definition convert_resources :: "convert_env \<Rightarrow> resource_spec \<Rightarrow> instance_spec \<Rightarrow> instance_spec go_result" where
  "convert_resources ev r spec =
     (if res_Memory r = [] then Inr (spec\<lparr>is_CPUs := res_CPU r\<rparr>)
      else case ParseMemoryToMB (cv_OutOfRange ev) (res_Memory r) of
        Inl e \<Rightarrow> Inl (Wrapf ''invalid memory size: %w'' [] e)
      | Inr mb \<Rightarrow> Inr (spec\<lparr>is_CPUs := res_CPU r, is_MemoryMB := mb\<rparr>))"

definition convertNetwork :: "m_network \<Rightarrow> network_spec go_result" where
  "convertNetwork n =
     (let ty = (if mn_Type n = [] then ''bridge'' else mn_Type n) in
      if ty \<notin> {''bridge'', ''nat'', ''macvlan'', ''vxlan'', ''none''} then
        Inl (Errorf ''unknown network type: %s'' [mn_Type n])
      else Inr \<lparr>ns_ID = mn_Name n, ns_Type = ty, ns_Bridge = mn_Bridge n, ns_BridgeFlags = mn_BridgeFlags n,
                ns_VLAN = mn_VLAN n, ns_MAC = mn_MAC n,
                ns_IPv4 =
                  (case mn_IP n of
                     None \<Rightarrow> []
                   | Some ip \<Rightarrow>
                       if ip_Mode ip = ''dhcp'' \<or> ip_Mode ip = [] then ''dhcp''
                       else if ip_Mode ip = ''static'' then ip_Address ip else []),
                ns_IPv6 = [], ns_IPPool = mn_IPPool n, ns_MTU = mn_MTU n\<rparr>)"

fun convert_networks :: "nat \<Rightarrow> m_network list \<Rightarrow> network_spec list go_result" where
  "convert_networks i [] = Inr []"
| "convert_networks i (n # ns) =
     (case convertNetwork n of
        Inl e \<Rightarrow> Inl (Wrapf ''invalid network[%d]: %w'' [itoa (int i)] e)
      | Inr x \<Rightarrow> bind_res (convert_networks (Suc i) ns) (\<lambda>xs. Inr (x # xs)))"

definition disk_size :: "convert_env \<Rightarrow> string \<Rightarrow> int go_result" where
  "disk_size ev sz =
     (if sz = [] then Inr 0
      else bind_res (ParseMemorySize (cv_OutOfRange ev) sz) (\<lambda>b. Inr (bytesToGiBRoundUp b)))"

definition empty_disk :: disk_spec where
  "empty_disk = \<lparr>ds_ID = [], ds_Type = [], ds_Path = [], ds_SizeGB = 0, ds_Bootable = False, ds_ReadOnly = False,
     ds_Cache = [], ds_DeviceName = [], ds_SectorSize = 0\<rparr>"

definition convert_root_disk :: "convert_env \<Rightarrow> root_disk_spec \<Rightarrow> disk_spec go_result" where
  "convert_root_disk ev d =
     (case disk_size ev (rd_Size d) of
        Inl e \<Rightarrow> Inl (Wrapf ''invalid root disk size: %w'' [] e)
      | Inr gb \<Rightarrow>
          Inr (empty_disk\<lparr>ds_ID := ''root'', ds_Bootable := True,
                 ds_Type := (if rd_Type d \<in> {''zvol'', ''qcow2'', ''raw'', ''physical''} then rd_Type d else []),
                 ds_Path := (if rd_Type d = ''physical'' then rd_Path d else []), ds_SizeGB := gb\<rparr>))"

fun convert_volumes :: "convert_env \<Rightarrow> nat \<Rightarrow> volume_spec list \<Rightarrow> disk_spec list go_result" where
  "convert_volumes ev i [] = Inr []"
| "convert_volumes ev i (v # vs) =
     (if vol_HostPath v \<noteq> [] then convert_volumes ev (Suc i) vs
      else case disk_size ev (vol_Size v) of
        Inl e \<Rightarrow> Inl (Wrapf ''invalid volume[%d] size: %w'' [itoa (int i)] e)
      | Inr gb \<Rightarrow>
          bind_res (convert_volumes ev (Suc i) vs)
            (\<lambda>ds. Inr (empty_disk\<lparr>ds_ID := vol_Name v, ds_ReadOnly := vol_ReadOnly v, ds_SizeGB := gb\<rparr> # ds)))"

definition convertStorage :: "convert_env \<Rightarrow> storage_spec \<Rightarrow> disk_spec list go_result" where
  "convertStorage ev s =
     bind_res (case sto_RootDisk s of None \<Rightarrow> Inr [] | Some d \<Rightarrow> bind_res (convert_root_disk ev d) (\<lambda>x. Inr [x]))
       (\<lambda>root. bind_res (convert_volumes ev 0 (sto_Volumes s)) (\<lambda>ds. Inr (root @ ds)))"

section \<open>Provider configuration\<close>

type_synonym config_map = "string \<rightharpoonup> config_value"

definition put_if :: "bool \<Rightarrow> string \<Rightarrow> config_value \<Rightarrow> config_map \<Rightarrow> config_map" where
  "put_if b k v cfg = (if b then cfg(k \<mapsto> v) else cfg)"

definition put_string :: "string \<Rightarrow> string \<Rightarrow> config_map \<Rightarrow> config_map" where
  "put_string k s = put_if (s \<noteq> []) k (CString s)"

definition string_slice :: "string list \<Rightarrow> config_value" where
  "string_slice xs = CSlice (map CString xs)"

definition put_strings :: "string \<Rightarrow> string list \<Rightarrow> config_map \<Rightarrow> config_map" where
  "put_strings k xs = put_if (xs \<noteq> []) k (string_slice xs)"

definition mount_entry :: "volume_spec \<Rightarrow> config_value" where
  "mount_entry v =
     CAnyMap [(''name'', CString (vol_Name v)), (''host_path'', CString (vol_HostPath v)),
              (''mount_path'', CString (vol_MountPath v)), (''read_only'', CBool (vol_ReadOnly v))]"

definition port_entry :: "port_config \<Rightarrow> config_value" where
  "port_entry p =
     CAnyMap [(''host'', CInt (pc_Host p)), (''container'', CInt (pc_Container p)), (''protocol'', CString (pc_Protocol p))]"

definition opt_entry :: "bool \<Rightarrow> string \<Rightarrow> config_value \<Rightarrow> (string \<times> config_value) list" where
  "opt_entry b k v = (if b then [(k, v)] else [])"

definition zfs_entries :: "volume_spec \<Rightarrow> (string \<times> config_value) list" where
  "zfs_entries v =
     (case vol_ZFS v of
        None \<Rightarrow> []
      | Some z \<Rightarrow> opt_entry (zc_Compression z \<noteq> []) ''compression'' (CString (zc_Compression z)) @
                  opt_entry (zc_Quota z \<noteq> []) ''quota'' (CString (zc_Quota z)))"

definition addStorageAndPortConfig :: "storage_spec \<Rightarrow> m_network list \<Rightarrow> config_map \<Rightarrow> config_map" where
  "addStorageAndPortConfig s networks cfg =
     (let mounts = map mount_entry (filter (\<lambda>v. vol_HostPath v \<noteq> []) (sto_Volumes s));
          cfg1 = put_if (mounts \<noteq> []) ''mounts'' (CSlice mounts) cfg;
          cfg2 = fold (\<lambda>v. put_if (zfs_entries v \<noteq> []) (''zfs_'' @ vol_Name v) (CAnyMap (zfs_entries v))) (sto_Volumes s) cfg1;
          ports = map port_entry (concat (map mn_Ports networks))
      in put_if (ports \<noteq> []) ''port_forwards'' (CSlice ports) cfg2)"

definition structuredHooks :: "hook_spec list \<Rightarrow> config_value" where
  "structuredHooks hooks =
     CSlice (map (\<lambda>h. CAnyMap ([(''type'', CString (hk_Type h)), (''commands'', string_slice (hk_Commands h))] @
                               opt_entry (hk_OnFailure h \<noteq> []) ''on_failure'' (CString (hk_OnFailure h)))) hooks)"

definition put_autostart :: "lifecycle_spec \<Rightarrow> config_map \<Rightarrow> config_map" where
  "put_autostart l cfg =
     (case lc_Autostart l of
        None \<Rightarrow> cfg
      | Some a \<Rightarrow>
          put_if (aut_Enabled a) ''autostart''
            (CAnyMap [(''enabled'', CBool (aut_Enabled a)), (''priority'', CInt (aut_Priority a)), (''delay'', CString (aut_Delay a))]) cfg)"

definition hook_entries :: "hooks_config \<Rightarrow> (string \<times> config_value) list" where
  "hook_entries h =
     opt_entry (hks_PreStart h \<noteq> []) ''pre_start'' (CString (hks_PreStart h)) @
     opt_entry (hks_PostStart h \<noteq> []) ''post_start'' (CString (hks_PostStart h)) @
     opt_entry (hks_PreStop h \<noteq> []) ''pre_stop'' (CString (hks_PreStop h)) @
     opt_entry (hks_PreCreate h \<noteq> []) ''pre_create'' (structuredHooks (hks_PreCreate h)) @
     opt_entry (hks_PostCreate h \<noteq> []) ''post_create'' (structuredHooks (hks_PostCreate h))"

definition put_hooks :: "lifecycle_spec \<Rightarrow> config_map \<Rightarrow> config_map" where
  "put_hooks l cfg =
     (case lc_Hooks l of None \<Rightarrow> cfg | Some h \<Rightarrow> put_if (hook_entries h \<noteq> []) ''hooks'' (CAnyMap (hook_entries h)) cfg)"

definition addLifecycleExtras :: "lifecycle_spec \<Rightarrow> config_map \<Rightarrow> config_map" where
  "addLifecycleExtras l cfg =
     (let cfg1 = put_if (lc_StopTimeout l > 0) ''stop_timeout'' (CInt (lc_StopTimeout l)) cfg in
      case lc_HealthCheck l of
        None \<Rightarrow> cfg1
      | Some h \<Rightarrow>
          put_if (hcs_Command h \<noteq> []) ''health_check''
            (CAnyMap ([(''command'', string_slice (hcs_Command h))] @
               opt_entry (hcs_Interval h \<noteq> []) ''interval'' (CString (hcs_Interval h)) @
               opt_entry (hcs_Timeout h \<noteq> []) ''timeout'' (CString (hcs_Timeout h)) @
               opt_entry (hcs_Retries h > 0) ''retries'' (CInt (hcs_Retries h)) @
               opt_entry (hcs_StartPeriod h \<noteq> []) ''start_period'' (CString (hcs_StartPeriod h)))) cfg1)"

definition string_map :: "(string \<times> string) list \<Rightarrow> config_value" where
  "string_map kvs = CMap (map (\<lambda>(k, v). (KStr k, CString v)) kvs)"

definition put_environment :: "(string \<times> string) list \<Rightarrow> config_map \<Rightarrow> config_map" where
  "put_environment env = put_if (env \<noteq> []) ''environment'' (string_map env)"

definition copy_parameters :: "(string \<times> config_value) list \<Rightarrow> config_map \<Rightarrow> config_map" where
  "copy_parameters ps cfg = fold (\<lambda>(k, v) c. c(k \<mapsto> v)) ps cfg"

text \<open>The overrides of a workload and of an instance of a stack, each in the order its function sets them.\<close>

definition workload_overrides :: "provider_override \<Rightarrow> config_map \<Rightarrow> config_map" where
  "workload_overrides ov cfg =
     put_strings ''command'' (po_Command ov)
    (put_string ''cpu'' (po_CPU ov)
    (put_string ''machine'' (po_Machine ov)
    (put_string ''disk_driver'' (po_DiskDriver ov)
    (put_string ''vnc'' (po_VNC ov)
    (put_strings ''passthrough'' (po_Passthrough ov)
    (put_string ''console_type'' (po_ConsoleType ov)
    (put_string ''bootloader'' (po_Bootloader ov) (copy_parameters (po_Parameters ov) cfg))))))))"

definition instance_overrides :: "provider_override \<Rightarrow> config_map \<Rightarrow> config_map" where
  "instance_overrides ov cfg =
     put_strings ''command'' (po_Command ov)
    (put_string ''machine'' (po_Machine ov)
    (put_string ''cpu'' (po_CPU ov)
    (put_string ''disk_driver'' (po_DiskDriver ov)
    (put_string ''vnc'' (po_VNC ov)
    (put_strings ''passthrough'' (po_Passthrough ov)
    (put_string ''console_type'' (po_ConsoleType ov)
    (put_string ''bootloader'' (po_Bootloader ov) (copy_parameters (po_Parameters ov) cfg))))))))"

definition os_overrides :: "provider_override option \<Rightarrow> instance_spec \<Rightarrow> instance_spec" where
  "os_overrides ov spec =
     (case ov of
        None \<Rightarrow> spec
      | Some x \<Rightarrow>
          spec\<lparr>is_OSType := (if po_OSType x = [] then is_OSType spec else po_OSType x),
               is_OSVersion := (if po_OSVersion x = [] then is_OSVersion spec else po_OSVersion x)\<rparr>)"

definition convertProviderConfig :: "workload_manifest \<Rightarrow> config_map" where
  "convertProviderConfig m =
     (let cfg = (case wm_ProviderOverrides m (wm_Provider m) of None \<Rightarrow> Map.empty | Some ov \<Rightarrow> workload_overrides ov Map.empty)
      in put_environment (wm_Environment m)
        (addLifecycleExtras (wm_Lifecycle m)
        (put_hooks (wm_Lifecycle m)
        (put_autostart (wm_Lifecycle m)
        (addStorageAndPortConfig (wm_Storage m) (wm_Networks m) cfg)))))"

definition instance_provider_config :: "m_instance \<Rightarrow> config_map" where
  "instance_provider_config i =
     (let cfg = (case mi_ProviderOverrides i (mi_Provider i) of None \<Rightarrow> Map.empty | Some ov \<Rightarrow> instance_overrides ov Map.empty)
      in addLifecycleExtras (mi_Lifecycle i)
        (put_hooks (mi_Lifecycle i)
        (put_autostart (mi_Lifecycle i)
        (put_environment (mi_Environment i)
        (addStorageAndPortConfig (mi_Storage i) (mi_Networks i) cfg)))))"

definition list_config :: "convert_env \<Rightarrow> config_map \<Rightarrow> (string \<times> config_value) list" where
  "list_config ev cfg = List.map_filter (\<lambda>k. map_option (Pair k) (cfg k)) (cv_KeyOrder ev)"

section \<open>Cloud-init documents\<close>

definition user_yaml :: "cloud_init_user \<Rightarrow> ci_user_yaml" where
  "user_yaml u =
     \<lparr>uy_Name = cu_Name u, uy_Groups = join_strings '', '' (cu_Groups u), uy_Shell = cu_Shell u, uy_Sudo = cu_Sudo u,
      uy_Doas = cu_Doas u, uy_PlainTextPasswd = cu_PlainTextPasswd u,
      uy_LockPasswd = (if cu_LockPasswd u then Some True else if cu_PlainTextPasswd u \<noteq> [] then Some False else None),
      uy_SSHAuthorizedKeys = cu_SSHAuthorizedKeys u\<rparr>"

definition buildUserDataYAML :: "convert_env \<Rightarrow> ci_config \<Rightarrow> string" where
  "buildUserDataYAML ev c =
     ''#cloud-config'' @ [CHR 0x0A] @
     (if cc_Users c \<noteq> [] \<or> cc_SSHAuthorizedKeys c \<noteq> [] \<or> cc_Packages c \<noteq> [] \<or> cc_RunCMD c \<noteq> [] then
        (case cv_Yaml ev (UserDataDoc (map user_yaml (cc_Users c)) (cc_SSHAuthorizedKeys c) (cc_Packages c) (cc_RunCMD c)) of
           Inr out \<Rightarrow> out
         | Inl _ \<Rightarrow> [])
      else []) @
     cc_CustomUserData c"

definition buildMetaDataYAML :: "convert_env \<Rightarrow> ci_config \<Rightarrow> string" where
  "buildMetaDataYAML ev c =
     (case cv_Yaml ev (MetaDataDoc (cc_InstanceID c) (cc_LocalHostname c)) of Inr out \<Rightarrow> out | Inl _ \<Rightarrow> [])"

definition v1_subnet :: "ci_network \<Rightarrow> network_v1_subnet" where
  "v1_subnet n =
     (if cn_Type n = ''dhcp'' then \<lparr>sub_Type = ''dhcp4'', sub_Address = [], sub_Gateway = [], sub_DNSNameservers = []\<rparr>
      else \<lparr>sub_Type = ''static'', sub_Address = cn_Address n, sub_Gateway = cn_Gateway n, sub_DNSNameservers = cn_DNS n\<rparr>)"

definition v2_ethernet :: "ci_network \<Rightarrow> network_v2_ethernet" where
  "v2_ethernet n =
     (if cn_Type n = ''dhcp'' then \<lparr>eth_DHCP4 = True, eth_Addresses = [], eth_Routes = [], eth_Nameservers = None\<rparr>
      else \<lparr>eth_DHCP4 = False, eth_Addresses = [cn_Address n],
            eth_Routes = (if cn_Gateway n \<noteq> [] then [(''default'', cn_Gateway n)] else []),
            eth_Nameservers = (if cn_DNS n \<noteq> [] then Some (cn_DNS n) else None)\<rparr>)"

definition buildNetworkConfigYAML :: "convert_env \<Rightarrow> ci_config \<Rightarrow> bool \<Rightarrow> string" where
  "buildNetworkConfigYAML ev c isFreeBSD =
     (if list_all (\<lambda>n. cn_Type n = ''dhcp'') (cc_Networks c) then []
      else
        let doc = (if isFreeBSD then NetworkV1Doc (map (\<lambda>n. (cn_Name n, v1_subnet n)) (cc_Networks c))
                   else NetworkV2Doc (fold (\<lambda>n m. m(cn_Name n \<mapsto> v2_ethernet n)) (cc_Networks c) Map.empty))
        in case cv_Yaml ev doc of Inr out \<Rightarrow> out | Inl _ \<Rightarrow> [])"

definition generateCloudInitYAML :: "convert_env \<Rightarrow> ci_config \<Rightarrow> instance_spec \<Rightarrow> instance_spec" where
  "generateCloudInitYAML ev c spec =
     spec\<lparr>is_CloudInit := Some \<lparr>ci_UserData = buildUserDataYAML ev c, ci_MetaData = buildMetaDataYAML ev c,
       ci_Network = buildNetworkConfigYAML ev c (is_OSType spec = ''freebsd'')\<rparr>\<rparr>"

section \<open>User data from a file\<close>

text \<open>\<open>filepath.Clean\<close>.\<close>

definition clean_relative_step :: "string \<Rightarrow> string list \<Rightarrow> string list" where
  "clean_relative_step c acc =
     (if c = ''.'' then acc
      else if c = ''..'' \<and> acc \<noteq> [] \<and> last acc \<noteq> ''..'' then butlast acc
      else acc @ [c])"

definition Clean :: "string \<Rightarrow> string" where
  "Clean path =
     (if IsAbs path then abs_string (clean_comps (comps path))
      else let cs = fold clean_relative_step (comps path) [] in if cs = [] then ''.'' else join_with slash cs)"

definition relative_to :: "string \<Rightarrow> string \<Rightarrow> string option" where
  "relative_to root cleaned =
     (if \<not> IsAbs cleaned then Some cleaned
      else if \<not> IsAbs root then None
      else Some (Rel (clean_comps (comps root)) (comps cleaned)))"

definition readUserDataFile :: "convert_env \<Rightarrow> string \<Rightarrow> string \<Rightarrow> string go_result" where
  "readUserDataFile ev path root =
     (let cleaned = Clean path in
      if Contains cleaned ''..'' then Inl (Errorf ''path traversal detected in user_data_file: %s'' [path])
      else if has_nul path then Inl (Errorf ''null byte in user_data_file path: %s'' [path])
      else if root = [] then Inl (Errorf ''user_data_file is not accepted here: no cloud-init directory is configured'' [])
      else case cv_OpenRoot ev root of
        Some e \<Rightarrow> Inl (Wrapf ''cannot open the cloud-init directory %s: %w'' [root] e)
      | None \<Rightarrow>
          (case relative_to root cleaned of
             None \<Rightarrow> Inl (Errorf ''user_data_file %s must be under %s'' [path, root])
           | Some rel \<Rightarrow>
               if rel = ''..'' \<or> HasPrefix rel ''../'' then Inl (Errorf ''user_data_file %s must be under %s'' [path, root])
               else case cv_Open ev root rel of
                 Some e \<Rightarrow> Inl (Wrapf ''failed to read user_data_file %s (it must be under %s): %w'' [path, root] e)
               | None \<Rightarrow>
                   (case cv_ReadAll ev root rel of
                      Inl e \<Rightarrow> Inl (Wrapf ''failed to read user_data_file %s: %w'' [path] e)
                    | Inr data \<Rightarrow> Inr data)))"

section \<open>Cloud-init of an instance\<close>

definition if_name :: "nat \<Rightarrow> string" where
  "if_name i = (if i = 0 then ''ens3'' else ''eth'' @ itoa (int i))"

text \<open>The address, gateway and servers of a network, by the mode of its address.\<close>

definition net_address :: "m_network \<Rightarrow> string \<times> string \<times> string list" where
  "net_address n =
     (case mn_IP n of
        None \<Rightarrow> (''dhcp'', [], [])
      | Some ip \<Rightarrow>
          if ip_Mode ip = ''dhcp'' \<or> ip_Mode ip = [] then (''dhcp'', [], [])
          else if ip_Mode ip = ''static'' then (ip_Address ip, ip_Gateway ip, ip_DNS ip)
          else ([], [], []))"

definition auto_network :: "nat \<Rightarrow> m_network \<Rightarrow> ci_network" where
  "auto_network i n =
     (case net_address n of (ipv4, gateway, dns) \<Rightarrow> NetworkFromProviderSpec (if_name i) ipv4 gateway dns (mn_MAC n))"

definition spec_network :: "nat \<Rightarrow> m_network \<Rightarrow> ci_network list" where
  "spec_network i n =
     (if (case mn_IP n of Some ip \<Rightarrow> ip_Mode ip = ''none'' | None \<Rightarrow> False) then []
      else case net_address n of (ipv4, gateway, dns) \<Rightarrow> [NetworkFromProviderSpec (if_name i) ipv4 gateway dns []])"

definition needs_cloud_init :: "string \<Rightarrow> string \<Rightarrow> bool" where
  "needs_cloud_init osType imageSource \<longleftrightarrow>
     osType \<in> {''linux'', ''ubuntu'', ''debian'', ''centos'', ''fedora'', ''alpine'', ''rocky'', ''almalinux'', ''arch'', ''opensuse'', ''freebsd''} \<or>
     HasPrefix imageSource ''cloud:''"

definition override_ssh_keys :: "provider_override option \<Rightarrow> string list" where
  "override_ssh_keys ov =
     (case ov of
        None \<Rightarrow> []
      | Some x \<Rightarrow>
          (case map_of (po_Parameters x) ''ssh_authorized_keys'' of
             Some (CAnyList ks) \<Rightarrow> List.map_filter (\<lambda>k. case k of CString s \<Rightarrow> Some s | _ \<Rightarrow> None) ks
           | _ \<Rightarrow> []))"

definition autoCloudInitForVM ::
    "convert_env \<Rightarrow> string \<Rightarrow> string \<Rightarrow> m_network list \<Rightarrow> (string \<rightharpoonup> provider_override) \<Rightarrow> instance_spec \<Rightarrow> instance_spec" where
  "autoCloudInitForVM ev p imageSource networks overrides spec =
     (if \<not> needs_cloud_init (is_OSType spec) imageSource then spec
      else if (case is_CloudInit spec of None \<Rightarrow> False | Some c \<Rightarrow> ci_UserData c \<noteq> [] \<or> ci_MetaData c \<noteq> []) then spec
      else generateCloudInitYAML ev
        (ConfigFromSpec (is_Name spec) (is_Name spec) (map2 auto_network [0..<length networks] networks)
          (override_ssh_keys (overrides p))) spec)"

definition custom_user_data :: "convert_env \<Rightarrow> string \<Rightarrow> cloud_init_spec \<Rightarrow> string go_result" where
  "custom_user_data ev root c =
     (if cis_UserDataFile c \<noteq> [] then readUserDataFile ev (cis_UserDataFile c) root else Inr (cis_UserData c))"

definition generateFromCloudInitSpec ::
    "convert_env \<Rightarrow> string \<Rightarrow> cloud_init_spec \<Rightarrow> m_network list \<Rightarrow> instance_spec \<Rightarrow> instance_spec go_result" where
  "generateFromCloudInitSpec ev root c networks spec =
     (case custom_user_data ev root c of
        Inl e \<Rightarrow> Inl e
      | Inr custom \<Rightarrow>
          Inr (generateCloudInitYAML ev
            \<lparr>cc_InstanceID = is_Name spec,
             cc_LocalHostname = (if cis_Hostname c \<noteq> [] then cis_Hostname c else is_Name spec),
             cc_Networks = concat (map2 spec_network [0..<length networks] networks),
             cc_Users = cis_Users c, cc_Packages = cis_Packages c, cc_RunCMD = cis_RunCMD c,
             cc_SSHAuthorizedKeys = cis_SSHAuthorizedKeys c, cc_CustomUserData = custom\<rparr> spec))"

definition providerAppliesCloudInit :: "string \<Rightarrow> bool" where
  "providerAppliesCloudInit p \<longleftrightarrow> p = ''bhyve'' \<or> p = ''qemu''"

definition errCloudInitUnsupported :: "string \<Rightarrow> go_error" where
  "errCloudInitUnsupported p =
     Errorf ''provider %q cannot apply a cloud_init block: only bhyve and qemu can, because cloud-init reaches the guest through a seed image; use lifecycle.hooks.post_create to provision this instance'' [p]"

definition generateCloudInitForVM ::
    "convert_env \<Rightarrow> string \<Rightarrow> workload_manifest \<Rightarrow> instance_spec \<Rightarrow> instance_spec go_result" where
  "generateCloudInitForVM ev root m spec =
     (let declared = (case wm_CloudInit m of Some c \<Rightarrow> cis_Enabled c = Some True | None \<Rightarrow> False) in
      if \<not> providerAppliesCloudInit (wm_Provider m) then
        (if declared then Inl (errCloudInitUnsupported (wm_Provider m)) else Inr spec)
      else if declared then generateFromCloudInitSpec ev root (the (wm_CloudInit m)) (wm_Networks m) spec
      else Inr (autoCloudInitForVM ev (wm_Provider m) (img_Source (wm_Image m)) (wm_Networks m) (wm_ProviderOverrides m) spec))"

definition instance_cloud_init ::
    "convert_env \<Rightarrow> string \<Rightarrow> m_instance \<Rightarrow> instance_spec \<Rightarrow> instance_spec go_result" where
  "instance_cloud_init ev root i spec =
     (let enabled = (case mi_CloudInit i of Some c \<Rightarrow> cis_Enabled c | None \<Rightarrow> None) in
      if enabled = Some False then Inr spec
      else if enabled = Some True then
        (if \<not> providerAppliesCloudInit (mi_Provider i) then Inl (errCloudInitUnsupported (mi_Provider i))
         else case generateFromCloudInitSpec ev root (the (mi_CloudInit i)) (mi_Networks i) spec of
           Inl e \<Rightarrow> Inl (Wrapf ''invalid cloud-init: %w'' [] e)
         | Inr s \<Rightarrow> Inr s)
      else if providerAppliesCloudInit (mi_Provider i) then
        Inr (autoCloudInitForVM ev (mi_Provider i) (img_Source (mi_Image i)) (mi_Networks i) (mi_ProviderOverrides i) spec)
      else Inr spec)"

section \<open>The conversion\<close>

definition empty_spec :: "string \<Rightarrow> instance_spec" where
  "empty_spec name =
     \<lparr>is_Name = name, is_Description = [], is_CPUs = 0, is_MemoryMB = 0, is_MaxProc = 0, is_ReadBPS = 0, is_WriteBPS = 0,
      is_ReadIOPS = 0, is_WriteIOPS = 0, is_Image = [], is_OSType = [], is_OSVersion = [], is_Arch = [],
      is_CloudInit = None, is_Bootloader = [], is_Disks = [], is_Networks = [], is_ProviderConfig = [],
      is_Labels = [], is_Annotations = []\<rparr>"

definition convert_hardware ::
    "convert_env \<Rightarrow> string \<Rightarrow> (string \<rightharpoonup> provider_override) \<Rightarrow> resource_spec \<Rightarrow> image_spec \<Rightarrow> m_network list \<Rightarrow> storage_spec \<Rightarrow>
     instance_spec \<Rightarrow> instance_spec go_result" where
  "convert_hardware ev p overrides res img networks storage spec =
     bind_res (convert_resources ev res spec) (\<lambda>s1.
     bind_res (convert_image p overrides img s1) (\<lambda>s2.
     bind_res (convert_networks 0 networks) (\<lambda>nets.
     (case convertStorage ev storage of
        Inl e \<Rightarrow> Inl (Wrapf ''invalid storage: %w'' [] e)
      | Inr disks \<Rightarrow> Inr (s2\<lparr>is_Networks := nets, is_Disks := disks\<rparr>)))))"

definition check_spec :: "string \<Rightarrow> string \<Rightarrow> instance_spec \<Rightarrow> instance_spec go_result" where
  "check_spec fmt name spec =
     (case ValidateInstanceSpec spec of Some e \<Rightarrow> Inl (Wrapf fmt [name] e) | None \<Rightarrow> Inr spec)"

definition ToInstanceSpec :: "convert_env \<Rightarrow> string \<Rightarrow> workload_manifest \<Rightarrow> instance_spec go_result" where
  "ToInstanceSpec ev root m =
     bind_res (convert_hardware ev (wm_Provider m) (wm_ProviderOverrides m) (wm_Resources m) (wm_Image m) (wm_Networks m) (wm_Storage m)
       ((empty_spec (wm_Name m))\<lparr>is_Description := wm_Description m, is_Labels := wm_Labels m, is_Annotations := wm_Annotations m\<rparr>))
     (\<lambda>s1. bind_res (generateCloudInitForVM ev root m
        ((os_overrides (wm_ProviderOverrides m (wm_Provider m)) s1)\<lparr>is_ProviderConfig := list_config ev (convertProviderConfig m)\<rparr>))
       (\<lambda>s2. check_spec ''workload %s: %w'' (wm_Name m) s2))"

definition instanceConfigToSpec :: "convert_env \<Rightarrow> string \<Rightarrow> m_instance \<Rightarrow> instance_spec go_result" where
  "instanceConfigToSpec ev root i =
     bind_res (convert_hardware ev (mi_Provider i) (mi_ProviderOverrides i) (mi_Resources i) (mi_Image i) (mi_Networks i) (mi_Storage i)
       (empty_spec (mi_Name i)))
     (\<lambda>s1. bind_res (instance_cloud_init ev root i
        ((os_overrides (mi_ProviderOverrides i (mi_Provider i)) s1)\<lparr>is_ProviderConfig := list_config ev (instance_provider_config i)\<rparr>))
       (\<lambda>s2. check_spec ''instance %s: %w'' (mi_Name i) s2))"

fun to_specs :: "convert_env \<Rightarrow> string \<Rightarrow> nat \<Rightarrow> m_instance list \<Rightarrow> instance_spec list go_result" where
  "to_specs ev root k [] = Inr []"
| "to_specs ev root k (i # is) =
     (case instanceConfigToSpec ev root i of
        Inl e \<Rightarrow> Inl (Wrapf ''instance[%d] (%s): %w'' [itoa (int k), mi_Name i] e)
      | Inr s \<Rightarrow> bind_res (to_specs ev root (Suc k) is) (\<lambda>ss. Inr (s # ss)))"

definition ToInstanceSpecs :: "convert_env \<Rightarrow> string \<Rightarrow> stack_doc \<Rightarrow> instance_spec list go_result" where
  "ToInstanceSpecs ev root m = to_specs ev root 0 (sd_Instances m)"

definition ToCloudInitConfig ::
    "convert_env \<Rightarrow> cloud_init_spec option \<Rightarrow> string \<Rightarrow> string \<Rightarrow> m_network list \<Rightarrow> string \<Rightarrow> ci_config option go_result" where
  "ToCloudInitConfig ev spec instanceID hostname networks root =
     (case spec of
        None \<Rightarrow> Inr None
      | Some c \<Rightarrow>
          if cis_Enabled c \<noteq> Some True then Inr None
          else case custom_user_data ev root c of
            Inl e \<Rightarrow> Inl e
          | Inr custom \<Rightarrow>
              Inr (Some \<lparr>cc_InstanceID = instanceID,
                cc_LocalHostname = (if cis_Hostname c \<noteq> [] then cis_Hostname c else hostname),
                cc_Networks = concat (map2 (\<lambda>i n.
                  case mn_IP n of
                    None \<Rightarrow> []
                  | Some ip \<Rightarrow>
                      if ip_Mode ip = ''none'' then []
                      else case net_address n of (ipv4, gateway, dns) \<Rightarrow>
                        [NetworkFromProviderSpec (if mn_Name n = [] then ''eth'' @ itoa (int i) else mn_Name n) ipv4 gateway dns []])
                  [0..<length networks] networks),
                cc_Users = cis_Users c, cc_Packages = cis_Packages c, cc_RunCMD = cis_RunCMD c,
                cc_SSHAuthorizedKeys = cis_SSHAuthorizedKeys c, cc_CustomUserData = custom\<rparr>))"

text \<open>\<open>GetMounts\<close> and \<open>GetPortForwards\<close>: name, host path, mount path, read only; and the ports.\<close>

definition GetMounts :: "workload_manifest \<Rightarrow> (string \<times> string \<times> string \<times> bool) list" where
  "GetMounts m =
     map (\<lambda>v. (vol_Name v, vol_HostPath v, vol_MountPath v, vol_ReadOnly v)) (filter (\<lambda>v. vol_HostPath v \<noteq> []) (sto_Volumes (wm_Storage m)))"

definition GetPortForwards :: "workload_manifest \<Rightarrow> port_config list" where
  "GetPortForwards m = concat (map mn_Ports (wm_Networks m))"

end
