(* ===== verification/Manifest_Convert_Thms.thy ===== *)
theory Manifest_Convert_Thms
  imports Manifest_Convert Manifest_Thms
begin

text \<open>
  Theorems of the conversion: a workload and an instance of a stack with the same content become the same specification, a file
  of user data is read inside its directory only, and a disk is no smaller than the manifest asks for.
\<close>

section \<open>Workloads and instances of stacks\<close>

definition instance_of :: "workload_manifest \<Rightarrow> m_instance" where
  "instance_of m =
     \<lparr>mi_Name = wm_Name m, mi_Provider = wm_Provider m, mi_Image = wm_Image m, mi_Resources = wm_Resources m,
      mi_Networks = wm_Networks m, mi_Storage = wm_Storage m, mi_CloudInit = wm_CloudInit m, mi_Lifecycle = wm_Lifecycle m,
      mi_Environment = wm_Environment m, mi_ProviderOverrides = wm_ProviderOverrides m, mi_DependsOn = None\<rparr>"

lemmas put_defs = put_if_def put_string_def put_strings_def put_environment_def put_autostart_def put_hooks_def addLifecycleExtras_def

lemma overrides_agree: "workload_overrides ov cfg = instance_overrides ov cfg"
  by (auto simp: workload_overrides_def instance_overrides_def put_defs fun_upd_twist)

lemma environment_commutes:
  "put_environment e (addLifecycleExtras l (put_hooks l (put_autostart l cfg))) =
   addLifecycleExtras l (put_hooks l (put_autostart l (put_environment e cfg)))"
proof -
  have hooks: "put_environment e (put_hooks l c) = put_hooks l (put_environment e c)" for c
    by (auto simp: put_defs fun_upd_twist split: option.splits)
  have auto_start: "put_environment e (put_autostart l c) = put_autostart l (put_environment e c)" for c
    by (auto simp: put_defs fun_upd_twist split: option.splits)
  have extras: "put_environment e (addLifecycleExtras l c) = addLifecycleExtras l (put_environment e c)" for c
    by (auto simp: put_defs fun_upd_twist Let_def split: option.splits)
  show ?thesis by (simp only: extras hooks auto_start)
qed

lemma config_agrees: "instance_provider_config (instance_of m) = convertProviderConfig m"
  by (simp add: instance_provider_config_def convertProviderConfig_def instance_of_def Let_def overrides_agree environment_commutes
      split: option.splits)

lemma check_spec_Inr [simp]: "check_spec f n s = Inr t \<longleftrightarrow> ValidateInstanceSpec s = None \<and> t = s"
  by (auto simp: check_spec_def split: option.splits)

lemma bind_res_Inr: "bind_res x f = Inr y \<longleftrightarrow> (\<exists>a. x = Inr a \<and> f a = Inr y)"
  by (cases x) (auto simp: bind_res_def)

definition refuses_cloud_init :: "workload_manifest \<Rightarrow> bool" where
  "refuses_cloud_init m \<longleftrightarrow> (case wm_CloudInit m of Some c \<Rightarrow> cis_Enabled c = Some False | None \<Rightarrow> False)"

lemma cloud_init_agrees:
  assumes "\<not> refuses_cloud_init m"
  shows "generateCloudInitForVM ev root m s = Inr t \<longleftrightarrow> instance_cloud_init ev root (instance_of m) s = Inr t"
proof (cases "wm_CloudInit m")
  case None
  then show ?thesis by (simp add: generateCloudInitForVM_def instance_cloud_init_def instance_of_def Let_def)
next
  case (Some c)
  then consider "cis_Enabled c = None" | "cis_Enabled c = Some True" using assms by (cases "cis_Enabled c") (auto simp: refuses_cloud_init_def)
  then show ?thesis using Some
    by cases (auto simp: generateCloudInitForVM_def instance_cloud_init_def instance_of_def Let_def split: sum.splits)
qed

text \<open>C39. A workload without description, labels and annotations, whose cloud-init section does not refuse cloud-init, and the
  instance of a stack with the same content become the same specification, or both are refused.\<close>

theorem workload_stack_parity:
  assumes "wm_Description m = []" "wm_Labels m = []" "wm_Annotations m = []" "\<not> refuses_cloud_init m"
  shows "ToInstanceSpec ev root m = Inr spec \<longleftrightarrow> instanceConfigToSpec ev root (instance_of m) = Inr spec"
proof -
  let ?base = "empty_spec (wm_Name m)"
  have base: "?base\<lparr>is_Description := [], is_Labels := [], is_Annotations := []\<rparr> = ?base" by (simp add: empty_spec_def)
  have fields: "mi_Name (instance_of m) = wm_Name m" "mi_Provider (instance_of m) = wm_Provider m"
    "mi_ProviderOverrides (instance_of m) = wm_ProviderOverrides m" "mi_Resources (instance_of m) = wm_Resources m"
    "mi_Image (instance_of m) = wm_Image m" "mi_Networks (instance_of m) = wm_Networks m" "mi_Storage (instance_of m) = wm_Storage m"
    by (simp_all add: instance_of_def)
  show ?thesis
    unfolding ToInstanceSpec_def instanceConfigToSpec_def fields config_agrees assms(1-3) base bind_res_Inr check_spec_Inr
      cloud_init_agrees [OF assms(4)] ..
qed

text \<open>
  The exception is real: on a virtual machine whose image takes cloud-init, a workload that says \<open>enabled = false\<close> gets seed
  data, the instance of a stack does not.
\<close>

lemma refused_cloud_init_generated:
  assumes "wm_CloudInit m = Some c" "cis_Enabled c = Some False" "providerAppliesCloudInit (wm_Provider m)"
    "needs_cloud_init (is_OSType s) (img_Source (wm_Image m))" "is_CloudInit s = None"
  shows "(\<exists>t ci. generateCloudInitForVM ev root m s = Inr t \<and> is_CloudInit t = Some ci) \<and>
    instance_cloud_init ev root (instance_of m) s = Inr s"
  using assms by (auto simp: generateCloudInitForVM_def instance_cloud_init_def instance_of_def Let_def autoCloudInitForVM_def generateCloudInitYAML_def)

text \<open>A network without an address is left out of explicit cloud-init and configured by DHCP in the automatic one.\<close>

lemma none_network_becomes_dhcp:
  "mn_IP n = Some ip \<Longrightarrow> ip_Mode ip = ''none'' \<Longrightarrow> spec_network i n = [] \<and> cn_Type (auto_network i n) = ''dhcp''"
  by (simp add: spec_network_def auto_network_def net_address_def NetworkFromProviderSpec_def)

section \<open>Disk sizes\<close>

lemma gib_exact:
  assumes "0 < n" "n \<le> 2 ^ 63 - 2 ^ 30"
  shows "bytesToGiBRoundUp n = (n + 2 ^ 30 - 1) div 2 ^ 30"
proof -
  have "wrap_int64 (n + 2 ^ 30 - 1) = n + 2 ^ 30 - 1" using assms by (simp add: wrap_int64_def)
  then show ?thesis using assms(1) by (simp add: bytesToGiBRoundUp_def go_div_def)
qed

lemma gib_bounds:
  assumes "0 \<le> n" "n \<le> 2 ^ 63 - 2 ^ 30"
  shows "n \<le> bytesToGiBRoundUp n * 2 ^ 30" "bytesToGiBRoundUp n * 2 ^ 30 < n + 2 ^ 30"
proof -
  have "n \<le> bytesToGiBRoundUp n * 2 ^ 30 \<and> bytesToGiBRoundUp n * 2 ^ 30 < n + 2 ^ 30"
  proof (cases "n = 0")
    case False
    then have "bytesToGiBRoundUp n = (n + 2 ^ 30 - 1) div 2 ^ 30" using assms by (intro gib_exact) auto
    then show ?thesis by auto
  qed (simp add: bytesToGiBRoundUp_def)
  then show "n \<le> bytesToGiBRoundUp n * 2 ^ 30" "bytesToGiBRoundUp n * 2 ^ 30 < n + 2 ^ 30" by blast+
qed

text \<open>A size in the last gibibyte below \<open>2\<^sup>6\<^sup>3\<close> wraps around to a disk of negative size.\<close>

lemma gib_wraps: "2 ^ 63 - 2 ^ 30 < n \<Longrightarrow> n < 2 ^ 63 \<Longrightarrow> bytesToGiBRoundUp n < 0"
proof -
  assume n: "2 ^ 63 - 2 ^ 30 < n" "n < 2 ^ 63"
  define x where "x = n + 2 ^ 30 - 1 + 2 ^ 63"
  have "x mod 2 ^ 64 = (x - 2 ^ 64) mod 2 ^ 64" by (rule minus_mod_self2 [symmetric])
  also have "\<dots> = x - 2 ^ 64" using n by (intro mod_pos_pos_trivial) (simp_all add: x_def)
  finally have "(n + 2 ^ 30 - 1 + 2 ^ 63) mod 2 ^ 64 = n + 2 ^ 30 - 1 + 2 ^ 63 - 2 ^ 64" by (simp only: x_def)
  then have w: "wrap_int64 (n + 2 ^ 30 - 1) = n + 2 ^ 30 - 1 - 2 ^ 64" by (simp add: wrap_int64_def)
  have "2 ^ 30 \<le> - (n + 2 ^ 30 - 1 - 2 ^ 64)" using n by simp
  then have "1 \<le> - (n + 2 ^ 30 - 1 - 2 ^ 64) div 2 ^ 30" by (simp add: pos_imp_zdiv_pos_iff zdiv_mono1 [of "2 ^ 30" _ "2 ^ 30", simplified])
  then show ?thesis using n w by (simp add: bytesToGiBRoundUp_def go_div_def)
qed

text \<open>A root disk whose size is a whole number of units below \<open>2\<^sup>5\<^sup>3\<close> bytes is converted to the fewest gibibytes that hold it.\<close>

theorem root_disk_large_enough:
  assumes "u \<in> set size_units" "unit_multiplier (to_upper u) = Some m" "int n * m < 2 ^ 53" "rd_Size d = itoa_nat n @ u"
  shows "\<exists>disk. convert_root_disk ev d = Inr disk \<and> int n * m \<le> ds_SizeGB disk * 2 ^ 30 \<and> ds_SizeGB disk * 2 ^ 30 < int n * m + 2 ^ 30"
proof -
  have m: "m \<ge> 1" using assms(2) by (auto simp: unit_multiplier_def split: if_splits)
  have "ParseMemorySize (cv_OutOfRange ev) (rd_Size d) = Inr (int n * m)" using size_exact [OF assms(1-3)] assms(4) by simp
  then have "disk_size ev (rd_Size d) = Inr (bytesToGiBRoundUp (int n * m))" using assms(4) by (simp add: disk_size_def)
  moreover have "0 \<le> int n * m" "int n * m \<le> 2 ^ 63 - 2 ^ 30" using m assms(3) by simp_all
  ultimately show ?thesis using gib_bounds [of "int n * m"] by (simp add: convert_root_disk_def empty_disk_def)
qed

section \<open>Files of user data\<close>

lemma split_on_sublist: "c \<in> set (split_on d s) \<Longrightarrow> sublist c s"
proof (induction s arbitrary: c)
  case (Cons x s)
  obtain p ps where ps: "split_on d s = p # ps" by (meson neq_Nil_conv split_on_nonempty)
  have "prefix p s" using join_split_on [of d s] ps by (cases ps) (auto simp: join_with_Cons)
  then have "sublist (x # p) (x # s)" by (intro prefix_imp_sublist) simp
  moreover have "sublist c (x # s)" if "c \<in> set (split_on d s)" using Cons.IH [OF that] by (simp add: sublist_Cons_right)
  ultimately show ?case using Cons.prems ps by (auto split: if_splits)
qed simp

lemma comps_sublist: "c \<in> set (comps s) \<Longrightarrow> sublist c s"
  by (auto simp: comps_def dest: split_on_sublist)

lemma comps_join:
  assumes "\<forall>c \<in> set cs. c \<noteq> [] \<and> slash \<notin> set c"
  shows "comps (join_with slash cs) = cs" "comps (slash # join_with slash cs) = cs"
proof -
  have "filter (\<lambda>c. c \<noteq> []) (split_on slash (join_with slash cs)) = cs"
    using assms split_join_on [of cs slash] by (cases "cs = []") (auto simp: filter_id_conv)
  then show "comps (join_with slash cs) = cs" "comps (slash # join_with slash cs) = cs" by (simp_all add: comps_def)
qed

lemma join_not_abs: "\<forall>c \<in> set cs. c \<noteq> [] \<and> slash \<notin> set c \<Longrightarrow> \<not> IsAbs (join_with slash cs)"
proof (cases cs)
  case (Cons c r)
  assume ok: "\<forall>c \<in> set cs. c \<noteq> [] \<and> slash \<notin> set c"
  obtain x y where c: "c = x # y" "x \<noteq> slash" using ok Cons by (cases c) auto
  have "\<exists>z. join_with slash cs = x # z" using Cons c by (cases r) auto
  then show ?thesis using c(2) by (auto simp: IsAbs_def slash_def)
qed (simp add: IsAbs_def)

lemma plain_ok: "list_all plain cs \<Longrightarrow> \<forall>c \<in> set cs. c \<noteq> [] \<and> slash \<notin> set c"
  by (auto simp: list_all_iff plain_def)

lemma clean_relative_set: "set (fold clean_relative_step cs acc) \<subseteq> set acc \<union> set cs"
proof (induction cs arbitrary: acc)
  case (Cons c cs)
  have "set (clean_relative_step c acc) \<subseteq> insert c (set acc)"
    by (auto simp: clean_relative_step_def dest: in_set_butlastD)
  then show ?case using Cons.IH [of "clean_relative_step c acc"] by auto
qed simp

lemma clean_comps_plain: "list_all plain (clean_comps (comps s))"
  unfolding clean_comps_def using comps_ok by (intro clean_plain) auto

text \<open>The name that is opened, for an absolute and for a relative path.\<close>

lemma relative_abs:
  assumes "IsAbs path" "relative_to root (Clean path) = Some rel" "\<not> (rel = ''..'' \<or> HasPrefix rel ''../'')"
  shows "\<not> IsAbs rel \<and> ''..'' \<notin> set (comps rel) \<and> prefix (clean_comps (comps root)) (clean_comps (comps path))"
proof -
  let ?b = "clean_comps (comps root)" and ?t = "clean_comps (comps path)"
  note pl = clean_comps_plain [of path] clean_comps_plain [of root]
  have clean: "Clean path = slash # join_with slash ?t" using assms(1) by (simp add: Clean_def abs_string_def)
  then have "IsAbs (Clean path)" "comps (Clean path) = ?t" using comps_join(2) [OF plain_ok [OF pl(1)]] by (simp_all add: IsAbs_def slash_def)
  then have rel: "rel = Rel ?b ?t" using assms(2) by (auto simp: relative_to_def split: if_splits)
  then have pre: "prefix ?b ?t" using assms(3) Rel_outside [OF pl(2,1)] by blast
  obtain up down where d: "drop_common ?b ?t = (up, down)" by fastforce
  have "up = []" using pre d drop_common_prefix [of ?b ?t] by simp
  moreover have down: "list_all plain down" using d drop_common_snd [of _ ?b ?t] pl(1) by (auto simp: list_all_iff)
  ultimately have "rel = ''.'' \<or> rel = join_with slash down" using rel d by (auto simp: Rel_def)
  moreover have "\<not> IsAbs ''.''" "''..'' \<notin> set (comps ''.'')" by code_simp+
  moreover have "\<not> IsAbs (join_with slash down)" "''..'' \<notin> set (comps (join_with slash down))"
    using join_not_abs [OF plain_ok [OF down]] comps_join(1) [OF plain_ok [OF down]] down by (auto simp: list_all_iff plain_def)
  ultimately show ?thesis using pre by auto
qed

lemma relative_rel:
  assumes "\<not> IsAbs path" "relative_to root (Clean path) = Some rel" "\<not> Contains (Clean path) ''..''"
  shows "\<not> IsAbs rel \<and> ''..'' \<notin> set (comps rel)"
proof -
  let ?cs = "fold clean_relative_step (comps path) []"
  have "\<forall>c \<in> set ?cs. c \<noteq> [] \<and> slash \<notin> set c" using clean_relative_set [of "comps path" "[]"] comps_ok by fastforce
  then have "\<not> IsAbs (Clean path)" using join_not_abs assms(1) by (auto simp: Clean_def Let_def IsAbs_def)
  then show ?thesis using assms(2,3) comps_sublist [of "''..''" rel] by (auto simp: relative_to_def)
qed

text \<open>C40. User data comes from a file only when a directory is configured, and then from what opening a name in it returned. The name is
  relative and no part of it leads up; when the manifest gave an absolute path, it lies below the directory.\<close>

theorem user_data_confined:
  assumes "readUserDataFile ev path root = Inr data"
  shows "root \<noteq> [] \<and> (\<exists>rel. cv_Open ev root rel = None \<and> cv_ReadAll ev root rel = Inr data \<and>
    \<not> IsAbs rel \<and> ''..'' \<notin> set (comps rel) \<and> (IsAbs path \<longrightarrow> prefix (clean_comps (comps root)) (clean_comps (comps path))))"
proof -
  obtain rel where r: "\<not> Contains (Clean path) ''..''" "root \<noteq> []" "relative_to root (Clean path) = Some rel"
    "\<not> (rel = ''..'' \<or> HasPrefix rel ''../'')" "cv_Open ev root rel = None" "cv_ReadAll ev root rel = Inr data"
    using assms by (auto simp: readUserDataFile_def Let_def split: if_splits option.splits sum.splits)
  show ?thesis
  proof (cases "IsAbs path")
    case True
    then show ?thesis using relative_abs [OF True r(3,4)] r by blast
  next
    case False
    then show ?thesis using relative_rel [OF False r(3,1)] r by blast
  qed
qed

section \<open>Concrete instances\<close>

definition demo_container :: workload_manifest where
  "demo_container =
     \<lparr>wm_APIVersion = APIVersion, wm_Name = ''web'', wm_Description = [], wm_Labels = [], wm_Annotations = [], wm_Provider = ''podman'',
      wm_Image = \<lparr>img_Source = ''oci:nginx'', img_Arch = ''amd64''\<rparr>, wm_Resources = \<lparr>res_CPU = 1, res_Memory = []\<rparr>,
      wm_Networks = [], wm_Storage = \<lparr>sto_RootDisk = None, sto_Volumes = []\<rparr>, wm_CloudInit = None,
      wm_Lifecycle = \<lparr>lc_StopTimeout = 10, lc_Autostart = None, lc_Hooks = None, lc_HealthCheck = None, lc_Restart = None\<rparr>,
      wm_Environment = [], wm_ProviderOverrides = Map.empty\<rparr>"

definition demo_convert_env :: convert_env where
  "demo_convert_env =
     \<lparr>cv_OutOfRange = 0, cv_KeyOrder = [''stop_timeout''], cv_Yaml = \<lambda>_. Inr [], cv_OpenRoot = \<lambda>_. None, cv_Open = \<lambda>_ _. None,
      cv_ReadAll = \<lambda>_ rel. Inr rel\<rparr>"

definition demo_spec :: instance_spec where
  "demo_spec = (empty_spec ''web'')\<lparr>is_CPUs := 1, is_Image := ''nginx'', is_OSType := ''oci'', is_Arch := ''amd64'',
     is_ProviderConfig := [(''stop_timeout'', CInt 10)]\<rparr>"

lemma demo_name: "ValidateInstanceName ''web'' = None"
proof -
  have "rx_match ValidInstanceNameRegex ''web''"
    unfolding ValidInstanceNameRegex_def name_rx_iff by (simp add: in_class_def in_range_def cls_alnum_def cls_name_def byte_def)
  then show ?thesis by (simp add: ValidateInstanceName_def del: rx_match.simps)
qed

lemma demo_spec_valid: "ValidateInstanceSpec demo_spec = None"
proof -
  have "validateSafeField ''OS type'' ''oci'' = None" "validateSafeField ''architecture'' ''amd64'' = None"
    "validateSafeField f [] = None" "utf8_valid ''nginx''" "\<not> Contains ''nginx'' ''..''"
    "ValidateProviderConfigEntry ''stop_timeout'' (CInt 10) = None" for f
    by (code_simp | simp add: validateSafeField_def)+
  then show ?thesis
    by (simp add: ValidateInstanceSpec_def demo_spec_def empty_spec_def demo_name andthen_def validate_cloud_init_def)
qed

lemma demo_workload_converts: "ToInstanceSpec demo_convert_env [] demo_container = Inr demo_spec"
proof -
  have "ParseImageSource ''oci:nginx'' = Inr (''oci'', ''nginx'')" by code_simp
  then have "convert_hardware demo_convert_env ''podman'' Map.empty \<lparr>res_CPU = 1, res_Memory = []\<rparr>
      \<lparr>img_Source = ''oci:nginx'', img_Arch = ''amd64''\<rparr> [] \<lparr>sto_RootDisk = None, sto_Volumes = []\<rparr> (empty_spec ''web'') =
      Inr ((empty_spec ''web'')\<lparr>is_CPUs := 1, is_Image := ''nginx'', is_OSType := ''oci'', is_Arch := ''amd64''\<rparr>)"
    by (simp add: convert_hardware_def convert_resources_def convert_image_def is_linux_jail_def convertImageReference_def os_of_image_def
        convertStorage_def empty_spec_def)
  moreover have "list_config demo_convert_env (convertProviderConfig demo_container) = [(''stop_timeout'', CInt 10)]"
    by (simp add: list_config_def demo_convert_env_def convertProviderConfig_def demo_container_def put_defs addStorageAndPortConfig_def
        map_filter_simps)
  moreover have "(empty_spec ''web'')\<lparr>is_Description := [], is_Labels := [], is_Annotations := []\<rparr> = empty_spec ''web''"
    by (simp add: empty_spec_def)
  ultimately show ?thesis using demo_spec_valid
    by (simp add: ToInstanceSpec_def demo_container_def generateCloudInitForVM_def providerAppliesCloudInit_def os_overrides_def
        check_spec_def demo_spec_def)
qed

theorem workload_stack_parity_witness: "instanceConfigToSpec demo_convert_env [] (instance_of demo_container) = Inr demo_spec"
proof -
  have "wm_Description demo_container = []" "wm_Labels demo_container = []" "wm_Annotations demo_container = []"
    "\<not> refuses_cloud_init demo_container" by (simp_all add: demo_container_def refuses_cloud_init_def)
  from workload_stack_parity [OF this] demo_workload_converts show ?thesis by blast
qed

theorem root_disk_large_enough_witness:
  "\<exists>disk. convert_root_disk demo_convert_env \<lparr>rd_Size = itoa_nat 20 @ ''Gi'', rd_Type = ''zvol'', rd_Path = []\<rparr> = Inr disk \<and>
    ds_SizeGB disk = 20"
proof -
  have "unit_multiplier (to_upper ''Gi'') = Some (2 ^ 30)" by code_simp
  then obtain disk where "convert_root_disk demo_convert_env \<lparr>rd_Size = itoa_nat 20 @ ''Gi'', rd_Type = ''zvol'', rd_Path = []\<rparr> = Inr disk"
    "int 20 * 2 ^ 30 \<le> ds_SizeGB disk * 2 ^ 30" "ds_SizeGB disk * 2 ^ 30 < int 20 * 2 ^ 30 + 2 ^ 30"
    using root_disk_large_enough [of "''Gi''" "2 ^ 30" 20 "\<lparr>rd_Size = itoa_nat 20 @ ''Gi'', rd_Type = ''zvol'', rd_Path = []\<rparr>" demo_convert_env]
    by (auto simp: size_units_def)
  moreover from this have "ds_SizeGB disk = 20" by simp
  ultimately show ?thesis by blast
qed

theorem user_data_confined_witness:
  "''/etc/ci'' \<noteq> [] \<and> (\<exists>rel. cv_ReadAll demo_convert_env ''/etc/ci'' rel = Inr ''a/b.yaml'' \<and> ''..'' \<notin> set (comps rel))"
proof -
  have "readUserDataFile demo_convert_env ''/etc/ci/x/../a/b.yaml'' ''/etc/ci'' = Inr ''a/b.yaml''" by code_simp
  from user_data_confined [OF this] show ?thesis by blast
qed

end
