(* ===== verification/Audit_Log.thy ===== *)
theory Audit_Log
  imports Provider "HOL-Library.AList" "HOL-Library.Word"
begin

text \<open>
  \<open>internal/security/audit_logger.go\<close>: the audit log, its rotation, compression, retention and
  queries, the writer goroutine and \<open>Close\<close>.

  Every file the logger touches lies in the directory of \<open>LogFile\<close>, so the state is that directory: an
  association list from names to files. A file is the list of what was written to it, each item with its size in bytes:
  one JSON record and its newline, bytes that are no complete record (a torn write, a truncated archive), or the gzip of
  other items. Only the logger changes the directory, under its mutex, so an open descriptor is the file at the log's name. A
  failure of a system call is a field of the environment; one environment describes one call of \<open>writeEvent\<close>.
\<close>

unbundle bit_operations_syntax

section \<open>Events and configuration\<close>

record audit_event =
  ae_Timestamp :: "int option"
  ae_EventType :: string
  ae_Severity :: string
  ae_ClientIP :: string
  ae_APIKeyHash :: string
  ae_UserAgent :: string
  ae_Resource :: string
  ae_Action :: string
  ae_Message :: string
  ae_Details :: "(string \<times> config_value) list"

record audit_logger_config =
  ac_LogFile :: string
  ac_MaxSizeMB :: int
  ac_MaxAgeDays :: int
  ac_MaxBackups :: int
  ac_Compress :: bool
  ac_AsyncWrite :: bool
  ac_BufferSize :: int

definition DefaultAuditLoggerConfig :: audit_logger_config where
  "DefaultAuditLoggerConfig =
     \<lparr>ac_LogFile = ''/var/log/hospitus/audit.log'', ac_MaxSizeMB = 100, ac_MaxAgeDays = 90, ac_MaxBackups = 10,
      ac_Compress = True, ac_AsyncWrite = True, ac_BufferSize = 1000\<rparr>"

text \<open>The zero value of the struct; \<open>ae_Timestamp\<close> is \<^const>\<open>None\<close> for the zero time.\<close>

definition zero_event :: audit_event where
  "zero_event =
     \<lparr>ae_Timestamp = None, ae_EventType = [], ae_Severity = [], ae_ClientIP = [], ae_APIKeyHash = [], ae_UserAgent = [],
      ae_Resource = [], ae_Action = [], ae_Message = [], ae_Details = []\<rparr>"

definition zero_config :: audit_logger_config where
  "zero_config =
     \<lparr>ac_LogFile = [], ac_MaxSizeMB = 0, ac_MaxAgeDays = 0, ac_MaxBackups = 0, ac_Compress = False,
      ac_AsyncWrite = False, ac_BufferSize = 0\<rparr>"

section \<open>Files\<close>

datatype log_item =
    Record audit_event nat
  | Torn nat
  | Gzipped "log_item list" nat

fun item_size :: "log_item \<Rightarrow> nat" where
  "item_size (Record e n) = n"
| "item_size (Torn n) = n"
| "item_size (Gzipped xs n) = n"

definition file_size :: "log_item list \<Rightarrow> nat" where
  "file_size xs = sum_list (map item_size xs)"

datatype log_node = LogDir | LogFile "log_item list" int

type_synonym log_dir = "(string \<times> log_node) list"

text \<open>What is on disk, archives included.\<close>

fun item_events :: "log_item \<Rightarrow> audit_event list" where
  "item_events (Record e n) = [e]"
| "item_events (Torn n) = []"
| "item_events (Gzipped xs n) = concat (map item_events xs)"

fun node_events :: "log_node \<Rightarrow> audit_event list" where
  "node_events LogDir = []"
| "node_events (LogFile xs t) = concat (map item_events xs)"

text \<open>How far the compression of a rotated file gets, and what a write to the log does.\<close>

datatype gzip_outcome =
    GzOpenFails go_error
  | GzCreateFails go_error
  | GzCopyFails nat go_error
  | GzFinishFails nat go_error
  | GzSyncFails nat go_error
  | GzCloseFails nat go_error
  | GzRemoveFails nat go_error
  | GzDone nat

datatype write_outcome = Written | WriteFails nat go_error

record audit_env =
  au_Now :: int
  au_CleanupNow :: int
  au_Format :: "int \<Rightarrow> string"
  au_AddDays :: "int \<Rightarrow> int \<Rightarrow> int"
  au_StatErr :: "go_error option"
  au_CloseErr :: "go_error option"
  au_LstatErr :: "string \<Rightarrow> go_error option"
  au_RenameErr :: "go_error option"
  au_OpenErr :: "go_error option"
  au_ReadDirErr :: bool
  au_InfoErr :: "string \<Rightarrow> bool"
  au_RemoveErr :: "string \<Rightarrow> bool"
  au_Gzip :: gzip_outcome
  au_Write :: write_outcome
  au_Marshal :: "audit_event \<Rightarrow> nat option"
  au_Sort :: "(string \<times> int) list \<Rightarrow> (string \<times> int) list"

text \<open>
  What \<open>l.file\<close> is: nil, the open log, \<open>/dev/null\<close> (the no-op logger), or a descriptor that has been
  closed.
\<close>

datatype log_handle = HNil | HLog | HDevNull | HClosed

record audit_logger =
  al_config :: audit_logger_config
  al_file :: log_handle
  al_dir :: log_dir

definition slash_char :: char where
  "slash_char = CHR ''/''"

text \<open>The name of the log in its directory, and \<open>filepath.Base\<close>.\<close>

definition log_name :: "audit_logger_config \<Rightarrow> string" where
  "log_name c = last (split_on slash_char (ac_LogFile c))"

definition filepath_Base :: "string \<Rightarrow> string" where
  "filepath_Base p =
     (if p = [] then ''.''
      else (case filter (\<lambda>s. s \<noteq> []) (split_on slash_char p) of
              [] \<Rightarrow> ''/''
            | s # ss \<Rightarrow> last (s # ss)))"

definition ErrClosed :: go_error where
  "ErrClosed = Errorf ''file already closed'' []"

definition ErrNotExist :: go_error where
  "ErrNotExist = Errorf ''no such file or directory'' []"

definition ErrIsDir :: go_error where
  "ErrIsDir = Errorf ''is a directory'' []"

text \<open>\<open>os.OpenFile(name, O_APPEND|O_CREATE|O_WRONLY, 0600)\<close>.\<close>

definition open_append :: "audit_env \<Rightarrow> string \<Rightarrow> log_dir \<Rightarrow> log_dir go_result" where
  "open_append ev name d =
     (case au_OpenErr ev of
        Some e \<Rightarrow> Inl e
      | None \<Rightarrow>
          if name = [] then Inl ErrNotExist
          else (case map_of d name of
                  None \<Rightarrow> Inr (AList.update name (LogFile [] (au_Now ev)) d)
                | Some LogDir \<Rightarrow> Inl ErrIsDir
                | Some (LogFile xs t) \<Rightarrow> Inr d))"

section \<open>Rotation\<close>

text \<open>\<open>os.Lstat\<close>: an error of the system, absence, or presence.\<close>

datatype lstat_result = LstatErr go_error | LstatNone | LstatSome

definition lstat :: "audit_env \<Rightarrow> log_dir \<Rightarrow> string \<Rightarrow> lstat_result" where
  "lstat ev d name =
     (case au_LstatErr ev name of
        Some e \<Rightarrow> LstatErr e
      | None \<Rightarrow> if map_of d name = None then LstatNone else LstatSome)"

definition rotation_base :: "audit_env \<Rightarrow> audit_logger_config \<Rightarrow> string" where
  "rotation_base ev c = log_name c @ ''.'' @ au_Format ev (au_Now ev)"

definition numbered :: "string \<Rightarrow> nat \<Rightarrow> string" where
  "numbered base i = base @ ''.'' @ itoa_nat i"

function rotation_loop :: "audit_env \<Rightarrow> log_dir \<Rightarrow> string \<Rightarrow> nat \<Rightarrow> string \<Rightarrow> string go_result" where
  "rotation_loop ev d base i candidate =
     (case lstat ev d candidate of
        LstatNone \<Rightarrow> Inr candidate
      | LstatErr e \<Rightarrow> Inl e
      | LstatSome \<Rightarrow>
          if i > 1000 then Inl (Errorf ''no free rotated-log name for %s'' [base])
          else rotation_loop ev d base (i + 1) (numbered base i))"
  by pat_completeness auto
termination
  by (relation "measure (\<lambda>(ev, d, base, i, candidate). 1001 - i)") auto

declare rotation_loop.simps [simp del]

definition uniqueRotationName :: "audit_env \<Rightarrow> audit_logger_config \<Rightarrow> log_dir \<Rightarrow> string go_result" where
  "uniqueRotationName ev c d = rotation_loop ev d (rotation_base ev c) 1 (rotation_base ev c)"

text \<open>
  \<open>compressLogFile\<close>: the archive is opened with \<open>O_TRUNC\<close>, filled, finished and synced, and only then is the original
  removed.
\<close>

definition gz_name :: "string \<Rightarrow> string" where
  "gz_name n = n @ ''.gz''"

definition compressLogFile :: "audit_env \<Rightarrow> string \<Rightarrow> log_dir \<Rightarrow> go_error option \<times> log_dir" where
  "compressLogFile ev name d =
     (let gz = gz_name name;
          put = (\<lambda>xs. AList.update gz (LogFile xs (au_Now ev)) d);
          copyFailed = (\<lambda>e. Some (Wrapf ''failed to compress log data: %w'' [] e)) in
      case map_of d name of
        None \<Rightarrow> (Some (Wrapf ''failed to open log file for compression: %w'' [] ErrNotExist), d)
      | Some node \<Rightarrow>
          (case au_Gzip ev of
             GzOpenFails e \<Rightarrow> (Some (Wrapf ''failed to open log file for compression: %w'' [] e), d)
           | GzCreateFails e \<Rightarrow> (Some (Wrapf ''failed to create gzip file: %w'' [] e), d)
           | outcome \<Rightarrow>
               if map_of d gz = Some LogDir then (Some (Wrapf ''failed to create gzip file: %w'' [] ErrIsDir), d)
               else (case node of
                   LogDir \<Rightarrow> (copyFailed ErrIsDir, put [])
                 | LogFile xs t \<Rightarrow>
                     (case outcome of
                        GzCopyFails n e \<Rightarrow> (copyFailed e, put [Torn n])
                      | GzFinishFails n e \<Rightarrow> (Some (Wrapf ''failed to finalize gzip stream: %w'' [] e), put [Torn n])
                      | GzSyncFails n e \<Rightarrow> (Some (Wrapf ''failed to sync gzip file: %w'' [] e), put [Gzipped xs n])
                      | GzCloseFails n e \<Rightarrow> (Some (Wrapf ''failed to close gzip file: %w'' [] e), put [Gzipped xs n])
                      | GzRemoveFails n e \<Rightarrow>
                          (Some (Wrapf ''failed to remove original uncompressed log file: %w'' [] e), put [Gzipped xs n])
                      | GzDone n \<Rightarrow> (None, AList.delete name (put [Gzipped xs n]))
                      | _ \<Rightarrow> (None, d)))))"

text \<open>\<open>cleanupOldLogs\<close>.\<close>

definition rotated_file :: "string \<Rightarrow> string \<Rightarrow> bool" where
  "rotated_file base name \<longleftrightarrow>
     length base < length name \<and> take (length base) name = base \<and> name ! length base = CHR ''.''"

definition log_files :: "audit_env \<Rightarrow> string \<Rightarrow> log_dir \<Rightarrow> (string \<times> int) list" where
  "log_files ev base d =
     List.map_filter (\<lambda>(name, node). case node of
         LogDir \<Rightarrow> None
       | LogFile xs t \<Rightarrow> if rotated_file base name \<and> \<not> au_InfoErr ev name then Some (name, t) else None)
       (sort_key fst d)"

definition remove_file :: "audit_env \<Rightarrow> string \<Rightarrow> log_dir \<Rightarrow> log_dir" where
  "remove_file ev name d = (if au_RemoveErr ev name then d else AList.delete name d)"

definition cutoff :: "audit_env \<Rightarrow> audit_logger_config \<Rightarrow> int" where
  "cutoff ev c = au_AddDays ev (au_CleanupNow ev) (- ac_MaxAgeDays c)"

definition cleanupOldLogs :: "audit_env \<Rightarrow> audit_logger_config \<Rightarrow> log_dir \<Rightarrow> log_dir" where
  "cleanupOldLogs ev c d =
     (if au_ReadDirErr ev then d
      else
        let files = log_files ev (filepath_Base (ac_LogFile c)) d;
            d1 = fold (\<lambda>(n, t). if t < cutoff ev c then remove_file ev n else id) files d in
        if 0 < ac_MaxBackups c \<and> ac_MaxBackups c < int (length files)
        then fold (\<lambda>(n, t). remove_file ev n) (drop (nat (ac_MaxBackups c)) (au_Sort ev files)) d1
        else d1)"

definition reopenAfterRotationFailure ::
    "audit_env \<Rightarrow> go_error \<Rightarrow> audit_logger \<Rightarrow> go_error option \<times> audit_logger" where
  "reopenAfterRotationFailure ev cause l =
     (case open_append ev (log_name (al_config l)) (al_dir l) of
        Inl e \<Rightarrow> (Some (Wrapf ''log rotation failed (%w); reopen also failed: %w'' [] (Joined [cause, e])), l)
      | Inr d \<Rightarrow> (Some (Wrapf ''log rotation failed: %w'' [] cause), l\<lparr>al_file := HLog, al_dir := d\<rparr>))"

text \<open>The threshold in bytes wraps like the \<open>int64\<close> product it is.\<close>

definition max_bytes :: "audit_logger_config \<Rightarrow> int" where
  "max_bytes c = sint (word_of_int (ac_MaxSizeMB c) * 1024 * 1024 :: 64 word)"

definition log_items :: "audit_logger \<Rightarrow> log_item list" where
  "log_items l =
     (case map_of (al_dir l) (log_name (al_config l)) of Some (LogFile xs t) \<Rightarrow> xs | _ \<Rightarrow> [])"

definition handle_size :: "audit_logger \<Rightarrow> int" where
  "handle_size l = (if al_file l = HLog then int (file_size (log_items l)) else 0)"

text \<open>\<open>os.Rename\<close> of the log onto a name that \<open>uniqueRotationName\<close> has found free.\<close>

definition rename_log :: "audit_env \<Rightarrow> string \<Rightarrow> string \<Rightarrow> log_dir \<Rightarrow> log_dir go_result" where
  "rename_log ev from to d =
     (case au_RenameErr ev of
        Some e \<Rightarrow> Inl e
      | None \<Rightarrow> (case map_of d from of
                   None \<Rightarrow> Inl ErrNotExist
                 | Some node \<Rightarrow> Inr (AList.update to node (AList.delete from d))))"

definition rotate_closed :: "audit_env \<Rightarrow> audit_logger \<Rightarrow> go_error option \<times> audit_logger" where
  "rotate_closed ev l =
     (let c = al_config l in
      case uniqueRotationName ev c (al_dir l) of
        Inl e \<Rightarrow> reopenAfterRotationFailure ev e l
      | Inr rotatedName \<Rightarrow>
          (case rename_log ev (log_name c) rotatedName (al_dir l) of
             Inl e \<Rightarrow> reopenAfterRotationFailure ev e l
           | Inr d1 \<Rightarrow>
               let (gzErr, d2) = if ac_Compress c then compressLogFile ev rotatedName d1 else (None, d1) in
               (case gzErr of
                  Some e \<Rightarrow> reopenAfterRotationFailure ev e (l\<lparr>al_dir := d2\<rparr>)
                | None \<Rightarrow>
                    let d3 = cleanupOldLogs ev c d2 in
                    (case open_append ev (log_name c) d3 of
                       Inl e \<Rightarrow> (Some e, l\<lparr>al_dir := d3\<rparr>)
                     | Inr d4 \<Rightarrow> (None, l\<lparr>al_file := HLog, al_dir := d4\<rparr>)))))"

definition rotateIfNeeded :: "audit_env \<Rightarrow> audit_logger \<Rightarrow> go_error option \<times> audit_logger" where
  "rotateIfNeeded ev l =
     (if al_file l = HClosed then (Some ErrClosed, l)
      else if al_file l = HNil then (Some (Errorf ''invalid argument'' []), l)
      else (case au_StatErr ev of
          Some e \<Rightarrow> (Some e, l)
        | None \<Rightarrow>
            if handle_size l < max_bytes (al_config l) then (None, l)
            else
              let l1 = l\<lparr>al_file := HClosed\<rparr> in
              (case au_CloseErr ev of
                 Some e \<Rightarrow> (Some e, l1)
               | None \<Rightarrow> rotate_closed ev l1)))"

section \<open>Writing\<close>

text \<open>
  A write that fails after some bytes leaves no complete record unless only the newline is missing.
\<close>

definition written_items :: "audit_event \<Rightarrow> nat \<Rightarrow> write_outcome \<Rightarrow> log_item list" where
  "written_items e n w =
     (case w of
        Written \<Rightarrow> [Record e (n + 1)]
      | WriteFails k err \<Rightarrow> if k = 0 then [] else if k < n then [Torn k] else [Record e n])"

definition append_items :: "audit_env \<Rightarrow> log_item list \<Rightarrow> audit_logger \<Rightarrow> audit_logger" where
  "append_items ev xs l =
     (if al_file l = HLog
      then l\<lparr>al_dir := AList.update (log_name (al_config l)) (LogFile (log_items l @ xs) (au_Now ev)) (al_dir l)\<rparr>
      else l)"

definition writeEvent :: "audit_env \<Rightarrow> audit_event \<Rightarrow> audit_logger \<Rightarrow> go_error option \<times> audit_logger" where
  "writeEvent ev event l =
     (case rotateIfNeeded ev l of
        (Some e, l1) \<Rightarrow> (Some (Wrapf ''log rotation failed: %w'' [] e), l1)
      | (None, l1) \<Rightarrow>
          (case au_Marshal ev event of
             None \<Rightarrow> (Some (Errorf ''failed to marshal event: %w'' []), l1)
           | Some n \<Rightarrow>
               ((case au_Write ev of
                   Written \<Rightarrow> None
                 | WriteFails k e \<Rightarrow> Some (Wrapf ''failed to write event: %w'' [] e)),
                append_items ev (written_items event n (au_Write ev)) l1)))"

section \<open>Queries\<close>

record audit_log_query =
  aq_StartTime :: "int option"
  aq_EndTime :: "int option"
  aq_EventTypes :: "string list"
  aq_Severities :: "string list"
  aq_ClientIP :: string
  aq_Limit :: int

fun contains_type :: "string list \<Rightarrow> string \<Rightarrow> bool" where
  "contains_type [] t = False"
| "contains_type (et # types) t = (if et = t then True else contains_type types t)"

fun containsSeverity :: "string list \<Rightarrow> string \<Rightarrow> bool" where
  "containsSeverity [] s = False"
| "containsSeverity (sev # sevs) s = (if sev = s then True else containsSeverity sevs s)"

text \<open>
  A comparison with a record whose time is absent compares with the zero time, which is before every
  time a query sets.
\<close>

definition time_before :: "int option \<Rightarrow> int \<Rightarrow> bool" where
  "time_before t s = (case t of None \<Rightarrow> True | Some x \<Rightarrow> x < s)"

definition time_after :: "int option \<Rightarrow> int \<Rightarrow> bool" where
  "time_after t s = (case t of None \<Rightarrow> False | Some x \<Rightarrow> s < x)"

definition skip_event :: "audit_log_query \<Rightarrow> audit_event \<Rightarrow> bool" where
  "skip_event q e =
     (if (case aq_StartTime q of None \<Rightarrow> False | Some s \<Rightarrow> time_before (ae_Timestamp e) s) then True
      else if (case aq_EndTime q of None \<Rightarrow> False | Some s \<Rightarrow> time_after (ae_Timestamp e) s) then True
      else if aq_EventTypes q \<noteq> [] \<and> \<not> contains_type (aq_EventTypes q) (ae_EventType e) then True
      else if aq_Severities q \<noteq> [] \<and> \<not> containsSeverity (aq_Severities q) (ae_Severity e) then True
      else aq_ClientIP q \<noteq> [] \<and> ae_ClientIP e \<noteq> aq_ClientIP q)"

text \<open>The loop over the decoder; what is no complete record is a decoding error.\<close>

fun query_loop ::
    "string \<Rightarrow> audit_log_query \<Rightarrow> log_item list \<Rightarrow> audit_event list \<Rightarrow> audit_event list \<times> go_error option" where
  "query_loop file q [] events = (events, None)"
| "query_loop file q (Record e n # xs) events =
     (if skip_event q e then query_loop file q xs events
      else
        let events' = events @ [e] in
        if 0 < aq_Limit q \<and> aq_Limit q \<le> int (length events') then (events', None)
        else query_loop file q xs events')"
| "query_loop file q (_ # xs) events =
     (events, Some (Errorf ''audit log %s is malformed after %d events: %w'' [file, itoa_nat (length events)]))"

definition al_Query :: "audit_log_query \<Rightarrow> go_error option \<Rightarrow> audit_logger \<Rightarrow> audit_event list \<times> go_error option" where
  "al_Query q openErr l =
     (case openErr of
        Some e \<Rightarrow> ([], Some e)
      | None \<Rightarrow>
          (case map_of (al_dir l) (log_name (al_config l)) of
             None \<Rightarrow> ([], Some ErrNotExist)
           | Some LogDir \<Rightarrow> ([], Some (Errorf ''audit log %s is malformed after %d events: %w'' [ac_LogFile (al_config l), ''0'']))
           | Some (LogFile xs t) \<Rightarrow> query_loop (ac_LogFile (al_config l)) q xs []))"

section \<open>Opening\<close>

text \<open>
  \<open>NewAuditLogger\<close>: the permissions of the file after it was opened, \<^const>\<open>None\<close> when \<open>Stat\<close> fails, and the errors of
  the two other calls. The result carries the permissions the log is left with.
\<close>

record open_env =
  oe_MkdirErr :: "go_error option"
  oe_Perm :: "9 word option"
  oe_ChmodErr :: "go_error option"

definition group_other :: "9 word" where
  "group_other = 0x3F"

definition owner_only :: "9 word" where
  "owner_only = 0x180"

definition NewAuditLogger ::
    "audit_env \<Rightarrow> open_env \<Rightarrow> audit_logger_config \<Rightarrow> log_dir \<Rightarrow> (audit_logger \<times> 9 word option) go_result" where
  "NewAuditLogger ev oe c d =
     (case oe_MkdirErr oe of
        Some e \<Rightarrow> Inl (Wrapf ''failed to create log directory: %w'' [] e)
      | None \<Rightarrow>
          (case open_append ev (log_name c) d of
             Inl e \<Rightarrow> Inl (Wrapf ''failed to open log file: %w'' [] e)
           | Inr d' \<Rightarrow>
               let logger = \<lparr>al_config = c, al_file = HLog, al_dir = d'\<rparr> in
               (case oe_Perm oe of
                  None \<Rightarrow> Inr (logger, None)
                | Some m \<Rightarrow>
                    if m AND group_other \<noteq> 0
                    then (case oe_ChmodErr oe of
                            Some e \<Rightarrow>
                              Inl (Wrapf ''audit log %s is readable by group or others (%04o) and cannot be tightened: %w''
                                     [ac_LogFile c] e)
                          | None \<Rightarrow> Inr (logger, Some owner_only))
                    else Inr (logger, Some m))))"

text \<open>
  The process-wide logger: an atomic pointer that stays nil until a logger was created. The attempt is the
  result of \<open>NewAuditLogger\<close> with the configuration at hand.
\<close>

definition InitGlobalAuditLogger ::
    "audit_logger go_result \<Rightarrow> audit_logger option \<Rightarrow> go_error option \<times> audit_logger option" where
  "InitGlobalAuditLogger attempt g =
     (case g of
        Some l \<Rightarrow> (None, g)
      | None \<Rightarrow> (case attempt of Inl e \<Rightarrow> (Some e, None) | Inr l \<Rightarrow> (None, Some l)))"

definition getNoopAuditLogger :: "go_error option \<Rightarrow> log_dir \<Rightarrow> audit_logger" where
  "getNoopAuditLogger devNullErr d =
     \<lparr>al_config = zero_config, al_file = (if devNullErr = None then HDevNull else HNil), al_dir = d\<rparr>"

definition GetGlobalAuditLogger ::
    "audit_logger go_result \<Rightarrow> go_error option \<Rightarrow> log_dir \<Rightarrow> audit_logger option \<Rightarrow> audit_logger \<times> audit_logger option" where
  "GetGlobalAuditLogger attempt devNullErr d g =
     (case g of
        Some l \<Rightarrow> (l, g)
      | None \<Rightarrow>
          let g' = snd (InitGlobalAuditLogger attempt g) in
          (case g' of Some l \<Rightarrow> (l, g') | None \<Rightarrow> (getNoopAuditLogger devNullErr d, g')))"

section \<open>Logging, the writer and Close\<close>

definition stamped :: "int \<Rightarrow> audit_event \<Rightarrow> audit_event" where
  "stamped now e = (if ae_Timestamp e = None then e\<lparr>ae_Timestamp := Some now\<rparr> else e)"

text \<open>
  The running logger. \<open>sy_callers\<close> holds the events of calls to \<open>Log\<close> that have found the logger open and have not
  reached the \<open>select\<close> yet; the writer is receiving, inside \<open>writeEvent\<close> with an event, draining, or gone;
  \<open>Close\<close> has not begun, waits for the writer, or is done. \<open>sy_sent\<close> and \<open>sy_handled\<close> record every event that
  was sent to the channel and every one the writer has passed to \<open>writeEvent\<close>; no step reads them.
\<close>

datatype writer_state = Receiving | Writing audit_event | Draining | DrainWriting audit_event | Exited

datatype close_state = NotClosing | WaitingForWriter | CloseDone

record audit_system =
  sy_log :: audit_logger
  sy_closed :: bool
  sy_done :: bool
  sy_chan :: "audit_event list"
  sy_writer :: writer_state
  sy_callers :: "audit_event list"
  sy_close :: close_state
  sy_sent :: "audit_event list"
  sy_handled :: "audit_event list"

definition start_logger :: "audit_logger \<Rightarrow> audit_system" where
  "start_logger l =
     \<lparr>sy_log = l, sy_closed = False, sy_done = False, sy_chan = [],
      sy_writer = (if ac_AsyncWrite (al_config l) then Receiving else Exited),
      sy_callers = [], sy_close = NotClosing, sy_sent = [], sy_handled = []\<rparr>"

text \<open>\<open>Log\<close> up to the \<open>select\<close>: an event that finds no file or a closed logger is dropped.\<close>

definition log_enter :: "int \<Rightarrow> audit_event \<Rightarrow> audit_system \<Rightarrow> audit_system" where
  "log_enter now e s =
     (if al_file (sy_log s) = HNil \<or> sy_closed s then s
      else s\<lparr>sy_callers := sy_callers s @ [stamped now e]\<rparr>)"

definition write_now :: "audit_env \<Rightarrow> audit_event \<Rightarrow> audit_system \<Rightarrow> audit_system" where
  "write_now ev e s = s\<lparr>sy_log := snd (writeEvent ev e (sy_log s))\<rparr>"

definition has_room :: "audit_system \<Rightarrow> bool" where
  "has_room s \<longleftrightarrow> int (length (sy_chan s)) < ac_BufferSize (al_config (sy_log s))"

text \<open>
  The \<open>select\<close> of \<open>Log\<close>: the send when there is room, otherwise a synchronous write. An unbuffered channel has
  room only when the writer is receiving, which is the second send.
\<close>

definition log_finish :: "audit_env \<Rightarrow> audit_event \<Rightarrow> audit_system \<Rightarrow> audit_system" where
  "log_finish ev e s =
     (let s1 = s\<lparr>sy_callers := remove1 e (sy_callers s)\<rparr> in
      if ac_AsyncWrite (al_config (sy_log s)) \<and> has_room s
      then s1\<lparr>sy_chan := sy_chan s @ [e], sy_sent := sy_sent s @ [e]\<rparr>
      else write_now ev e s1)"

definition log_handoff :: "audit_event \<Rightarrow> audit_system \<Rightarrow> audit_system" where
  "log_handoff e s =
     s\<lparr>sy_callers := remove1 e (sy_callers s), sy_sent := sy_sent s @ [e],
       sy_writer := (if sy_writer s = Receiving then Writing e else DrainWriting e)\<rparr>"

text \<open>One step of \<open>asyncWriter\<close>; \<^const>\<open>None\<close> when it blocks or has returned. The flag chooses between the cases of the
  outer \<open>select\<close> when both are ready.\<close>

definition writer_step :: "audit_env \<Rightarrow> bool \<Rightarrow> audit_system \<Rightarrow> audit_system option" where
  "writer_step ev preferDone s =
     (case sy_writer s of
        Receiving \<Rightarrow>
          if sy_done s \<and> (preferDone \<or> sy_chan s = []) then Some (s\<lparr>sy_writer := Draining\<rparr>)
          else (case sy_chan s of
                  [] \<Rightarrow> None
                | e # es \<Rightarrow> Some (s\<lparr>sy_chan := es, sy_writer := Writing e\<rparr>))
      | Writing e \<Rightarrow> Some ((write_now ev e s)\<lparr>sy_writer := Receiving, sy_handled := sy_handled s @ [e]\<rparr>)
      | Draining \<Rightarrow>
          (case sy_chan s of
             [] \<Rightarrow> Some (s\<lparr>sy_writer := Exited\<rparr>)
           | e # es \<Rightarrow> Some (s\<lparr>sy_chan := es, sy_writer := DrainWriting e\<rparr>))
      | DrainWriting e \<Rightarrow> Some ((write_now ev e s)\<lparr>sy_writer := Draining, sy_handled := sy_handled s @ [e]\<rparr>)
      | Exited \<Rightarrow> None)"

text \<open>
  \<open>Close\<close>: mark the logger closed; once only, signal the writer, wait for it, close the file.
\<close>

definition close_mark :: "audit_system \<Rightarrow> audit_system" where
  "close_mark s = s\<lparr>sy_closed := True\<rparr>"

definition close_signal :: "audit_system \<Rightarrow> audit_system option" where
  "close_signal s =
     (if sy_closed s \<and> sy_close s = NotClosing
      then Some (s\<lparr>sy_done := ac_AsyncWrite (al_config (sy_log s)), sy_close := WaitingForWriter\<rparr>)
      else None)"

definition close_file :: "audit_system \<Rightarrow> audit_system option" where
  "close_file s =
     (if sy_close s = WaitingForWriter \<and> sy_writer s = Exited
      then Some (s\<lparr>sy_close := CloseDone,
                   sy_log := (sy_log s)\<lparr>al_file := (if al_file (sy_log s) = HNil then HNil else HClosed)\<rparr>\<rparr>)
      else None)"

section \<open>The events of the security layer\<close>

definition LogAuthSuccess :: "string \<Rightarrow> string \<Rightarrow> audit_event" where
  "LogAuthSuccess clientIP apiKeyHash =
     zero_event\<lparr>ae_EventType := ''auth_success'', ae_Severity := ''INFO'', ae_ClientIP := clientIP,
       ae_APIKeyHash := apiKeyHash, ae_Message := ''Authentication successful''\<rparr>"

definition LogAuthFailure :: "string \<Rightarrow> string \<Rightarrow> audit_event" where
  "LogAuthFailure clientIP reason =
     zero_event\<lparr>ae_EventType := ''auth_failure'', ae_Severity := ''WARNING'', ae_ClientIP := clientIP,
       ae_Message := ''Authentication failed: '' @ reason\<rparr>"

definition LogRateLimitExceeded :: "string \<Rightarrow> string \<Rightarrow> audit_event" where
  "LogRateLimitExceeded clientIP endpoint =
     zero_event\<lparr>ae_EventType := ''rate_limit_exceeded'', ae_Severity := ''WARNING'', ae_ClientIP := clientIP,
       ae_Resource := endpoint, ae_Message := ''Rate limit exceeded''\<rparr>"

definition LogSuspiciousActivity :: "string \<Rightarrow> string \<Rightarrow> (string \<times> config_value) list \<Rightarrow> audit_event" where
  "LogSuspiciousActivity clientIP description details =
     zero_event\<lparr>ae_EventType := ''suspicious_activity'', ae_Severity := ''CRITICAL'', ae_ClientIP := clientIP,
       ae_Message := description, ae_Details := details\<rparr>"

definition LogResourceAccess :: "string \<Rightarrow> string \<Rightarrow> string \<Rightarrow> string \<Rightarrow> audit_event" where
  "LogResourceAccess clientIP apiKeyHash action resource =
     zero_event\<lparr>ae_EventType := ''resource_accessed'', ae_Severity := ''INFO'', ae_ClientIP := clientIP,
       ae_APIKeyHash := apiKeyHash, ae_Action := action, ae_Resource := resource,
       ae_Message := action @ '' '' @ resource\<rparr>"

definition LogSecurityConfigChange :: "string \<Rightarrow> (string \<times> config_value) list \<Rightarrow> audit_event" where
  "LogSecurityConfigChange description details =
     zero_event\<lparr>ae_EventType := ''security_config_changed'', ae_Severity := ''WARNING'',
       ae_Message := description, ae_Details := details\<rparr>"

section \<open>A concrete logger\<close>

definition demo_audit_env :: audit_env where
  "demo_audit_env =
     \<lparr>au_Now = 1000, au_CleanupNow = 1000, au_Format = itoa, au_AddDays = \<lambda>t d. t + 86400 * d, au_StatErr = None,
      au_CloseErr = None, au_LstatErr = \<lambda>n. None, au_RenameErr = None, au_OpenErr = None, au_ReadDirErr = False,
      au_InfoErr = \<lambda>n. False, au_RemoveErr = \<lambda>n. False, au_Gzip = GzDone 5, au_Write = Written,
      au_Marshal = \<lambda>e. Some 40, au_Sort = \<lambda>fs. rev (sort_key snd fs)\<rparr>"

definition demo_audit_config :: audit_logger_config where
  "demo_audit_config =
     \<lparr>ac_LogFile = ''/log/a.log'', ac_MaxSizeMB = 0, ac_MaxAgeDays = 90, ac_MaxBackups = 0, ac_Compress = True,
      ac_AsyncWrite = True, ac_BufferSize = 2\<rparr>"

definition demo_audit_event :: "string \<Rightarrow> audit_event" where
  "demo_audit_event ip = LogAuthFailure ip ''invalid API key''"

definition demo_audit_logger :: audit_logger where
  "demo_audit_logger =
     \<lparr>al_config = demo_audit_config, al_file = HLog, al_dir = [(''a.log'', LogFile [Record (demo_audit_event ''10.0.0.1'') 41] 900)]\<rparr>"

definition demo_rotated_dir :: log_dir where
  "demo_rotated_dir = [(''a.log'', LogFile [] 950), (''a.log.1'', LogFile [] 910), (''a.log.2'', LogFile [] 920), (''a.log.3'', LogFile [] 930)]"

end
