(* ===== verification/Audit_Thms.thy ===== *)
theory Audit_Thms
  imports Audit_Log "HOL-Library.Multiset"
begin

text \<open>
  The audit log: the name a rotation picks, what rotation, compression and retention keep of the events on disk and what they
  lose, queries against a reference, and the writer goroutine with \<open>Close\<close>.
\<close>

section \<open>Directories\<close>

lemmas dir_simps = update_conv' delete_conv'

definition stored :: "log_dir \<Rightarrow> audit_event \<Rightarrow> bool" where
  "stored d e \<longleftrightarrow> (\<exists>n node. map_of d n = Some node \<and> e \<in> set (node_events node))"

lemma storedI: "map_of d n = Some node \<Longrightarrow> e \<in> set (node_events node) \<Longrightarrow> stored d e"
  by (auto simp: stored_def)

lemma storedE:
  assumes "stored d e"
  obtains n xs t where "map_of d n = Some (LogFile xs t)" "e \<in> set (concat (map item_events xs))"
proof -
  obtain n node where node: "map_of d n = Some node" "e \<in> set (node_events node)" using assms by (auto simp: stored_def)
  then show ?thesis using that by (cases node) auto
qed

section \<open>The rotated name\<close>

definition rotation_names :: "string \<Rightarrow> string list" where
  "rotation_names base = base # map (numbered base) [1..<1001]"

lemma rotation_loop_find:
  "(\<forall>n. au_LstatErr ev n = None) \<Longrightarrow> i \<le> 1001 \<Longrightarrow> rotation_loop ev d base i cand =
    (case find (\<lambda>n. map_of d n = None) (cand # map (numbered base) [i..<1001]) of
       Some n \<Rightarrow> Inr n
     | None \<Rightarrow> Inl (Errorf ''no free rotated-log name for %s'' [base]))"
proof (induction ev d base i cand rule: rotation_loop.induct)
  case (1 ev d base i cand)
  show ?case
  proof (cases "map_of d cand")
    case None
    then show ?thesis using 1 by (subst rotation_loop.simps) (simp add: lstat_def)
  next
    case (Some node)
    then have found: "lstat ev d cand = LstatSome" using 1 by (simp add: lstat_def)
    show ?thesis
    proof (cases "1000 < i")
      case True
      then show ?thesis using found Some 1 by (subst rotation_loop.simps) simp
    next
      case False
      then have "[i..<1001] = i # [i + 1..<1001]" by (simp add: upt_conv_Cons)
      then show ?thesis using found Some False 1 by (subst rotation_loop.simps) simp
    qed
  qed
qed

lemma rotation_loop_free: "rotation_loop ev d base i cand = Inr n \<Longrightarrow> map_of d n = None"
proof (induction ev d base i cand rule: rotation_loop.induct)
  case (1 ev d base i cand)
  then show ?case
    by (subst (asm) rotation_loop.simps) (auto simp: lstat_def split: option.splits if_splits lstat_result.splits)
qed

lemma uniqueRotationName_free: "uniqueRotationName ev c d = Inr n \<Longrightarrow> map_of d n = None"
  by (auto simp: uniqueRotationName_def dest: rotation_loop_free)

text \<open>Without an error of \<open>Lstat\<close> it is the first free name of the 1001, and it fails only when all are taken.\<close>

lemma rotation_name_first_free:
  assumes "\<forall>n. au_LstatErr ev n = None"
  shows "uniqueRotationName ev c d =
    (case find (\<lambda>n. map_of d n = None) (rotation_names (rotation_base ev c)) of
       Some n \<Rightarrow> Inr n
     | None \<Rightarrow> Inl (Errorf ''no free rotated-log name for %s'' [rotation_base ev c]))"
  using rotation_loop_find [OF assms, of 1 d] by (simp add: uniqueRotationName_def rotation_names_def)

section \<open>What each step keeps\<close>

lemma open_append_cases:
  assumes "open_append ev n d = Inr d'"
  shows "d' = d \<or> map_of d n = None \<and> d' = AList.update n (LogFile [] (au_Now ev)) d"
  using assms by (auto simp: open_append_def split: option.splits if_splits log_node.splits)

lemma open_append_stored: "open_append ev n d = Inr d' \<Longrightarrow> stored d x \<Longrightarrow> stored d' x"
  by (drule open_append_cases, erule storedE) (auto simp: dir_simps intro!: storedI split: if_splits)

lemma rename_log_stored:
  assumes "rename_log ev f t d = Inr d'" "map_of d t = None" "stored d x"
  shows "stored d' x"
proof -
  obtain node where node: "map_of d f = Some node" and d': "d' = AList.update t node (AList.delete f d)"
    using assms(1) by (auto simp: rename_log_def split: option.splits)
  from assms(3) obtain n xs u where n: "map_of d n = Some (LogFile xs u)" "x \<in> set (concat (map item_events xs))"
    by (rule storedE)
  show ?thesis
  proof (cases "n = f")
    case True
    with n node show ?thesis by (intro storedI [of _ t node]) (auto simp: d' dir_simps)
  next
    case False
    with n assms(2) show ?thesis by (intro storedI [of _ n "LogFile xs u"]) (auto simp: d' dir_simps)
  qed
qed

text \<open>
  Every way compression ends: the directory is as it was, or the archive is new and the original is still there, or the archive is
  complete and has replaced it.
\<close>

lemma compress_cases:
  assumes "compressLogFile ev n d = (r, d')"
  obtains "d' = d"
    | ys where "d' = AList.update (gz_name n) (LogFile ys (au_Now ev)) d" "r \<noteq> None"
    | xs u k where "map_of d n = Some (LogFile xs u)" "r = None"
        "d' = AList.delete n (AList.update (gz_name n) (LogFile [Gzipped xs k] (au_Now ev)) d)"
  using assms unfolding compressLogFile_def Let_def
  by (auto split: option.splits gzip_outcome.splits log_node.splits if_splits)

lemma gz_name_neq [simp]: "gz_name n \<noteq> n"
  by (simp add: gz_name_def)

lemma compress_stored:
  assumes "compressLogFile ev n d = (r, d')" "map_of d (gz_name n) = None" "stored d x"
  shows "stored d' x"
proof -
  from assms(3) obtain m xs u where m: "map_of d m = Some (LogFile xs u)" "x \<in> set (concat (map item_events xs))"
    by (rule storedE)
  then have gz: "m \<noteq> gz_name n" using assms(2) by auto
  from assms(1) show ?thesis
  proof (cases rule: compress_cases)
    case 1
    with assms(3) show ?thesis by simp
  next
    case (2 ys)
    with m gz show ?thesis by (intro storedI [of _ m "LogFile xs u"]) (auto simp: dir_simps)
  next
    case (3 ys v k)
    show ?thesis
    proof (cases "m = n")
      case True
      with 3 m show ?thesis
        by (intro storedI [of _ "gz_name n" "LogFile [Gzipped ys k] (au_Now ev)"]) (auto simp: dir_simps)
    next
      case False
      with 3 m gz show ?thesis by (intro storedI [of _ m "LogFile xs u"]) (auto simp: dir_simps)
    qed
  qed
qed

section \<open>Retention\<close>

text \<open>What \<open>sort.Slice\<close> guarantees here: a permutation with the newest file first.\<close>

definition sorts_newest_first :: "audit_env \<Rightarrow> bool" where
  "sorts_newest_first ev \<longleftrightarrow>
     (\<forall>fs. mset (au_Sort ev fs) = mset fs \<and> sorted_wrt (\<lambda>a b. snd b \<le> snd a) (au_Sort ev fs))"

abbreviation rotated_in :: "audit_logger_config \<Rightarrow> log_dir \<Rightarrow> string \<Rightarrow> int \<Rightarrow> bool" where
  "rotated_in c d n t \<equiv> rotated_file (filepath_Base (ac_LogFile c)) n \<and> (\<exists>xs. map_of d n = Some (LogFile xs t))"

lemma set_map_filter: "set (List.map_filter f xs) = {y. \<exists>x \<in> set xs. f x = Some y}"
  by (induction xs) (auto simp: map_filter_simps split: option.splits)

lemma log_files_mem:
  assumes "distinct (map fst d)"
  shows "(n, t) \<in> set (log_files ev base d) \<longleftrightarrow>
    rotated_file base n \<and> (\<exists>xs. map_of d n = Some (LogFile xs t)) \<and> \<not> au_InfoErr ev n"
  using assms
  by (auto simp: log_files_def set_map_filter split: log_node.splits if_splits intro!: bexI [of _ "(n, LogFile xs t)" for xs])

lemma map_filter_names:
  "\<forall>p \<in> set xs. \<forall>q. f p = Some q \<longrightarrow> fst q = fst p \<Longrightarrow> distinct (map fst xs) \<Longrightarrow>
   distinct (map fst (List.map_filter f xs)) \<and> fst ` set (List.map_filter f xs) \<subseteq> fst ` set xs"
proof (induction xs)
  case (Cons p xs)
  then have IH: "distinct (map fst (List.map_filter f xs))" "fst ` set (List.map_filter f xs) \<subseteq> fst ` set xs"
    and new: "fst p \<notin> fst ` set xs" by simp_all
  show ?case
  proof (cases "f p")
    case None
    with IH show ?thesis by (auto simp: map_filter_simps)
  next
    case (Some q)
    then have "fst q = fst p" using Cons.prems(1) by (meson list.set_intros(1))
    with IH new Some show ?thesis by (auto simp: map_filter_simps)
  qed
qed (simp add: map_filter_simps)

lemma distinct_sort_names: "distinct (map fst d) \<Longrightarrow> distinct (map fst (sort_key fst d))"
  by (simp add: distinct_map)

lemma log_files_distinct: "distinct (map fst d) \<Longrightarrow> distinct (map fst (log_files ev base d))"
  unfolding log_files_def
  by (rule map_filter_names [THEN conjunct1]) (auto simp: distinct_sort_names split: log_node.splits if_splits)

lemma map_of_fold_remove:
  "map_of (fold (\<lambda>(n, t). if P n t then remove_file ev n else id) fs d) m =
   (if (\<exists>t. (m, t) \<in> set fs \<and> P m t) \<and> \<not> au_RemoveErr ev m then None else map_of d m)"
proof (induction fs arbitrary: d)
  case (Cons a fs)
  then show ?case by (cases a) (auto simp: remove_file_def dir_simps)
qed simp

lemmas map_of_fold_remove_all = map_of_fold_remove [of "\<lambda>n t. True", simplified]

lemma distinct_fold_remove:
  "distinct (map fst d) \<Longrightarrow> distinct (map fst (fold (\<lambda>(n, t). if P n t then remove_file ev n else id) fs d))"
  by (induction fs arbitrary: d) (auto simp: remove_file_def distinct_delete)

lemmas distinct_fold_remove_all = distinct_fold_remove [of _ "\<lambda>n t. True", simplified]

definition excess :: "audit_env \<Rightarrow> audit_logger_config \<Rightarrow> (string \<times> int) list \<Rightarrow> (string \<times> int) list" where
  "excess ev c fs =
     (if 0 < ac_MaxBackups c \<and> ac_MaxBackups c < int (length fs) then drop (nat (ac_MaxBackups c)) (au_Sort ev fs) else [])"

lemma cleanupOldLogs_fold:
  "cleanupOldLogs ev c d =
   (if au_ReadDirErr ev then d
    else let fs = log_files ev (filepath_Base (ac_LogFile c)) d in
      fold (\<lambda>(n, t). remove_file ev n) (excess ev c fs)
        (fold (\<lambda>(n, t). if t < cutoff ev c then remove_file ev n else id) fs d))"
  by (simp add: cleanupOldLogs_def excess_def Let_def)

lemma cleanup_lookup:
  "map_of (cleanupOldLogs ev c d) m =
   (let fs = log_files ev (filepath_Base (ac_LogFile c)) d in
    if \<not> au_ReadDirErr ev \<and> \<not> au_RemoveErr ev m \<and>
       ((\<exists>t. (m, t) \<in> set fs \<and> t < cutoff ev c) \<or> (\<exists>t. (m, t) \<in> set (excess ev c fs)))
    then None else map_of d m)"
  by (auto simp: cleanupOldLogs_fold Let_def map_of_fold_remove_all map_of_fold_remove [of "\<lambda>n t. t < cutoff ev c"])

lemma distinct_cleanup: "distinct (map fst d) \<Longrightarrow> distinct (map fst (cleanupOldLogs ev c d))"
  by (simp add: cleanupOldLogs_fold Let_def distinct_fold_remove_all distinct_fold_remove [of d "\<lambda>n t. t < cutoff ev c"])

lemma excess_sub: "sorts_newest_first ev \<Longrightarrow> set (excess ev c fs) \<subseteq> set fs"
  using set_drop_subset [of "nat (ac_MaxBackups c)" "au_Sort ev fs"]
  by (auto simp: excess_def sorts_newest_first_def dest: mset_eq_setD)

text \<open>Each excess file has \<open>MaxBackups\<close> files before it that are at least as new.\<close>

lemma excess_beaten:
  assumes "sorts_newest_first ev" "distinct (map fst fs)" "(n, t) \<in> set (excess ev c fs)"
  shows "0 < ac_MaxBackups c" "ac_MaxBackups c \<le> int (card {m. \<exists>u. (m, u) \<in> set fs \<and> m \<noteq> n \<and> t \<le> u})"
proof -
  let ?k = "nat (ac_MaxBackups c)" and ?s = "au_Sort ev fs"
  have k: "0 < ac_MaxBackups c" "ac_MaxBackups c < int (length fs)" "(n, t) \<in> set (drop ?k ?s)"
    using assms(3) by (auto simp: excess_def split: if_splits)
  then show "0 < ac_MaxBackups c" by simp
  have ms: "mset ?s = mset fs" and srt: "sorted_wrt (\<lambda>a b. snd b \<le> snd a) (take ?k ?s @ drop ?k ?s)"
    using assms(1) by (auto simp: sorts_newest_first_def)
  have st: "set ?s = set fs" "length ?s = length fs" using ms by (auto dest: mset_eq_setD mset_eq_length)
  have "mset (map fst ?s) = mset (map fst fs)" using ms by simp
  then have dist: "distinct (map fst ?s)" using assms(2) mset_eq_imp_distinct_iff by blast
  then have td: "distinct (map fst (take ?k ?s @ drop ?k ?s))" by simp
  have newer: "t \<le> u \<and> m \<noteq> n" if "(m, u) \<in> set (take ?k ?s)" for m u
  proof
    show "t \<le> u" using srt that k(3) unfolding sorted_wrt_append by (metis snd_conv)
    have "m \<in> fst ` set (take ?k ?s)" "n \<in> fst ` set (drop ?k ?s)" using that k(3) by force+
    then show "m \<noteq> n" using td unfolding map_append distinct_append set_map by blast
  qed
  have "fst ` set (take ?k ?s) \<subseteq> {m. \<exists>u. (m, u) \<in> set fs \<and> m \<noteq> n \<and> t \<le> u}"
    using newer st(1) set_take_subset [of ?k ?s] by force
  moreover have "finite {m. \<exists>u. (m, u) \<in> set fs \<and> m \<noteq> n \<and> t \<le> u}"
    by (rule finite_subset [of _ "fst ` set fs"]) force+
  ultimately have "card (fst ` set (take ?k ?s)) \<le> card {m. \<exists>u. (m, u) \<in> set fs \<and> m \<noteq> n \<and> t \<le> u}"
    by (simp add: card_mono)
  moreover have "card (fst ` set (take ?k ?s)) = ?k"
  proof -
    have "distinct (map fst (take ?k ?s))" using td by (simp only: map_append distinct_append)
    then show ?thesis using k(2) st(2) distinct_card [of "map fst (take ?k ?s)"] by simp
  qed
  ultimately show "ac_MaxBackups c \<le> int (card {m. \<exists>u. (m, u) \<in> set fs \<and> m \<noteq> n \<and> t \<le> u})" by linarith
qed

lemma kept_count:
  assumes "sorts_newest_first ev" "distinct (map fst fs)" "0 < ac_MaxBackups c"
  shows "int (card (fst ` (set fs - set (excess ev c fs)))) \<le> ac_MaxBackups c"
proof (cases "ac_MaxBackups c < int (length fs)")
  case True
  let ?k = "nat (ac_MaxBackups c)" and ?s = "au_Sort ev fs"
  have "set fs = set (take ?k ?s) \<union> set (drop ?k ?s)"
    using assms(1) by (metis append_take_drop_id mset_eq_setD set_append sorts_newest_first_def)
  then have "fst ` (set fs - set (excess ev c fs)) \<subseteq> fst ` set (take ?k ?s)" using True assms(3) by (auto simp: excess_def)
  then have "card (fst ` (set fs - set (excess ev c fs))) \<le> length (map fst (take ?k ?s))"
    by (metis List.finite_set card_length card_mono le_trans set_map)
  then have "card (fst ` (set fs - set (excess ev c fs))) \<le> ?k" by simp
  then show ?thesis using assms(3) by linarith
next
  case False
  have "card (fst ` set fs) \<le> length fs" by (metis card_length length_map set_map)
  then show ?thesis using False by (simp add: excess_def)
qed

text \<open>
  Retention removes only rotated logs: each file it removes is older than the age limit, or at least
  \<open>MaxBackups\<close> other rotated logs are at least as new. When no call fails, every rotated log that is left is
  young enough and there are at most \<open>MaxBackups\<close> of them.
\<close>

theorem audit_retention:
  assumes "sorts_newest_first ev" "distinct (map fst d)" "d' = cleanupOldLogs ev c d"
  shows "(map_of d' n = map_of d n \<or>
      (\<exists>t. map_of d' n = None \<and> rotated_in c d n t \<and>
         (t < cutoff ev c \<or>
          0 < ac_MaxBackups c \<and> ac_MaxBackups c \<le> int (card {m. \<exists>u. rotated_in c d m u \<and> m \<noteq> n \<and> t \<le> u})))) \<and>
    (\<not> au_ReadDirErr ev \<and> (\<forall>m. \<not> au_InfoErr ev m \<and> \<not> au_RemoveErr ev m) \<longrightarrow>
      (\<forall>m t. rotated_in c d' m t \<longrightarrow> cutoff ev c \<le> t) \<and>
      (0 < ac_MaxBackups c \<longrightarrow> int (card {m. \<exists>t. rotated_in c d' m t}) \<le> ac_MaxBackups c))"
proof (intro conjI impI)
  let ?fs = "log_files ev (filepath_Base (ac_LogFile c)) d"
  note mem = log_files_mem [OF assms(2), of _ _ ev "filepath_Base (ac_LogFile c)"]
  note beaten = excess_beaten [OF assms(1) log_files_distinct [OF assms(2)], of n _ c]
  note lookup = cleanup_lookup [of ev c d, folded assms(3), unfolded Let_def]
  have fin: "finite {m. \<exists>u. rotated_in c d m u \<and> P m u}" for P
    by (rule finite_subset [of _ "fst ` set d"]) (auto dest: map_of_SomeD simp: image_iff, force dest: map_of_SomeD)
  show "map_of d' n = map_of d n \<or>
      (\<exists>t. map_of d' n = None \<and> rotated_in c d n t \<and>
         (t < cutoff ev c \<or>
          0 < ac_MaxBackups c \<and> ac_MaxBackups c \<le> int (card {m. \<exists>u. rotated_in c d m u \<and> m \<noteq> n \<and> t \<le> u})))"
  proof (cases "map_of d' n = map_of d n")
    case False
    then have gone: "map_of d' n = None"
      "(\<exists>t. (n, t) \<in> set ?fs \<and> t < cutoff ev c) \<or> (\<exists>t. (n, t) \<in> set (excess ev c ?fs))"
      using lookup [of n] by (auto split: if_splits)
    from gone(2) show ?thesis
    proof (elim disjE exE conjE)
      fix t assume "(n, t) \<in> set ?fs" "t < cutoff ev c"
      then show ?thesis using gone(1) mem [of n t] by blast
    next
      fix t assume ex: "(n, t) \<in> set (excess ev c ?fs)"
      then have "(n, t) \<in> set ?fs" using excess_sub [OF assms(1)] by blast
      moreover have "card {m. \<exists>u. (m, u) \<in> set ?fs \<and> m \<noteq> n \<and> t \<le> u} \<le> card {m. \<exists>u. rotated_in c d m u \<and> m \<noteq> n \<and> t \<le> u}"
        by (rule card_mono [OF fin]) (auto simp: mem)
      ultimately show ?thesis using gone(1) mem [of n t] beaten [OF ex] by force
    qed
  qed simp
  assume ok: "\<not> au_ReadDirErr ev \<and> (\<forall>m. \<not> au_InfoErr ev m \<and> \<not> au_RemoveErr ev m)"
  have left: "(m, t) \<in> set ?fs - set (excess ev c ?fs) \<and> cutoff ev c \<le> t" if "rotated_in c d' m t" for m t
  proof -
    have kept: "map_of d' m = map_of d m" using that lookup [of m] by (auto split: if_splits)
    then have "(m, t) \<in> set ?fs" using that mem [of m t] ok by simp
    moreover have "\<not> ((\<exists>t. (m, t) \<in> set ?fs \<and> t < cutoff ev c) \<or> (\<exists>t. (m, t) \<in> set (excess ev c ?fs)))"
      using that lookup [of m] ok by (auto split: if_splits)
    ultimately show ?thesis by (auto simp: not_less)
  qed
  then show "\<forall>m t. rotated_in c d' m t \<longrightarrow> cutoff ev c \<le> t" by blast
  assume pos: "0 < ac_MaxBackups c"
  have "{m. \<exists>t. rotated_in c d' m t} \<subseteq> fst ` (set ?fs - set (excess ev c ?fs))" using left by force
  then have "card {m. \<exists>t. rotated_in c d' m t} \<le> card (fst ` (set ?fs - set (excess ev c ?fs)))" by (simp add: card_mono)
  then show "int (card {m. \<exists>t. rotated_in c d' m t}) \<le> ac_MaxBackups c"
    using kept_count [OF assms(1) log_files_distinct [OF assms(2)] pos, of ev "filepath_Base (ac_LogFile c)"] by linarith
qed

lemma demo_sorts: "sorts_newest_first demo_audit_env"
  unfolding sorts_newest_first_def
proof (intro allI conjI)
  fix fs :: "(string \<times> int) list"
  show "mset (au_Sort demo_audit_env fs) = mset fs" by (simp add: demo_audit_env_def)
  have "sorted_wrt (\<lambda>a b. snd a \<le> snd b) (sort_key snd fs)" using sorted_sort_key [of snd fs] by (simp add: sorted_map)
  then show "sorted_wrt (\<lambda>a b. snd b \<le> snd a) (au_Sort demo_audit_env fs)" by (simp add: demo_audit_env_def sorted_wrt_rev)
qed

theorem audit_retention_witness:
  "int (card {m. \<exists>t. rotated_in (demo_audit_config\<lparr>ac_MaxBackups := 2\<rparr>)
     (cleanupOldLogs demo_audit_env (demo_audit_config\<lparr>ac_MaxBackups := 2\<rparr>) demo_rotated_dir) m t}) \<le> 2"
  using audit_retention [OF demo_sorts _ refl, of demo_rotated_dir "demo_audit_config\<lparr>ac_MaxBackups := 2\<rparr>" "[]"]
  by (simp add: demo_rotated_dir_def demo_audit_env_def)

section \<open>Events survive a write\<close>

text \<open>
  Nothing is due for removal: every file is young enough, and one more rotated log is within the limit.
\<close>

definition retention_idle :: "audit_env \<Rightarrow> audit_logger_config \<Rightarrow> log_dir \<Rightarrow> bool" where
  "retention_idle ev c d \<longleftrightarrow>
     (\<forall>n xs t. map_of d n = Some (LogFile xs t) \<longrightarrow> cutoff ev c \<le> t) \<and> cutoff ev c \<le> au_Now ev \<and>
     (ac_MaxBackups c \<le> 0 \<or> int (card {n. \<exists>t. rotated_in c d n t}) < ac_MaxBackups c)"

lemma finite_rotated: "finite {n. \<exists>t. rotated_in c d n t}"
  by (rule finite_subset [of _ "dom (map_of d)"]) (auto simp: finite_dom_map_of)

lemma cleanup_idle:
  assumes "distinct (map fst d)" "\<And>n t. rotated_in c d n t \<Longrightarrow> cutoff ev c \<le> t"
    and "ac_MaxBackups c \<le> 0 \<or> int (card {n. \<exists>t. rotated_in c d n t}) \<le> ac_MaxBackups c"
  shows "cleanupOldLogs ev c d = d"
proof -
  let ?fs = "log_files ev (filepath_Base (ac_LogFile c)) d"
  have mem: "rotated_in c d n t" if "(n, t) \<in> set ?fs" for n t using that log_files_mem [OF assms(1)] by blast
  have "fold (\<lambda>(n, t). if t < cutoff ev c then remove_file ev n else id) fs d = d" if "set fs \<subseteq> set ?fs" for fs
    using that
  proof (induction fs)
    case (Cons p fs)
    obtain n t where p: "p = (n, t)" by (cases p)
    then have "rotated_in c d n t" using Cons.prems by (intro mem) simp
    then have "\<not> t < cutoff ev c" using assms(2) by (meson leD)
    with Cons p show ?case by simp
  qed simp
  then have keep: "fold (\<lambda>(n, t). if t < cutoff ev c then remove_file ev n else id) ?fs d = d" by blast
  have "length ?fs = card (fst ` set ?fs)" using distinct_card [OF log_files_distinct [OF assms(1)]] by simp
  also have "\<dots> \<le> card {n. \<exists>t. rotated_in c d n t}" by (rule card_mono [OF finite_rotated]) (auto dest: mem)
  finally have "excess ev c ?fs = []" using assms(3) by (auto simp: excess_def)
  with keep show ?thesis by (simp add: cleanupOldLogs_fold Let_def)
qed

lemma rename_log_lookup:
  assumes "rename_log ev f t d = Inr d'"
  obtains node where "map_of d f = Some node" "map_of d' = (map_of d)(f := None, t \<mapsto> node)"
  using assms by (auto simp: rename_log_def dir_simps split: option.splits)

lemma rename_log_distinct: "rename_log ev f t d = Inr d' \<Longrightarrow> distinct (map fst d) \<Longrightarrow> distinct (map fst d')"
  by (auto simp: rename_log_def distinct_delete distinct_update split: option.splits)

lemma compress_distinct: "compressLogFile ev n d = (r, d') \<Longrightarrow> distinct (map fst d) \<Longrightarrow> distinct (map fst d')"
  by (erule compress_cases) (simp_all add: distinct_delete distinct_update)

text \<open>After the rename, and after a compression that succeeds, there is one rotated log more.\<close>

lemma compress_lookup:
  assumes "compressLogFile ev n d = (None, d')"
  shows "map_of d' = map_of d \<or>
    (\<exists>xs. map_of d' = (map_of d)(gz_name n \<mapsto> LogFile xs (au_Now ev), n := None))"
  using assms by (cases rule: compress_cases) (auto simp: dir_simps)

lemma rotated_count_step:
  assumes "map_of d' = (map_of d)(f := None, t \<mapsto> node) \<or>
    map_of d' = (map_of d)(f := None, t \<mapsto> node, g \<mapsto> node', t := None)"
  shows "card {n. \<exists>u. rotated_in c d' n u} \<le> card {n. \<exists>u. rotated_in c d n u} + 1"
proof -
  have sub: "{n. \<exists>u. rotated_in c d' n u} \<subseteq> insert t {n. \<exists>u. rotated_in c d n u} \<or>
      {n. \<exists>u. rotated_in c d' n u} \<subseteq> insert g {n. \<exists>u. rotated_in c d n u}"
    using assms by (auto split: if_splits)
  have "card S \<le> card {n. \<exists>u. rotated_in c d n u} + 1" if "S \<subseteq> insert m {n. \<exists>u. rotated_in c d n u}" for S m
  proof -
    have "card S \<le> card (insert m {n. \<exists>u. rotated_in c d n u})" using that finite_rotated [of c d] by (simp add: card_mono)
    also have "\<dots> \<le> card {n. \<exists>u. rotated_in c d n u} + 1" using finite_rotated [of c d] by (simp add: card_insert_if)
    finally show ?thesis .
  qed
  with sub show ?thesis by blast
qed

lemma idle_after_rename:
  assumes idle: "retention_idle ev c d" and dist: "distinct (map fst d')"
    and d': "map_of d' = (map_of d)(f := None, t \<mapsto> node) \<or>
      map_of d' = (map_of d)(f := None, t \<mapsto> node, g \<mapsto> LogFile xs (au_Now ev), t := None)"
    and node: "map_of d f = Some node"
  shows "cleanupOldLogs ev c d' = d'"
proof (rule cleanup_idle [OF dist])
  fix n u assume "rotated_in c d' n u"
  then show "cutoff ev c \<le> u" using d' idle node by (auto simp: retention_idle_def split: if_splits)
next
  show "ac_MaxBackups c \<le> 0 \<or> int (card {n. \<exists>t. rotated_in c d' n t}) \<le> ac_MaxBackups c"
    using rotated_count_step [OF d', of c] idle by (auto simp: retention_idle_def)
qed

lemma reopen_stored:
  assumes "reopenAfterRotationFailure ev e l = (r, l')" "stored (al_dir l) x"
  shows "stored (al_dir l') x"
  using assms by (auto simp: reopenAfterRotationFailure_def split: sum.splits dest: open_append_stored)

lemma append_items_stored: "stored (al_dir l) x \<Longrightarrow> stored (al_dir (append_items ev xs l)) x"
proof (erule storedE)
  fix n ys t assume n: "map_of (al_dir l) n = Some (LogFile ys t)" "x \<in> set (concat (map item_events ys))"
  show "stored (al_dir (append_items ev xs l)) x"
  proof (cases "al_file l = HLog \<and> n = log_name (al_config l)")
    case True
    with n show ?thesis
      by (intro storedI [of _ n "LogFile (ys @ xs) (au_Now ev)"]) (auto simp: append_items_def log_items_def dir_simps)
  next
    case False
    with n show ?thesis by (intro storedI [of _ n "LogFile ys t"]) (auto simp: append_items_def dir_simps)
  qed
qed

lemma append_items_new:
  assumes "al_file l = HLog" "x \<in> set (concat (map item_events xs))"
  shows "stored (al_dir (append_items ev xs l)) x"
  using assms
  by (intro storedI [of _ "log_name (al_config l)" "LogFile (log_items l @ xs) (au_Now ev)"])
    (auto simp: append_items_def dir_simps)

text \<open>The archive of the name the rotation will use does not exist yet.\<close>

definition archive_free :: "audit_env \<Rightarrow> audit_logger_config \<Rightarrow> log_dir \<Rightarrow> bool" where
  "archive_free ev c d \<longleftrightarrow>
     (case uniqueRotationName ev c d of Inl e \<Rightarrow> True | Inr n \<Rightarrow> ac_Compress c \<longrightarrow> map_of d (gz_name n) = None)"

lemma rotate_closed_stored:
  assumes rot: "rotate_closed ev l = (r, l')" and dist: "distinct (map fst (al_dir l))"
    and idle: "retention_idle ev (al_config l) (al_dir l)" and free: "archive_free ev (al_config l) (al_dir l)"
    and x: "stored (al_dir l) x"
  shows "stored (al_dir l') x"
proof (cases "uniqueRotationName ev (al_config l) (al_dir l)")
  case (Inl e)
  with rot x show ?thesis by (auto simp: rotate_closed_def intro: reopen_stored)
next
  case name: (Inr n)
  note n_free = uniqueRotationName_free [OF name]
  show ?thesis
  proof (cases "rename_log ev (log_name (al_config l)) n (al_dir l)")
    case (Inl e)
    with rot name x show ?thesis by (auto simp: rotate_closed_def intro: reopen_stored)
  next
    case ren: (Inr d1)
    have x1: "stored d1 x" by (rule rename_log_stored [OF ren n_free x])
    have dist1: "distinct (map fst d1)" by (rule rename_log_distinct [OF ren dist])
    obtain node where node: "map_of (al_dir l) (log_name (al_config l)) = Some node"
      "map_of d1 = (map_of (al_dir l))(log_name (al_config l) := None, n \<mapsto> node)"
      by (rule rename_log_lookup [OF ren])
    obtain g d2 where gz: "(if ac_Compress (al_config l) then compressLogFile ev n d1 else (None, d1)) = (g, d2)" by fastforce
    have gz_free: "map_of d1 (gz_name n) = None" if "ac_Compress (al_config l)"
      using free name that node by (auto simp: archive_free_def)
    have x2: "stored d2 x" using gz x1 gz_free compress_stored by (auto split: if_splits)
    show ?thesis
    proof (cases g)
      case (Some e)
      with rot name ren gz x2 show ?thesis by (auto simp: rotate_closed_def Let_def intro: reopen_stored)
    next
      case None
      have dist2: "distinct (map fst d2)" using gz dist1 compress_distinct by (auto split: if_splits)
      have "map_of d2 = map_of d1 \<or> (\<exists>xs. map_of d2 = (map_of d1)(gz_name n \<mapsto> LogFile xs (au_Now ev), n := None))"
        using gz None compress_lookup by (auto split: if_splits)
      then have "cleanupOldLogs ev (al_config l) d2 = d2"
        using idle_after_rename [OF idle dist2 _ node(1)] node(2) by metis
      with rot name ren gz None x2 show ?thesis
        by (auto simp: rotate_closed_def Let_def split: sum.splits dest: open_append_stored)
    qed
  qed
qed

lemma rotate_stored:
  assumes "rotateIfNeeded ev l = (r, l')" "distinct (map fst (al_dir l))"
    "retention_idle ev (al_config l) (al_dir l)" "archive_free ev (al_config l) (al_dir l)" "stored (al_dir l) x"
  shows "stored (al_dir l') x"
  using assms rotate_closed_stored [of ev "l\<lparr>al_file := HClosed\<rparr>" r l' x]
  by (auto simp: rotateIfNeeded_def Let_def split: if_splits option.splits)

lemma rotate_handle:
  "rotateIfNeeded ev l = (None, l') \<Longrightarrow> l' = l \<or> al_file l' = HLog"
  by (auto simp: rotateIfNeeded_def rotate_closed_def reopenAfterRotationFailure_def Let_def
      split: if_splits option.splits sum.splits prod.splits)

text \<open>
  C30. Whatever system call fails, a write loses no event that is on disk: as long as retention has nothing to remove and
  the archive a rotation would write does not exist, every event stored in the log, in a rotated log or in an archive is
  still stored afterwards, and so is the new event when the write reports success.
\<close>

theorem rotation_keeps_events:
  assumes "distinct (map fst (al_dir l))" "retention_idle ev (al_config l) (al_dir l)"
    and "archive_free ev (al_config l) (al_dir l)" "writeEvent ev e l = (err, l')"
  shows "(stored (al_dir l) x \<longrightarrow> stored (al_dir l') x) \<and>
    (al_file l = HLog \<and> err = None \<longrightarrow> stored (al_dir l') e)"
proof -
  obtain r l1 where r: "rotateIfNeeded ev l = (r, l1)" by fastforce
  note keep = rotate_stored [OF r assms(1-3), of x]
  show ?thesis
  proof (cases r)
    case (Some a)
    with r keep assms(4) show ?thesis by (auto simp: writeEvent_def)
  next
    case None
    with r have h: "al_file l = HLog \<longrightarrow> al_file l1 = HLog" using rotate_handle by blast
    show ?thesis
    proof (cases "au_Marshal ev e")
      case None
      with r \<open>r = None\<close> keep assms(4) show ?thesis by (auto simp: writeEvent_def)
    next
      case (Some k)
      with r None assms(4) have l': "l' = append_items ev (written_items e k (au_Write ev)) l1"
        and err: "err = None \<longrightarrow> au_Write ev = Written"
        by (auto simp: writeEvent_def split: write_outcome.splits)
      have new: "e \<in> set (concat (map item_events (written_items e k Written)))" by (simp add: written_items_def)
      show ?thesis using keep h err append_items_stored append_items_new [OF _ new] unfolding l' by metis
    qed
  qed
qed

lemma demo_log_name [simp]: "log_name demo_audit_config = ''a.log''"
  by (simp add: log_name_def demo_audit_config_def slash_char_def)

lemma demo_rotation_base [simp]: "rotation_base demo_audit_env demo_audit_config = ''a.log.1000''"
  by (simp add: rotation_base_def demo_audit_env_def itoa_def itoa_nat.simps char_of_def bit_0)

lemma demo_unique:
  "uniqueRotationName demo_audit_env demo_audit_config (al_dir demo_audit_logger) = Inr ''a.log.1000''"
  by (subst rotation_name_first_free) (simp_all add: demo_audit_env_def [THEN arg_cong [of _ _ au_LstatErr]] rotation_names_def demo_audit_logger_def)

lemma demo_write_ok: "fst (writeEvent demo_audit_env (demo_audit_event ''10.0.0.2'') demo_audit_logger) = None"
  by code_simp

theorem rotation_keeps_events_witness:
  "stored (al_dir (snd (writeEvent demo_audit_env (demo_audit_event ''10.0.0.2'') demo_audit_logger))) (demo_audit_event ''10.0.0.1'') \<and>
   stored (al_dir (snd (writeEvent demo_audit_env (demo_audit_event ''10.0.0.2'') demo_audit_logger))) (demo_audit_event ''10.0.0.2'')"
proof -
  have "distinct (map fst (al_dir demo_audit_logger))" by (simp add: demo_audit_logger_def)
  moreover have "retention_idle demo_audit_env (al_config demo_audit_logger) (al_dir demo_audit_logger)"
    by (simp add: retention_idle_def demo_audit_logger_def demo_audit_env_def demo_audit_config_def cutoff_def)
  moreover have "archive_free demo_audit_env (al_config demo_audit_logger) (al_dir demo_audit_logger)"
    using demo_unique by (simp add: archive_free_def demo_audit_logger_def gz_name_def)
  moreover have "stored (al_dir demo_audit_logger) (demo_audit_event ''10.0.0.1'')"
    by (simp add: stored_def demo_audit_logger_def)
  ultimately show ?thesis
    using rotation_keeps_events [OF _ _ _ prod.collapse [symmetric], where l = demo_audit_logger and ev = demo_audit_env
        and e = "demo_audit_event ''10.0.0.2''" and x = "demo_audit_event ''10.0.0.1''"]
      demo_write_ok by (simp add: demo_audit_logger_def)
qed

section \<open>Two rotations in one second\<close>

lemma cleanup_not_stored: "\<not> stored d x \<Longrightarrow> \<not> stored (cleanupOldLogs ev c d) x"
  by (auto simp: stored_def cleanup_lookup Let_def split: if_splits)

lemma open_append_not_stored: "open_append ev n d = Inr d' \<Longrightarrow> \<not> stored d x \<Longrightarrow> \<not> stored d' x"
  by (drule open_append_cases) (auto simp: stored_def dir_simps split: if_splits)

lemma append_items_not_stored:
  assumes "\<not> stored (al_dir l) x" "x \<notin> set (concat (map item_events xs))"
  shows "\<not> stored (al_dir (append_items ev xs l)) x"
proof -
  have "x \<notin> set (concat (map item_events (log_items l)))"
  proof
    assume x: "x \<in> set (concat (map item_events (log_items l)))"
    then obtain ys u where "map_of (al_dir l) (log_name (al_config l)) = Some (LogFile ys u)" "log_items l = ys"
      by (cases "map_of (al_dir l) (log_name (al_config l))"; cases "the (map_of (al_dir l) (log_name (al_config l)))")
        (auto simp: log_items_def)
    with x assms(1) show False using storedI [of "al_dir l" _ "LogFile ys u" x] by auto
  qed
  with assms show ?thesis by (auto simp: stored_def append_items_def dir_simps split: if_splits)
qed

definition no_failures :: "audit_env \<Rightarrow> bool" where
  "no_failures ev \<longleftrightarrow>
     au_StatErr ev = None \<and> au_CloseErr ev = None \<and> (\<forall>n. au_LstatErr ev n = None) \<and> au_RenameErr ev = None \<and>
     au_OpenErr ev = None \<and> au_Write ev = Written \<and> (\<exists>k. au_Gzip ev = GzDone k)"

lemma rotate_over_archive:
  assumes ok: "no_failures ev" and gz: "ac_Compress (al_config l)"
    and log: "map_of (al_dir l) (log_name (al_config l)) = Some (LogFile xs t)"
    and free: "map_of (al_dir l) (rotation_base ev (al_config l)) = None"
    and archive: "map_of (al_dir l) (gz_name (rotation_base ev (al_config l))) = Some (LogFile old u)"
    and only: "\<And>m node. map_of (al_dir l) m = Some node \<Longrightarrow> m \<noteq> gz_name (rotation_base ev (al_config l)) \<Longrightarrow> x \<notin> set (node_events node)"
  shows "\<not> stored (al_dir (snd (rotate_closed ev l))) x"
proof -
  let ?c = "al_config l" and ?base = "rotation_base ev (al_config l)"
  let ?d1 = "AList.update ?base (LogFile xs t) (AList.delete (log_name ?c) (al_dir l))"
  obtain k where k: "au_Gzip ev = GzDone k" using ok by (auto simp: no_failures_def)
  let ?d2 = "AList.delete ?base (AList.update (gz_name ?base) (LogFile [Gzipped xs k] (au_Now ev)) ?d1)"
  have name: "uniqueRotationName ev ?c (al_dir l) = Inr ?base"
    using ok free by (subst rotation_name_first_free) (auto simp: no_failures_def rotation_names_def)
  have ren: "rename_log ev (log_name ?c) ?base (al_dir l) = Inr ?d1" using ok log by (simp add: rename_log_def no_failures_def)
  have neq: "gz_name ?base \<noteq> log_name ?c" by (simp add: gz_name_def rotation_base_def)
  then have "map_of ?d1 (gz_name ?base) \<noteq> Some LogDir" using archive by (simp add: dir_simps)
  then have cmp: "compressLogFile ev ?base ?d1 = (None, ?d2)" by (simp add: compressLogFile_def k dir_simps)
  have "x \<notin> set (concat (map item_events xs))" using only [OF log] neq by fastforce
  then have "\<not> stored ?d2 x" using only by (auto simp: stored_def dir_simps split: if_splits)
  then have "\<not> stored (cleanupOldLogs ev ?c ?d2) x" by (rule cleanup_not_stored)
  then show ?thesis
    using open_append_not_stored by (auto simp: rotate_closed_def name ren cmp gz Let_def split: sum.splits)
qed

text \<open>
  With compression a second rotation within one second overwrites the first one's archive: the
  name check looks for the uncompressed name, which compression has freed, and the archive is opened with \<open>O_TRUNC\<close>. Every event
  that only the first archive holds is gone although no call failed.
\<close>

theorem same_second_archive_overwritten:
  assumes "no_failures ev" "ac_Compress (al_config l)" "al_file l = HLog" "max_bytes (al_config l) \<le> handle_size l"
    and "map_of (al_dir l) (log_name (al_config l)) = Some (LogFile xs t)"
    and "map_of (al_dir l) (rotation_base ev (al_config l)) = None"
    and "map_of (al_dir l) (gz_name (rotation_base ev (al_config l))) = Some (LogFile old u)"
    and "\<forall>m node. map_of (al_dir l) m = Some node \<and> m \<noteq> gz_name (rotation_base ev (al_config l)) \<longrightarrow> x \<notin> set (node_events node)"
    and "x \<noteq> e"
  shows "\<not> stored (al_dir (snd (writeEvent ev e l))) x"
proof -
  have rot: "rotateIfNeeded ev l = rotate_closed ev (l\<lparr>al_file := HClosed\<rparr>)"
    using assms by (simp add: rotateIfNeeded_def no_failures_def)
  have gone: "\<not> stored (al_dir (snd (rotateIfNeeded ev l))) x"
    unfolding rot by (rule rotate_over_archive [where xs = xs and t = t and old = old and u = u]) (use assms in auto)
  obtain r l1 where r: "rotateIfNeeded ev l = (r, l1)" by fastforce
  have "x \<notin> set (concat (map item_events (written_items e n w)))" for n w
    using assms(9) by (simp add: written_items_def split: write_outcome.splits)
  then show ?thesis using gone r append_items_not_stored by (auto simp: writeEvent_def split: option.splits)
qed

lemma demo_first_write:
  "snd (writeEvent demo_audit_env (demo_audit_event ''10.0.0.2'') demo_audit_logger) =
   demo_audit_logger\<lparr>al_dir := [(''a.log.1000.gz'', LogFile [Gzipped [Record (demo_audit_event ''10.0.0.1'') 41] 5] 1000),
     (''a.log'', LogFile [Record (demo_audit_event ''10.0.0.2'') 41] 1000)]\<rparr>"
  by code_simp

theorem same_second_archive_overwritten_witness:
  "stored (al_dir (snd (writeEvent demo_audit_env (demo_audit_event ''10.0.0.2'') demo_audit_logger))) (demo_audit_event ''10.0.0.1'') \<and>
   \<not> stored (al_dir (snd (writeEvent demo_audit_env (demo_audit_event ''10.0.0.3'')
        (snd (writeEvent demo_audit_env (demo_audit_event ''10.0.0.2'') demo_audit_logger))))) (demo_audit_event ''10.0.0.1'')"
  unfolding demo_first_write
proof
  let ?l = "demo_audit_logger\<lparr>al_dir := [(''a.log.1000.gz'', LogFile [Gzipped [Record (demo_audit_event ''10.0.0.1'') 41] 5] 1000),
     (''a.log'', LogFile [Record (demo_audit_event ''10.0.0.2'') 41] 1000)]\<rparr>"
  have ev: "demo_audit_event ''10.0.0.1'' \<noteq> demo_audit_event ''10.0.0.2''" "demo_audit_event ''10.0.0.1'' \<noteq> demo_audit_event ''10.0.0.3''"
    by (simp_all add: demo_audit_event_def LogAuthFailure_def zero_event_def)
  have cfg: "al_config ?l = demo_audit_config" "al_file ?l = HLog" "ac_Compress demo_audit_config" "max_bytes demo_audit_config = 0"
    by (simp_all add: demo_audit_logger_def demo_audit_config_def max_bytes_def)
  have ok: "no_failures demo_audit_env" by (simp add: no_failures_def demo_audit_env_def)
  show "stored (al_dir ?l) (demo_audit_event ''10.0.0.1'')" by (simp add: stored_def exI [of _ "''a.log.1000.gz''"])
  show "\<not> stored (al_dir (snd (writeEvent demo_audit_env (demo_audit_event ''10.0.0.3'') ?l))) (demo_audit_event ''10.0.0.1'')"
    by (rule same_second_archive_overwritten [OF ok]) (use ev in \<open>auto simp: cfg gz_name_def handle_size_def\<close>)
qed

text \<open>
  A descriptor that a failed rotation leaves closed stays closed: every later event is refused before the log is
  reopened, even when the cause has gone away.
\<close>

lemma closed_logger_stays_closed:
  "al_file l = HClosed \<Longrightarrow> writeEvent ev e l = (Some (Wrapf ''log rotation failed: %w'' [] ErrClosed), l)"
  by (simp add: writeEvent_def rotateIfNeeded_def)

lemma failed_reopen_closes:
  assumes "al_file l = HLog" "max_bytes (al_config l) \<le> handle_size l" "au_StatErr ev = None" "au_OpenErr ev = Some err"
  shows "al_file (snd (writeEvent ev e l)) = HClosed"
proof -
  have "open_append ev n d = Inl err" for n d by (simp add: open_append_def assms(4))
  then show ?thesis
    using assms by (auto simp: writeEvent_def rotateIfNeeded_def rotate_closed_def reopenAfterRotationFailure_def Let_def
        split: option.splits sum.splits prod.splits)
qed

text \<open>
  The no-op logger has a size limit of zero, so its first event starts a rotation of a log with no name, which fails.
\<close>

lemma noop_logger_fails:
  "\<exists>err l'. writeEvent ev e (getNoopAuditLogger None d) = (Some err, l') \<and> (al_file l' = HDevNull \<or> al_file l' = HClosed)"
proof -
  let ?l = "getNoopAuditLogger None d"
  have size: "\<not> handle_size ?l < max_bytes (al_config ?l)"
    by (simp add: getNoopAuditLogger_def handle_size_def max_bytes_def zero_config_def)
  have "log_name zero_config = []" by (simp add: log_name_def zero_config_def)
  then have "open_append ev (log_name zero_config) d' = Inl (case au_OpenErr ev of Some err \<Rightarrow> err | None \<Rightarrow> ErrNotExist)" for d'
    by (simp add: open_append_def split: option.splits)
  then show ?thesis using size
    by (auto simp: writeEvent_def rotateIfNeeded_def rotate_closed_def reopenAfterRotationFailure_def Let_def
        getNoopAuditLogger_def split: option.splits sum.splits prod.splits)
qed

section \<open>Queries\<close>

text \<open>
  The reference: the events up to the first thing that is no record, those that satisfy every condition the query sets, the
  first \<open>Limit\<close> of them. A malformed rest is an error only when the limit was not reached before it.
\<close>

fun leading_events :: "log_item list \<Rightarrow> audit_event list" where
  "leading_events (Record e n # xs) = e # leading_events xs"
| "leading_events _ = []"

definition malformed :: "log_item list \<Rightarrow> bool" where
  "malformed xs \<longleftrightarrow> (\<exists>x \<in> set xs. \<forall>e n. x \<noteq> Record e n)"

definition query_matches :: "audit_log_query \<Rightarrow> audit_event \<Rightarrow> bool" where
  "query_matches q e \<longleftrightarrow>
     (\<forall>s. aq_StartTime q = Some s \<longrightarrow> (\<exists>t \<ge> s. ae_Timestamp e = Some t)) \<and>
     (\<forall>s. aq_EndTime q = Some s \<longrightarrow> (\<forall>t. ae_Timestamp e = Some t \<longrightarrow> t \<le> s)) \<and>
     (aq_EventTypes q \<noteq> [] \<longrightarrow> ae_EventType e \<in> set (aq_EventTypes q)) \<and>
     (aq_Severities q \<noteq> [] \<longrightarrow> ae_Severity e \<in> set (aq_Severities q)) \<and>
     (aq_ClientIP q \<noteq> [] \<longrightarrow> ae_ClientIP e = aq_ClientIP q)"

lemma contains_type_iff [simp]: "contains_type ts t \<longleftrightarrow> t \<in> set ts"
  by (induction ts) auto

lemma containsSeverity_iff [simp]: "containsSeverity ts t \<longleftrightarrow> t \<in> set ts"
  by (induction ts) auto

lemma skip_event_iff: "skip_event q e \<longleftrightarrow> \<not> query_matches q e"
proof -
  have "(case aq_StartTime q of None \<Rightarrow> False | Some s \<Rightarrow> time_before (ae_Timestamp e) s) \<longleftrightarrow>
      \<not> (\<forall>s. aq_StartTime q = Some s \<longrightarrow> (\<exists>t \<ge> s. ae_Timestamp e = Some t))"
    by (cases "aq_StartTime q"; cases "ae_Timestamp e") (auto simp: time_before_def)
  moreover have "(case aq_EndTime q of None \<Rightarrow> False | Some s \<Rightarrow> time_after (ae_Timestamp e) s) \<longleftrightarrow>
      \<not> (\<forall>s. aq_EndTime q = Some s \<longrightarrow> (\<forall>t. ae_Timestamp e = Some t \<longrightarrow> t \<le> s))"
    by (cases "aq_EndTime q"; cases "ae_Timestamp e") (auto simp: time_after_def)
  ultimately show ?thesis unfolding skip_event_def query_matches_def by auto
qed

lemma malformed_simps [simp]:
  "\<not> malformed []" "malformed (Record e n # xs) = malformed xs" "malformed (Torn k # xs)" "malformed (Gzipped ys k # xs)"
  by (auto simp: malformed_def)

lemma query_loop_exact:
  assumes "0 < aq_Limit q \<longrightarrow> int (length acc) < aq_Limit q"
  shows "query_loop f q xs acc =
    (let ms = acc @ filter (query_matches q) (leading_events xs) in
     if 0 < aq_Limit q \<and> aq_Limit q \<le> int (length ms) then (take (nat (aq_Limit q)) ms, None)
     else (ms, if malformed xs then Some (Errorf ''audit log %s is malformed after %d events: %w'' [f, itoa_nat (length ms)]) else None))"
  using assms
proof (induction f q xs acc rule: query_loop.induct)
  case (2 f q e n xs acc)
  show ?case
  proof (cases "query_matches q e \<and> 0 < aq_Limit q \<and> aq_Limit q \<le> int (length acc) + 1")
    case True
    then have "nat (aq_Limit q) = Suc (length acc)" using "2.prems" by linarith
    with True show ?thesis by (simp add: skip_event_iff)
  next
    case False
    with 2 show ?thesis by (auto simp: skip_event_iff Let_def)
  qed
qed (auto simp: Let_def)

text \<open>
  C32. A query returns exactly the first \<open>Limit\<close> matching events of the log, in the order they were written; it
  always ends, and it reports a malformed log unless the limit was reached before the damage.
\<close>

theorem audit_query_exact:
  assumes "map_of (al_dir l) (log_name (al_config l)) = Some (LogFile xs t)"
  shows "al_Query q None l =
    (let ms = filter (query_matches q) (leading_events xs) in
     if 0 < aq_Limit q \<and> aq_Limit q \<le> int (length ms) then (take (nat (aq_Limit q)) ms, None)
     else (ms, if malformed xs then Some (Errorf ''audit log %s is malformed after %d events: %w''
                                            [ac_LogFile (al_config l), itoa_nat (length ms)])
               else None))"
  using assms query_loop_exact [of q "[]"] by (simp add: al_Query_def)

theorem audit_query_exact_witness:
  "al_Query \<lparr>aq_StartTime = None, aq_EndTime = None, aq_EventTypes = [], aq_Severities = [], aq_ClientIP = ''10.0.0.1'', aq_Limit = 1\<rparr>
     None demo_audit_logger = ([demo_audit_event ''10.0.0.1''], None)"
  by (subst audit_query_exact [where xs = "[Record (demo_audit_event ''10.0.0.1'') 41]" and t = 900])
    (simp_all add: Let_def demo_audit_logger_def query_matches_def demo_audit_event_def LogAuthFailure_def zero_event_def)

text \<open>The log is created with, or tightened to, permissions of its owner alone.\<close>

lemma log_permissions_tight:
  assumes "NewAuditLogger ev oe c d = Inr (l, Some m)"
  shows "m AND group_other = 0"
proof -
  have "owner_only AND group_other = 0" by (simp add: owner_only_def group_other_def)
  with assms show ?thesis by (auto simp: NewAuditLogger_def Let_def split: option.splits sum.splits if_splits)
qed

end
