(* ===== verification/Audit_Writer.thy ===== *)
theory Audit_Writer
  imports Audit_Thms
begin

text \<open>
  Calls of \<open>Log\<close>, the writer goroutine and \<open>Close\<close> interleaved: what reaches the channel is written in the order
  it was sent, \<open>Close\<close> waits for it, and the events of callers that \<open>Close\<close> overtakes are not.
\<close>

section \<open>The steps\<close>

text \<open>
  A call enters \<open>Log\<close>; a call passes its \<open>select\<close>; the writer moves; \<open>Close\<close> marks, signals and closes. Each write has an
  environment of its own.
\<close>

inductive audit_step :: "audit_system \<Rightarrow> audit_system \<Rightarrow> bool" where
  enter: "audit_step s (log_enter now e s)"
| finish: "e \<in> set (sy_callers s) \<Longrightarrow> audit_step s (log_finish ev e s)"
| handoff: "e \<in> set (sy_callers s) \<Longrightarrow> ac_AsyncWrite (al_config (sy_log s)) \<Longrightarrow>
    ac_BufferSize (al_config (sy_log s)) = 0 \<Longrightarrow> sy_writer s = Receiving \<or> sy_writer s = Draining \<Longrightarrow>
    audit_step s (log_handoff e s)"
| writer: "writer_step ev preferDone s = Some s' \<Longrightarrow> audit_step s s'"
| mark: "audit_step s (close_mark s)"
| signal: "close_signal s = Some s' \<Longrightarrow> audit_step s s'"
| close: "close_file s = Some s' \<Longrightarrow> audit_step s s'"

inductive_cases audit_stepE: "audit_step s s'"

definition held :: "audit_system \<Rightarrow> audit_event list" where
  "held s = (case sy_writer s of Writing e \<Rightarrow> [e] | DrainWriting e \<Rightarrow> [e] | _ \<Rightarrow> [])"

fun past_done :: "writer_state \<Rightarrow> bool" where
  "past_done Receiving = False"
| "past_done (Writing e) = False"
| "past_done Draining = True"
| "past_done (DrainWriting e) = True"
| "past_done Exited = True"

text \<open>
  What was sent is what the writer has handled, holds and has still to receive, in this order; the channel is within its
  capacity; the phases of \<open>Close\<close> and of the writer agree.
\<close>

definition fifo :: "audit_system \<Rightarrow> bool" where
  "fifo s \<longleftrightarrow> sy_handled s @ held s @ sy_chan s = sy_sent s"

definition bounded :: "audit_system \<Rightarrow> bool" where
  "bounded s \<longleftrightarrow> sy_chan s = [] \<or> int (length (sy_chan s)) \<le> ac_BufferSize (al_config (sy_log s))"

definition phases :: "audit_system \<Rightarrow> bool" where
  "phases s \<longleftrightarrow>
     (sy_done s \<longrightarrow> sy_close s \<noteq> NotClosing) \<and> (sy_close s \<noteq> NotClosing \<longrightarrow> sy_closed s) \<and>
     (sy_close s = CloseDone \<longrightarrow> sy_writer s = Exited) \<and>
     (if ac_AsyncWrite (al_config (sy_log s))
      then (sy_close s \<noteq> NotClosing \<or> past_done (sy_writer s) \<longrightarrow> sy_done s)
      else sy_writer s = Exited \<and> sy_chan s = [])"

definition audit_inv :: "audit_system \<Rightarrow> bool" where
  "audit_inv s \<longleftrightarrow> fifo s \<and> bounded s \<and> phases s"

lemma rotate_config: "rotateIfNeeded ev l = (r, l') \<Longrightarrow> al_config l' = al_config l"
  by (auto simp: rotateIfNeeded_def rotate_closed_def reopenAfterRotationFailure_def Let_def
      split: option.splits sum.splits prod.splits if_splits)

lemma append_items_config [simp]: "al_config (append_items ev xs l) = al_config l"
  by (simp add: append_items_def)

lemma writeEvent_config [simp]: "al_config (snd (writeEvent ev e l)) = al_config l"
  by (auto simp: writeEvent_def split: prod.splits option.splits dest: rotate_config)

lemma write_now_simps [simp]:
  "al_config (sy_log (write_now ev e s)) = al_config (sy_log s)" "sy_closed (write_now ev e s) = sy_closed s"
  "sy_done (write_now ev e s) = sy_done s" "sy_chan (write_now ev e s) = sy_chan s"
  "sy_writer (write_now ev e s) = sy_writer s" "sy_callers (write_now ev e s) = sy_callers s"
  "sy_close (write_now ev e s) = sy_close s" "sy_sent (write_now ev e s) = sy_sent s"
  "sy_handled (write_now ev e s) = sy_handled s"
  by (simp_all add: write_now_def)

lemmas audit_inv_defs = audit_inv_def fifo_def bounded_def phases_def

lemma writer_step_cases:
  assumes "writer_step ev p s = Some s'"
  obtains
    (drain) "sy_writer s = Receiving" "sy_done s" "s' = s\<lparr>sy_writer := Draining\<rparr>"
  | (receive) e es where "sy_writer s = Receiving" "sy_chan s = e # es" "s' = s\<lparr>sy_chan := es, sy_writer := Writing e\<rparr>"
  | (written) e where "sy_writer s = Writing e"
      "s' = (write_now ev e s)\<lparr>sy_writer := Receiving, sy_handled := sy_handled s @ [e]\<rparr>"
  | (exit) "sy_writer s = Draining" "sy_chan s = []" "s' = s\<lparr>sy_writer := Exited\<rparr>"
  | (drain_receive) e es where "sy_writer s = Draining" "sy_chan s = e # es"
      "s' = s\<lparr>sy_chan := es, sy_writer := DrainWriting e\<rparr>"
  | (drain_written) e where "sy_writer s = DrainWriting e"
      "s' = (write_now ev e s)\<lparr>sy_writer := Draining, sy_handled := sy_handled s @ [e]\<rparr>"
  using assms
  by (cases "sy_writer s"; cases "sy_chan s") (auto simp: writer_step_def split: if_splits)

lemma fifo_writer: "writer_step ev p s = Some s' \<Longrightarrow> fifo s \<Longrightarrow> fifo s'"
  by (erule writer_step_cases) (simp_all add: fifo_def held_def)

lemma bounded_writer: "writer_step ev p s = Some s' \<Longrightarrow> bounded s \<Longrightarrow> bounded s'"
  by (erule writer_step_cases) (auto simp: bounded_def)

lemma phases_writer: "writer_step ev p s = Some s' \<Longrightarrow> phases s \<Longrightarrow> phases s'"
  by (erule writer_step_cases) (auto simp: phases_def split: if_splits)

lemma inv_callers [simp]:
  "fifo (s\<lparr>sy_callers := x\<rparr>) = fifo s" "bounded (s\<lparr>sy_callers := x\<rparr>) = bounded s" "phases (s\<lparr>sy_callers := x\<rparr>) = phases s"
  by (simp_all add: fifo_def held_def bounded_def phases_def)

lemma audit_inv_start: "audit_inv (start_logger l)"
  by (simp add: audit_inv_defs start_logger_def held_def)

lemma fifo_finish: "fifo s \<Longrightarrow> fifo (log_finish ev e s)"
  by (simp add: fifo_def held_def log_finish_def Let_def)

lemma bounded_finish: "bounded s \<Longrightarrow> bounded (log_finish ev e s)"
  by (auto simp: bounded_def log_finish_def has_room_def Let_def)

lemma phases_finish: "phases s \<Longrightarrow> phases (log_finish ev e s)"
  by (cases "ac_AsyncWrite (al_config (sy_log s))"; cases "has_room s") (simp_all add: phases_def log_finish_def Let_def)

lemma audit_inv_handoff:
  assumes "audit_inv s" "ac_AsyncWrite (al_config (sy_log s))" "ac_BufferSize (al_config (sy_log s)) = 0"
    "sy_writer s = Receiving \<or> sy_writer s = Draining"
  shows "audit_inv (log_handoff e s)"
proof -
  have "sy_chan s = []" using assms(1,3) by (auto simp: audit_inv_def bounded_def)
  moreover from assms(4) have "held s = []" by (auto simp: held_def)
  moreover from assms(1) have "fifo s" "phases s" by (simp_all add: audit_inv_def)
  ultimately have "fifo (log_handoff e s)" "bounded (log_handoff e s)"
    using assms(4) by (auto simp: fifo_def bounded_def log_handoff_def held_def)
  moreover have "phases (log_handoff e s)"
    using \<open>phases s\<close> assms(2,4) by (cases "sy_writer s") (simp_all add: phases_def log_handoff_def)
  ultimately show ?thesis by (simp add: audit_inv_def)
qed

lemma audit_inv_step: "audit_step s s' \<Longrightarrow> audit_inv s \<Longrightarrow> audit_inv s'"
proof (induction rule: audit_step.induct)
  case (enter s now e)
  then show ?case by (simp add: audit_inv_def log_enter_def)
next
  case (finish e s ev)
  then show ?case by (simp add: audit_inv_def fifo_finish bounded_finish phases_finish)
next
  case (handoff e s)
  then show ?case by (simp add: audit_inv_handoff)
next
  case (writer ev p s s')
  then show ?case using fifo_writer bounded_writer phases_writer by (simp add: audit_inv_def)
next
  case (mark s)
  then have "fifo (close_mark s)" "bounded (close_mark s)"
    by (simp_all add: audit_inv_def fifo_def bounded_def held_def close_mark_def)
  moreover from mark have "phases s" by (simp add: audit_inv_def)
  then have "phases (close_mark s)"
    unfolding phases_def close_mark_def by (cases "sy_done s"; cases "sy_close s"; cases "ac_AsyncWrite (al_config (sy_log s))") simp_all
  ultimately show ?case by (simp add: audit_inv_def)
next
  case (signal s s')
  then show ?case by (auto simp: audit_inv_defs close_signal_def held_def split: if_splits)
next
  case (close s s')
  then show ?case by (auto simp: audit_inv_defs close_file_def held_def split: if_splits)
qed

lemma audit_inv_reach: "audit_step\<^sup>*\<^sup>* s s' \<Longrightarrow> audit_inv s \<Longrightarrow> audit_inv s'"
  by (induction rule: rtranclp_induct) (auto intro: audit_inv_step)

section \<open>Closing\<close>

text \<open>After the mark no call enters; with no call under way nothing is sent any more.\<close>

definition quiet :: "audit_system \<Rightarrow> bool" where
  "quiet s \<longleftrightarrow> sy_closed s \<and> sy_callers s = []"

lemma quiet_step:
  assumes "audit_step s s'" "quiet s" "audit_inv s"
  shows "quiet s' \<and> sy_sent s' = sy_sent s \<and> (sy_writer s = Exited \<longrightarrow> sy_chan s' = sy_chan s \<and> sy_writer s' = Exited)"
  using assms
proof (induction rule: audit_step.induct)
  case (writer ev p s s')
  then show ?case
    by (elim writer_step_cases) (auto simp: quiet_def)
qed (auto simp: quiet_def log_enter_def close_mark_def close_signal_def close_file_def split: if_splits)

definition flushed :: "audit_system \<Rightarrow> bool" where
  "flushed s \<longleftrightarrow> (sy_writer s = Exited \<longrightarrow> sy_chan s = [])"

lemma flushed_step:
  assumes "audit_step s s'" "quiet s" "audit_inv s" "flushed s"
  shows "flushed s'"
  using assms
proof (induction rule: audit_step.induct)
  case (writer ev p s s')
  then show ?case
    by (elim writer_step_cases) (auto simp: flushed_def)
qed (auto simp: quiet_def flushed_def log_enter_def close_mark_def close_signal_def close_file_def split: if_splits)

lemma quiet_reach:
  assumes "audit_step\<^sup>*\<^sup>* s s'" "quiet s" "audit_inv s" "flushed s"
  shows "quiet s' \<and> audit_inv s' \<and> flushed s' \<and> sy_sent s' = sy_sent s"
  using assms(1)
proof (induction rule: rtranclp_induct)
  case (step y z)
  then show ?case using quiet_step [of y z] flushed_step [of y z] audit_inv_step [of y z] by auto
qed (use assms in simp)

text \<open>The work the writer has left; each of its steps does some of it, and once it is told to stop it never blocks.\<close>

fun phase_work :: "writer_state \<Rightarrow> nat" where
  "phase_work Receiving = 2"
| "phase_work (Writing e) = 3"
| "phase_work Draining = 1"
| "phase_work (DrainWriting e) = 2"
| "phase_work Exited = 0"

definition writer_work :: "audit_system \<Rightarrow> nat" where
  "writer_work s = 2 * length (sy_chan s) + phase_work (sy_writer s)"

lemma writer_work_decreases: "writer_step ev p s = Some s' \<Longrightarrow> writer_work s' < writer_work s"
  by (erule writer_step_cases) (auto simp: writer_work_def)

lemma writer_not_stuck:
  assumes "sy_done s" "sy_writer s \<noteq> Exited"
  obtains s' where "writer_step ev p s = Some s'"
  using assms by (cases "sy_writer s"; cases "sy_chan s"; cases p) (auto simp: writer_step_def)

lemma writer_keeps_close: "writer_step ev p s = Some s' \<Longrightarrow> sy_close s' = sy_close s \<and> sy_done s' = sy_done s"
  by (erule writer_step_cases) auto

lemma writer_exits:
  "sy_done s \<Longrightarrow> \<exists>s'. audit_step\<^sup>*\<^sup>* s s' \<and> sy_writer s' = Exited \<and> sy_close s' = sy_close s"
proof (induction "writer_work s" arbitrary: s rule: less_induct)
  case less
  show ?case
  proof (cases "sy_writer s = Exited")
    case False
    obtain s1 where s1: "writer_step undefined True s = Some s1" by (rule writer_not_stuck [OF less.prems False])
    then have "writer_work s1 < writer_work s" "sy_done s1" "sy_close s1 = sy_close s"
      using writer_work_decreases writer_keeps_close less.prems by auto
    then obtain s' where "audit_step\<^sup>*\<^sup>* s1 s'" "sy_writer s' = Exited" "sy_close s' = sy_close s"
      using less.hyps [of s1] by auto
    moreover have "audit_step s s1" using s1 by (rule audit_step.writer)
    ultimately show ?thesis by (meson converse_rtranclp_into_rtranclp)
  qed auto
qed

lemma close_returns:
  assumes "audit_inv s" "sy_closed s" "sy_close s = NotClosing"
  shows "\<exists>s'. audit_step\<^sup>*\<^sup>* s s' \<and> sy_close s' = CloseDone"
proof -
  obtain s1 where s1: "close_signal s = Some s1" "sy_close s1 = WaitingForWriter"
    "sy_done s1 = ac_AsyncWrite (al_config (sy_log s))" "sy_writer s1 = sy_writer s"
    using assms by (simp add: close_signal_def)
  obtain s2 where s2: "audit_step\<^sup>*\<^sup>* s1 s2" "sy_writer s2 = Exited" "sy_close s2 = WaitingForWriter"
  proof (cases "ac_AsyncWrite (al_config (sy_log s))")
    case True
    with s1 writer_exits [of s1] that show ?thesis by auto
  next
    case False
    then have "sy_writer s = Exited" using assms(1) by (simp add: audit_inv_def phases_def)
    with s1 that [of s1] show ?thesis by simp
  qed
  then obtain s3 where s3: "close_file s2 = Some s3" "sy_close s3 = CloseDone" by (simp add: close_file_def)
  have "audit_step s s1" "audit_step s2 s3" using s1 s3 by (auto intro: audit_step.intros)
  with s2(1) s3(2) show ?thesis by (meson converse_rtranclp_into_rtranclp rtranclp.rtrancl_into_rtrancl)
qed


definition demo_busy :: audit_system where
  "demo_busy = log_finish demo_audit_env (stamped 5 (demo_audit_event ''10.0.0.2''))
     (log_enter 5 (demo_audit_event ''10.0.0.2'') (start_logger demo_audit_logger))"

lemma demo_busy_state:
  "sy_sent demo_busy = [stamped 5 (demo_audit_event ''10.0.0.2'')]" "sy_callers demo_busy = []" "sy_close demo_busy = NotClosing"
  by (simp_all add: demo_busy_def log_finish_def log_enter_def start_logger_def demo_audit_logger_def demo_audit_config_def has_room_def)

lemma demo_busy_reached: "audit_step\<^sup>*\<^sup>* (start_logger demo_audit_logger) demo_busy"
proof -
  let ?s = "log_enter 5 (demo_audit_event ''10.0.0.2'') (start_logger demo_audit_logger)"
  have "audit_step (start_logger demo_audit_logger) ?s" by (rule audit_step.enter)
  moreover have "audit_step ?s demo_busy"
    unfolding demo_busy_def by (rule audit_step.finish) (simp add: log_enter_def start_logger_def demo_audit_logger_def)
  ultimately show ?thesis by (meson r_into_rtranclp rtranclp.rtrancl_into_rtrancl)
qed


section \<open>A call that Close overtakes\<close>

lemma exited_handles_nothing:
  assumes "audit_step\<^sup>*\<^sup>* s s'" "sy_writer s = Exited"
  shows "sy_writer s' = Exited \<and> sy_handled s' = sy_handled s"
  using assms(1)
proof (induction rule: rtranclp_induct)
  case (step y z)
  from step.hyps(2) show ?case
  proof cases
    case (writer ev p)
    with step.IH show ?thesis by (simp add: writer_step_def)
  qed (use step.IH in \<open>auto simp: log_enter_def log_finish_def log_handoff_def close_mark_def close_signal_def close_file_def
        Let_def split: if_splits\<close>)
qed (use assms(2) in simp)

text \<open>
  An event whose call has passed the check of \<open>closed\<close> before \<open>Close\<close> marks the logger can be sent after the writer is gone:
  \<open>Log\<close> reports success and the event is never written.
\<close>

lemma overtaken_event_lost:
  assumes "ac_AsyncWrite (al_config l)" "0 < ac_BufferSize (al_config l)" "al_file l = HLog"
  shows "\<exists>s. audit_step\<^sup>*\<^sup>* (start_logger l) s \<and> sy_close s = CloseDone \<and> sy_sent s = [stamped now e] \<and>
    (\<forall>s'. audit_step\<^sup>*\<^sup>* s s' \<longrightarrow> sy_handled s' = [])"
proof -
  let ?e = "stamped now e"
  define s1 where "s1 = log_enter now e (start_logger l)"
  define s2 where "s2 = close_mark s1"
  define s3 where "s3 = s2\<lparr>sy_done := True, sy_close := WaitingForWriter\<rparr>"
  define s4 where "s4 = s3\<lparr>sy_writer := Draining\<rparr>"
  define s5 where "s5 = s4\<lparr>sy_writer := Exited\<rparr>"
  define s6 where "s6 = s5\<lparr>sy_close := CloseDone, sy_log := (sy_log s5)\<lparr>al_file := HClosed\<rparr>\<rparr>"
  define s7 where "s7 = log_finish demo_audit_env ?e s6"
  note defs = s1_def s2_def s3_def s4_def s5_def s6_def log_enter_def start_logger_def close_mark_def
  have "audit_step (start_logger l) s1" unfolding s1_def by (rule audit_step.enter)
  moreover have "audit_step s1 s2" unfolding s2_def by (rule audit_step.mark)
  moreover have "audit_step s2 s3" by (rule audit_step.signal) (use assms in \<open>simp add: close_signal_def defs\<close>)
  moreover have "audit_step s3 s4"
    by (rule audit_step.writer [of undefined True]) (use assms in \<open>simp add: writer_step_def defs\<close>)
  moreover have "audit_step s4 s5"
    by (rule audit_step.writer [of undefined True]) (use assms in \<open>simp add: writer_step_def defs\<close>)
  moreover have "audit_step s5 s6" by (rule audit_step.close) (use assms in \<open>simp add: close_file_def defs\<close>)
  moreover have "audit_step s6 s7" unfolding s7_def by (rule audit_step.finish) (use assms in \<open>simp add: defs\<close>)
  ultimately have "audit_step\<^sup>*\<^sup>* (start_logger l) s7" by (meson converse_rtranclp_into_rtranclp r_into_rtranclp)
  moreover have "sy_close s7 = CloseDone" "sy_sent s7 = [?e]" "sy_writer s7 = Exited" "sy_handled s7 = []"
    using assms by (simp_all add: s7_def log_finish_def has_room_def defs)
  ultimately show ?thesis using exited_handles_nothing by metis
qed

end
