(* ===== verification/Storage.thy ===== *)
theory Storage
  imports Validation Paths "HOL-Library.AList" "HOL-Library.Word" "HOL-Library.State_Monad"
begin

text \<open>
  \<open>pkg/storage\<close>: the ZFS backend. An operation is a computation in the state monad over the world outside
  the process and the list of command lines started so far; what \<open>zfs\<close>, \<open>cp\<close> and \<open>ssh\<close> answer is a
  field of the environment. A Go map of properties is the list of its pairs in the order a range visits them.
\<close>

section \<open>Data\<close>

record storage_config =
  sc_ZFSParentDataset :: string
  sc_Compression :: string

record zfs_backend =
  zb_config :: storage_config
  zb_parentDataset :: string

record volume_options =
  vo_Size :: string
  vo_Quota :: string
  vo_Properties :: "(string \<times> string) list"
  vo_Mountpoint :: string
  vo_CopyFrom :: string

record delete_options =
  do_Force :: bool
  do_Recursive :: bool
  do_KeepSnapshots :: bool

record zfs_volume =
  zv_Name :: string
  zv_FullName :: string
  zv_Path :: string
  zv_Backend :: string
  zv_Size :: int
  zv_Used :: int
  zv_Available :: int
  zv_Quota :: int
  zv_Created :: "int option"
  zv_Properties :: "(string \<times> string) list"
  zv_SnapshotCount :: nat
  zv_State :: string

record zfs_snapshot =
  zs_Name :: string
  zs_FullName :: string
  zs_VolumeName :: string
  zs_Created :: "int option"
  zs_Size :: int
  zs_Referenced :: int

record rollback_options =
  ro_Force :: bool
  ro_DestroyNewer :: bool

record clone_options =
  co_Mountpoint :: string
  co_Properties :: "(string \<times> string) list"

record send_receive_options =
  so_Incremental :: string
  so_Recursive :: bool
  so_Compressed :: bool

record zfs_dataset =
  zd_Name :: string
  zd_FullName :: string
  zd_Type :: string
  zd_Origin :: string
  zd_Compression :: string
  zd_Mountpoint :: string
  zd_Mounted :: bool
  zd_Recordsize :: int

text \<open>
  \<open>ze_Run\<close> is a command run to its end with the text it printed; \<open>ze_Start\<close>, \<open>ze_Kill\<close> and \<open>ze_Wait\<close> are the steps of two
  commands joined by a pipe, the last with the two exit errors and the two texts. \<open>ze_FloatSize\<close> is
  \<open>int64(f * float64(multiplier))\<close> for the number \<open>strconv.ParseFloat\<close> reads, \<^const>\<open>None\<close> when it reads none.
\<close>

record 'w zfs_env =
  ze_Run :: "string list \<Rightarrow> 'w \<Rightarrow> (go_error option \<times> string) \<times> 'w"
  ze_LookPath :: "go_error option"
  ze_ParentEnv :: string
  ze_PipeErr :: "go_error option"
  ze_Start :: "string list \<Rightarrow> 'w \<Rightarrow> go_error option \<times> 'w"
  ze_Kill :: "string list \<Rightarrow> 'w \<Rightarrow> 'w"
  ze_Wait :: "string list \<Rightarrow> string list \<Rightarrow> 'w \<Rightarrow> (go_error option \<times> go_error option \<times> string \<times> string) \<times> 'w"
  ze_FloatSize :: "string \<Rightarrow> int \<Rightarrow> int option"

record 'w zfs_state =
  zw_world :: 'w
  zw_log :: "string list list"

abbreviation ret :: "'a \<Rightarrow> ('s, 'a) state" where
  "ret \<equiv> State_Monad.return"

section \<open>Commands\<close>

definition zcmd :: "'w zfs_env \<Rightarrow> string list \<Rightarrow> ('w zfs_state, go_error option \<times> string) state" where
  "zcmd ev argv = State (\<lambda>s.
     case ze_Run ev argv (zw_world s) of (r, w) \<Rightarrow> (r, s\<lparr>zw_world := w, zw_log := zw_log s @ [argv]\<rparr>))"

definition zstart :: "'w zfs_env \<Rightarrow> string list \<Rightarrow> ('w zfs_state, go_error option) state" where
  "zstart ev argv = State (\<lambda>s.
     case ze_Start ev argv (zw_world s) of (r, w) \<Rightarrow> (r, s\<lparr>zw_world := w, zw_log := zw_log s @ [argv]\<rparr>))"

definition on_zworld :: "('w \<Rightarrow> 'a \<times> 'w) \<Rightarrow> ('w zfs_state, 'a) state" where
  "on_zworld f = State (\<lambda>s. case f (zw_world s) of (r, w) \<Rightarrow> (r, s\<lparr>zw_world := w\<rparr>))"

section \<open>Errors and sizes\<close>

definition StorageError :: "string \<Rightarrow> string \<Rightarrow> go_error \<Rightarrow> go_error" where
  "StorageError op volume err =
     (if volume \<noteq> [] then Wrapf ''%s %s (%s): %w'' [op, volume, ''zfs''] err else Wrapf ''%s (%s): %w'' [op, ''zfs''] err)"

definition errNotFound :: go_error where
  "errNotFound = Errorf ''not found'' []"

definition errExists :: go_error where
  "errExists = Errorf ''already exists'' []"

definition with_output :: "string \<Rightarrow> go_error \<Rightarrow> go_error" where
  "with_output out e = Wrapf ''%s: %w'' [trim_space out] e"

definition size_unit :: "char \<Rightarrow> int option" where
  "size_unit c =
     (if c \<in> {CHR ''K'', CHR ''k''} then Some 1024
      else if c \<in> {CHR ''M'', CHR ''m''} then Some (1024 * 1024)
      else if c \<in> {CHR ''G'', CHR ''g''} then Some (1024 * 1024 * 1024)
      else if c \<in> {CHR ''T'', CHR ''t''} then Some (1024 * 1024 * 1024 * 1024)
      else None)"

definition storage_ParseSize :: "string \<Rightarrow> int go_result" where
  "storage_ParseSize sz =
     (if sz = [] then Inr 0
      else
        let (multiplier, numStr) =
              (if 1 < length sz then
                 (case size_unit (last sz) of Some m \<Rightarrow> (m, butlast sz) | None \<Rightarrow> (1, sz))
               else (1, sz));
            invalid = Inl (Wrapf ''%s (%s): %w'' [''parse size'', []] (Errorf (''invalid number: '' @ numStr) []))
        in case parse_int64 numStr of
             Inl e \<Rightarrow> invalid
           | Inr v \<Rightarrow>
               if v < 0 then invalid
               else if v > (2 ^ 63 - 1) div multiplier then
                 Inl (Wrapf ''%s (%s): %w'' [''parse size'', []] (Errorf (''size overflow: '' @ sz) []))
               else Inr (v * multiplier))"

definition zfs_unit :: "char \<Rightarrow> int option" where
  "zfs_unit c =
     (if c \<in> {CHR ''K'', CHR ''k''} then Some (2 ^ 10)
      else if c \<in> {CHR ''M'', CHR ''m''} then Some (2 ^ 20)
      else if c \<in> {CHR ''G'', CHR ''g''} then Some (2 ^ 30)
      else if c \<in> {CHR ''T'', CHR ''t''} then Some (2 ^ 40)
      else if c \<in> {CHR ''P'', CHR ''p''} then Some (2 ^ 50)
      else if c \<in> {CHR ''E'', CHR ''e''} then Some (2 ^ 60)
      else None)"

definition parseZFSSize :: "'w zfs_env \<Rightarrow> string \<Rightarrow> int" where
  "parseZFSSize ev s0 =
     (let s = trim_space s0 in
      if s = [] \<or> s = ''-'' \<or> s = ''0'' then 0
      else case parse_int64 s of
        Inr n \<Rightarrow> n
      | Inl e \<Rightarrow>
          let s1 = (if 1 < length s \<and> (last s = CHR ''B'' \<or> last s = CHR ''b'') then butlast s else s);
              (multiplier, numStr) =
                (if 1 < length s1 then
                   (case zfs_unit (last s1) of Some m \<Rightarrow> (m, butlast s1) | None \<Rightarrow> (1, s1))
                 else (1, s1))
          in case ze_FloatSize ev numStr multiplier of Some v \<Rightarrow> v | None \<Rightarrow> 0)"

definition add_int64 :: "int \<Rightarrow> int \<Rightarrow> int" where
  "add_int64 a b = sint (word_of_int a + word_of_int b :: 64 word)"

section \<open>Datasets\<close>

definition fullDatasetName :: "zfs_backend \<Rightarrow> string \<Rightarrow> string" where
  "fullDatasetName z name =
     (if HasPrefix name (zb_parentDataset z @ ''/'') then name else zb_parentDataset z @ ''/'' @ name)"

definition snapshot_name :: "zfs_backend \<Rightarrow> string \<Rightarrow> string \<Rightarrow> string" where
  "snapshot_name z volumeName snapshotName = fullDatasetName z volumeName @ ''@'' @ snapshotName"

definition datasetExistsNoLock :: "'w zfs_env \<Rightarrow> string \<Rightarrow> ('w zfs_state, bool) state" where
  "datasetExistsNoLock ev ds = do {
     (err, out) \<leftarrow> zcmd ev [''zfs'', ''list'', ''-H'', ds];
     ret (err = None)
   }"

definition ensureDataset :: "'w zfs_env \<Rightarrow> string \<Rightarrow> ('w zfs_state, go_error option) state" where
  "ensureDataset ev ds = do {
     exists \<leftarrow> datasetExistsNoLock ev ds;
     if exists then ret None
     else do {
       (err, out) \<leftarrow> zcmd ev [''zfs'', ''create'', ''-p'', ds];
       ret (map_option (Wrapf ''zfs create failed: %s: %w'' [trim_space out]) err)
     }
   }"

text \<open>\<open>Initialize\<close>; the backend returned is the receiver as it leaves it.\<close>

definition storage_Initialize ::
    "'w zfs_env \<Rightarrow> storage_config \<Rightarrow> ('w zfs_state, go_error option \<times> zfs_backend) state" where
  "storage_Initialize ev config =
     (let z = \<lparr>zb_config = config,
               zb_parentDataset = (if sc_ZFSParentDataset config \<noteq> [] then sc_ZFSParentDataset config
                                   else Parent (ze_ParentEnv ev))\<rparr> in
      case ze_LookPath ev of
        Some e \<Rightarrow> ret (Some (Wrapf ''zfs command not found: %w'' [] e), z)
      | None \<Rightarrow> do {
          err \<leftarrow> ensureDataset ev (zb_parentDataset z);
          ret (map_option (Wrapf ''failed to ensure parent dataset: %w'' []) err, z)
        })"

definition destroyDataset :: "'w zfs_env \<Rightarrow> string \<Rightarrow> bool \<Rightarrow> ('w zfs_state, go_error option) state" where
  "destroyDataset ev ds recursive = do {
     (err, out) \<leftarrow> zcmd ev ([''zfs'', ''destroy'', ''-f''] @ (if recursive then [''-r''] else []) @ [ds]);
     ret err
   }"

definition getMountpoint :: "'w zfs_env \<Rightarrow> string \<Rightarrow> ('w zfs_state, string go_result) state" where
  "getMountpoint ev ds = do {
     (err, out) \<leftarrow> zcmd ev [''zfs'', ''get'', ''-H'', ''-o'', ''value'', ''mountpoint'', ds];
     ret (case err of Some e \<Rightarrow> Inl e | None \<Rightarrow> Inr (trim_space out))
   }"

definition newline :: char where
  "newline = CHR 0x0A"

definition tab :: char where
  "tab = CHR 0x09"

definition add_property :: "(string \<times> string) list \<Rightarrow> string \<Rightarrow> (string \<times> string) list" where
  "add_property props line =
     (case split_on tab line of ds # k # v # rest \<Rightarrow> AList.update k v props | _ \<Rightarrow> props)"

definition getProperties :: "'w zfs_env \<Rightarrow> string \<Rightarrow> ('w zfs_state, (string \<times> string) list go_result) state" where
  "getProperties ev ds = do {
     (err, out) \<leftarrow> zcmd ev [''zfs'', ''get'', ''-H'', ''-p'', ''all'', ds];
     ret (case err of
        Some e \<Rightarrow> Inl e
      | None \<Rightarrow> Inr (fold (\<lambda>line props. add_property props line) (split_on newline out) []))
   }"

section \<open>Snapshots of a volume\<close>

definition unix_time :: "string \<Rightarrow> int option" where
  "unix_time s = (case parse_int64 s of Inr ts \<Rightarrow> Some ts | Inl e \<Rightarrow> None)"

definition snapshot_of_line :: "'w zfs_env \<Rightarrow> string \<Rightarrow> string \<Rightarrow> zfs_snapshot option" where
  "snapshot_of_line ev volumeName line =
     (if line = [] then None
      else case go_fields line of
        fullName # creation # used # referenced # rest \<Rightarrow>
          (case cut_at CHR ''@'' fullName of
             None \<Rightarrow> None
           | Some (ds, snap) \<Rightarrow>
               Some \<lparr>zs_Name = snap, zs_FullName = fullName, zs_VolumeName = volumeName, zs_Created = unix_time creation,
                     zs_Size = parseZFSSize ev used, zs_Referenced = parseZFSSize ev referenced\<rparr>)
      | _ \<Rightarrow> None)"

definition snapshot_columns :: string where
  "snapshot_columns = ''name,creation,used,referenced''"

definition listSnapshotsNoLock ::
    "'w zfs_env \<Rightarrow> zfs_backend \<Rightarrow> string \<Rightarrow> ('w zfs_state, zfs_snapshot list go_result) state" where
  "listSnapshotsNoLock ev z volumeName = do {
     (err, out) \<leftarrow> zcmd ev [''zfs'', ''list'', ''-H'', ''-t'', ''snapshot'', ''-o'', snapshot_columns, ''-r'', fullDatasetName z volumeName];
     case err of
       Some e \<Rightarrow> do {
         exists \<leftarrow> datasetExistsNoLock ev (fullDatasetName z volumeName);
         ret (if exists then Inl (StorageError ''list snapshots'' volumeName e) else Inr [])
       }
     | None \<Rightarrow> ret (Inr (List.map_filter (snapshot_of_line ev volumeName) (split_on newline (trim_space out))))
   }"

definition getSnapshotNoLock ::
    "'w zfs_env \<Rightarrow> zfs_backend \<Rightarrow> string \<Rightarrow> string \<Rightarrow> ('w zfs_state, zfs_snapshot go_result) state" where
  "getSnapshotNoLock ev z volumeName snapshotName = do {
     (err, out) \<leftarrow> zcmd ev [''zfs'', ''list'', ''-H'', ''-t'', ''snapshot'', ''-o'', snapshot_columns, snapshot_name z volumeName snapshotName];
     ret (case err of
        Some e \<Rightarrow> Inl (StorageError ''get snapshot'' (volumeName @ ''@'' @ snapshotName) errNotFound)
      | None \<Rightarrow>
          (case go_fields (trim_space out) of
             n # creation # used # referenced # rest \<Rightarrow>
               Inr \<lparr>zs_Name = snapshotName, zs_FullName = snapshot_name z volumeName snapshotName, zs_VolumeName = volumeName,
                    zs_Created = unix_time creation, zs_Size = parseZFSSize ev used, zs_Referenced = parseZFSSize ev referenced\<rparr>
           | _ \<Rightarrow> Inl (StorageError ''get snapshot'' (volumeName @ ''@'' @ snapshotName) errNotFound)))
   }"

section \<open>Volumes\<close>

definition prop_or :: "string \<Rightarrow> (string \<times> string) list \<Rightarrow> string" where
  "prop_or k props = (case map_of props k of Some v \<Rightarrow> v | None \<Rightarrow> [])"

definition volumeState :: "(string \<times> string) list \<Rightarrow> string" where
  "volumeState props =
     (if prop_or ''type'' props = ''volume'' then ''available''
      else if prop_or ''mounted'' props = ''yes'' then ''mounted''
      else ''unmounted'')"

definition volume_of_props ::
    "'w zfs_env \<Rightarrow> string \<Rightarrow> string \<Rightarrow> (string \<times> string) list \<Rightarrow> nat \<Rightarrow> zfs_volume" where
  "volume_of_props ev name ds props snapshots =
     (let size_of = (\<lambda>k. case map_of props k of Some v \<Rightarrow> parseZFSSize ev v | None \<Rightarrow> 0) in
      \<lparr>zv_Name = name, zv_FullName = ds, zv_Path = prop_or ''mountpoint'' props, zv_Backend = ''zfs'',
       zv_Size = add_int64 (size_of ''used'') (size_of ''available''), zv_Used = size_of ''used'',
       zv_Available = size_of ''available'',
       zv_Quota = (if map_of props ''quota'' = Some ''none'' then 0 else size_of ''quota''),
       zv_Created = (case map_of props ''creation'' of Some c \<Rightarrow> unix_time c | None \<Rightarrow> None),
       zv_Properties = props, zv_SnapshotCount = snapshots, zv_State = volumeState props\<rparr>)"

definition getVolumeNoLock :: "'w zfs_env \<Rightarrow> zfs_backend \<Rightarrow> string \<Rightarrow> ('w zfs_state, zfs_volume go_result) state" where
  "getVolumeNoLock ev z name = do {
     exists \<leftarrow> datasetExistsNoLock ev (fullDatasetName z name);
     if \<not> exists then ret (Inl (StorageError ''get volume'' name errNotFound))
     else do {
       props \<leftarrow> getProperties ev (fullDatasetName z name);
       case props of
         Inl e \<Rightarrow> ret (Inl e)
       | Inr ps \<Rightarrow> do {
           snapshots \<leftarrow> listSnapshotsNoLock ev z name;
           ret (Inr (volume_of_props ev name (fullDatasetName z name) ps
                       (case snapshots of Inr ss \<Rightarrow> length ss | Inl e \<Rightarrow> 0)))
         }
     }
   }"

definition property_args :: "(string \<times> string) list \<Rightarrow> string list" where
  "property_args ps = concat (map (\<lambda>(k, v). [''-o'', k @ ''='' @ v]) ps)"

text \<open>The properties of \<open>zfs create\<close>: the defaults that no entry of \<open>Properties\<close> names, then those entries.\<close>

definition create_properties :: "zfs_backend \<Rightarrow> volume_options \<Rightarrow> (string \<times> string) list" where
  "create_properties z opts =
     (let given = (\<lambda>k. k \<in> fst ` set (vo_Properties opts)); isVolume = vo_Size opts \<noteq> [] in
      (if \<not> given ''quota'' \<and> vo_Quota opts \<noteq> [] \<and> \<not> isVolume then [(''quota'', vo_Quota opts)] else []) @
      (if \<not> given ''mountpoint'' \<and> vo_Mountpoint opts \<noteq> [] \<and> \<not> isVolume then [(''mountpoint'', vo_Mountpoint opts)] else []) @
      (if \<not> given ''compression'' \<and> sc_Compression (zb_config z) \<noteq> [] \<and> sc_Compression (zb_config z) \<noteq> ''off''
       then [(''compression'', sc_Compression (zb_config z))] else []) @
      vo_Properties opts)"

definition create_argv :: "zfs_backend \<Rightarrow> string \<Rightarrow> volume_options \<Rightarrow> string list" where
  "create_argv z name opts =
     [''zfs'', ''create''] @ (if vo_Size opts \<noteq> [] then [''-V'', vo_Size opts] else []) @
     property_args (create_properties z opts) @ [''-p'', fullDatasetName z name]"

definition usable_mountpoint :: "string \<Rightarrow> bool" where
  "usable_mountpoint m \<longleftrightarrow> \<not> (m = [] \<or> m = ''none'' \<or> m = ''legacy'')"

text \<open>The copy of the initial content: an error destroys the dataset again.\<close>

definition copy_content :: "'w zfs_env \<Rightarrow> string \<Rightarrow> string \<Rightarrow> string \<Rightarrow> ('w zfs_state, go_error option) state" where
  "copy_content ev name ds source = do {
     mountpoint \<leftarrow> getMountpoint ev ds;
     case mountpoint of
       Inl e \<Rightarrow> do {
         destroyDataset ev ds True;
         ret (Some (StorageError ''create volume'' name
                      (Wrapf ''cannot copy content: dataset %s has no usable mountpoint: %w'' [ds] e)))
       }
     | Inr m \<Rightarrow>
         if \<not> usable_mountpoint m then do {
           destroyDataset ev ds True;
           ret (Some (StorageError ''create volume'' name
                        (Errorf ''cannot copy content: dataset %s has no usable mountpoint (%q)'' [ds, m])))
         }
         else do {
           (err, out) \<leftarrow> zcmd ev [''cp'', ''-a'', source @ ''/.'', m @ ''/''];
           case err of
             None \<Rightarrow> ret None
           | Some e \<Rightarrow> do {
               destroyDataset ev ds True;
               ret (Some (Wrapf ''failed to copy content: %s: %w'' [out] e))
             }
         }
   }"

definition CreateVolume ::
    "'w zfs_env \<Rightarrow> zfs_backend \<Rightarrow> string \<Rightarrow> volume_options \<Rightarrow> ('w zfs_state, zfs_volume go_result) state" where
  "CreateVolume ev z name opts = do {
     exists \<leftarrow> datasetExistsNoLock ev (fullDatasetName z name);
     if exists then ret (Inl (StorageError ''create volume'' name errExists))
     else do {
       (err, out) \<leftarrow> zcmd ev (create_argv z name opts);
       case err of
         Some e \<Rightarrow> ret (Inl (StorageError ''create volume'' name (with_output out e)))
       | None \<Rightarrow>
           if vo_CopyFrom opts = [] then getVolumeNoLock ev z name
           else do {
             copyErr \<leftarrow> copy_content ev name (fullDatasetName z name) (vo_CopyFrom opts);
             case copyErr of Some e \<Rightarrow> ret (Inl e) | None \<Rightarrow> getVolumeNoLock ev z name
           }
     }
   }"

definition DeleteVolume ::
    "'w zfs_env \<Rightarrow> zfs_backend \<Rightarrow> string \<Rightarrow> delete_options \<Rightarrow> ('w zfs_state, go_error option) state" where
  "DeleteVolume ev z name opts = do {
     exists \<leftarrow> datasetExistsNoLock ev (fullDatasetName z name);
     if \<not> exists then ret None
     else if do_KeepSnapshots opts \<and> do_Recursive opts then
       ret (Some (StorageError ''delete volume'' name
              (Errorf ''KeepSnapshots and Recursive cannot both be set: zfs destroy -r removes the snapshots'' [])))
     else do {
       (err, out) \<leftarrow> zcmd ev ([''zfs'', ''destroy''] @ (if do_Force opts then [''-f''] else []) @
                     (if do_Recursive opts then [''-r''] else []) @ [fullDatasetName z name]);
       ret (case err of
          None \<Rightarrow> None
        | Some e \<Rightarrow> if Contains (trim_space out) ''dataset does not exist'' then None
                     else Some (StorageError ''delete volume'' name (with_output out e)))
     }
   }"

definition list_argv :: "zfs_backend \<Rightarrow> string list" where
  "list_argv z = [''zfs'', ''list'', ''-H'', ''-r'', ''-t'', ''filesystem,volume'', ''-o'', ''name'', zb_parentDataset z]"

text \<open>The short name of a line of the listing: none for the parent itself and for what is not below it.\<close>

definition listed_name :: "zfs_backend \<Rightarrow> string \<Rightarrow> string option" where
  "listed_name z line =
     (if line = [] \<or> line = zb_parentDataset z then None
      else if HasPrefix line (zb_parentDataset z @ ''/'') then Some (drop (length (zb_parentDataset z) + 1) line)
      else None)"

fun get_volumes :: "'w zfs_env \<Rightarrow> zfs_backend \<Rightarrow> string list \<Rightarrow> ('w zfs_state, zfs_volume list) state" where
  "get_volumes ev z [] = ret []"
| "get_volumes ev z (n # ns) = do {
     vol \<leftarrow> getVolumeNoLock ev z n;
     vols \<leftarrow> get_volumes ev z ns;
     ret (case vol of Inl e \<Rightarrow> vols | Inr v \<Rightarrow> v # vols)
   }"

definition listVolumesNoLock :: "'w zfs_env \<Rightarrow> zfs_backend \<Rightarrow> ('w zfs_state, zfs_volume list go_result) state" where
  "listVolumesNoLock ev z = do {
     (err, out) \<leftarrow> zcmd ev (list_argv z);
     case err of
       Some e \<Rightarrow> ret (Inl (StorageError ''list volumes'' [] e))
     | None \<Rightarrow> do {
         vols \<leftarrow> get_volumes ev z (List.map_filter (listed_name z) (split_on newline (trim_space out)));
         ret (Inr vols)
       }
   }"

definition GetVolumePath :: "'w zfs_env \<Rightarrow> zfs_backend \<Rightarrow> string \<Rightarrow> ('w zfs_state, string go_result) state" where
  "GetVolumePath ev z name = getMountpoint ev (fullDatasetName z name)"

definition set_property :: "'w zfs_env \<Rightarrow> zfs_backend \<Rightarrow> string \<Rightarrow> string \<Rightarrow> string \<Rightarrow> ('w zfs_state, go_error option) state" where
  "set_property ev z op volumeName assignment = do {
     (err, out) \<leftarrow> zcmd ev [''zfs'', ''set'', assignment, fullDatasetName z volumeName];
     ret (map_option (\<lambda>e. StorageError op volumeName (with_output out e)) err)
   }"

definition SetQuota :: "'w zfs_env \<Rightarrow> zfs_backend \<Rightarrow> string \<Rightarrow> string \<Rightarrow> ('w zfs_state, go_error option) state" where
  "SetQuota ev z volumeName quota = set_property ev z ''set quota'' volumeName (''quota='' @ quota)"

definition SetReservation :: "'w zfs_env \<Rightarrow> zfs_backend \<Rightarrow> string \<Rightarrow> string \<Rightarrow> ('w zfs_state, go_error option) state" where
  "SetReservation ev z volumeName reservation = set_property ev z ''set reservation'' volumeName (''reservation='' @ reservation)"

definition get_number :: "'w zfs_env \<Rightarrow> zfs_backend \<Rightarrow> string \<Rightarrow> string \<Rightarrow> ('w zfs_state, int go_result) state" where
  "get_number ev z property volumeName = do {
     (err, out) \<leftarrow> zcmd ev [''zfs'', ''get'', ''-H'', ''-o'', ''value'', ''-p'', property, fullDatasetName z volumeName];
     ret (case err of
        Some e \<Rightarrow> Inl e
      | None \<Rightarrow> let v = trim_space out in if v = ''0'' \<or> v = ''none'' then Inr 0 else parse_int64 v)
   }"

definition GetQuota :: "'w zfs_env \<Rightarrow> zfs_backend \<Rightarrow> string \<Rightarrow> ('w zfs_state, int go_result) state" where
  "GetQuota ev z volumeName = get_number ev z ''quota'' volumeName"

definition GetReservation :: "'w zfs_env \<Rightarrow> zfs_backend \<Rightarrow> string \<Rightarrow> ('w zfs_state, int go_result) state" where
  "GetReservation ev z volumeName = get_number ev z ''reservation'' volumeName"

definition ResizeVolume :: "'w zfs_env \<Rightarrow> zfs_backend \<Rightarrow> string \<Rightarrow> string \<Rightarrow> ('w zfs_state, go_error option) state" where
  "ResizeVolume ev z name newSize = do {
     (err, out) \<leftarrow> zcmd ev [''zfs'', ''get'', ''-H'', ''-o'', ''value'', ''type'', fullDatasetName z name];
     case err of
       Some e \<Rightarrow> ret (Some (StorageError ''resize volume'' name e))
     | None \<Rightarrow>
         if trim_space out = ''volume'' then do {
           (err2, out2) \<leftarrow> zcmd ev [''zfs'', ''set'', ''volsize='' @ newSize, fullDatasetName z name];
           ret (map_option (\<lambda>e. StorageError ''resize volume'' name (Wrapf ''%w: %s'' [trim_space out2] e)) err2)
         }
         else SetQuota ev z name newSize
   }"

definition mount_command ::
    "'w zfs_env \<Rightarrow> zfs_backend \<Rightarrow> string \<Rightarrow> string \<Rightarrow> string \<Rightarrow> ('w zfs_state, go_error option) state" where
  "mount_command ev z verb harmless name = do {
     (err, out) \<leftarrow> zcmd ev [''zfs'', verb, fullDatasetName z name];
     ret (case err of
        None \<Rightarrow> None
      | Some e \<Rightarrow> if Contains out harmless then None else Some (StorageError verb name (with_output out e)))
   }"

definition MountVolume :: "'w zfs_env \<Rightarrow> zfs_backend \<Rightarrow> string \<Rightarrow> ('w zfs_state, go_error option) state" where
  "MountVolume ev z name = mount_command ev z ''mount'' ''already mounted'' name"

definition UnmountVolume :: "'w zfs_env \<Rightarrow> zfs_backend \<Rightarrow> string \<Rightarrow> ('w zfs_state, go_error option) state" where
  "UnmountVolume ev z name = mount_command ev z ''unmount'' ''not currently mounted'' name"

section \<open>Replication\<close>

definition send_argv :: "string \<Rightarrow> send_receive_options \<Rightarrow> string list" where
  "send_argv source opts =
     [''zfs'', ''send''] @ (if so_Incremental opts \<noteq> [] then [''-i'', so_Incremental opts] else []) @
     (if so_Recursive opts then [''-R''] else []) @ (if so_Compressed opts then [''-c''] else []) @ [source]"

definition receive_argv :: "string \<Rightarrow> string list go_result" where
  "receive_argv destination =
     (if Contains destination '':'' then
        (case ValidateSSHDestination destination of
           Inl e \<Rightarrow> Inl (Wrapf ''invalid destination: %w'' [] e)
         | Inr (host, target) \<Rightarrow> Inr [''ssh'', ''--'', host, ''zfs'', ''receive'', ''-F'', target])
      else Inr [''zfs'', ''receive'', ''-F'', destination])"

definition pipe_streams :: "'w zfs_env \<Rightarrow> string list \<Rightarrow> string list \<Rightarrow> ('w zfs_state, go_error option) state" where
  "pipe_streams ev send recv = do {
     recvStart \<leftarrow> zstart ev recv;
     case recvStart of
       Some e \<Rightarrow> ret (Some (Wrapf ''failed to start zfs receive: %w'' [] e))
     | None \<Rightarrow> do {
         sendStart \<leftarrow> zstart ev send;
         case sendStart of
           Some e \<Rightarrow> do {
             on_zworld (\<lambda>w. ((), ze_Kill ev recv w));
             ret (Some (Wrapf ''failed to start zfs send: %w'' [] e))
           }
         | None \<Rightarrow> do {
             (sendErr, recvErr, sendText, recvText) \<leftarrow> on_zworld (ze_Wait ev send recv);
             ret (case sendErr of
                Some e \<Rightarrow> Some (Wrapf ''zfs send failed: %s: %w'' [trim_space sendText] e)
              | None \<Rightarrow> map_option (Wrapf ''zfs receive failed: %s: %w'' [recvText]) recvErr)
           }
       }
   }"

definition SendReceive ::
    "'w zfs_env \<Rightarrow> string \<Rightarrow> string \<Rightarrow> send_receive_options \<Rightarrow> ('w zfs_state, go_error option) state" where
  "SendReceive ev source destination opts =
     (case receive_argv destination of
        Inl e \<Rightarrow> ret (Some e)
      | Inr recv \<Rightarrow>
          (case ze_PipeErr ev of
             Some e \<Rightarrow> ret (Some (Wrapf ''failed to create pipe: %w'' [] e))
           | None \<Rightarrow> pipe_streams ev (send_argv source opts) recv))"

definition ReplicateVolume ::
    "'w zfs_env \<Rightarrow> zfs_backend \<Rightarrow> string \<Rightarrow> string \<Rightarrow> send_receive_options \<Rightarrow> ('w zfs_state, go_error option) state" where
  "ReplicateVolume ev z name target opts = SendReceive ev (fullDatasetName z name) target opts"

section \<open>Snapshots and clones\<close>

definition CreateSnapshot_op ::
    "'w zfs_env \<Rightarrow> zfs_backend \<Rightarrow> string \<Rightarrow> string \<Rightarrow> bool \<Rightarrow> ('w zfs_state, zfs_snapshot go_result) state" where
  "CreateSnapshot_op ev z volumeName snapshotName recursive = do {
     (err, out) \<leftarrow> zcmd ev ([''zfs'', ''snapshot''] @ (if recursive then [''-r''] else []) @ [snapshot_name z volumeName snapshotName]);
     case err of
       Some e \<Rightarrow> ret (Inl (StorageError ''create snapshot'' (volumeName @ ''@'' @ snapshotName) (with_output out e)))
     | None \<Rightarrow> getSnapshotNoLock ev z volumeName snapshotName
   }"

definition DeleteSnapshot_op ::
    "'w zfs_env \<Rightarrow> zfs_backend \<Rightarrow> string \<Rightarrow> string \<Rightarrow> ('w zfs_state, go_error option) state" where
  "DeleteSnapshot_op ev z volumeName snapshotName = do {
     (err, out) \<leftarrow> zcmd ev [''zfs'', ''destroy'', snapshot_name z volumeName snapshotName];
     ret (case err of
        None \<Rightarrow> None
      | Some e \<Rightarrow> if Contains (trim_space out) ''could not find any snapshots'' then None
                   else Some (StorageError ''delete snapshot'' (volumeName @ ''@'' @ snapshotName) (with_output out e)))
   }"

definition RollbackSnapshot ::
    "'w zfs_env \<Rightarrow> zfs_backend \<Rightarrow> string \<Rightarrow> string \<Rightarrow> rollback_options \<Rightarrow> ('w zfs_state, go_error option) state" where
  "RollbackSnapshot ev z volumeName snapshotName opts = do {
     (err, out) \<leftarrow> zcmd ev ([''zfs'', ''rollback''] @ (if ro_Force opts then [''-f''] else []) @
                   (if ro_DestroyNewer opts then [''-r''] else []) @ [snapshot_name z volumeName snapshotName]);
     ret (map_option (\<lambda>e. StorageError ''rollback'' (volumeName @ ''@'' @ snapshotName) (with_output out e)) err)
   }"

definition SnapshotExists :: "'w zfs_env \<Rightarrow> zfs_backend \<Rightarrow> string \<Rightarrow> string \<Rightarrow> ('w zfs_state, bool) state" where
  "SnapshotExists ev z volumeName snapshotName = do {
     (err, out) \<leftarrow> zcmd ev [''zfs'', ''list'', ''-H'', ''-t'', ''snapshot'', snapshot_name z volumeName snapshotName];
     ret (err = None)
   }"

definition ensureOwnSnapshotName :: "zfs_backend \<Rightarrow> string \<Rightarrow> go_error option" where
  "ensureOwnSnapshotName z name =
     (let notSnapshot = Some (StorageError ''clone'' [] (Errorf ''refusing %q: not a snapshot name'' [name])) in
      case cut_at CHR ''@'' name of
        None \<Rightarrow> notSnapshot
      | Some (ds, snap) \<Rightarrow>
          if snap = [] then notSnapshot
          else (case ValidateSnapshotName snap of
              Some e \<Rightarrow> Some (StorageError ''clone'' [] (Wrapf ''refusing %q: %w'' [name] e))
            | None \<Rightarrow>
                if ds \<noteq> zb_parentDataset z \<and> \<not> HasPrefix ds (zb_parentDataset z @ ''/'') then
                  Some (StorageError ''clone'' [] (Errorf ''refusing %q: %s is outside %s'' [name, ds, zb_parentDataset z]))
                else None))"

definition clone_argv :: "zfs_backend \<Rightarrow> string \<Rightarrow> string \<Rightarrow> clone_options \<Rightarrow> string list" where
  "clone_argv z snapshotFullName cloneName opts =
     [''zfs'', ''clone''] @
     property_args ((if ''mountpoint'' \<notin> fst ` set (co_Properties opts) \<and> co_Mountpoint opts \<noteq> []
                     then [(''mountpoint'', co_Mountpoint opts)] else []) @ co_Properties opts) @
     [snapshotFullName, fullDatasetName z cloneName]"

definition CreateClone ::
    "'w zfs_env \<Rightarrow> zfs_backend \<Rightarrow> string \<Rightarrow> string \<Rightarrow> clone_options \<Rightarrow> ('w zfs_state, zfs_volume go_result) state" where
  "CreateClone ev z snapshotFullName cloneName opts =
     (case ensureOwnSnapshotName z snapshotFullName of
        Some e \<Rightarrow> ret (Inl e)
      | None \<Rightarrow> do {
          (err, out) \<leftarrow> zcmd ev (clone_argv z snapshotFullName cloneName opts);
          case err of
            Some e \<Rightarrow> ret (Inl (StorageError ''create clone'' cloneName (with_output out e)))
          | None \<Rightarrow> getVolumeNoLock ev z cloneName
        })"

definition PromoteClone :: "'w zfs_env \<Rightarrow> zfs_backend \<Rightarrow> string \<Rightarrow> ('w zfs_state, go_error option) state" where
  "PromoteClone ev z cloneName = do {
     (err, out) \<leftarrow> zcmd ev [''zfs'', ''promote'', fullDatasetName z cloneName];
     ret (map_option (\<lambda>e. StorageError ''promote clone'' cloneName (with_output out e)) err)
   }"

definition getCloneOriginNoLock :: "'w zfs_env \<Rightarrow> zfs_backend \<Rightarrow> string \<Rightarrow> ('w zfs_state, string go_result) state" where
  "getCloneOriginNoLock ev z cloneName = do {
     (err, out) \<leftarrow> zcmd ev [''zfs'', ''get'', ''-H'', ''-o'', ''value'', ''origin'', fullDatasetName z cloneName];
     ret (case err of
        Some e \<Rightarrow> Inl e
      | None \<Rightarrow> let origin = trim_space out in if origin = ''-'' then Inr [] else Inr origin)
   }"

fun keep_clones :: "'w zfs_env \<Rightarrow> zfs_backend \<Rightarrow> string \<Rightarrow> zfs_volume list \<Rightarrow> ('w zfs_state, zfs_volume list) state" where
  "keep_clones ev z ds [] = ret []"
| "keep_clones ev z ds (v # vs) = do {
     origin \<leftarrow> getCloneOriginNoLock ev z (zv_Name v);
     rest \<leftarrow> keep_clones ev z ds vs;
     ret (if (case origin of Inr s \<Rightarrow> HasPrefix s (ds @ ''@'') | Inl e \<Rightarrow> False) then v # rest else rest)
   }"

definition ListClones :: "'w zfs_env \<Rightarrow> zfs_backend \<Rightarrow> string \<Rightarrow> ('w zfs_state, zfs_volume list go_result) state" where
  "ListClones ev z volumeName = do {
     vols \<leftarrow> listVolumesNoLock ev z;
     case vols of
       Inl e \<Rightarrow> ret (Inl e)
     | Inr vs \<Rightarrow> do {
         clones \<leftarrow> keep_clones ev z (fullDatasetName z volumeName) vs;
         ret (Inr clones)
       }
   }"

section \<open>Raw datasets\<close>

definition dataset_properties :: "string list" where
  "dataset_properties = [''name'', ''type'', ''origin'', ''compression'', ''mountpoint'', ''mounted'', ''recordsize'']"

definition GetDataset :: "'w zfs_env \<Rightarrow> zfs_backend \<Rightarrow> string \<Rightarrow> ('w zfs_state, zfs_dataset go_result) state" where
  "GetDataset ev z name = do {
     (err, out) \<leftarrow> zcmd ev [''zfs'', ''get'', ''-Hp'', ''-o'', ''value'', join_with CHR '','' dataset_properties, fullDatasetName z name];
     ret (case err of
        Some e \<Rightarrow> Inl (Wrapf ''failed to get dataset properties: %w'' [] e)
      | None \<Rightarrow>
          (case split_on newline (trim_space out) of
             full # type # origin # compression # mountpoint # mounted # recordsize # rest \<Rightarrow>
               Inr \<lparr>zd_Name = (case cut_last CHR ''/'' full of Some (a, b) \<Rightarrow> b | None \<Rightarrow> full), zd_FullName = full, zd_Type = type,
                    zd_Origin = (if origin \<noteq> ''-'' then origin else []), zd_Compression = compression, zd_Mountpoint = mountpoint,
                    zd_Mounted = (mounted = ''yes''),
                    zd_Recordsize = (case parse_int64 recordsize of Inr v \<Rightarrow> v | Inl e \<Rightarrow> 0)\<rparr>
           | _ \<Rightarrow> Inl (Errorf ''unexpected output from zfs get'' [])))
   }"

definition SetProperty :: "'w zfs_env \<Rightarrow> string \<Rightarrow> string \<Rightarrow> string \<Rightarrow> ('w zfs_state, go_error option) state" where
  "SetProperty ev ds property value = do {
     (err, out) \<leftarrow> zcmd ev [''zfs'', ''set'', property @ ''='' @ value, ds];
     ret err
   }"

definition GetProperty :: "'w zfs_env \<Rightarrow> string \<Rightarrow> string \<Rightarrow> ('w zfs_state, string go_result) state" where
  "GetProperty ev ds property = do {
     (err, out) \<leftarrow> zcmd ev [''zfs'', ''get'', ''-H'', ''-o'', ''value'', property, ds];
     ret (case err of Some e \<Rightarrow> Inl e | None \<Rightarrow> Inr (trim_space out))
   }"

definition Scrub :: "'w zfs_env \<Rightarrow> string \<Rightarrow> ('w zfs_state, go_error option) state" where
  "Scrub ev pool = do {
     (err, out) \<leftarrow> zcmd ev [''zpool'', ''scrub'', pool];
     ret err
   }"

end
