(* ===== verification/Computations.thy ===== *)
theory Computations
  imports Prelude "HOL-Library.State_Monad"
begin

text \<open>
  Computations in the state monad that keep a log of what they do: the relations between the states before and after that are shown step
  by step through a \<open>do\<close> block.
\<close>

section \<open>Relations a computation respects\<close>

text \<open>
  What every state step of a computation has to be to conclude anything about the whole: reflexive and transitive. The lemmas
  walk through a \<open>do\<close> block.
\<close>

locale state_relation =
  fixes R :: "'s \<Rightarrow> 's \<Rightarrow> bool"
  assumes R_refl: "R s s"
    and R_trans: "R s t \<Longrightarrow> R t u \<Longrightarrow> R s u"
begin

lemma io_return: "state_io_rel R (State_Monad.return x)"
  by (auto simp: R_refl)

lemma io_bind:
  assumes "state_io_rel R m" "\<And>a. state_io_rel R (f a)"
  shows "state_io_rel R (State_Monad.bind m f)"
  using assms R_trans unfolding state_io_rel_def by (auto split: prod.splits) (metis snd_conv)+

end

end
