(* ===== verification/Storage_Thms.thy ===== *)
theory Storage_Thms
  imports Storage Computations
begin

text \<open>
  The ZFS backend: which command lines its operations start, and what its parsers make of the output of \<open>zfs\<close>.
\<close>

section \<open>The commands a computation starts\<close>

definition log_grows :: "(string list \<Rightarrow> bool) \<Rightarrow> 'w zfs_state \<Rightarrow> 'w zfs_state \<Rightarrow> bool" where
  "log_grows P s s' \<longleftrightarrow> (\<exists>xs. zw_log s' = zw_log s @ xs \<and> list_all P xs)"

interpretation lg: state_relation "log_grows P" for P
proof
  show "log_grows P s s" for s by (auto simp: log_grows_def)
  show "log_grows P s t \<Longrightarrow> log_grows P t u \<Longrightarrow> log_grows P s u" for s t u
    by (auto simp: log_grows_def)
qed

lemma zcmd_grows: "P argv \<Longrightarrow> state_io_rel (log_grows P) (zcmd ev argv)"
  by (auto simp: zcmd_def state_io_rel_def log_grows_def split: prod.splits)

lemma zstart_grows: "P argv \<Longrightarrow> state_io_rel (log_grows P) (zstart ev argv)"
  by (auto simp: zstart_def state_io_rel_def log_grows_def split: prod.splits)

lemma on_zworld_grows: "state_io_rel (log_grows P) (on_zworld f)"
  by (auto simp: on_zworld_def state_io_rel_def log_grows_def split: prod.splits)

lemmas grows_intros = lg.io_return lg.io_bind zcmd_grows zstart_grows on_zworld_grows

lemma log_growsD: "state_io_rel (log_grows P) m \<Longrightarrow> list_all P (drop (length (zw_log s)) (zw_log (snd (run_state m s))))"
  by (auto simp: state_io_rel_def log_grows_def dest!: spec [of _ s])

section \<open>Commands stay below the parent dataset\<close>

definition own :: "zfs_backend \<Rightarrow> string \<Rightarrow> bool" where
  "own z s \<longleftrightarrow> HasPrefix s (zb_parentDataset z @ ''/'')"

definition own_snapshot :: "zfs_backend \<Rightarrow> string \<Rightarrow> bool" where
  "own_snapshot z s \<longleftrightarrow>
     (\<exists>ds snap. s = ds @ ''@'' @ snap \<and> CHR ''@'' \<notin> set ds \<and> (ds = zb_parentDataset z \<or> own z ds) \<and> ValidateSnapshotName snap = None)"

text \<open>
  The listing of the parent, a copy, or a \<open>zfs\<close> command whose last argument is below the parent; the source of a clone is a snapshot of
  the parent or of a dataset below it.
\<close>

definition own_command :: "zfs_backend \<Rightarrow> string list \<Rightarrow> bool" where
  "own_command z argv \<longleftrightarrow>
     argv = list_argv z \<or> hd argv = ''cp'' \<or>
     hd argv = ''zfs'' \<and> own z (last argv) \<and> (argv ! 1 = ''clone'' \<longrightarrow> own_snapshot z (last (butlast argv)))"

lemma fullDatasetName_own [simp]: "own z (fullDatasetName z n)"
  by (simp add: own_def fullDatasetName_def)

lemma snapshot_name_own [simp]: "own z (snapshot_name z v n)"
  using fullDatasetName_own [of z v] by (auto simp: own_def snapshot_name_def prefix_def)

lemma ensureOwn_snapshot:
  assumes "ensureOwnSnapshotName z n = None"
  shows "own_snapshot z n"
proof (cases "cut_at CHR ''@'' n")
  case None
  with assms show ?thesis by (simp add: ensureOwnSnapshotName_def Let_def)
next
  case (Some p)
  obtain ds snap where p: "p = (ds, snap)" by (cases p)
  then have "n = ds @ ''@'' @ snap" "CHR ''@'' \<notin> set ds" using Some by (simp_all add: cut_at_Some_iff)
  moreover have "ds = zb_parentDataset z \<or> own z ds" "ValidateSnapshotName snap = None"
    using assms Some p by (auto simp: ensureOwnSnapshotName_def own_def Let_def split: option.splits if_splits)
  ultimately show ?thesis unfolding own_snapshot_def by blast
qed

lemma clone_own: "ensureOwnSnapshotName z n = None \<Longrightarrow> own_command z (clone_argv z n c opts)"
  by (auto simp: own_command_def clone_argv_def butlast_append dest!: ensureOwn_snapshot)

lemma create_own: "own_command z (create_argv z n opts)"
  by (simp add: own_command_def create_argv_def)

abbreviation confined :: "zfs_backend \<Rightarrow> ('w zfs_state, 'a) state \<Rightarrow> bool" where
  "confined z m \<equiv> state_io_rel (log_grows (own_command z)) m"

lemma confined_exists [intro!]: "own z ds \<Longrightarrow> confined z (datasetExistsNoLock ev ds)"
  unfolding datasetExistsNoLock_def by (auto intro!: grows_intros simp: own_command_def split: prod.split)

lemma confined_mountpoint [intro!]: "own z ds \<Longrightarrow> confined z (getMountpoint ev ds)"
  unfolding getMountpoint_def by (auto intro!: grows_intros simp: own_command_def split: prod.split)

lemma confined_destroy [intro!]: "own z ds \<Longrightarrow> confined z (destroyDataset ev ds r)"
  unfolding destroyDataset_def by (auto intro!: grows_intros simp: own_command_def split: prod.split)

lemma confined_properties [intro!]: "own z ds \<Longrightarrow> confined z (getProperties ev ds)"
  unfolding getProperties_def by (auto intro!: grows_intros simp: own_command_def split: prod.split)

lemma confined_snapshots [intro!]: "confined z (listSnapshotsNoLock ev z n)"
  unfolding listSnapshotsNoLock_def
  by (auto intro!: grows_intros simp: own_command_def split: prod.split option.split)

lemma confined_snapshot [intro!]: "confined z (getSnapshotNoLock ev z v n)"
  unfolding getSnapshotNoLock_def by (auto intro!: grows_intros simp: own_command_def split: prod.split)

lemma confined_volume [intro!]: "confined z (getVolumeNoLock ev z n)"
  unfolding getVolumeNoLock_def by (auto intro!: grows_intros split: sum.split)

lemma confined_volumes [intro!]: "confined z (get_volumes ev z ns)"
  by (induction ns) (auto intro!: grows_intros)

lemma confined_list [intro!]: "confined z (listVolumesNoLock ev z)"
  unfolding listVolumesNoLock_def by (auto intro!: grows_intros simp: own_command_def split: prod.split option.split)

lemma confined_copy [intro!]: "own z ds \<Longrightarrow> confined z (copy_content ev n ds src)"
  unfolding copy_content_def by (auto intro!: grows_intros simp: own_command_def split: prod.split option.split sum.split)

lemma confined_create [intro!]: "confined z (CreateVolume ev z n opts)"
  unfolding CreateVolume_def by (auto intro!: grows_intros create_own split: prod.split option.split)

lemma confined_delete [intro!]: "confined z (DeleteVolume ev z n opts)"
  unfolding DeleteVolume_def by (auto intro!: grows_intros simp: own_command_def split: prod.split)

lemma confined_set [intro!]: "confined z (set_property ev z op n a)"
  unfolding set_property_def by (auto intro!: grows_intros simp: own_command_def split: prod.split)

lemma confined_number [intro!]: "confined z (get_number ev z p n)"
  unfolding get_number_def by (auto intro!: grows_intros simp: own_command_def split: prod.split)

lemma confined_resize [intro!]: "confined z (ResizeVolume ev z n sz)"
  unfolding ResizeVolume_def SetQuota_def
  by (auto intro!: grows_intros simp: own_command_def split: prod.split option.split)

lemma confined_mount [intro!]: "verb \<noteq> ''clone'' \<Longrightarrow> confined z (mount_command ev z verb h n)"
  unfolding mount_command_def by (auto intro!: grows_intros simp: own_command_def split: prod.split)

lemma confined_origin [intro!]: "confined z (getCloneOriginNoLock ev z n)"
  unfolding getCloneOriginNoLock_def by (auto intro!: grows_intros simp: own_command_def split: prod.split)

lemma confined_keep [intro!]: "confined z (keep_clones ev z ds vs)"
  by (induction vs) (auto intro!: grows_intros)

text \<open>The operations of the interface \<open>storage.Manager\<close> that name a volume, a snapshot or a clone.\<close>

datatype storage_call =
    CallCreateVolume string volume_options
  | CallDeleteVolume string delete_options
  | CallGetVolume string
  | CallListVolumes
  | CallVolumeExists string
  | CallGetVolumePath string
  | CallResizeVolume string string
  | CallMountVolume string
  | CallUnmountVolume string
  | CallCreateSnapshot string string bool
  | CallDeleteSnapshot string string
  | CallListSnapshots string
  | CallGetSnapshot string string
  | CallRollbackSnapshot string string rollback_options
  | CallSnapshotExists string string
  | CallCreateClone string string clone_options
  | CallPromoteClone string
  | CallGetCloneOrigin string
  | CallListClones string
  | CallSetQuota string string
  | CallGetQuota string
  | CallSetReservation string string
  | CallGetReservation string
  | CallGetDataset string

abbreviation discard :: "('s, 'a) state \<Rightarrow> ('s, unit) state" where
  "discard m \<equiv> State_Monad.bind m (\<lambda>x. ret ())"

primrec run_call :: "'w zfs_env \<Rightarrow> zfs_backend \<Rightarrow> storage_call \<Rightarrow> ('w zfs_state, unit) state" where
  "run_call ev z (CallCreateVolume n opts) = discard (CreateVolume ev z n opts)"
| "run_call ev z (CallDeleteVolume n opts) = discard (DeleteVolume ev z n opts)"
| "run_call ev z (CallGetVolume n) = discard (getVolumeNoLock ev z n)"
| "run_call ev z CallListVolumes = discard (listVolumesNoLock ev z)"
| "run_call ev z (CallVolumeExists n) = discard (datasetExistsNoLock ev (fullDatasetName z n))"
| "run_call ev z (CallGetVolumePath n) = discard (GetVolumePath ev z n)"
| "run_call ev z (CallResizeVolume n sz) = discard (ResizeVolume ev z n sz)"
| "run_call ev z (CallMountVolume n) = discard (MountVolume ev z n)"
| "run_call ev z (CallUnmountVolume n) = discard (UnmountVolume ev z n)"
| "run_call ev z (CallCreateSnapshot v n r) = discard (CreateSnapshot_op ev z v n r)"
| "run_call ev z (CallDeleteSnapshot v n) = discard (DeleteSnapshot_op ev z v n)"
| "run_call ev z (CallListSnapshots v) = discard (listSnapshotsNoLock ev z v)"
| "run_call ev z (CallGetSnapshot v n) = discard (getSnapshotNoLock ev z v n)"
| "run_call ev z (CallRollbackSnapshot v n opts) = discard (RollbackSnapshot ev z v n opts)"
| "run_call ev z (CallSnapshotExists v n) = discard (SnapshotExists ev z v n)"
| "run_call ev z (CallCreateClone s n opts) = discard (CreateClone ev z s n opts)"
| "run_call ev z (CallPromoteClone n) = discard (PromoteClone ev z n)"
| "run_call ev z (CallGetCloneOrigin n) = discard (getCloneOriginNoLock ev z n)"
| "run_call ev z (CallListClones n) = discard (ListClones ev z n)"
| "run_call ev z (CallSetQuota n q) = discard (SetQuota ev z n q)"
| "run_call ev z (CallGetQuota n) = discard (GetQuota ev z n)"
| "run_call ev z (CallSetReservation n r) = discard (SetReservation ev z n r)"
| "run_call ev z (CallGetReservation n) = discard (GetReservation ev z n)"
| "run_call ev z (CallGetDataset n) = discard (GetDataset ev z n)"

lemmas direct_call_defs = GetVolumePath_def MountVolume_def UnmountVolume_def CreateSnapshot_op_def DeleteSnapshot_op_def
  RollbackSnapshot_def SnapshotExists_def CreateClone_def PromoteClone_def ListClones_def SetQuota_def GetQuota_def
  SetReservation_def GetReservation_def GetDataset_def


section \<open>What is asked of zfs\<close>

text \<open>\<open>zfs create\<close> refuses a property given twice: the defaults never repeat an entry of \<open>Properties\<close>.\<close>

lemma create_properties_once: "distinct (map fst (vo_Properties opts)) \<Longrightarrow> distinct (map fst (create_properties z opts))"
  by (auto simp: create_properties_def Let_def)

text \<open>A zvol gets neither of the two properties that only a filesystem has, unless the caller names it.\<close>

lemma zvol_properties:
  "vo_Size opts \<noteq> [] \<Longrightarrow> p \<in> set (create_properties z opts) \<Longrightarrow> fst p \<in> {''quota'', ''mountpoint''} \<Longrightarrow> p \<in> set (vo_Properties opts)"
  by (auto simp: create_properties_def Let_def split: if_splits)

text \<open>No recursive destruction when the snapshots are to be kept.\<close>

definition recursive_destroy :: "string list \<Rightarrow> bool" where
  "recursive_destroy argv \<longleftrightarrow> take 2 argv = [''zfs'', ''destroy''] \<and> ''-r'' \<in> set (butlast argv)"

lemma keep_snapshots_respected:
  assumes "do_KeepSnapshots opts"
  shows "list_all (\<lambda>argv. \<not> recursive_destroy argv)
    (drop (length (zw_log s)) (zw_log (snd (run_state (DeleteVolume ev z n opts) s))))"
proof (rule log_growsD)
  show "state_io_rel (log_grows (\<lambda>argv. \<not> recursive_destroy argv)) (DeleteVolume ev z n opts)"
    unfolding DeleteVolume_def datasetExistsNoLock_def
    using assms by (auto intro!: grows_intros simp: recursive_destroy_def split: prod.split)
qed

text \<open>A volume whose content could not be copied is destroyed again, so no caller is left with an empty one.\<close>

lemma zcmd_log: "run_state (zcmd ev argv) s = (r, s') \<Longrightarrow> zw_log s' = zw_log s @ [argv]"
  by (auto simp: zcmd_def split: prod.splits)

lemma destroyDataset_log:
  "run_state (destroyDataset ev ds True) s = (r, s') \<Longrightarrow> zw_log s' = zw_log s @ [[''zfs'', ''destroy'', ''-f'', ''-r'', ds]]"
  by (auto simp: destroyDataset_def split: prod.splits dest: zcmd_log)

lemma copy_failure_undone:
  "run_state (copy_content ev n ds src) s = (r, s') \<Longrightarrow>
   (if r = None then \<exists>m. last (zw_log s') = [''cp'', ''-a'', src @ ''/.'', m @ ''/'']
    else last (zw_log s') = [''zfs'', ''destroy'', ''-f'', ''-r'', ds])"
  by (auto simp: copy_content_def split: prod.splits sum.splits option.splits if_splits dest!: zcmd_log destroyDataset_log)

section \<open>What is read from zfs\<close>

text \<open>
  The short name of a listed dataset stands for the dataset, except for one whose short name begins with the parent again: such a name is
  taken for a full name, so it stands for a different dataset.
\<close>

lemma listed_name_roundtrip:
  "listed_name z line = Some n \<Longrightarrow> \<not> own z n \<Longrightarrow> fullDatasetName z n = line"
  by (auto simp: listed_name_def fullDatasetName_def own_def prefix_def split: if_splits)

lemma nested_name_confused:
  "listed_name z (zb_parentDataset z @ ''/'' @ zb_parentDataset z @ ''/'' @ x) = Some (zb_parentDataset z @ ''/'' @ x)"
  "fullDatasetName z (zb_parentDataset z @ ''/'' @ x) \<noteq> zb_parentDataset z @ ''/'' @ zb_parentDataset z @ ''/'' @ x"
  by (simp_all add: listed_name_def fullDatasetName_def)

text \<open>
  \<open>zfs list\<close> is asked for the creation time without \<open>-p\<close>, so that column is a date such as \<open>Mon Jan  5 10:20 2026\<close>. The line
  is split at white space, which puts the words of the date into the columns of the sizes.
\<close>

definition word_like :: "string \<Rightarrow> bool" where
  "word_like w \<longleftrightarrow> w \<noteq> [] \<and> set w \<inter> set white = {}"

lemma split_white:
  "word_like w \<Longrightarrow> c \<in> set white \<Longrightarrow> go_fields (w @ c # s) = w # go_fields s"
proof -
  assume w: "word_like w" "c \<in> set white"
  have "map (\<lambda>c. if c \<in> set white then CHR '' '' else c) w = w"
    using w by (intro map_idI) (auto simp: word_like_def)
  moreover have "CHR '' '' \<notin> set w" using w by (auto simp: word_like_def white_def)
  ultimately show ?thesis using w by (simp add: go_fields_def word_like_def split_on_append)
qed

lemma go_fields_space: "go_fields (CHR '' '' # s) = go_fields s"
  by (simp add: go_fields_def white_def)

lemma date_words:
  assumes "list_all word_like [weekday, month, day, time, year]" "gap = '' '' \<or> gap = ''  ''"
  shows "go_fields (weekday @ '' '' @ month @ gap @ day @ '' '' @ time @ '' '' @ year @ tab # s) =
    [weekday, month, day, time, year] @ go_fields s"
proof -
  have "CHR '' '' \<in> set white" "tab \<in> set white" by (simp_all add: tab_def white_def)
  then show ?thesis using assms by (auto simp: split_white go_fields_space)
qed

text \<open>
  A snapshot that \<open>zfs list\<close> reports with a date is read wrongly: whatever its two sizes are, the size recorded is
  what the name of the month parses to, the referenced size is the day of the month, and the creation time is what the weekday
  parses to.
\<close>

theorem snapshot_columns_misread:
  assumes "word_like (ds @ ''@'' @ snap)" "CHR ''@'' \<notin> set ds"
    and "list_all word_like [weekday, month, day, time, year]" "gap = '' '' \<or> gap = ''  ''"
    and "date = weekday @ '' '' @ month @ gap @ day @ '' '' @ time @ '' '' @ year"
    and "line = ds @ ''@'' @ snap @ [tab] @ date @ [tab] @ used @ [tab] @ referenced"
  shows "snapshot_of_line ev v line =
    Some \<lparr>zs_Name = snap, zs_FullName = ds @ ''@'' @ snap, zs_VolumeName = v, zs_Created = unix_time weekday,
          zs_Size = parseZFSSize ev month, zs_Referenced = parseZFSSize ev day\<rparr>"
proof -
  have t: "tab \<in> set white" by (simp add: tab_def white_def)
  have cut: "cut_at CHR ''@'' (ds @ ''@'' @ snap) = Some (ds, snap)" using assms(2) by (simp add: cut_at_Some_iff)
  have line: "line = (ds @ ''@'' @ snap) @ tab # weekday @ '' '' @ month @ gap @ day @ '' '' @ time @ '' '' @ year @ tab # used @ [tab] @ referenced"
    using assms(5,6) by simp
  have "go_fields line = (ds @ ''@'' @ snap) # [weekday, month, day, time, year] @ go_fields (used @ [tab] @ referenced)"
    unfolding line split_white [OF assms(1) t] date_words [OF assms(3,4)] by simp
  moreover have "line \<noteq> []" using line by simp
  ultimately show ?thesis using cut by (simp add: snapshot_of_line_def)
qed

definition demo_zfs_env :: "unit zfs_env" where
  "demo_zfs_env =
     \<lparr>ze_Run = \<lambda>argv w. ((None, []), w), ze_LookPath = None, ze_ParentEnv = [], ze_PipeErr = None, ze_Start = \<lambda>argv w. (None, w),
      ze_Kill = \<lambda>argv w. w, ze_Wait = \<lambda>a b w. ((None, None, [], []), w), ze_FloatSize = \<lambda>s m. None\<rparr>"

theorem snapshot_columns_misread_witness:
  "snapshot_of_line demo_zfs_env ''web'' (''tank/web@daily'' @ [tab] @ ''Mon Jan  5 10:20 2026'' @ [tab] @ ''12K'' @ [tab] @ ''96K'') =
   Some \<lparr>zs_Name = ''daily'', zs_FullName = ''tank/web@daily'', zs_VolumeName = ''web'', zs_Created = None, zs_Size = 0, zs_Referenced = 5\<rparr>"
proof -
  have parsed: "unix_time ''Mon'' = None" "parseZFSSize demo_zfs_env ''Jan'' = 0" "parseZFSSize demo_zfs_env ''5'' = 5" by code_simp+
  show ?thesis
    using snapshot_columns_misread [of "''tank/web''" "''daily''" "''Mon''" "''Jan''" "''5''" "''10:20''" "''2026''" "''  ''"
        "''Mon Jan  5 10:20 2026''" _ "''12K''" "''96K''" demo_zfs_env "''web''", OF _ _ _ _ _ refl]
    by (simp add: parsed word_like_def white_def)
qed

section \<open>Sizes\<close>

text \<open>
  An accepted size is the number times its unit, and it fits an \<open>int64\<close>; a number without sign and its unit are accepted exactly when
  the product fits.
\<close>

lemma ParseSize_bounds: "storage_ParseSize sz = Inr n \<Longrightarrow> 0 \<le> n \<and> n < 2 ^ 63"
proof -
  assume parsed: "storage_ParseSize sz = Inr n"
  have fits: "0 \<le> v * m \<and> v * m < 2 ^ 63" if "v \<le> (2 ^ 63 - 1) div m" "0 \<le> v" "0 < m" for v m :: int
  proof -
    have "v * m \<le> (2 ^ 63 - 1) div m * m" using that by (simp add: mult_right_mono)
    also have "\<dots> \<le> 2 ^ 63 - 1" using that(3) by (metis div_mult_mod_eq le_add_same_cancel1 pos_mod_sign)
    finally show ?thesis using that by simp
  qed
  have unit: "0 < m" if "size_unit c = Some m" for c m using that by (auto simp: size_unit_def split: if_splits)
  show ?thesis
    using parsed fits unit
    by (fastforce simp: storage_ParseSize_def Let_def not_less split: if_splits sum.splits option.splits prod.splits)
qed

end
