(* ===== verification/Instances.thy ===== *)
theory Instances
  imports Validation Manifest Middleware "HOL-Library.AList" "HOL-Library.State_Monad"
begin

text \<open>
  \<open>internal/api/instance_handlers.go\<close>: the handlers that create, change, delete, start, stop and restart an instance. A handler is a
  computation in the state monad over the world (the providers, the store, the firewall) and the list of the calls it has made, each with the
  part of its answer that matters; its value is the response. The decoded body is part of the request, as is whether the client asked
  for a stream and whether the connection can stream. Streams carry the final line only.
\<close>

section \<open>Requests, records and calls\<close>

record store_instance =
  di_ID :: string
  di_Name :: string
  di_Provider :: string
  di_State :: instance_state
  di_Spec :: instance_spec
  di_Handle :: instance_handle
  di_Labels :: "(string \<times> string) list"
  di_Annotations :: "(string \<times> string) list"

record 'b instance_request =
  ir_permissions :: "string list option"
  ir_clientIP :: string
  ir_provider :: string
  ir_force :: bool
  ir_wantsStream :: bool
  ir_canFlush :: bool
  ir_body :: "'b go_result"

text \<open>\<open>RErrorf\<close> is a response whose message is a format with one argument printed quoted.\<close>

datatype api_response =
    RError nat string "go_error option"
  | RErrorf nat string string "go_error option"
  | RInstance nat store_instance
  | RStatus nat string
  | RNoContent
  | RStreamError string go_error
  | RStreamSuccess "store_instance option"

datatype api_call =
    ProvCreate string instance_spec "instance_handle option"
  | ProvDelete string instance_handle bool bool
  | ProvStart string instance_handle bool
  | ProvStop string instance_handle bool bool
  | ProvRestart string instance_handle bool
  | ProvReconfigure string instance_handle instance_spec bool
  | ProvSetResources string instance_handle int int bool
  | ProvState string instance_handle "instance_state option"
  | ProvInfo string instance_handle
  | ProvAddresses string instance_handle
  | DsRead string
  | DsCreate store_instance bool
  | DsDelete string bool
  | DsUpdateSpec string instance_spec bool
  | DsUpdateHandle string instance_handle bool
  | DsUpdateState string instance_state bool
  | FwRemoveAll string bool
  | AuditFailure string string

text \<open>
  \<open>pe_Info\<close> answers with the state (absent when the provider leaves it empty), the addresses and the specification it
  observed. \<open>pe_Firewall\<close> is absent when no firewall manager was set up.
\<close>

record 'w api_env =
  pe_Registered :: "string \<Rightarrow> go_error option"
  pe_Reconfigurable :: "string \<Rightarrow> bool"
  pe_HasAddresses :: "string \<Rightarrow> bool"
  pe_Create :: "string \<Rightarrow> instance_spec \<Rightarrow> 'w \<Rightarrow> instance_handle go_result \<times> 'w"
  pe_Delete :: "string \<Rightarrow> instance_handle \<Rightarrow> bool \<Rightarrow> 'w \<Rightarrow> go_error option \<times> 'w"
  pe_Start :: "string \<Rightarrow> instance_handle \<Rightarrow> 'w \<Rightarrow> go_error option \<times> 'w"
  pe_Stop :: "string \<Rightarrow> instance_handle \<Rightarrow> bool \<Rightarrow> 'w \<Rightarrow> go_error option \<times> 'w"
  pe_Restart :: "string \<Rightarrow> instance_handle \<Rightarrow> 'w \<Rightarrow> go_error option \<times> 'w"
  pe_Reconfigure :: "string \<Rightarrow> instance_handle \<Rightarrow> instance_spec \<Rightarrow> 'w \<Rightarrow> go_error option \<times> 'w"
  pe_SetResources :: "string \<Rightarrow> instance_handle \<Rightarrow> int \<Rightarrow> int \<Rightarrow> 'w \<Rightarrow> go_error option \<times> 'w"
  pe_State :: "string \<Rightarrow> instance_handle \<Rightarrow> 'w \<Rightarrow> instance_state go_result \<times> 'w"
  pe_Info :: "string \<Rightarrow> instance_handle \<Rightarrow> 'w \<Rightarrow> (instance_state option \<times> string list \<times> instance_spec) go_result \<times> 'w"
  pe_Addresses :: "string \<Rightarrow> instance_handle \<Rightarrow> 'w \<Rightarrow> string list go_result \<times> 'w"
  pd_Get :: "string \<Rightarrow> 'w \<Rightarrow> store_instance go_result \<times> 'w"
  pd_GetByName :: "string \<Rightarrow> 'w \<Rightarrow> store_instance option go_result \<times> 'w"
  pd_Create :: "store_instance \<Rightarrow> 'w \<Rightarrow> go_error option \<times> 'w"
  pd_Delete :: "string \<Rightarrow> 'w \<Rightarrow> go_error option \<times> 'w"
  pd_UpdateSpec :: "string \<Rightarrow> instance_spec \<Rightarrow> 'w \<Rightarrow> go_error option \<times> 'w"
  pd_UpdateHandle :: "string \<Rightarrow> instance_handle \<Rightarrow> 'w \<Rightarrow> go_error option \<times> 'w"
  pd_UpdateState :: "string \<Rightarrow> instance_state \<Rightarrow> 'w \<Rightarrow> go_error option \<times> 'w"
  pe_Firewall :: "(string \<Rightarrow> 'w \<Rightarrow> go_error option \<times> 'w) option"

record 'w api_state =
  as_world :: 'w
  as_calls :: "api_call list"

abbreviation reply :: "'a \<Rightarrow> ('s, 'a) state" where
  "reply \<equiv> State_Monad.return"

definition api :: "('w \<Rightarrow> 'a \<times> 'w) \<Rightarrow> ('a \<Rightarrow> api_call) \<Rightarrow> ('w api_state, 'a) state" where
  "api f c = State (\<lambda>s. case f (as_world s) of (r, w) \<Rightarrow> (r, s\<lparr>as_world := w, as_calls := as_calls s @ [c r]\<rparr>))"

definition audit :: "string \<Rightarrow> string \<Rightarrow> ('w api_state, unit) state" where
  "audit ip msg = api (\<lambda>w. ((), w)) (\<lambda>u. AuditFailure ip msg)"

definition res_option :: "'a go_result \<Rightarrow> 'a option" where
  "res_option r = (case r of Inl e \<Rightarrow> None | Inr x \<Rightarrow> Some x)"

section \<open>Privileged configuration\<close>

definition privilegedProviderConfigKey :: "string \<Rightarrow> bool" where
  "privilegedProviderConfigKey key0 =
     (let key = ToLower key0 in
      if key \<in> {''exec.clean'', ''exec.timeout'', ''exec.fib'', ''exec.jail_user''} then False
      else if key \<in> {''path'', ''devfs_ruleset'', ''securelevel'', ''enforce_statfs'', ''allow.vmm''} then True
      else HasPrefix key ''exec.'' \<or> HasPrefix key ''allow.mount'' \<or> key = ''mount'' \<or> HasPrefix key ''mount.'')"

text \<open>\<open>strings.EqualFold\<close> with an ASCII word: its two letters outside ASCII are the Kelvin sign and the long s.\<close>

fun fold_case :: "string \<Rightarrow> string" where
  "fold_case [] = []"
| "fold_case (c # s) =
     (if HasPrefix (c # s) [CHR 0xE2, CHR 0x84, CHR 0xAA] then CHR ''k'' # fold_case (drop 2 s)
      else if HasPrefix (c # s) [CHR 0xC5, CHR 0xBF] then CHR ''s'' # fold_case (drop 1 s)
      else to_lower_char c # fold_case s)"

definition configValue :: "(string \<times> config_value) list \<Rightarrow> string \<Rightarrow> config_value option" where
  "configValue config want =
     (case map_of config want of
        Some v \<Rightarrow> Some v
      | None \<Rightarrow> map_option snd (find (\<lambda>(k, v). fold_case k = fold_case want) config))"

text \<open>A list of an untyped slice or of a slice of maps; an entry that is no map is skipped.\<close>

fun map_entry :: "config_value \<Rightarrow> (string \<times> config_value) list option" where
  "map_entry (CAnyMap m) = Some m"
| "map_entry _ = None"

fun mountEntries :: "config_value option \<Rightarrow> (string \<times> config_value) list list" where
  "mountEntries (Some (CSlice ms)) = (if list_all (\<lambda>m. map_entry m \<noteq> None) ms then map (\<lambda>m. the (map_entry m)) ms else [])"
| "mountEntries (Some (CAnyList ms)) = List.map_filter map_entry ms"
| "mountEntries _ = []"

definition string_value :: "string \<Rightarrow> (string \<times> config_value) list \<Rightarrow> string" where
  "string_value k m = (case map_of m k of Some (CString s) \<Rightarrow> s | _ \<Rightarrow> [])"

definition privilegedProviderConfig :: "(string \<times> config_value) list \<Rightarrow> string" where
  "privilegedProviderConfig config =
     (case find (\<lambda>(k, v). privilegedProviderConfigKey k) config of
        Some (k, v) \<Rightarrow> k
      | None \<Rightarrow>
          (case find (\<lambda>m. string_value ''host_path'' m \<noteq> []) (mountEntries (configValue config ''mounts'')) of
             Some m \<Rightarrow> ''a mount from '' @ string_value ''host_path'' m
           | None \<Rightarrow> []))"

definition reservedHandleMetadata :: "string list" where
  "reservedHandleMetadata = [''zfs_dataset'', ''vm_dir'', ''qmp_socket'', ''mountpoint'', ''disk_path'', ''vnet_epair'', ''os_release'']"

definition refusePrivilegedConfig ::
    "'b instance_request \<Rightarrow> (string \<times> config_value) list \<Rightarrow> ('w api_state, api_response option) state" where
  "refusePrivilegedConfig r config =
     (let construct = privilegedProviderConfig config in
      if construct = [] then reply None
      else (case ir_permissions r of
          None \<Rightarrow> reply None
        | Some perms \<Rightarrow>
            if hasPerm perms ''admin'' then reply None
            else do {
              audit (ir_clientIP r) (''privileged provider config without admin: '' @ construct);
              reply (Some (RError 403 (construct @ '' gives the caller the host filesystem and needs an admin key'') None))
            }))"

section \<open>Creating\<close>

definition createdInstanceRecord :: "instance_handle \<Rightarrow> instance_spec \<Rightarrow> string \<Rightarrow> store_instance" where
  "createdInstanceRecord handle spec providerName =
     \<lparr>di_ID = ih_ID handle, di_Name = is_Name spec, di_Provider = providerName, di_State = StateStopped, di_Spec = spec,
      di_Handle = handle, di_Labels = is_Labels spec, di_Annotations = is_Annotations spec\<rparr>"

definition prov_delete :: "'w api_env \<Rightarrow> string \<Rightarrow> instance_handle \<Rightarrow> bool \<Rightarrow> ('w api_state, go_error option) state" where
  "prov_delete ev p h force = api (pe_Delete ev p h force) (\<lambda>r. ProvDelete p h force (r = None))"

definition discardCreatedInstance ::
    "'w api_env \<Rightarrow> string \<Rightarrow> instance_handle \<Rightarrow> go_error \<Rightarrow> ('w api_state, go_error) state" where
  "discardCreatedInstance ev p handle cause = do {
     delErr \<leftarrow> prov_delete ev p handle True;
     reply (case delErr of
        None \<Rightarrow> cause
      | Some e \<Rightarrow> Joined [cause, Wrapf ''the instance could not be removed either: %w'' [] e])
   }"

definition cleanupFirewallRules :: "'w api_env \<Rightarrow> string \<Rightarrow> ('w api_state, go_error option) state" where
  "cleanupFirewallRules ev name =
     (case pe_Firewall ev of
        None \<Rightarrow> reply None
      | Some f \<Rightarrow> api (f name) (\<lambda>r. FwRemoveAll name (r = None)))"

text \<open>
  The check for an instance of that name: a response that ends the request, or none when there is no such record or it was a
  ghost's and has been dropped. A failed lookup is only logged.
\<close>

definition check_existing :: "'w api_env \<Rightarrow> string \<Rightarrow> ('w api_state, api_response option) state" where
  "check_existing ev name = do {
     found \<leftarrow> api (pd_GetByName ev name) (\<lambda>r. DsRead name);
     case found of
       Inl e \<Rightarrow> reply None
     | Inr None \<Rightarrow> reply None
     | Inr (Some existing) \<Rightarrow>
         (case pe_Registered ev (di_Provider existing) of
            Some e \<Rightarrow> reply (Some (RError 409 (''Instance '' @ name @ '' already exists under provider '' @ di_Provider existing) None))
          | None \<Rightarrow> do {
              state \<leftarrow> api (pe_State ev (di_Provider existing) (di_Handle existing))
                         (\<lambda>r. ProvState (di_Provider existing) (di_Handle existing) (res_option r));
              case state of
                Inl e \<Rightarrow> reply (Some (RError 503 (''Cannot verify whether instance '' @ name @ '' still exists'') (Some e)))
              | Inr st \<Rightarrow>
                  if st = StateUnknown then do {
                    api (pd_Delete ev (di_ID existing)) (\<lambda>r. DsDelete (di_ID existing) (r = None));
                    cleanupFirewallRules ev (di_Name existing);
                    reply None
                  }
                  else reply (Some (RError 409 (''Instance '' @ name @ '' already exists'') None))
            })
   }"

definition record_created ::
    "'w api_env \<Rightarrow> string \<Rightarrow> instance_spec \<Rightarrow> instance_handle \<Rightarrow> ('w api_state, store_instance go_result) state" where
  "record_created ev p spec handle =
     (let inst = createdInstanceRecord handle spec p in do {
        err \<leftarrow> api (pd_Create ev inst) (\<lambda>r. DsCreate inst (r = None));
        case err of
          None \<Rightarrow> reply (Inr inst)
        | Some e \<Rightarrow> do {
            e' \<leftarrow> discardCreatedInstance ev p handle e;
            reply (Inl e')
          }
      })"

definition create_and_record ::
    "'w api_env \<Rightarrow> 'b instance_request \<Rightarrow> string \<Rightarrow> instance_spec \<Rightarrow> ('w api_state, api_response) state" where
  "create_and_record ev r p spec = do {
     created \<leftarrow> api (pe_Create ev p spec) (\<lambda>res. ProvCreate p spec (res_option res));
     case created of
       Inl e \<Rightarrow> reply (if ir_wantsStream r then RStreamError ''Failed to create instance'' e
                        else RError 500 ''Failed to create instance'' (Some e))
     | Inr handle \<Rightarrow> do {
         recorded \<leftarrow> record_created ev p spec handle;
         reply (case recorded of
            Inl e \<Rightarrow> if ir_wantsStream r then RStreamError ''Failed to store instance'' e
                     else RError 500 ''Failed to store instance'' (Some e)
          | Inr inst \<Rightarrow> if ir_wantsStream r then RStreamSuccess (Some inst) else RInstance 201 inst)
       }
   }"

definition provider_of_request :: "'b instance_request \<Rightarrow> instance_spec \<Rightarrow> string" where
  "provider_of_request r spec =
     (case map_of (is_Labels spec) ''provider'' of
        Some p \<Rightarrow> if p = [] then ir_provider r else p
      | None \<Rightarrow> ir_provider r)"

definition handleCreateInstance ::
    "'w api_env \<Rightarrow> instance_spec instance_request \<Rightarrow> ('w api_state, api_response) state" where
  "handleCreateInstance ev r =
     (case ir_body r of
        Inl e \<Rightarrow> reply (RError 400 ''Invalid request body'' (Some e))
      | Inr spec \<Rightarrow>
          (case ValidateInstanceSpec spec of
             Some e \<Rightarrow> reply (RError 400 ''Invalid instance spec'' (Some e))
           | None \<Rightarrow> do {
               refused \<leftarrow> refusePrivilegedConfig r (is_ProviderConfig spec);
               case refused of
                 Some resp \<Rightarrow> reply resp
               | None \<Rightarrow>
                   if is_Name spec = [] then reply (RError 400 ''Instance name is required'' None)
                   else
                     let p = provider_of_request r spec in
                     if p = [] then reply (RError 400 ''Provider must be specified'' None)
                     else if pe_Registered ev p \<noteq> None then reply (RError 400 (''Provider not found: '' @ p) None)
                     else do {
                       stop \<leftarrow> check_existing ev (is_Name spec);
                       case stop of
                         Some resp \<Rightarrow> reply resp
                       | None \<Rightarrow>
                           if ir_wantsStream r \<and> \<not> ir_canFlush r then reply (RError 500 ''Streaming not supported'' None)
                           else create_and_record ev r p spec
                     }
             }))"

section \<open>Looking up and refreshing\<close>

definition lookupInstance :: "'w api_env \<Rightarrow> string \<Rightarrow> ('w api_state, store_instance go_result) state" where
  "lookupInstance ev idOrName = do {
     byID \<leftarrow> api (pd_Get ev idOrName) (\<lambda>r. DsRead idOrName);
     case byID of
       Inr inst \<Rightarrow> reply (Inr inst)
     | Inl e \<Rightarrow> do {
         byName \<leftarrow> api (pd_GetByName ev idOrName) (\<lambda>r. DsRead idOrName);
         reply (case byName of Inr (Some inst) \<Rightarrow> Inr inst | _ \<Rightarrow> Inl (Errorf ''instance not found: %s'' [idOrName]))
       }
   }"

fun fill_first :: "string \<Rightarrow> network_spec list \<Rightarrow> network_spec list" where
  "fill_first ip [] = []"
| "fill_first ip (n # ns) = (if ns_IPv4 n = [] then n\<lparr>ns_IPv4 := ip\<rparr> # ns else n # fill_first ip ns)"

definition empty_network :: network_spec where
  "empty_network =
     \<lparr>ns_ID = [], ns_Type = [], ns_Bridge = [], ns_BridgeFlags = [], ns_VLAN = 0, ns_MAC = [], ns_IPv4 = [], ns_IPv6 = [],
      ns_IPPool = [], ns_MTU = 0\<rparr>"

definition fillFirstEmptyAddress :: "store_instance \<Rightarrow> string list \<Rightarrow> store_instance" where
  "fillFirstEmptyAddress inst ips =
     (case ips of
        [] \<Rightarrow> inst
      | ip # rest \<Rightarrow>
          let nets = is_Networks (di_Spec inst) in
          inst\<lparr>di_Spec := (di_Spec inst)\<lparr>is_Networks :=
            (if nets = [] then [empty_network\<lparr>ns_IPv4 := ip\<rparr>] else fill_first ip nets)\<rparr>\<rparr>)"

definition askProviderForAddress :: "'w api_env \<Rightarrow> store_instance \<Rightarrow> ('w api_state, store_instance) state" where
  "askProviderForAddress ev inst =
     (if di_State inst \<noteq> StateRunning \<or> \<not> pe_HasAddresses ev (di_Provider inst) then reply inst
      else do {
        ips \<leftarrow> api (pe_Addresses ev (di_Provider inst) (di_Handle inst)) (\<lambda>r. ProvAddresses (di_Provider inst) (di_Handle inst));
        reply (case ips of Inl e \<Rightarrow> inst | Inr xs \<Rightarrow> fillFirstEmptyAddress inst xs)
      })"

definition refresh_state :: "'w api_env \<Rightarrow> store_instance \<Rightarrow> ('w api_state, store_instance) state" where
  "refresh_state ev inst = do {
     st \<leftarrow> api (pe_State ev (di_Provider inst) (di_Handle inst)) (\<lambda>r. ProvState (di_Provider inst) (di_Handle inst) (res_option r));
     reply (case st of Inr s \<Rightarrow> inst\<lparr>di_State := s\<rparr> | Inl e \<Rightarrow> inst)
   }"

definition refreshFromProvider :: "'w api_env \<Rightarrow> store_instance \<Rightarrow> ('w api_state, store_instance) state" where
  "refreshFromProvider ev inst =
     (if pe_Registered ev (di_Provider inst) \<noteq> None then reply inst
      else do {
        info \<leftarrow> api (pe_Info ev (di_Provider inst) (di_Handle inst)) (\<lambda>r. ProvInfo (di_Provider inst) (di_Handle inst));
        case info of
          Inl e \<Rightarrow> refresh_state ev inst
        | Inr (st, ips, observed) \<Rightarrow> do {
            inst1 \<leftarrow> (case st of Some s \<Rightarrow> reply (inst\<lparr>di_State := s\<rparr>) | None \<Rightarrow> refresh_state ev inst);
            if ips \<noteq> [] then reply (fillFirstEmptyAddress inst1 ips) else askProviderForAddress ev inst1
          }
      })"

definition handleGetInstance :: "'w api_env \<Rightarrow> string \<Rightarrow> ('w api_state, api_response) state" where
  "handleGetInstance ev instanceID = do {
     found \<leftarrow> lookupInstance ev instanceID;
     case found of
       Inl e \<Rightarrow> reply (RError 404 ''Instance not found'' (Some e))
     | Inr inst \<Rightarrow> do {
         inst1 \<leftarrow> refreshFromProvider ev inst;
         reply (RInstance 200 inst1)
       }
   }"

section \<open>Changing\<close>

text \<open>
  The body of a \<open>PATCH\<close>: the specification and the provider configuration, each absent when the field is. The first error among the
  entries depends on the order the map is visited in, which is the order of the list.
\<close>

record update_request =
  up_Spec :: "instance_spec option"
  up_ProviderConfig :: "(string \<times> config_value) list option"

definition merge_spec_request :: "instance_spec \<Rightarrow> instance_spec \<Rightarrow> instance_spec" where
  "merge_spec_request cur req =
     cur\<lparr>is_CPUs := (if is_CPUs req > 0 then is_CPUs req else is_CPUs cur),
         is_MemoryMB := (if is_MemoryMB req > 0 then is_MemoryMB req else is_MemoryMB cur),
         is_Description := (if is_Description req \<noteq> [] then is_Description req else is_Description cur)\<rparr>"

definition merge_config :: "(string \<times> config_value) list \<Rightarrow> (string \<times> config_value) list \<Rightarrow> (string \<times> config_value) list" where
  "merge_config cur req = fold (\<lambda>(k, v) m. AList.update k v m) req cur"

definition config_error :: "(string \<times> config_value) list \<Rightarrow> api_response option" where
  "config_error config =
     (case find (\<lambda>(k, v). ValidateProviderConfigEntry k v \<noteq> None) config of
        Some (k, v) \<Rightarrow> Some (RErrorf 400 ''Invalid provider config %q'' k (ValidateProviderConfigEntry k v))
      | None \<Rightarrow>
          (case find (\<lambda>k. map_of config k \<noteq> None) reservedHandleMetadata of
             Some k \<Rightarrow> Some (RErrorf 400 ''provider config %q is managed by the provider and cannot be set'' k None)
           | None \<Rightarrow> None))"

text \<open>The checks before anything is changed: a response that ends the request, or the instance with the changes merged in.\<close>

definition update_checked ::
    "'w api_env \<Rightarrow> 'b instance_request \<Rightarrow> update_request \<Rightarrow> store_instance \<Rightarrow> ('w api_state, api_response + store_instance) state" where
  "update_checked ev r req inst =
     (let inst1 = (case up_Spec req of None \<Rightarrow> inst | Some sp \<Rightarrow> inst\<lparr>di_Spec := merge_spec_request (di_Spec inst) sp\<rparr>) in
      case up_ProviderConfig req of
        None \<Rightarrow> reply (Inr inst1)
      | Some config \<Rightarrow>
          (case config_error config of
             Some resp \<Rightarrow> reply (Inl resp)
           | None \<Rightarrow> do {
               refused \<leftarrow> refusePrivilegedConfig r config;
               reply (case refused of
                  Some resp \<Rightarrow> Inl resp
                | None \<Rightarrow>
                    let inst2 = inst1\<lparr>di_Handle := (di_Handle inst1)\<lparr>ih_Metadata := ih_Metadata (di_Handle inst1) ++ map_of config\<rparr>\<rparr> in
                    if config = [] then Inr inst2
                    else if pe_Registered ev (di_Provider inst) \<noteq> None then
                      Inl (RError 500 (''Provider not found: '' @ di_Provider inst) None)
                    else if \<not> pe_Reconfigurable ev (di_Provider inst) then
                      Inl (RError 501 (''Provider '' @ di_Provider inst @ '' cannot reconfigure an instance'') None)
                    else Inr (inst2\<lparr>di_Spec := (di_Spec inst2)\<lparr>is_ProviderConfig :=
                                 merge_config (is_ProviderConfig (di_Spec inst2)) config\<rparr>\<rparr>))
             }))"

definition asks_resources :: "update_request \<Rightarrow> bool" where
  "asks_resources req = (case up_Spec req of None \<Rightarrow> False | Some sp \<Rightarrow> is_CPUs sp > 0 \<or> is_MemoryMB sp > 0)"

definition apply_update :: "'w api_env \<Rightarrow> update_request \<Rightarrow> store_instance \<Rightarrow> ('w api_state, go_error option) state" where
  "apply_update ev req inst =
     (if pe_Reconfigurable ev (di_Provider inst) then
        api (pe_Reconfigure ev (di_Provider inst) (di_Handle inst) (di_Spec inst))
          (\<lambda>r. ProvReconfigure (di_Provider inst) (di_Handle inst) (di_Spec inst) (r = None))
      else if asks_resources req then
        api (pe_SetResources ev (di_Provider inst) (di_Handle inst) (is_CPUs (di_Spec inst)) (is_MemoryMB (di_Spec inst)))
          (\<lambda>r. ProvSetResources (di_Provider inst) (di_Handle inst) (is_CPUs (di_Spec inst)) (is_MemoryMB (di_Spec inst)) (r = None))
      else reply None)"

definition record_update :: "'w api_env \<Rightarrow> update_request \<Rightarrow> store_instance \<Rightarrow> ('w api_state, api_response option) state" where
  "record_update ev req inst = do {
     specErr \<leftarrow> api (pd_UpdateSpec ev (di_ID inst) (di_Spec inst)) (\<lambda>r. DsUpdateSpec (di_ID inst) (di_Spec inst) (r = None));
     case specErr of
       Some e \<Rightarrow> reply (Some (RError 500 ''The provider applied the change but it could not be recorded'' (Some e)))
     | None \<Rightarrow>
         if up_ProviderConfig req = None then reply None
         else do {
           handleErr \<leftarrow> api (pd_UpdateHandle ev (di_ID inst) (di_Handle inst)) (\<lambda>r. DsUpdateHandle (di_ID inst) (di_Handle inst) (r = None));
           reply (map_option (\<lambda>e. RError 500 ''The provider applied the change but the handle could not be recorded'' (Some e)) handleErr)
         }
   }"

definition apply_and_record ::
    "'w api_env \<Rightarrow> update_request \<Rightarrow> store_instance \<Rightarrow> ('w api_state, api_response) state" where
  "apply_and_record ev req inst = do {
     applyErr \<leftarrow> apply_update ev req inst;
     case applyErr of
       Some e \<Rightarrow> reply (RError 500 ''The provider could not apply the change; nothing was recorded'' (Some e))
     | None \<Rightarrow> do {
         stop \<leftarrow> record_update ev req inst;
         case stop of
           Some resp \<Rightarrow> reply resp
         | None \<Rightarrow> do {
             fresh \<leftarrow> refreshFromProvider ev inst;
             reply (RInstance 200 fresh)
           }
       }
   }"

definition handleUpdateInstance ::
    "'w api_env \<Rightarrow> update_request instance_request \<Rightarrow> string \<Rightarrow> ('w api_state, api_response) state" where
  "handleUpdateInstance ev r instanceID = do {
     found \<leftarrow> lookupInstance ev instanceID;
     case found of
       Inl e \<Rightarrow> reply (RError 404 ''Instance not found'' (Some e))
     | Inr inst0 \<Rightarrow>
         (case ir_body r of
            Inl e \<Rightarrow> reply (RError 400 ''Invalid request body'' (Some e))
          | Inr req \<Rightarrow> do {
              checked \<leftarrow> update_checked ev r req inst0;
              case checked of
                Inl resp \<Rightarrow> reply resp
              | Inr inst \<Rightarrow>
                  (case pe_Registered ev (di_Provider inst) of
                     Some e \<Rightarrow> reply (RError 500 (''Provider not found: '' @ di_Provider inst) (Some e))
                   | None \<Rightarrow> apply_and_record ev req inst)
            })
   }"

section \<open>Deleting, starting and stopping\<close>

definition with_instance ::
    "'w api_env \<Rightarrow> string \<Rightarrow> (store_instance \<Rightarrow> ('w api_state, api_response) state) \<Rightarrow> ('w api_state, api_response) state" where
  "with_instance ev instanceID f = do {
     found \<leftarrow> lookupInstance ev instanceID;
     case found of
       Inl e \<Rightarrow> reply (RError 404 ''Instance not found'' (Some e))
     | Inr inst \<Rightarrow>
         if pe_Registered ev (di_Provider inst) \<noteq> None then reply (RError 500 (''Provider not found: '' @ di_Provider inst) None)
         else f inst
   }"

definition handleDeleteInstance :: "'w api_env \<Rightarrow> 'b instance_request \<Rightarrow> string \<Rightarrow> ('w api_state, api_response) state" where
  "handleDeleteInstance ev r instanceID = with_instance ev instanceID (\<lambda>inst. do {
     err \<leftarrow> prov_delete ev (di_Provider inst) (di_Handle inst) (ir_force r);
     case err of
       Some e \<Rightarrow> reply (RError 500 ''Failed to delete instance'' (Some e))
     | None \<Rightarrow> do {
         cleanupFirewallRules ev (di_Name inst);
         dsErr \<leftarrow> api (pd_Delete ev (di_ID inst)) (\<lambda>res. DsDelete (di_ID inst) (res = None));
         reply (case dsErr of Some e \<Rightarrow> RError 500 ''Failed to remove instance from datastore'' (Some e) | None \<Rightarrow> RNoContent)
       }
   })"

definition update_state :: "'w api_env \<Rightarrow> string \<Rightarrow> instance_state \<Rightarrow> ('w api_state, go_error option) state" where
  "update_state ev i st = api (pd_UpdateState ev i st) (\<lambda>r. DsUpdateState i st (r = None))"

text \<open>What a provider observed over what was asked for.\<close>

definition pick :: "'a list \<Rightarrow> 'a list \<Rightarrow> 'a list" where
  "pick declared discovered = (if discovered \<noteq> [] then discovered else declared)"

definition mergeInstanceSpec :: "instance_spec \<Rightarrow> instance_spec \<Rightarrow> instance_spec" where
  "mergeInstanceSpec declared discovered =
     declared\<lparr>is_Name := pick (is_Name declared) (is_Name discovered),
       is_Description := pick (is_Description declared) (is_Description discovered),
       is_CPUs := (if is_CPUs discovered > 0 then is_CPUs discovered else is_CPUs declared),
       is_MemoryMB := (if is_MemoryMB discovered > 0 then is_MemoryMB discovered else is_MemoryMB declared),
       is_Image := pick (is_Image declared) (is_Image discovered),
       is_OSType := pick (is_OSType declared) (is_OSType discovered),
       is_OSVersion := pick (is_OSVersion declared) (is_OSVersion discovered),
       is_Arch := pick (is_Arch declared) (is_Arch discovered),
       is_Bootloader := pick (is_Bootloader declared) (is_Bootloader discovered),
       is_Networks := pick (is_Networks declared) (is_Networks discovered),
       is_Disks := pick (is_Disks declared) (is_Disks discovered),
       is_ProviderConfig := pick (is_ProviderConfig declared) (is_ProviderConfig discovered),
       is_Labels := pick (is_Labels declared) (is_Labels discovered),
       is_Annotations := pick (is_Annotations declared) (is_Annotations discovered)\<rparr>"

definition syncInstanceSpec :: "'w api_env \<Rightarrow> string \<Rightarrow> string \<Rightarrow> instance_handle \<Rightarrow> ('w api_state, unit) state" where
  "syncInstanceSpec ev instanceID p handle = do {
     info \<leftarrow> api (pe_Info ev p handle) (\<lambda>r. ProvInfo p handle);
     case info of
       Inl e \<Rightarrow> reply ()
     | Inr (st, ips, observed) \<Rightarrow> do {
         stored \<leftarrow> api (pd_Get ev instanceID) (\<lambda>r. DsRead instanceID);
         case stored of
           Inl e \<Rightarrow> reply ()
         | Inr inst \<Rightarrow>
             let merged = mergeInstanceSpec (di_Spec inst) observed in do {
               api (pd_UpdateSpec ev instanceID merged) (\<lambda>r. DsUpdateSpec instanceID merged (r = None));
               reply ()
             }
       }
   }"

definition start_and_record :: "'w api_env \<Rightarrow> store_instance \<Rightarrow> ('w api_state, go_error option) state" where
  "start_and_record ev inst = do {
     err \<leftarrow> api (pe_Start ev (di_Provider inst) (di_Handle inst)) (\<lambda>r. ProvStart (di_Provider inst) (di_Handle inst) (r = None));
     case err of
       Some e \<Rightarrow> reply (Some e)
     | None \<Rightarrow> do {
         update_state ev (di_ID inst) StateRunning;
         syncInstanceSpec ev (di_ID inst) (di_Provider inst) (di_Handle inst);
         reply None
       }
   }"

definition handleStartInstance :: "'w api_env \<Rightarrow> 'b instance_request \<Rightarrow> string \<Rightarrow> ('w api_state, api_response) state" where
  "handleStartInstance ev r instanceID = with_instance ev instanceID (\<lambda>inst.
     if ir_wantsStream r \<and> \<not> ir_canFlush r then reply (RError 500 ''Streaming not supported'' None)
     else do {
       err \<leftarrow> start_and_record ev inst;
       reply (case err of
          Some e \<Rightarrow> if ir_wantsStream r then RStreamError ''Failed to start instance'' e
                     else RError 500 ''Failed to start instance'' (Some e)
        | None \<Rightarrow> if ir_wantsStream r then RStreamSuccess None else RStatus 200 ''started'')
     })"

definition handleStopInstance :: "'w api_env \<Rightarrow> 'b instance_request \<Rightarrow> string \<Rightarrow> ('w api_state, api_response) state" where
  "handleStopInstance ev r instanceID = with_instance ev instanceID (\<lambda>inst. do {
     err \<leftarrow> api (pe_Stop ev (di_Provider inst) (di_Handle inst) (ir_force r))
              (\<lambda>res. ProvStop (di_Provider inst) (di_Handle inst) (ir_force r) (res = None));
     case err of
       Some e \<Rightarrow> reply (RError 500 ''Failed to stop instance'' (Some e))
     | None \<Rightarrow> do {
         update_state ev (di_ID inst) StateStopped;
         reply (RStatus 200 ''stopped'')
       }
   })"

definition handleRestartInstance :: "'w api_env \<Rightarrow> string \<Rightarrow> ('w api_state, api_response) state" where
  "handleRestartInstance ev instanceID = with_instance ev instanceID (\<lambda>inst. do {
     err \<leftarrow> api (pe_Restart ev (di_Provider inst) (di_Handle inst)) (\<lambda>res. ProvRestart (di_Provider inst) (di_Handle inst) (res = None));
     case err of
       Some e \<Rightarrow> reply (RError 500 ''Failed to restart instance'' (Some e))
     | None \<Rightarrow> do {
         update_state ev (di_ID inst) StateRunning;
         reply (RStatus 200 ''restarted'')
       }
   })"

text \<open>The pass over all instances when the daemon starts.\<close>

definition sync_one :: "'w api_env \<Rightarrow> store_instance \<Rightarrow> ('w api_state, unit) state" where
  "sync_one ev inst =
     (if pe_Registered ev (di_Provider inst) \<noteq> None then reply ()
      else do {
        st \<leftarrow> api (pe_State ev (di_Provider inst) (di_Handle inst)) (\<lambda>r. ProvState (di_Provider inst) (di_Handle inst) (res_option r));
        let now = (case st of Inl e \<Rightarrow> StateUnknown | Inr s \<Rightarrow> s);
        if now = di_State inst then reply ()
        else do {
          update_state ev (di_ID inst) now;
          reply ()
        }
      })"

fun syncInstanceStates :: "'w api_env \<Rightarrow> store_instance list \<Rightarrow> ('w api_state, unit) state" where
  "syncInstanceStates ev [] = reply ()"
| "syncInstanceStates ev (i # is) = do {
     sync_one ev i;
     syncInstanceStates ev is
   }"

end
