(* ===== verification/Instances_Thms.thy ===== *)
theory Instances_Thms
  imports Instances Computations
begin

text \<open>
  The instance handlers: who may pass a privileged configuration, what a failed creation leaves behind, when a record is taken for a
  ghost's, and what is recorded of a change the provider refused.
\<close>

section \<open>The calls of a handler\<close>

definition calls_grow :: "(api_call \<Rightarrow> bool) \<Rightarrow> 'w api_state \<Rightarrow> 'w api_state \<Rightarrow> bool" where
  "calls_grow P s s' \<longleftrightarrow> (\<exists>xs. as_calls s' = as_calls s @ xs \<and> list_all P xs)"

interpretation cg: state_relation "calls_grow P" for P
proof
  show "calls_grow P s s" for s by (auto simp: calls_grow_def)
  show "calls_grow P s t \<Longrightarrow> calls_grow P t u \<Longrightarrow> calls_grow P s u" for s t u
    by (auto simp: calls_grow_def)
qed

definition new_calls :: "('w api_state, 'a) state \<Rightarrow> 'w api_state \<Rightarrow> api_call list" where
  "new_calls m s = drop (length (as_calls s)) (as_calls (snd (run_state m s)))"

lemma api_grows: "(\<And>r. P (c r)) \<Longrightarrow> state_io_rel (calls_grow P) (api f c)"
  by (auto simp: api_def state_io_rel_def calls_grow_def split: prod.splits)

lemmas calls_intros = cg.io_return cg.io_bind api_grows

lemma new_callsI: "state_io_rel (calls_grow P) m \<Longrightarrow> list_all P (new_calls m s)"
  by (auto simp: new_calls_def state_io_rel_def calls_grow_def dest!: spec [of _ s])

lemma new_calls_eq: "as_calls (snd (run_state m s)) = as_calls s @ xs \<Longrightarrow> new_calls m s = xs"
  by (simp add: new_calls_def)

lemma run_api [simp]:
  "run_state (api f c) s = (fst (f (as_world s)),
     s\<lparr>as_world := snd (f (as_world s)), as_calls := as_calls s @ [c (fst (f (as_world s)))]\<rparr>)"
  by (simp add: api_def split: prod.splits)

section \<open>Privileged configuration\<close>

definition host_mount :: "(string \<times> config_value) list \<Rightarrow> bool" where
  "host_mount config \<longleftrightarrow> (\<exists>m \<in> set (mountEntries (configValue config ''mounts'')). string_value ''host_path'' m \<noteq> [])"

lemma privileged_key_nonempty: "privilegedProviderConfigKey k \<Longrightarrow> k \<noteq> []"
  by (auto simp: privilegedProviderConfigKey_def Let_def)

lemma privileged_iff:
  "privilegedProviderConfig config \<noteq> [] \<longleftrightarrow> (\<exists>(k, v) \<in> set config. privilegedProviderConfigKey k) \<or> host_mount config"
proof (cases "find (\<lambda>(k, v). privilegedProviderConfigKey k) config")
  case None
  then have "\<not> (\<exists>(k, v) \<in> set config. privilegedProviderConfigKey k)" by (auto simp: find_None_iff)
  moreover have "host_mount config \<longleftrightarrow> find (\<lambda>m. string_value ''host_path'' m \<noteq> []) (mountEntries (configValue config ''mounts'')) \<noteq> None"
    by (auto simp: host_mount_def find_None_iff)
  ultimately show ?thesis using None by (auto simp: privilegedProviderConfig_def split: option.splits)
next
  case (Some p)
  obtain k v where p: "p = (k, v)" by (cases p)
  with Some have "(k, v) \<in> set config" "privilegedProviderConfigKey k"
    using nth_mem by (fastforce simp: find_Some_iff)+
  with p have "p = (k, v)" "(k, v) \<in> set config" "privilegedProviderConfigKey k" by simp_all
  with Some show ?thesis using privileged_key_nonempty by (auto simp: privilegedProviderConfig_def)
qed

fun harmless :: "api_call \<Rightarrow> bool" where
  "harmless (DsRead n) = True"
| "harmless (AuditFailure ip msg) = True"
| "harmless _ = False"

lemma harmless_audit: "state_io_rel (calls_grow harmless) (audit ip msg)"
  unfolding audit_def by (rule api_grows) simp

lemma refused:
  assumes "ir_permissions r = Some perms" "\<not> hasPerm perms ''admin''" "privilegedProviderConfig config \<noteq> []"
  shows "run_state (refusePrivilegedConfig r config) s =
    (Some (RError 403 (privilegedProviderConfig config @ '' gives the caller the host filesystem and needs an admin key'') None),
     s\<lparr>as_calls := as_calls s @ [AuditFailure (ir_clientIP r) (''privileged provider config without admin: '' @ privilegedProviderConfig config)]\<rparr>)"
  using assms by (simp add: refusePrivilegedConfig_def audit_def Let_def)

lemma harmless_lookup: "state_io_rel (calls_grow harmless) (lookupInstance ev i)"
  unfolding lookupInstance_def by (auto intro!: calls_intros split: sum.split)


lemmas run_simps = run_state_bind run_state_return run_api split_beta

lemma create_refused:
  assumes "ir_permissions r = Some perms" "\<not> hasPerm perms ''admin''" "ir_body r = Inr spec"
    "privilegedProviderConfig (is_ProviderConfig spec) \<noteq> []"
  shows "as_world (snd (run_state (handleCreateInstance ev r) s)) = as_world s \<and>
    list_all harmless (new_calls (handleCreateInstance ev r) s) \<and>
    (case fst (run_state (handleCreateInstance ev r) s) of RError c m e \<Rightarrow> c = 400 \<or> c = 403 | _ \<Rightarrow> False)"
  using assms(3)
  by (auto simp: handleCreateInstance_def new_calls_def run_simps refused [OF assms(1,2,4)] split: option.splits)

lemma harmless_config_check:
  assumes "ir_permissions r = Some perms" "\<not> hasPerm perms ''admin''" "up_ProviderConfig req = Some config"
    "privilegedProviderConfig config \<noteq> []"
  shows "\<exists>resp xs. run_state (update_checked ev r req inst) s = (Inl resp, s\<lparr>as_calls := as_calls s @ xs\<rparr>) \<and> list_all harmless xs \<and>
    (case resp of RError c m e \<Rightarrow> c = 403 | RErrorf c f a e \<Rightarrow> c = 400 | _ \<Rightarrow> False)"
proof (cases "config_error config")
  case None
  then show ?thesis
    using assms(3) by (auto simp: update_checked_def run_simps refused [OF assms(1,2,4)] Let_def)
next
  case (Some resp)
  then have "run_state (update_checked ev r req inst) s = (Inl resp, s\<lparr>as_calls := as_calls s @ []\<rparr>)"
    using assms(3) by (simp add: update_checked_def run_simps Let_def)
  moreover have "case resp of RError c m e \<Rightarrow> c = 403 | RErrorf c f a e \<Rightarrow> c = 400 | _ \<Rightarrow> False"
    using Some by (auto simp: config_error_def split: option.splits)
  ultimately show ?thesis by (metis list.pred_inject(1))
qed

lemma lookup_calls: "\<exists>xs. as_calls (snd (run_state (lookupInstance ev i) s)) = as_calls s @ xs \<and> list_all harmless xs"
  using harmless_lookup [of ev i] by (auto simp: state_io_rel_def calls_grow_def)

lemma update_refused:
  assumes "ir_permissions r = Some perms" "\<not> hasPerm perms ''admin''" "ir_body r = Inr req"
    "up_ProviderConfig req = Some config" "privilegedProviderConfig config \<noteq> []"
  shows "list_all harmless (new_calls (handleUpdateInstance ev r i) s) \<and>
    (case fst (run_state (handleUpdateInstance ev r i) s) of
       RError c m e \<Rightarrow> c = 404 \<or> c = 403 | RErrorf c f a e \<Rightarrow> c = 400 | _ \<Rightarrow> False)"
proof -
  obtain xs where xs: "as_calls (snd (run_state (lookupInstance ev i) s)) = as_calls s @ xs" "list_all harmless xs"
    using lookup_calls by blast
  show ?thesis
  proof (cases "fst (run_state (lookupInstance ev i) s)")
    case (Inl e)
    with xs show ?thesis by (simp add: handleUpdateInstance_def new_calls_def run_simps)
  next
    case (Inr inst)
    obtain resp ys where "run_state (update_checked ev r req inst) (snd (run_state (lookupInstance ev i) s)) =
        (Inl resp, (snd (run_state (lookupInstance ev i) s))\<lparr>as_calls := (as_calls s @ xs) @ ys\<rparr>)" "list_all harmless ys"
        "case resp of RError c m e \<Rightarrow> c = 403 | RErrorf c f a e \<Rightarrow> c = 400 | _ \<Rightarrow> False"
      using harmless_config_check [OF assms(1,2,4,5)] xs(1) by metis
    with Inr xs assms(3) show ?thesis
      by (auto simp: handleUpdateInstance_def new_calls_def run_simps split: api_response.splits)
  qed
qed


section \<open>What a creation leaves behind\<close>

fun creates :: "api_call \<Rightarrow> bool" where
  "creates (ProvCreate p sp h) = True"
| "creates (ProvDelete p h f ok) = True"
| "creates (DsCreate i ok) = True"
| "creates _ = False"

fun created_response :: "api_response \<Rightarrow> store_instance option" where
  "created_response (RInstance c i) = Some i"
| "created_response (RStreamSuccess i) = i"
| "created_response _ = None"

text \<open>The provider refused; made and recorded; made, not recorded and taken back.\<close>

definition creation_outcome :: "string \<Rightarrow> instance_spec \<Rightarrow> api_call list \<Rightarrow> store_instance option \<Rightarrow> bool" where
  "creation_outcome p spec xs answer \<longleftrightarrow>
     xs = [ProvCreate p spec None] \<and> answer = None \<or>
     (\<exists>h. let inst = createdInstanceRecord h spec p in
        xs = [ProvCreate p spec (Some h), DsCreate inst True] \<and> answer = Some inst \<or>
        (\<exists>ok. xs = [ProvCreate p spec (Some h), DsCreate inst False, ProvDelete p h True ok]) \<and> answer = None)"

lemma create_and_record_outcome:
  "creation_outcome p spec (new_calls (create_and_record ev r p spec) s) (created_response (fst (run_state (create_and_record ev r p spec) s)))"
proof (cases "fst (pe_Create ev p spec (as_world s))")
  case (Inl e)
  then show ?thesis
    by (simp add: creation_outcome_def new_calls_def create_and_record_def run_simps res_option_def Let_def)
next
  case (Inr h)
  then show ?thesis
    by (auto simp: creation_outcome_def new_calls_def create_and_record_def record_created_def discardCreatedInstance_def prov_delete_def
        run_simps res_option_def Let_def split: option.splits)
qed

lemma create_grows: "as_calls (snd (run_state (create_and_record ev r p spec) s)) = as_calls s @ new_calls (create_and_record ev r p spec) s"
proof -
  have "state_io_rel (calls_grow (\<lambda>c. True)) (create_and_record ev r p spec)"
    unfolding create_and_record_def record_created_def discardCreatedInstance_def prov_delete_def Let_def
    by (auto intro!: calls_intros split: sum.split option.split)
  then show ?thesis by (auto simp: new_calls_def state_io_rel_def calls_grow_def dest!: spec [of _ s])
qed

lemma check_existing_grows:
  assumes "\<And>n. P (DsRead n)" "\<And>p h st. P (ProvState p h st)" "\<And>i b. P (DsDelete i b)" "\<And>n b. P (FwRemoveAll n b)"
  shows "state_io_rel (calls_grow P) (check_existing ev n)"
  unfolding check_existing_def cleanupFirewallRules_def
  by (auto intro!: calls_intros assms split: sum.split option.split)

lemma refuse_grows:
  assumes "\<And>ip m. P (AuditFailure ip m)"
  shows "state_io_rel (calls_grow P) (refusePrivilegedConfig r config)"
  unfolding refusePrivilegedConfig_def audit_def by (auto simp: Let_def intro!: calls_intros assms split: option.split)

lemma refuse_response: "created_response (the (fst (run_state (refusePrivilegedConfig r config) s))) = None \<or>
    fst (run_state (refusePrivilegedConfig r config) s) = None"
  by (auto simp: refusePrivilegedConfig_def audit_def run_simps Let_def split: option.split)

lemma refuse_world: "as_world (snd (run_state (refusePrivilegedConfig r config) s)) = as_world s"
  by (auto simp: refusePrivilegedConfig_def audit_def run_simps Let_def split: option.split)

lemma existing_response: "created_response (the (fst (run_state (check_existing ev n) s))) = None \<or>
    fst (run_state (check_existing ev n) s) = None"
  by (auto simp: check_existing_def run_simps split: option.split sum.split)


definition after_gate :: "instance_spec instance_request \<Rightarrow> instance_spec \<Rightarrow> 'w api_state \<Rightarrow> 'w api_state" where
  "after_gate r spec s = snd (run_state (refusePrivilegedConfig r (is_ProviderConfig spec)) s)"

definition after_check :: "'w api_env \<Rightarrow> instance_spec instance_request \<Rightarrow> instance_spec \<Rightarrow> 'w api_state \<Rightarrow> 'w api_state" where
  "after_check ev r spec s = snd (run_state (check_existing ev (is_Name spec)) (after_gate r spec s))"

lemma create_phases:
  assumes "ir_body r = Inr spec"
  shows "snd (run_state (handleCreateInstance ev r) s) \<in> {s, after_gate r spec s, after_check ev r spec s} \<and>
      created_response (fst (run_state (handleCreateInstance ev r) s)) = None \<or>
    fst (run_state (check_existing ev (is_Name spec)) (after_gate r spec s)) = None \<and>
      run_state (handleCreateInstance ev r) s =
      run_state (create_and_record ev r (provider_of_request r spec) spec) (after_check ev r spec s)"
  using assms refuse_response [of r "is_ProviderConfig spec" s] existing_response [of ev "is_Name spec" "after_gate r spec s"]
  by (auto simp: handleCreateInstance_def after_gate_def after_check_def run_simps Let_def split: option.split)

lemma bad_body_creates_nothing: "ir_body r = Inl e \<Longrightarrow> run_state (handleCreateInstance ev r) s = (RError 400 ''Invalid request body'' (Some e), s)"
  by (simp add: handleCreateInstance_def)

lemma after_check_calls:
  assumes "\<And>n. P (DsRead n)" "\<And>p h st. P (ProvState p h st)" "\<And>i b. P (DsDelete i b)" "\<And>n b. P (FwRemoveAll n b)"
    "\<And>ip m. P (AuditFailure ip m)"
  shows "calls_grow P s (after_gate r spec s)" "calls_grow P s (after_check ev r spec s)"
proof -
  show gate: "calls_grow P s (after_gate r spec s)"
    using refuse_grows [of P r "is_ProviderConfig spec"] assms(5) by (auto simp: after_gate_def state_io_rel_def)
  moreover have "calls_grow P (after_gate r spec s) (after_check ev r spec s)"
    using check_existing_grows [of P ev "is_Name spec"] assms(1-4) by (auto simp: after_check_def state_io_rel_def)
  ultimately show "calls_grow P s (after_check ev r spec s)" by (rule cg.R_trans)
qed

lemma filter_new_calls:
  assumes "as_calls (snd (run_state m s)) = as_calls s @ xs @ ys" "list_all (\<lambda>c. \<not> P c) xs" "list_all P ys"
  shows "filter P (new_calls m s) = ys"
  using assms by (auto simp: new_calls_def list_all_iff filter_empty_conv)

lemma create_outcome:
  assumes "ir_body r = Inr spec"
  shows "filter creates (new_calls (handleCreateInstance ev r) s) = [] \<and> created_response (fst (run_state (handleCreateInstance ev r) s)) = None \<or>
    creation_outcome (provider_of_request r spec) spec (filter creates (new_calls (handleCreateInstance ev r) s))
      (created_response (fst (run_state (handleCreateInstance ev r) s)))"
  (is "?nothing \<or> ?outcome")
proof -
  let ?H = "handleCreateInstance ev r"
  let ?C = "create_and_record ev r (provider_of_request r spec) spec" and ?s2 = "after_check ev r spec s"
  have quiet: "calls_grow (\<lambda>c. \<not> creates c) s (after_gate r spec s)" "calls_grow (\<lambda>c. \<not> creates c) s ?s2"
    by (rule after_check_calls; simp)+
  consider (early) "snd (run_state ?H s) \<in> {s, after_gate r spec s, ?s2}" "created_response (fst (run_state ?H s)) = None"
    | (create) "run_state ?H s = run_state ?C ?s2"
    using create_phases [OF assms, of ev s] by (elim disjE conjE)
  then show ?thesis
  proof cases
    case early
    then have "calls_grow (\<lambda>c. \<not> creates c) s (snd (run_state ?H s))" using quiet cg.R_refl by auto
    then have "filter creates (new_calls ?H s) = []"
      by (auto simp: calls_grow_def intro: filter_new_calls [where ys = "[]"])
    with early(2) show ?thesis by simp
  next
    case create
    obtain xs where xs: "as_calls ?s2 = as_calls s @ xs" "list_all (\<lambda>c. \<not> creates c) xs"
      using quiet(2) by (auto simp: calls_grow_def)
    have out: "creation_outcome (provider_of_request r spec) spec (new_calls ?C ?s2) (created_response (fst (run_state ?H s)))"
      using create_and_record_outcome [of "provider_of_request r spec" spec ev r ?s2] by (simp add: create)
    then have "list_all creates (new_calls ?C ?s2)" by (auto simp: creation_outcome_def Let_def)
    moreover have "as_calls (snd (run_state ?H s)) = as_calls s @ xs @ new_calls ?C ?s2"
      using xs(1) create_grows [of ev r "provider_of_request r spec" spec ?s2] by (simp add: create)
    ultimately have "filter creates (new_calls ?H s) = new_calls ?C ?s2" using xs(2) by (intro filter_new_calls)
    with out show ?thesis by simp
  qed
qed


section \<open>Ghosts\<close>

abbreviation says_unknown :: "store_instance \<Rightarrow> api_call" where
  "says_unknown i \<equiv> ProvState (di_Provider i) (di_Handle i) (Some StateUnknown)"

definition ghost_call :: "store_instance \<Rightarrow> api_call \<Rightarrow> bool" where
  "ghost_call i c \<longleftrightarrow> (\<exists>b. c = DsDelete (di_ID i) b) \<or> (\<exists>b. c = FwRemoveAll (di_Name i) b)"

fun removes :: "api_call \<Rightarrow> bool" where
  "removes (DsDelete i b) = True"
| "removes (FwRemoveAll n b) = True"
| "removes _ = False"

lemma check_existing_removes:
  assumes "c \<in> set (new_calls (check_existing ev n) s)" "removes c"
  shows "\<exists>i. fst (pd_GetByName ev n (as_world s)) = Inr (Some i) \<and> ghost_call i c \<and> says_unknown i \<in> set (new_calls (check_existing ev n) s)"
  using assms
  by (auto simp: check_existing_def cleanupFirewallRules_def new_calls_def ghost_call_def res_option_def run_simps
      split: option.splits sum.splits if_splits)

lemma check_existing_passes:
  assumes "fst (pd_GetByName ev n (as_world s)) = Inr (Some i)" "fst (run_state (check_existing ev n) s) = None"
  shows "says_unknown i \<in> set (new_calls (check_existing ev n) s)"
  using assms
  by (auto simp: check_existing_def cleanupFirewallRules_def new_calls_def res_option_def run_simps
      split: option.splits sum.splits if_splits)

lemma create_calls_split:
  assumes "ir_body r = Inr spec"
  obtains gate rest where "new_calls (handleCreateInstance ev r) s = gate @ rest" "list_all harmless gate"
      "rest = [] \<or> rest = new_calls (check_existing ev (is_Name spec)) (after_gate r spec s)"
  | gate made where
      "new_calls (handleCreateInstance ev r) s = gate @ new_calls (check_existing ev (is_Name spec)) (after_gate r spec s) @ made"
      "list_all harmless gate" "list_all creates made"
      "fst (run_state (check_existing ev (is_Name spec)) (after_gate r spec s)) = None"
proof -
  let ?H = "handleCreateInstance ev r" and ?s1 = "after_gate r spec s" and ?s2 = "after_check ev r spec s"
  let ?C = "create_and_record ev r (provider_of_request r spec) spec"
  obtain gate where gate: "as_calls ?s1 = as_calls s @ gate" "list_all harmless gate"
    using refuse_grows [of harmless r "is_ProviderConfig spec"] by (auto simp: after_gate_def state_io_rel_def calls_grow_def)
  have check: "as_calls ?s2 = as_calls ?s1 @ new_calls (check_existing ev (is_Name spec)) ?s1"
    using check_existing_grows [of "\<lambda>c. True" ev "is_Name spec"]
    by (auto simp: after_check_def new_calls_def state_io_rel_def calls_grow_def dest!: spec [of _ ?s1])
  consider (stay) "snd (run_state ?H s) = s" | (gate) "snd (run_state ?H s) = ?s1" | (check) "snd (run_state ?H s) = ?s2"
    | (create) "fst (run_state (check_existing ev (is_Name spec)) ?s1) = None" "run_state ?H s = run_state ?C ?s2"
    using create_phases [OF assms, of ev s] by (elim disjE conjE insertE emptyE)
  then show ?thesis
  proof cases
    case stay
    then have "new_calls ?H s = [] @ []" by (simp add: new_calls_def)
    then show ?thesis using that(1) by fastforce
  next
    case gate
    then have "new_calls ?H s = gate @ []" using \<open>as_calls ?s1 = as_calls s @ gate\<close> by (simp add: new_calls_def)
    then show ?thesis using that(1) \<open>list_all harmless gate\<close> by blast
  next
    case check
    then have "new_calls ?H s = gate @ new_calls (check_existing ev (is_Name spec)) ?s1"
      using gate(1) \<open>as_calls ?s2 = _\<close> by (intro new_calls_eq) simp
    then show ?thesis using that(1) \<open>list_all harmless gate\<close> by blast
  next
    case create
    have "new_calls ?H s = gate @ new_calls (check_existing ev (is_Name spec)) ?s1 @ new_calls ?C ?s2"
      using gate(1) check create_grows [of ev r "provider_of_request r spec" spec ?s2] create(2) by (intro new_calls_eq) simp
    moreover have "list_all creates (new_calls ?C ?s2)"
      using create_and_record_outcome [of "provider_of_request r spec" spec ev r ?s2] by (auto simp: creation_outcome_def Let_def)
    ultimately show ?thesis using that(2) gate(2) create(1) by blast
  qed
qed


section \<open>What is recorded of a change\<close>

fun call_ok :: "api_call \<Rightarrow> bool" where
  "call_ok (ProvReconfigure p h sp ok) = ok"
| "call_ok (ProvSetResources p h c m ok) = ok"
| "call_ok (DsUpdateSpec i sp ok) = ok"
| "call_ok (DsUpdateHandle i h ok) = ok"
| "call_ok _ = True"

fun changes :: "api_call \<Rightarrow> bool" where
  "changes (ProvReconfigure p h sp ok) = True"
| "changes (ProvSetResources p h c m ok) = True"
| "changes (DsUpdateSpec i sp ok) = True"
| "changes (DsUpdateHandle i h ok) = True"
| "changes _ = False"

fun applies :: "store_instance \<Rightarrow> api_call \<Rightarrow> bool" where
  "applies i (ProvReconfigure p h sp ok) \<longleftrightarrow> p = di_Provider i \<and> h = di_Handle i \<and> sp = di_Spec i"
| "applies i (ProvSetResources p h c m ok) \<longleftrightarrow> p = di_Provider i \<and> h = di_Handle i \<and> c = is_CPUs (di_Spec i) \<and> m = is_MemoryMB (di_Spec i)"
| "applies i _ \<longleftrightarrow> False"

fun records :: "store_instance \<Rightarrow> api_call \<Rightarrow> bool" where
  "records i (DsUpdateSpec n sp ok) \<longleftrightarrow> n = di_ID i \<and> sp = di_Spec i"
| "records i (DsUpdateHandle n h ok) \<longleftrightarrow> n = di_ID i \<and> h = di_Handle i"
| "records i _ \<longleftrightarrow> False"

text \<open>
  The change is handed to the provider at most once, then recorded; a call that fails is the last; the answer is 200 exactly when the
  change was recorded and nothing failed.
\<close>

definition change_outcome :: "store_instance \<Rightarrow> api_call list \<Rightarrow> bool \<Rightarrow> bool" where
  "change_outcome i xs answered \<longleftrightarrow>
     (\<exists>as bs. xs = as @ bs \<and> length as \<le> 1 \<and> list_all (applies i) as \<and> list_all (records i) bs \<and>
        list_all call_ok (butlast xs) \<and> (answered \<longleftrightarrow> bs \<noteq> [] \<and> list_all call_ok xs))"

definition ok_response :: "api_response \<Rightarrow> bool" where
  "ok_response r \<longleftrightarrow> (\<exists>i. r = RInstance 200 i)"

lemma apply_update_calls:
  "\<exists>as. as_calls (snd (run_state (apply_update ev req i) s)) = as_calls s @ as \<and> length as \<le> 1 \<and> list_all (applies i) as \<and>
     (list_all call_ok as \<longleftrightarrow> fst (run_state (apply_update ev req i) s) = None)"
  by (auto simp: apply_update_def)

lemma record_update_calls:
  "\<exists>bs. as_calls (snd (run_state (record_update ev req i) s)) = as_calls s @ bs \<and> bs \<noteq> [] \<and> list_all (records i) bs \<and>
     list_all call_ok (butlast bs) \<and> (list_all call_ok bs \<longleftrightarrow> fst (run_state (record_update ev req i) s) = None)"
  by (auto simp: record_update_def run_simps split: option.splits)

lemma record_update_response: "\<not> ok_response (the (fst (run_state (record_update ev req i) s))) \<or> fst (run_state (record_update ev req i) s) = None"
  by (auto simp: record_update_def ok_response_def run_simps split: option.splits)

lemma refresh_grows: "state_io_rel (calls_grow (\<lambda>c. \<not> changes c)) (refreshFromProvider ev i)"
  unfolding refreshFromProvider_def refresh_state_def askProviderForAddress_def
  by (auto intro!: calls_intros split: sum.split option.split)

lemma update_checked_grows: "state_io_rel (calls_grow harmless) (update_checked ev r req i)"
  unfolding update_checked_def Let_def by (auto intro!: calls_intros refuse_grows split: option.split)

lemma update_checked_response:
  "fst (run_state (update_checked ev r req i) s) = Inl resp \<Longrightarrow> \<not> ok_response resp"
  by (auto simp: update_checked_def ok_response_def refusePrivilegedConfig_def audit_def config_error_def run_simps Let_def
      split: option.splits if_splits)


lemma applies_changes: "list_all (applies i) as \<Longrightarrow> list_all changes as"
proof (erule list.pred_mono_strong)
  show "applies i c \<Longrightarrow> changes c" for c by (cases c) simp_all
qed

lemma records_changes: "list_all (records i) bs \<Longrightarrow> list_all changes bs"
proof (erule list.pred_mono_strong)
  show "records i c \<Longrightarrow> changes c" for c by (cases c) simp_all
qed

lemma apply_and_record_calls:
  "\<exists>xs ys. as_calls (snd (run_state (apply_and_record ev req i) s)) = as_calls s @ xs @ ys \<and> list_all changes xs \<and>
     list_all (\<lambda>c. \<not> changes c) ys \<and> change_outcome i xs (ok_response (fst (run_state (apply_and_record ev req i) s)))"
proof -
  let ?A = "apply_update ev req i" and ?R = "record_update ev req i" and ?m = "apply_and_record ev req i"
  let ?s1 = "snd (run_state ?A s)"
  let ?s2 = "snd (run_state ?R ?s1)"
  obtain as where as: "as_calls ?s1 = as_calls s @ as" "length as \<le> 1" "list_all (applies i) as"
      "list_all call_ok as \<longleftrightarrow> fst (run_state ?A s) = None"
    using apply_update_calls by blast
  show ?thesis
  proof (cases "fst (run_state ?A s)")
    case (Some e)
    have "list_all call_ok (butlast as)" using as(2) by (cases as rule: rev_cases) auto
    then have "change_outcome i as False" using as Some unfolding change_outcome_def
      by (intro exI [of _ as] exI [of _ "[]"]) simp
    then show ?thesis using Some as applies_changes
      by (intro exI [of _ as] exI [of _ "[]"]) (auto simp: apply_and_record_def ok_response_def run_simps)
  next
    case None
    obtain bs where bs: "as_calls ?s2 = as_calls ?s1 @ bs" "bs \<noteq> []" "list_all (records i) bs" "list_all call_ok (butlast bs)"
        "list_all call_ok bs \<longleftrightarrow> fst (run_state ?R ?s1) = None"
      using record_update_calls by blast
    have out: "change_outcome i (as @ bs) (list_all call_ok bs)"
      using as bs None unfolding change_outcome_def
      by (intro exI [of _ as] exI [of _ bs]) (auto simp: butlast_append)
    have all: "list_all changes (as @ bs)" using as(3) bs(3) applies_changes records_changes by simp
    show ?thesis
    proof (cases "fst (run_state ?R ?s1)")
      case stopped: (Some resp)
      then have "\<not> ok_response resp" using record_update_response [of ev req i ?s1] by auto
      with stopped None as(1) bs(1,5) out all show ?thesis
        by (intro exI [of _ "as @ bs"] exI [of _ "[]"]) (simp add: apply_and_record_def run_simps)
    next
      case recorded: None
      obtain ys where "as_calls (snd (run_state (refreshFromProvider ev i) ?s2)) = as_calls ?s2 @ ys" "list_all (\<lambda>c. \<not> changes c) ys"
        using refresh_grows [of ev i] by (auto simp: state_io_rel_def calls_grow_def)
      with recorded None as(1) bs(1,5) out all show ?thesis
        by (intro exI [of _ "as @ bs"] exI [of _ ys]) (simp add: apply_and_record_def ok_response_def run_simps)
    qed
  qed
qed

definition same_instance :: "store_instance \<Rightarrow> store_instance \<Rightarrow> bool" where
  "same_instance i j \<longleftrightarrow> di_ID i = di_ID j \<and> di_Provider i = di_Provider j \<and> di_Name i = di_Name j"

lemma update_checked_same: "fst (run_state (update_checked ev r req j) s) = Inr i \<Longrightarrow> same_instance i j"
  by (auto simp: update_checked_def same_instance_def run_simps Let_def split: option.splits if_splits)

lemma update_phases:
  "(\<exists>xs. as_calls (snd (run_state (handleUpdateInstance ev r n) s)) = as_calls s @ xs \<and> list_all harmless xs \<and>
      \<not> ok_response (fst (run_state (handleUpdateInstance ev r n) s))) \<or>
   (\<exists>xs t req i j. as_calls t = as_calls s @ xs \<and> list_all harmless xs \<and>
      fst (run_state (lookupInstance ev n) s) = Inr j \<and> same_instance i j \<and>
      run_state (handleUpdateInstance ev r n) s = run_state (apply_and_record ev req i) t)"
  (is "?early \<or> ?late")
proof -
  let ?H = "handleUpdateInstance ev r n" and ?s1 = "snd (run_state (lookupInstance ev n) s)"
  obtain xs where xs: "as_calls ?s1 = as_calls s @ xs" "list_all harmless xs" using lookup_calls by blast
  consider (missing) e where "fst (run_state (lookupInstance ev n) s) = Inl e"
    | (body) i0 e where "fst (run_state (lookupInstance ev n) s) = Inr i0" "ir_body r = Inl e"
    | (found) i0 req where "fst (run_state (lookupInstance ev n) s) = Inr i0" "ir_body r = Inr req"
    by (metis sumE)
  then show ?thesis
  proof cases
    case missing
    then have "run_state ?H s = (RError 404 ''Instance not found'' (Some e), ?s1)" by (simp add: handleUpdateInstance_def run_simps)
    with xs have ?early by (simp add: ok_response_def)
    then show ?thesis ..
  next
    case body
    then have "run_state ?H s = (RError 400 ''Invalid request body'' (Some e), ?s1)" by (simp add: handleUpdateInstance_def run_simps)
    with xs have ?early by (simp add: ok_response_def)
    then show ?thesis ..
  next
    case found
    let ?U = "run_state (update_checked ev r req i0) ?s1"
    obtain ys where ys: "as_calls (snd ?U) = as_calls ?s1 @ ys" "list_all harmless ys"
      using update_checked_grows [of ev r req i0] by (auto simp: state_io_rel_def calls_grow_def)
    have xys: "as_calls (snd ?U) = as_calls s @ (xs @ ys)" "list_all harmless (xs @ ys)" using xs ys by simp_all
    consider (refused) resp where "fst ?U = Inl resp" | (gone) i e where "fst ?U = Inr i" "pe_Registered ev (di_Provider i) = Some e"
      | (change) i where "fst ?U = Inr i" "pe_Registered ev (di_Provider i) = None"
      by (metis sumE not_Some_eq)
    then show ?thesis
    proof cases
      case refused
      then have "run_state ?H s = (resp, snd ?U)" using found by (simp add: handleUpdateInstance_def run_simps)
      with xys update_checked_response [OF refused] have ?early by auto
      then show ?thesis ..
    next
      case gone
      then have "run_state ?H s = (RError 500 (''Provider not found: '' @ di_Provider i) (Some e), snd ?U)"
        using found by (simp add: handleUpdateInstance_def run_simps)
      with xys have ?early by (auto simp: ok_response_def)
      then show ?thesis ..
    next
      case change
      then have "run_state ?H s = run_state (apply_and_record ev req i) (snd ?U)"
        using found by (simp add: handleUpdateInstance_def run_simps)
      with xys found(1) update_checked_same [OF change(1)] have ?late by blast
      then show ?thesis ..
    qed
  qed
qed

lemma harmless_no_change: "harmless c \<Longrightarrow> \<not> changes c"
  by (cases c) auto

lemma update_outcome:
  assumes "fst (run_state (lookupInstance ev n) s) = Inr j"
  shows "\<exists>i. same_instance i j \<and> change_outcome i (filter changes (new_calls (handleUpdateInstance ev r n) s)) (ok_response (fst (run_state (handleUpdateInstance ev r n) s)))"
proof -
  let ?H = "handleUpdateInstance ev r n"
  have quiet: "filter changes xs = []" if "list_all harmless xs" for xs
    using that harmless_no_change by (auto simp: list_all_iff filter_empty_conv)
  consider (early) xs where "as_calls (snd (run_state ?H s)) = as_calls s @ xs" "list_all harmless xs" "\<not> ok_response (fst (run_state ?H s))"
    | (late) xs t req i where "as_calls t = as_calls s @ xs" "list_all harmless xs" "run_state ?H s = run_state (apply_and_record ev req i) t"
        "same_instance i j"
    using update_phases [of ev r n s] assms by auto
  then show ?thesis
  proof cases
    case early
    then have "filter changes (new_calls ?H s) = []" using new_calls_eq [OF early(1)] quiet by simp
    with early(3) show ?thesis by (auto simp: change_outcome_def same_instance_def)
  next
    case late
    obtain us vs where uv: "as_calls (snd (run_state ?H s)) = as_calls t @ us @ vs" "list_all changes us"
        "list_all (\<lambda>c. \<not> changes c) vs" "change_outcome i us (ok_response (fst (run_state ?H s)))"
      using apply_and_record_calls [of ev req i t] unfolding late(3) by blast
    have "new_calls ?H s = xs @ us @ vs" using uv(1) late(1) by (intro new_calls_eq) simp
    moreover have "filter changes us = us" "filter changes vs = []" using uv(2,3) by (auto simp: list_all_iff filter_empty_conv)
    ultimately have "filter changes (new_calls ?H s) = us" using quiet [OF late(2)] by simp
    with uv(4) late(4) show ?thesis by auto
  qed
qed


section \<open>Deleting\<close>

definition delete_outcome :: "store_instance \<Rightarrow> bool \<Rightarrow> api_call list \<Rightarrow> bool \<Rightarrow> bool" where
  "delete_outcome i force xs answered \<longleftrightarrow>
     xs = [ProvDelete (di_Provider i) (di_Handle i) force False] \<and> \<not> answered \<or>
     (\<exists>fw ok. xs = ProvDelete (di_Provider i) (di_Handle i) force True # fw @ [DsDelete (di_ID i) ok] \<and>
        (\<forall>c \<in> set fw. \<exists>b. c = FwRemoveAll (di_Name i) b) \<and> (answered \<longleftrightarrow> ok))"

lemma cleanup_calls:
  "\<exists>fw. as_calls (snd (run_state (cleanupFirewallRules ev n) s)) = as_calls s @ fw \<and> (\<forall>c \<in> set fw. \<exists>b. c = FwRemoveAll n b)"
  by (auto simp: cleanupFirewallRules_def split: option.split)

lemma delete_calls:
  assumes "fst (run_state (lookupInstance ev n) s) = Inr i" "pe_Registered ev (di_Provider i) = None"
  shows "delete_outcome i (ir_force r) (filter (\<lambda>c. \<not> harmless c) (new_calls (handleDeleteInstance ev r n) s))
    (fst (run_state (handleDeleteInstance ev r n) s) = RNoContent)"
proof -
  let ?H = "handleDeleteInstance ev r n" and ?s1 = "snd (run_state (lookupInstance ev n) s)"
  let ?D = "prov_delete ev (di_Provider i) (di_Handle i) (ir_force r)"
  obtain xs where xs: "as_calls ?s1 = as_calls s @ xs" "list_all harmless xs" using lookup_calls by blast
  have quiet: "filter (\<lambda>c. \<not> harmless c) xs = []" using xs(2) by (auto simp: list_all_iff filter_empty_conv)
  show ?thesis
  proof (cases "fst (run_state ?D ?s1)")
    case (Some e)
    then have run: "fst (run_state ?H s) = RError 500 ''Failed to delete instance'' (Some e)"
        "as_calls (snd (run_state ?H s)) = as_calls s @ (xs @ [ProvDelete (di_Provider i) (di_Handle i) (ir_force r) False])"
      using assms xs(1) by (simp_all add: handleDeleteInstance_def with_instance_def prov_delete_def run_simps)
    from new_calls_eq [OF run(2)] run(1) quiet show ?thesis by (simp add: delete_outcome_def)
  next
    case None
    let ?s2 = "snd (run_state ?D ?s1)"
    obtain fw where fw: "as_calls (snd (run_state (cleanupFirewallRules ev (di_Name i)) ?s2)) = as_calls ?s2 @ fw"
        "\<forall>c \<in> set fw. \<exists>b. c = FwRemoveAll (di_Name i) b"
      using cleanup_calls by blast
    let ?w = "as_world (snd (run_state (cleanupFirewallRules ev (di_Name i)) ?s2))"
    let ?ok = "fst (pd_Delete ev (di_ID i) ?w) = None"
    have "as_calls ?s2 = as_calls s @ (xs @ [ProvDelete (di_Provider i) (di_Handle i) (ir_force r) True])"
      using xs(1) None by (simp add: prov_delete_def run_simps)
    then have run: "as_calls (snd (run_state ?H s)) =
        as_calls s @ (xs @ ProvDelete (di_Provider i) (di_Handle i) (ir_force r) True # fw @ [DsDelete (di_ID i) ?ok])"
        "(fst (run_state ?H s) = RNoContent) = ?ok"
      using assms fw(1) None by (simp_all add: handleDeleteInstance_def with_instance_def run_simps split: option.split)
    have "filter (\<lambda>c. \<not> harmless c) fw = fw" using fw(2) by (auto simp: filter_id_conv)
    with new_calls_eq [OF run(1)] run(2) quiet fw(2) show ?thesis by (auto simp: delete_outcome_def)
  qed
qed


section \<open>The properties of the handlers\<close>

text \<open>
  A store of instances with a jail provider that knows nothing of the instances it is asked about, for the examples; the store
  of \<open>full_env\<close> is out of space.
\<close>

definition small_spec :: instance_spec where
  "small_spec =
     \<lparr>is_Name = ''web'', is_Description = [], is_CPUs = 1, is_MemoryMB = 256, is_MaxProc = 0, is_ReadBPS = 0, is_WriteBPS = 0,
      is_ReadIOPS = 0, is_WriteIOPS = 0, is_Image = [], is_OSType = [], is_OSVersion = [], is_Arch = [], is_CloudInit = None,
      is_Bootloader = [], is_Disks = [], is_Networks = [], is_ProviderConfig = [], is_Labels = [], is_Annotations = []\<rparr>"

definition small_handle :: instance_handle where
  "small_handle = \<lparr>ih_ID = ''jail-web'', ih_Provider = ''jail'', ih_Metadata = Map.empty\<rparr>"

definition ghost :: store_instance where
  "ghost = (createdInstanceRecord small_handle small_spec ''jail'')\<lparr>di_ID := ''old''\<rparr>"

definition small_env :: "store_instance list api_env" where
  "small_env =
     \<lparr>pe_Registered = (\<lambda>p. if p = ''jail'' then None else Some (Errorf ''provider not found: %s'' [p])),
      pe_Reconfigurable = (\<lambda>p. True), pe_HasAddresses = (\<lambda>p. False),
      pe_Create = (\<lambda>p sp w. (Inr small_handle, w)), pe_Delete = (\<lambda>p h f w. (None, w)), pe_Start = (\<lambda>p h w. (None, w)),
      pe_Stop = (\<lambda>p h f w. (None, w)), pe_Restart = (\<lambda>p h w. (None, w)), pe_Reconfigure = (\<lambda>p h sp w. (None, w)),
      pe_SetResources = (\<lambda>p h c m w. (None, w)), pe_State = (\<lambda>p h w. (Inr StateUnknown, w)),
      pe_Info = (\<lambda>p h w. (Inl (Errorf ''no info'' []), w)), pe_Addresses = (\<lambda>p h w. (Inr [], w)),
      pd_Get = (\<lambda>i w. (case find (\<lambda>x. di_ID x = i) w of Some x \<Rightarrow> Inr x | None \<Rightarrow> Inl (Errorf ''not found'' []), w)),
      pd_GetByName = (\<lambda>n w. (Inr (find (\<lambda>x. di_Name x = n) w), w)),
      pd_Create = (\<lambda>x w. (None, w @ [x])), pd_Delete = (\<lambda>i w. (None, filter (\<lambda>x. di_ID x \<noteq> i) w)),
      pd_UpdateSpec = (\<lambda>i sp w. (None, w)), pd_UpdateHandle = (\<lambda>i h w. (None, w)), pd_UpdateState = (\<lambda>i st w. (None, w)),
      pe_Firewall = None\<rparr>"

definition full_env :: "store_instance list api_env" where
  "full_env = small_env\<lparr>pd_Create := (\<lambda>x w. (Some (Errorf ''no space'' []), w))\<rparr>"

definition small_request :: "'b \<Rightarrow> 'b instance_request" where
  "small_request b =
     \<lparr>ir_permissions = Some [''write''], ir_clientIP = ''10.0.0.9'', ir_provider = ''jail'', ir_force = False, ir_wantsStream = False,
      ir_canFlush = True, ir_body = Inr b\<rparr>"

definition small_state :: "store_instance list \<Rightarrow> store_instance list api_state" where
  "small_state w = \<lparr>as_world = w, as_calls = []\<rparr>"

lemmas small_defs = small_spec_def small_handle_def ghost_def small_env_def full_env_def small_request_def small_state_def

lemma privileged_examples: "privilegedProviderConfigKey ''EXEC.prestart''" "privilegedProviderConfigKey ''path''"
  by code_simp+

text \<open>C9.
  A provider configuration that reaches the host needs the admin permission, on a creation and on an update alike: with a key that
  lacks it, a configuration that has a privileged key in any spelling or a mount from the host is answered with 400, 403 or 404, and the
  handler has called nothing but the store's lookups and the audit log. A creation does not even look the name up.
\<close>

theorem privileged_config_needs_admin:
  assumes "ir_permissions r = Some perms" "\<not> hasPerm perms ''admin''" "ir_body r = Inr spec"
    "(\<exists>(k, v) \<in> set (is_ProviderConfig spec). privilegedProviderConfigKey k) \<or> host_mount (is_ProviderConfig spec)"
    and "ir_permissions u = Some perms'" "\<not> hasPerm perms' ''admin''" "ir_body u = Inr req" "up_ProviderConfig req = Some config"
    "(\<exists>(k, v) \<in> set config. privilegedProviderConfigKey k) \<or> host_mount config"
  shows "as_world (snd (run_state (handleCreateInstance ev r) s)) = as_world s \<and>
    list_all harmless (new_calls (handleCreateInstance ev r) s) \<and>
    (case fst (run_state (handleCreateInstance ev r) s) of RError c m e \<Rightarrow> c = 400 \<or> c = 403 | _ \<Rightarrow> False) \<and>
    list_all harmless (new_calls (handleUpdateInstance ev u i) s) \<and>
    (case fst (run_state (handleUpdateInstance ev u i) s) of
       RError c m e \<Rightarrow> c = 404 \<or> c = 403 | RErrorf c f a e \<Rightarrow> c = 400 | _ \<Rightarrow> False)"
  using create_refused [OF assms(1-3), of ev s] update_refused [OF assms(5-8), of ev i s]
    assms(4,9) by (simp only: privileged_iff not_False_eq_True simp_thms)

theorem privileged_config_needs_admin_witness:
  "list_all harmless (new_calls (handleCreateInstance small_env
     (small_request (small_spec\<lparr>is_ProviderConfig := [(''EXEC.prestart'', CString ''id'')]\<rparr>))) (small_state [ghost]))"
proof -
  let ?spec = "small_spec\<lparr>is_ProviderConfig := [(''EXEC.prestart'', CString ''id'')]\<rparr>"
  let ?req = "\<lparr>up_Spec = None, up_ProviderConfig = Some [(''path'', CString ''/'')]\<rparr>"
  have gate: "ir_permissions (small_request b) = Some [''write'']" "\<not> hasPerm [''write''] ''admin''" "ir_body (small_request b) = Inr b" for b
    by (simp_all add: small_request_def hasPerm_def)
  have "\<exists>(k, v) \<in> set (is_ProviderConfig ?spec). privilegedProviderConfigKey k" "up_ProviderConfig ?req = Some [(''path'', CString ''/'')]"
    "\<exists>(k, v) \<in> set [(''path'', CString ''/'')]. privilegedProviderConfigKey k"
    by (simp_all add: privileged_examples)
  then show ?thesis
    using privileged_config_needs_admin [OF gate(1,2,3) disjI1 gate(1,2,3) _ disjI1, of ?spec ?req] by blast
qed

text \<open>C10.
  A creation that made an instance leaves it recorded or removes it again. Of the calls that make, record or remove an instance, a
  request makes none; or the provider refuses; or the instance is made and its record, with its identifier, specification and handle,
  is written, which is exactly when the answer is a success with that record; or the record could not be written, and the provider
  is asked by force to remove the instance it had just made.
\<close>

theorem created_instance_recorded_or_removed:
  assumes "ir_body r = Inr spec"
  shows "filter creates (new_calls (handleCreateInstance ev r) s) = [] \<and> created_response (fst (run_state (handleCreateInstance ev r) s)) = None \<or>
    creation_outcome (provider_of_request r spec) spec (filter creates (new_calls (handleCreateInstance ev r) s))
      (created_response (fst (run_state (handleCreateInstance ev r) s)))"
  using create_outcome [OF assms] .

lemma small_spec_valid: "ValidateInstanceSpec small_spec = None"
  unfolding small_spec_def by code_simp

lemma small_provider: "provider_of_request (small_request b) small_spec = ''jail''"
  by (simp add: provider_of_request_def small_defs)

lemma small_create_full:
  "new_calls (handleCreateInstance full_env (small_request small_spec)) (small_state []) =
     [DsRead ''web'', ProvCreate ''jail'' small_spec (Some small_handle), DsCreate (createdInstanceRecord small_handle small_spec ''jail'') False,
      ProvDelete ''jail'' small_handle True True]"
proof -
  have "ir_body (small_request small_spec) = Inr small_spec" "is_ProviderConfig small_spec = []" "is_Name small_spec = ''web''"
    "privilegedProviderConfig [] = []"
    by (simp_all add: small_defs privilegedProviderConfig_def configValue_def)
  then show ?thesis
    by (simp add: handleCreateInstance_def small_spec_valid small_provider refusePrivilegedConfig_def Let_def new_calls_def run_simps)
      (simp add: small_request_def full_env_def small_env_def small_state_def check_existing_def create_and_record_def record_created_def
        discardCreatedInstance_def prov_delete_def res_option_def run_simps Let_def)
qed

theorem created_instance_recorded_or_removed_witness:
  "creation_outcome ''jail'' small_spec
     [ProvCreate ''jail'' small_spec (Some small_handle), DsCreate (createdInstanceRecord small_handle small_spec ''jail'') False,
      ProvDelete ''jail'' small_handle True True] None"
proof -
  have body: "ir_body (small_request small_spec) = Inr small_spec" by (simp add: small_request_def)
  show ?thesis
    using created_instance_recorded_or_removed [OF body, of full_env "small_state []"]
    by (simp add: small_create_full small_provider creation_outcome_def)
qed


text \<open>C11.
  A record is dropped as a ghost's only when the provider that owns it says that it does not know the instance. Every record removed and
  every firewall rule dropped by a creation belongs to the instance of that name the store returned, and that instance's own provider had
  answered \<open>unknown\<close> about its handle; an answer that failed removes nothing. And as long as the store returns an instance of
  that name, a new one is made only after that answer.
\<close>

theorem ghost_removed_only_when_unknown:
  assumes "ir_body r = Inr spec" "c \<in> set (new_calls (handleCreateInstance ev r) s)"
  shows "(removes c \<longrightarrow> (\<exists>i. fst (pd_GetByName ev (is_Name spec) (as_world s)) = Inr (Some i) \<and> ghost_call i c \<and>
      says_unknown i \<in> set (new_calls (handleCreateInstance ev r) s))) \<and>
    ((\<exists>p sp h. c = ProvCreate p sp h) \<longrightarrow> (\<forall>i. fst (pd_GetByName ev (is_Name spec) (as_world s)) = Inr (Some i) \<longrightarrow>
      says_unknown i \<in> set (new_calls (handleCreateInstance ev r) s)))"
proof -
  let ?K = "check_existing ev (is_Name spec)" and ?s1 = "after_gate r spec s"
  have world: "as_world ?s1 = as_world s" by (simp add: after_gate_def refuse_world)
  have kept: "\<not> removes x \<and> \<not> (\<exists>p sp h. x = ProvCreate p sp h)" if "harmless x" for x using that by (cases x) auto
  have made: "\<not> removes x" if "creates x" for x using that by (cases x) auto
  have quiet: "\<not> (\<exists>p sp h. x = ProvCreate p sp h)" if "x \<in> set (new_calls ?K t)" for x t
    using new_callsI [OF check_existing_grows [of "\<lambda>c. \<not> creates c" ev "is_Name spec"], of t] that by (auto simp: list_all_iff)
  have "\<exists>i. fst (pd_GetByName ev (is_Name spec) (as_world s)) = Inr (Some i) \<and> ghost_call i c \<and>
      says_unknown i \<in> set (new_calls (handleCreateInstance ev r) s)" if "removes c"
    using assms(1)
  proof (cases rule: create_calls_split [where ev = ev and s = s])
    case (1 gate rest)
    with assms(2) that kept have "c \<in> set rest" by (auto simp: list_all_iff)
    with 1 check_existing_removes [of c ev "is_Name spec" ?s1] that world show ?thesis by auto
  next
    case (2 gate made)
    with assms(2) that kept \<open>\<And>x. creates x \<Longrightarrow> \<not> removes x\<close> have "c \<in> set (new_calls ?K ?s1)" by (auto simp: list_all_iff)
    with 2 check_existing_removes [of c ev "is_Name spec" ?s1] that world show ?thesis by auto
  qed
  moreover have "says_unknown i \<in> set (new_calls (handleCreateInstance ev r) s)"
    if c: "c = ProvCreate p sp h" and i: "fst (pd_GetByName ev (is_Name spec) (as_world s)) = Inr (Some i)" for p sp h i
    using assms(1)
  proof (cases rule: create_calls_split [where ev = ev and s = s])
    case (1 gate rest)
    with kept quiet [of c ?s1] c have "c \<notin> set (gate @ rest)" by (auto simp: list_all_iff)
    with 1(1) assms(2) show ?thesis by simp
  next
    case (2 gate made)
    with check_existing_passes [of ev "is_Name spec" ?s1 i] i world show ?thesis by auto
  qed
  ultimately show ?thesis by blast
qed

lemma small_create_ghost:
  "new_calls (handleCreateInstance small_env (small_request small_spec)) (small_state [ghost]) =
     [DsRead ''web'', says_unknown ghost, DsDelete ''old'' True, ProvCreate ''jail'' small_spec (Some small_handle),
      DsCreate (createdInstanceRecord small_handle small_spec ''jail'') True]"
proof -
  have "ir_body (small_request small_spec) = Inr small_spec" "is_ProviderConfig small_spec = []" "is_Name small_spec = ''web''"
    "privilegedProviderConfig [] = []"
    by (simp_all add: small_defs privilegedProviderConfig_def configValue_def)
  moreover have "di_Name ghost = ''web''" "di_Provider ghost = ''jail''" "di_ID ghost = ''old''"
    by (simp_all add: ghost_def createdInstanceRecord_def small_spec_def)
  ultimately show ?thesis
    by (simp add: handleCreateInstance_def small_spec_valid small_provider refusePrivilegedConfig_def Let_def new_calls_def run_simps)
      (simp add: small_request_def small_env_def small_state_def check_existing_def cleanupFirewallRules_def create_and_record_def
        record_created_def res_option_def run_simps Let_def)
qed

theorem ghost_removed_only_when_unknown_witness:
  "\<exists>i. fst (pd_GetByName small_env ''web'' [ghost]) = Inr (Some i) \<and> ghost_call i (DsDelete ''old'' True) \<and>
     says_unknown i \<in> set (new_calls (handleCreateInstance small_env (small_request small_spec)) (small_state [ghost]))"
proof -
  have "ir_body (small_request small_spec) = Inr small_spec" "is_Name small_spec = ''web''" "as_world (small_state [ghost]) = [ghost]"
    by (simp_all add: small_request_def small_spec_def small_state_def)
  then show ?thesis
    using ghost_removed_only_when_unknown [of "small_request small_spec" small_spec "DsDelete ''old'' True" small_env "small_state [ghost]"]
    by (simp add: small_create_ghost)
qed


lemma small_lookup: "fst (run_state (lookupInstance small_env ''web'') (small_state [ghost])) = Inr ghost"
  by (simp add: lookupInstance_def small_defs createdInstanceRecord_def run_simps)


text \<open>C13.
  An instance the provider could not delete keeps its record. A deletion of an instance that is found asks the provider first and touches
  nothing else when that fails; otherwise the firewall rules of its name are dropped, then its record, and the answer is 204 exactly when
  the record is gone.
\<close>

theorem delete_keeps_record_on_failure:
  assumes "fst (run_state (lookupInstance ev n) s) = Inr i" "pe_Registered ev (di_Provider i) = None"
  shows "delete_outcome i (ir_force r) (filter (\<lambda>c. \<not> harmless c) (new_calls (handleDeleteInstance ev r n) s))
    (fst (run_state (handleDeleteInstance ev r n) s) = RNoContent)"
  using assms by (rule delete_calls)

theorem delete_keeps_record_on_failure_witness:
  "delete_outcome ghost False
     (filter (\<lambda>c. \<not> harmless c) (new_calls (handleDeleteInstance small_env (small_request ()) ''web'') (small_state [ghost])))
     (fst (run_state (handleDeleteInstance small_env (small_request ()) ''web'') (small_state [ghost])) = RNoContent)"
proof -
  have "pe_Registered small_env (di_Provider ghost) = None" "ir_force (small_request ()) = False"
    by (simp_all add: small_defs createdInstanceRecord_def)
  with small_lookup show ?thesis using delete_keeps_record_on_failure [of small_env "''web''" "small_state [ghost]" ghost "small_request ()"] by simp
qed

section \<open>Merging\<close>

lemma mergeInstanceSpec_idem: "mergeInstanceSpec (mergeInstanceSpec d x) x = mergeInstanceSpec d x"
  by (simp add: mergeInstanceSpec_def pick_def)

lemma fill_first_keeps: "ns_IPv4 (ns ! k) \<noteq> [] \<Longrightarrow> k < length ns \<Longrightarrow> fill_first ip ns ! k = ns ! k"
  by (induction ns arbitrary: k) (auto simp: nth_Cons split: nat.splits)

end
