(* ===== verification/Spec2Isabelle.thy ===== *)
theory Spec2Isabelle
  imports Validation_Thms Jobs_Thms Locks Middleware_Thms Health_Thms Stack_Ops_Thms Backup_Safety Firewall_Anchor
    Manifest_Parser_Thms Manifest_Validator_Thms Manifest_Convert_Thms Audit_Writer Storage_Thms
    Instances_Thms
begin

text \<open>
  \<^bold>\<open>Hospitus: a verification development.\<close>

  Hospitus runs jails, virtual machines and containers behind one HTTP API. The daemon
  authenticates a request (\<open>internal/auth\<close>, \<open>internal/api/middleware.go\<close>), validates its input
  (\<open>pkg/validation\<close>), runs long operations as jobs (\<open>pkg/job\<close>) under per-instance locks
  (\<open>pkg/provider/locks.go\<close>) and calls the provider of the instance through a registry
  (\<open>pkg/provider\<close>). Stacks of instances are deployed in dependency order, watched by a health checker
  that restarts them and published in a service registry (\<open>pkg/orchestration\<close>). Backups
  (\<open>pkg/backup\<close>) and firewall rules (\<open>pkg/firewall\<close>) have managers of their own. Workloads and stacks are
  described by TOML manifests (\<open>pkg/manifest\<close>), rendered as templates that may read generated secrets.

  \<^bold>\<open>Conventions.\<close> A Go string is a list of 8-bit characters and an error a value of \<^typ>\<open>go_error\<close>
  (\<^verbatim>\<open>Prelude\<close>). A function that returns a value and an error is a sum; one that changes a receiver takes
  and returns the receiver's record. Maps with pointers to mutable structs are a map to positions of a heap list. What lies
  outside the repository or the process (providers, the store, the file system, \<open>zfs\<close>, \<open>pfctl\<close>, hash
  comparison, JSON) is a function in an environment record, so every error branch of the source can be taken; the
  order in which Go visits a map is an argument. Concurrent code is a step relation whose steps are the
  critical sections of the source.

  \<^bold>\<open>Theories.\<close>
  \<^item> \<^verbatim>\<open>Prelude\<close>, \<^verbatim>\<open>Regex\<close>, \<^verbatim>\<open>NetIP\<close>: errors, \<open>strings\<close>, \<open>strconv\<close> and \<open>utf8\<close>, regular
    expressions by derivatives, addresses and CIDR prefixes, with the lemmas the components share.
  \<^item> \<^verbatim>\<open>Provider\<close>: the data of \<open>provider.go\<close>, the provider registry, error wrapping, child environments.
  \<^item> \<^verbatim>\<open>Validation\<close>, \<^verbatim>\<open>Validation_Thms\<close>: the validators of \<open>validation.go\<close> and \<open>zfs.go\<close>, and the exact languages the
    important ones accept.
  \<^item> \<^verbatim>\<open>Paths\<close>: \<open>path.go\<close> over a tree with symbolic links, at most 255 of which are followed as in \<open>EvalSymlinks\<close>; the confinement
    check is exact for paths that exist.
  \<^item> \<^verbatim>\<open>Jobs\<close>, \<^verbatim>\<open>Jobs_Thms\<close>: the job manager, its workers and its shutdown as steps; life cycle, hook calls, draining.
  \<^item> \<^verbatim>\<open>Locks\<close>: instance locks; mutual exclusion, no leaked entry, no deadlock of \<open>AcquireAll\<close>.
  \<^item> \<^verbatim>\<open>Auth\<close>, \<^verbatim>\<open>Middleware\<close>, \<^verbatim>\<open>Middleware_Thms\<close>: API keys, required permissions, client addresses, the
    middleware chain; no handler runs for a request without the permission of its route.
  \<^item> \<^verbatim>\<open>Dependencies\<close>: the deployment order of a stack; it exists exactly for acyclic known dependencies.
  \<^item> \<^verbatim>\<open>Health\<close>, \<^verbatim>\<open>Health_Thms\<close>: health checks, their notifications (a queue of at most 1024) and automatic restarts.
  \<^item> \<^verbatim>\<open>Discovery\<close>: the service registry, names and generated environments.
  \<^item> \<^verbatim>\<open>Stack\<close>, \<^verbatim>\<open>Stack_Thms\<close>, \<^verbatim>\<open>Stack_Ops_Thms\<close>: the stack manager over the four theories before; deployment with
    rollback, start, stop, destroy, health changes. A wait for health is a list of poll results of length at most 150, the
    number the source's time limit admits.
  \<^item> \<^verbatim>\<open>Backup\<close>, \<^verbatim>\<open>Backup_Thms\<close>, \<^verbatim>\<open>Backup_Retention\<close>, \<^verbatim>\<open>Backup_Safety\<close>: the backup manager; no operation breaks the chain
    of an incremental backup, retention equals a reference definition, hooks are confined, stored forms read back.
  \<^item> \<^verbatim>\<open>Firewall\<close>, \<^verbatim>\<open>Firewall_Thms\<close>, \<^verbatim>\<open>Firewall_Mappings\<close>, \<^verbatim>\<open>Firewall_Anchor\<close>: the PF backend's rule files as lists of
    entries, host ports, the anchor, the manager's rule sets.
  \<^item> \<^verbatim>\<open>Audit_Log\<close>, \<^verbatim>\<open>Audit_Thms\<close>, \<^verbatim>\<open>Audit_Writer\<close>: the audit log of \<open>internal/security\<close> over its directory: rotation, compression,
    retention and queries, then \<open>Log\<close>, the writer goroutine and \<open>Close\<close> interleaved. The search for a free name is the source's own 1001 tries.
  \<^item> \<^verbatim>\<open>Storage\<close>, \<^verbatim>\<open>Storage_Thms\<close>: the ZFS backend of \<open>pkg/storage\<close> in the state monad; its commands stay below the parent dataset. What
    a computation may do to the state is a locale of reflexive and transitive relations (\<^verbatim>\<open>Computations\<close>), interpreted on the growth of
    the command log.
  \<^item> \<^verbatim>\<open>Instances\<close>, \<^verbatim>\<open>Instances_Thms\<close>: the instance handlers of the API over the providers, the store and the firewall manager; who may pass a
    privileged configuration, what a failed creation, update or deletion leaves, when a record is dropped as a ghost's.
  \<^item> \<^verbatim>\<open>Secrets\<close>, \<^verbatim>\<open>Template\<close>: the secret store, alone and shared by processes; rendering and its functions.
  \<^item> \<^verbatim>\<open>Manifest\<close>, \<^verbatim>\<open>Manifest_Thms\<close>: the data of a manifest, sizes (a \<open>float64\<close> is an integer multiple of its smallest unit), defaults.
  \<^item> \<^verbatim>\<open>Manifest_Parser\<close>, \<^verbatim>\<open>Manifest_Parser_Thms\<close>: the scan before rendering, the scope of the secrets, parsing; what is
    returned has its defaults.
  \<^item> \<^verbatim>\<open>Manifest_Validator\<close>, \<^verbatim>\<open>Manifest_Validator_Thms\<close>: the validator. The search for a dependency cycle is bounded by the number of
    instances, which is shown to be enough; its verdict and that of \<^verbatim>\<open>Dependencies\<close> agree.
  \<^item> \<^verbatim>\<open>Manifest_Convert\<close>, \<^verbatim>\<open>Manifest_Convert_Thms\<close>: manifests to provider specifications; workloads and stack instances are
    converted alike, user data is confined, disks are large enough.

  \<^bold>\<open>Interfaces.\<close> Each locale states what a client relies on and is interpreted on the model's own definitions, for instance the
  criterion by which blocks of a rule file are dropped (by id and by instance) in \<^verbatim>\<open>Firewall_Thms\<close>.

  \<^bold>\<open>Not modelled.\<close> The command lines (\<open>cmd\<close>), the HTTP client, the API handlers beyond the middleware and the instance handlers (they decode
  JSON and forward), the providers themselves (they format command lines for external programs and parse their output), the SQL store,
  image downloads, the writing of cloud-init images, the metrics and the cluster's ssh keys: their behaviour is that of the
  systems they call, and what the modelled components rely on is in their environment records.
\<close>

end
